(* ===== verification/Go_Prelude.thy ===== *)
theory Go_Prelude
  imports Complex_Main "HOL-Library.AList" "HOL-Library.Sublist" "HOL-Library.Multiset"
    "HOL-Library.Word" "HOL-Library.Char_ord" "HOL-Library.List_Lexorder"
begin

text \<open>
  The prelude of the development: what the Go sources use of the language and of its
  standard library, as executable HOL functions, and the generic lemmas the component
  theories share.

  \<^item> A Go string is a list of bytes, so it is a \<^typ>\<open>string\<close> here and \<open>length\<close> counts
    bytes as \<open>len\<close> does. \<open>strings.TrimSpace\<close> is modelled on UTF-8: \<open>ws_runes\<close> lists the
    encodings of the runes for which \<open>unicode.IsSpace\<close> holds. \<open>strings.ToUpper\<close> is
    modelled on ASCII (bytes above 127 are kept): the sources apply it to HTTP method names.
  \<^item> An \<open>error\<close> result is its message or \<open>nil\<close>; the control plane classifies errors by
    searching the message, so messages are kept verbatim, \<open>%q\<close> and \<open>%d\<close> included.
  \<^item> A Go map is an association list with distinct keys. A \<open>range\<close> over a map visits the
    entries in an order the runtime chooses: operations that range over a map take that
    choice as a parameter \<open>it\<close>, of which they rely on \<open>is_range it\<close> only (a permutation).
  \<^item> A \<open>time.Time\<close> or \<open>time.Duration\<close> is an \<^typ>\<open>int\<close> count of nanoseconds, a time whose
    \<open>IsZero\<close> the code tests an option; each locked method body reads the clock once, and
    the instant is an argument.
\<close>

section \<open>Strings\<close>

named_theorems go_str \<open>unfolding rules of the string functions\<close>

definition HasPrefix :: "string \<Rightarrow> string \<Rightarrow> bool" where
  [go_str]: "HasPrefix s p \<longleftrightarrow> prefix p s"

definition HasSuffix :: "string \<Rightarrow> string \<Rightarrow> bool" where
  [go_str]: "HasSuffix s x \<longleftrightarrow> prefix (rev x) (rev s)"

definition TrimPrefix :: "string \<Rightarrow> string \<Rightarrow> string" where
  [go_str]: "TrimPrefix s p = (if HasPrefix s p then drop (length p) s else s)"

definition TrimSuffix :: "string \<Rightarrow> string \<Rightarrow> string" where
  [go_str]: "TrimSuffix s x = (if HasSuffix s x then take (length s - length x) s else s)"

text \<open>\<open>strings.Index\<close>: the offset of the first occurrence; \<^term>\<open>None\<close> for -1.\<close>

fun Index :: "string \<Rightarrow> string \<Rightarrow> nat option" where
  "Index [] sub = (if sub = [] then Some 0 else None)"
| "Index (c # cs) sub = (if prefix sub (c # cs) then Some 0 else map_option Suc (Index cs sub))"

definition IndexByte :: "string \<Rightarrow> char \<Rightarrow> nat option" where
  [go_str]: "IndexByte s c = Index s [c]"

definition Contains :: "string \<Rightarrow> string \<Rightarrow> bool" where
  [go_str]: "Contains s sub \<longleftrightarrow> Index s sub \<noteq> None"

text \<open>\<open>strings.Split\<close> for a one-byte separator, and \<open>strings.Join\<close>.\<close>

fun Split :: "string \<Rightarrow> char \<Rightarrow> string list" where
  "Split [] c = [[]]"
| "Split (x # xs) c =
     (if x = c then [] # Split xs c
      else (case Split xs c of [] \<Rightarrow> [[x]] | p # ps \<Rightarrow> (x # p) # ps))"

fun Join :: "string list \<Rightarrow> string \<Rightarrow> string" where
  "Join [] sep = []"
| "Join [p] sep = p"
| "Join (p # q # ps) sep = p @ sep @ Join (q # ps) sep"

text \<open>\<open>strings.SplitN(s, c, 2)\<close>: the text before the first separator, and what follows.\<close>

definition SplitN2 :: "string \<Rightarrow> char \<Rightarrow> string list" where
  [go_str]: "SplitN2 s c =
     (case IndexByte s c of None \<Rightarrow> [s] | Some i \<Rightarrow> [take i s, drop (Suc i) s])"

text \<open>\<open>strings.Trim(s, c)\<close> for a one-byte cutset.\<close>

definition TrimByte :: "string \<Rightarrow> char \<Rightarrow> string" where
  [go_str]: "TrimByte s c = rev (dropWhile ((=) c) (rev (dropWhile ((=) c) s)))"

text \<open>The UTF-8 encodings of the white-space runes of \<open>unicode.IsSpace\<close>.\<close>

definition ws_runes :: "string list" where
  "ws_runes =
     [[CHR 0x09], [CHR 0x0A], [CHR 0x0B], [CHR 0x0C], [CHR 0x0D], [CHR 0x20],
      [CHR 0xC2, CHR 0x85], [CHR 0xC2, CHR 0xA0], [CHR 0xE1, CHR 0x9A, CHR 0x80],
      [CHR 0xE2, CHR 0x80, CHR 0x80], [CHR 0xE2, CHR 0x80, CHR 0x81],
      [CHR 0xE2, CHR 0x80, CHR 0x82], [CHR 0xE2, CHR 0x80, CHR 0x83],
      [CHR 0xE2, CHR 0x80, CHR 0x84], [CHR 0xE2, CHR 0x80, CHR 0x85],
      [CHR 0xE2, CHR 0x80, CHR 0x86], [CHR 0xE2, CHR 0x80, CHR 0x87],
      [CHR 0xE2, CHR 0x80, CHR 0x88], [CHR 0xE2, CHR 0x80, CHR 0x89],
      [CHR 0xE2, CHR 0x80, CHR 0x8A], [CHR 0xE2, CHR 0x80, CHR 0xA8],
      [CHR 0xE2, CHR 0x80, CHR 0xA9], [CHR 0xE2, CHR 0x80, CHR 0xAF],
      [CHR 0xE2, CHR 0x81, CHR 0x9F], [CHR 0xE3, CHR 0x80, CHR 0x80]]"

text \<open>Removing the leading members of a list of tokens, as long as there is one.\<close>

function strip :: "string list \<Rightarrow> string \<Rightarrow> string" where
  "strip ws s = (case find (\<lambda>w. w \<noteq> [] \<and> prefix w s) ws of
      None \<Rightarrow> s
    | Some w \<Rightarrow> strip ws (drop (length w) s))"
  by pat_completeness auto
termination
proof (relation "measure (\<lambda>(ws, s). length s)", goal_cases)
  case (2 ws s w)
  then have "w \<noteq> []" "prefix w s" by (auto simp: find_Some_iff)
  then show ?case by (cases s) (auto simp: prefix_def)
qed simp

declare strip.simps [simp del]

definition TrimSpace :: "string \<Rightarrow> string" where
  "TrimSpace s = rev (strip (map rev ws_runes) (rev (strip ws_runes s)))"

definition upper_byte :: "char \<Rightarrow> char" where
  "upper_byte c = (if CHR ''a'' \<le> c \<and> c \<le> CHR ''z'' then char_of (of_char c - (32 :: nat)) else c)"

definition lower_byte :: "char \<Rightarrow> char" where
  "lower_byte c = (if CHR ''A'' \<le> c \<and> c \<le> CHR ''Z'' then char_of (of_char c + (32 :: nat)) else c)"

definition ToUpper :: "string \<Rightarrow> string" where
  "ToUpper s = map upper_byte s"

text \<open>
  \<open>strings.ToLower\<close> of valid UTF-8. The table has the runes whose lower case takes another number of
  bytes, two of them ASCII letters; the bytes of the other runes outside ASCII are left as they are, so
  the result agrees with that of Go in its length and in every ASCII byte.
\<close>

definition lower_runes :: "(string \<times> string) list" where
  "lower_runes = [
     ([CHR 0xC4, CHR 0xB0], ''i''),
     ([CHR 0xC8, CHR 0xBA], [CHR 0xE2, CHR 0xB1, CHR 0xA5]),
     ([CHR 0xC8, CHR 0xBE], [CHR 0xE2, CHR 0xB1, CHR 0xA6]),
     ([CHR 0xE1, CHR 0xBA, CHR 0x9E], [CHR 0xC3, CHR 0x9F]),
     ([CHR 0xE2, CHR 0x84, CHR 0xA6], [CHR 0xCF, CHR 0x89]),
     ([CHR 0xE2, CHR 0x84, CHR 0xAA], ''k''),
     ([CHR 0xE2, CHR 0x84, CHR 0xAB], [CHR 0xC3, CHR 0xA5]),
     ([CHR 0xE2, CHR 0xB1, CHR 0xA2], [CHR 0xC9, CHR 0xAB]),
     ([CHR 0xE2, CHR 0xB1, CHR 0xA4], [CHR 0xC9, CHR 0xBD]),
     ([CHR 0xE2, CHR 0xB1, CHR 0xAD], [CHR 0xC9, CHR 0x91]),
     ([CHR 0xE2, CHR 0xB1, CHR 0xAE], [CHR 0xC9, CHR 0xB1]),
     ([CHR 0xE2, CHR 0xB1, CHR 0xAF], [CHR 0xC9, CHR 0x90]),
     ([CHR 0xE2, CHR 0xB1, CHR 0xB0], [CHR 0xC9, CHR 0x92]),
     ([CHR 0xE2, CHR 0xB1, CHR 0xBE], [CHR 0xC8, CHR 0xBF]),
     ([CHR 0xE2, CHR 0xB1, CHR 0xBF], [CHR 0xC9, CHR 0x80]),
     ([CHR 0xEA, CHR 0x9E, CHR 0x8D], [CHR 0xC9, CHR 0xA5]),
     ([CHR 0xEA, CHR 0x9E, CHR 0xAA], [CHR 0xC9, CHR 0xA6]),
     ([CHR 0xEA, CHR 0x9E, CHR 0xAB], [CHR 0xC9, CHR 0x9C]),
     ([CHR 0xEA, CHR 0x9E, CHR 0xAC], [CHR 0xC9, CHR 0xA1]),
     ([CHR 0xEA, CHR 0x9E, CHR 0xAD], [CHR 0xC9, CHR 0xAC]),
     ([CHR 0xEA, CHR 0x9E, CHR 0xAE], [CHR 0xC9, CHR 0xAA]),
     ([CHR 0xEA, CHR 0x9E, CHR 0xB0], [CHR 0xCA, CHR 0x9E]),
     ([CHR 0xEA, CHR 0x9E, CHR 0xB1], [CHR 0xCA, CHR 0x87]),
     ([CHR 0xEA, CHR 0x9E, CHR 0xB2], [CHR 0xCA, CHR 0x9D]),
     ([CHR 0xEA, CHR 0x9F, CHR 0x85], [CHR 0xCA, CHR 0x82])]"

function ToLower :: "string \<Rightarrow> string" where
  "ToLower [] = []"
| "ToLower (c # s) = (case find (\<lambda>(u, l). prefix u (c # s)) lower_runes of
     Some (u, l) \<Rightarrow> l @ ToLower (drop (length u - 1) s)
   | None \<Rightarrow> lower_byte c # ToLower s)"
  by pat_completeness auto
termination by (relation "measure length") auto

declare ToLower.simps(2) [simp del]

definition ascii :: "string \<Rightarrow> bool" where
  "ascii s \<longleftrightarrow> list_all (\<lambda>c. (of_char c :: nat) < 128) s"

lemma lower_runes_head: "(u, l) \<in> set lower_runes \<Longrightarrow> u \<noteq> [] \<and> (of_char (hd u) :: nat) \<ge> 128"
  by (simp add: lower_runes_def) (elim disjE; simp)

lemma ToLower_ascii: "ascii s \<Longrightarrow> ToLower s = map lower_byte s"
proof (induction s)
  case (Cons c s)
  have "\<not> prefix u (c # s)" if "(u, l) \<in> set lower_runes" for u l
    using lower_runes_head [OF that] Cons.prems by (cases u) (auto simp: ascii_def)
  then have "find (\<lambda>(u, l). prefix u (c # s)) lower_runes = None" by (auto simp: find_None_iff)
  then show ?case using Cons by (simp add: ToLower.simps(2) ascii_def)
qed simp

text \<open>\<open>strings.LastIndex\<close>.\<close>

fun LastIndex :: "string \<Rightarrow> string \<Rightarrow> nat option" where
  "LastIndex [] sub = (if sub = [] then Some 0 else None)"
| "LastIndex (c # s) sub = (case LastIndex s sub of
     Some i \<Rightarrow> Some (Suc i)
   | None \<Rightarrow> if prefix sub (c # s) then Some 0 else None)"

lemma LastIndex_None_iff: "LastIndex s sub = None \<longleftrightarrow> \<not> sublist sub s"
  by (induction s) (auto simp: sublist_Cons_right split: option.splits)

lemma LastIndex_Some:
  "LastIndex s sub = Some i \<Longrightarrow> sub \<noteq> [] \<Longrightarrow> i + length sub \<le> length s \<and> prefix sub (drop i s) \<and> \<not> sublist sub (drop (Suc i) s)"
proof (induction s arbitrary: i)
  case (Cons c s)
  show ?case
  proof (cases "LastIndex s sub")
    case None
    then have "prefix sub (c # s)" "i = 0" using Cons.prems by (auto split: if_splits)
    moreover have "\<not> sublist sub s" using None by (simp add: LastIndex_None_iff)
    ultimately show ?thesis by (auto dest: prefix_length_le)
  next
    case (Some k)
    then show ?thesis using Cons by auto
  qed
qed (auto split: if_splits)

subsection \<open>Formatting\<close>

text \<open>The decimal form of an integer (\<open>%d\<close>).\<close>

fun digits :: "nat \<Rightarrow> string" where
  "digits n = (if n < 10 then [char_of (48 + n)] else digits (n div 10) @ [char_of (48 + n mod 10)])"

declare digits.simps [simp del]

definition Itoa :: "int \<Rightarrow> string" where
  "Itoa i = (if i < 0 then CHR ''-'' # digits (nat (- i)) else digits (nat i))"

text \<open>
  \<open>%q\<close> (\<open>strconv.Quote\<close>): the ASCII escapes of Go; a byte above 127 is taken to belong to a
  printable rune, which Quote keeps.
\<close>

definition hex_digit :: "nat \<Rightarrow> char" where
  "hex_digit n = (if n < 10 then char_of (48 + n) else char_of (87 + n))"

definition quote_byte :: "char \<Rightarrow> string" where
  "quote_byte c =
     (let n = (of_char c :: nat) in
      if n = 34 then [CHR 0x5C, CHR 0x22] else if n = 92 then [CHR 0x5C, CHR 0x5C]
      else if n = 7 then [CHR 0x5C, CHR ''a''] else if n = 8 then [CHR 0x5C, CHR ''b'']
      else if n = 12 then [CHR 0x5C, CHR ''f''] else if n = 10 then [CHR 0x5C, CHR ''n'']
      else if n = 13 then [CHR 0x5C, CHR ''r''] else if n = 9 then [CHR 0x5C, CHR ''t'']
      else if n = 11 then [CHR 0x5C, CHR ''v'']
      else if n < 32 \<or> n = 127 then [CHR 0x5C, CHR ''x'', hex_digit (n div 16), hex_digit (n mod 16)]
      else [c])"

definition Quote :: "string \<Rightarrow> string" where
  "Quote s = CHR 0x22 # concat (map quote_byte s) @ [CHR 0x22]"

text \<open>\<open>%.2f\<close>: the nearest hundredth, ties to the even one.\<close>

definition round_even :: "rat \<Rightarrow> int" where
  "round_even x =
     (let f = \<lfloor>x\<rfloor>; d = x - of_int f in
      if d < 1 / 2 then f else if d > 1 / 2 then f + 1 else if even f then f else f + 1)"

definition Fmt2 :: "rat \<Rightarrow> string" where
  "Fmt2 r =
     (let n = round_even (\<bar>r\<bar> * 100) in
      (if r < 0 then ''-'' else []) @ Itoa (n div 100) @ ''.'' @ Itoa (n mod 100 div 10) @ Itoa (n mod 10))"

subsection \<open>Lemmas\<close>

lemma HasSuffix_iff: "HasSuffix s x \<longleftrightarrow> suffix x s"
  by (simp add: HasSuffix_def suffix_to_prefix)

lemma HasPrefix_Nil [simp]: "HasPrefix s []"
  by (simp add: HasPrefix_def)

lemma HasPrefix_Cons [simp]: "HasPrefix (c # s) (d # p) \<longleftrightarrow> c = d \<and> HasPrefix s p"
  by (auto simp: HasPrefix_def)

lemma HasPrefix_Nil_Cons [simp]: "\<not> HasPrefix [] (d # p)"
  by (simp add: HasPrefix_def)

lemma HasPrefix_append [simp]: "HasPrefix (p @ s) p"
  by (simp add: HasPrefix_def)

lemma HasPrefix_split: "HasPrefix s p \<longleftrightarrow> (\<exists>r. s = p @ r)"
  by (auto simp: HasPrefix_def prefix_def)

lemma HasSuffix_snoc [simp]: "HasSuffix (s @ [c]) [d] \<longleftrightarrow> c = d"
  by (auto simp: HasSuffix_def)

lemma TrimPrefix_append [simp]: "TrimPrefix (p @ s) p = s"
  by (simp add: TrimPrefix_def)

lemma TrimSuffix_append [simp]: "TrimSuffix (s @ x) x = s"
  by (simp add: TrimSuffix_def HasSuffix_iff suffix_def)

lemma Index_le: "Index s sub = Some i \<Longrightarrow> i + length sub \<le> length s"
  by (induction s arbitrary: i) (auto split: if_splits dest: prefix_length_le)

lemma Index_decomp: "Index s sub = Some i \<Longrightarrow> s = take i s @ sub @ drop (i + length sub) s"
proof (induction s arbitrary: i)
  case Nil
  then show ?case by (simp split: if_splits)
next
  case (Cons c cs)
  show ?case
  proof (cases "prefix sub (c # cs)")
    case True
    with Cons.prems show ?thesis by (auto simp: prefix_def)
  next
    case False
    with Cons.prems obtain j where "Index cs sub = Some j" and i: "i = Suc j" by auto
    then have "cs = take j cs @ sub @ drop (j + length sub) cs" using Cons.IH by blast
    then show ?thesis using i by simp
  qed
qed

lemma Index_None_iff: "Index s sub = None \<longleftrightarrow> \<not> sublist sub s"
  by (induction s) (auto simp: sublist_Cons_right)

lemma Contains_iff: "Contains s sub \<longleftrightarrow> sublist sub s"
  by (auto simp: Contains_def Index_None_iff)

lemma IndexByte_None_iff: "IndexByte s c = None \<longleftrightarrow> c \<notin> set s"
  by (induction s) (auto simp: IndexByte_def)

lemma IndexByte_Some_iff:
  "IndexByte s c = Some i \<longleftrightarrow> i < length s \<and> s ! i = c \<and> c \<notin> set (take i s)"
proof (induction s arbitrary: i)
  case (Cons x xs)
  then show ?case by (cases i) (auto simp: IndexByte_def)
qed (simp add: IndexByte_def)

lemma IndexByte_first:
  "c \<notin> set p \<Longrightarrow> IndexByte (p @ c # r) c = Some (length p)"
  by (simp add: IndexByte_Some_iff nth_append)

lemma Split_not_Nil [simp]: "Split s c \<noteq> []"
  by (induction s) (auto split: list.splits)

lemma Split_no_sep: "c \<notin> set s \<Longrightarrow> Split s c = [s]"
  by (induction s) auto

lemma Split_append: "c \<notin> set p \<Longrightarrow> Split (p @ c # r) c = p # Split r c"
  by (induction p) auto

lemma Split_append_sep: "Split (p @ c # r) c = Split p c @ Split r c"
proof (induction p)
  case (Cons x p)
  obtain q qs where "Split p c = q # qs" by (cases "Split p c") auto
  with Cons show ?case by simp
qed simp

lemma Split_no_sep_parts: "p \<in> set (Split s c) \<Longrightarrow> c \<notin> set p"
  by (induction s arbitrary: p) (auto split: list.splits if_splits)

lemma Join_Split: "Join (Split s c) [c] = s"
proof (induction s)
  case (Cons x xs)
  obtain p ps where ps: "Split xs c = p # ps" by (cases "Split xs c") auto
  with Cons show ?case by (cases ps) auto
qed simp

lemma Split_Join:
  "ps \<noteq> [] \<Longrightarrow> \<forall>p \<in> set ps. c \<notin> set p \<Longrightarrow> Split (Join ps [c]) c = ps"
proof (induction ps "[c]" rule: Join.induct)
  case (3 p q ps)
  then show ?case using Split_append [of c p "Join (q # ps) [c]"] by simp
qed (auto simp: Split_no_sep)

text \<open>\<open>strip\<close> and \<open>TrimSpace\<close>.\<close>

lemma strip_suffix: "suffix (strip ws s) s"
proof (induction ws s rule: strip.induct)
  case (1 ws s)
  show ?case
  proof (cases "find (\<lambda>w. w \<noteq> [] \<and> prefix w s) ws")
    case None
    then show ?thesis by (simp add: strip.simps)
  next
    case (Some w)
    with 1 have "suffix (strip ws (drop (length w) s)) (drop (length w) s)" by simp
    then have "suffix (strip ws (drop (length w) s)) s"
      by (meson suffix_drop suffix_order.trans)
    with Some show ?thesis by (simp add: strip.simps [of ws s])
  qed
qed

lemma strip_no_token: "w \<in> set ws \<Longrightarrow> w \<noteq> [] \<Longrightarrow> \<not> prefix w (strip ws s)"
proof (induction ws s rule: strip.induct)
  case (1 ws s)
  show ?case
  proof (cases "find (\<lambda>w. w \<noteq> [] \<and> prefix w s) ws")
    case None
    then have "strip ws s = s" by (simp add: strip.simps [of ws s])
    with 1 None show ?thesis by (auto simp: find_None_iff)
  next
    case (Some v)
    with 1 show ?thesis by (simp add: strip.simps [of ws s])
  qed
qed

lemma strip_id: "(\<And>w. w \<in> set ws \<Longrightarrow> w \<noteq> [] \<Longrightarrow> \<not> prefix w s) \<Longrightarrow> strip ws s = s"
proof -
  assume "\<And>w. w \<in> set ws \<Longrightarrow> w \<noteq> [] \<Longrightarrow> \<not> prefix w s"
  then have "find (\<lambda>w. w \<noteq> [] \<and> prefix w s) ws = None" by (auto simp: find_None_iff)
  then show ?thesis by (simp add: strip.simps)
qed

lemma strip_idem [simp]: "strip ws (strip ws s) = strip ws s"
  by (rule strip_id) (rule strip_no_token)

lemma strip_Nil [simp]: "strip ws [] = []"
  by (rule strip_id) simp

lemma TrimSpace_Nil [simp]: "TrimSpace [] = []"
  by (simp add: TrimSpace_def)

lemma TrimSpace_prefix_strip: "prefix (TrimSpace s) (strip ws_runes s)"
  using strip_suffix [of "map rev ws_runes" "rev (strip ws_runes s)"]
  by (simp add: TrimSpace_def suffix_to_prefix)

lemma TrimSpace_idem [simp]: "TrimSpace (TrimSpace s) = TrimSpace s"
proof -
  have "strip ws_runes (TrimSpace s) = TrimSpace s"
  proof (rule strip_id)
    fix w assume "w \<in> set ws_runes" "w \<noteq> []"
    then have "\<not> prefix w (strip ws_runes s)" by (rule strip_no_token)
    then show "\<not> prefix w (TrimSpace s)"
      using TrimSpace_prefix_strip prefix_order.trans by blast
  qed
  then show ?thesis by (simp add: TrimSpace_def)
qed

text \<open>
  Evaluation of \<^const>\<open>TrimSpace\<close> on text: a string whose first and last byte are graphic
  ASCII (33 to 126) is its own trimmed form.
\<close>

definition graphic :: "char \<Rightarrow> bool" where
  "graphic c \<longleftrightarrow> CHR 0x21 \<le> c \<and> c \<le> CHR 0x7E"

lemma ws_runes_no_graphic: "w \<in> set ws_runes \<Longrightarrow> w \<noteq> [] \<and> \<not> graphic (hd w) \<and> \<not> graphic (last w)"
  by (auto simp: ws_runes_def graphic_def)

lemma TrimSpace_graphic: "graphic (hd s) \<Longrightarrow> graphic (last s) \<Longrightarrow> TrimSpace s = s"
proof (cases "s = []")
  case False
  assume g: "graphic (hd s)" "graphic (last s)"
  have l: "strip ws_runes s = s"
  proof (rule strip_id)
    fix w assume "w \<in> set ws_runes" "w \<noteq> []"
    then show "\<not> prefix w s" using g(1) ws_runes_no_graphic [of w] by (auto simp: prefix_def)
  qed
  have "strip (map rev ws_runes) (rev s) = rev s"
  proof (rule strip_id)
    fix v assume v: "v \<in> set (map rev ws_runes)" "v \<noteq> []"
    then obtain w where w: "w \<in> set ws_runes" "v = rev w" by auto
    then have "\<not> graphic (hd v)" using ws_runes_no_graphic [of w] by (simp add: hd_rev)
    then show "\<not> prefix v (rev s)"
      using g(2) False v(2) by (auto simp: prefix_def) (metis hd_append2 hd_rev)
  qed
  with l show ?thesis by (simp add: TrimSpace_def)
qed simp

text \<open>\<open>strings.Fields\<close>: the words between runs of white space.\<close>

definition at_space :: "string \<Rightarrow> bool" where
  "at_space s \<longleftrightarrow> list_ex (\<lambda>w. prefix w s) ws_runes"

fun word :: "string \<Rightarrow> string \<times> string" where
  "word [] = ([], [])"
| "word (c # cs) = (if at_space (c # cs) then ([], c # cs) else (let (w, r) = word cs in (c # w, r)))"

lemma word_shorter: "length (snd (word s)) \<le> length s"
  by (induction s) (auto simp: Let_def split: prod.split)

lemma strip_shorter: "length (strip ws s) \<le> length s"
  using strip_suffix [of ws s] by (simp add: suffix_length_le)

lemma strip_not_space: "c # cs = strip ws_runes s \<Longrightarrow> \<not> at_space (c # cs)"
proof -
  have ne: "w \<noteq> []" if "w \<in> set ws_runes" for w using that by (auto simp: ws_runes_def)
  show "c # cs = strip ws_runes s \<Longrightarrow> \<not> at_space (c # cs)"
    using strip_no_token [of _ ws_runes s] ne by (auto simp: at_space_def list_ex_iff)
qed

function Fields :: "string \<Rightarrow> string list" where
  "Fields s = (case strip ws_runes s of
      [] \<Rightarrow> []
    | c # cs \<Rightarrow> (let (w, r) = word (c # cs) in w # Fields r))"
  by pat_completeness auto
termination
proof (relation "measure length", goal_cases)
  case (2 s c cs x w r)
  have "\<not> at_space (c # cs)" using 2(1) strip_not_space [of c cs s] by simp
  with 2(2,3) have "length r \<le> length cs" using word_shorter [of cs] by (auto simp: Let_def split: prod.splits)
  then show ?case using 2(1) strip_shorter [of ws_runes s] by simp
qed simp

declare Fields.simps [simp del]

section \<open>Errors\<close>

text \<open>An \<open>error\<close> value: \<open>nil\<close> or the message.\<close>

type_synonym error = "string option"

abbreviation nil :: error where "nil \<equiv> None"

abbreviation errorf :: "string \<Rightarrow> error" where "errorf msg \<equiv> Some msg"

text \<open>
  A run of checks with early returns: the message of the first check that fails. The
  conditions read the state only, so evaluating them in one list changes nothing.
\<close>

fun first_error :: "(bool \<times> string) list \<Rightarrow> error" where
  "first_error [] = nil"
| "first_error ((failed, msg) # checks) = (if failed then errorf msg else first_error checks)"

lemma first_error_nil [simp]: "first_error cs = nil \<longleftrightarrow> list_all (\<lambda>c. \<not> fst c) cs"
  by (induction cs rule: first_error.induct) auto

text \<open>The outcome of an operation that changes the state only if every check passed.\<close>

definition commit :: "error \<Rightarrow> 's \<Rightarrow> 's \<Rightarrow> 's \<times> error" where
  "commit err s s' = (if err = nil then (s', nil) else (s, err))"

lemma commit_simps [simp]:
  "snd (commit err s s') = err"
  "fst (commit err s s') = (if err = nil then s' else s)"
  by (simp_all add: commit_def)

lemma commit_rejected: "snd (commit err s s') \<noteq> nil \<Longrightarrow> fst (commit err s s') = s"
  by auto

lemma first_error_Some: "first_error cs = Some m \<Longrightarrow> \<exists>b. (b, m) \<in> set cs \<and> b"
  by (induction cs rule: first_error.induct) (auto split: if_splits)

declare first_error.simps(2) [simp del]

section \<open>Maps and their iteration order\<close>

type_synonym ('k, 'v) gomap = "('k \<times> 'v) list"

abbreviation gm_get :: "('k, 'v) gomap \<Rightarrow> 'k \<Rightarrow> 'v option" where
  "gm_get m k \<equiv> map_of m k"

abbreviation gm_put :: "'k \<Rightarrow> 'v \<Rightarrow> ('k, 'v) gomap \<Rightarrow> ('k, 'v) gomap" where
  "gm_put k v m \<equiv> AList.update k v m"

definition gm_ok :: "('k, 'v) gomap \<Rightarrow> bool" where
  "gm_ok m \<longleftrightarrow> distinct (map fst m)"

text \<open>
  What \<open>for k, v := range m\<close> guarantees: every entry is visited once, in some order.
\<close>

definition is_range :: "(('k, 'v) gomap \<Rightarrow> ('k, 'v) gomap) \<Rightarrow> bool" where
  "is_range it \<longleftrightarrow> (\<forall>m. mset (it m) = mset m)"

text \<open>The element a map of slices or a counter map yields for an absent key.\<close>

definition gm_getd :: "'v \<Rightarrow> ('k, 'v) gomap \<Rightarrow> 'k \<Rightarrow> 'v" where
  "gm_getd d m k = (case gm_get m k of None \<Rightarrow> d | Some v \<Rightarrow> v)"

lemma gm_get_put: "gm_get (gm_put k v m) k' = (if k' = k then Some v else gm_get m k')"
  by (simp add: update_conv')

lemma gm_getd_put [simp]: "gm_getd d (gm_put k v m) k' = (if k' = k then v else gm_getd d m k')"
  by (simp add: gm_getd_def update_conv')

lemma gm_getd_Nil [simp]: "gm_getd d [] k = d"
  by (simp add: gm_getd_def)

lemma gm_ok_Nil [simp]: "gm_ok []"
  by (simp add: gm_ok_def)

lemma gm_ok_put [simp]: "gm_ok m \<Longrightarrow> gm_ok (gm_put k v m)"
  by (simp add: gm_ok_def distinct_update)

lemma gm_mem_iff: "gm_ok m \<Longrightarrow> (k, v) \<in> set m \<longleftrightarrow> gm_get m k = Some v"
  by (auto simp: gm_ok_def dest: map_of_SomeD)

lemma gm_put_absent: "gm_get m k = None \<Longrightarrow> gm_put k v m = m @ [(k, v)]"
  by (induction m) (auto split: if_splits)

lemma is_range_set: "is_range it \<Longrightarrow> set (it m) = set m"
  unfolding is_range_def by (metis set_mset_mset)

lemma is_range_ok: "is_range it \<Longrightarrow> gm_ok m \<Longrightarrow> gm_ok (it m)"
  unfolding is_range_def gm_ok_def by (metis mset_map mset_eq_imp_distinct_iff)

lemma is_range_Nil: "is_range it \<Longrightarrow> it [] = []"
  unfolding is_range_def by (metis mset_zero_iff)

lemma is_range_id: "is_range (\<lambda>m. m)" and is_range_rev: "is_range rev"
  by (simp_all add: is_range_def)

section \<open>64-bit integers\<close>

text \<open>Two's complement wrap-around of a Go \<open>int\<close>.\<close>

definition int64 :: "int \<Rightarrow> int" where
  "int64 i = sint (word_of_int i :: 64 word)"

lemma int64_id: "- (2 ^ 63) \<le> i \<Longrightarrow> i < 2 ^ 63 \<Longrightarrow> int64 i = i"
  by (simp add: int64_def int_word_sint)

section \<open>Sequences of operations\<close>

text \<open>The state after a sequence of operations; every locked method is one operation.\<close>

definition run :: "('s \<Rightarrow> 'op \<Rightarrow> 's) \<Rightarrow> 's \<Rightarrow> 'op list \<Rightarrow> 's" where
  "run step s ops = foldl step s ops"

lemma run_Nil [simp]: "run step s [] = s"
  and run_Cons [simp]: "run step s (x # xs) = run step (step s x) xs"
  and run_append: "run step s (xs @ ys) = run step (run step s xs) ys"
  by (simp_all add: run_def)

end
