(* ===== verification/Go_Interfaces.thy ===== *)
theory Go_Interfaces
  imports Go_Prelude
begin

text \<open>
  The interfaces the components rely on, each with the laws a provider promises and the
  consequences proved once from them. Every locale is interpreted on the model's own
  definitions, in the theory of the component that provides them:

  \<^item> \<open>write_once\<close>: the registries of named configuration (routes, upstreams, regions,
    tenants, rollouts, policies, manifests). Registering a name that is taken is refused,
    and nothing replaces an entry.
  \<^item> \<open>append_only\<close>: the histories (deployment ledger, event log, policy versions).
  \<^item> \<open>kept_invariant\<close>: an invariant every operation of a component keeps.
  \<^item> \<open>durable_store\<close> and \<open>atomic_store\<close>: what \<open>Save\<close> and \<open>Load\<close> promise a client that restarts.
\<close>

section \<open>Invariants\<close>

locale kept_invariant =
  fixes step :: "'s \<Rightarrow> 'op \<Rightarrow> 's"
    and inv :: "'s \<Rightarrow> bool"
  assumes step_keeps: "inv s \<Longrightarrow> inv (step s x)"
begin

lemma run_keeps: "inv s \<Longrightarrow> inv (run step s xs)"
  by (induction xs arbitrary: s) (auto simp: step_keeps)

end

section \<open>Registries that never replace an entry\<close>

locale write_once =
  fixes get :: "'s \<Rightarrow> 'k \<Rightarrow> 'v option"
    and register :: "'s \<Rightarrow> 'c \<Rightarrow> 's \<times> error"
    and key :: "'c \<Rightarrow> 'k"
    and norm :: "'c \<Rightarrow> 'v"
  assumes rejected: "snd (register s c) \<noteq> nil \<Longrightarrow> fst (register s c) = s"
    and fresh: "snd (register s c) = nil \<Longrightarrow> get s (key c) = None"
    and accepted: "snd (register s c) = nil \<Longrightarrow>
      get (fst (register s c)) k = (if k = key c then Some (norm c) else get s k)"
begin

abbreviation step :: "'s \<Rightarrow> 'c \<Rightarrow> 's" where
  "step s c \<equiv> fst (register s c)"

lemma get_step:
  "get (step s c) k = (if snd (register s c) = nil \<and> k = key c then Some (norm c) else get s k)"
  by (cases "snd (register s c) = nil") (auto simp: accepted rejected)

lemma persists: "get s k = Some v \<Longrightarrow> get (run step s cs) k = Some v"
proof (induction cs arbitrary: s)
  case (Cons c cs)
  have "get (step s c) k = Some v"
    using Cons.prems fresh [of s c] by (auto simp: get_step)
  then show ?case by (simp add: Cons.IH)
qed simp

lemma origin:
  "get (run step s cs) k = Some v \<Longrightarrow>
     get s k = Some v \<or> (\<exists>c \<in> set cs. key c = k \<and> v = norm c)"
proof (induction cs arbitrary: s)
  case (Cons c cs)
  then have "get (step s c) k = Some v \<or> (\<exists>d \<in> set cs. key d = k \<and> v = norm d)" by simp
  then show ?case by (auto simp: get_step split: if_splits)
qed simp

lemma first_wins:
  assumes "snd (register s c) = nil"
  shows "get (run step s (c # cs)) (key c) = Some (norm c)"
    and "key d = key c \<Longrightarrow> snd (register (run step s (c # cs)) d) \<noteq> nil"
proof -
  show kept: "get (run step s (c # cs)) (key c) = Some (norm c)"
    using assms by (simp add: persists accepted)
  show "snd (register (run step s (c # cs)) d) \<noteq> nil" if "key d = key c"
  proof
    assume "snd (register (run step s (c # cs)) d) = nil"
    then have "get (run step s (c # cs)) (key d) = None" by (rule fresh)
    with kept that show False by simp
  qed
qed

end

section \<open>Append-only histories\<close>

locale append_only =
  fixes step :: "'s \<Rightarrow> 'op \<Rightarrow> 's"
    and hist :: "'s \<Rightarrow> 'k \<Rightarrow> 'e list"
  assumes step_extends: "prefix (hist s k) (hist (step s x) k)"
begin

lemma run_extends: "prefix (hist s k) (hist (run step s xs) k)"
proof (induction xs arbitrary: s)
  case (Cons x xs)
  have "prefix (hist s k) (hist (step s x) k)" by (rule step_extends)
  also have "prefix (hist (step s x) k) (hist (run step s (x # xs)) k)" by (simp add: Cons)
  finally show ?case .
qed simp

lemma entry_stable:
  assumes "i < length (hist s k)"
  shows "i < length (hist (run step s xs) k) \<and> hist (run step s xs) k ! i = hist s k ! i"
proof -
  obtain r where "hist (run step s xs) k = hist s k @ r"
    using run_extends [of s k xs] by (auto simp: prefix_def)
  with assms show ?thesis by (simp add: nth_append)
qed

end

section \<open>Durable stores\<close>

text \<open>
  A store lives in a world \<open>'w\<close> (the file system). \<open>Load\<close> yields the state or the message of
  an error; \<open>usable\<close> is the condition under which reading works. Every store promises that a
  successful \<open>Save\<close> can be loaded back; an atomic store promises in addition that a failed
  \<open>Save\<close> loses nothing.
\<close>

text \<open>The last state of a sequence that was saved successfully.\<close>

primrec last_saved :: "('w \<Rightarrow> 'st \<Rightarrow> 'w \<times> error) \<Rightarrow> 'w \<Rightarrow> 'st \<Rightarrow> 'st list \<Rightarrow> 'st" where
  "last_saved save w st0 [] = st0"
| "last_saved save w st0 (st # sts) =
     last_saved save (fst (save w st)) (if snd (save w st) = nil then st else st0) sts"

locale durable_store =
  fixes save :: "'w \<Rightarrow> 'st \<Rightarrow> 'w \<times> error"
    and load :: "'w \<Rightarrow> string + 'st"
    and usable :: "'w \<Rightarrow> bool"
  assumes usable_save: "usable w \<Longrightarrow> usable (fst (save w st))"
    and load_save: "usable w \<Longrightarrow> snd (save w st) = nil \<Longrightarrow> load (fst (save w st)) = Inr st"
begin

abbreviation saved :: "'w \<Rightarrow> 'st \<Rightarrow> 'w" where
  "saved w st \<equiv> fst (save w st)"

lemma usable_run: "usable w \<Longrightarrow> usable (run saved w sts)"
  by (induction sts arbitrary: w) (simp_all add: usable_save)

text \<open>After any sequence of saves of which the last succeeded, a load yields the last state.\<close>

lemma load_after_saves:
  assumes "usable w" "snd (save (run saved w sts) st) = nil"
  shows "load (run saved w (sts @ [st])) = Inr st"
  using load_save [OF usable_run [OF assms(1)] assms(2)] by (simp add: run_append)

end

locale atomic_store = durable_store +
  assumes save_failed: "usable w \<Longrightarrow> snd (save w st) \<noteq> nil \<Longrightarrow> load (fst (save w st)) = load w"
begin

text \<open>Whatever saves fail, a load always yields the last state that was saved successfully.\<close>

lemma load_stable:
  assumes "usable w" "load w = Inr st0"
  shows "load (run saved w sts) = Inr (last_saved save w st0 sts)"
  using assms
proof (induction sts arbitrary: w st0)
  case (Cons st sts)
  have "load (saved w st) = Inr (if snd (save w st) = nil then st else st0)"
    using load_save [of w st] save_failed [of w st] Cons.prems by auto
  with Cons.IH [OF usable_save [OF Cons.prems(1)] this] show ?case by simp
qed simp

end

end
