(* ===== verification/Go_Paths.thy ===== *)
theory Go_Paths
  imports Go_Interfaces
begin

text \<open>
  The path algebra of \<open>pkg/runtime/proxy.go\<close> and \<open>pkg/runtime/router.go\<close>: \<open>normalizePath\<close>,
  \<open>joinProxyPath\<close>, \<open>withWildcardRoute\<close> and \<open>routeMatches\<close>. The router, the proxy, the
  registry and the metrics all normalise paths with it.
\<close>

section \<open>Definitions\<close>

definition normalizePath :: "string \<Rightarrow> string" where
  "normalizePath path =
     (if path = [] then ''/''
      else let path = (if \<not> HasPrefix path ''/'' then ''/'' @ path else path)
           in if path \<noteq> ''/'' \<and> HasSuffix path ''/'' then TrimSuffix path ''/'' else path)"

definition withWildcardRoute :: "string \<Rightarrow> string" where
  "withWildcardRoute pre =
     (let pre = normalizePath pre
      in if pre = ''/'' then ''/*'' else pre @ ''/*'')"

definition routeMatches :: "string \<Rightarrow> string \<Rightarrow> bool" where
  "routeMatches route path =
     (let route = normalizePath route; path = normalizePath path in
      if route = path then True
      else if HasSuffix route ''/*'' then
        (let basePath = TrimSuffix route ''/*'' in
         if basePath = [] then True
         else basePath = path \<or> HasPrefix path (basePath @ ''/''))
      else HasPrefix path (route @ ''/''))"

definition joinProxyPath ::
  "string \<Rightarrow> string \<Rightarrow> string \<Rightarrow> string \<Rightarrow> string \<Rightarrow> string \<Rightarrow> string" where
  "joinProxyPath basePath incomingPath stripPrefix targetPathPrefix rewriteFrom rewriteTo =
     (let path = incomingPath;
          path = (if stripPrefix \<noteq> [] then TrimPrefix path stripPrefix else path);
          path = (if rewriteFrom \<noteq> [] then
                    (if path = rewriteFrom then rewriteTo
                     else if HasPrefix path (rewriteFrom @ ''/'')
                       then rewriteTo @ TrimPrefix path rewriteFrom
                     else path)
                  else path);
          path = (if path = [] then ''/'' else path);
          path = (if targetPathPrefix \<noteq> [] then
                    (let targetPathPrefix = normalizePath targetPathPrefix in
                     if targetPathPrefix \<noteq> ''/'' then targetPathPrefix @ path else path)
                  else path)
      in if basePath = [] \<or> basePath = ''/'' then path
         else if HasSuffix basePath ''/'' then TrimSuffix basePath ''/'' @ path
         else basePath @ path)"

section \<open>Normal forms\<close>

text \<open>A path in normal form: rooted, and with no trailing slash but for the root itself.\<close>

definition normal_path :: "string \<Rightarrow> bool" where
  "normal_path p \<longleftrightarrow> HasPrefix p ''/'' \<and> (p = ''/'' \<or> \<not> HasSuffix p ''/'')"

lemma HasSuffix_single: "HasSuffix s [c] \<longleftrightarrow> s \<noteq> [] \<and> last s = c"
  by (cases s rule: rev_cases) (auto simp: HasSuffix_def)

lemma TrimSuffix_single: "s \<noteq> [] \<Longrightarrow> last s = c \<Longrightarrow> TrimSuffix s [c] = butlast s"
  by (simp add: TrimSuffix_def HasSuffix_single butlast_conv_take)

lemma normalizePath_rooted: "\<exists>r. normalizePath p = CHR ''/'' # r"
  by (cases p) (auto simp: normalizePath_def Let_def HasSuffix_single TrimSuffix_single)

lemma normalizePath_HasPrefix [simp]: "HasPrefix (normalizePath p) ''/''"
  using normalizePath_rooted [of p] by auto

lemma normalizePath_not_Nil [simp]: "normalizePath p \<noteq> []"
  using normalizePath_rooted [of p] by auto

lemma normalizePath_id: "normal_path p \<Longrightarrow> normalizePath p = p"
  by (cases p) (auto simp: normal_path_def normalizePath_def Let_def)

lemma normalizePath_normal:
  assumes "\<not> HasSuffix p ''//''"
  shows "normal_path (normalizePath p)"
proof (cases p rule: rev_cases)
  case Nil
  then show ?thesis by (simp add: normalizePath_def normal_path_def)
next
  case (snoc q c)
  note p = this
  show ?thesis
  proof (cases "c = CHR ''/''")
    case False
    then show ?thesis
      using p by (cases q) (auto simp: normalizePath_def normal_path_def Let_def HasSuffix_single)
  next
    case True
    with p assms have q: "q = [] \<or> last q \<noteq> CHR ''/''"
      by (cases q rule: rev_cases) (auto simp: HasSuffix_def)
    with p True show ?thesis
      by (cases q) (auto simp: normalizePath_def normal_path_def Let_def HasSuffix_single
          TrimSuffix_single butlast_append)
  qed
qed

lemma normalizePath_idem:
  "\<not> HasSuffix p ''//'' \<Longrightarrow> normalizePath (normalizePath p) = normalizePath p"
  by (simp add: normalizePath_id normalizePath_normal)

section \<open>Prefix routes respect segment boundaries\<close>

text \<open>The base of a wildcard pattern: \<open>/a/*\<close> has base \<open>/a\<close>; other patterns are their own base.\<close>

definition route_base :: "string \<Rightarrow> string" where
  "route_base r = (if HasSuffix r ''/*'' then TrimSuffix r ''/*'' else r)"

lemma routeMatches_normal:
  assumes "normal_path r" "normal_path p"
  shows "routeMatches r p \<longleftrightarrow>
    r = p \<or> r = ''/*'' \<or> HasPrefix p (route_base r @ ''/'') \<or> (HasSuffix r ''/*'' \<and> p = route_base r)"
proof -
  have "TrimSuffix r ''/*'' = [] \<longleftrightarrow> r = ''/*''" if "HasSuffix r ''/*''"
    using that by (auto simp: TrimSuffix_def HasSuffix_iff suffix_def)
  moreover have "HasSuffix ''/*'' ''/*''" by (simp add: HasSuffix_def)
  ultimately show ?thesis
    using assms by (auto simp: routeMatches_def route_base_def Let_def normalizePath_id)
qed

text \<open>
  What the proxy sends upstream for a request below its strip prefix: the base path without
  its trailing slash, the target prefix, and the rest of the request path.
\<close>

lemma joinProxyPath_boundary:
  assumes "normal_path pre" "pre \<noteq> ''/''"
  shows "joinProxyPath base (pre @ ''/'' @ rest) pre tp [] [] =
    (if base = ''/'' then [] else if HasSuffix base ''/'' then TrimSuffix base ''/'' else base)
    @ (if tp = [] \<or> normalizePath tp = ''/'' then [] else normalizePath tp) @ ''/'' @ rest"
proof -
  have "TrimPrefix (pre @ CHR ''/'' # rest) pre = CHR ''/'' # rest"
    using TrimPrefix_append [of pre "CHR ''/'' # rest"] by simp
  moreover have "pre \<noteq> []" using assms(1) by (auto simp: normal_path_def)
  ultimately show ?thesis by (auto simp: joinProxyPath_def Let_def HasSuffix_def)
qed

end
