(* ===== verification/Router.thy ===== *)
theory Router
  imports Go_Paths "HOL-Library.Product_Lexorder"
begin

text \<open>
  The HTTP router (\<open>pkg/runtime/router.go\<close>): pattern compilation, registration, route
  matching, dispatch through the middleware chain and the lazy extraction of path
  parameters (\<open>PathValue\<close>) through the process-wide pattern index.

  A handler is a function from the request to a response of any type \<open>'r\<close>, a middleware a
  function from handlers to handlers. The routes of a method are a Go map, so \<open>matchRoute\<close>
  takes the iteration order \<open>it\<close>. Parameter names are checked byte by byte: an ASCII byte
  of a Go string is always decoded as the rune it is and every other byte yields a rune
  from 128 on, so ranging over runes and over bytes reject the same names.
\<close>

section \<open>Data\<close>

record segPart =
  sp_literal :: string
  sp_param :: string

record routeSegment =
  rs_literal :: string
  rs_param :: string
  rs_parts :: "segPart list option"

record request =
  rq_Method :: string
  rq_Path :: string
  rq_Pattern :: string

type_synonym 'r handler = "request \<Rightarrow> 'r"

record 'r routeEntry =
  re_handler :: "'r handler"
  re_segments :: "routeSegment list"
  re_hasParams :: bool
  re_literals :: nat

type_synonym 'r methodRoutes = "(string, 'r routeEntry) gomap"

type_synonym patternIndex = "(string, routeSegment list) gomap"

record 'r router =
  routes :: "(string, 'r methodRoutes) gomap"
  middleware :: "('r handler \<Rightarrow> 'r handler) list"

abbreviation lit_part :: "string \<Rightarrow> segPart" where
  "lit_part l \<equiv> \<lparr>sp_literal = l, sp_param = []\<rparr>"

abbreviation par_part :: "string \<Rightarrow> segPart" where
  "par_part n \<equiv> \<lparr>sp_literal = [], sp_param = n\<rparr>"

section \<open>Pattern compilation\<close>

definition validParamByte :: "char \<Rightarrow> bool" where
  "validParamByte b \<longleftrightarrow>
     (CHR ''a'' \<le> b \<and> b \<le> CHR ''z'') \<or> (CHR ''A'' \<le> b \<and> b \<le> CHR ''Z'')
     \<or> (CHR ''0'' \<le> b \<and> b \<le> CHR ''9'') \<or> b = CHR ''_''"

definition validParamName :: "string \<Rightarrow> bool" where
  "validParamName name \<longleftrightarrow> list_all validParamByte name"

definition paramSegmentName :: "string \<Rightarrow> string option" where
  "paramSegmentName segment =
     (let named = (\<lambda>name. if name \<noteq> [] \<and> validParamName name then Some name else None) in
      if HasPrefix segment ''{'' \<and> HasSuffix segment ''}'' then named (butlast (tl segment))
      else if HasPrefix segment '':'' then named (tl segment)
      else None)"

text \<open>The loop of \<open>compileSegParts\<close>: what is left of the segment, the literal being
  collected and the parts so far; \<open>flush_lit\<close> is the closure \<open>flush\<close>.\<close>

definition flush_lit :: "string \<Rightarrow> segPart list \<Rightarrow> segPart list" where
  "flush_lit lit parts = (if lit \<noteq> [] then parts @ [lit_part lit] else parts)"

definition colonNameByte :: "char \<Rightarrow> bool" where
  "colonNameByte d \<longleftrightarrow> d \<notin> {CHR ''.'', CHR ''-'', CHR ''_'', CHR ''{''} \<and> validParamByte d"

function segPartsLoop :: "string \<Rightarrow> string \<Rightarrow> segPart list \<Rightarrow> segPart list" where
  "segPartsLoop [] lit parts = flush_lit lit parts"
| "segPartsLoop (c # rest) lit parts =
     (if c = CHR ''{'' then
        (case IndexByte (c # rest) (CHR ''}'') of
           None \<Rightarrow> segPartsLoop rest (lit @ [c]) parts
         | Some e \<Rightarrow>
             (let name = take (e - 1) rest in
              if name = [] \<or> \<not> validParamName name then segPartsLoop rest (lit @ [c]) parts
              else segPartsLoop (drop e rest) [] (flush_lit lit parts @ [par_part name])))
      else if c = CHR '':'' then
        (let name = takeWhile colonNameByte rest in
         if name = [] then segPartsLoop rest (lit @ [c]) parts
         else segPartsLoop (drop (length name) rest) [] (flush_lit lit parts @ [par_part name]))
      else segPartsLoop rest (lit @ [c]) parts)"
  by pat_completeness auto
termination by (relation "measure (\<lambda>(s, _, _). length s)") auto

definition compileSegParts :: "string \<Rightarrow> segPart list option" where
  "compileSegParts segment =
     (let parts = segPartsLoop segment [] [] in
      if list_ex (\<lambda>p. sp_param p \<noteq> []) parts then Some parts else None)"

definition compileSegment :: "string \<Rightarrow> routeSegment \<times> bool" where
  "compileSegment part =
     (case paramSegmentName part of
        Some name \<Rightarrow> (\<lparr>rs_literal = [], rs_param = name, rs_parts = None\<rparr>, True)
      | None \<Rightarrow>
          (case compileSegParts part of
             Some ps \<Rightarrow> (\<lparr>rs_literal = [], rs_param = [], rs_parts = Some ps\<rparr>, True)
           | None \<Rightarrow> (\<lparr>rs_literal = part, rs_param = [], rs_parts = None\<rparr>, False)))"

definition compilePattern :: "string \<Rightarrow> routeSegment list \<times> bool" where
  "compilePattern pattern =
     (let trimmed = TrimPrefix pattern ''/'' in
      if trimmed = [] then ([], False)
      else let parts = Split trimmed (CHR ''/'')
           in (map (fst \<circ> compileSegment) parts, list_ex (snd \<circ> compileSegment) parts))"

section \<open>Matching a path against a compiled pattern\<close>

fun matchSegParts :: "segPart list \<Rightarrow> string \<Rightarrow> bool" where
  "matchSegParts [] seg = (seg = [])"
| "matchSegParts (p # ps) seg =
     (if sp_param p \<noteq> [] then
        (case ps of
           q # _ \<Rightarrow>
             if sp_param q = [] then
               (case Index seg (sp_literal q) of
                  None \<Rightarrow> False
                | Some next \<Rightarrow> next \<noteq> 0 \<and> matchSegParts ps (drop next seg))
             else seg \<noteq> [] \<and> matchSegParts ps []
         | [] \<Rightarrow> seg \<noteq> [] \<and> matchSegParts ps [])
      else HasPrefix seg (sp_literal p) \<and> matchSegParts ps (drop (length (sp_literal p)) seg))"

definition matchSegment :: "routeSegment \<Rightarrow> string \<Rightarrow> bool" where
  "matchSegment s seg =
     (if rs_param s \<noteq> [] then seg \<noteq> []
      else case rs_parts s of
          Some ps \<Rightarrow> matchSegParts ps seg
        | None \<Rightarrow> rs_literal s = seg)"

text \<open>The loop of \<open>matchParams\<close>, from an offset into the path on.\<close>

fun matchParamsLoop :: "routeSegment list \<Rightarrow> string \<Rightarrow> bool" where
  "matchParamsLoop [] rest = False"
| "matchParamsLoop (s # ss) rest =
     (case IndexByte rest (CHR ''/'') of
        None \<Rightarrow> matchSegment s rest \<and> ss = []
      | Some idx \<Rightarrow> matchSegment s (take idx rest) \<and> matchParamsLoop ss (drop (idx + 1) rest))"

definition matchParams :: "routeSegment list \<Rightarrow> string \<Rightarrow> bool" where
  "matchParams segments path =
     (if length path \<le> 1 then False else matchParamsLoop segments (drop 1 path))"

fun segPartValue :: "segPart list \<Rightarrow> string \<Rightarrow> string \<Rightarrow> string option" where
  "segPartValue [] seg name = None"
| "segPartValue (p # ps) seg name =
     (if sp_param p \<noteq> [] then
        (case (case ps of
                 q # _ \<Rightarrow> if sp_param q = [] then Index seg (sp_literal q) else Some (length seg)
               | [] \<Rightarrow> Some (length seg)) of
           None \<Rightarrow> None
         | Some end \<Rightarrow>
             if sp_param p = name then Some (take end seg)
             else segPartValue ps (drop end seg) name)
      else if \<not> HasPrefix seg (sp_literal p) then None
      else segPartValue ps (drop (length (sp_literal p)) seg) name)"

fun paramValueLoop :: "routeSegment list \<Rightarrow> string \<Rightarrow> string \<Rightarrow> string" where
  "paramValueLoop [] rest name = []"
| "paramValueLoop (s # ss) rest name =
     (let seg = (case IndexByte rest (CHR ''/'') of None \<Rightarrow> rest | Some idx \<Rightarrow> take idx rest);
          continue = (case IndexByte rest (CHR ''/'') of
                        None \<Rightarrow> []
                      | Some idx \<Rightarrow> paramValueLoop ss (drop (idx + 1) rest) name)
      in if rs_param s \<noteq> [] \<and> rs_param s = name then seg
         else case rs_parts s of
             Some ps \<Rightarrow> (case segPartValue ps seg name of Some v \<Rightarrow> v | None \<Rightarrow> continue)
           | None \<Rightarrow> continue)"

definition paramValue :: "routeSegment list \<Rightarrow> string \<Rightarrow> string \<Rightarrow> string" where
  "paramValue segments path name =
     (if length path \<le> 1 then [] else paramValueLoop segments (drop 1 path) name)"

section \<open>Registration\<close>

definition NewRouter :: "'r router" where
  "NewRouter = \<lparr>routes = [], middleware = []\<rparr>"

definition router_Use :: "'r router \<Rightarrow> ('r handler \<Rightarrow> 'r handler) list \<Rightarrow> 'r router" where
  "router_Use r mws = r\<lparr>middleware := middleware r @ mws\<rparr>"

text \<open>
  \<open>paramPatterns\<close>: the index of compiled patterns by pattern text. Its entries are route
  entries without a handler, of which only the segments are read.
\<close>

definition indexParamPattern :: "patternIndex \<Rightarrow> string \<Rightarrow> routeSegment list \<Rightarrow> patternIndex" where
  "indexParamPattern idx pattern segments =
     (case gm_get idx pattern of Some _ \<Rightarrow> idx | None \<Rightarrow> gm_put pattern segments idx)"

text \<open>The entry \<open>Handle\<close> builds for a normalised path.\<close>

definition compileEntry :: "'r handler \<Rightarrow> string \<Rightarrow> 'r routeEntry" where
  "compileEntry h path =
     (if \<not> HasSuffix path ''/*'' \<and> snd (compilePattern path)
      then \<lparr>re_handler = h, re_segments = fst (compilePattern path), re_hasParams = True,
            re_literals = length (filter (\<lambda>seg. rs_param seg = []) (fst (compilePattern path)))\<rparr>
      else \<lparr>re_handler = h, re_segments = [], re_hasParams = False, re_literals = 0\<rparr>)"

text \<open>\<open>Handle\<close> on a router and the process-wide index; a nil handler is ignored.\<close>

definition router_Handle ::
  "'r router \<times> patternIndex \<Rightarrow> string \<Rightarrow> string \<Rightarrow> 'r handler option
   \<Rightarrow> 'r router \<times> patternIndex" where
  "router_Handle st method path handler =
     (let (r, idx) = st in
      case handler of
        None \<Rightarrow> st
      | Some h \<Rightarrow>
          (let method = ToUpper method;
               path = normalizePath path;
               entry = compileEntry h path;
               idx' = (if re_hasParams entry then indexParamPattern idx path (re_segments entry)
                       else idx)
           in (r\<lparr>routes := gm_put method
                   (gm_put path entry (gm_getd [] (routes r) method)) (routes r)\<rparr>, idx')))"

definition commonMethods :: "string list" where
  "commonMethods = [''GET'', ''POST'', ''PUT'', ''PATCH'', ''DELETE'', ''HEAD'', ''OPTIONS'']"

definition router_Any ::
  "'r router \<times> patternIndex \<Rightarrow> string \<Rightarrow> 'r handler option \<Rightarrow> 'r router \<times> patternIndex" where
  "router_Any st path handler = foldl (\<lambda>st m. router_Handle st m path handler) st commonMethods"

section \<open>Dispatch\<close>

record 'r candidates =
  cd_param :: "(string \<times> 'r routeEntry) option"
  cd_legacy :: "(string \<times> 'r routeEntry) option"
  cd_root :: "'r routeEntry option"

definition matchStep ::
  "string \<Rightarrow> 'r candidates \<Rightarrow> string \<times> 'r routeEntry \<Rightarrow> 'r candidates" where
  "matchStep path c pe =
     (let (pattern, entry) = pe in
      if re_hasParams entry then
        (if \<not> matchParams (re_segments entry) path then c
         else case cd_param c of
             None \<Rightarrow> c\<lparr>cd_param := Some (pattern, entry)\<rparr>
           | Some (pp, pent) \<Rightarrow>
               if re_literals entry > re_literals pent
                  \<or> (re_literals entry = re_literals pent \<and> length pattern > length pp)
               then c\<lparr>cd_param := Some (pattern, entry)\<rparr> else c)
      else if pattern = ''/'' then
        (case cd_root c of None \<Rightarrow> c\<lparr>cd_root := Some entry\<rparr> | Some _ \<Rightarrow> c)
      else if routeMatches pattern path then
        (case cd_legacy c of
           None \<Rightarrow> c\<lparr>cd_legacy := Some (pattern, entry)\<rparr>
         | Some (lp, _) \<Rightarrow>
             if length pattern > length lp then c\<lparr>cd_legacy := Some (pattern, entry)\<rparr> else c)
      else c)"

definition matchRoute ::
  "('r methodRoutes \<Rightarrow> 'r methodRoutes) \<Rightarrow> 'r router \<Rightarrow> string \<Rightarrow> string
   \<Rightarrow> (string \<times> 'r routeEntry) option" where
  "matchRoute it r method path =
     (case gm_get (routes r) method of
        None \<Rightarrow> None
      | Some methodRoutes \<Rightarrow>
          (case gm_get methodRoutes path of
             Some entry \<Rightarrow> Some (path, entry)
           | None \<Rightarrow>
               (let c = foldl (matchStep path) \<lparr>cd_param = None, cd_legacy = None, cd_root = None\<rparr>
                          (it methodRoutes)
                in case cd_param c of
                     Some pe \<Rightarrow> Some pe
                   | None \<Rightarrow>
                       (case cd_legacy c of
                          Some le \<Rightarrow> Some le
                        | None \<Rightarrow> map_option (\<lambda>e. (''/'', e)) (cd_root c)))))"

definition chain :: "('r handler \<Rightarrow> 'r handler) list \<Rightarrow> 'r handler \<Rightarrow> 'r handler" where
  "chain mws h = foldl (\<lambda>h mw. mw h) h (rev mws)"

definition router_ServeHTTP ::
  "('r methodRoutes \<Rightarrow> 'r methodRoutes) \<Rightarrow> 'r handler \<Rightarrow> 'r router \<Rightarrow> request \<Rightarrow> 'r" where
  "router_ServeHTTP it notFound r req =
     (let path = normalizePath (rq_Path req); method = ToUpper (rq_Method req) in
      case matchRoute it r method path of
        None \<Rightarrow> notFound req
      | Some (pattern, entry) \<Rightarrow>
          chain (middleware r) (re_handler entry) (req\<lparr>rq_Pattern := pattern\<rparr>))"

definition routePattern :: "request \<Rightarrow> string" where
  "routePattern req = (if rq_Pattern req \<noteq> [] then rq_Pattern req else normalizePath (rq_Path req))"

text \<open>\<open>PathValue\<close>; \<open>std\<close> is \<open>Request.PathValue\<close> of net/http, for requests another mux routed.\<close>

definition PathValue ::
  "patternIndex \<Rightarrow> (request \<Rightarrow> string \<Rightarrow> string) \<Rightarrow> request \<Rightarrow> string \<Rightarrow> string" where
  "PathValue idx std req name =
     (case gm_get idx (rq_Pattern req) of
        None \<Rightarrow> std req name
      | Some segments \<Rightarrow>
          (let path = normalizePath (rq_Path req) in
           if \<not> matchParams segments path then [] else paramValue segments path name))"

section \<open>The matching loop is segment-wise matching\<close>

lemma IndexByte_split:
  assumes "IndexByte s c = Some i"
  shows "s = take i s @ c # drop (Suc i) s" and "c \<notin> set (take i s)"
proof -
  have "i < length s" "s ! i = c" "c \<notin> set (take i s)"
    using assms by (auto simp: IndexByte_Some_iff)
  then show "s = take i s @ c # drop (Suc i) s" "c \<notin> set (take i s)"
    by (auto simp: id_take_nth_drop)
qed

lemma Split_IndexByte:
  "Split s c = (case IndexByte s c of None \<Rightarrow> [s] | Some i \<Rightarrow> take i s # Split (drop (Suc i) s) c)"
proof (cases "IndexByte s c")
  case None
  then have "c \<notin> set s" by (simp add: IndexByte_None_iff)
  with None show ?thesis by (simp add: Split_no_sep)
next
  case (Some i)
  then have "Split s c = Split (take i s @ c # drop (Suc i) s) c"
    using IndexByte_split(1) by metis
  also have "\<dots> = take i s # Split (drop (Suc i) s) c"
    using IndexByte_split(2) [OF Some] by (rule Split_append)
  finally show ?thesis using Some by simp
qed

lemma matchParamsLoop_Split:
  "matchParamsLoop ss rest \<longleftrightarrow> list_all2 matchSegment ss (Split rest (CHR ''/''))"
proof (induction ss arbitrary: rest)
  case (Cons s ss)
  then show ?case by (subst Split_IndexByte) (auto split: option.splits)
qed simp

lemma matchParams_iff:
  "matchParams segs path \<longleftrightarrow>
     1 < length path \<and> list_all2 matchSegment segs (Split (drop 1 path) (CHR ''/''))"
  by (auto simp: matchParams_def matchParamsLoop_Split)

section \<open>Route selection\<close>

text \<open>Keeping the first of the best elements, which is what the loop does for each class.\<close>

definition keep_max :: "('a \<Rightarrow> 'b :: linorder) \<Rightarrow> 'a option \<Rightarrow> 'a \<Rightarrow> 'a option" where
  "keep_max f acc x = (case acc of None \<Rightarrow> Some x | Some y \<Rightarrow> if f y < f x then Some x else acc)"

lemma keep_max_simps [simp]:
  "keep_max f None x = Some x"
  "keep_max f (Some y) x = (if f y < f x then Some x else Some y)"
  by (simp_all add: keep_max_def)

lemma keep_max_None: "foldl (keep_max f) acc xs = None \<longleftrightarrow> acc = None \<and> xs = []"
  by (induction xs arbitrary: acc) (auto simp: keep_max_def split: option.splits)

lemma keep_max_Some:
  "foldl (keep_max f) None xs = Some y \<Longrightarrow> y \<in> set xs \<and> (\<forall>x \<in> set xs. f x \<le> f y)"
proof (induction xs arbitrary: y rule: rev_induct)
  case (snoc x xs)
  show ?case
  proof (cases "foldl (keep_max f) None xs")
    case None
    with snoc.prems show ?thesis by (simp add: keep_max_None)
  next
    case (Some z)
    then have z: "z \<in> set xs" "\<forall>x \<in> set xs. f x \<le> f z" using snoc.IH by auto
    have y: "y = (if f z < f x then x else z)"
      using Some snoc.prems by (simp split: if_splits)
    show ?thesis
    proof (cases "f z < f x")
      case True
      then have "f v \<le> f x" if "v \<in> set xs" for v
        using z(2) that by (meson less_imp_le order_trans)
      then show ?thesis using True y by simp
    next
      case False
      then show ?thesis using z y by simp
    qed
  qed
qed simp

definition is_param_match :: "string \<Rightarrow> string \<times> 'r routeEntry \<Rightarrow> bool" where
  "is_param_match path pe \<longleftrightarrow> re_hasParams (snd pe) \<and> matchParams (re_segments (snd pe)) path"

definition is_prefix_match :: "string \<Rightarrow> string \<times> 'r routeEntry \<Rightarrow> bool" where
  "is_prefix_match path pe \<longleftrightarrow>
     \<not> re_hasParams (snd pe) \<and> fst pe \<noteq> ''/'' \<and> routeMatches (fst pe) path"

definition is_root :: "string \<times> 'r routeEntry \<Rightarrow> bool" where
  "is_root pe \<longleftrightarrow> \<not> re_hasParams (snd pe) \<and> fst pe = ''/''"

text \<open>The specificity of a pattern: literal segments first, then the length of the text.\<close>

definition param_rank :: "string \<times> 'r routeEntry \<Rightarrow> nat \<times> nat" where
  "param_rank pe = (re_literals (snd pe), length (fst pe))"

definition prefix_rank :: "string \<times> 'r routeEntry \<Rightarrow> nat" where
  "prefix_rank pe = length (fst pe)"

lemma matchStep_fold:
  "foldl (matchStep path) c es =
     \<lparr>cd_param = foldl (keep_max param_rank) (cd_param c) (filter (is_param_match path) es),
      cd_legacy = foldl (keep_max prefix_rank) (cd_legacy c) (filter (is_prefix_match path) es),
      cd_root = (case cd_root c of Some e \<Rightarrow> Some e | None \<Rightarrow> map_option snd (find is_root es))\<rparr>"
proof (induction es arbitrary: c)
  case Nil
  show ?case by (simp split: option.splits)
next
  case (Cons pe es)
  obtain p e where pe: "pe = (p, e)" by (cases pe)
  have "matchStep path c pe =
     \<lparr>cd_param = (if is_param_match path pe then keep_max param_rank (cd_param c) pe else cd_param c),
      cd_legacy = (if is_prefix_match path pe then keep_max prefix_rank (cd_legacy c) pe else cd_legacy c),
      cd_root = (case cd_root c of Some e \<Rightarrow> Some e | None \<Rightarrow> if is_root pe then Some e else None)\<rparr>"
    by (auto simp: pe matchStep_def is_param_match_def is_prefix_match_def is_root_def
        keep_max_def param_rank_def prefix_rank_def less_prod_def split: option.splits prod.splits)
  then show ?case by (auto simp: Cons.IH pe split: option.splits)
qed

text \<open>
  The selection rule: an exact route first; then the parameter pattern of greatest rank among
  those that match; then the longest prefix route; then the root route; otherwise nothing.
\<close>

definition top_of :: "('a \<Rightarrow> bool) \<Rightarrow> ('a \<Rightarrow> 'b :: linorder) \<Rightarrow> 'a list \<Rightarrow> 'a \<Rightarrow> bool" where
  "top_of P f xs y \<longleftrightarrow> y \<in> set xs \<and> P y \<and> (\<forall>x \<in> set xs. P x \<longrightarrow> f x \<le> f y)"

definition none_of :: "('a \<Rightarrow> bool) \<Rightarrow> 'a list \<Rightarrow> bool" where
  "none_of P xs \<longleftrightarrow> (\<forall>x \<in> set xs. \<not> P x)"

definition route_selected ::
  "'r methodRoutes \<Rightarrow> string \<Rightarrow> (string \<times> 'r routeEntry) option \<Rightarrow> bool" where
  "route_selected es path res \<longleftrightarrow>
     (case gm_get es path of
        Some e \<Rightarrow> res = Some (path, e)
      | None \<Rightarrow>
          (if \<not> none_of (is_param_match path) es then
             (\<exists>pe. res = Some pe \<and> top_of (is_param_match path) param_rank es pe)
           else if \<not> none_of (is_prefix_match path) es then
             (\<exists>pe. res = Some pe \<and> top_of (is_prefix_match path) prefix_rank es pe)
           else if \<not> none_of is_root es then
             (\<exists>pe \<in> set es. res = Some pe \<and> is_root pe)
           else res = None))"

lemma keep_max_filter:
  "foldl (keep_max f) None (filter P xs) = None \<longleftrightarrow> none_of P xs"
  "foldl (keep_max f) None (filter P xs) = Some y \<Longrightarrow> top_of P f xs y"
  using keep_max_Some [of f "filter P xs" y]
  by (auto simp: keep_max_None filter_empty_conv none_of_def top_of_def)

lemma none_of_mset: "mset xs = mset ys \<Longrightarrow> none_of P xs \<longleftrightarrow> none_of P ys"
  unfolding none_of_def by (metis set_mset_mset)

lemma top_of_mset: "mset xs = mset ys \<Longrightarrow> top_of P f xs y \<longleftrightarrow> top_of P f ys y"
  unfolding top_of_def by (metis set_mset_mset)

lemma find_is_root: "find is_root es = Some pe \<Longrightarrow> pe \<in> set es \<and> is_root pe \<and> fst pe = ''/''"
  by (auto simp: find_Some_iff is_root_def)

lemma matchRoute_selected:
  assumes "is_range it" "gm_get (routes r) method = Some es"
  shows "route_selected es path (matchRoute it r method path)"
proof (cases "gm_get es path")
  case (Some e)
  with assms(2) show ?thesis by (simp add: matchRoute_def route_selected_def)
next
  case None
  have m: "mset (it es) = mset es" using assms(1) by (simp add: is_range_def)
  note same = none_of_mset [OF m] top_of_mset [OF m]
  define P where "P = foldl (keep_max param_rank) None (filter (is_param_match path) (it es))"
  define L where "L = foldl (keep_max prefix_rank) None (filter (is_prefix_match path) (it es))"
  have res: "matchRoute it r method path =
      (case P of Some pe \<Rightarrow> Some pe
       | None \<Rightarrow> (case L of Some le \<Rightarrow> Some le
                 | None \<Rightarrow> map_option (\<lambda>e. (''/'', e)) (map_option snd (find is_root (it es)))))"
    using None assms(2) by (simp add: matchRoute_def matchStep_fold P_def L_def Let_def cong: option.case_cong)
  have P: "P = None \<longleftrightarrow> none_of (is_param_match path) es"
    "P = Some pe \<Longrightarrow> top_of (is_param_match path) param_rank es pe" for pe
    unfolding P_def using keep_max_filter(2) by (auto simp: keep_max_filter(1) same(1) simp flip: same(2))
  have L: "L = None \<longleftrightarrow> none_of (is_prefix_match path) es"
    "L = Some pe \<Longrightarrow> top_of (is_prefix_match path) prefix_rank es pe" for pe
    unfolding L_def using keep_max_filter(2) by (auto simp: keep_max_filter(1) same(1) simp flip: same(2))
  have R: "find is_root (it es) = None \<longleftrightarrow> none_of is_root es"
    using same(1) [of is_root] by (auto simp: find_None_iff none_of_def)
  show ?thesis
  proof (cases P)
    case (Some pe)
    with res P None show ?thesis by (auto simp: route_selected_def)
  next
    case Pn: None
    show ?thesis
    proof (cases L)
      case (Some pe)
      with Pn res P L None show ?thesis by (auto simp: route_selected_def)
    next
      case Ln: None
      show ?thesis
      proof (cases "find is_root (it es)")
        case (Some pe)
        then have "pe \<in> set es" "is_root pe" "fst pe = ''/''"
          using find_is_root is_range_set [OF assms(1)] by blast+
        with Some Pn Ln res P L R None show ?thesis by (cases pe) (auto simp: route_selected_def)
      next
        case none: None
        with Pn Ln res P L R None show ?thesis by (simp add: route_selected_def)
      qed
    qed
  qed
qed

lemma top_of_unique:
  "top_of P f xs y \<Longrightarrow> top_of P f xs z \<Longrightarrow> inj_on f {x \<in> set xs. P x} \<Longrightarrow> y = z"
  by (auto simp: top_of_def dest: inj_onD intro: antisym)

text \<open>Without ties in rank the selection rule determines the route.\<close>

lemma route_selected_unique:
  assumes "gm_ok es"
    and "inj_on param_rank {pe \<in> set es. is_param_match path pe}"
    and "inj_on prefix_rank {pe \<in> set es. is_prefix_match path pe}"
    and "route_selected es path r1" "route_selected es path r2"
  shows "r1 = r2"
proof -
  have "pe = pe'" if r: "pe \<in> set es" "pe' \<in> set es" "is_root pe" "is_root pe'" for pe pe'
  proof -
    obtain e e' where "pe = (''/'', e)" "pe' = (''/'', e')"
      using r(3,4) by (cases pe; cases pe') (simp add: is_root_def)
    with r(1,2) assms(1) show ?thesis by (simp add: gm_mem_iff)
  qed
  note root = this
  show ?thesis
  proof (cases "gm_get es path")
    case None
    note sel = assms(4,5) [unfolded route_selected_def None option.case]
    consider "\<not> none_of (is_param_match path) es"
      | "none_of (is_param_match path) es" "\<not> none_of (is_prefix_match path) es"
      | "none_of (is_param_match path) es" "none_of (is_prefix_match path) es"
      by blast
    then show ?thesis
    proof cases
      case 1
      with sel obtain y z where "r1 = Some y" "r2 = Some z"
        "top_of (is_param_match path) param_rank es y" "top_of (is_param_match path) param_rank es z"
        by auto
      then show ?thesis using top_of_unique [OF _ _ assms(2)] by simp
    next
      case 2
      with sel obtain y z where "r1 = Some y" "r2 = Some z"
        "top_of (is_prefix_match path) prefix_rank es y" "top_of (is_prefix_match path) prefix_rank es z"
        by auto
      then show ?thesis using top_of_unique [OF _ _ assms(3)] by simp
    next
      case 3
      with sel root show ?thesis by (auto split: if_splits)
    qed
  next
    case (Some e)
    with assms(4,5) show ?thesis by (simp add: route_selected_def)
  qed
qed

section \<open>Path parameters\<close>

text \<open>The parameter names of a compiled pattern, and a pattern with its parameters replaced.\<close>

definition part_names :: "segPart list \<Rightarrow> string list" where
  "part_names ps = filter (\<lambda>n. n \<noteq> []) (map sp_param ps)"

definition segment_names :: "routeSegment \<Rightarrow> string list" where
  "segment_names s = (if rs_param s \<noteq> [] then [rs_param s]
     else case rs_parts s of Some ps \<Rightarrow> part_names ps | None \<Rightarrow> [])"

definition part_subst :: "(string \<Rightarrow> string) \<Rightarrow> segPart list \<Rightarrow> string" where
  "part_subst env ps = concat (map (\<lambda>p. if sp_param p \<noteq> [] then env (sp_param p) else sp_literal p) ps)"

definition segment_subst :: "(string \<Rightarrow> string) \<Rightarrow> routeSegment \<Rightarrow> string" where
  "segment_subst env s = (if rs_param s \<noteq> [] then env (rs_param s)
     else case rs_parts s of Some ps \<Rightarrow> part_subst env ps | None \<Rightarrow> rs_literal s)"

definition pattern_subst :: "(string \<Rightarrow> string) \<Rightarrow> routeSegment list \<Rightarrow> string" where
  "pattern_subst env ss = CHR ''/'' # Join (map (segment_subst env) ss) ''/''"

lemma part_names_Cons [simp]:
  "part_names (p # ps) = (if sp_param p \<noteq> [] then [sp_param p] else []) @ part_names ps"
  by (simp add: part_names_def)

lemma part_names_Nil [simp]: "part_names [] = []"
  by (simp add: part_names_def)

lemma part_subst_cong:
  "(\<And>n. n \<in> set (part_names ps) \<Longrightarrow> env n = env' n) \<Longrightarrow> part_subst env ps = part_subst env' ps"
  by (auto simp: part_subst_def part_names_def intro!: arg_cong [where f = concat])

lemma segment_subst_cong:
  "(\<And>n. n \<in> set (segment_names s) \<Longrightarrow> env n = env' n) \<Longrightarrow> segment_subst env s = segment_subst env' s"
  by (auto simp: segment_subst_def segment_names_def split: option.splits intro: part_subst_cong)

lemma segPartValue_absent: "name \<notin> set (part_names ps) \<Longrightarrow> segPartValue ps seg name = None"
  by (induction ps arbitrary: seg) (auto split: option.splits list.splits if_splits)

text \<open>The bytes the first part consumes.\<close>

definition part_end :: "segPart \<Rightarrow> segPart list \<Rightarrow> string \<Rightarrow> nat" where
  "part_end p ps seg = (if sp_param p = [] then length (sp_literal p)
     else case ps of q # _ \<Rightarrow> if sp_param q = [] then the (Index seg (sp_literal q)) else length seg
                   | [] \<Rightarrow> length seg)"

lemma segParts_step:
  assumes "matchSegParts (p # ps) seg"
  shows "matchSegParts ps (drop (part_end p ps seg) seg)"
    and "segPartValue (p # ps) seg n =
        (if sp_param p \<noteq> [] \<and> n = sp_param p then Some (take (part_end p ps seg) seg)
         else segPartValue ps (drop (part_end p ps seg) seg) n)"
    and "sp_param p = [] \<Longrightarrow> take (part_end p ps seg) seg = sp_literal p"
proof -
  consider "sp_param p = []"
    | q qs i where "sp_param p \<noteq> []" "ps = q # qs" "sp_param q = []" "Index seg (sp_literal q) = Some i"
    | "sp_param p \<noteq> []" "case ps of q # _ \<Rightarrow> sp_param q \<noteq> [] | [] \<Rightarrow> True"
    using assms by (cases ps) (auto split: option.splits if_splits)
  then have "matchSegParts ps (drop (part_end p ps seg) seg) \<and>
    segPartValue (p # ps) seg n =
        (if sp_param p \<noteq> [] \<and> n = sp_param p then Some (take (part_end p ps seg) seg)
         else segPartValue ps (drop (part_end p ps seg) seg) n) \<and>
    (sp_param p = [] \<longrightarrow> take (part_end p ps seg) seg = sp_literal p)"
  proof cases
    case 1
    with assms show ?thesis by (auto simp: part_end_def HasPrefix_split)
  next
    case 2
    with assms show ?thesis by (auto simp: part_end_def)
  next
    case 3
    with assms show ?thesis by (cases ps) (auto simp: part_end_def)
  qed
  then show "matchSegParts ps (drop (part_end p ps seg) seg)"
    and "segPartValue (p # ps) seg n =
        (if sp_param p \<noteq> [] \<and> n = sp_param p then Some (take (part_end p ps seg) seg)
         else segPartValue ps (drop (part_end p ps seg) seg) n)"
    and "sp_param p = [] \<Longrightarrow> take (part_end p ps seg) seg = sp_literal p" by simp_all
qed

text \<open>A mixed segment that matches is its parts with the extracted values put back.\<close>

lemma segParts_reconstruct:
  assumes "matchSegParts ps seg" "distinct (part_names ps)"
  shows "part_subst (\<lambda>n. the (segPartValue ps seg n)) ps = seg"
    and "n \<in> set (part_names ps) \<Longrightarrow> segPartValue ps seg n \<noteq> None"
proof -
  have "part_subst (\<lambda>n. the (segPartValue ps seg n)) ps = seg \<and>
    (\<forall>n \<in> set (part_names ps). segPartValue ps seg n \<noteq> None)"
    using assms
  proof (induction ps arbitrary: seg)
    case Nil
    then show ?case by (simp add: part_subst_def)
  next
    case (Cons p ps)
    define e where "e = part_end p ps seg"
    have rest: "matchSegParts ps (drop e seg)"
      and head: "segPartValue (p # ps) seg n =
        (if sp_param p \<noteq> [] \<and> n = sp_param p then Some (take e seg) else segPartValue ps (drop e seg) n)"
      and lit: "sp_param p = [] \<Longrightarrow> take e seg = sp_literal p" for n
      using segParts_step [OF Cons.prems(1)] unfolding e_def by auto
    have d: "distinct (part_names ps)" "sp_param p \<noteq> [] \<Longrightarrow> sp_param p \<notin> set (part_names ps)"
      using Cons.prems(2) by (auto split: if_splits)
    note IH = Cons.IH [OF rest d(1)]
    have "part_subst (\<lambda>n. the (segPartValue (p # ps) seg n)) ps = drop e seg"
      using IH d(2) by (subst part_subst_cong [where env' = "\<lambda>n. the (segPartValue ps (drop e seg) n)"])
        (auto simp: head simp del: segPartValue.simps)
    moreover have "part_subst (\<lambda>n. the (segPartValue (p # ps) seg n)) (p # ps) =
        take e seg @ part_subst (\<lambda>n. the (segPartValue (p # ps) seg n)) ps"
      using lit by (simp add: part_subst_def head del: segPartValue.simps)
    ultimately have "part_subst (\<lambda>n. the (segPartValue (p # ps) seg n)) (p # ps) = seg"
      by (simp del: segPartValue.simps)
    moreover have "\<forall>n \<in> set (part_names (p # ps)). segPartValue (p # ps) seg n \<noteq> None"
      using IH by (auto simp: head simp del: segPartValue.simps)
    ultimately show ?case by blast
  qed
  then show "part_subst (\<lambda>n. the (segPartValue ps seg n)) ps = seg"
    and "n \<in> set (part_names ps) \<Longrightarrow> segPartValue ps seg n \<noteq> None" by auto
qed

text \<open>The value a single segment yields for a name it declares.\<close>

definition segment_value :: "routeSegment \<Rightarrow> string \<Rightarrow> string \<Rightarrow> string" where
  "segment_value s seg name = (if rs_param s \<noteq> [] then seg
     else case rs_parts s of Some ps \<Rightarrow> the (segPartValue ps seg name) | None \<Rightarrow> [])"

lemma segment_reconstruct:
  "matchSegment s seg \<Longrightarrow> distinct (segment_names s) \<Longrightarrow> segment_subst (segment_value s seg) s = seg"
  using segParts_reconstruct(1)
  by (auto simp: matchSegment_def segment_names_def segment_subst_def segment_value_def
      split: option.splits if_splits cong: part_subst_cong)

lemma paramValueLoop_Cons:
  assumes "matchSegment s seg" "distinct (segment_names s)" "rs_param s \<noteq> [] \<longrightarrow> rs_parts s = None"
    and "seg = hd (Split rest (CHR ''/''))"
  shows "paramValueLoop (s # ss) rest name =
    (if name \<in> set (segment_names s) then segment_value s seg name
     else case IndexByte rest (CHR ''/'') of None \<Rightarrow> []
        | Some idx \<Rightarrow> paramValueLoop ss (drop (idx + 1) rest) name)"
proof -
  have seg: "seg = (case IndexByte rest (CHR ''/'') of None \<Rightarrow> rest | Some idx \<Rightarrow> take idx rest)"
    using assms(4) by (subst (asm) Split_IndexByte) (simp split: option.splits)
  show ?thesis
  proof (cases "rs_param s = []")
    case True
    show ?thesis
    proof (cases "rs_parts s")
      case (Some ps)
      with True assms(1,2) have "matchSegParts ps seg" "distinct (part_names ps)"
        by (simp_all add: matchSegment_def segment_names_def)
      note found = segParts_reconstruct(2) [OF this, of name]
      have names: "segment_names s = part_names ps"
        using Some True by (simp add: segment_names_def)
      show ?thesis
      proof (cases "name \<in> set (part_names ps)")
        case True
        with found obtain v where "segPartValue ps seg name = Some v" by auto
        with True Some \<open>rs_param s = []\<close> show ?thesis
          by (simp add: names seg [symmetric] segment_value_def)
      next
        case False
        with Some \<open>rs_param s = []\<close> show ?thesis
          by (simp add: names seg [symmetric] segPartValue_absent)
      qed
    qed (simp add: True segment_names_def)
  next
    case False
    then show ?thesis using assms(3) by (simp add: seg [symmetric] segment_names_def segment_value_def)
  qed
qed

definition pattern_names :: "routeSegment list \<Rightarrow> string list" where
  "pattern_names ss = concat (map segment_names ss)"

definition segments_ok :: "routeSegment list \<Rightarrow> bool" where
  "segments_ok ss \<longleftrightarrow> (\<forall>s \<in> set ss. rs_param s \<noteq> [] \<longrightarrow> rs_parts s = None)"

lemma Join_Cons: "ps \<noteq> [] \<Longrightarrow> Join (p # ps) sep = p @ sep @ Join ps sep"
  by (cases ps) auto

lemma paramValueLoop_reconstruct:
  assumes "matchParamsLoop ss rest" "distinct (pattern_names ss)" "segments_ok ss"
  shows "Join (map (segment_subst (paramValueLoop ss rest)) ss) ''/'' = rest"
  using assms
proof (induction ss arbitrary: rest)
  case (Cons s ss)
  have ok: "rs_param s \<noteq> [] \<longrightarrow> rs_parts s = None" "segments_ok ss"
    using Cons.prems(3) by (auto simp: segments_ok_def)
  have d: "distinct (segment_names s)" "distinct (pattern_names ss)"
    "set (segment_names s) \<inter> set (pattern_names ss) = {}"
    using Cons.prems(2) by (auto simp: pattern_names_def)
  have head: "segment_subst (paramValueLoop (s # ss) rest) s = seg"
    if "matchSegment s seg" "seg = hd (Split rest (CHR ''/''))" for seg
    using segment_reconstruct [OF that(1) d(1)] segment_subst_cong
      paramValueLoop_Cons [OF that(1) d(1) ok(1) that(2)] by metis
  show ?case
  proof (cases "IndexByte rest (CHR ''/'')")
    case None
    then have "Split rest (CHR ''/'') = [rest]" by (subst Split_IndexByte) simp
    with None Cons.prems(1) head show ?thesis by (simp del: paramValueLoop.simps)
  next
    case (Some i)
    then have m: "matchSegment s (take i rest)" "matchParamsLoop ss (drop (i + 1) rest)"
      and h: "take i rest = hd (Split rest (CHR ''/''))"
      using Cons.prems(1) Split_IndexByte [of rest "CHR ''/''"] by auto
    have tail: "segment_subst (paramValueLoop (s # ss) rest) t =
        segment_subst (paramValueLoop ss (drop (i + 1) rest)) t" if "t \<in> set ss" for t
    proof (rule segment_subst_cong)
      fix n assume "n \<in> set (segment_names t)"
      then have "n \<notin> set (segment_names s)" using that d(3) by (auto simp: pattern_names_def)
      then show "paramValueLoop (s # ss) rest n = paramValueLoop ss (drop (i + 1) rest) n"
        using paramValueLoop_Cons [OF m(1) d(1) ok(1) h] Some by simp
    qed
    have "ss \<noteq> []" using m(2) by auto
    have "Join (map (segment_subst (paramValueLoop (s # ss) rest)) (s # ss)) ''/'' =
        take i rest @ ''/'' @ drop (i + 1) rest"
      using Cons.IH [OF m(2) d(2) ok(2)] head [OF m(1) h] \<open>ss \<noteq> []\<close>
      by (simp add: Join_Cons tail del: paramValueLoop.simps cong: map_cong)
    also have "\<dots> = rest" using IndexByte_split(1) [OF Some] by simp
    finally show ?thesis .
  qed
qed simp

lemma paramValue_reconstruct:
  assumes "matchParams ss path" "HasPrefix path ''/''" "distinct (pattern_names ss)" "segments_ok ss"
  shows "pattern_subst (paramValue ss path) ss = path"
proof -
  obtain rest where path: "path = CHR ''/'' # rest" "rest \<noteq> []"
    using assms(1,2) by (cases path) (auto simp: matchParams_def split: if_splits)
  then have "matchParamsLoop ss rest" using assms(1) by (simp add: matchParams_def split: if_splits)
  from paramValueLoop_reconstruct [OF this assms(3,4)]
  moreover have "paramValue ss path = paramValueLoop ss rest"
    using path by (intro ext) (simp add: paramValue_def)
  ultimately show ?thesis using path by (simp add: pattern_subst_def)
qed

lemma compileSegment_ok: "rs_param (fst (compileSegment p)) \<noteq> [] \<longrightarrow> rs_parts (fst (compileSegment p)) = None"
  by (simp add: compileSegment_def split: option.splits)

lemma compilePattern_ok [simp]: "segments_ok (fst (compilePattern p))"
  by (auto simp: segments_ok_def compilePattern_def Let_def compileSegment_ok)

section \<open>The invariant of the router and of the pattern index\<close>

definition index_ok :: "patternIndex \<Rightarrow> bool" where
  "index_ok idx \<longleftrightarrow> (\<forall>p ss. gm_get idx p = Some ss \<longrightarrow> ss = fst (compilePattern p))"

definition entry_ok :: "patternIndex \<Rightarrow> string \<Rightarrow> 'r routeEntry \<Rightarrow> bool" where
  "entry_ok idx p e \<longleftrightarrow> e = compileEntry (re_handler e) p \<and>
     (re_hasParams e \<longrightarrow> gm_get idx p = Some (re_segments e))"

definition router_ok :: "'r router \<times> patternIndex \<Rightarrow> bool" where
  "router_ok st \<longleftrightarrow> index_ok (snd st) \<and>
     (\<forall>m es. gm_get (routes (fst st)) m = Some es \<longrightarrow>
        gm_ok es \<and> (\<forall>p e. gm_get es p = Some e \<longrightarrow>
          (\<exists>q. p = normalizePath q) \<and> entry_ok (snd st) p e))"

datatype 'r router_op =
    OpUse "('r handler \<Rightarrow> 'r handler) list"
  | OpHandle string string "'r handler option"
  | OpAny string "'r handler option"

fun router_step :: "'r router \<times> patternIndex \<Rightarrow> 'r router_op \<Rightarrow> 'r router \<times> patternIndex" where
  "router_step (r, idx) (OpUse mws) = (router_Use r mws, idx)"
| "router_step st (OpHandle m p h) = router_Handle st m p h"
| "router_step st (OpAny p h) = router_Any st p h"

lemma compileEntry_simps [simp]:
  "re_handler (compileEntry h p) = h"
  "re_hasParams (compileEntry h p) \<Longrightarrow> re_segments (compileEntry h p) = fst (compilePattern p)"
  by (auto simp: compileEntry_def split: if_splits)

lemma router_ok_New: "index_ok idx \<Longrightarrow> router_ok (NewRouter, idx)"
  by (simp add: router_ok_def NewRouter_def)

lemma router_ok_Use: "router_ok (r, idx) \<Longrightarrow> router_ok (router_Use r mws, idx)"
  by (simp add: router_ok_def router_Use_def)

lemma router_ok_Handle:
  assumes "router_ok st"
  shows "router_ok (router_Handle st m p h)"
proof (cases h)
  case None
  with assms show ?thesis by (simp add: router_Handle_def split: prod.splits)
next
  case (Some g)
  obtain r idx where st: "st = (r, idx)" by (cases st)
  define q where "q = normalizePath p"
  define e where "e = compileEntry g q"
  define idx' where "idx' = (if re_hasParams e then indexParamPattern idx q (re_segments e) else idx)"
  have eq: "router_Handle st m p h = (r\<lparr>routes := gm_put (ToUpper m)
      (gm_put q e (gm_getd [] (routes r) (ToUpper m))) (routes r)\<rparr>, idx')"
    by (simp add: router_Handle_def st Some Let_def q_def e_def idx'_def)
  have mono: "gm_get idx x = Some ss \<Longrightarrow> gm_get idx' x = Some ss" for x ss
    by (auto simp: idx'_def indexParamPattern_def gm_get_put split: option.splits)
  have iok: "index_ok idx" using assms by (simp add: router_ok_def st)
  then have iok': "index_ok idx'"
    by (auto simp: idx'_def indexParamPattern_def index_ok_def gm_get_put e_def split: option.splits)
  have here: "entry_ok idx' q e"
    using iok by (auto simp: entry_ok_def idx'_def indexParamPattern_def e_def index_ok_def gm_get_put
        split: option.splits)
  have old: "gm_ok es \<and> (\<forall>x y. gm_get es x = Some y \<longrightarrow> (\<exists>q. x = normalizePath q) \<and> entry_ok idx' x y)"
    if "es = gm_getd [] (routes r) k" for k es
    using assms mono that
    by (cases "gm_get (routes r) k") (auto simp: router_ok_def st gm_getd_def entry_ok_def)
  have "gm_ok es \<and> (\<forall>x y. gm_get es x = Some y \<longrightarrow> (\<exists>q. x = normalizePath q) \<and> entry_ok idx' x y)"
    if "gm_get (routes (fst (router_Handle st m p h))) k = Some es" for k es
  proof (cases "k = ToUpper m")
    case True
    then have "es = gm_put q e (gm_getd [] (routes r) k)" using that by (simp add: eq gm_get_put)
    with old [OF refl, of k] here show ?thesis by (auto simp: gm_get_put q_def split: if_splits)
  next
    case False
    then have "es = gm_getd [] (routes r) k" using that by (simp add: eq gm_get_put gm_getd_def)
    then show ?thesis by (rule old)
  qed
  with iok' show ?thesis by (simp add: router_ok_def eq)
qed

interpretation router: kept_invariant router_step router_ok
proof
  fix st :: "'r router \<times> patternIndex" and x
  assume ok: "router_ok st"
  have any: "router_ok (foldl (\<lambda>st m. router_Handle st m p h) st ms)" for p h ms
    using ok by (induction ms arbitrary: st) (simp_all add: router_ok_Handle)
  show "router_ok (router_step st x)"
    using ok any by (cases st; cases x) (auto simp: router_ok_Use router_ok_Handle router_Any_def)
qed

section \<open>Compiling patterns written as pieces\<close>

text \<open>
  A pattern as its author writes it: literal segments and whole-segment parameters; the text
  of the pattern, and the path for given parameter values.
\<close>

datatype piece = Lit string | Par string

fun piece_text :: "piece \<Rightarrow> string" where
  "piece_text (Lit s) = s"
| "piece_text (Par n) = ''{'' @ n @ ''}''"

fun piece_value :: "(string \<Rightarrow> string) \<Rightarrow> piece \<Rightarrow> string" where
  "piece_value env (Lit s) = s"
| "piece_value env (Par n) = env n"

fun piece_segment :: "piece \<Rightarrow> routeSegment" where
  "piece_segment (Lit s) = \<lparr>rs_literal = s, rs_param = [], rs_parts = None\<rparr>"
| "piece_segment (Par n) = \<lparr>rs_literal = [], rs_param = n, rs_parts = None\<rparr>"

definition pieces_path :: "(piece \<Rightarrow> string) \<Rightarrow> piece list \<Rightarrow> string" where
  "pieces_path f ps = CHR ''/'' # Join (map f ps) ''/''"

fun wf_piece :: "(string \<Rightarrow> string) \<Rightarrow> piece \<Rightarrow> bool" where
  "wf_piece env (Lit s) \<longleftrightarrow>
     s \<noteq> [] \<and> CHR ''/'' \<notin> set s \<and> CHR ''{'' \<notin> set s \<and> CHR '':'' \<notin> set s \<and> s \<noteq> ''*''"
| "wf_piece env (Par n) \<longleftrightarrow>
     n \<noteq> [] \<and> validParamName n \<and> env n \<noteq> [] \<and> CHR ''/'' \<notin> set (env n)"

lemma segPartsLoop_literal:
  "CHR ''{'' \<notin> set s \<Longrightarrow> CHR '':'' \<notin> set s \<Longrightarrow> segPartsLoop s lit parts = flush_lit (lit @ s) parts"
  by (induction s arbitrary: lit) auto

lemma validParamName_no_slash: "validParamName n \<Longrightarrow> CHR ''/'' \<notin> set n"
  by (auto simp: validParamName_def validParamByte_def list_all_iff)

lemma compileSegment_piece:
  "wf_piece env p \<Longrightarrow>
     compileSegment (piece_text p) = (piece_segment p, case p of Par _ \<Rightarrow> True | Lit _ \<Rightarrow> False)"
proof (cases p)
  case (Lit s)
  assume "wf_piece env p"
  with Lit have "compileSegParts s = None" "paramSegmentName s = None"
    by (auto simp: compileSegParts_def segPartsLoop_literal flush_lit_def paramSegmentName_def
        HasPrefix_split)
  with Lit show ?thesis by (simp add: compileSegment_def)
next
  case (Par n)
  assume "wf_piece env p"
  with Par have "paramSegmentName (''{'' @ n @ ''}'') = Some n"
    using HasSuffix_snoc [of "CHR ''{'' # n" "CHR ''}''" "CHR ''}''"]
    by (simp add: paramSegmentName_def)
  with Par show ?thesis by (simp add: compileSegment_def)
qed

lemma piece_parts:
  assumes "wf_piece env p"
  shows "piece_text p \<noteq> []" "CHR ''/'' \<notin> set (piece_text p)" "piece_text p \<noteq> ''*''"
    "piece_value env p \<noteq> []" "CHR ''/'' \<notin> set (piece_value env p)"
  using assms by (cases p; auto dest: validParamName_no_slash)+

lemma pieces_ok:
  assumes "list_all (wf_piece env) ps"
  shows "\<forall>p \<in> set ps. piece_text p \<noteq> [] \<and> CHR ''/'' \<notin> set (piece_text p)"
    and "\<forall>p \<in> set ps. piece_value env p \<noteq> [] \<and> CHR ''/'' \<notin> set (piece_value env p)"
  using assms piece_parts by (auto simp: list_all_iff)

lemma last_Join:
  "ps \<noteq> [] \<Longrightarrow> last ps \<noteq> [] \<Longrightarrow> suffix (last ps) (Join ps sep)"
  by (induction ps sep rule: Join.induct) (auto simp: suffix_def)

lemma pieces_path_normal:
  assumes "ps \<noteq> []" "\<forall>p \<in> set ps. f p \<noteq> [] \<and> CHR ''/'' \<notin> set (f p)"
  shows "normal_path (pieces_path f ps)" "pieces_path f ps \<noteq> ''/''"
    "Split (drop 1 (pieces_path f ps)) (CHR ''/'') = map f ps"
proof -
  have l: "f (last ps) \<noteq> []" "CHR ''/'' \<notin> set (f (last ps))"
    using assms by auto
  then have "last (f (last ps)) \<noteq> CHR ''/''" using last_in_set by metis
  have "suffix (f (last ps)) (Join (map f ps) ''/'')"
    using last_Join [of "map f ps" "''/''"] assms(1) l(1) by (simp add: last_map)
  then obtain r where "Join (map f ps) ''/'' = r @ f (last ps)" by (auto simp: suffix_def)
  with \<open>last (f (last ps)) \<noteq> CHR ''/''\<close> show "normal_path (pieces_path f ps)" "pieces_path f ps \<noteq> ''/''"
    using l by (auto simp: normal_path_def pieces_path_def HasSuffix_single)
  show "Split (drop 1 (pieces_path f ps)) (CHR ''/'') = map f ps"
    using Split_Join [of "map f ps" "CHR ''/''"] assms by (auto simp: pieces_path_def)
qed

lemma compilePattern_pieces:
  assumes "ps \<noteq> []" "list_all (wf_piece env) ps"
  shows "compilePattern (pieces_path piece_text ps) =
    (map piece_segment ps, \<exists>n. Par n \<in> set ps)"
proof -
  have s: "Split (Join (map piece_text ps) ''/'') (CHR ''/'') = map piece_text ps"
    using pieces_path_normal(3) [OF assms(1) pieces_ok(1) [OF assms(2)]]
    by (simp add: pieces_path_def)
  have n: "Join (map piece_text ps) ''/'' \<noteq> []"
    using pieces_path_normal(2) [OF assms(1) pieces_ok(1) [OF assms(2)]]
    by (simp add: pieces_path_def)
  have c: "compileSegment (piece_text p) = (piece_segment p, case p of Par _ \<Rightarrow> True | Lit _ \<Rightarrow> False)"
    if "p \<in> set ps" for p
    using that assms(2) by (auto simp: list_all_iff intro: compileSegment_piece)
  have "list_ex (snd \<circ> compileSegment) (map piece_text ps) \<longleftrightarrow> (\<exists>n. Par n \<in> set ps)"
    using c by (force simp: list_ex_iff split: piece.splits)
  moreover have "TrimPrefix (pieces_path piece_text ps) ''/'' = Join (map piece_text ps) ''/''"
    by (simp add: pieces_path_def TrimPrefix_def)
  ultimately show ?thesis using c n by (simp add: compilePattern_def Let_def s)
qed

lemma no_wildcard_suffix:
  assumes "ps \<noteq> []" "list_all (wf_piece env) ps"
  shows "\<not> HasSuffix (pieces_path piece_text ps) ''/*''"
proof
  assume "HasSuffix (pieces_path piece_text ps) ''/*''"
  then obtain r where r: "pieces_path piece_text ps = r @ ''/*''"
    by (auto simp: HasSuffix_iff suffix_def)
  have "Split (CHR ''/'' # Join (map piece_text ps) ''/'') (CHR ''/'') = [] # map piece_text ps"
    using pieces_path_normal(3) [OF assms(1) pieces_ok(1) [OF assms(2)]]
    by (simp add: pieces_path_def)
  moreover have "last (Split (q @ ''/*'') (CHR ''/'')) = ''*''" for q
    by (simp add: Split_append_sep)
  ultimately have "last ([] # map piece_text ps) = ''*''" using r by (metis pieces_path_def)
  then have "piece_text (last ps) = ''*''" using assms(1) by (simp add: last_map)
  moreover have "wf_piece env (last ps)" using assms by (simp add: list_all_iff)
  ultimately show False using piece_parts(3) by blast
qed

lemma paramValueLoop_pieces:
  assumes "list_all (wf_piece env) ps" "Par n \<in> set ps"
  shows "paramValueLoop (map piece_segment ps) (Join (map (piece_value env) ps) ''/'') n = env n"
  using assms
proof (induction ps)
  case (Cons p ps)
  have w: "CHR ''/'' \<notin> set (piece_value env p)" "wf_piece env p"
    using Cons.prems(1) piece_parts(5) by auto
  show ?case
  proof (cases "ps = []")
    case True
    then have "p = Par n" using Cons.prems(2) by simp
    with True w show ?thesis
      by (auto simp: IndexByte_None_iff [THEN iffD2])
  next
    case False
    let ?v = "piece_value env p" and ?r = "Join (map (piece_value env) ps) ''/''"
    have j: "Join (map (piece_value env) (p # ps)) ''/'' = ?v @ CHR ''/'' # ?r"
      using False by (simp add: Join_Cons)
    have i: "IndexByte (?v @ CHR ''/'' # ?r) (CHR ''/'') = Some (length ?v)"
      using w(1) by (rule IndexByte_first)
    have "paramValueLoop (map piece_segment ps) ?r n = env n" if "p \<noteq> Par n"
      using that Cons by auto
    then have "paramValueLoop (map piece_segment (p # ps)) (?v @ CHR ''/'' # ?r) n = env n"
      using w i by (cases p) (auto simp: Let_def)
    then show ?thesis by (simp only: j)
  qed
qed simp

section \<open>Dispatch through the middleware\<close>

lemma chain_foldr: "chain mws h = foldr (\<lambda>mw k. mw k) mws h"
  by (simp add: chain_def foldr_conv_foldl)

lemma run_Use:
  "run router_step (r, idx) (map OpUse uses) = (r\<lparr>middleware := middleware r @ concat uses\<rparr>, idx)"
  by (induction uses arbitrary: r) (simp_all add: router_Use_def)

lemma router_Handle_Some:
  "fst (router_Handle (r, idx) m p (Some h)) =
     r\<lparr>routes := gm_put (ToUpper m) (gm_put (normalizePath p) (compileEntry h (normalizePath p))
          (gm_getd [] (routes r) (ToUpper m))) (routes r)\<rparr>"
  by (simp add: router_Handle_def Let_def)

lemma matchRoute_exact:
  "gm_get (routes r) m = Some es \<Longrightarrow> gm_get es path = Some e \<Longrightarrow>
     matchRoute it r m path = Some (path, e)"
  by (simp add: matchRoute_def)

section \<open>Properties\<close>

text \<open>C1. Route selection: whatever order the runtime chooses to visit the routes of the
  request's method in, the router serves the exact route if there is one, else a matching
  parameter pattern with the most literal segments (the longest text among equals), else the
  longest prefix route on a segment boundary, else the root route, else nothing.\<close>

theorem matchRoute_selection_rule:
  assumes "is_range it"
  shows "route_selected (gm_getd [] (routes r) method) path (matchRoute it r method path)"
proof (cases "gm_get (routes r) method")
  case None
  then show ?thesis
    by (simp add: gm_getd_def matchRoute_def route_selected_def none_of_def)
next
  case (Some es)
  with matchRoute_selected [OF assms Some] show ?thesis by (simp add: gm_getd_def)
qed

text \<open>The routers of the witnesses: handlers answer with a number.\<close>

definition demo_router :: "nat router \<times> patternIndex" where
  "demo_router = run router_step (NewRouter, [])
     [OpHandle ''get'' ''/users/{id}'' (Some (\<lambda>_. 1)), OpHandle ''GET'' ''/users/*'' (Some (\<lambda>_. 2)),
      OpHandle ''GET'' ''/users/{id}/'' (Some (\<lambda>_. 3)), OpHandle ''GET'' '''' (Some (\<lambda>_. 4)),
      OpHandle ''GET'' ''/files/{name}.{ext}'' (Some (\<lambda>_. 5))]"

lemma matchRoute_selection_rule_witness:
  "route_selected (gm_getd [] (routes (fst demo_router)) ''GET'') ''/users/7''
     (matchRoute rev (fst demo_router) ''GET'' ''/users/7'')
   \<and> map_option fst (matchRoute rev (fst demo_router) ''GET'' ''/users/7'') = Some ''/users/{id}''
   \<and> map_option fst (matchRoute rev (fst demo_router) ''GET'' ''/users/7/x'') = Some ''/users/*''
   \<and> map_option fst (matchRoute rev (fst demo_router) ''GET'' ''/other'') = Some ''/''
   \<and> map_option fst (matchRoute rev (fst demo_router) ''PUT'' ''/users/7'') = None"
  by (intro conjI matchRoute_selection_rule is_range_rev; code_simp)

text \<open>C2. Determinism: in every router built by any sequence of registrations, if no two
  matching routes of a class have equal rank, the route served does not depend on the order
  in which the runtime visits the map.\<close>

theorem matchRoute_deterministic:
  assumes "is_range it1" "is_range it2"
    and "r = fst (run router_step (NewRouter, []) ops)"
    and "inj_on param_rank {pe \<in> set (gm_getd [] (routes r) m). is_param_match path pe}"
    and "inj_on prefix_rank {pe \<in> set (gm_getd [] (routes r) m). is_prefix_match path pe}"
  shows "matchRoute it1 r m path = matchRoute it2 r m path"
proof (cases "gm_get (routes r) m")
  case None
  then show ?thesis by (simp add: matchRoute_def)
next
  case (Some es)
  have "router_ok (run router_step (NewRouter, []) ops)"
    by (rule router.run_keeps) (simp add: router_ok_New index_ok_def)
  with Some have "gm_ok es" using assms(3) by (auto simp: router_ok_def)
  then show ?thesis
    using assms(4,5) Some matchRoute_selected [OF assms(1) Some] matchRoute_selected [OF assms(2) Some]
    by (intro route_selected_unique) (simp_all add: gm_getd_def)
qed

lemma matchRoute_deterministic_witness:
  "matchRoute (\<lambda>m. m) (fst demo_router) ''GET'' ''/users/7''
   = matchRoute rev (fst demo_router) ''GET'' ''/users/7''"
proof -
  let ?es = "gm_getd [] (routes (fst demo_router)) ''GET''"
  have "map fst (filter (is_param_match ''/users/7'') ?es) = [''/users/{id}'']"
    "map fst (filter (is_prefix_match ''/users/7'') ?es) = [''/users/*'']"
    by code_simp+
  then obtain a b where "filter (is_param_match ''/users/7'') ?es = [a]"
    "filter (is_prefix_match ''/users/7'') ?es = [b]"
    by auto
  then have "{pe \<in> set ?es. is_param_match ''/users/7'' pe} = {a}"
    "{pe \<in> set ?es. is_prefix_match ''/users/7'' pe} = {b}"
    by (metis list.set(1) list.set(2) set_filter)+
  then show ?thesis
    by (intro matchRoute_deterministic [OF is_range_id is_range_rev arg_cong [where f = fst, OF demo_router_def]])
      simp_all
qed

text \<open>
  Ties are broken by the order of the map: the routes \<open>/a/b\<close> and \<open>/a/*\<close> both match
  \<open>/a/b/c\<close> and have texts of equal length, so two runs of the same program can serve
  different handlers for the same request.\<close>

theorem matchRoute_tie_depends_on_order:
  "\<exists>it1 it2 r. is_range it1 \<and> is_range it2 \<and>
     r = fst (run router_step (NewRouter, [])
       [OpHandle ''GET'' ''/a/b'' (Some (\<lambda>_. 1 :: nat)), OpHandle ''GET'' ''/a/*'' (Some (\<lambda>_. 2))]) \<and>
     map_option fst (matchRoute it1 r ''GET'' ''/a/b/c'') = Some ''/a/b'' \<and>
     map_option fst (matchRoute it2 r ''GET'' ''/a/b/c'') = Some ''/a/*''"
proof -
  let ?r = "fst (run router_step (NewRouter, [])
       [OpHandle ''GET'' ''/a/b'' (Some (\<lambda>_. 1 :: nat)), OpHandle ''GET'' ''/a/*'' (Some (\<lambda>_. 2))])"
  have "map_option fst (matchRoute (\<lambda>m. m) ?r ''GET'' ''/a/b/c'') = Some ''/a/b''"
    "map_option fst (matchRoute rev ?r ''GET'' ''/a/b/c'') = Some ''/a/*''"
    by code_simp+
  with is_range_id is_range_rev show ?thesis by blast
qed

text \<open>
  Path parameters: in every router built by registrations, when a request is dispatched
  to a parameter pattern, putting the values \<open>PathValue\<close> reports back into the pattern gives
  the normalised request path (parameter names being distinct), mixed segments included.\<close>

theorem PathValue_reconstructs_path:
  assumes "st = run router_step (NewRouter, []) ops" "is_range it"
    and "matchRoute it (fst st) m (normalizePath (rq_Path req)) = Some (p, e)"
    and "re_hasParams e" "p \<noteq> normalizePath (rq_Path req)" "distinct (pattern_names (re_segments e))"
  shows "pattern_subst (PathValue (snd st) std (req\<lparr>rq_Pattern := p\<rparr>)) (re_segments e)
    = normalizePath (rq_Path req)"
proof -
  let ?path = "normalizePath (rq_Path req)"
  have ok: "router_ok st" unfolding assms(1)
    by (rule router.run_keeps) (simp add: router_ok_New index_ok_def)
  obtain es where es: "gm_get (routes (fst st)) m = Some es"
    using assms(3) by (auto simp: matchRoute_def split: option.splits)
  have "route_selected es ?path (Some (p, e))" using matchRoute_selected [OF assms(2) es] assms(3) by metis
  then have sel: "(p, e) \<in> set es" "is_param_match ?path (p, e)"
    using assms(4,5)
    by (auto simp: route_selected_def top_of_def is_prefix_match_def is_root_def
        split: option.splits if_splits)
  have "gm_ok es" using ok es by (auto simp: router_ok_def)
  with sel(1) have "entry_ok (snd st) p e" using ok es by (auto simp: router_ok_def gm_mem_iff)
  then have e: "gm_get (snd st) p = Some (re_segments e)" "segments_ok (re_segments e)"
    using assms(4) unfolding entry_ok_def by (simp, metis compileEntry_simps(2) compilePattern_ok)
  have m: "matchParams (re_segments e) ?path" using sel(2) by (simp add: is_param_match_def)
  then have "PathValue (snd st) std (req\<lparr>rq_Pattern := p\<rparr>) = paramValue (re_segments e) ?path"
    using e(1) by (intro ext) (simp add: PathValue_def)
  then show ?thesis using paramValue_reconstruct [OF m _ assms(6) e(2)] by simp
qed

lemma PathValue_reconstructs_path_witness:
  "\<exists>e. matchRoute rev (fst demo_router) ''GET'' ''/files/a.tar.gz'' = Some (''/files/{name}.{ext}'', e)
   \<and> pattern_subst (PathValue (snd demo_router) (\<lambda>_ _. [])
        \<lparr>rq_Method = ''GET'', rq_Path = ''/files/a.tar.gz'', rq_Pattern = ''/files/{name}.{ext}''\<rparr>)
        (re_segments e) = ''/files/a.tar.gz''
   \<and> PathValue (snd demo_router) (\<lambda>_ _. [])
        \<lparr>rq_Method = ''GET'', rq_Path = ''/files/a.tar.gz'', rq_Pattern = ''/files/{name}.{ext}''\<rparr> ''ext''
      = ''tar.gz''"
proof -
  let ?req = "\<lparr>rq_Method = ''GET'', rq_Path = ''/files/a.tar.gz'', rq_Pattern = []\<rparr>"
  have n: "normalizePath ''/files/a.tar.gz'' = ''/files/a.tar.gz''" by code_simp
  have r: "map_option (\<lambda>(p, e). (p, re_hasParams e, pattern_names (re_segments e)))
      (matchRoute rev (fst demo_router) ''GET'' ''/files/a.tar.gz'')
      = Some (''/files/{name}.{ext}'', True, [''name'', ''ext''])"
    by code_simp
  then obtain e where e: "matchRoute rev (fst demo_router) ''GET'' ''/files/a.tar.gz''
      = Some (''/files/{name}.{ext}'', e)" "re_hasParams e" "pattern_names (re_segments e) = [''name'', ''ext'']"
    by auto
  have "pattern_subst (PathValue (snd demo_router) (\<lambda>_ _. []) (?req\<lparr>rq_Pattern := ''/files/{name}.{ext}''\<rparr>))
      (re_segments e) = normalizePath (rq_Path ?req)"
    by (rule PathValue_reconstructs_path [OF demo_router_def is_range_rev, where m = "''GET''"])
      (use e n in simp_all)
  moreover have "PathValue (snd demo_router) (\<lambda>_ _. [])
        \<lparr>rq_Method = ''GET'', rq_Path = ''/files/a.tar.gz'', rq_Pattern = ''/files/{name}.{ext}''\<rparr> ''ext''
      = ''tar.gz''" by code_simp
  ultimately show ?thesis using e(1) n by auto
qed

text \<open>
  Parameters round trip: registering a pattern made of literal and parameter segments
  and asking, for a path with a value in place of each parameter, for a parameter of the
  pattern yields that value, whatever was registered before.\<close>

theorem PathValue_roundtrip:
  assumes "router_ok (r, idx)" "list_all (wf_piece env) ps" "Par n \<in> set ps"
    and "st = router_Handle (r, idx) m (pieces_path piece_text ps) (Some h)"
  shows "PathValue (snd st) std
      \<lparr>rq_Method = m, rq_Path = pieces_path (piece_value env) ps,
       rq_Pattern = pieces_path piece_text ps\<rparr> n = env n"
proof -
  have ne: "ps \<noteq> []" using assms(3) by auto
  let ?pat = "pieces_path piece_text ps" and ?path = "pieces_path (piece_value env) ps"
  note pat = pieces_path_normal [OF ne pieces_ok(1) [OF assms(2)]]
  note path = pieces_path_normal [OF ne pieces_ok(2) [OF assms(2)]]
  have norm: "normalizePath ?pat = ?pat" "normalizePath ?path = ?path"
    using pat(1) path(1) by (simp_all add: normalizePath_id)
  have comp: "compileEntry h ?pat = \<lparr>re_handler = h, re_segments = map piece_segment ps,
      re_hasParams = True, re_literals = re_literals (compileEntry h ?pat)\<rparr>"
    using compilePattern_pieces [OF ne assms(2)] no_wildcard_suffix [OF ne assms(2)] assms(3)
    by (auto simp: compileEntry_def)
  have "router_ok st" unfolding assms(4) using assms(1) by (rule router_ok_Handle)
  moreover have "gm_get (routes (fst st)) (ToUpper m) =
      Some (gm_put ?pat (compileEntry h ?pat) (gm_getd [] (routes r) (ToUpper m)))"
    unfolding assms(4) router_Handle_Some by (simp add: gm_get_put norm)
  ultimately have "entry_ok (snd st) ?pat (compileEntry h ?pat)"
    by (auto simp: router_ok_def gm_get_put)
  then have idx: "gm_get (snd st) ?pat = Some (map piece_segment ps)"
    by (subst (asm) comp) (simp add: entry_ok_def)
  have "list_all2 matchSegment (map piece_segment ps) (map (piece_value env) ps)"
    using assms(2) by (induction ps) (auto simp: matchSegment_def elim!: wf_piece.elims)
  moreover have "1 < length ?path" using path(2) by (cases "drop 1 ?path") (auto simp: pieces_path_def)
  ultimately have "matchParams (map piece_segment ps) ?path"
    using path(3) by (simp add: matchParams_iff)
  moreover have "paramValue (map piece_segment ps) ?path n = env n"
    using paramValueLoop_pieces [OF assms(2,3)] \<open>1 < length ?path\<close>
    by (simp add: paramValue_def pieces_path_def)
  ultimately show ?thesis using idx norm by (simp add: PathValue_def)
qed

lemma PathValue_roundtrip_witness:
  "PathValue (snd (router_Handle (NewRouter, []) ''GET'' ''/users/{id}/posts/{post}'' (Some (\<lambda>_. 0 :: nat))))
     (\<lambda>_ _. []) \<lparr>rq_Method = ''GET'', rq_Path = ''/users/ann/posts/7'',
        rq_Pattern = ''/users/{id}/posts/{post}''\<rparr> ''post'' = ''7''"
proof -
  let ?ps = "[Lit ''users'', Par ''id'', Lit ''posts'', Par ''post'']"
  let ?env = "\<lambda>n. if n = ''id'' then ''ann'' else ''7''"
  have "list_all (wf_piece ?env) ?ps" "Par ''post'' \<in> set ?ps"
    by (simp_all add: validParamName_def validParamByte_def)
  note res = PathValue_roundtrip [OF router_ok_New [of "[]"] this refl,
    where m = "''GET''" and h = "\<lambda>_. 0 :: nat" and std = "\<lambda>_ _. []"]
  then show ?thesis by (simp add: pieces_path_def index_ok_def)
qed

text \<open>Dispatch: after a handler is registered, a request for its method (in any case) and
  path is answered by that handler inside every middleware registered before or after the
  route, the first registered outermost, and the handler sees the pattern as registered.\<close>

theorem ServeHTTP_dispatches_exact:
  assumes "ToUpper (rq_Method req) = ToUpper m" "normalizePath (rq_Path req) = normalizePath p"
    and "st = run router_step (r, idx) (OpHandle m p (Some h) # map OpUse uses)"
  shows "router_ServeHTTP it notFound (fst st) req =
    foldr (\<lambda>mw k. mw k) (middleware r @ concat uses) h (req\<lparr>rq_Pattern := normalizePath p\<rparr>)"
proof -
  obtain r' idx' where h: "router_Handle (r, idx) m p (Some h) = (r', idx')" by fastforce
  then have r': "r' = r\<lparr>routes := gm_put (ToUpper m)
      (gm_put (normalizePath p) (compileEntry h (normalizePath p))
          (gm_getd [] (routes r) (ToUpper m))) (routes r)\<rparr>"
    using router_Handle_Some [of r idx m p h] by simp
  have st: "fst st = r'\<lparr>middleware := middleware r' @ concat uses\<rparr>"
    by (simp add: assms(3) h run_Use)
  have "matchRoute it (fst st) (ToUpper m) (normalizePath p) =
      Some (normalizePath p, compileEntry h (normalizePath p))"
    by (rule matchRoute_exact) (simp add: st r' gm_get_put, simp add: gm_get_put)
  then show ?thesis
    by (simp add: router_ServeHTTP_def assms(1,2) chain_foldr st r')
qed

lemma ServeHTTP_dispatches_exact_witness:
  "router_ServeHTTP rev (\<lambda>_. [])
     (fst (run router_step (NewRouter, [])
        [OpHandle ''get'' ''/a/'' (Some (\<lambda>req. ''h '' @ rq_Pattern req)),
         OpUse [\<lambda>k req. ''1 '' @ k req], OpUse [\<lambda>k req. ''2 '' @ k req]]))
     \<lparr>rq_Method = ''Get'', rq_Path = ''/a'', rq_Pattern = []\<rparr> = ''1 2 h /a''"
proof -
  let ?req = "\<lparr>rq_Method = ''Get'', rq_Path = ''/a'', rq_Pattern = []\<rparr>"
  have c: "ToUpper (rq_Method ?req) = ToUpper ''get''" "normalizePath (rq_Path ?req) = normalizePath ''/a/''"
    "normalizePath ''/a/'' = ''/a''"
    by code_simp+
  show ?thesis
    using ServeHTTP_dispatches_exact [OF c(1,2) refl, where it = rev and notFound = "\<lambda>_. []"
        and r = NewRouter and idx = "[]" and h = "\<lambda>req. ''h '' @ rq_Pattern req"
        and uses = "[[\<lambda>k req. ''1 '' @ k req], [\<lambda>k req. ''2 '' @ k req]]"]
    by (simp add: c(3) NewRouter_def)
qed

end
