(* ===== verification/Registry.thy ===== *)
theory Registry
  imports Go_Paths
begin

text \<open>
  The declarative configuration of the control plane: routes, policies, rollouts, regions,
  tenants and upstreams (\<open>pkg/runtime/config_registry.go\<close>, \<open>rollout.go\<close>, \<open>region.go\<close>,
  \<open>tenant_registry.go\<close>, \<open>upstream.go\<close>), with the decisions taken from it: policy checks,
  tenant scoping, rollout steps, region failover and upstream selection.

  Rates and thresholds (\<open>float64\<close>) are rationals. A weight is an \<open>int\<close>; the sum of the weights
  of a pool wraps at 64 bits as in the code. What the code does not decide itself is a
  parameter: \<open>urlOK\<close> (whether \<open>url.Parse\<close> accepts a target), \<open>it\<close> (the map order) and the
  number drawn by \<open>rand.Intn\<close>.
\<close>

section \<open>Data\<close>

record SLOPolicy =
  slo_ErrorRateThreshold :: rat
  slo_LatencyThresholdMS :: int
  slo_BurnRateLimit :: rat

definition NewSLOPolicy :: "rat \<Rightarrow> int \<Rightarrow> rat \<Rightarrow> SLOPolicy" where
  "NewSLOPolicy errorRateThreshold latencyThresholdMS burnRateLimit =
     \<lparr>slo_ErrorRateThreshold = (if errorRateThreshold \<le> 0 then 5 / 100 else errorRateThreshold),
      slo_LatencyThresholdMS = (if latencyThresholdMS \<le> 0 then 250 else latencyThresholdMS),
      slo_BurnRateLimit = (if burnRateLimit \<le> 0 then 2 / 100 else burnRateLimit)\<rparr>"

definition defaultSLO :: SLOPolicy where
  "defaultSLO = NewSLOPolicy (5 / 100) 250 (2 / 100)"

record RouteConfig =
  rc_Name :: string
  rc_Method :: string
  rc_Path :: string
  rc_Target :: string
  rc_Upstream :: string
  rc_Weight :: int
  rc_Tenant :: string
  rc_Enabled :: bool
  rc_Header :: "(string, string) gomap"

record RoutePolicy =
  po_Name :: string
  po_Environment :: string
  po_Service :: string
  po_AllowedTenants :: "string list"
  po_AllowedRegions :: "string list"
  po_RequireSignedArtifacts :: bool
  po_RequireAudit :: bool
  po_SLO :: "SLOPolicy option"

text \<open>A strategy is a string type with four named values; any other text is possible.\<close>

abbreviation RolloutStrategyCanary :: string where "RolloutStrategyCanary \<equiv> ''canary''"

abbreviation RolloutStrategyRollback :: string where "RolloutStrategyRollback \<equiv> ''rollback''"

record RolloutConfig =
  ro_Name :: string
  ro_Route :: string
  ro_Strategy :: string
  ro_Target :: string
  ro_CanaryWeight :: int
  ro_MaxWeight :: int
  ro_Step :: int
  ro_Enabled :: bool
  ro_Progressive :: bool
  ro_Rollback :: bool
  ro_ErrorThreshold :: rat

record RolloutMetrics =
  rm_Requests :: int
  rm_ErrorRate :: rat
  rm_Failed :: int
  rm_Succeeded :: int

record RolloutDecision =
  rd_Allow :: bool
  rd_Weight :: int
  rd_Target :: string
  rd_Reason :: string

record RegionConfig =
  rg_Name :: string
  rg_Region :: string
  rg_Target :: string
  rg_Weight :: int
  rg_Enabled :: bool
  rg_Primary :: bool
  rg_Healthy :: bool

record RegionMetrics =
  rx_LatencyMS :: int
  rx_ErrorRate :: rat

record RegionDecision =
  gd_Allow :: bool
  gd_Name :: string
  gd_Target :: string
  gd_Reason :: string

record TenantConfig =
  tc_Name :: string
  tc_AllowedRoutes :: "string list"
  tc_AllowedRegions :: "string list"
  tc_Enabled :: bool

record UpstreamConfig =
  up_Name :: string
  up_Target :: string
  up_Fallback :: string
  up_Services :: "string list"
  up_Weight :: int
  up_Enabled :: bool
  up_Healthy :: bool

record RouteRegistry =
  rr_routes :: "(string, RouteConfig) gomap"
  rr_rollouts :: "(string, RolloutConfig) gomap"
  rr_regions :: "(string, RegionConfig) gomap"
  rr_tenants :: "(string, TenantConfig) gomap"
  rr_policies :: "(string, RoutePolicy) gomap"
  rr_upstreams :: "(string, UpstreamConfig) gomap"

definition NewRouteRegistry :: RouteRegistry where
  "NewRouteRegistry = \<lparr>rr_routes = [], rr_rollouts = [], rr_regions = [], rr_tenants = [],
     rr_policies = [], rr_upstreams = []\<rparr>"

section \<open>Routes\<close>

definition httpMethodAny :: string where
  "httpMethodAny = ''ANY''"

text \<open>
  \<open>Register\<close>. The lookup of the upstream and the insertion take the lock one after the other;
  upstreams are never removed, so an upstream found by the first is there at the second.
\<close>

definition Register :: "RouteRegistry \<Rightarrow> RouteConfig \<Rightarrow> RouteRegistry \<times> error" where
  "Register r cfg =
     (let name = TrimSpace (rc_Name cfg);
          method = ToUpper (TrimSpace (rc_Method cfg));
          path = normalizePath (rc_Path cfg);
          target = TrimSpace (rc_Target cfg);
          upstream = (if rc_Upstream cfg \<noteq> [] then TrimSpace (rc_Upstream cfg) else rc_Upstream cfg);
          weight = (if rc_Weight cfg < 0 then 0 else rc_Weight cfg) in
      commit
        (first_error
          [(name = [], ''route name is required''),
           (path = [] \<or> (path = ''/'' \<and> method = []), ''route path is required''),
           (target = [] \<and> rc_Upstream cfg = [],
            ''route target is required (inline Target or Upstream reference)''),
           (rc_Upstream cfg \<noteq> [] \<and> gm_get (rr_upstreams r) upstream = None,
            ''route references unknown upstream '' @ Quote upstream),
           (\<not> rc_Enabled cfg \<and> weight = 0, ''disabled route must define a non-zero traffic weight''),
           (\<not> rc_Enabled cfg, ''disabled route is not allowed in the active registry''),
           (gm_get (rr_routes r) name \<noteq> None, ''route '' @ Quote name @ '' already exists'')])
        r
        (r\<lparr>rr_routes := gm_put name
             (cfg\<lparr>rc_Name := name, rc_Method := (if method = [] then httpMethodAny else method),
                  rc_Path := path, rc_Target := target, rc_Upstream := upstream,
                  rc_Weight := (if weight = 0 then 100 else weight)\<rparr>) (rr_routes r)\<rparr>))"

definition registry_Get :: "RouteRegistry \<Rightarrow> string \<Rightarrow> RouteConfig option" where
  "registry_Get r name = gm_get (rr_routes r) (TrimSpace name)"

definition registry_List ::
  "((string, RouteConfig) gomap \<Rightarrow> (string, RouteConfig) gomap) \<Rightarrow> RouteRegistry \<Rightarrow> RouteConfig list" where
  "registry_List it r = map snd (it (rr_routes r))"

section \<open>Policies\<close>

definition RegisterPolicy :: "RouteRegistry \<Rightarrow> RoutePolicy \<Rightarrow> RouteRegistry \<times> error" where
  "RegisterPolicy r policy =
     (let name = TrimSpace (po_Name policy);
          environment = TrimSpace (po_Environment policy);
          service = TrimSpace (po_Service policy) in
      commit
        (first_error
          [(name = [], ''policy name is required''),
           (service = [], ''policy service is required''),
           (gm_get (rr_policies r) name \<noteq> None, ''policy '' @ Quote name @ '' already exists'')])
        r
        (r\<lparr>rr_policies := gm_put name
             (policy\<lparr>po_Name := name,
                     po_Environment := (if environment = [] then ''prod'' else environment),
                     po_Service := service,
                     po_SLO := (case po_SLO policy of None \<Rightarrow> Some defaultSLO | Some slo \<Rightarrow> Some slo)\<rparr>)
             (rr_policies r)\<rparr>))"

definition GetPolicy :: "RouteRegistry \<Rightarrow> string \<Rightarrow> RoutePolicy option" where
  "GetPolicy r name = gm_get (rr_policies r) (TrimSpace name)"

definition ListPolicies ::
  "((string, RoutePolicy) gomap \<Rightarrow> (string, RoutePolicy) gomap) \<Rightarrow> RouteRegistry \<Rightarrow> RoutePolicy list" where
  "ListPolicies it r = map snd (it (rr_policies r))"

text \<open>The search loops of \<open>ValidatePolicy\<close> and of the tenant checks.\<close>

definition listed :: "string list \<Rightarrow> string \<Rightarrow> bool" where
  "listed xs name \<longleftrightarrow> list_ex (\<lambda>x. TrimSpace x = TrimSpace name) xs"

definition ValidatePolicy :: "RouteRegistry \<Rightarrow> string \<Rightarrow> string \<Rightarrow> string \<Rightarrow> error" where
  "ValidatePolicy r name tenantName regionName =
     (case GetPolicy r name of
        None \<Rightarrow> errorf (''policy '' @ Quote name @ '' not found'')
      | Some policy \<Rightarrow>
          first_error
            [(TrimSpace tenantName = [], ''tenant name is required''),
             (TrimSpace regionName = [], ''region name is required''),
             (length (po_AllowedTenants policy) > 0 \<and> \<not> listed (po_AllowedTenants policy) tenantName,
              ''tenant '' @ Quote tenantName @ '' is not allowed under policy '' @ Quote name),
             (length (po_AllowedRegions policy) > 0 \<and> \<not> listed (po_AllowedRegions policy) regionName,
              ''region '' @ Quote regionName @ '' is not allowed under policy '' @ Quote name),
             (po_RequireSignedArtifacts policy \<and> po_SLO policy = None,
              ''policy '' @ Quote name @ '' requires signed artifacts and an SLO policy''),
             (po_RequireAudit policy \<and> po_SLO policy = None,
              ''policy '' @ Quote name @ '' requires audit logging and an SLO policy'')])"

section \<open>Tenants\<close>

definition RegisterTenant :: "RouteRegistry \<Rightarrow> TenantConfig \<Rightarrow> RouteRegistry \<times> error" where
  "RegisterTenant r cfg =
     (let name = TrimSpace (tc_Name cfg) in
      commit
        (first_error
          [(name = [], ''tenant name is required''),
           (\<not> tc_Enabled cfg, ''tenant is disabled''),
           (gm_get (rr_tenants r) name \<noteq> None, ''tenant '' @ Quote name @ '' already exists'')])
        r
        (r\<lparr>rr_tenants := gm_put name (cfg\<lparr>tc_Name := name\<rparr>) (rr_tenants r)\<rparr>))"

definition GetTenant :: "RouteRegistry \<Rightarrow> string \<Rightarrow> TenantConfig option" where
  "GetTenant r name = gm_get (rr_tenants r) (TrimSpace name)"

definition ListTenants ::
  "((string, TenantConfig) gomap \<Rightarrow> (string, TenantConfig) gomap) \<Rightarrow> RouteRegistry \<Rightarrow> TenantConfig list" where
  "ListTenants it r = map snd (it (rr_tenants r))"

definition CanAccessRoute :: "RouteRegistry \<Rightarrow> string \<Rightarrow> string \<Rightarrow> bool" where
  "CanAccessRoute r tenantName routeName =
     (case gm_get (rr_tenants r) (TrimSpace tenantName) of
        None \<Rightarrow> False
      | Some cfg \<Rightarrow> tc_Enabled cfg \<and> listed (tc_AllowedRoutes cfg) routeName)"

definition CanAccessRegion :: "RouteRegistry \<Rightarrow> string \<Rightarrow> string \<Rightarrow> bool" where
  "CanAccessRegion r tenantName regionName =
     (case gm_get (rr_tenants r) (TrimSpace tenantName) of
        None \<Rightarrow> False
      | Some cfg \<Rightarrow> tc_Enabled cfg \<and> listed (tc_AllowedRegions cfg) regionName)"

section \<open>Rollouts\<close>

text \<open>\<open>Validate\<close> has a pointer receiver: the defaults it applies stay, also before an error.\<close>

definition rollout_Validate :: "RolloutConfig \<Rightarrow> RolloutConfig \<times> error" where
  "rollout_Validate c =
     (let early = first_error
            [(TrimSpace (ro_Name c) = [], ''rollout name is required''),
             (TrimSpace (ro_Route c) = [], ''rollout route is required''),
             (TrimSpace (ro_Target c) = [], ''rollout target is required''),
             (ro_Rollback c, ''rollback rollout is explicitly rejected for progressive delivery''),
             (\<not> ro_Enabled c, ''rollout is disabled'')];
          c1 = c\<lparr>ro_Strategy := (if ro_Strategy c = [] then RolloutStrategyCanary else ro_Strategy c)\<rparr>;
          maxWeight = (if ro_MaxWeight c \<le> 0 then 100 else ro_MaxWeight c);
          c2 = c1\<lparr>ro_MaxWeight := maxWeight, ro_Step := (if ro_Step c \<le> 0 then 10 else ro_Step c)\<rparr>;
          late = first_error
            [(ro_CanaryWeight c > maxWeight, ''canary weight cannot exceed max weight''),
             (ro_Progressive c \<and> ro_CanaryWeight c = 0,
              ''progressive rollout requires a non-zero canary weight''),
             (ro_ErrorThreshold c < 0, ''error threshold cannot be negative'')];
          c3 = c2\<lparr>ro_ErrorThreshold :=
            (if ro_ErrorThreshold c > 1 then ro_ErrorThreshold c / 100 else ro_ErrorThreshold c)\<rparr> in
      if early \<noteq> nil then (c, early)
      else if ro_CanaryWeight c < 0 then (c1, errorf ''canary weight cannot be negative'')
      else commit late c2 c3)"

text \<open>\<open>Decide\<close> and \<open>Evaluate\<close> have value receivers: they validate a copy.\<close>

definition Decide :: "RolloutConfig \<Rightarrow> int \<Rightarrow> string + RolloutDecision" where
  "Decide c current =
     (case rollout_Validate c of
        (_, Some err) \<Rightarrow> Inl err
      | (c, None) \<Rightarrow>
          if ro_Strategy c = RolloutStrategyRollback then
            Inr \<lparr>rd_Allow = False, rd_Weight = 0, rd_Target = ro_Target c,
                 rd_Reason = ''rollback is not allowed in progressive delivery''\<rparr>
          else
            (let current = (if current < 0 then 0 else current) in
             if ro_CanaryWeight c \<le> 0 then
               Inr \<lparr>rd_Allow = False, rd_Weight = 0, rd_Target = ro_Target c,
                    rd_Reason = ''rollout is inactive''\<rparr>
             else
               (let weight = ro_CanaryWeight c;
                    weight = (if ro_Progressive c \<and> current < weight then current else weight)
                in Inr \<lparr>rd_Allow = True, rd_Weight = weight, rd_Target = ro_Target c,
                        rd_Reason = ''canary step approved''\<rparr>)))"

definition Evaluate :: "RolloutConfig \<Rightarrow> RolloutMetrics \<Rightarrow> string + RolloutDecision" where
  "Evaluate c metrics =
     (case rollout_Validate c of
        (_, Some err) \<Rightarrow> Inl err
      | (c, None) \<Rightarrow>
          if ro_Strategy c = RolloutStrategyRollback then
            Inr \<lparr>rd_Allow = False, rd_Weight = 0, rd_Target = ro_Target c,
                 rd_Reason = ''rollback is not allowed in progressive delivery''\<rparr>
          else if ro_ErrorThreshold c > 0 \<and> rm_ErrorRate metrics > ro_ErrorThreshold c then
            Inr \<lparr>rd_Allow = False, rd_Weight = 0, rd_Target = ro_Target c,
                 rd_Reason = ''canary blocked: error rate '' @ Fmt2 (rm_ErrorRate metrics)
                   @ '' exceeds threshold '' @ Fmt2 (ro_ErrorThreshold c)\<rparr>
          else Decide c (rm_Requests metrics))"

text \<open>The stand-alone \<open>RolloutRegistry\<close>, and the rollouts of the route registry.\<close>

type_synonym RolloutRegistry = "(string, RolloutConfig) gomap"

definition NewRolloutRegistry :: RolloutRegistry where
  "NewRolloutRegistry = []"

definition rollouts_RegisterRollout :: "RolloutRegistry \<Rightarrow> RolloutConfig \<Rightarrow> RolloutRegistry \<times> error" where
  "rollouts_RegisterRollout rs cfg =
     (case rollout_Validate (cfg\<lparr>ro_Name := TrimSpace (ro_Name cfg), ro_Route := TrimSpace (ro_Route cfg),
                              ro_Target := TrimSpace (ro_Target cfg)\<rparr>) of
        (_, Some err) \<Rightarrow> (rs, Some err)
      | (cfg, None) \<Rightarrow>
          (case gm_get rs (ro_Name cfg) of
             Some _ \<Rightarrow> (rs, errorf (''rollout '' @ Quote (ro_Name cfg) @ '' already exists''))
           | None \<Rightarrow> (gm_put (ro_Name cfg) cfg rs, nil)))"

definition rollouts_GetRollout :: "RolloutRegistry \<Rightarrow> string \<Rightarrow> RolloutConfig option" where
  "rollouts_GetRollout rs name = gm_get rs (TrimSpace name)"

definition RegisterRollout :: "RouteRegistry \<Rightarrow> RolloutConfig \<Rightarrow> RouteRegistry \<times> error" where
  "RegisterRollout r cfg =
     (case rollout_Validate cfg of
        (_, Some err) \<Rightarrow> (r, Some err)
      | (cfg, None) \<Rightarrow>
          (case gm_get (rr_rollouts r) (ro_Name cfg) of
             Some _ \<Rightarrow> (r, errorf (''rollout '' @ Quote (ro_Name cfg) @ '' already exists''))
           | None \<Rightarrow> (r\<lparr>rr_rollouts := gm_put (ro_Name cfg) cfg (rr_rollouts r)\<rparr>, nil)))"

definition GetRollout :: "RouteRegistry \<Rightarrow> string \<Rightarrow> RolloutConfig option" where
  "GetRollout r name = gm_get (rr_rollouts r) (TrimSpace name)"

definition ListRollouts ::
  "((string, RolloutConfig) gomap \<Rightarrow> (string, RolloutConfig) gomap) \<Rightarrow> RouteRegistry \<Rightarrow> RolloutConfig list" where
  "ListRollouts it r = map snd (it (rr_rollouts r))"

section \<open>Regions\<close>

definition RegisterRegion :: "RouteRegistry \<Rightarrow> RegionConfig \<Rightarrow> RouteRegistry \<times> error" where
  "RegisterRegion r cfg =
     (let name = TrimSpace (rg_Name cfg);
          region = TrimSpace (rg_Region cfg);
          target = TrimSpace (rg_Target cfg);
          weight = (if rg_Weight cfg < 0 then 0 else rg_Weight cfg);
          weight = (if weight = 0 \<and> rg_Enabled cfg then 100 else weight) in
      commit
        (first_error
          [(name = [], ''region name is required''),
           (region = [], ''region identifier is required''),
           (target = [], ''region target is required''),
           (\<not> rg_Enabled cfg, ''region is disabled''),
           (gm_get (rr_regions r) name \<noteq> None, ''region '' @ Quote name @ '' already exists'')])
        r
        (r\<lparr>rr_regions := gm_put name
             (cfg\<lparr>rg_Name := name, rg_Region := region, rg_Target := target, rg_Weight := weight\<rparr>)
             (rr_regions r)\<rparr>))"

definition GetRegion :: "RouteRegistry \<Rightarrow> string \<Rightarrow> RegionConfig option" where
  "GetRegion r name = gm_get (rr_regions r) (TrimSpace name)"

definition ListRegions ::
  "((string, RegionConfig) gomap \<Rightarrow> (string, RegionConfig) gomap) \<Rightarrow> RouteRegistry \<Rightarrow> RegionConfig list" where
  "ListRegions it r = map snd (it (rr_regions r))"

text \<open>The fallback loops compare with the name as given, not with the trimmed one.\<close>

definition fallback_region :: "string \<Rightarrow> RegionConfig \<Rightarrow> bool" where
  "fallback_region primaryName region \<longleftrightarrow>
     rg_Enabled region \<and> rg_Healthy region \<and> rg_Name region \<noteq> primaryName"

definition SelectRegion ::
  "((string, RegionConfig) gomap \<Rightarrow> (string, RegionConfig) gomap) \<Rightarrow> RouteRegistry \<Rightarrow> string
   \<Rightarrow> RegionConfig option" where
  "SelectRegion it r primaryName =
     (let primary = gm_get (rr_regions r) (TrimSpace primaryName);
          rest = (case find (fallback_region primaryName) (map snd (it (rr_regions r))) of
                    Some region \<Rightarrow> Some region
                  | None \<Rightarrow> primary) in
      case primary of
        Some p \<Rightarrow> if rg_Enabled p \<and> rg_Healthy p then Some p else rest
      | None \<Rightarrow> rest)"

definition degraded :: "RegionMetrics \<Rightarrow> bool" where
  "degraded m \<longleftrightarrow> rx_LatencyMS m \<ge> 250 \<or> rx_ErrorRate m > 5 / 100"

definition EvaluateRegion ::
  "((string, RegionConfig) gomap \<Rightarrow> (string, RegionConfig) gomap) \<Rightarrow> RouteRegistry \<Rightarrow> string
   \<Rightarrow> RegionMetrics \<Rightarrow> RegionDecision option" where
  "EvaluateRegion it r primaryName metrics =
     (case gm_get (rr_regions r) (TrimSpace primaryName) of
        None \<Rightarrow> None
      | Some primary \<Rightarrow>
          if \<not> rg_Enabled primary then None
          else if rg_Healthy primary \<and> rx_LatencyMS metrics < 250 \<and> rx_ErrorRate metrics \<le> 5 / 100 then
            Some \<lparr>gd_Allow = True, gd_Name = rg_Name primary, gd_Target = rg_Target primary,
                  gd_Reason = ''primary region is healthy''\<rparr>
          else
            (case find (\<lambda>region. fallback_region primaryName region \<and> degraded metrics)
                    (map snd (it (rr_regions r))) of
               Some region \<Rightarrow>
                 Some \<lparr>gd_Allow = True, gd_Name = rg_Name region, gd_Target = rg_Target region,
                       gd_Reason = ''failover to healthy fallback region''\<rparr>
             | None \<Rightarrow>
                 if rg_Healthy primary then
                   Some \<lparr>gd_Allow = True, gd_Name = rg_Name primary, gd_Target = rg_Target primary,
                         gd_Reason = ''primary region remains acceptable''\<rparr>
                 else
                   Some \<lparr>gd_Allow = False, gd_Name = rg_Name primary, gd_Target = rg_Target primary,
                         gd_Reason = ''primary region is degraded and no healthy fallback exists''\<rparr>))"

section \<open>Upstreams\<close>

definition RegisterUpstream ::
  "(string \<Rightarrow> bool) \<Rightarrow> RouteRegistry \<Rightarrow> UpstreamConfig \<Rightarrow> RouteRegistry \<times> error" where
  "RegisterUpstream urlOK r cfg =
     (let name = TrimSpace (up_Name cfg);
          target = TrimSpace (up_Target cfg);
          fallback = TrimSpace (up_Fallback cfg);
          weight = (if up_Weight cfg < 0 then 0 else up_Weight cfg);
          weight = (if weight = 0 then 1 else weight) in
      commit
        (first_error
          [(name = [], ''upstream name is required''),
           (target = [], ''upstream target is required''),
           (\<not> urlOK target \<or> target = [], ''upstream target '' @ Quote target @ '' is not a valid URL''),
           (fallback = name, ''upstream '' @ Quote name @ '' cannot be its own fallback''),
           (gm_get (rr_upstreams r) name \<noteq> None, ''upstream '' @ Quote name @ '' already exists'')])
        r
        (r\<lparr>rr_upstreams := gm_put name
             (cfg\<lparr>up_Name := name, up_Target := target, up_Fallback := fallback, up_Weight := weight\<rparr>)
             (rr_upstreams r)\<rparr>))"

definition GetUpstream :: "RouteRegistry \<Rightarrow> string \<Rightarrow> UpstreamConfig option" where
  "GetUpstream r name = gm_get (rr_upstreams r) (TrimSpace name)"

definition ListUpstreams ::
  "((string, UpstreamConfig) gomap \<Rightarrow> (string, UpstreamConfig) gomap) \<Rightarrow> RouteRegistry
   \<Rightarrow> UpstreamConfig list" where
  "ListUpstreams it r = map snd (it (rr_upstreams r))"

definition SelectUpstream :: "RouteRegistry \<Rightarrow> string \<Rightarrow> UpstreamConfig option" where
  "SelectUpstream r name =
     (case gm_get (rr_upstreams r) (TrimSpace name) of
        None \<Rightarrow> None
      | Some up \<Rightarrow>
          if \<not> up_Enabled up then None
          else if up_Healthy up then Some up
          else if up_Fallback up \<noteq> [] then
            (case gm_get (rr_upstreams r) (up_Fallback up) of
               Some fb \<Rightarrow> if up_Enabled fb \<and> up_Healthy fb then Some fb else None
             | None \<Rightarrow> None)
          else None)"

definition servesService :: "UpstreamConfig \<Rightarrow> string \<Rightarrow> bool" where
  "servesService up service \<longleftrightarrow>
     (if length (up_Services up) = 0 then True
      else list_ex (\<lambda>s. TrimSpace s = service) (up_Services up))"

text \<open>The pool \<open>PickUpstream\<close> draws from, and the sum of its weights as a Go \<open>int\<close>.\<close>

definition upstream_pool :: "UpstreamConfig list \<Rightarrow> string \<Rightarrow> UpstreamConfig list" where
  "upstream_pool ups service =
     filter (\<lambda>up. up_Enabled up \<and> up_Healthy up \<and> (service = [] \<or> servesService up service)) ups"

definition total_weight :: "UpstreamConfig list \<Rightarrow> int" where
  "total_weight pool = foldl (\<lambda>total up. int64 (total + up_Weight up)) 0 pool"

fun pickWeightedLoop :: "UpstreamConfig list \<Rightarrow> int \<Rightarrow> UpstreamConfig option" where
  "pickWeightedLoop [] pick = None"
| "pickWeightedLoop (up # ups) pick =
     (let pick = int64 (pick - up_Weight up) in if pick < 0 then Some up else pickWeightedLoop ups pick)"

text \<open>\<open>pool[len(pool)-1]\<close> panics on an empty pool.\<close>

definition pickWeightedUpstream :: "UpstreamConfig list \<Rightarrow> int \<Rightarrow> string + UpstreamConfig option" where
  "pickWeightedUpstream pool pick =
     (case pickWeightedLoop pool pick of
        Some up \<Rightarrow> Inr (Some up)
      | None \<Rightarrow> if pool = [] then Inl ''index out of range'' else Inr (Some (last pool)))"

text \<open>\<open>rand.Intn(n)\<close> panics unless n is positive; \<open>draw n\<close> is the number it returns.\<close>

definition PickUpstream ::
  "((string, UpstreamConfig) gomap \<Rightarrow> (string, UpstreamConfig) gomap) \<Rightarrow> (int \<Rightarrow> int) \<Rightarrow> RouteRegistry
   \<Rightarrow> string \<Rightarrow> string + UpstreamConfig option" where
  "PickUpstream it draw r service =
     (let pool = upstream_pool (map snd (it (rr_upstreams r))) (TrimSpace service);
          total = total_weight pool in
      if pool = [] then Inr None
      else if total \<le> 0 then Inl ''invalid argument to Intn''
      else pickWeightedUpstream pool (draw total))"

definition pickForRoute ::
  "((string, UpstreamConfig) gomap \<Rightarrow> (string, UpstreamConfig) gomap) \<Rightarrow> (int \<Rightarrow> int) \<Rightarrow> RouteRegistry
   \<Rightarrow> string \<Rightarrow> string + UpstreamConfig option" where
  "pickForRoute it draw r upstreamName =
     (case gm_get (rr_upstreams r) (TrimSpace upstreamName) of
        None \<Rightarrow> Inr None
      | Some named \<Rightarrow>
          (case up_Services named of
             [] \<Rightarrow> Inr (SelectUpstream r upstreamName)
           | s # _ \<Rightarrow>
               (case PickUpstream it draw r s of
                  Inl panic \<Rightarrow> Inl panic
                | Inr (Some up) \<Rightarrow> Inr (Some up)
                | Inr None \<Rightarrow> Inr (SelectUpstream r upstreamName))))"

definition ResolveRouteTarget ::
  "((string, UpstreamConfig) gomap \<Rightarrow> (string, UpstreamConfig) gomap) \<Rightarrow> (int \<Rightarrow> int) \<Rightarrow> RouteRegistry
   \<Rightarrow> string \<Rightarrow> string + string option" where
  "ResolveRouteTarget it draw r routeName =
     (case gm_get (rr_routes r) (TrimSpace routeName) of
        None \<Rightarrow> Inr None
      | Some route \<Rightarrow>
          if rc_Upstream route \<noteq> [] then
            (case pickForRoute it draw r (rc_Upstream route) of
               Inl panic \<Rightarrow> Inl panic
             | Inr up \<Rightarrow> Inr (map_option up_Target up))
          else if rc_Target route \<noteq> [] then Inr (Some (rc_Target route))
          else Inr None)"

definition RouteHeaders :: "RouteRegistry \<Rightarrow> string \<Rightarrow> (string, string) gomap" where
  "RouteHeaders r routeName =
     (case gm_get (rr_routes r) (TrimSpace routeName) of
        None \<Rightarrow> []
      | Some route \<Rightarrow> rc_Header route)"

section \<open>The registry as a whole\<close>

text \<open>A registration of any kind, the name it is stored under and the entry it stores.\<close>

datatype reg_op =
    RegRoute RouteConfig
  | RegPolicy RoutePolicy
  | RegTenant TenantConfig
  | RegRollout RolloutConfig
  | RegRegion RegionConfig
  | RegUpstream UpstreamConfig

datatype reg_key = KRoute string | KPolicy string | KTenant string | KRollout string
  | KRegion string | KUpstream string

fun register :: "(string \<Rightarrow> bool) \<Rightarrow> RouteRegistry \<Rightarrow> reg_op \<Rightarrow> RouteRegistry \<times> error" where
  "register urlOK r (RegRoute c) = Register r c"
| "register urlOK r (RegPolicy c) = RegisterPolicy r c"
| "register urlOK r (RegTenant c) = RegisterTenant r c"
| "register urlOK r (RegRollout c) = RegisterRollout r c"
| "register urlOK r (RegRegion c) = RegisterRegion r c"
| "register urlOK r (RegUpstream c) = RegisterUpstream urlOK r c"

fun reg_get :: "RouteRegistry \<Rightarrow> reg_key \<Rightarrow> reg_op option" where
  "reg_get r (KRoute n) = map_option RegRoute (gm_get (rr_routes r) n)"
| "reg_get r (KPolicy n) = map_option RegPolicy (gm_get (rr_policies r) n)"
| "reg_get r (KTenant n) = map_option RegTenant (gm_get (rr_tenants r) n)"
| "reg_get r (KRollout n) = map_option RegRollout (gm_get (rr_rollouts r) n)"
| "reg_get r (KRegion n) = map_option RegRegion (gm_get (rr_regions r) n)"
| "reg_get r (KUpstream n) = map_option RegUpstream (gm_get (rr_upstreams r) n)"

fun reg_key_of :: "reg_op \<Rightarrow> reg_key" where
  "reg_key_of (RegRoute c) = KRoute (TrimSpace (rc_Name c))"
| "reg_key_of (RegPolicy c) = KPolicy (TrimSpace (po_Name c))"
| "reg_key_of (RegTenant c) = KTenant (TrimSpace (tc_Name c))"
| "reg_key_of (RegRollout c) = KRollout (ro_Name c)"
| "reg_key_of (RegRegion c) = KRegion (TrimSpace (rg_Name c))"
| "reg_key_of (RegUpstream c) = KUpstream (TrimSpace (up_Name c))"

text \<open>The normal form of a configuration: what an accepted registration stores.\<close>

definition positive_or :: "int \<Rightarrow> int \<Rightarrow> int" where
  "positive_or d w = (if w \<le> 0 then d else w)"

definition policy_norm :: "RoutePolicy \<Rightarrow> RoutePolicy" where
  "policy_norm p = p\<lparr>po_Name := TrimSpace (po_Name p),
     po_Environment := (if TrimSpace (po_Environment p) = [] then ''prod'' else TrimSpace (po_Environment p)),
     po_Service := TrimSpace (po_Service p),
     po_SLO := (case po_SLO p of None \<Rightarrow> Some defaultSLO | Some s \<Rightarrow> Some s)\<rparr>"

fun reg_norm :: "reg_op \<Rightarrow> reg_op" where
  "reg_norm (RegRoute c) = RegRoute (c\<lparr>rc_Name := TrimSpace (rc_Name c),
     rc_Method := (if TrimSpace (rc_Method c) = [] then httpMethodAny else ToUpper (TrimSpace (rc_Method c))),
     rc_Path := normalizePath (rc_Path c), rc_Target := TrimSpace (rc_Target c),
     rc_Upstream := TrimSpace (rc_Upstream c), rc_Weight := positive_or 100 (rc_Weight c)\<rparr>)"
| "reg_norm (RegPolicy c) = RegPolicy (policy_norm c)"
| "reg_norm (RegTenant c) = RegTenant (c\<lparr>tc_Name := TrimSpace (tc_Name c)\<rparr>)"
| "reg_norm (RegRollout c) = RegRollout (fst (rollout_Validate c))"
| "reg_norm (RegRegion c) = RegRegion (c\<lparr>rg_Name := TrimSpace (rg_Name c),
     rg_Region := TrimSpace (rg_Region c), rg_Target := TrimSpace (rg_Target c),
     rg_Weight := positive_or 100 (rg_Weight c)\<rparr>)"
| "reg_norm (RegUpstream c) = RegUpstream (c\<lparr>up_Name := TrimSpace (up_Name c),
     up_Target := TrimSpace (up_Target c), up_Fallback := TrimSpace (up_Fallback c),
     up_Weight := positive_or 1 (up_Weight c)\<rparr>)"

subsection \<open>What each registration does\<close>

lemma ToUpper_Nil_iff [simp]: "ToUpper s = [] \<longleftrightarrow> s = []"
  by (simp add: ToUpper_def)

lemma register_rejected: "snd (register urlOK r x) \<noteq> nil \<Longrightarrow> fst (register urlOK r x) = r"
proof (cases x)
  case (RegRollout c)
  moreover assume "snd (register urlOK r x) \<noteq> nil"
  ultimately show ?thesis by (auto simp: RegisterRollout_def split: prod.splits option.splits)
qed (simp_all only: register.simps Register_def RegisterPolicy_def RegisterTenant_def
    RegisterRegion_def RegisterUpstream_def Let_def commit_rejected not_False_eq_True)

lemma rollout_Validate_Name [simp]: "ro_Name (fst (rollout_Validate c)) = ro_Name c"
  by (simp add: rollout_Validate_def Let_def del: first_error_nil)

text \<open>An accepted registration found its name free and stores the normal form under it.\<close>

lemma register_accepted:
  assumes "snd (register urlOK r x) = nil"
  shows "reg_get r (reg_key_of x) = None"
    and "reg_get (fst (register urlOK r x)) k = (if k = reg_key_of x then Some (reg_norm x) else reg_get r k)"
proof -
  have "reg_get r (reg_key_of x) = None \<and>
    reg_get (fst (register urlOK r x)) k = (if k = reg_key_of x then Some (reg_norm x) else reg_get r k)"
  proof (cases x)
    case (RegRoute c)
    with assms show ?thesis
      by (cases k) (auto simp: Register_def Let_def positive_or_def gm_get_put split: option.split_asm)
  next
    case (RegPolicy c)
    with assms show ?thesis
      by (cases k) (auto simp: RegisterPolicy_def policy_norm_def Let_def gm_get_put split: option.split_asm)
  next
    case (RegTenant c)
    with assms show ?thesis
      by (cases k) (auto simp: RegisterTenant_def Let_def gm_get_put split: option.split_asm)
  next
    case (RegRollout c)
    with assms rollout_Validate_Name [of c] show ?thesis
      by (cases k) (auto simp: RegisterRollout_def gm_get_put simp del: rollout_Validate_Name
          split: option.split_asm prod.split_asm)
  next
    case (RegRegion c)
    with assms show ?thesis
      by (cases k) (auto simp: RegisterRegion_def Let_def positive_or_def gm_get_put split: option.split_asm)
  next
    case (RegUpstream c)
    with assms show ?thesis
      by (cases k) (auto simp: RegisterUpstream_def Let_def positive_or_def gm_get_put split: option.split_asm)
  qed
  then show "reg_get r (reg_key_of x) = None"
    and "reg_get (fst (register urlOK r x)) k = (if k = reg_key_of x then Some (reg_norm x) else reg_get r k)"
    by blast+
qed

interpretation registry: write_once reg_get "register urlOK" reg_key_of reg_norm for urlOK
  by unfold_locales (simp_all add: register_rejected register_accepted)

subsection \<open>The invariant of the registry\<close>

fun entry_good :: "reg_op \<Rightarrow> bool" where
  "entry_good (RegRoute c) \<longleftrightarrow>
     rc_Enabled c \<and> 1 \<le> rc_Weight c \<and> (rc_Target c \<noteq> [] \<or> rc_Upstream c \<noteq> [])"
| "entry_good (RegPolicy c) \<longleftrightarrow> po_Environment c \<noteq> [] \<and> po_Service c \<noteq> [] \<and> po_SLO c \<noteq> None"
| "entry_good (RegTenant c) \<longleftrightarrow> tc_Enabled c"
| "entry_good (RegRollout c) \<longleftrightarrow>
     ro_Enabled c \<and> \<not> ro_Rollback c \<and> 0 \<le> ro_CanaryWeight c \<and> ro_CanaryWeight c \<le> ro_MaxWeight c
     \<and> 1 \<le> ro_Step c \<and> 0 \<le> ro_ErrorThreshold c"
| "entry_good (RegRegion c) \<longleftrightarrow> rg_Enabled c \<and> 1 \<le> rg_Weight c \<and> rg_Target c \<noteq> []"
| "entry_good (RegUpstream c) \<longleftrightarrow>
     TrimSpace (up_Name c) \<noteq> [] \<and> 1 \<le> up_Weight c \<and> up_Target c \<noteq> [] \<and> up_Fallback c \<noteq> up_Name c"

text \<open>
  Every entry is stored under its own name in normal form, the tables have distinct keys, and
  a route never references an upstream that does not exist.
\<close>

definition registry_ok :: "RouteRegistry \<Rightarrow> bool" where
  "registry_ok r \<longleftrightarrow>
     (\<forall>k x. reg_get r k = Some x \<longrightarrow> reg_key_of x = k \<and> entry_good x)
     \<and> (\<forall>n c. gm_get (rr_routes r) n = Some c \<and> rc_Upstream c \<noteq> [] \<longrightarrow>
          gm_get (rr_upstreams r) (rc_Upstream c) \<noteq> None)
     \<and> gm_ok (rr_routes r) \<and> gm_ok (rr_upstreams r) \<and> gm_ok (rr_regions r)"

lemma reg_key_of_norm: "reg_key_of (reg_norm x) = reg_key_of x"
  by (cases x) (simp_all add: policy_norm_def)

definition rollout_checks :: "RolloutConfig \<Rightarrow> bool" where
  "rollout_checks c \<longleftrightarrow>
     TrimSpace (ro_Name c) \<noteq> [] \<and> TrimSpace (ro_Route c) \<noteq> [] \<and> TrimSpace (ro_Target c) \<noteq> []
     \<and> \<not> ro_Rollback c \<and> ro_Enabled c \<and> 0 \<le> ro_CanaryWeight c
     \<and> ro_CanaryWeight c \<le> positive_or 100 (ro_MaxWeight c)
     \<and> (ro_Progressive c \<longrightarrow> ro_CanaryWeight c \<noteq> 0) \<and> 0 \<le> ro_ErrorThreshold c"

definition percent :: "rat \<Rightarrow> rat" where
  "percent t = (if t > 1 then t / 100 else t)"

definition rollout_norm :: "RolloutConfig \<Rightarrow> RolloutConfig" where
  "rollout_norm c = c\<lparr>ro_Strategy := (if ro_Strategy c = [] then RolloutStrategyCanary else ro_Strategy c),
     ro_MaxWeight := positive_or 100 (ro_MaxWeight c), ro_Step := positive_or 10 (ro_Step c),
     ro_ErrorThreshold := percent (ro_ErrorThreshold c)\<rparr>"

lemma positive_or_pos [simp]: "0 < d \<Longrightarrow> 0 < positive_or d w"
  and positive_or_idem [simp]: "0 < d \<Longrightarrow> positive_or d (positive_or d w) = positive_or d w"
  by (simp_all add: positive_or_def)

lemma percent_nonneg: "0 \<le> t \<Longrightarrow> 0 \<le> percent t"
  by (simp add: percent_def)

lemma staged_checks:
  "(if early \<noteq> nil then (a, early) else if neg then (x, Some m) else commit late y z) = (c', nil) \<longleftrightarrow>
     early = nil \<and> \<not> neg \<and> late = nil \<and> c' = z"
  by (auto simp: commit_def)

lemma rollout_Validate_nil_iff:
  "rollout_Validate c = (c', nil) \<longleftrightarrow> rollout_checks c \<and> c' = rollout_norm c"
  unfolding rollout_Validate_def Let_def staged_checks
  by (auto simp: rollout_checks_def rollout_norm_def positive_or_def percent_def split del: if_split)

lemma rollout_checks_norm [simp]: "rollout_checks c \<Longrightarrow> rollout_checks (rollout_norm c)"
  by (simp add: rollout_checks_def rollout_norm_def percent_nonneg)

lemma rollout_Validate_nil:
  assumes "rollout_Validate c = (c', nil)"
  shows "ro_Enabled c'" "\<not> ro_Rollback c'" "0 \<le> ro_CanaryWeight c'" "ro_CanaryWeight c' \<le> ro_MaxWeight c'"
    "1 \<le> ro_Step c'" "0 \<le> ro_ErrorThreshold c'" "1 \<le> ro_MaxWeight c'"
  using assms by (auto simp: rollout_Validate_nil_iff rollout_checks_def rollout_norm_def percent_nonneg
      positive_or_def [of 100] positive_or_def [of 10])

lemma no_anonymous_upstream: "registry_ok r \<Longrightarrow> gm_get (rr_upstreams r) [] = None"
proof (cases "gm_get (rr_upstreams r) []")
  case (Some c)
  moreover assume "registry_ok r"
  ultimately have "reg_key_of (RegUpstream c) = KUpstream [] \<and> entry_good (RegUpstream c)"
    unfolding registry_ok_def by (metis option.simps(9) reg_get.simps(6))
  then show ?thesis by auto
qed

lemma register_entry_good:
  assumes "snd (register urlOK r x) = nil" "registry_ok r"
  shows "entry_good (reg_norm x)"
proof (cases x)
  case (RegRoute c)
  then have "TrimSpace (rc_Target c) \<noteq> [] \<or> TrimSpace (rc_Upstream c) \<noteq> []" "rc_Enabled c"
    using assms(1) no_anonymous_upstream [OF assms(2)]
    by (cases "rc_Upstream c = []"; cases "TrimSpace (rc_Upstream c) = []";
        simp add: Register_def Let_def)+
  with RegRoute show ?thesis by (simp add: positive_or_def)
next
  case (RegPolicy c)
  with assms show ?thesis by (auto simp: RegisterPolicy_def policy_norm_def Let_def split: option.split)
next
  case (RegTenant c)
  with assms show ?thesis by (auto simp: RegisterTenant_def Let_def)
next
  case (RegRollout c)
  with assms have "rollout_Validate c = (fst (rollout_Validate c), nil)"
    by (auto simp: RegisterRollout_def split: prod.splits option.splits)
  then show ?thesis using RegRollout rollout_Validate_nil by simp
next
  case (RegRegion c)
  with assms show ?thesis by (auto simp: RegisterRegion_def Let_def positive_or_def)
next
  case (RegUpstream c)
  with assms show ?thesis by (auto simp: RegisterUpstream_def Let_def positive_or_def)
qed

lemma register_tables:
  assumes "gm_ok (rr_routes r) \<and> gm_ok (rr_upstreams r) \<and> gm_ok (rr_regions r)"
  shows "gm_ok (rr_routes (fst (register urlOK r x))) \<and> gm_ok (rr_upstreams (fst (register urlOK r x)))
    \<and> gm_ok (rr_regions (fst (register urlOK r x)))"
  using assms
  by (cases x)
    (simp_all add: Register_def RegisterPolicy_def RegisterTenant_def RegisterRollout_def RegisterRegion_def
      RegisterUpstream_def Let_def commit_def split: prod.split option.split del: first_error_nil)

lemma register_route_upstream:
  assumes "snd (register urlOK r (RegRoute c)) = nil" "TrimSpace (rc_Upstream c) \<noteq> []"
  shows "gm_get (rr_upstreams r) (TrimSpace (rc_Upstream c)) \<noteq> None"
  using assms by (cases "rc_Upstream c = []") (simp_all add: Register_def Let_def)

lemma registry_ok_step:
  assumes "registry_ok r"
  shows "registry_ok (fst (register urlOK r x))"
proof (cases "snd (register urlOK r x) = nil")
  case True
  let ?r = "fst (register urlOK r x)"
  note get = register_accepted(2) [OF True]
  have "reg_key_of y = k \<and> entry_good y" if "reg_get ?r k = Some y" for k y
    using that assms register_entry_good [OF True assms] reg_key_of_norm
    by (auto simp: registry_ok_def get split: if_splits)
  moreover have "gm_get (rr_upstreams ?r) (rc_Upstream c) \<noteq> None"
    if c: "gm_get (rr_routes ?r) n = Some c" "rc_Upstream c \<noteq> []" for n c
  proof -
    have keep: "gm_get (rr_upstreams ?r) u \<noteq> None" if "gm_get (rr_upstreams r) u \<noteq> None" for u
      using that get [of "KUpstream u"] by (auto split: if_splits)
    have "reg_get ?r (KRoute n) = Some (RegRoute c)" using c(1) by simp
    then consider d where "x = RegRoute d" "rc_Upstream c = TrimSpace (rc_Upstream d)"
      | "gm_get (rr_routes r) n = Some c"
      unfolding get by (cases x) (auto split: if_splits)
    then show ?thesis
    proof cases
      case 1
      with register_route_upstream [of urlOK r d] True c(2) keep show ?thesis by simp
    next
      case 2
      with assms c(2) keep show ?thesis by (auto simp: registry_ok_def)
    qed
  qed
  ultimately show ?thesis
    using register_tables [of r urlOK x] assms by (auto simp: registry_ok_def)
next
  case False
  with assms show ?thesis by (simp add: register_rejected)
qed

interpretation registry_inv: kept_invariant "\<lambda>r x. fst (register urlOK r x)" registry_ok for urlOK
  by unfold_locales (rule registry_ok_step)

lemma registry_ok_New: "registry_ok NewRouteRegistry"
proof -
  have "reg_get NewRouteRegistry k = None" for k by (cases k) (simp_all add: NewRouteRegistry_def)
  then show ?thesis by (simp add: registry_ok_def) (simp add: NewRouteRegistry_def)
qed

lemma listed_iff: "listed xs name \<longleftrightarrow> TrimSpace name \<in> TrimSpace ` set xs"
  by (metis (mono_tags, lifting) image_iff list_ex_iff listed_def)

section \<open>Weighted selection\<close>

definition weight_sum :: "UpstreamConfig list \<Rightarrow> int" where
  "weight_sum pool = sum_list (map up_Weight pool)"

lemma weight_sum_simps [simp]:
  "weight_sum [] = 0" "weight_sum (u # us) = up_Weight u + weight_sum us"
  by (simp_all add: weight_sum_def)

lemma weight_sum_nonneg: "\<forall>u \<in> set pool. 1 \<le> up_Weight u \<Longrightarrow> 0 \<le> weight_sum pool"
  by (induction pool) auto

lemma total_weight_from:
  "\<forall>u \<in> set pool. 1 \<le> up_Weight u \<Longrightarrow> 0 \<le> a \<Longrightarrow> a + weight_sum pool < 2 ^ 63 \<Longrightarrow>
     foldl (\<lambda>total up. int64 (total + up_Weight up)) a pool = a + weight_sum pool"
proof (induction pool arbitrary: a)
  case (Cons u us)
  have "int64 (a + up_Weight u) = a + up_Weight u"
    using Cons.prems weight_sum_nonneg [of us] by (intro int64_id) auto
  with Cons show ?case by simp
qed simp

lemma total_weight_eq:
  "\<forall>u \<in> set pool. 1 \<le> up_Weight u \<Longrightarrow> weight_sum pool < 2 ^ 63 \<Longrightarrow> total_weight pool = weight_sum pool"
  using total_weight_from [of pool 0] by (simp add: total_weight_def)

definition draws_of :: "UpstreamConfig list \<Rightarrow> UpstreamConfig \<Rightarrow> int set" where
  "draws_of pool u = {n. 0 \<le> n \<and> n < weight_sum pool \<and> pickWeightedLoop pool n = Some u}"

lemma pickWeightedLoop_mem: "pickWeightedLoop pool n = Some u \<Longrightarrow> u \<in> set pool"
  by (induction pool arbitrary: n) (auto simp: Let_def split: if_splits)

lemma draws_of_Cons:
  assumes "1 \<le> up_Weight v" "\<forall>u \<in> set us. 1 \<le> up_Weight u" "weight_sum (v # us) < 2 ^ 63"
  shows "draws_of (v # us) u =
    (if u = v then {0..<up_Weight v} else {}) \<union> (\<lambda>n. n + up_Weight v) ` draws_of us u"
proof -
  have s: "0 \<le> weight_sum us" using assms(2) by (rule weight_sum_nonneg)
  have step: "pickWeightedLoop (v # us) n =
      (if n < up_Weight v then Some v else pickWeightedLoop us (n - up_Weight v))"
    if "0 \<le> n" "n < weight_sum (v # us)" for n
  proof -
    have "int64 (n - up_Weight v) = n - up_Weight v"
      using that assms s by (intro int64_id) auto
    then show ?thesis by simp
  qed
  have "n \<in> draws_of (v # us) u \<longleftrightarrow>
      (u = v \<and> 0 \<le> n \<and> n < up_Weight v) \<or> (up_Weight v \<le> n \<and> n - up_Weight v \<in> draws_of us u)" for n
    using s assms(1) by (cases "n < up_Weight v") (auto simp: draws_of_def step simp del: pickWeightedLoop.simps)
  moreover have "n \<in> (\<lambda>n. n + w) ` A \<longleftrightarrow> n - w \<in> A" for n w :: int and A
    by (auto simp: image_iff intro: bexI [of _ "n - w"])
  ultimately show ?thesis using assms(1) by (auto simp: draws_of_def)
qed

text \<open>Of the numbers \<open>rand.Intn\<close> may return, as many select an upstream as its weight says.\<close>

lemma card_draws_of:
  assumes "distinct pool" "\<forall>u \<in> set pool. 1 \<le> up_Weight u" "weight_sum pool < 2 ^ 63" "u \<in> set pool"
  shows "card (draws_of pool u) = nat (up_Weight u)"
  using assms
proof (induction pool)
  case (Cons v us)
  have s: "0 \<le> weight_sum us" using Cons.prems(2) weight_sum_nonneg [of us] by simp
  have eq: "draws_of (v # us) u =
      (if u = v then {0..<up_Weight v} else {}) \<union> (\<lambda>n. n + up_Weight v) ` draws_of us u"
    using Cons.prems by (intro draws_of_Cons) auto
  show ?case
  proof (cases "u = v")
    case True
    then have "draws_of us u = {}"
      using Cons.prems(1) pickWeightedLoop_mem by (fastforce simp: draws_of_def)
    with True eq show ?thesis by simp
  next
    case False
    then have "card (draws_of us u) = nat (up_Weight u)"
      using Cons s by (intro Cons.IH) auto
    moreover have "inj_on (\<lambda>n :: int. n + up_Weight v) (draws_of us u)" by (simp add: inj_on_def)
    ultimately show ?thesis using False eq by (simp add: card_image)
  qed
qed simp

lemma pickWeightedLoop_hits:
  "\<forall>u \<in> set pool. 1 \<le> up_Weight u \<Longrightarrow> weight_sum pool < 2 ^ 63 \<Longrightarrow> 0 \<le> n \<Longrightarrow> n < weight_sum pool \<Longrightarrow>
     \<exists>u. pickWeightedLoop pool n = Some u"
proof (induction pool arbitrary: n)
  case (Cons v us)
  have s: "0 \<le> weight_sum us" using Cons.prems(1) weight_sum_nonneg [of us] by simp
  then have "int64 (n - up_Weight v) = n - up_Weight v"
    using Cons.prems by (intro int64_id) auto
  with Cons s show ?case by simp
qed simp

lemma upstream_pool_good:
  assumes "registry_ok r" "is_range it"
  shows "\<forall>u \<in> set (upstream_pool (map snd (it (rr_upstreams r))) s). 1 \<le> up_Weight u"
    and "distinct (upstream_pool (map snd (it (rr_upstreams r))) s)"
proof -
  have mem: "TrimSpace (up_Name c) = k \<and> 1 \<le> up_Weight c" if "(k, c) \<in> set (it (rr_upstreams r))" for k c
  proof -
    have "gm_get (rr_upstreams r) k = Some c"
      using that assms by (auto simp: registry_ok_def is_range_set gm_mem_iff)
    then have "reg_get r (KUpstream k) = Some (RegUpstream c)" by simp
    then have "reg_key_of (RegUpstream c) = KUpstream k \<and> entry_good (RegUpstream c)"
      using assms(1) unfolding registry_ok_def by blast
    then show ?thesis by simp
  qed
  then show "\<forall>u \<in> set (upstream_pool (map snd (it (rr_upstreams r))) s). 1 \<le> up_Weight u"
    by (auto simp: upstream_pool_def)
  have ok: "gm_ok (it (rr_upstreams r))"
    using assms by (simp add: registry_ok_def is_range_ok)
  then have d: "distinct (it (rr_upstreams r))" by (auto simp: gm_ok_def distinct_map)
  have "inj_on snd (set (it (rr_upstreams r)))"
    using mem by (intro inj_onI) (metis prod.collapse)
  with d have "distinct (map snd (it (rr_upstreams r)))" by (simp add: distinct_map)
  then show "distinct (upstream_pool (map snd (it (rr_upstreams r))) s)"
    by (simp add: upstream_pool_def)
qed

lemma PickUpstream_draw:
  assumes "registry_ok r" "is_range it" "pool = upstream_pool (map snd (it (rr_upstreams r))) (TrimSpace s)"
    and "weight_sum pool < 2 ^ 63" "pool \<noteq> []" "0 \<le> draw (weight_sum pool)"
      "draw (weight_sum pool) < weight_sum pool"
  shows "PickUpstream it draw r s = Inr (pickWeightedLoop pool (draw (weight_sum pool)))"
    and "pickWeightedLoop pool (draw (weight_sum pool)) \<noteq> None"
proof -
  have w: "\<forall>u \<in> set pool. 1 \<le> up_Weight u" using upstream_pool_good(1) [OF assms(1,2)] assms(3) by simp
  have t: "total_weight pool = weight_sum pool" using total_weight_eq [OF w assms(4)] .
  obtain u where "pickWeightedLoop pool (draw (weight_sum pool)) = Some u"
    using pickWeightedLoop_hits [OF w assms(4,6,7)] by blast
  with assms(5-7) t show "PickUpstream it draw r s = Inr (pickWeightedLoop pool (draw (weight_sum pool)))"
    and "pickWeightedLoop pool (draw (weight_sum pool)) \<noteq> None"
    by (auto simp: PickUpstream_def Let_def assms(3) [symmetric] pickWeightedUpstream_def)
qed

section \<open>Properties\<close>

text \<open>
  Names are written once: when a registration of any kind (route, policy, tenant, rollout,
  region, upstream) is accepted, its normal form stays under its name through any further
  registrations, and every later registration of the same kind and name is refused.\<close>

theorem registry_first_registration_wins:
  assumes "snd (register urlOK r x) = nil"
    and "r' = run (\<lambda>r x. fst (register urlOK r x)) r (x # xs)"
  shows "reg_get r' (reg_key_of x) = Some (reg_norm x) \<and>
    (\<forall>y. reg_key_of y = reg_key_of x \<longrightarrow> snd (register urlOK r' y) \<noteq> nil \<and> fst (register urlOK r' y) = r')"
  using registry.first_wins [OF assms(1), where cs = xs] register_rejected unfolding assms(2) by blast

definition demo_upstream :: "string \<Rightarrow> int \<Rightarrow> UpstreamConfig" where
  "demo_upstream name weight = \<lparr>up_Name = name, up_Target = ''http://b'', up_Fallback = [],
     up_Services = [''users''], up_Weight = weight, up_Enabled = True, up_Healthy = True\<rparr>"

lemma registry_first_registration_wins_witness:
  "snd (register (\<lambda>_. True) NewRouteRegistry (RegUpstream (demo_upstream '' a '' 0))) = nil
   \<and> (let r' = run (\<lambda>r x. fst (register (\<lambda>_. True) r x)) NewRouteRegistry
          [RegUpstream (demo_upstream '' a '' 0), RegUpstream (demo_upstream ''b'' 2)] in
      reg_get r' (KUpstream ''a'') = Some (RegUpstream (demo_upstream ''a'' 1))
      \<and> snd (register (\<lambda>_. True) r' (RegUpstream (demo_upstream ''a'' 9))) \<noteq> nil)"
proof -
  have ok: "snd (register (\<lambda>_. True) NewRouteRegistry (RegUpstream (demo_upstream '' a '' 0))) = nil"
    by code_simp
  have k: "reg_key_of (RegUpstream (demo_upstream '' a '' 0)) = KUpstream ''a''"
    "reg_key_of (RegUpstream (demo_upstream ''a'' 9)) = KUpstream ''a''"
    "reg_norm (RegUpstream (demo_upstream '' a '' 0)) = RegUpstream (demo_upstream ''a'' 1)"
    by code_simp+
  show ?thesis
    using registry_first_registration_wins [OF ok refl, where xs = "[RegUpstream (demo_upstream ''b'' 2)]"] ok
    unfolding Let_def k using k(2) by blast
qed

text \<open>
  Invariant: in every registry built by registrations each entry is stored under its own
  trimmed name and in normal form (weights at least one, rollout weights within bounds, policies
  with an environment and an SLO, no upstream its own fallback), and every upstream a route
  references exists.\<close>

theorem registry_reachable_ok:
  "registry_ok (run (\<lambda>r x. fst (register urlOK r x)) NewRouteRegistry xs)"
  by (rule registry_inv.run_keeps) (rule registry_ok_New)

text \<open>C3. Weighted load balancing is exact: for a registry built by registrations whose pool
  weights do not overflow, exactly \<open>w\<close> of the numbers \<open>rand.Intn(total)\<close> can return select the
  upstream of weight \<open>w\<close>, in every iteration order of the map.\<close>

theorem PickUpstream_weighted:
  assumes "r = run (\<lambda>r x. fst (register urlOK r x)) NewRouteRegistry xs" "is_range it"
    and "pool = upstream_pool (map snd (it (rr_upstreams r))) (TrimSpace service)"
    and "weight_sum pool < 2 ^ 63" "u \<in> set pool"
  shows "card {n. 0 \<le> n \<and> n < weight_sum pool \<and> PickUpstream it (\<lambda>_. n) r service = Inr (Some u)}
    = nat (up_Weight u)"
proof -
  have ok: "registry_ok r" unfolding assms(1)
    by (rule registry_inv.run_keeps) (rule registry_ok_New)
  have ne: "pool \<noteq> []" using assms(5) by auto
  have "PickUpstream it (\<lambda>_. n) r service = Inr (pickWeightedLoop pool n)"
    if "0 \<le> n" "n < weight_sum pool" for n
    using PickUpstream_draw(1) [OF ok assms(2,3,4) ne, of "\<lambda>_. n"] that by simp
  then have "{n. 0 \<le> n \<and> n < weight_sum pool \<and> PickUpstream it (\<lambda>_. n) r service = Inr (Some u)}
      = draws_of pool u"
    by (auto simp: draws_of_def)
  then show ?thesis
    using card_draws_of [OF _ _ assms(4,5)] upstream_pool_good [OF ok assms(2)] assms(3) by simp
qed

definition demo_registry :: RouteRegistry where
  "demo_registry = run (\<lambda>r x. fst (register (\<lambda>_. True) r x)) NewRouteRegistry
     [RegUpstream (demo_upstream ''a'' 3), RegUpstream (demo_upstream ''b'' 1)]"

lemma demo_pool:
  "upstream_pool (map snd (rev (rr_upstreams demo_registry))) (TrimSpace ''users'')
     = [demo_upstream ''b'' 1, demo_upstream ''a'' 3]"
  by code_simp

lemma PickUpstream_weighted_witness:
  "card {n. 0 \<le> n \<and> n < 4 \<and>
      PickUpstream rev (\<lambda>_. n) demo_registry ''users'' = Inr (Some (demo_upstream ''a'' 3))} = 3"
  using PickUpstream_weighted [OF demo_registry_def is_range_rev demo_pool [symmetric], of "demo_upstream ''a'' 3"]
  by (simp add: demo_upstream_def)

text \<open>
  Only healthy upstreams receive traffic: a route that references an upstream resolves
  to the target of an enabled and healthy upstream of the registry or to nothing; a route without
  one resolves to its inline target. This holds for every iteration order and every draw.\<close>

theorem ResolveRouteTarget_healthy:
  assumes "is_range it" "ResolveRouteTarget it draw r routeName = Inr (Some t)"
  shows "\<exists>route. gm_get (rr_routes r) (TrimSpace routeName) = Some route \<and>
    (if rc_Upstream route = [] then t = rc_Target route
     else \<exists>n up. (n, up) \<in> set (rr_upstreams r) \<and> up_Enabled up \<and> up_Healthy up \<and> t = up_Target up)"
proof -
  have sel: "\<exists>n. (n, up) \<in> set (rr_upstreams r) \<and> up_Enabled up \<and> up_Healthy up"
    if "SelectUpstream r s = Some up" for s up
    using that by (auto simp: SelectUpstream_def split: option.splits if_splits dest: map_of_SomeD)
  have pick: "\<exists>n. (n, up) \<in> set (rr_upstreams r) \<and> up_Enabled up \<and> up_Healthy up"
    if "PickUpstream it draw r s = Inr (Some up)" for s up
  proof -
    have "up \<in> set (upstream_pool (map snd (it (rr_upstreams r))) (TrimSpace s))"
      using that by (auto simp: PickUpstream_def pickWeightedUpstream_def Let_def
          split: if_splits option.splits dest: pickWeightedLoop_mem)
    then show ?thesis using is_range_set [OF assms(1)] by (auto simp: upstream_pool_def)
  qed
  show ?thesis
    using assms(2) sel pick
    by (auto simp: ResolveRouteTarget_def pickForRoute_def split: option.splits if_splits sum.splits list.splits)
      blast+
qed

definition demo_routes :: RouteRegistry where
  "demo_routes = fst (Register demo_registry \<lparr>rc_Name = ''users'', rc_Method = ''get'', rc_Path = ''users/'',
     rc_Target = [], rc_Upstream = ''a'', rc_Weight = 0, rc_Tenant = [], rc_Enabled = True, rc_Header = []\<rparr>)"

lemma ResolveRouteTarget_healthy_witness:
  "ResolveRouteTarget rev (\<lambda>_. 0) demo_routes ''users'' = Inr (Some ''http://b'') \<and>
   (\<exists>route. gm_get (rr_routes demo_routes) (TrimSpace ''users'') = Some route \<and>
    (if rc_Upstream route = [] then ''http://b'' = rc_Target route
     else \<exists>n up. (n, up) \<in> set (rr_upstreams demo_routes) \<and> up_Enabled up \<and> up_Healthy up
       \<and> ''http://b'' = up_Target up))"
proof -
  have "ResolveRouteTarget rev (\<lambda>_. 0) demo_routes ''users'' = Inr (Some ''http://b'')" by code_simp
  with ResolveRouteTarget_healthy [OF is_range_rev this] show ?thesis by blast
qed

text \<open>
  The sum of pool weights is a 64-bit integer: two upstreams whose weights add up to
  more than it holds are accepted by the registry, and resolving a route to their service then
  panics in \<open>rand.Intn\<close>.\<close>

theorem PickUpstream_overflow_panics:
  "\<exists>r. r = run (\<lambda>r x. fst (register (\<lambda>_. True) r x)) NewRouteRegistry
       [RegUpstream (demo_upstream ''a'' (2 ^ 62)), RegUpstream (demo_upstream ''b'' (2 ^ 62))]
     \<and> length (rr_upstreams r) = 2
     \<and> PickUpstream (\<lambda>m. m) draw r ''users'' = Inl ''invalid argument to Intn''"
proof -
  let ?r = "run (\<lambda>r x. fst (register (\<lambda>_. True) r x)) NewRouteRegistry
       [RegUpstream (demo_upstream ''a'' (2 ^ 62)), RegUpstream (demo_upstream ''b'' (2 ^ 62))]"
  have p: "upstream_pool (map snd (rr_upstreams ?r)) (TrimSpace ''users'')
      = [demo_upstream ''a'' (2 ^ 62), demo_upstream ''b'' (2 ^ 62)]" by code_simp
  have "total_weight [demo_upstream ''a'' (2 ^ 62), demo_upstream ''b'' (2 ^ 62)] \<le> 0" by code_simp
  then have "PickUpstream (\<lambda>m. m) draw ?r ''users'' = Inl ''invalid argument to Intn''"
    unfolding PickUpstream_def Let_def p by simp
  moreover have "length (rr_upstreams ?r) = 2" by code_simp
  ultimately show ?thesis by blast
qed

lemma Decide_bounds:
  assumes "Decide c current = Inr d" "rollout_Validate c = (c', nil)"
  shows "0 \<le> rd_Weight d" "rd_Weight d \<le> ro_CanaryWeight c'" "rd_Weight d \<le> ro_MaxWeight c'"
    "ro_Progressive c' \<Longrightarrow> rd_Weight d \<le> max 0 current"
  using assms rollout_Validate_nil [OF assms(2)]
  by (auto simp: Decide_def Let_def split: if_splits)

lemma rollout_norm_twice:
  "rollout_norm (rollout_norm c) =
     (rollout_norm c)\<lparr>ro_ErrorThreshold := percent (ro_ErrorThreshold (rollout_norm c))\<rparr>"
  by (rule RolloutConfig.equality) (simp_all add: rollout_norm_def)

lemma rollout_Validate_again:
  "rollout_Validate c = (c', nil) \<Longrightarrow> \<exists>t. rollout_Validate c' = (c'\<lparr>ro_ErrorThreshold := t\<rparr>, nil)"
  unfolding rollout_Validate_nil_iff by (intro exI conjI) (auto intro: rollout_norm_twice [symmetric])

text \<open>
  Rollout decisions: \<open>Decide\<close> and \<open>Evaluate\<close> never allow more traffic than the canary
  weight, the maximum weight or, for a progressive rollout, the current share; \<open>Evaluate\<close>
  refuses when the error rate exceeds a configured threshold; and both fail exactly when
  \<open>Validate\<close> does.\<close>

theorem rollout_Evaluate_safe:
  assumes "rollout_Validate c = (c', nil)" "Evaluate c m = Inr d"
  shows "0 \<le> rd_Weight d \<and> rd_Weight d \<le> ro_CanaryWeight c' \<and> rd_Weight d \<le> ro_MaxWeight c'
    \<and> (rd_Allow d \<longrightarrow> \<not> (0 < ro_ErrorThreshold c' \<and> ro_ErrorThreshold c' < rm_ErrorRate m)
        \<and> ro_Strategy c' \<noteq> RolloutStrategyRollback)
    \<and> (ro_Progressive c' \<longrightarrow> rd_Weight d \<le> max 0 (rm_Requests m))"
proof -
  obtain t where again: "rollout_Validate c' = (c'\<lparr>ro_ErrorThreshold := t\<rparr>, nil)"
    using rollout_Validate_again [OF assms(1)] by blast
  note n = rollout_Validate_nil [OF assms(1)]
  consider "\<not> rd_Allow d" "rd_Weight d = 0"
    | "Decide c' (rm_Requests m) = Inr d" "ro_Strategy c' \<noteq> RolloutStrategyRollback"
      "\<not> (0 < ro_ErrorThreshold c' \<and> ro_ErrorThreshold c' < rm_ErrorRate m)"
    using assms by (auto simp: Evaluate_def split: if_split_asm)
  then show ?thesis
  proof cases
    case 1
    with n show ?thesis by auto
  next
    case 2
    with Decide_bounds [OF 2(1) again] show ?thesis by auto
  qed
qed

definition demo_rollout :: RolloutConfig where
  "demo_rollout = \<lparr>ro_Name = ''r'', ro_Route = ''users'', ro_Strategy = [], ro_Target = ''v2'',
     ro_CanaryWeight = 20, ro_MaxWeight = 50, ro_Step = 0, ro_Enabled = True, ro_Progressive = True,
     ro_Rollback = False, ro_ErrorThreshold = 5\<rparr>"

lemma rollout_Evaluate_safe_witness:
  "\<exists>c' d. rollout_Validate demo_rollout = (c', nil)
     \<and> Evaluate demo_rollout \<lparr>rm_Requests = 7, rm_ErrorRate = 1 / 100, rm_Failed = 0, rm_Succeeded = 7\<rparr> = Inr d
     \<and> rd_Allow d \<and> rd_Weight d = 7 \<and> 0 \<le> rd_Weight d \<and> rd_Weight d \<le> ro_CanaryWeight c'"
proof -
  let ?m = "\<lparr>rm_Requests = 7, rm_ErrorRate = 1 / 100, rm_Failed = 0, rm_Succeeded = 7\<rparr>"
  let ?d = "\<lparr>rd_Allow = True, rd_Weight = 7, rd_Target = ''v2'', rd_Reason = ''canary step approved''\<rparr>"
  have v: "rollout_Validate demo_rollout = (fst (rollout_Validate demo_rollout), nil)"
    and e: "Evaluate demo_rollout ?m = Inr ?d" by code_simp+
  from rollout_Evaluate_safe [OF v e] v e show ?thesis by fastforce
qed

text \<open>Normalisation is stable: validating a rollout a second time changes nothing, so what a
  registry stores is what later decisions use, for every error threshold up to 100 percent.\<close>

theorem rollout_Validate_idempotent:
  assumes "rollout_Validate c = (c', nil)" "ro_ErrorThreshold c \<le> 100"
  shows "rollout_Validate c' = (c', nil)"
proof -
  have c': "c' = rollout_norm c" "rollout_checks c'"
    using assms(1) by (simp_all add: rollout_Validate_nil_iff)
  have "percent (ro_ErrorThreshold c') = ro_ErrorThreshold c'"
    using assms(2) c'(1) by (simp add: rollout_norm_def percent_def)
  then have "rollout_norm c' = c'" using rollout_norm_twice [of c] c'(1) by simp
  with c'(2) show ?thesis by (simp add: rollout_Validate_nil_iff)
qed

lemma rollout_Validate_idempotent_witness:
  "rollout_Validate (fst (rollout_Validate demo_rollout)) = (fst (rollout_Validate demo_rollout), nil)
   \<and> ro_ErrorThreshold (fst (rollout_Validate demo_rollout)) = 5 / 100"
proof -
  have "rollout_Validate demo_rollout = (fst (rollout_Validate demo_rollout), nil)"
    "ro_ErrorThreshold demo_rollout \<le> 100"
    "ro_ErrorThreshold (fst (rollout_Validate demo_rollout)) = 5 / 100" by code_simp+
  with rollout_Validate_idempotent show ?thesis by blast
qed

text \<open>
  Region failover: \<open>SelectRegion\<close> returns an enabled and healthy region whenever the
  registry has one, in every iteration order, and the primary when it is itself healthy.\<close>

theorem SelectRegion_healthy:
  assumes "is_range it" "(k, g) \<in> set (rr_regions r)" "rg_Enabled g" "rg_Healthy g"
    and "gm_ok (rr_regions r)" "registry_ok r"
  shows "\<exists>s. SelectRegion it r primaryName = Some s \<and> rg_Enabled s \<and> rg_Healthy s \<and>
    (\<forall>p. gm_get (rr_regions r) (TrimSpace primaryName) = Some p \<and> rg_Enabled p \<and> rg_Healthy p \<longrightarrow> s = p)"
proof (cases "\<exists>p. gm_get (rr_regions r) (TrimSpace primaryName) = Some p \<and> rg_Enabled p \<and> rg_Healthy p")
  case True
  then show ?thesis by (auto simp: SelectRegion_def)
next
  case False
  have g: "gm_get (rr_regions r) k = Some g" using assms(2,5) by (simp add: gm_mem_iff)
  then have "reg_get r (KRegion k) = Some (RegRegion g)" by simp
  then have "reg_key_of (RegRegion g) = KRegion k" using assms(6) unfolding registry_ok_def by blast
  then have "rg_Name g \<noteq> primaryName" using False g assms(3,4) by auto
  then have "find (fallback_region primaryName) (map snd (it (rr_regions r))) \<noteq> None"
    using assms(2-4) is_range_set [OF assms(1), of "rr_regions r"]
    unfolding find_None_iff fallback_region_def by (metis imageI list.set_map snd_conv)
  then obtain s where s: "find (fallback_region primaryName) (map snd (it (rr_regions r))) = Some s" by blast
  then have "fallback_region primaryName s" by (auto simp: find_Some_iff)
  moreover have "SelectRegion it r primaryName = Some s"
    using False s by (auto simp: SelectRegion_def Let_def split: option.splits)
  ultimately show ?thesis using False by (auto simp: fallback_region_def)
qed

definition demo_region :: "string \<Rightarrow> bool \<Rightarrow> RegionConfig" where
  "demo_region name healthy = \<lparr>rg_Name = name, rg_Region = ''eu'', rg_Target = ''http://r'', rg_Weight = 1,
     rg_Enabled = True, rg_Primary = False, rg_Healthy = healthy\<rparr>"

definition demo_regions :: RouteRegistry where
  "demo_regions = run (\<lambda>r x. fst (register (\<lambda>_. True) r x)) NewRouteRegistry
     [RegRegion (demo_region ''p'' False), RegRegion (demo_region ''q'' True)]"

lemma SelectRegion_healthy_witness:
  "\<exists>s. SelectRegion rev demo_regions ''p'' = Some s \<and> rg_Enabled s \<and> rg_Healthy s"
proof -
  have "(''q'', demo_region ''q'' True) \<in> set (rr_regions demo_regions)"
    "rg_Enabled (demo_region ''q'' True)" "rg_Healthy (demo_region ''q'' True)"
    "gm_ok (rr_regions demo_regions)" by code_simp+
  moreover have "registry_ok demo_regions" unfolding demo_regions_def
    by (rule registry_inv.run_keeps) (rule registry_ok_New)
  ultimately show ?thesis using SelectRegion_healthy [OF is_range_rev] by blast
qed

text \<open>
  \<open>EvaluateRegion\<close> strands traffic on an unhealthy primary: when the primary is marked
  unhealthy but the observed latency and error rate are within bounds, it denies and reports that
  no healthy fallback exists, whatever healthy regions are registered.\<close>

theorem EvaluateRegion_unhealthy_primary:
  assumes "gm_get (rr_regions r) (TrimSpace primaryName) = Some p" "rg_Enabled p" "\<not> rg_Healthy p"
    and "rx_LatencyMS m < 250" "rx_ErrorRate m \<le> 5 / 100"
  shows "EvaluateRegion it r primaryName m =
    Some \<lparr>gd_Allow = False, gd_Name = rg_Name p, gd_Target = rg_Target p,
          gd_Reason = ''primary region is degraded and no healthy fallback exists''\<rparr>"
proof -
  have "\<not> degraded m" using assms(4,5) by (simp add: degraded_def)
  then have "find (\<lambda>region. fallback_region primaryName region \<and> degraded m) xs = None" for xs
    by (simp add: find_None_iff)
  with assms(1-3) show ?thesis by (simp add: EvaluateRegion_def)
qed

lemma EvaluateRegion_unhealthy_primary_witness:
  "EvaluateRegion rev demo_regions ''p'' \<lparr>rx_LatencyMS = 10, rx_ErrorRate = 0\<rparr> =
     Some \<lparr>gd_Allow = False, gd_Name = ''p'', gd_Target = ''http://r'',
          gd_Reason = ''primary region is degraded and no healthy fallback exists''\<rparr>"
proof -
  have "gm_get (rr_regions demo_regions) (TrimSpace ''p'') = Some (demo_region ''p'' False)" by code_simp
  from EvaluateRegion_unhealthy_primary [OF this, of "\<lparr>rx_LatencyMS = 10, rx_ErrorRate = 0\<rparr>"]
  show ?thesis by (simp add: demo_region_def)
qed

text \<open>Policy checks: in a registry built by registrations, a tenant and region pass a policy
  exactly when both are named and each is on its allowlist or that list is empty.\<close>

theorem ValidatePolicy_iff:
  assumes "r = run (\<lambda>r x. fst (register urlOK r x)) NewRouteRegistry xs"
    and "GetPolicy r name = Some p"
  shows "ValidatePolicy r name tenant region = nil \<longleftrightarrow>
    TrimSpace tenant \<noteq> [] \<and> TrimSpace region \<noteq> []
    \<and> (po_AllowedTenants p = [] \<or> TrimSpace tenant \<in> TrimSpace ` set (po_AllowedTenants p))
    \<and> (po_AllowedRegions p = [] \<or> TrimSpace region \<in> TrimSpace ` set (po_AllowedRegions p))"
proof -
  have "registry_ok r" unfolding assms(1) by (rule registry_inv.run_keeps) (rule registry_ok_New)
  moreover have "reg_get r (KPolicy (TrimSpace name)) = Some (RegPolicy p)"
    using assms(2) by (simp add: GetPolicy_def)
  ultimately have "entry_good (RegPolicy p)" unfolding registry_ok_def by blast
  with assms(2) show ?thesis
    by (auto simp: ValidatePolicy_def listed_iff)
qed

definition demo_policy :: RoutePolicy where
  "demo_policy = \<lparr>po_Name = ''p'', po_Environment = [], po_Service = ''s'', po_AllowedTenants = ['' acme''],
     po_AllowedRegions = [], po_RequireSignedArtifacts = True, po_RequireAudit = True, po_SLO = None\<rparr>"

lemma ValidatePolicy_iff_witness:
  "ValidatePolicy (fst (RegisterPolicy NewRouteRegistry demo_policy)) ''p'' ''acme '' ''eu'' = nil"
proof -
  have "GetPolicy (fst (RegisterPolicy NewRouteRegistry demo_policy)) ''p'' = Some (policy_norm demo_policy)"
    by code_simp
  moreover have "fst (RegisterPolicy NewRouteRegistry demo_policy) =
      run (\<lambda>r x. fst (register (\<lambda>_. True) r x)) NewRouteRegistry [RegPolicy demo_policy]" by simp
  moreover have "TrimSpace ''acme '' \<noteq> [] \<and> TrimSpace ''eu'' \<noteq> [] \<and>
      (po_AllowedTenants (policy_norm demo_policy) = [] \<or>
       TrimSpace ''acme '' \<in> TrimSpace ` set (po_AllowedTenants (policy_norm demo_policy)))
      \<and> po_AllowedRegions (policy_norm demo_policy) = []" by code_simp
  ultimately show ?thesis using ValidatePolicy_iff by blast
qed

text \<open>A rollout registered through the route registry under a name with surrounding blanks
  is accepted but can never be looked up, since the lookup trims the name it is given.\<close>

theorem RegisterRollout_untrimmed_lost:
  assumes "snd (RegisterRollout NewRouteRegistry c) = nil" "TrimSpace (ro_Name c) \<noteq> ro_Name c"
  shows "GetRollout (fst (RegisterRollout NewRouteRegistry c)) name = None"
proof -
  have "reg_get (fst (register urlOK NewRouteRegistry (RegRollout c))) (KRollout (TrimSpace name)) =
      (if KRollout (TrimSpace name) = reg_key_of (RegRollout c) then Some (reg_norm (RegRollout c))
       else reg_get NewRouteRegistry (KRollout (TrimSpace name)))" for urlOK
    using assms(1) by (intro register_accepted(2)) simp
  moreover have "TrimSpace name \<noteq> ro_Name c" using assms(2) by (metis TrimSpace_idem)
  ultimately show ?thesis by (simp add: GetRollout_def NewRouteRegistry_def)
qed

lemma RegisterRollout_untrimmed_lost_witness:
  "snd (RegisterRollout NewRouteRegistry (demo_rollout\<lparr>ro_Name := '' r''\<rparr>)) = nil
   \<and> GetRollout (fst (RegisterRollout NewRouteRegistry (demo_rollout\<lparr>ro_Name := '' r''\<rparr>))) '' r'' = None"
proof -
  have a: "snd (RegisterRollout NewRouteRegistry (demo_rollout\<lparr>ro_Name := '' r''\<rparr>)) = nil"
    and "TrimSpace '' r'' \<noteq> '' r''" by code_simp+
  then show ?thesis using RegisterRollout_untrimmed_lost [OF a] by simp
qed

end
