(* ===== verification/Artifacts.thy ===== *)
theory Artifacts
  imports Go_Interfaces
begin

text \<open>
  Artifact provenance (\<open>pkg/runtime/artifacts.go\<close>): the content digest, the HMAC signature and
  their verification. \<open>crypto/sha256\<close>, \<open>crypto/hmac\<close> and \<open>encoding/hex\<close> are modelled in full, on
  32-bit words, so that signing and verifying are executable. No property rests on the hash
  being hard to invert or free of collisions.
\<close>

section \<open>SHA-256, HMAC and hexadecimal text\<close>

unbundle bit_operations_syntax

type_synonym w32 = "32 word"

text \<open>The round constants and the initial state, in decimal: \<open>sha_K\<close> starts with 428a2f98 in hexadecimal.\<close>

definition sha_K :: "w32 list" where
  "sha_K =
    [1116352408, 1899447441, 3049323471, 3921009573, 961987163, 1508970993, 2453635748, 2870763221,
     3624381080, 310598401, 607225278, 1426881987, 1925078388, 2162078206, 2614888103, 3248222580,
     3835390401, 4022224774, 264347078, 604807628, 770255983, 1249150122, 1555081692, 1996064986,
     2554220882, 2821834349, 2952996808, 3210313671, 3336571891, 3584528711, 113926993, 338241895,
     666307205, 773529912, 1294757372, 1396182291, 1695183700, 1986661051, 2177026350, 2456956037,
     2730485921, 2820302411, 3259730800, 3345764771, 3516065817, 3600352804, 4094571909, 275423344,
     430227734, 506948616, 659060556, 883997877, 958139571, 1322822218, 1537002063, 1747873779,
     1955562222, 2024104815, 2227730452, 2361852424, 2428436474, 2756734187, 3204031479, 3329325298]"

definition sha_init :: "w32 list" where
  "sha_init = [1779033703, 3144134277, 1013904242, 2773480762, 1359893119, 2600822924, 528734635, 1541459225]"

definition rotr :: "nat \<Rightarrow> w32 \<Rightarrow> w32" where
  "rotr n x = drop_bit n x OR push_bit (32 - n) x"

definition ssig0 :: "w32 \<Rightarrow> w32" where "ssig0 x = rotr 7 x XOR rotr 18 x XOR drop_bit 3 x"

definition ssig1 :: "w32 \<Rightarrow> w32" where "ssig1 x = rotr 17 x XOR rotr 19 x XOR drop_bit 10 x"

definition bsig0 :: "w32 \<Rightarrow> w32" where "bsig0 x = rotr 2 x XOR rotr 13 x XOR rotr 22 x"

definition bsig1 :: "w32 \<Rightarrow> w32" where "bsig1 x = rotr 6 x XOR rotr 11 x XOR rotr 25 x"

text \<open>The message schedule, newest word first, extended to 64 words.\<close>

fun sha_extend :: "nat \<Rightarrow> w32 list \<Rightarrow> w32 list" where
  "sha_extend 0 ws = ws"
| "sha_extend (Suc n) ws =
     sha_extend n ((ssig1 (ws ! 1) + ws ! 6 + ssig0 (ws ! 14) + ws ! 15) # ws)"

fun sha_round :: "w32 list \<Rightarrow> w32 \<times> w32 \<Rightarrow> w32 list" where
  "sha_round [a, b, c, d, e, f, g, h] (k, w) =
     (let t1 = h + bsig1 e + ((e AND f) XOR (NOT e AND g)) + k + w;
          t2 = bsig0 a + ((a AND b) XOR (a AND c) XOR (b AND c))
      in [t1 + t2, a, b, c, d + t1, e, f, g])"
| "sha_round st _ = st"

definition sha_block :: "w32 list \<Rightarrow> w32 list \<Rightarrow> w32 list" where
  "sha_block st ws =
     map2 (+) st (foldl sha_round st (zip sha_K (rev (sha_extend 48 (rev ws)))))"

text \<open>Bytes to big-endian words, sixteen of which are a block, and back.\<close>

fun be_words :: "string \<Rightarrow> w32 list" where
  "be_words (a # b # c # d # s) =
     (push_bit 24 (of_char a) OR push_bit 16 (of_char b) OR push_bit 8 (of_char c) OR of_char d) # be_words s"
| "be_words s = []"

definition be_bytes :: "w32 \<Rightarrow> string" where
  "be_bytes w = map (\<lambda>i. char_of (unat (drop_bit i w) mod 256)) [24, 16, 8, 0]"

definition sha_pad :: "string \<Rightarrow> string" where
  "sha_pad m = m @ char_of (128 :: nat) # replicate ((119 - length m mod 64) mod 64) (char_of (0 :: nat))
     @ map (\<lambda>i. char_of ((8 * length m) div 256 ^ i mod 256)) [7, 6, 5, 4, 3, 2, 1, 0]"

function sha_blocks :: "w32 list \<Rightarrow> w32 list \<Rightarrow> w32 list" where
  "sha_blocks st ws = (if ws = [] then st else sha_blocks (sha_block st (take 16 ws)) (drop 16 ws))"
  by pat_completeness auto
termination by (relation "measure (\<lambda>(st, ws). length ws)") auto

declare sha_blocks.simps [simp del]

definition sha256 :: "string \<Rightarrow> string" where
  "sha256 m = concat (map be_bytes (sha_blocks sha_init (be_words (sha_pad m))))"

definition xor_byte :: "nat \<Rightarrow> char \<Rightarrow> char" where
  "xor_byte k c = char_of (of_char c XOR k)"

definition hmac_sha256 :: "string \<Rightarrow> string \<Rightarrow> string" where
  "hmac_sha256 key m =
     (let key = (if length key > 64 then sha256 key else key);
          key = key @ replicate (64 - length key) (char_of (0 :: nat))
      in sha256 (map (xor_byte 0x5c) key @ sha256 (map (xor_byte 0x36) key @ m)))"

definition hexEncode :: "string \<Rightarrow> string" where
  "hexEncode s = concat (map (\<lambda>c. let n = (of_char c :: nat) in [hex_digit (n div 16), hex_digit (n mod 16)]) s)"

section \<open>Provenance records\<close>

record ArtifactProvenance =
  ap_Name :: string
  ap_Version :: string
  ap_Digest :: string
  ap_Signature :: string
  ap_CreatedAt :: int
  ap_Source :: string
  ap_Content :: string

definition sha256Hex :: "string \<Rightarrow> string" where
  "sha256Hex value = hexEncode (sha256 value)"

definition hmacSignature :: "string \<Rightarrow> string \<Rightarrow> string" where
  "hmacSignature secret value = hexEncode (hmac_sha256 secret value)"

definition NewArtifactProvenance :: "int \<Rightarrow> string \<Rightarrow> string \<Rightarrow> ArtifactProvenance" where
  "NewArtifactProvenance now name version =
     \<lparr>ap_Name = (if name = [] then ''unknown'' else name),
      ap_Version = (if version = [] then ''dev'' else version),
      ap_Digest = [], ap_Signature = [], ap_CreatedAt = now, ap_Source = ''fgoths-runtime'', ap_Content = []\<rparr>"

definition SetContent :: "ArtifactProvenance \<Rightarrow> string \<Rightarrow> ArtifactProvenance" where
  "SetContent p content = p\<lparr>ap_Content := content, ap_Digest := sha256Hex content\<rparr>"

definition Sign :: "ArtifactProvenance \<Rightarrow> string \<Rightarrow> string \<Rightarrow> ArtifactProvenance" where
  "Sign p secret source =
     p\<lparr>ap_Source := (if TrimSpace source \<noteq> [] then source else ap_Source p),
       ap_Signature := hmacSignature secret (ap_Content p)\<rparr>"

definition Verify :: "ArtifactProvenance \<Rightarrow> string \<Rightarrow> error" where
  "Verify p secret =
     first_error
       [(TrimSpace (ap_Content p) = [], ''artifact content is empty''),
        (TrimSpace (ap_Digest p) = [], ''artifact digest is empty''),
        (hmacSignature secret (ap_Content p) \<noteq> ap_Signature p, ''artifact signature mismatch''),
        (sha256Hex (ap_Content p) \<noteq> ap_Digest p, ''artifact digest mismatch'')]"

section \<open>Digests are graphic text\<close>

lemma length_sha_round: "length (sha_round st kw) = length st"
  by (cases "(st, kw)" rule: sha_round.cases) (auto simp: Let_def)

lemma length_sha_rounds: "length (foldl sha_round st kws) = length st"
  by (induction kws arbitrary: st) (auto simp: length_sha_round)

lemma length_sha_blocks: "length (sha_blocks st ws) = length st"
proof (induction st ws rule: sha_blocks.induct)
  case (1 st ws)
  then show ?case
    by (subst sha_blocks.simps) (simp add: sha_block_def length_sha_rounds)
qed

lemma length_sha256: "length (sha256 m) = 32"
proof -
  have "length (concat (map be_bytes ws)) = 4 * length ws" for ws
    by (induction ws) (simp_all add: be_bytes_def)
  then show ?thesis by (simp add: sha256_def length_sha_blocks sha_init_def)
qed

lemma graphic_hex_digit: "n < 16 \<Longrightarrow> graphic (hex_digit n)"
proof -
  have "list_all (\<lambda>n. graphic (hex_digit n)) [0..<16]" by code_simp
  then show "n < 16 \<Longrightarrow> graphic (hex_digit n)" by (auto simp: list_all_iff)
qed

lemma graphic_hexEncode: "x \<in> set (hexEncode s) \<Longrightarrow> graphic x"
proof -
  assume "x \<in> set (hexEncode s)"
  then obtain c where c: "x = hex_digit ((of_char c :: nat) div 16) \<or> x = hex_digit ((of_char c :: nat) mod 16)"
    by (auto simp: hexEncode_def Let_def)
  have "(of_char c :: nat) < 16 * 16" using nat_of_char_less_256 [of c] by simp
  then have "(of_char c :: nat) div 16 < 16" by (rule less_mult_imp_div_less)
  with c graphic_hex_digit show ?thesis by auto
qed

lemma hexEncode_Nil_iff: "hexEncode s = [] \<longleftrightarrow> s = []"
  by (cases s) (auto simp: hexEncode_def Let_def)

lemma TrimSpace_hexEncode [simp]: "TrimSpace (hexEncode s) = hexEncode s"
proof (cases "s = []")
  case False
  then have "hexEncode s \<noteq> []" by (simp add: hexEncode_Nil_iff)
  then show ?thesis
    by (intro TrimSpace_graphic graphic_hexEncode [of _ s]) (metis hd_in_set last_in_set)+
qed (simp add: hexEncode_def)

lemma sha256Hex_not_Nil [simp]: "sha256Hex s \<noteq> []"
  using length_sha256 [of s] by (auto simp: sha256Hex_def hexEncode_Nil_iff)

lemma TrimSpace_sha256Hex [simp]: "TrimSpace (sha256Hex s) = sha256Hex s"
  by (simp add: sha256Hex_def)

lemma Verify_nil_iff:
  "Verify p secret = nil \<longleftrightarrow>
     TrimSpace (ap_Content p) \<noteq> [] \<and> ap_Signature p = hmacSignature secret (ap_Content p)
     \<and> ap_Digest p = sha256Hex (ap_Content p)"
proof
  assume "Verify p secret = nil"
  then show "TrimSpace (ap_Content p) \<noteq> [] \<and> ap_Signature p = hmacSignature secret (ap_Content p)
     \<and> ap_Digest p = sha256Hex (ap_Content p)"
    unfolding Verify_def by auto
qed (simp add: Verify_def)

section \<open>Properties\<close>

text \<open>Provenance: after any sequence of changes to a record, setting a non-blank content and
  signing it verifies under the signing secret; and a record verifies under a secret exactly when
  its content is non-blank, its signature is the HMAC of the content under that secret and its
  digest is the digest of the content, so a changed content is rejected unless both collide.\<close>

theorem artifact_sign_verify:
  assumes "TrimSpace content \<noteq> []"
  shows "Verify (Sign (SetContent p content) secret source) secret = nil \<and>
    (Verify ((Sign (SetContent p content) secret source)\<lparr>ap_Content := other\<rparr>) secret' = nil \<longleftrightarrow>
       TrimSpace other \<noteq> [] \<and> hmacSignature secret' other = hmacSignature secret content
       \<and> sha256Hex other = sha256Hex content)"
  using assms by (auto simp: Verify_nil_iff Sign_def SetContent_def)

lemma artifact_sign_verify_witness:
  "Verify (Sign (SetContent (NewArtifactProvenance 0 ''app'' ''1.0'') ''payload'') ''secret'' ''ci'') ''secret'' = nil"
  using artifact_sign_verify [of "''payload''" "NewArtifactProvenance 0 ''app'' ''1.0''" "''secret''" "''ci''"]
    TrimSpace_graphic [of "''payload''"] by (simp add: graphic_def)

end
