(* ===== verification/Go_Disk.thy ===== *)
theory Go_Disk
  imports Go_Interfaces
begin

text \<open>
  The file system as the JSON stores use it: \<open>os.WriteFile\<close>, \<open>os.ReadFile\<close>, \<open>os.Rename\<close> and
  \<open>os.MkdirAll\<close>. A file holds either what \<open>encoding/json\<close> writes for a state (\<open>Encoded st\<close>) or
  any other bytes (\<open>Raw\<close>, read back through \<open>dk_parse\<close>, the outcome of \<open>json.Unmarshal\<close>), so that
  decoding an encoded state yields it. Faults are part of the world: operation number
  \<open>dk_tick\<close> may fail in every way the system calls can, and a write that fails half-way leaves
  a truncated file, since \<open>os.WriteFile\<close> truncates before it writes.
\<close>

datatype 's content = Encoded 's | Raw string

datatype write_outcome = Written | NotOpened string | Truncated string string

record 's disk =
  dk_files :: "(string, 's content) gomap"
  dk_tick :: nat
  dk_marshal :: "nat \<Rightarrow> error"
  dk_mkdir :: "nat \<Rightarrow> string \<Rightarrow> error"
  dk_write :: "nat \<Rightarrow> string \<Rightarrow> write_outcome"
  dk_rename :: "nat \<Rightarrow> string \<Rightarrow> error"
  dk_unreadable :: "string \<Rightarrow> error"
  dk_parse :: "string \<Rightarrow> string + 's"

definition tick :: "'s disk \<Rightarrow> 's disk" where
  "tick w = w\<lparr>dk_tick := Suc (dk_tick w)\<rparr>"

definition WriteFile :: "'s disk \<Rightarrow> string \<Rightarrow> 's \<Rightarrow> 's disk \<times> error" where
  "WriteFile w path st =
     (case dk_write w (dk_tick w) path of
        Written \<Rightarrow> (tick w\<lparr>dk_files := gm_put path (Encoded st) (dk_files w)\<rparr>, nil)
      | NotOpened msg \<Rightarrow> (tick w, Some msg)
      | Truncated part msg \<Rightarrow> (tick w\<lparr>dk_files := gm_put path (Raw part) (dk_files w)\<rparr>, Some msg))"

text \<open>The result of reading a file: absent, an error, or what decoding its contents yields.\<close>

datatype 's read_outcome = Absent | ReadFailed string | Decoded "string + 's"

definition ReadFile :: "'s disk \<Rightarrow> string \<Rightarrow> 's read_outcome" where
  "ReadFile w path =
     (case dk_unreadable w path of
        Some msg \<Rightarrow> ReadFailed msg
      | None \<Rightarrow>
          (case gm_get (dk_files w) path of
             None \<Rightarrow> Absent
           | Some (Encoded st) \<Rightarrow> Decoded (Inr st)
           | Some (Raw s) \<Rightarrow> Decoded (dk_parse w s)))"

text \<open>\<open>os.Rename\<close> of a file that was just written.\<close>

definition Rename :: "'s disk \<Rightarrow> string \<Rightarrow> string \<Rightarrow> 's disk \<times> error" where
  "Rename w from_path to_path =
     (case dk_rename w (dk_tick w) to_path of
        Some msg \<Rightarrow> (tick w, Some msg)
      | None \<Rightarrow>
          (case gm_get (dk_files w) from_path of
             None \<Rightarrow> (tick w, Some ''no such file or directory'')
           | Some c \<Rightarrow>
               (tick w\<lparr>dk_files := gm_put to_path c (AList.delete from_path (dk_files w))\<rparr>, nil)))"

definition readable :: "string \<Rightarrow> 's disk \<Rightarrow> bool" where
  "readable path w \<longleftrightarrow> dk_unreadable w path = nil"

text \<open>A disk that never fails, with given files.\<close>

definition sound_disk :: "(string, 's content) gomap \<Rightarrow> 's disk" where
  "sound_disk files = \<lparr>dk_files = files, dk_tick = 0, dk_marshal = (\<lambda>_. nil), dk_mkdir = (\<lambda>_ _. nil),
     dk_write = (\<lambda>_ _. Written), dk_rename = (\<lambda>_ _. nil), dk_unreadable = (\<lambda>_. nil),
     dk_parse = (\<lambda>_. Inl ''invalid character'')\<rparr>"

lemma tick_simps [simp]:
  "dk_files (tick w) = dk_files w" "dk_unreadable (tick w) = dk_unreadable w"
  "dk_parse (tick w) = dk_parse w" "dk_write (tick w) = dk_write w" "dk_rename (tick w) = dk_rename w"
  "dk_marshal (tick w) = dk_marshal w" "dk_mkdir (tick w) = dk_mkdir w"
  by (simp_all add: tick_def)

lemma WriteFile_keeps:
  "dk_unreadable (fst (WriteFile w path st)) = dk_unreadable w"
  "dk_parse (fst (WriteFile w path st)) = dk_parse w"
  "p \<noteq> path \<Longrightarrow> gm_get (dk_files (fst (WriteFile w path st))) p = gm_get (dk_files w) p"
  "snd (WriteFile w path st) = nil \<Longrightarrow> gm_get (dk_files (fst (WriteFile w path st))) path = Some (Encoded st)"
  by (simp_all add: WriteFile_def gm_get_put split: write_outcome.splits)

lemma Rename_keeps:
  "dk_unreadable (fst (Rename w a b)) = dk_unreadable w"
  "dk_parse (fst (Rename w a b)) = dk_parse w"
  "snd (Rename w a b) \<noteq> nil \<Longrightarrow> dk_files (fst (Rename w a b)) = dk_files w"
  "snd (Rename w a b) = nil \<Longrightarrow> gm_get (dk_files (fst (Rename w a b))) b = gm_get (dk_files w) a"
  by (simp_all add: Rename_def gm_get_put split: option.splits)

end
