(* ===== verification/Governance.thy ===== *)
theory Governance
  imports Registry Artifacts Go_Disk
begin

text \<open>
  Release governance (\<open>pkg/runtime/governance.go\<close>): configuration diffs, approval gates, release
  and promotion plans, compliance reports, deployment manifests with their registry and ledger,
  and the release workflow with its event log.

  A pointer receiver that is changed is returned changed; a pointer that may be nil is an option.
  The manifests of the ledger are values: the code keeps the pointer it is given, and the model
  describes callers that do not change a manifest after handing it over. Instants are arguments.
\<close>

section \<open>Two-level maps\<close>

text \<open>\<open>map[service]map[environment]v\<close>.\<close>

type_synonym 'v gomap2 = "(string, (string, 'v) gomap) gomap"

definition gm2_get :: "'v gomap2 \<Rightarrow> string \<Rightarrow> string \<Rightarrow> 'v option" where
  "gm2_get m a b = gm_get (gm_getd [] m a) b"

definition gm2_put :: "string \<Rightarrow> string \<Rightarrow> 'v \<Rightarrow> 'v gomap2 \<Rightarrow> 'v gomap2" where
  "gm2_put a b v m = gm_put a (gm_put b v (gm_getd [] m a)) m"

text \<open>\<open>if m[a] == nil { m[a] = make(...) }\<close>.\<close>

definition gm2_touch :: "string \<Rightarrow> 'v gomap2 \<Rightarrow> 'v gomap2" where
  "gm2_touch a m = (case gm_get m a of None \<Rightarrow> gm_put a [] m | Some _ \<Rightarrow> m)"

lemma gm2_get_put: "gm2_get (gm2_put a b v m) a' b' = (if a' = a \<and> b' = b then Some v else gm2_get m a' b')"
  by (auto simp: gm2_get_def gm2_put_def gm_get_put)

lemma gm2_get_touch [simp]: "gm2_get (gm2_touch a m) a' b' = gm2_get m a' b'"
  by (auto simp: gm2_get_def gm2_touch_def gm_getd_def gm_get_put split: option.splits)

lemma gm2_get_Nil [simp]: "gm2_get [] a b = None"
  by (simp add: gm2_get_def)

section \<open>Configuration diffs\<close>

record RouteRegistrySnapshot =
  sn_Routes :: "RouteConfig list"
  sn_Rolls :: "RolloutConfig list"
  sn_Regions :: "RegionConfig list"
  sn_Tenants :: "TenantConfig list"

record RouteChange =
  ch_Name :: string
  ch_Before :: string
  ch_After :: string

record ConfigDiff =
  df_HasChanges :: bool
  df_Routes :: "RouteChange list"
  df_UpdatedAt :: int

definition route_changed :: "RouteConfig option \<Rightarrow> RouteConfig \<Rightarrow> bool" where
  "route_changed prev route =
     (case prev of
        None \<Rightarrow> True
      | Some p \<Rightarrow> rc_Target p \<noteq> rc_Target route \<or> rc_Weight p \<noteq> rc_Weight route
          \<or> rc_Enabled p \<noteq> rc_Enabled route)"

definition BuildConfigDiff :: "int \<Rightarrow> RouteRegistrySnapshot \<Rightarrow> RouteRegistrySnapshot \<Rightarrow> ConfigDiff" where
  "BuildConfigDiff now before after =
     (let diff = \<lparr>df_HasChanges = False, df_Routes = [], df_UpdatedAt = now\<rparr> in
      if length (sn_Routes before) = 0 \<and> length (sn_Routes after) = 0 then diff
      else
        (let index = foldl (\<lambda>index route. gm_put (rc_Name route) route index) [] (sn_Routes before) in
         foldl (\<lambda>diff route.
             (let prev = gm_get index (rc_Name route) in
              if route_changed prev route then
                diff\<lparr>df_HasChanges := True,
                     df_Routes := df_Routes diff
                       @ [\<lparr>ch_Name = rc_Name route,
                          ch_Before = (case prev of None \<Rightarrow> [] | Some p \<Rightarrow> rc_Target p),
                          ch_After = rc_Target route\<rparr>]\<rparr>
              else diff))
           diff (sn_Routes after)))"

section \<open>Approval gates\<close>

record ApprovalGate =
  ag_Name :: string
  ag_Required :: int
  ag_Approvals :: "string list"

definition NewApprovalGate :: "string \<Rightarrow> int \<Rightarrow> ApprovalGate" where
  "NewApprovalGate name required =
     \<lparr>ag_Name = name, ag_Required = (if required \<le> 0 then 1 else required), ag_Approvals = []\<rparr>"

definition gate_Approve :: "ApprovalGate \<Rightarrow> string \<Rightarrow> ApprovalGate \<times> error" where
  "gate_Approve g actor =
     (if actor = [] then (g, errorf ''approver identity is required'')
      else if actor \<in> set (ag_Approvals g) then (g, nil)
      else (g\<lparr>ag_Approvals := ag_Approvals g @ [actor]\<rparr>, nil))"

definition gate_IsApproved :: "ApprovalGate \<Rightarrow> bool" where
  "gate_IsApproved g \<longleftrightarrow> int (length (ag_Approvals g)) \<ge> ag_Required g"

section \<open>Release plans\<close>

record RollbackPlan =
  rp_Reason :: string
  rp_Previous :: string
  rp_Steps :: "string list"
  rp_Triggered :: bool

definition NewRollbackPlan :: "string \<Rightarrow> string \<Rightarrow> string list \<Rightarrow> RollbackPlan" where
  "NewRollbackPlan reason previous steps =
     \<lparr>rp_Reason = (if reason = [] then ''rollback requested'' else reason),
      rp_Previous = (if previous = [] then ''previous stable version'' else previous),
      rp_Steps = steps, rp_Triggered = False\<rparr>"

record ReleasePlan =
  pl_Environment :: string
  pl_Service :: string
  pl_Version :: string
  pl_Gate :: "ApprovalGate option"
  pl_Artifact :: "ArtifactProvenance option"
  pl_Runbook :: string
  pl_SLO :: "SLOPolicy option"
  pl_Rollback :: "RollbackPlan option"
  pl_ApprovedAt :: "int option"

definition NewReleasePlan :: "string \<Rightarrow> string \<Rightarrow> string \<Rightarrow> ReleasePlan" where
  "NewReleasePlan environment service version =
     \<lparr>pl_Environment = (if environment = [] then ''prod'' else environment), pl_Service = service,
      pl_Version = version, pl_Gate = None, pl_Artifact = None, pl_Runbook = [], pl_SLO = None,
      pl_Rollback = None, pl_ApprovedAt = None\<rparr>"

text \<open>A nil gate or artifact fails its own check before it would be used.\<close>

definition gate_ok :: "ApprovalGate option \<Rightarrow> bool" where
  "gate_ok g = (case g of None \<Rightarrow> False | Some g \<Rightarrow> gate_IsApproved g)"

definition artifact_error :: "ArtifactProvenance option \<Rightarrow> string \<Rightarrow> error" where
  "artifact_error a secret = (case a of None \<Rightarrow> errorf ''artifact provenance is nil'' | Some a \<Rightarrow> Verify a secret)"

definition wrapped :: "string \<Rightarrow> error \<Rightarrow> string" where
  "wrapped context err = context @ (case err of None \<Rightarrow> [] | Some m \<Rightarrow> m)"

definition plan_Validate :: "int \<Rightarrow> ReleasePlan \<Rightarrow> string \<Rightarrow> ReleasePlan \<times> error" where
  "plan_Validate now p secret =
     commit
       (first_error
          [(TrimSpace (pl_Service p) = [], ''service name is required''),
           (pl_Gate p = None, ''approval gate is required''),
           (\<not> gate_ok (pl_Gate p), ''approval gate is not approved''),
           (pl_Artifact p = None, ''artifact provenance is required''),
           (artifact_error (pl_Artifact p) secret \<noteq> nil,
            wrapped ''artifact signature verification failed: '' (artifact_error (pl_Artifact p) secret)),
           (pl_SLO p = None, ''SLO policy is required for production rollout''),
           (pl_Rollback p = None, ''rollback plan is required for production rollout''),
           (TrimSpace (pl_Runbook p) = [], ''deployment runbook is required'')])
       p
       (p\<lparr>pl_ApprovedAt := Some now\<rparr>)"

definition plan_IsReady :: "int \<Rightarrow> ReleasePlan \<Rightarrow> string \<Rightarrow> ReleasePlan \<times> bool" where
  "plan_IsReady now p secret = (fst (plan_Validate now p secret), snd (plan_Validate now p secret) = nil)"

record ComplianceReport =
  cr_Environment :: string
  cr_Service :: string
  cr_Version :: string
  cr_Compliant :: bool
  cr_Evidence :: "string list"

definition NewComplianceReport :: "ReleasePlan \<Rightarrow> ComplianceReport" where
  "NewComplianceReport plan =
     (let evidence =
            (if gate_ok (pl_Gate plan) then [''approval gate satisfied''] else [])
            @ (case pl_Artifact plan of
                 None \<Rightarrow> []
               | Some a \<Rightarrow> if TrimSpace (ap_Signature a) \<noteq> [] then [''artifact signature verified''] else [])
            @ (if pl_SLO plan \<noteq> None then [''SLO guardrails defined''] else [])
            @ (if pl_Rollback plan \<noteq> None then [''rollback procedure defined''] else [])
            @ (if TrimSpace (pl_Runbook plan) \<noteq> [] then [''deployment runbook available''] else [])
      in \<lparr>cr_Environment = pl_Environment plan, cr_Service = pl_Service plan, cr_Version = pl_Version plan,
          cr_Compliant = (length evidence \<ge> 5), cr_Evidence = evidence\<rparr>)"

section \<open>Promotion plans and manifests\<close>

record PromotionPlan =
  pp_From :: string
  pp_To :: string
  pp_Service :: string
  pp_Version :: string
  pp_Gate :: "ApprovalGate option"
  pp_Artifact :: "ArtifactProvenance option"
  pp_Policy :: RoutePolicy
  pp_ApprovedAt :: "int option"

text \<open>The stage policy both constructors build.\<close>

definition stage_policy :: "string \<Rightarrow> string \<Rightarrow> RoutePolicy" where
  "stage_policy environment service =
     \<lparr>po_Name = [], po_Environment = environment, po_Service = service, po_AllowedTenants = [],
      po_AllowedRegions = [], po_RequireSignedArtifacts = (environment = ''prod''),
      po_RequireAudit = (environment = ''prod''),
      po_SLO = (if environment = ''prod'' then Some (NewSLOPolicy (5 / 100) 250 (2 / 100)) else None)\<rparr>"

definition NewPromotionPlan :: "string \<Rightarrow> string \<Rightarrow> string \<Rightarrow> string \<Rightarrow> PromotionPlan" where
  "NewPromotionPlan from_env to_env service version =
     (let from_env = (if from_env = [] then ''staging'' else from_env);
          to_env = (if to_env = [] then ''prod'' else to_env)
      in \<lparr>pp_From = from_env, pp_To = to_env, pp_Service = service, pp_Version = version, pp_Gate = None,
          pp_Artifact = None, pp_Policy = stage_policy to_env service, pp_ApprovedAt = None\<rparr>)"

text \<open>Empty policy fields are filled in from the plan; the change stays when a later check fails.\<close>

definition fill_policy :: "RoutePolicy \<Rightarrow> string \<Rightarrow> string \<Rightarrow> RoutePolicy" where
  "fill_policy policy environment service =
     policy\<lparr>po_Environment := (if po_Environment policy = [] then environment else po_Environment policy),
            po_Service := (if po_Service policy = [] then service else po_Service policy)\<rparr>"

definition promotion_Validate :: "int \<Rightarrow> PromotionPlan \<Rightarrow> string \<Rightarrow> PromotionPlan \<times> error" where
  "promotion_Validate now p secret =
     (let early = first_error
            [(TrimSpace (pp_Service p) = [], ''service name is required''),
             (pp_Gate p = None, ''approval gate is required for promotion''),
             (\<not> gate_ok (pp_Gate p), ''approval gate is not approved''),
             (pp_Artifact p = None, ''artifact provenance is required for promotion''),
             (artifact_error (pp_Artifact p) secret \<noteq> nil,
              wrapped ''artifact signature verification failed: '' (artifact_error (pp_Artifact p) secret)),
             (TrimSpace (pp_To p) = [], ''target environment is required'')];
          policy = fill_policy (pp_Policy p) (pp_To p) (pp_Service p);
          late = first_error
            [(pp_To p = ''prod'' \<and> (\<not> po_RequireSignedArtifacts policy \<or> \<not> po_RequireAudit policy \<or> po_SLO policy = None),
              ''production promotion requires signed artifacts, audit logging, and SLO guardrails''),
             (pp_To p = ''prod'' \<and> (length (po_AllowedTenants policy) = 0 \<or> length (po_AllowedRegions policy) = 0),
              ''production promotion requires explicit tenant and region allowlists''),
             (po_RequireSignedArtifacts policy \<and> po_SLO policy = None,
              ''target stage policy requires a valid SLO guardrail''),
             (po_RequireAudit policy \<and> po_SLO policy = None,
              ''target stage policy requires audit logging and SLO guardrails''),
             (po_Environment policy \<noteq> pp_To p,
              ''promotion target mismatch: policy environment '' @ Quote (po_Environment policy)
                @ '' does not match target '' @ Quote (pp_To p)),
             (po_Service policy \<noteq> pp_Service p,
              ''promotion target mismatch: policy service '' @ Quote (po_Service policy)
                @ '' does not match service '' @ Quote (pp_Service p))] in
      if early \<noteq> nil then (p, early)
      else commit late (p\<lparr>pp_Policy := policy\<rparr>) (p\<lparr>pp_Policy := policy, pp_ApprovedAt := Some now\<rparr>))"

record DeploymentManifest =
  dm_Environment :: string
  dm_Service :: string
  dm_Version :: string
  dm_Policy :: RoutePolicy
  dm_Audit :: "string list"
  dm_CreatedAt :: int

definition NewDeploymentManifest :: "int \<Rightarrow> string \<Rightarrow> string \<Rightarrow> string \<Rightarrow> DeploymentManifest" where
  "NewDeploymentManifest now environment service version =
     (let environment = (if environment = [] then ''prod'' else environment)
      in \<lparr>dm_Environment = environment, dm_Service = service, dm_Version = version,
          dm_Policy = stage_policy environment service, dm_Audit = [], dm_CreatedAt = now\<rparr>)"

definition manifest_Validate :: "DeploymentManifest \<Rightarrow> DeploymentManifest \<times> error" where
  "manifest_Validate m =
     (let early = first_error
            [(TrimSpace (dm_Service m) = [], ''service name is required''),
             (TrimSpace (dm_Environment m) = [], ''environment is required'')];
          policy = fill_policy (dm_Policy m) (dm_Environment m) (dm_Service m);
          late = first_error
            [(dm_Environment m = ''prod''
                \<and> (\<not> po_RequireSignedArtifacts policy \<or> \<not> po_RequireAudit policy \<or> po_SLO policy = None),
              ''production deployment manifest requires signed artifacts, audit logging, and SLO guardrails''),
             (dm_Environment m = ''prod''
                \<and> (length (po_AllowedTenants policy) = 0 \<or> length (po_AllowedRegions policy) = 0),
              ''production deployment manifest requires explicit tenant and region allowlists''),
             (po_RequireSignedArtifacts policy \<and> po_SLO policy = None,
              ''target stage policy requires a valid SLO guardrail''),
             (po_RequireAudit policy \<and> po_SLO policy = None,
              ''target stage policy requires audit logging and SLO guardrails''),
             (po_Environment policy \<noteq> dm_Environment m,
              ''deployment target mismatch: policy environment '' @ Quote (po_Environment policy)
                @ '' does not match environment '' @ Quote (dm_Environment m)),
             (po_Service policy \<noteq> dm_Service m,
              ''deployment target mismatch: policy service '' @ Quote (po_Service policy)
                @ '' does not match service '' @ Quote (dm_Service m)),
             (length (dm_Audit m) = 0, ''deployment audit trail is required'')] in
      if early \<noteq> nil then (m, early)
      else commit late (m\<lparr>dm_Policy := policy\<rparr>) (m\<lparr>dm_Policy := policy\<rparr>))"

section \<open>The manifest registry\<close>

type_synonym DeploymentManifestRegistry = "DeploymentManifest gomap2"

definition NewDeploymentManifestRegistry :: DeploymentManifestRegistry where
  "NewDeploymentManifestRegistry = []"

definition manifests_Register ::
  "DeploymentManifestRegistry \<Rightarrow> DeploymentManifest \<Rightarrow> DeploymentManifestRegistry \<times> error" where
  "manifests_Register r manifest =
     (let (manifest, err) = manifest_Validate manifest;
          service = TrimSpace (dm_Service manifest); env = TrimSpace (dm_Environment manifest) in
      commit
        (first_error
          [(err \<noteq> nil, wrapped ''manifest validation failed: '' err),
           (gm2_get r service env \<noteq> None,
            ''manifest already registered for service '' @ Quote service @ '' in environment '' @ Quote env)])
        r
        (gm2_put service env manifest r))"

definition gm2_lookup :: "'v gomap2 \<Rightarrow> string \<Rightarrow> string \<Rightarrow> 'v option" where
  "gm2_lookup m service environment =
     (let service = TrimSpace service; environment = TrimSpace environment in
      if service = [] \<or> environment = [] then None else gm2_get m service environment)"

definition manifests_Get ::
  "DeploymentManifestRegistry \<Rightarrow> string \<Rightarrow> string \<Rightarrow> DeploymentManifest option" where
  "manifests_Get r service environment = gm2_lookup r service environment"

definition manifests_Validate :: "DeploymentManifestRegistry \<Rightarrow> string \<Rightarrow> string \<Rightarrow> error" where
  "manifests_Validate r service environment =
     (case manifests_Get r service environment of
        None \<Rightarrow> errorf (''manifest for service '' @ Quote service @ '' in environment '' @ Quote environment
                  @ '' not found'')
      | Some manifest \<Rightarrow> snd (manifest_Validate manifest))"

section \<open>The deployment ledger\<close>

record DeploymentLedgerState =
  ls_Current :: "DeploymentManifest gomap2"
  ls_History :: "DeploymentManifest list gomap2"

type_synonym DeploymentLedger = DeploymentLedgerState

definition NewDeploymentLedger :: DeploymentLedger where
  "NewDeploymentLedger = \<lparr>ls_Current = [], ls_History = []\<rparr>"

definition history_of :: "'v list gomap2 \<Rightarrow> string \<Rightarrow> string \<Rightarrow> 'v list" where
  "history_of m service env = (case gm2_get m service env of None \<Rightarrow> [] | Some h \<Rightarrow> h)"

definition ledger_Record :: "DeploymentLedger \<Rightarrow> DeploymentManifest \<Rightarrow> DeploymentLedger \<times> error" where
  "ledger_Record l manifest =
     (let (manifest, err) = manifest_Validate manifest;
          service = TrimSpace (dm_Service manifest); env = TrimSpace (dm_Environment manifest);
          current = gm2_touch service (ls_Current l); history = gm2_touch service (ls_History l) in
      if err \<noteq> nil then (l, errorf (wrapped ''manifest validation failed: '' err))
      else if list_ex (\<lambda>existing. dm_Version existing = dm_Version manifest) (history_of history service env)
        then (\<lparr>ls_Current = current, ls_History = history\<rparr>,
              errorf (''version '' @ Quote (dm_Version manifest) @ '' already exists for service ''
                @ Quote service @ '' in environment '' @ Quote env))
      else (\<lparr>ls_Current = gm2_put service env manifest current,
              ls_History = gm2_put service env (history_of history service env @ [manifest]) history\<rparr>, nil))"

text \<open>\<open>Snapshot\<close> copies the current table and leaves the history out.\<close>

definition ledger_Snapshot :: "DeploymentLedger \<Rightarrow> DeploymentLedgerState" where
  "ledger_Snapshot l = \<lparr>ls_Current = ls_Current l, ls_History = []\<rparr>"

definition ledger_Current :: "DeploymentLedger \<Rightarrow> string \<Rightarrow> string \<Rightarrow> DeploymentManifest option" where
  "ledger_Current l service environment = gm2_lookup (ls_Current l) service environment"

definition ledger_History :: "DeploymentLedger \<Rightarrow> string \<Rightarrow> string \<Rightarrow> DeploymentManifest list option" where
  "ledger_History l service environment = gm2_lookup (ls_History l) service environment"

section \<open>The file store\<close>

definition fileDeployment_Save ::
  "string \<Rightarrow> DeploymentLedgerState disk \<Rightarrow> DeploymentLedgerState \<Rightarrow> DeploymentLedgerState disk \<times> error" where
  "fileDeployment_Save path w state =
     (if TrimSpace path = [] then (w, errorf ''file deployment store requires a path'')
      else case dk_marshal w (dk_tick w) of
          Some msg \<Rightarrow> (tick w, errorf (''marshal deployment ledger state: '' @ msg))
        | None \<Rightarrow>
            (case dk_mkdir w (dk_tick w) path of
               Some msg \<Rightarrow> (tick w, errorf (''create deployment store directory: '' @ msg))
             | None \<Rightarrow>
                 (case WriteFile w path state of
                    (w, Some msg) \<Rightarrow> (w, errorf (''write deployment ledger state: '' @ msg))
                  | (w, None) \<Rightarrow> (w, nil))))"

definition fileDeployment_Load ::
  "string \<Rightarrow> DeploymentLedgerState disk \<Rightarrow> string + DeploymentLedgerState" where
  "fileDeployment_Load path w =
     (if TrimSpace path = [] then Inl ''file deployment store requires a path''
      else case ReadFile w path of
          Absent \<Rightarrow> Inr NewDeploymentLedger
        | ReadFailed msg \<Rightarrow> Inl (''read deployment ledger state: '' @ msg)
        | Decoded (Inl msg) \<Rightarrow> Inl (''unmarshal deployment ledger state: '' @ msg)
        | Decoded (Inr state) \<Rightarrow> Inr state)"

text \<open>
  \<open>Persist\<close> and \<open>LoadFrom\<close> for any store, given by its \<open>Save\<close> and \<open>Load\<close>; \<open>None\<close> is the nil store.
\<close>

definition ledger_Persist ::
  "('w \<Rightarrow> DeploymentLedgerState \<Rightarrow> 'w \<times> error) option \<Rightarrow> 'w \<Rightarrow> DeploymentLedger \<Rightarrow> 'w \<times> error" where
  "ledger_Persist store w l =
     (case store of None \<Rightarrow> (w, errorf ''deployment store is required'') | Some save \<Rightarrow> save w l)"

definition ledger_LoadFrom ::
  "('w \<Rightarrow> string + DeploymentLedgerState) option \<Rightarrow> 'w \<Rightarrow> DeploymentLedger \<Rightarrow> DeploymentLedger \<times> error" where
  "ledger_LoadFrom store w l =
     (case store of
        None \<Rightarrow> (l, errorf ''deployment store is required'')
      | Some load \<Rightarrow> (case load w of Inl err \<Rightarrow> (l, Some err) | Inr state \<Rightarrow> (state, nil)))"

section \<open>The event log\<close>

record DeploymentEvent =
  ev_Service :: string
  ev_Environment :: string
  ev_Version :: string
  ev_Action :: string
  ev_Actor :: string
  ev_Reason :: string
  ev_CreatedAt :: int

type_synonym DeploymentEventLog = "DeploymentEvent list gomap2"

definition NewDeploymentEventLog :: DeploymentEventLog where
  "NewDeploymentEventLog = []"

record event_args =
  ea_service :: string
  ea_environment :: string
  ea_version :: string
  ea_action :: string
  ea_actor :: string
  ea_reason :: string

definition log_Record :: "int \<Rightarrow> DeploymentEventLog \<Rightarrow> event_args \<Rightarrow> DeploymentEventLog \<times> error" where
  "log_Record now l a =
     (let service = TrimSpace (ea_service a); environment = TrimSpace (ea_environment a);
          action = TrimSpace (ea_action a); actor = TrimSpace (ea_actor a) in
      commit
        (first_error
          [(service = [] \<or> environment = [] \<or> action = [], ''service, environment, and action are required''),
           (actor = [], ''actor is required for operator actions'')])
        l
        (gm2_put service environment
           (history_of l service environment
             @ [\<lparr>ev_Service = service, ev_Environment = environment, ev_Version = TrimSpace (ea_version a),
                 ev_Action = action, ev_Actor = actor, ev_Reason = TrimSpace (ea_reason a), ev_CreatedAt = now\<rparr>]) l))"

definition log_History :: "DeploymentEventLog \<Rightarrow> string \<Rightarrow> string \<Rightarrow> DeploymentEvent list option" where
  "log_History l service environment = gm2_lookup l service environment"

definition log_Latest :: "DeploymentEventLog \<Rightarrow> string \<Rightarrow> string \<Rightarrow> DeploymentEvent option" where
  "log_Latest l service environment =
     (case gm2_lookup l service environment of
        None \<Rightarrow> None
      | Some events \<Rightarrow> if length events = 0 then None else Some (last events))"

section \<open>The release workflow\<close>

record ReleaseWorkflow =
  rw_Service :: string
  rw_Environment :: string
  rw_Version :: string
  rw_Gate :: "ApprovalGate option"
  rw_EventLog :: "DeploymentEventLog option"
  rw_State :: string
  rw_ApprovedAt :: "int option"
  rw_UpdatedAt :: int

definition NewReleaseWorkflow :: "int \<Rightarrow> string \<Rightarrow> string \<Rightarrow> string \<Rightarrow> ReleaseWorkflow" where
  "NewReleaseWorkflow now service environment version =
     \<lparr>rw_Service = (if service = [] then ''unknown-service'' else service),
      rw_Environment = (if environment = [] then ''prod'' else environment), rw_Version = version,
      rw_Gate = None, rw_EventLog = Some NewDeploymentEventLog, rw_State = ''pending'',
      rw_ApprovedAt = None, rw_UpdatedAt = now\<rparr>"

definition terminal :: "ReleaseWorkflow \<Rightarrow> bool" where
  "terminal w \<longleftrightarrow> rw_State w = ''rejected'' \<or> rw_State w = ''rolled_back''"

definition terminal_error :: "ReleaseWorkflow \<Rightarrow> error" where
  "terminal_error w = errorf (''release workflow is terminal in state '' @ Quote (rw_State w))"

text \<open>The last statement of every transition: recording the event in the workflow's log.\<close>

definition workflow_log ::
  "int \<Rightarrow> ReleaseWorkflow \<Rightarrow> string \<Rightarrow> string \<Rightarrow> string \<Rightarrow> ReleaseWorkflow \<times> error" where
  "workflow_log now w action actor reason =
     (case rw_EventLog w of
        None \<Rightarrow> (w, nil)
      | Some l \<Rightarrow>
          (let (l', err) = log_Record now l
             \<lparr>ea_service = rw_Service w, ea_environment = rw_Environment w, ea_version = rw_Version w,
              ea_action = action, ea_actor = actor, ea_reason = reason\<rparr>
           in (w\<lparr>rw_EventLog := Some l'\<rparr>, err)))"

definition workflow_Approve :: "int \<Rightarrow> ReleaseWorkflow \<Rightarrow> string \<Rightarrow> ReleaseWorkflow \<times> error" where
  "workflow_Approve now w actor =
     (if terminal w then (w, terminal_error w)
      else case rw_Gate w of
          None \<Rightarrow> (w, errorf ''approval gate is required'')
        | Some g \<Rightarrow>
            (case gate_Approve g actor of
               (_, Some err) \<Rightarrow> (w, Some err)
             | (g, None) \<Rightarrow>
                 (let w = w\<lparr>rw_Gate := Some g, rw_UpdatedAt := now\<rparr>;
                      w = (if gate_IsApproved g
                           then w\<lparr>rw_State := ''approved'', rw_ApprovedAt := Some now\<rparr> else w)
                  in workflow_log now w ''approval'' actor ''approval recorded'')))"

definition workflow_IsApproved :: "ReleaseWorkflow \<Rightarrow> bool" where
  "workflow_IsApproved w \<longleftrightarrow> gate_ok (rw_Gate w)"

definition workflow_Rollback :: "int \<Rightarrow> ReleaseWorkflow \<Rightarrow> string \<Rightarrow> string \<Rightarrow> ReleaseWorkflow \<times> error" where
  "workflow_Rollback now w actor reason =
     (if terminal w then (w, terminal_error w)
      else if TrimSpace actor = [] then (w, errorf ''actor is required for rollback'')
      else workflow_log now (w\<lparr>rw_State := ''rolled_back'', rw_UpdatedAt := now\<rparr>) ''rollback'' actor reason)"

definition workflow_Reject :: "int \<Rightarrow> ReleaseWorkflow \<Rightarrow> string \<Rightarrow> string \<Rightarrow> ReleaseWorkflow \<times> error" where
  "workflow_Reject now w actor reason =
     (if terminal w then (w, terminal_error w)
      else if TrimSpace actor = [] then (w, errorf ''actor is required for rejection'')
      else workflow_log now (w\<lparr>rw_State := ''rejected'', rw_UpdatedAt := now\<rparr>) ''reject'' actor reason)"

section \<open>Manifests: the checks and the normal form\<close>

definition manifest_norm :: "DeploymentManifest \<Rightarrow> DeploymentManifest" where
  "manifest_norm m = m\<lparr>dm_Policy := fill_policy (dm_Policy m) (dm_Environment m) (dm_Service m)\<rparr>"

text \<open>What an accepted manifest guarantees about its policy, environment and audit trail.\<close>

definition manifest_good :: "DeploymentManifest \<Rightarrow> bool" where
  "manifest_good m \<longleftrightarrow>
     (let p = dm_Policy m in
      TrimSpace (dm_Service m) \<noteq> [] \<and> TrimSpace (dm_Environment m) \<noteq> [] \<and> dm_Audit m \<noteq> []
      \<and> po_Environment p = dm_Environment m \<and> po_Service p = dm_Service m
      \<and> (po_RequireSignedArtifacts p \<or> po_RequireAudit p \<longrightarrow> po_SLO p \<noteq> None)
      \<and> (dm_Environment m = ''prod'' \<longrightarrow> po_RequireSignedArtifacts p \<and> po_RequireAudit p
           \<and> po_AllowedTenants p \<noteq> [] \<and> po_AllowedRegions p \<noteq> []))"

lemma staged_commit:
  "(if early \<noteq> nil then (a, early) else commit late y z) = (c', nil) \<longleftrightarrow>
     early = nil \<and> late = nil \<and> c' = z"
  by (auto simp: commit_def)

lemma fill_policy_simps [simp]:
  "po_RequireSignedArtifacts (fill_policy p e s) = po_RequireSignedArtifacts p"
  "po_RequireAudit (fill_policy p e s) = po_RequireAudit p" "po_SLO (fill_policy p e s) = po_SLO p"
  "po_AllowedTenants (fill_policy p e s) = po_AllowedTenants p"
  "po_AllowedRegions (fill_policy p e s) = po_AllowedRegions p"
  by (simp_all add: fill_policy_def)

lemma manifest_Validate_nil_iff:
  "manifest_Validate m = (m', nil) \<longleftrightarrow> manifest_good (manifest_norm m) \<and> m' = manifest_norm m"
  unfolding manifest_Validate_def Let_def staged_commit
  by (auto simp: manifest_good_def manifest_norm_def Let_def)

lemma fill_policy_idem:
  "po_Environment p = e \<Longrightarrow> po_Service p = s \<Longrightarrow> fill_policy p e s = p"
  by (rule RoutePolicy.equality) (simp_all add: fill_policy_def)

lemma manifest_norm_good: "manifest_good m \<Longrightarrow> manifest_norm m = m"
  by (rule DeploymentManifest.equality)
    (simp_all add: manifest_norm_def manifest_good_def Let_def fill_policy_idem)

lemma manifest_norm_simps [simp]:
  "dm_Version (manifest_norm m) = dm_Version m" "dm_Service (manifest_norm m) = dm_Service m"
  "dm_Environment (manifest_norm m) = dm_Environment m" "dm_Audit (manifest_norm m) = dm_Audit m"
  by (simp_all add: manifest_norm_def)

lemma manifest_Validate_cases:
  obtains "manifest_good (manifest_norm m)" "manifest_Validate m = (manifest_norm m, nil)"
  | m' e where "manifest_Validate m = (m', Some e)"
  by (metis manifest_Validate_nil_iff option.exhaust surj_pair)

section \<open>The registry of manifests is written once\<close>

definition manifest_key :: "DeploymentManifest \<Rightarrow> string \<times> string" where
  "manifest_key m = (TrimSpace (dm_Service m), TrimSpace (dm_Environment m))"

interpretation manifests: write_once "\<lambda>r k. gm2_get r (fst k) (snd k)" manifests_Register manifest_key manifest_norm
proof
  fix r m
  assume "snd (manifests_Register r m) \<noteq> nil"
  then show "fst (manifests_Register r m) = r"
    unfolding manifests_Register_def Let_def by (auto simp del: first_error_nil simp: commit_rejected split: prod.splits)
next
  fix r m
  assume a: "snd (manifests_Register r m) = nil"
  have ok: "manifest_Validate m = (manifest_norm m, nil)"
  proof (cases m rule: manifest_Validate_cases)
    case (2 m' e)
    with a show ?thesis by (simp add: manifests_Register_def Let_def)
  qed
  show "gm2_get r (fst (manifest_key m)) (snd (manifest_key m)) = None"
    using a by (simp add: manifests_Register_def ok manifest_key_def Let_def)
  show "gm2_get (fst (manifests_Register r m)) (fst k) (snd k) =
      (if k = manifest_key m then Some (manifest_norm m) else gm2_get r (fst k) (snd k))" for k
    using a by (auto simp: manifests_Register_def ok manifest_key_def gm2_get_put Let_def prod_eq_iff)
qed

section \<open>The ledger: history is append-only and current is its last entry\<close>

abbreviation ledger_hist :: "DeploymentLedger \<Rightarrow> string \<times> string \<Rightarrow> DeploymentManifest list" where
  "ledger_hist l k \<equiv> history_of (ls_History l) (fst k) (snd k)"

lemma history_of_touch [simp]: "history_of (gm2_touch a m) s e = history_of m s e"
  by (simp add: history_of_def)

lemma history_of_put: "history_of (gm2_put a b v m) s e = (if s = a \<and> e = b then v else history_of m s e)"
  by (simp add: history_of_def gm2_get_put)

lemma history_of_Nil [simp]: "history_of [] s e = []"
  by (simp add: history_of_def)

lemma ledger_Record_nil:
  assumes "snd (ledger_Record l m) = nil"
  shows "manifest_good (manifest_norm m)"
    and "dm_Version m \<notin> dm_Version ` set (ledger_hist l (manifest_key m))"
    and "ledger_hist (fst (ledger_Record l m)) k =
      (if k = manifest_key m then ledger_hist l k @ [manifest_norm m] else ledger_hist l k)"
    and "gm2_get (ls_Current (fst (ledger_Record l m))) (fst k) (snd k) =
      (if k = manifest_key m then Some (manifest_norm m) else gm2_get (ls_Current l) (fst k) (snd k))"
proof -
  have "manifest_good (manifest_norm m) \<and> manifest_Validate m = (manifest_norm m, nil)"
  proof (cases m rule: manifest_Validate_cases)
    case (2 m' e)
    with assms show ?thesis by (simp add: ledger_Record_def)
  qed simp
  then show "manifest_good (manifest_norm m)"
    and "dm_Version m \<notin> dm_Version ` set (ledger_hist l (manifest_key m))"
    and "ledger_hist (fst (ledger_Record l m)) k =
      (if k = manifest_key m then ledger_hist l k @ [manifest_norm m] else ledger_hist l k)"
    and "gm2_get (ls_Current (fst (ledger_Record l m))) (fst k) (snd k) =
      (if k = manifest_key m then Some (manifest_norm m) else gm2_get (ls_Current l) (fst k) (snd k))"
    using assms
    by (cases k; auto simp: ledger_Record_def Let_def manifest_key_def history_of_put gm2_get_put list_ex_iff
        split: if_split_asm)+
qed

lemma ledger_Record_error:
  assumes "snd (ledger_Record l m) \<noteq> nil"
  shows "ledger_hist (fst (ledger_Record l m)) k = ledger_hist l k"
    and "gm2_get (ls_Current (fst (ledger_Record l m))) (fst k) (snd k) = gm2_get (ls_Current l) (fst k) (snd k)"
proof -
  have "(\<forall>k. ledger_hist (fst (ledger_Record l m)) k = ledger_hist l k) \<and>
    (\<forall>k. gm2_get (ls_Current (fst (ledger_Record l m))) (fst k) (snd k) = gm2_get (ls_Current l) (fst k) (snd k))"
  proof (cases m rule: manifest_Validate_cases)
    case 1
    with assms show ?thesis by (auto simp: ledger_Record_def Let_def)
  next
    case (2 m' e)
    then show ?thesis by (simp add: ledger_Record_def Let_def)
  qed
  then show "ledger_hist (fst (ledger_Record l m)) k = ledger_hist l k"
    and "gm2_get (ls_Current (fst (ledger_Record l m))) (fst k) (snd k) = gm2_get (ls_Current l) (fst k) (snd k)"
    by blast+
qed

interpretation ledger: append_only "\<lambda>l m. fst (ledger_Record l m)" ledger_hist
proof
  fix l k m
  show "prefix (ledger_hist l k) (ledger_hist (fst (ledger_Record l m)) k)"
    by (cases "snd (ledger_Record l m) = nil")
      (auto simp: ledger_Record_nil(3) ledger_Record_error(1) simp del: split_paired_All)
qed

definition ledger_entry_ok :: "DeploymentLedger \<Rightarrow> string \<times> string \<Rightarrow> bool" where
  "ledger_entry_ok l k \<longleftrightarrow>
     gm2_get (ls_Current l) (fst k) (snd k) =
       (if ledger_hist l k = [] then None else Some (last (ledger_hist l k)))
     \<and> distinct (map dm_Version (ledger_hist l k))
     \<and> (\<forall>m \<in> set (ledger_hist l k). manifest_good m \<and> manifest_key m = k)"

definition ledger_ok :: "DeploymentLedger \<Rightarrow> bool" where
  "ledger_ok l \<longleftrightarrow> (\<forall>k. ledger_entry_ok l k)"

lemma manifest_key_norm [simp]: "manifest_key (manifest_norm m) = manifest_key m"
  by (simp add: manifest_key_def)

interpretation ledger_inv: kept_invariant "\<lambda>l m. fst (ledger_Record l m)" ledger_ok
proof
  fix l m
  assume ok: "ledger_ok l"
  show "ledger_ok (fst (ledger_Record l m))"
  proof (cases "snd (ledger_Record l m) = nil")
    case True
    note r = ledger_Record_nil [OF True]
    have "ledger_entry_ok (fst (ledger_Record l m)) k" for k
    proof (cases "k = manifest_key m")
      case True
      have "ledger_entry_ok l k" using ok unfolding ledger_ok_def by blast
      moreover have "ledger_hist (fst (ledger_Record l m)) k = ledger_hist l k @ [manifest_norm m]"
        "gm2_get (ls_Current (fst (ledger_Record l m))) (fst k) (snd k) = Some (manifest_norm m)"
        "dm_Version m \<notin> dm_Version ` set (ledger_hist l k)" "manifest_key m = k"
        using r(2) [folded True] r(3,4) [of k] True by simp_all
      ultimately show ?thesis using r(1) unfolding ledger_entry_ok_def by simp
    next
      case False
      have "ledger_entry_ok l k" using ok unfolding ledger_ok_def by blast
      with False show ?thesis by (simp add: ledger_entry_ok_def r(3,4))
    qed
    then show ?thesis unfolding ledger_ok_def by blast
  next
    case False
    then have "ledger_entry_ok (fst (ledger_Record l m)) k \<longleftrightarrow> ledger_entry_ok l k" for k
      unfolding ledger_entry_ok_def by (simp only: ledger_Record_error [OF False])
    with ok show ?thesis unfolding ledger_ok_def by blast
  qed
qed

lemma ledger_ok_New: "ledger_ok NewDeploymentLedger"
  by (simp add: ledger_ok_def ledger_entry_ok_def NewDeploymentLedger_def)

section \<open>The stores\<close>

lemma fileDeployment_Save_nil:
  "snd (fileDeployment_Save path w st) = nil \<Longrightarrow>
     gm_get (dk_files (fst (fileDeployment_Save path w st))) path = Some (Encoded st) \<and> TrimSpace path \<noteq> []"
  by (auto simp: fileDeployment_Save_def WriteFile_def gm_get_put
      split: if_splits option.splits write_outcome.splits)

lemma fileDeployment_Save_readable:
  "dk_unreadable (fst (fileDeployment_Save path w st)) = dk_unreadable w"
  by (simp add: fileDeployment_Save_def WriteFile_def split: option.split write_outcome.split)

interpretation fileDeployment: durable_store "fileDeployment_Save path" "fileDeployment_Load path" "readable path"
  for path
proof
  fix w :: "DeploymentLedgerState disk" and st
  assume r: "readable path w"
  then show "readable path (fst (fileDeployment_Save path w st))"
    by (simp add: readable_def fileDeployment_Save_readable)
  assume "snd (fileDeployment_Save path w st) = nil"
  from fileDeployment_Save_nil [OF this] r
  show "fileDeployment_Load path (fst (fileDeployment_Save path w st)) = Inr st"
    by (simp add: fileDeployment_Load_def ReadFile_def readable_def fileDeployment_Save_readable)
qed

section \<open>The event log is append-only\<close>

abbreviation log_hist :: "DeploymentEventLog \<Rightarrow> string \<times> string \<Rightarrow> DeploymentEvent list" where
  "log_hist l k \<equiv> history_of l (fst k) (snd k)"

definition event_of :: "int \<Rightarrow> event_args \<Rightarrow> DeploymentEvent" where
  "event_of now a = \<lparr>ev_Service = TrimSpace (ea_service a), ev_Environment = TrimSpace (ea_environment a),
     ev_Version = TrimSpace (ea_version a), ev_Action = TrimSpace (ea_action a),
     ev_Actor = TrimSpace (ea_actor a), ev_Reason = TrimSpace (ea_reason a), ev_CreatedAt = now\<rparr>"

lemma log_Record_nil:
  "snd (log_Record now l a) = nil \<Longrightarrow>
     log_hist (fst (log_Record now l a)) k =
       log_hist l k @ (if k = (TrimSpace (ea_service a), TrimSpace (ea_environment a)) then [event_of now a] else [])
     \<and> TrimSpace (ea_service a) \<noteq> [] \<and> TrimSpace (ea_environment a) \<noteq> [] \<and> TrimSpace (ea_actor a) \<noteq> []"
  by (cases k) (auto simp: log_Record_def Let_def history_of_put event_of_def)

lemma log_Record_error: "snd (log_Record now l a) \<noteq> nil \<Longrightarrow> fst (log_Record now l a) = l"
  unfolding log_Record_def Let_def by (rule commit_rejected)

interpretation event_log: append_only "\<lambda>l (now, a). fst (log_Record now l a)" log_hist
proof
  fix l k and x :: "int \<times> event_args"
  obtain now a where x: "x = (now, a)" by (cases x)
  show "prefix (log_hist l k) (log_hist (case x of (now, a) \<Rightarrow> fst (log_Record now l a)) k)"
    unfolding x prod.case
    by (cases "snd (log_Record now l a) = nil")
      (simp_all only: log_Record_nil [where k = k, THEN conjunct1] log_Record_error prefix_order.refl prefixI
        not_False_eq_True)
qed

section \<open>The release workflow as a state machine\<close>

text \<open>The abstract machine: the phases of a release and its transitions.\<close>

datatype phase = Pending | Approved | Rejected | RolledBack

inductive phase_step :: "phase \<Rightarrow> phase \<Rightarrow> bool" where
  wait: "phase_step Pending Pending"
| approve: "phase_step Pending Approved"
| reapprove: "phase_step Approved Approved"
| reject: "p \<in> {Pending, Approved} \<Longrightarrow> phase_step p Rejected"
| rollback: "p \<in> {Pending, Approved} \<Longrightarrow> phase_step p RolledBack"

inductive_cases phase_step_RejectedE: "phase_step Rejected p"

inductive_cases phase_step_RolledBackE: "phase_step RolledBack p"

inductive_simps phase_step_Approved: "phase_step p Approved"

fun phase_name :: "phase \<Rightarrow> string" where
  "phase_name Pending = ''pending''"
| "phase_name Approved = ''approved''"
| "phase_name Rejected = ''rejected''"
| "phase_name RolledBack = ''rolled_back''"

lemma phase_name_inj [simp]: "phase_name p = phase_name q \<longleftrightarrow> p = q"
  by (cases p; cases q) auto

lemma phase_name_eq [simp]:
  "phase_name p = ''rejected'' \<longleftrightarrow> p = Rejected" "phase_name p = ''rolled_back'' \<longleftrightarrow> p = RolledBack"
  "phase_name p = ''approved'' \<longleftrightarrow> p = Approved" "phase_name p = ''pending'' \<longleftrightarrow> p = Pending"
  by (cases p; simp)+

datatype workflow_op =
    WApprove int string
  | WRollback int string string
  | WReject int string string

fun workflow_exec :: "ReleaseWorkflow \<Rightarrow> workflow_op \<Rightarrow> ReleaseWorkflow \<times> error" where
  "workflow_exec w (WApprove now actor) = workflow_Approve now w actor"
| "workflow_exec w (WRollback now actor reason) = workflow_Rollback now w actor reason"
| "workflow_exec w (WReject now actor reason) = workflow_Reject now w actor reason"

definition workflow_step :: "ReleaseWorkflow \<Rightarrow> workflow_op \<Rightarrow> ReleaseWorkflow" where
  "workflow_step w x = fst (workflow_exec w x)"

lemma workflow_log_keeps [simp]:
  "rw_State (fst (workflow_log now w a b c)) = rw_State w"
  "rw_Gate (fst (workflow_log now w a b c)) = rw_Gate w"
  "rw_Service (fst (workflow_log now w a b c)) = rw_Service w"
  "rw_Environment (fst (workflow_log now w a b c)) = rw_Environment w"
  "rw_Version (fst (workflow_log now w a b c)) = rw_Version w"
  by (simp_all add: workflow_log_def Let_def split: option.split prod.split)

text \<open>
  The gate of a workflow counts distinct, non-empty approvers, and the recorded state is
  \<open>approved\<close> only while the gate is satisfied.
\<close>

definition gate_wf :: "ApprovalGate \<Rightarrow> bool" where
  "gate_wf g \<longleftrightarrow> 1 \<le> ag_Required g \<and> distinct (ag_Approvals g) \<and> [] \<notin> set (ag_Approvals g)"

definition workflow_ok :: "ReleaseWorkflow \<Rightarrow> bool" where
  "workflow_ok w \<longleftrightarrow>
     (\<exists>p. rw_State w = phase_name p)
     \<and> (case rw_Gate w of
          None \<Rightarrow> rw_State w \<noteq> ''approved''
        | Some g \<Rightarrow> gate_wf g \<and> (rw_State w = ''approved'' \<longleftrightarrow> gate_IsApproved g \<and> \<not> terminal w))"

lemma gate_Approve_wf: "gate_wf g \<Longrightarrow> gate_wf (fst (gate_Approve g actor))"
  by (auto simp: gate_wf_def gate_Approve_def)

lemma gate_Approve_IsApproved: "gate_IsApproved g \<Longrightarrow> gate_IsApproved (fst (gate_Approve g actor))"
  by (auto simp: gate_IsApproved_def gate_Approve_def)

lemma workflow_Approve_cases:
  obtains e where "workflow_Approve now w actor = (w, Some e)"
  | g g' where "\<not> terminal w" "rw_Gate w = Some g" "gate_Approve g actor = (g', nil)" "actor \<noteq> []"
    "workflow_Approve now w actor =
       workflow_log now
         ((if gate_IsApproved g' then (\<lambda>w. w\<lparr>rw_State := ''approved'', rw_ApprovedAt := Some now\<rparr>) else id)
            (w\<lparr>rw_Gate := Some g', rw_UpdatedAt := now\<rparr>)) ''approval'' actor ''approval recorded''"
proof (cases "terminal w \<or> rw_Gate w = None \<or> actor = []")
  case True
  then have "\<exists>e. workflow_Approve now w actor = (w, Some e)"
    by (simp add: workflow_Approve_def gate_Approve_def terminal_error_def split: option.split) auto
  with that(1) show ?thesis by blast
next
  case False
  then obtain g where g: "rw_Gate w = Some g" by auto
  have "snd (gate_Approve g actor) = nil" using False by (simp add: gate_Approve_def)
  then obtain g' where g': "gate_Approve g actor = (g', nil)" by (metis prod.collapse)
  have eq: "workflow_Approve now w actor =
       workflow_log now
         ((if gate_IsApproved g' then (\<lambda>w. w\<lparr>rw_State := ''approved'', rw_ApprovedAt := Some now\<rparr>) else id)
            (w\<lparr>rw_Gate := Some g', rw_UpdatedAt := now\<rparr>)) ''approval'' actor ''approval recorded''"
    using False g g' by (simp add: workflow_Approve_def Let_def)
  show ?thesis by (rule that(2) [OF _ g g' _ eq]) (use False in auto)
qed

lemma workflow_end_cases:
  assumes "r = workflow_Rollback now w actor reason \<and> st = ''rolled_back''
    \<or> r = workflow_Reject now w actor reason \<and> st = ''rejected''"
  obtains e where "r = (w, Some e)"
  | a where "\<not> terminal w" "TrimSpace actor \<noteq> []"
    "r = workflow_log now (w\<lparr>rw_State := st, rw_UpdatedAt := now\<rparr>) a actor reason"
proof (cases "terminal w \<or> TrimSpace actor = []")
  case True
  then have "\<exists>e. workflow_Rollback now w actor reason = (w, Some e)"
    "\<exists>e. workflow_Reject now w actor reason = (w, Some e)"
    by (auto simp: workflow_Rollback_def workflow_Reject_def terminal_error_def)
  with assms that(1) show ?thesis by blast
next
  case False
  then have "r = workflow_log now (w\<lparr>rw_State := st, rw_UpdatedAt := now\<rparr>)
      (if st = ''rejected'' then ''reject'' else ''rollback'') actor reason"
    using assms by (auto simp: workflow_Rollback_def workflow_Reject_def)
  then show ?thesis using False by (intro that(2)) auto
qed

lemma workflow_step_cases:
  obtains "workflow_step w x = w" "snd (workflow_exec w x) \<noteq> nil"
  | now actor g g' where "x = WApprove now actor" "\<not> terminal w" "rw_Gate w = Some g"
      "gate_Approve g actor = (g', nil)" "rw_Gate (workflow_step w x) = Some g'"
      "rw_State (workflow_step w x) = (if gate_IsApproved g' then ''approved'' else rw_State w)"
  | p where "p \<in> {Rejected, RolledBack}" "\<not> terminal w" "rw_Gate (workflow_step w x) = rw_Gate w"
      "rw_State (workflow_step w x) = phase_name p"
proof (cases x)
  case (WApprove now actor)
  show ?thesis
  proof (cases rule: workflow_Approve_cases [where now = now and w = w and actor = actor])
    case (1 e)
    then show ?thesis using WApprove by (intro that(1)) (simp_all add: workflow_step_def)
  next
    case (2 g g')
    then show ?thesis
      using WApprove by (intro that(2) [OF WApprove 2(1-3)]) (simp_all add: workflow_step_def)
  qed
next
  case (WRollback now actor reason)
  then have "workflow_exec w x = workflow_Rollback now w actor reason \<and> ''rolled_back'' = ''rolled_back''
    \<or> workflow_exec w x = workflow_Reject now w actor reason \<and> ''rolled_back'' = ''rejected''" by simp
  then show ?thesis
  proof (cases rule: workflow_end_cases)
    case (1 e)
    then show ?thesis by (intro that(1)) (simp_all add: workflow_step_def)
  next
    case (2 a)
    then show ?thesis by (intro that(3) [of RolledBack]) (simp_all add: workflow_step_def)
  qed
next
  case (WReject now actor reason)
  then have "workflow_exec w x = workflow_Rollback now w actor reason \<and> ''rejected'' = ''rolled_back''
    \<or> workflow_exec w x = workflow_Reject now w actor reason \<and> ''rejected'' = ''rejected''" by simp
  then show ?thesis
  proof (cases rule: workflow_end_cases)
    case (1 e)
    then show ?thesis by (intro that(1)) (simp_all add: workflow_step_def)
  next
    case (2 a)
    then show ?thesis by (intro that(3) [of Rejected]) (simp_all add: workflow_step_def)
  qed
qed

lemma terminal_iff: "rw_State w = phase_name p \<Longrightarrow> terminal w \<longleftrightarrow> p \<in> {Rejected, RolledBack}"
  by (auto simp: terminal_def)

lemma workflow_ok_step:
  assumes "workflow_ok w"
  shows "workflow_ok (workflow_step w x)"
proof (cases rule: workflow_step_cases [where w = w and x = x])
  case 1
  with assms show ?thesis by simp
next
  case (2 now actor g g')
  from assms obtain p where p: "rw_State w = phase_name p" by (auto simp: workflow_ok_def)
  have g: "gate_wf g" "rw_State w = ''approved'' \<longleftrightarrow> gate_IsApproved g"
    using assms 2(2,3) by (auto simp: workflow_ok_def)
  have g': "gate_wf g'" "gate_IsApproved g \<Longrightarrow> gate_IsApproved g'"
    using gate_Approve_wf [OF g(1), of actor] gate_Approve_IsApproved [of g actor] 2(4) by simp_all
  show ?thesis
  proof (cases "gate_IsApproved g'")
    case True
    then have s: "rw_State (workflow_step w x) = phase_name Approved" using 2(6) by simp
    then have "\<not> terminal (workflow_step w x)" by (simp add: terminal_iff [of _ Approved])
    then show ?thesis
      using True 2(5) g'(1) s unfolding workflow_ok_def by (intro conjI exI [of _ Approved]) simp_all
  next
    case False
    then have "rw_State (workflow_step w x) = phase_name p" "p \<noteq> Approved" using 2(6) p g(2) g'(2) by auto
    with False 2(5) g'(1) show ?thesis unfolding workflow_ok_def by auto
  qed
next
  case (3 p)
  then have "terminal (workflow_step w x)" "rw_State (workflow_step w x) \<noteq> ''approved''"
    by (auto simp: terminal_def)
  with 3 assms show ?thesis by (auto simp: workflow_ok_def split: option.splits)
qed

interpretation workflow: kept_invariant workflow_step workflow_ok
  by unfold_locales (rule workflow_ok_step)

text \<open>The workflow refines the abstract machine: an operation is a transition or changes nothing.\<close>

lemma workflow_refines_phase:
  assumes "workflow_ok w" "rw_State w = phase_name p"
  shows "workflow_step w x = w \<or>
    (\<exists>q. rw_State (workflow_step w x) = phase_name q \<and> phase_step p q)"
proof (cases rule: workflow_step_cases [where w = w and x = x])
  case (2 now actor g g')
  then have p: "p \<in> {Pending, Approved}" using assms(2) by (cases p) (auto simp: terminal_def)
  show ?thesis
  proof (cases "gate_IsApproved g'")
    case True
    then have "rw_State (workflow_step w x) = phase_name Approved" using 2(6) by simp
    moreover have "phase_step p Approved" using p by (auto intro: phase_step.intros)
    ultimately show ?thesis by blast
  next
    case False
    then have "rw_State w \<noteq> ''approved''"
      using assms(1) 2 gate_Approve_IsApproved [of g actor] by (auto simp: workflow_ok_def)
    then have "p = Pending" using p assms(2) by auto
    with False 2(6) assms(2) have "rw_State (workflow_step w x) = phase_name Pending" by simp
    with \<open>p = Pending\<close> phase_step.wait show ?thesis by blast
  qed
next
  case (3 q)
  then have "p \<in> {Pending, Approved}" using assms(2) by (cases p) (auto simp: terminal_def)
  then have "phase_step p q" using 3(1) by (auto intro: phase_step.intros)
  with 3(4) show ?thesis by blast
qed simp

lemma terminal_frozen: "terminal w \<Longrightarrow> run workflow_step w xs = w"
proof (induction xs)
  case (Cons x xs)
  then have "workflow_step w x = w" by (cases rule: workflow_step_cases [where w = w and x = x]) auto
  with Cons show ?case by simp
qed simp

section \<open>Runs of the workflow\<close>

definition approve_actors :: "workflow_op list \<Rightarrow> string set" where
  "approve_actors xs = {actor. \<exists>now. WApprove now actor \<in> set xs}"

lemma approve_actors_Cons:
  "approve_actors (x # xs) = (case x of WApprove now actor \<Rightarrow> {actor} | _ \<Rightarrow> {}) \<union> approve_actors xs"
  by (auto simp: approve_actors_def split: workflow_op.split)

lemma workflow_run_gate:
  assumes "rw_Gate w = Some g" "set (ag_Approvals g) \<subseteq> A"
  shows "\<exists>g'. rw_Gate (run workflow_step w xs) = Some g' \<and> ag_Required g' = ag_Required g
    \<and> set (ag_Approvals g') \<subseteq> A \<union> approve_actors xs"
  using assms
proof (induction xs arbitrary: w g A)
  case Nil
  then show ?case by auto
next
  case (Cons x xs)
  have "\<exists>g1. rw_Gate (workflow_step w x) = Some g1 \<and> ag_Required g1 = ag_Required g
    \<and> set (ag_Approvals g1) \<subseteq> A \<union> approve_actors [x]"
  proof (cases rule: workflow_step_cases [where w = w and x = x])
    case (2 now actor g0 g')
    then have "g0 = g" using Cons.prems(1) by simp
    with 2(4) have "ag_Required g' = ag_Required g" "set (ag_Approvals g') \<subseteq> insert actor (set (ag_Approvals g))"
      by (auto simp: gate_Approve_def split: if_splits)
    with 2(1,5) Cons.prems(2) show ?thesis by (auto simp: approve_actors_Cons)
  qed (use Cons.prems in auto)
  then obtain g1 where g1: "rw_Gate (workflow_step w x) = Some g1" "ag_Required g1 = ag_Required g"
    "set (ag_Approvals g1) \<subseteq> A \<union> approve_actors [x]" by blast
  have "approve_actors (x # xs) = approve_actors [x] \<union> approve_actors xs"
    by (auto simp: approve_actors_def)
  with Cons.IH [OF g1(1,3)] g1(2) show ?case by (simp add: Un_assoc)
qed

lemma workflow_run_phase:
  assumes "workflow_ok w" "rw_State w = phase_name p"
  shows "\<exists>q. rw_State (run workflow_step w xs) = phase_name q \<and> phase_step\<^sup>*\<^sup>* p q"
  using assms
proof (induction xs arbitrary: w p)
  case (Cons x xs)
  from workflow_refines_phase [OF Cons.prems, of x] obtain p1
    where "rw_State (workflow_step w x) = phase_name p1" "phase_step\<^sup>*\<^sup>* p p1"
    using Cons.prems(2) by auto
  with Cons.IH [OF workflow_ok_step [OF Cons.prems(1)]] show ?case
    by (metis run_Cons rtranclp_trans)
qed auto

text \<open>The workflow \<open>createRelease\<close> starts with.\<close>

definition new_workflow :: "int \<Rightarrow> string \<Rightarrow> string \<Rightarrow> string \<Rightarrow> int \<Rightarrow> ReleaseWorkflow" where
  "new_workflow now service environment version required =
     (NewReleaseWorkflow now service environment version)
       \<lparr>rw_Gate := Some (NewApprovalGate (service @ ''/'' @ environment @ ''/'' @ version) required)\<rparr>"

lemma workflow_ok_new [simp]: "workflow_ok (new_workflow now s e v k)"
  by (auto simp: workflow_ok_def new_workflow_def NewReleaseWorkflow_def NewApprovalGate_def gate_wf_def
      gate_IsApproved_def intro: exI [of _ Pending])

section \<open>Properties\<close>

text \<open>C4. Quorum: after any sequence of approvals, rollbacks and rejections of a new release, the
  workflow is in the state \<open>approved\<close> only if its gate has at least the required number (at least
  one) of distinct, non-empty approvers, each of whom did approve.\<close>

theorem workflow_approved_needs_quorum:
  "\<exists>g. rw_Gate (run workflow_step (new_workflow now s e v k) xs) = Some g
    \<and> distinct (ag_Approvals g) \<and> [] \<notin> set (ag_Approvals g) \<and> set (ag_Approvals g) \<subseteq> approve_actors xs
    \<and> \<not> (rw_State (run workflow_step (new_workflow now s e v k) xs) = ''approved''
         \<and> int (length (ag_Approvals g)) < max 1 k)"
proof -
  let ?w = "new_workflow now s e v k" and ?w' = "run workflow_step (new_workflow now s e v k) xs"
  let ?g = "NewApprovalGate (s @ ''/'' @ e @ ''/'' @ v) k"
  have "rw_Gate ?w = Some ?g" "set (ag_Approvals ?g) \<subseteq> {}" "ag_Required ?g = max 1 k"
    by (simp_all add: new_workflow_def NewApprovalGate_def)
  then obtain g where g: "rw_Gate ?w' = Some g" "ag_Required g = max 1 k" "set (ag_Approvals g) \<subseteq> approve_actors xs"
    using workflow_run_gate [of ?w ?g "{}" xs] by auto
  have "workflow_ok ?w'" by (rule workflow.run_keeps) simp
  with g(1,2) have "gate_wf g" "rw_State ?w' = ''approved'' \<longrightarrow> max 1 k \<le> int (length (ag_Approvals g))"
    by (auto simp: workflow_ok_def gate_IsApproved_def)
  with g show ?thesis by (auto simp: gate_wf_def)
qed



text \<open>An approved release is not final: it can still be rejected or rolled back, although the
  architecture document lists approved among the terminal, immutable states.\<close>

theorem workflow_approved_not_terminal:
  "\<exists>w. w = run workflow_step (new_workflow 0 ''s'' ''e'' ''1'' 1) [WApprove 1 ''ann'']
    \<and> rw_State w = ''approved''
    \<and> rw_State (workflow_step w (WReject 2 ''bob'' ''late'')) = ''rejected''
    \<and> rw_State (workflow_step w (WRollback 2 ''bob'' ''late'')) = ''rolled_back''"
proof -
  let ?w = "run workflow_step (new_workflow 0 ''s'' ''e'' ''1'' 1) [WApprove 1 ''ann'']"
  have "rw_State ?w = ''approved''" "rw_State (workflow_step ?w (WReject 2 ''bob'' ''late'')) = ''rejected''"
    "rw_State (workflow_step ?w (WRollback 2 ''bob'' ''late'')) = ''rolled_back''" by code_simp+
  then show ?thesis by blast
qed

text \<open>A blank approver counts: approving a new release that needs one approval as a name of
  blanks reports an error, and yet the workflow is approved, with no event in its log; and the same
  person with and without a blank counts as two approvers.\<close>

theorem workflow_blank_actor_approves:
  "\<exists>w. workflow_Approve 1 (new_workflow 0 ''s'' ''e'' ''1'' 1) '' '' = (w, errorf ''actor is required for operator actions'')
      \<and> rw_State w = ''approved'' \<and> map_option (\<lambda>l. log_History l ''s'' ''e'') (rw_EventLog w) = Some None
   \<and> rw_State (run workflow_step (new_workflow 0 ''s'' ''e'' ''1'' 2) [WApprove 1 ''bob'', WApprove 2 ''bob '']) = ''approved''"
proof -
  let ?w = "fst (workflow_Approve 1 (new_workflow 0 ''s'' ''e'' ''1'' 1) '' '')"
  have "snd (workflow_Approve 1 (new_workflow 0 ''s'' ''e'' ''1'' 1) '' '')
      = errorf ''actor is required for operator actions''" "rw_State ?w = ''approved''"
    "map_option (\<lambda>l. log_History l ''s'' ''e'') (rw_EventLog ?w) = Some None" by code_simp+
  moreover have "rw_State (run workflow_step (new_workflow 0 ''s'' ''e'' ''1'' 2)
      [WApprove 1 ''bob'', WApprove 2 ''bob '']) = ''approved''" by code_simp
  ultimately show ?thesis by (metis prod.collapse)
qed

text \<open>The ledger: after any sequence of recordings, accepted or refused, the current manifest
  of every service and environment is the last entry of its history, no version occurs twice in a
  history, and every entry passed validation: a production entry requires signed artifacts and
  audit, has an SLO and tenant and region allowlists, and every entry has an audit trail.\<close>

theorem ledger_reachable_ok:
  "ledger_ok (run (\<lambda>l m. fst (ledger_Record l m)) NewDeploymentLedger ms)"
  by (rule ledger_inv.run_keeps) (rule ledger_ok_New)

text \<open>Recorded deployments are kept: an accepted manifest is in the history, in its normal form,
  at the position it was recorded at, after any further recordings.\<close>

theorem ledger_history_kept:
  assumes "snd (ledger_Record l m) = nil"
  shows "length (ledger_hist l (manifest_key m)) <
      length (ledger_hist (run (\<lambda>l m. fst (ledger_Record l m)) l (m # ms)) (manifest_key m))
    \<and> ledger_hist (run (\<lambda>l m. fst (ledger_Record l m)) l (m # ms)) (manifest_key m)
        ! length (ledger_hist l (manifest_key m)) = manifest_norm m"
proof -
  let ?l = "fst (ledger_Record l m)" and ?k = "manifest_key m"
  have h: "ledger_hist ?l ?k = ledger_hist l ?k @ [manifest_norm m]"
    using ledger_Record_nil(3) [OF assms, of ?k] by simp
  then have "length (ledger_hist l ?k) < length (ledger_hist ?l ?k)" by simp
  from ledger.entry_stable [OF this, of ms] show ?thesis by (simp add: h nth_append)
qed

definition demo_manifest :: DeploymentManifest where
  "demo_manifest = (NewDeploymentManifest 0 ''staging'' ''api'' ''1.0'')\<lparr>dm_Audit := [''reviewed'']\<rparr>"

lemma ledger_history_kept_witness:
  "ledger_hist (run (\<lambda>l m. fst (ledger_Record l m)) NewDeploymentLedger
      [demo_manifest, demo_manifest\<lparr>dm_Version := ''1.1''\<rparr>]) (''api'', ''staging'') ! 0 = demo_manifest"
proof -
  have "snd (ledger_Record NewDeploymentLedger demo_manifest) = nil" by code_simp
  note k = ledger_history_kept [OF this, of "[demo_manifest\<lparr>dm_Version := ''1.1''\<rparr>]"]
  have "manifest_key demo_manifest = (''api'', ''staging'')" "manifest_norm demo_manifest = demo_manifest"
    "ledger_hist NewDeploymentLedger (''api'', ''staging'') = []" by code_simp+
  with k show ?thesis by simp
qed

text \<open>
  Durability: on a disk that can be read, when a ledger is persisted to a file store after
  any number of earlier persists, failed or not, and this persist reports success, a fresh ledger
  loaded from the store is that ledger.\<close>

theorem ledger_persist_roundtrip:
  assumes "readable path w"
    and "w1 = run (\<lambda>w l. fst (ledger_Persist (Some (fileDeployment_Save path)) w l)) w ls"
    and "ledger_Persist (Some (fileDeployment_Save path)) w1 l = (w2, nil)"
  shows "ledger_LoadFrom (Some (fileDeployment_Load path)) w2 NewDeploymentLedger = (l, nil)"
proof -
  have w1: "w1 = run (\<lambda>w l. fst (fileDeployment_Save path w l)) w ls"
    using assms(2) by (simp add: ledger_Persist_def)
  have "fileDeployment_Save path w1 l = (w2, nil)" using assms(3) by (simp add: ledger_Persist_def)
  with fileDeployment.load_after_saves [OF assms(1), of ls l]
  have "fileDeployment_Load path w2 = Inr l" by (simp add: w1 run_append)
  then show ?thesis by (simp add: ledger_LoadFrom_def)
qed

lemma ledger_persist_roundtrip_witness:
  "let l = fst (ledger_Record NewDeploymentLedger demo_manifest);
       w = fst (fileDeployment_Save ''state.json'' (sound_disk []) l)
   in ledger_LoadFrom (Some (fileDeployment_Load ''state.json'')) w NewDeploymentLedger = (l, nil)"
proof -
  let ?l = "fst (ledger_Record NewDeploymentLedger demo_manifest)"
  have r: "readable ''state.json'' (sound_disk [])" by (simp add: readable_def sound_disk_def)
  have n: "TrimSpace ''state.json'' \<noteq> []" by code_simp
  have p: "ledger_Persist (Some (fileDeployment_Save ''state.json'')) (sound_disk []) ?l
      = (fst (fileDeployment_Save ''state.json'' (sound_disk []) ?l), nil)"
    using n by (simp add: ledger_Persist_def fileDeployment_Save_def sound_disk_def WriteFile_def)
  show ?thesis
    using ledger_persist_roundtrip [OF r, of "sound_disk []" "[]"] p by (simp add: Let_def)
qed

text \<open>The file store is not atomic: there is a disk on which one ledger was persisted, a second
  persist fails half-way with an error, and the first ledger can no longer be loaded.\<close>

theorem fileDeployment_failed_save_loses_state:
  "\<exists>w l1 l2 e e'. fileDeployment_Load ''state.json'' w = Inr l1
    \<and> snd (fileDeployment_Save ''state.json'' w l2) = Some e
    \<and> fileDeployment_Load ''state.json'' (fst (fileDeployment_Save ''state.json'' w l2)) = Inl e'"
proof -
  let ?w = "(sound_disk [(''state.json'', Encoded NewDeploymentLedger)])
      \<lparr>dk_write := \<lambda>_ _. Truncated ''{'' ''no space left on device''\<rparr>"
  have n: "TrimSpace ''state.json'' \<noteq> []" by code_simp
  have "fileDeployment_Load ''state.json'' ?w = Inr NewDeploymentLedger"
    using n by (simp add: fileDeployment_Load_def ReadFile_def sound_disk_def)
  moreover have "\<exists>e. snd (fileDeployment_Save ''state.json'' ?w NewDeploymentLedger) = Some e"
    using n by (simp add: fileDeployment_Save_def sound_disk_def WriteFile_def)
  moreover have "\<exists>e. fileDeployment_Load ''state.json''
      (fst (fileDeployment_Save ''state.json'' ?w NewDeploymentLedger)) = Inl e"
    using n by (simp add: fileDeployment_Save_def fileDeployment_Load_def ReadFile_def sound_disk_def
        WriteFile_def tick_def)
  ultimately show ?thesis by blast
qed

text \<open>Release readiness: a plan validates exactly when it names a service, its gate is satisfied,
  its artifact verifies under the secret, and it has an SLO, a rollback plan and a runbook; a plan
  that validates gets a compliant report.\<close>

theorem plan_Validate_iff:
  "(snd (plan_Validate now p secret) = nil \<longleftrightarrow>
      TrimSpace (pl_Service p) \<noteq> [] \<and> gate_ok (pl_Gate p)
      \<and> (\<exists>a. pl_Artifact p = Some a \<and> Verify a secret = nil)
      \<and> pl_SLO p \<noteq> None \<and> pl_Rollback p \<noteq> None \<and> TrimSpace (pl_Runbook p) \<noteq> [])
   \<and> (snd (plan_Validate now p secret) = nil \<longrightarrow> cr_Compliant (NewComplianceReport p))"
proof -
  have valid: "snd (plan_Validate now p secret) = nil \<longleftrightarrow>
      TrimSpace (pl_Service p) \<noteq> [] \<and> gate_ok (pl_Gate p)
      \<and> (\<exists>a. pl_Artifact p = Some a \<and> Verify a secret = nil)
      \<and> pl_SLO p \<noteq> None \<and> pl_Rollback p \<noteq> None \<and> TrimSpace (pl_Runbook p) \<noteq> []"
    by (cases "pl_Gate p"; cases "pl_Artifact p")
      (auto simp: plan_Validate_def gate_ok_def artifact_error_def)
  moreover have "cr_Compliant (NewComplianceReport p)"
    if "snd (plan_Validate now p secret) = nil"
  proof -
    from that obtain a where a: "pl_Artifact p = Some a" "Verify a secret = nil" using valid by blast
    then have "TrimSpace (ap_Signature a) \<noteq> []"
      by (auto simp: Verify_nil_iff hmacSignature_def hexEncode_Nil_iff hmac_sha256_def Let_def
          dest: arg_cong [where f = length] simp: length_sha256)
    with that a(1) show ?thesis unfolding valid by (auto simp: NewComplianceReport_def)
  qed
  ultimately show ?thesis by blast
qed

definition forged_plan :: ReleasePlan where
  "forged_plan = (NewReleasePlan ''prod'' ''api'' ''1'')
     \<lparr>pl_Gate := Some (\<lparr>ag_Name = ''g'', ag_Required = 1, ag_Approvals = [''ann'']\<rparr>),
      pl_Artifact := Some ((NewArtifactProvenance 0 ''api'' ''1'')\<lparr>ap_Signature := ''forged''\<rparr>),
      pl_Runbook := ''run'', pl_SLO := Some (NewSLOPolicy 0 0 0), pl_Rollback := Some (NewRollbackPlan [] [] [])\<rparr>"

lemma plan_Validate_iff_witness:
  "snd (plan_Validate 0 (forged_plan\<lparr>pl_Artifact :=
      Some (Sign (SetContent (NewArtifactProvenance 0 ''api'' ''1'') ''bin'') ''k'' [])\<rparr>) ''k'') = nil
   \<and> cr_Compliant (NewComplianceReport (forged_plan\<lparr>pl_Artifact :=
      Some (Sign (SetContent (NewArtifactProvenance 0 ''api'' ''1'') ''bin'') ''k'' [])\<rparr>))"
proof -
  let ?a = "Sign (SetContent (NewArtifactProvenance 0 ''api'' ''1'') ''bin'') ''k'' []"
  have "TrimSpace ''bin'' \<noteq> []" by code_simp
  then have "Verify ?a ''k'' = nil" by (simp add: Verify_nil_iff Sign_def SetContent_def)
  moreover have "TrimSpace ''api'' \<noteq> []" "TrimSpace ''run'' \<noteq> []" by code_simp+
  ultimately show ?thesis
    using plan_Validate_iff [of 0 "forged_plan\<lparr>pl_Artifact := Some ?a\<rparr>" "''k''"]
    by (simp add: forged_plan_def NewReleasePlan_def gate_ok_def gate_IsApproved_def)
qed

text \<open>A compliance report does not verify anything: a plan whose artifact has a forged
  signature fails validation under every secret, and its report is compliant and lists the
  artifact signature as verified.\<close>

theorem compliance_report_accepts_forged:
  "snd (plan_Validate now forged_plan secret) \<noteq> nil
   \<and> cr_Compliant (NewComplianceReport forged_plan)
   \<and> ''artifact signature verified'' \<in> set (cr_Evidence (NewComplianceReport forged_plan))"
proof -
  have "TrimSpace [] = []" by simp
  then have "snd (plan_Validate now forged_plan secret) \<noteq> nil"
    by (auto simp: plan_Validate_def forged_plan_def artifact_error_def Verify_nil_iff NewArtifactProvenance_def)
  moreover have "cr_Compliant (NewComplianceReport forged_plan)"
    "list_ex (\<lambda>e. e = ''artifact signature verified'') (cr_Evidence (NewComplianceReport forged_plan))"
    by code_simp+
  ultimately show ?thesis by (auto simp: list_ex_iff)
qed

text \<open>The last route of a name, which is what the index of the old snapshot holds.\<close>

definition last_named :: "string \<Rightarrow> RouteConfig list \<Rightarrow> RouteConfig option" where
  "last_named n rs = find (\<lambda>r. rc_Name r = n) (rev rs)"

lemma route_index_get:
  "gm_get (foldl (\<lambda>index route. gm_put (rc_Name route) route index) [] rs) n = last_named n rs"
  by (induction rs rule: rev_induct) (auto simp: last_named_def gm_get_put)

lemma diff_loop:
  fixes look :: "string \<Rightarrow> RouteConfig option"
  defines "f \<equiv> \<lambda>diff route.
             if route_changed (look (rc_Name route)) route then
                diff\<lparr>df_HasChanges := True,
                     df_Routes := df_Routes diff
                       @ [\<lparr>ch_Name = rc_Name route,
                          ch_Before = (case look (rc_Name route) of None \<Rightarrow> [] | Some p \<Rightarrow> rc_Target p),
                          ch_After = rc_Target route\<rparr>]\<rparr>
              else diff"
  shows "map ch_Name (df_Routes (foldl f d rs)) =
      map ch_Name (df_Routes d) @ map rc_Name (filter (\<lambda>c. route_changed (look (rc_Name c)) c) rs)"
    and "df_HasChanges (foldl f d rs) \<longleftrightarrow>
      df_HasChanges d \<or> filter (\<lambda>c. route_changed (look (rc_Name c)) c) rs \<noteq> []"
  by (induction rs arbitrary: d) (auto simp: f_def)

text \<open>Configuration diffs list, in order, exactly the routes of the new snapshot that are new or
  whose target, weight or enabling changed against the last route of that name in the old one; in
  particular a route that was removed is no change.\<close>

theorem BuildConfigDiff_exact:
  "let changed = filter (\<lambda>c. route_changed (last_named (rc_Name c) (sn_Routes before)) c) (sn_Routes after)
   in map ch_Name (df_Routes (BuildConfigDiff now before after)) = map rc_Name changed
    \<and> (df_HasChanges (BuildConfigDiff now before after) \<longleftrightarrow> changed \<noteq> [])
    \<and> \<not> df_HasChanges (BuildConfigDiff now before (after\<lparr>sn_Routes := []\<rparr>))"
proof -
  let ?look = "gm_get (foldl (\<lambda>index route. gm_put (rc_Name route) route index) [] (sn_Routes before))"
  have look: "?look = (\<lambda>n. last_named n (sn_Routes before))" by (rule ext) (rule route_index_get)
  have eq: "BuildConfigDiff now before a = foldl (\<lambda>diff route.
             if route_changed (?look (rc_Name route)) route then
                diff\<lparr>df_HasChanges := True,
                     df_Routes := df_Routes diff
                       @ [\<lparr>ch_Name = rc_Name route,
                          ch_Before = (case ?look (rc_Name route) of None \<Rightarrow> [] | Some p \<Rightarrow> rc_Target p),
                          ch_After = rc_Target route\<rparr>]\<rparr>
              else diff) \<lparr>df_HasChanges = False, df_Routes = [], df_UpdatedAt = now\<rparr> (sn_Routes a)" for a
    unfolding BuildConfigDiff_def Let_def by (cases "sn_Routes a = []") simp_all
  show ?thesis unfolding eq Let_def diff_loop by (simp add: look)
qed

end
