(* ===== verification/Policy_Versions.thy ===== *)
theory Policy_Versions
  imports Registry Go_Disk
begin

text \<open>
  Versioned policies (\<open>pkg/runtime/policy_versioning.go\<close>): the file store, the versioner's
  \<open>Create\<close>, \<open>Update\<close>, \<open>Rollback\<close> and \<open>History\<close>, the restart, and the text of a diff.

  The versioner and the route registry it changes are one state here; the store is the pair of
  its \<open>Save\<close> and \<open>Load\<close> on a world \<open>'w\<close>, \<open>None\<close> for the nil store. The text of a float (\<open>%g\<close>)
  is the parameter \<open>fmt_g\<close>.
\<close>

section \<open>Data\<close>

record PolicyVersionRecord =
  vr_PolicyName :: string
  vr_Environment :: string
  vr_Version :: int
  vr_Policy :: RoutePolicy
  vr_Actor :: string
  vr_Reason :: string
  vr_Diff :: string
  vr_CreatedAt :: int

type_synonym PolicyVersionState = "(string, PolicyVersionRecord list) gomap"

record 'w PolicyVersioner =
  pv_registry :: RouteRegistry
  pv_versions :: PolicyVersionState
  pv_world :: 'w

record 'w PolicyVersionStore =
  ps_Save :: "'w \<Rightarrow> PolicyVersionState \<Rightarrow> 'w \<times> error"
  ps_Load :: "'w \<Rightarrow> string + PolicyVersionState"

section \<open>The file store: write to a temporary file, then rename\<close>

definition filePolicy_Save ::
  "string \<Rightarrow> PolicyVersionState disk \<Rightarrow> PolicyVersionState \<Rightarrow> PolicyVersionState disk \<times> error" where
  "filePolicy_Save path w state =
     (if TrimSpace path = [] then (w, errorf ''policy version store path is required'')
      else case dk_marshal w (dk_tick w) of
          Some msg \<Rightarrow> (tick w, errorf (''failed to marshal policy versions: '' @ msg))
        | None \<Rightarrow>
            (let tmp = path @ ''.tmp'' in
             case WriteFile w tmp state of
               (w, Some msg) \<Rightarrow> (w, errorf (''failed to write policy versions: '' @ msg))
             | (w, None) \<Rightarrow> Rename w tmp path))"

definition filePolicy_Load :: "string \<Rightarrow> PolicyVersionState disk \<Rightarrow> string + PolicyVersionState" where
  "filePolicy_Load path w =
     (if TrimSpace path = [] then Inl ''policy version store path is required''
      else case ReadFile w path of
          Absent \<Rightarrow> Inr []
        | ReadFailed msg \<Rightarrow> Inl (''failed to read policy versions: '' @ msg)
        | Decoded (Inl msg) \<Rightarrow> Inl (''failed to unmarshal policy versions: '' @ msg)
        | Decoded (Inr state) \<Rightarrow> Inr state)"

section \<open>Diffs\<close>

definition equalStringSlices :: "string list \<Rightarrow> string list \<Rightarrow> bool" where
  "equalStringSlices a b =
     (if length a \<noteq> length b then False
      else (let sa = sort a; sb = sort b in list_all2 (=) sa sb))"

text \<open>\<open>%v\<close> of a slice of strings and of a bool.\<close>

definition fmt_strings :: "string list \<Rightarrow> string" where
  "fmt_strings xs = ''['' @ Join xs '' '' @ '']''"

definition fmt_bool :: "bool \<Rightarrow> string" where
  "fmt_bool b = (if b then ''true'' else ''false'')"

definition fmt_slo :: "(rat \<Rightarrow> string) \<Rightarrow> SLOPolicy \<Rightarrow> string" where
  "fmt_slo fmt_g s =
     ''{error_rate:'' @ fmt_g (slo_ErrorRateThreshold s) @ '', latency_ms:'' @ Itoa (slo_LatencyThresholdMS s)
       @ '', burn_rate:'' @ fmt_g (slo_BurnRateLimit s) @ ''}''"

definition change_entry :: "string \<Rightarrow> bool \<Rightarrow> string \<Rightarrow> string list" where
  "change_entry field changed detail = (if changed then [field @ '': '' @ detail] else [])"

definition policy_changes :: "(rat \<Rightarrow> string) \<Rightarrow> RoutePolicy \<Rightarrow> RoutePolicy \<Rightarrow> string list" where
  "policy_changes fmt_g before after =
     change_entry ''service'' (po_Service before \<noteq> po_Service after)
       (Quote (po_Service before) @ '' -> '' @ Quote (po_Service after))
     @ change_entry ''allowed_tenants'' (\<not> equalStringSlices (po_AllowedTenants before) (po_AllowedTenants after))
       (fmt_strings (po_AllowedTenants before) @ '' -> '' @ fmt_strings (po_AllowedTenants after))
     @ change_entry ''allowed_regions'' (\<not> equalStringSlices (po_AllowedRegions before) (po_AllowedRegions after))
       (fmt_strings (po_AllowedRegions before) @ '' -> '' @ fmt_strings (po_AllowedRegions after))
     @ change_entry ''require_signed_artifacts''
       (po_RequireSignedArtifacts before \<noteq> po_RequireSignedArtifacts after)
       (fmt_bool (po_RequireSignedArtifacts before) @ '' -> '' @ fmt_bool (po_RequireSignedArtifacts after))
     @ change_entry ''require_audit'' (po_RequireAudit before \<noteq> po_RequireAudit after)
       (fmt_bool (po_RequireAudit before) @ '' -> '' @ fmt_bool (po_RequireAudit after))
     @ (case (po_SLO before, po_SLO after) of
          (None, Some _) \<Rightarrow> [''slo: added'']
        | (Some _, None) \<Rightarrow> [''slo: removed'']
        | (Some b, Some a) \<Rightarrow> change_entry ''slo'' (b \<noteq> a) (fmt_slo fmt_g b @ '' -> '' @ fmt_slo fmt_g a)
        | (None, None) \<Rightarrow> [])"

definition diffPolicies :: "(rat \<Rightarrow> string) \<Rightarrow> RoutePolicy \<Rightarrow> RoutePolicy \<Rightarrow> string" where
  "diffPolicies fmt_g before after =
     (let changes = policy_changes fmt_g before after
      in if length changes = 0 then ''no changes'' else Join (sort changes) ''; '')"

section \<open>The versioner\<close>

definition policyKey :: "string \<Rightarrow> string \<Rightarrow> string" where
  "policyKey name environment = TrimSpace name @ ''/'' @ TrimSpace environment"

definition persistLocked :: "'w PolicyVersionStore option \<Rightarrow> 'w PolicyVersioner \<Rightarrow> 'w PolicyVersioner \<times> error" where
  "persistLocked store pv =
     (case store of
        None \<Rightarrow> (pv, nil)
      | Some s \<Rightarrow> (let (w, err) = ps_Save s (pv_world pv) (pv_versions pv) in (pv\<lparr>pv_world := w\<rparr>, err)))"

text \<open>\<open>pv.versions[key] = append(pv.versions[key], record)\<close>, then \<open>persistLocked\<close>.\<close>

definition append_record ::
  "'w PolicyVersionStore option \<Rightarrow> 'w PolicyVersioner \<Rightarrow> string \<Rightarrow> PolicyVersionRecord
   \<Rightarrow> 'w PolicyVersioner \<times> error" where
  "append_record store pv key rec =
     persistLocked store
       (pv\<lparr>pv_versions := gm_put key (gm_getd [] (pv_versions pv) key @ [rec]) (pv_versions pv)\<rparr>)"

definition replacePolicy :: "RouteRegistry \<Rightarrow> RoutePolicy \<Rightarrow> RouteRegistry \<times> error" where
  "replacePolicy r policy =
     (let name = TrimSpace (po_Name policy);
          environment = TrimSpace (po_Environment policy);
          service = TrimSpace (po_Service policy) in
      commit
        (first_error
          [(name = [], ''policy name is required''),
           (service = [], ''policy service is required''),
           (gm_get (rr_policies r) name = None, ''policy '' @ Quote name @ '' not found'')])
        r
        (r\<lparr>rr_policies := gm_put name
             (policy\<lparr>po_Name := name,
                     po_Environment := (if environment = [] then ''prod'' else environment),
                     po_Service := service,
                     po_SLO := (case po_SLO policy of None \<Rightarrow> Some defaultSLO | Some slo \<Rightarrow> Some slo)\<rparr>)
             (rr_policies r)\<rparr>))"

definition policy_Create ::
  "'w PolicyVersionStore option \<Rightarrow> int \<Rightarrow> 'w PolicyVersioner \<Rightarrow> RoutePolicy \<Rightarrow> string \<Rightarrow> string
   \<Rightarrow> 'w PolicyVersioner \<times> error" where
  "policy_Create store now pv policy actor reason =
     (if TrimSpace actor = [] then (pv, errorf ''actor is required'')
      else case RegisterPolicy (pv_registry pv) policy of
          (_, Some err) \<Rightarrow> (pv, Some err)
        | (r, None) \<Rightarrow>
            append_record store (pv\<lparr>pv_registry := r\<rparr>)
              (policyKey (po_Name policy) (po_Environment policy))
              \<lparr>vr_PolicyName = po_Name policy, vr_Environment = po_Environment policy, vr_Version = 1,
               vr_Policy = policy, vr_Actor = TrimSpace actor, vr_Reason = TrimSpace reason, vr_Diff = [],
               vr_CreatedAt = now\<rparr>)"

text \<open>\<open>Update\<close> brings the policy into the normal form of \<open>RegisterPolicy\<close> before it replaces it.\<close>

definition policy_Update ::
  "(rat \<Rightarrow> string) \<Rightarrow> 'w PolicyVersionStore option \<Rightarrow> int \<Rightarrow> 'w PolicyVersioner \<Rightarrow> RoutePolicy \<Rightarrow> string
   \<Rightarrow> string \<Rightarrow> 'w PolicyVersioner \<times> error" where
  "policy_Update fmt_g store now pv policy actor reason =
     (if TrimSpace actor = [] then (pv, errorf ''actor is required'')
      else case GetPolicy (pv_registry pv) (po_Name policy) of
          None \<Rightarrow> (pv, errorf (''policy '' @ Quote (po_Name policy)
                    @ '' not found; use Create to register it first''))
        | Some current \<Rightarrow>
            if po_Environment current \<noteq> po_Environment policy then
              (pv, errorf (''policy '' @ Quote (po_Name policy) @ '' is registered for environment ''
                @ Quote (po_Environment current) @ ''; cannot update to environment ''
                @ Quote (po_Environment policy)))
            else
              (let policy = policy_norm policy in
               case replacePolicy (pv_registry pv) policy of
                 (_, Some err) \<Rightarrow> (pv, Some err)
               | (r, None) \<Rightarrow>
                   (let key = policyKey (po_Name policy) (po_Environment policy) in
                    append_record store (pv\<lparr>pv_registry := r\<rparr>) key
                      \<lparr>vr_PolicyName = po_Name policy, vr_Environment = po_Environment policy,
                       vr_Version = int (length (gm_getd [] (pv_versions pv) key)) + 1, vr_Policy = policy,
                       vr_Actor = TrimSpace actor, vr_Reason = TrimSpace reason,
                       vr_Diff = diffPolicies fmt_g current policy, vr_CreatedAt = now\<rparr>)))"

definition zeroPolicy :: RoutePolicy where
  "zeroPolicy = \<lparr>po_Name = [], po_Environment = [], po_Service = [], po_AllowedTenants = [],
     po_AllowedRegions = [], po_RequireSignedArtifacts = False, po_RequireAudit = False, po_SLO = None\<rparr>"

definition policy_Rollback ::
  "(rat \<Rightarrow> string) \<Rightarrow> 'w PolicyVersionStore option \<Rightarrow> int \<Rightarrow> 'w PolicyVersioner \<Rightarrow> string \<Rightarrow> string \<Rightarrow> int
   \<Rightarrow> string \<Rightarrow> string \<Rightarrow> 'w PolicyVersioner \<times> error" where
  "policy_Rollback fmt_g store now pv name environment toVersion actor reason =
     (if TrimSpace actor = [] then (pv, errorf ''actor is required'')
      else
        (let key = policyKey name environment; history = gm_getd [] (pv_versions pv) key in
         if length history = 0 then (pv, errorf (''policy '' @ Quote name @ '' has no version history''))
         else if toVersion < 1 \<or> toVersion > int (length history) then
           (pv, errorf (''version '' @ Itoa toVersion @ '' is out of range (1..'' @ Itoa (int (length history)) @ '')''))
         else
           (let target = history ! nat (toVersion - 1);
                current = (case GetPolicy (pv_registry pv) name of None \<Rightarrow> zeroPolicy | Some p \<Rightarrow> p) in
            case replacePolicy (pv_registry pv) (vr_Policy target) of
              (_, Some err) \<Rightarrow> (pv, Some err)
            | (r, None) \<Rightarrow>
                append_record store (pv\<lparr>pv_registry := r\<rparr>) key
                  \<lparr>vr_PolicyName = name, vr_Environment = environment,
                   vr_Version = int (length history) + 1, vr_Policy = vr_Policy target,
                   vr_Actor = TrimSpace actor,
                   vr_Reason = ''rollback to v'' @ Itoa toVersion @ '': '' @ TrimSpace reason,
                   vr_Diff = diffPolicies fmt_g current (vr_Policy target), vr_CreatedAt = now\<rparr>)))"

definition policy_History :: "'w PolicyVersioner \<Rightarrow> string \<Rightarrow> string \<Rightarrow> string + PolicyVersionRecord list" where
  "policy_History pv name environment =
     (let history = gm_getd [] (pv_versions pv) (policyKey name environment) in
      if length history = 0 then Inl (''policy '' @ Quote name @ '' has no version history'')
      else Inr history)"

text \<open>The restart: the latest version of every history, in map order, unless its name is taken.\<close>

definition restore_policy :: "RouteRegistry \<Rightarrow> string \<times> PolicyVersionRecord list \<Rightarrow> RouteRegistry" where
  "restore_policy r kh =
     (let history = snd kh in
      if length history = 0 then r
      else
        (let latest = last history in
         case GetPolicy r (vr_PolicyName latest) of
           Some _ \<Rightarrow> r
         | None \<Rightarrow> fst (RegisterPolicy r (vr_Policy latest))))"

definition NewPolicyVersioner ::
  "(PolicyVersionState \<Rightarrow> PolicyVersionState) \<Rightarrow> RouteRegistry \<Rightarrow> 'w PolicyVersionStore option \<Rightarrow> 'w
   \<Rightarrow> 'w PolicyVersioner" where
  "NewPolicyVersioner it registry store w =
     (case store of
        None \<Rightarrow> \<lparr>pv_registry = registry, pv_versions = [], pv_world = w\<rparr>
      | Some s \<Rightarrow>
          (case ps_Load s w of
             Inl err \<Rightarrow> \<lparr>pv_registry = registry, pv_versions = [], pv_world = w\<rparr>
           | Inr state \<Rightarrow>
               \<lparr>pv_registry = foldl restore_policy registry (it state), pv_versions = state, pv_world = w\<rparr>))"

section \<open>Diffs: lemmas\<close>

lemma equalStringSlices_iff: "equalStringSlices a b \<longleftrightarrow> mset a = mset b"
proof -
  have "sort a = sort b \<longleftrightarrow> mset a = mset b"
    by (metis mset_sort properties_for_sort sorted_sort)
  then show ?thesis
    by (auto simp: equalStringSlices_def list_all2_eq dest: mset_eq_length)
qed

section \<open>The file store is atomic\<close>

lemma filePolicy_Save_tmp:
  assumes "snd (filePolicy_Save path w st) \<noteq> nil"
  shows "gm_get (dk_files (fst (filePolicy_Save path w st))) path = gm_get (dk_files w) path"
proof -
  have ne: "path \<noteq> path @ ''.tmp''" by simp
  obtain w1 e where w1: "WriteFile w (path @ ''.tmp'') st = (w1, e)" by fastforce
  have "gm_get (dk_files w1) path = gm_get (dk_files w) path"
    using WriteFile_keeps(3) [OF ne, of w st] w1 by simp
  then show ?thesis
    using assms w1 Rename_keeps(3) [of w1 "path @ ''.tmp''" path]
    by (auto simp: filePolicy_Save_def Let_def split: option.split)
qed

lemma filePolicy_Save_nil:
  assumes "snd (filePolicy_Save path w st) = nil"
  shows "gm_get (dk_files (fst (filePolicy_Save path w st))) path = Some (Encoded st)"
    and "TrimSpace path \<noteq> []"
proof -
  obtain w1 e where w1: "WriteFile w (path @ ''.tmp'') st = (w1, e)" by fastforce
  have "TrimSpace path \<noteq> [] \<and> e = nil \<and> filePolicy_Save path w st = Rename w1 (path @ ''.tmp'') path"
    using assms w1 by (auto simp: filePolicy_Save_def Let_def split: if_splits option.splits)
  then show "gm_get (dk_files (fst (filePolicy_Save path w st))) path = Some (Encoded st)"
    and "TrimSpace path \<noteq> []"
    using assms Rename_keeps(4) [of w1 "path @ ''.tmp''" path] WriteFile_keeps(4) [of w "path @ ''.tmp''" st] w1
    by auto
qed

lemma filePolicy_Save_env:
  "dk_unreadable (fst (filePolicy_Save path w st)) = dk_unreadable w \<and>
   dk_parse (fst (filePolicy_Save path w st)) = dk_parse w"
proof -
  obtain w1 e where w1: "WriteFile w (path @ ''.tmp'') st = (w1, e)" by fastforce
  have "dk_unreadable w1 = dk_unreadable w" "dk_parse w1 = dk_parse w"
    using WriteFile_keeps(1,2) [of w "path @ ''.tmp''" st] w1 by auto
  then show ?thesis
    using w1 Rename_keeps(1,2) [of w1 "path @ ''.tmp''" path]
    by (simp add: filePolicy_Save_def Let_def split: option.split)
qed

interpretation filePolicy: atomic_store "filePolicy_Save path" "filePolicy_Load path" "readable path" for path
proof
  fix w :: "PolicyVersionState disk" and st
  assume r: "readable path w"
  then show "readable path (fst (filePolicy_Save path w st))"
    by (simp add: readable_def filePolicy_Save_env)
  show "filePolicy_Load path (fst (filePolicy_Save path w st)) = Inr st"
    if "snd (filePolicy_Save path w st) = nil"
    using filePolicy_Save_nil [OF that] r
    by (simp add: filePolicy_Load_def ReadFile_def readable_def filePolicy_Save_env)
  show "filePolicy_Load path (fst (filePolicy_Save path w st)) = filePolicy_Load path w"
    if "snd (filePolicy_Save path w st) \<noteq> nil"
  proof -
    have "ReadFile (fst (filePolicy_Save path w st)) path = ReadFile w path"
      using filePolicy_Save_tmp [OF that] filePolicy_Save_env [of path w st]
      by (simp add: ReadFile_def cong: option.case_cong content.case_cong)
    then show ?thesis by (simp add: filePolicy_Load_def)
  qed
qed

section \<open>What an operation does\<close>

datatype policy_op =
    PCreate int RoutePolicy string string
  | PUpdate int RoutePolicy string string
  | PRollback int string string int string string

fun policy_exec ::
  "(rat \<Rightarrow> string) \<Rightarrow> 'w PolicyVersionStore option \<Rightarrow> 'w PolicyVersioner \<Rightarrow> policy_op \<Rightarrow> 'w PolicyVersioner \<times> error" where
  "policy_exec fmt_g store pv (PCreate now p actor reason) = policy_Create store now pv p actor reason"
| "policy_exec fmt_g store pv (PUpdate now p actor reason) = policy_Update fmt_g store now pv p actor reason"
| "policy_exec fmt_g store pv (PRollback now name env v actor reason) =
     policy_Rollback fmt_g store now pv name env v actor reason"

definition policy_step ::
  "(rat \<Rightarrow> string) \<Rightarrow> 'w PolicyVersionStore option \<Rightarrow> 'w PolicyVersioner \<Rightarrow> policy_op \<Rightarrow> 'w PolicyVersioner" where
  "policy_step fmt_g store pv x = fst (policy_exec fmt_g store pv x)"

abbreviation hist :: "'w PolicyVersioner \<Rightarrow> string \<Rightarrow> PolicyVersionRecord list" where
  "hist pv k \<equiv> gm_getd [] (pv_versions pv) k"

abbreviation active :: "'w PolicyVersioner \<Rightarrow> string \<Rightarrow> RoutePolicy option" where
  "active pv n \<equiv> gm_get (rr_policies (pv_registry pv)) n"

text \<open>The record goes to the end of one history, and its policy becomes the active one of its name.\<close>

definition versioned :: "'w PolicyVersioner \<Rightarrow> 'w PolicyVersioner \<Rightarrow> string \<Rightarrow> PolicyVersionRecord \<Rightarrow> bool" where
  "versioned pv pv' key rec \<longleftrightarrow>
     (\<forall>k. hist pv' k = (if k = key then hist pv k @ [rec] else hist pv k))
     \<and> (\<forall>n. active pv' n = (if n = TrimSpace (po_Name (vr_Policy rec)) then Some (policy_norm (vr_Policy rec))
                           else active pv n))
     \<and> TrimSpace (po_Name (vr_Policy rec)) \<noteq> [] \<and> TrimSpace (po_Service (vr_Policy rec)) \<noteq> []
     \<and> (gm_ok (pv_versions pv) \<longrightarrow> gm_ok (pv_versions pv'))"

lemma RegisterPolicy_nil:
  "snd (RegisterPolicy r p) = nil \<longleftrightarrow> TrimSpace (po_Name p) \<noteq> [] \<and> TrimSpace (po_Service p) \<noteq> []
     \<and> gm_get (rr_policies r) (TrimSpace (po_Name p)) = None"
  by (auto simp: RegisterPolicy_def Let_def)

lemma RegisterPolicy_policies:
  "snd (RegisterPolicy r p) = nil \<Longrightarrow>
     rr_policies (fst (RegisterPolicy r p)) = gm_put (TrimSpace (po_Name p)) (policy_norm p) (rr_policies r)"
  by (simp add: RegisterPolicy_def Let_def policy_norm_def)

lemma replacePolicy_nil:
  "snd (replacePolicy r p) = nil \<longleftrightarrow> TrimSpace (po_Name p) \<noteq> [] \<and> TrimSpace (po_Service p) \<noteq> []
     \<and> gm_get (rr_policies r) (TrimSpace (po_Name p)) \<noteq> None"
  by (auto simp: replacePolicy_def Let_def)

lemma replacePolicy_policies:
  "snd (replacePolicy r p) = nil \<Longrightarrow>
     rr_policies (fst (replacePolicy r p)) = gm_put (TrimSpace (po_Name p)) (policy_norm p) (rr_policies r)"
  by (simp add: replacePolicy_def Let_def policy_norm_def)

lemma policy_norm_idem [simp]: "policy_norm (policy_norm p) = policy_norm p"
  by (rule RoutePolicy.equality) (simp_all add: policy_norm_def TrimSpace_graphic graphic_def split: option.split)

lemma append_record_state [simp]:
  "pv_registry (fst (append_record store pv k rec)) = pv_registry pv"
  "hist (fst (append_record store pv k rec)) k' = (if k' = k then hist pv k' @ [rec] else hist pv k')"
  "gm_ok (pv_versions pv) \<Longrightarrow> gm_ok (pv_versions (fst (append_record store pv k rec)))"
  by (simp_all add: append_record_def persistLocked_def Let_def split: option.split prod.split)

lemma versioned_append:
  assumes "snd (f (pv_registry pv) (vr_Policy rec)) = nil" "f = RegisterPolicy \<or> f = replacePolicy"
  shows "versioned pv (fst (append_record store (pv\<lparr>pv_registry := fst (f (pv_registry pv) (vr_Policy rec))\<rparr>) k rec)) k rec"
  using assms
  by (auto simp: versioned_def RegisterPolicy_policies replacePolicy_policies gm_get_put
      RegisterPolicy_nil replacePolicy_nil)

lemma policy_create_step:
  fixes pv fmt_g store x
  assumes x: "x = PCreate now p actor reason"
  defines "pv' \<equiv> policy_step fmt_g store pv x"
  shows "(pv' = pv \<and> snd (policy_exec fmt_g store pv x) \<noteq> nil) \<or> (\<exists>rec.
      versioned pv pv' (policyKey (po_Name p) (po_Environment p)) rec \<and> vr_Policy rec = p \<and> vr_PolicyName rec = po_Name p \<and>
      vr_Version rec = 1 \<and> active pv (TrimSpace (po_Name p)) = None)"
proof -
  show ?thesis
  proof (cases "TrimSpace actor \<noteq> [] \<and> snd (RegisterPolicy (pv_registry pv) p) = nil")
    case True
    then obtain r where r: "RegisterPolicy (pv_registry pv) p = (r, nil)" by (metis prod.collapse)
    let ?rec = "\<lparr>vr_PolicyName = po_Name p, vr_Environment = po_Environment p, vr_Version = 1,
               vr_Policy = p, vr_Actor = TrimSpace actor, vr_Reason = TrimSpace reason, vr_Diff = [],
               vr_CreatedAt = now\<rparr>"
    have "versioned pv pv' (policyKey (po_Name p) (po_Environment p)) ?rec"
      using versioned_append [of RegisterPolicy pv ?rec] r True x
      by (simp add: pv'_def policy_step_def policy_Create_def)
    moreover have "active pv (TrimSpace (po_Name p)) = None" using r RegisterPolicy_nil by fastforce
    ultimately show ?thesis by (intro disjI2 exI [of _ ?rec]) simp
  next
    case False
    then have "\<exists>e. policy_exec fmt_g store pv x = (pv, Some e)"
      by (auto simp: x policy_Create_def split: prod.split option.split)
    then show ?thesis by (auto simp: pv'_def policy_step_def)
  qed
qed

lemma policy_update_step:
  fixes pv fmt_g store x
  assumes x: "x = PUpdate now p actor reason"
  defines "pv' \<equiv> policy_step fmt_g store pv x"
  shows "(pv' = pv \<and> snd (policy_exec fmt_g store pv x) \<noteq> nil) \<or> (\<exists>rec cur.
      versioned pv pv' (policyKey (po_Name p) (po_Environment (policy_norm p))) rec \<and>
      vr_Policy rec = policy_norm p \<and> vr_PolicyName rec = TrimSpace (po_Name p) \<and> active pv (TrimSpace (po_Name p)) = Some cur \<and>
      po_Environment cur = po_Environment p \<and>
      vr_Version rec = int (length (hist pv (policyKey (po_Name p) (po_Environment (policy_norm p))))) + 1)"
proof -
  let ?q = "policy_norm p"
  show ?thesis
  proof (cases "TrimSpace actor \<noteq> [] \<and> snd (replacePolicy (pv_registry pv) ?q) = nil \<and>
      (\<exists>cur. GetPolicy (pv_registry pv) (po_Name p) = Some cur \<and> po_Environment cur = po_Environment p)")
    case True
    then obtain r cur where r: "replacePolicy (pv_registry pv) ?q = (r, nil)"
      and cur: "GetPolicy (pv_registry pv) (po_Name p) = Some cur" "po_Environment cur = po_Environment p"
      by (metis prod.collapse)
    have key: "policyKey (po_Name ?q) (po_Environment ?q) = policyKey (po_Name p) (po_Environment ?q)"
      by (simp add: policyKey_def policy_norm_def)
    let ?rec = "\<lparr>vr_PolicyName = po_Name ?q, vr_Environment = po_Environment ?q,
       vr_Version = int (length (hist pv (policyKey (po_Name p) (po_Environment ?q)))) + 1, vr_Policy = ?q,
       vr_Actor = TrimSpace actor, vr_Reason = TrimSpace reason,
       vr_Diff = diffPolicies fmt_g cur ?q, vr_CreatedAt = now\<rparr>"
    have "versioned pv pv' (policyKey (po_Name p) (po_Environment ?q)) ?rec"
      using versioned_append [of replacePolicy pv ?rec] r True cur x
      by (simp add: pv'_def policy_step_def policy_Update_def Let_def key)
    then show ?thesis
      using cur by (intro disjI2 exI [of _ ?rec] exI [of _ cur]) (auto simp: GetPolicy_def policy_norm_def)
  next
    case False
    then have "\<exists>e. policy_exec fmt_g store pv x = (pv, Some e)"
      by (auto simp: x policy_Update_def Let_def split: prod.split option.split)
    then show ?thesis by (auto simp: pv'_def policy_step_def)
  qed
qed

lemma policy_rollback_step:
  fixes pv fmt_g store x
  assumes x: "x = PRollback now name env v actor reason"
  defines "pv' \<equiv> policy_step fmt_g store pv x"
  shows "(pv' = pv \<and> snd (policy_exec fmt_g store pv x) \<noteq> nil) \<or> (\<exists>rec.
      versioned pv pv' (policyKey name env) rec \<and> 1 \<le> v \<and> v \<le> int (length (hist pv (policyKey name env))) \<and>
      vr_Policy rec = vr_Policy (hist pv (policyKey name env) ! nat (v - 1)) \<and> vr_PolicyName rec = name \<and>
      vr_Version rec = int (length (hist pv (policyKey name env))) + 1)"
proof -
  let ?h = "hist pv (policyKey name env)"
  let ?p = "vr_Policy (?h ! nat (v - 1))"
  show ?thesis
  proof (cases "TrimSpace actor \<noteq> [] \<and> 1 \<le> v \<and> v \<le> int (length ?h)
      \<and> snd (replacePolicy (pv_registry pv) ?p) = nil")
    case True
    then obtain r where r: "replacePolicy (pv_registry pv) ?p = (r, nil)" by (metis prod.collapse)
    let ?rec = "\<lparr>vr_PolicyName = name, vr_Environment = env, vr_Version = int (length ?h) + 1, vr_Policy = ?p,
       vr_Actor = TrimSpace actor, vr_Reason = ''rollback to v'' @ Itoa v @ '': '' @ TrimSpace reason,
       vr_Diff = diffPolicies fmt_g (case GetPolicy (pv_registry pv) name of None \<Rightarrow> zeroPolicy | Some p \<Rightarrow> p) ?p,
       vr_CreatedAt = now\<rparr>"
    have "?h \<noteq> []" using True by auto
    then have "versioned pv pv' (policyKey name env) ?rec"
      using versioned_append [of replacePolicy pv ?rec] r True x
      by (simp add: pv'_def policy_step_def policy_Rollback_def Let_def)
    then show ?thesis using True by (intro disjI2 exI [of _ ?rec]) simp
  next
    case False
    then have "\<exists>e. policy_exec fmt_g store pv x = (pv, Some e)"
      by (auto simp: x policy_Rollback_def Let_def split: prod.split option.split)
    then show ?thesis by (auto simp: pv'_def policy_step_def)
  qed
qed

lemma policy_step_cases:
  fixes pv fmt_g store x
  defines "pv' \<equiv> policy_step fmt_g store pv x"
  obtains (unchanged) "pv' = pv" "snd (policy_exec fmt_g store pv x) \<noteq> nil"
  | (created) now p actor reason rec where "x = PCreate now p actor reason"
      "versioned pv pv' (policyKey (po_Name p) (po_Environment p)) rec"
      "vr_Policy rec = p" "vr_PolicyName rec = po_Name p" "vr_Version rec = 1" "active pv (TrimSpace (po_Name p)) = None"
  | (updated) now p actor reason rec cur where "x = PUpdate now p actor reason"
      "versioned pv pv' (policyKey (po_Name p) (po_Environment (policy_norm p))) rec"
      "vr_Policy rec = policy_norm p" "vr_PolicyName rec = TrimSpace (po_Name p)" "active pv (TrimSpace (po_Name p)) = Some cur"
      "po_Environment cur = po_Environment p"
      "vr_Version rec = int (length (hist pv (policyKey (po_Name p) (po_Environment (policy_norm p))))) + 1"
  | (rolled_back) now name env v actor reason rec where "x = PRollback now name env v actor reason"
      "versioned pv pv' (policyKey name env) rec" "1 \<le> v" "v \<le> int (length (hist pv (policyKey name env)))"
      "vr_Policy rec = vr_Policy (hist pv (policyKey name env) ! nat (v - 1))" "vr_PolicyName rec = name"
      "vr_Version rec = int (length (hist pv (policyKey name env))) + 1"
proof (cases x)
  case (PCreate now p actor reason)
  from policy_create_step [OF this, where pv = pv and fmt_g = fmt_g and store = store, folded pv'_def] show ?thesis
    using unchanged created [OF PCreate] by blast
next
  case (PUpdate now p actor reason)
  from policy_update_step [OF this, where pv = pv and fmt_g = fmt_g and store = store, folded pv'_def] show ?thesis
    using unchanged updated [OF PUpdate] by blast
next
  case (PRollback now name env v actor reason)
  from policy_rollback_step [OF this, where pv = pv and fmt_g = fmt_g and store = store, folded pv'_def] show ?thesis
    using unchanged rolled_back [OF PRollback] by blast
qed

section \<open>The histories are append-only\<close>

lemma versioned_hist: "versioned pv pv' key rec \<Longrightarrow> hist pv' k = (if k = key then hist pv k @ [rec] else hist pv k)"
  by (simp add: versioned_def)

lemma versioned_active:
  "versioned pv pv' key rec \<Longrightarrow>
     active pv' n = (if n = TrimSpace (po_Name (vr_Policy rec)) then Some (policy_norm (vr_Policy rec)) else active pv n)"
  by (simp add: versioned_def)

interpretation policies: append_only "policy_step fmt_g store" hist for fmt_g store
proof
  fix pv :: "'a PolicyVersioner" and k x
  show "prefix (hist pv k) (hist (policy_step fmt_g store pv x) k)"
    by (cases rule: policy_step_cases [where pv = pv and x = x and fmt_g = fmt_g and store = store])
      (auto simp: versioned_hist)
qed

section \<open>Consecutive versions and the active policy\<close>

lemma set_TrimSpace: "set (TrimSpace s) \<subseteq> set s"
proof -
  have "set (TrimSpace s) \<subseteq> set (strip ws_runes s)"
    using TrimSpace_prefix_strip [of s] by (auto dest: set_mono_prefix)
  also have "\<dots> \<subseteq> set s" using strip_suffix [of ws_runes s] by (rule set_mono_suffix)
  finally show ?thesis .
qed

lemma slash_split:
  assumes "CHR ''/'' \<notin> set n" "CHR ''/'' \<notin> set n'" "n @ ''/'' @ e = n' @ ''/'' @ e'"
  shows "n = n' \<and> e = e'"
proof -
  have "takeWhile (\<lambda>c. c \<noteq> CHR ''/'') (m @ ''/'' @ f) = m" if "CHR ''/'' \<notin> set m" for m f
    using that by (induction m) auto
  with assms have "n = n'" by metis
  with assms(3) show ?thesis by simp
qed

text \<open>
  Every history belongs to one registered policy and environment, is numbered from one, and its
  last version is the active policy.
\<close>

definition history_ok :: "'w PolicyVersioner \<Rightarrow> string \<Rightarrow> bool" where
  "history_ok pv k \<longleftrightarrow>
     (\<forall>i < length (hist pv k). vr_Version (hist pv k ! i) = int i + 1)
     \<and> (hist pv k \<noteq> [] \<longrightarrow>
          (\<exists>n p. CHR ''/'' \<notin> set n \<and> active pv n = Some p \<and> k = n @ ''/'' @ po_Environment p
            \<and> policy_norm (vr_Policy (last (hist pv k))) = p
            \<and> (\<forall>r \<in> set (hist pv k). TrimSpace (po_Name (vr_Policy r)) = n
                \<and> TrimSpace (vr_PolicyName r) = n
                \<and> po_Environment (policy_norm (vr_Policy r)) = po_Environment p)))"

definition active_ok :: "'w PolicyVersioner \<Rightarrow> string \<Rightarrow> bool" where
  "active_ok pv n \<longleftrightarrow>
     (\<forall>p. active pv n = Some p \<longrightarrow>
        policy_norm p = p \<and> po_Name p = n \<and> n \<noteq> [] \<and> po_Service p \<noteq> [] \<and> CHR ''/'' \<notin> set n
        \<and> hist pv (n @ ''/'' @ po_Environment p) \<noteq> [])"

definition policies_ok :: "'w PolicyVersioner \<Rightarrow> bool" where
  "policies_ok pv \<longleftrightarrow> (\<forall>k. history_ok pv k) \<and> (\<forall>n. active_ok pv n) \<and> gm_ok (pv_versions pv)"

text \<open>Names have no slash, and a policy is created with an environment that is not blank.\<close>

fun tidy_op :: "policy_op \<Rightarrow> bool" where
  "tidy_op (PCreate now p actor reason) \<longleftrightarrow>
     CHR ''/'' \<notin> set (po_Name p) \<and> TrimSpace (po_Environment p) \<noteq> []"
| "tidy_op (PRollback now name env v actor reason) \<longleftrightarrow> CHR ''/'' \<notin> set name"
| "tidy_op (PUpdate now p actor reason) \<longleftrightarrow> True"

lemma policy_norm_simps [simp]:
  "po_Name (policy_norm p) = TrimSpace (po_Name p)" "po_Service (policy_norm p) = TrimSpace (po_Service p)"
  by (simp_all add: policy_norm_def)

lemma policy_norm_Environment [simp]: "TrimSpace (po_Environment (policy_norm p)) = po_Environment (policy_norm p)"
  by (simp add: policy_norm_def TrimSpace_graphic graphic_def)

text \<open>A record added to the history of its own name and environment keeps the invariant.\<close>

lemma policies_ok_history:
  assumes "policies_ok pv" "r \<in> set (hist pv k)"
  obtains n p where "CHR ''/'' \<notin> set n" "active pv n = Some p" "k = n @ ''/'' @ po_Environment p"
    "TrimSpace (po_Name (vr_Policy r)) = n" "TrimSpace (vr_PolicyName r) = n"
    "po_Environment (policy_norm (vr_Policy r)) = po_Environment p"
proof -
  have "history_ok pv k" using assms(1) unfolding policies_ok_def by blast
  moreover have "hist pv k \<noteq> []" using assms(2) by auto
  ultimately show ?thesis using that assms(2) unfolding history_ok_def by blast
qed

lemma policies_ok_versioned:
  assumes ok: "policies_ok pv"
    and v: "versioned pv pv' (n @ ''/'' @ e) rec"
    and rec: "TrimSpace (po_Name (vr_Policy rec)) = n" "po_Environment (policy_norm (vr_Policy rec)) = e"
      "vr_Version rec = int (length (hist pv (n @ ''/'' @ e))) + 1" "CHR ''/'' \<notin> set n"
      "TrimSpace (vr_PolicyName rec) = n"
    and fresh: "active pv n = None \<or> (\<exists>p. active pv n = Some p \<and> po_Environment p = e)"
  shows "policies_ok pv'"
proof -
  let ?k = "n @ ''/'' @ e"
  note hist' = versioned_hist [OF v] and active' = versioned_active [OF v, unfolded rec(1)]
  have old: "active pv m = Some p \<and> m \<noteq> n" if "active pv' m = Some p" "m \<noteq> n" for m p
    using that by (simp add: active')
  have new: "active pv' n = Some (policy_norm (vr_Policy rec))" by (simp add: active')
  have same: "TrimSpace (po_Name (vr_Policy r)) = n \<and> TrimSpace (vr_PolicyName r) = n \<and> po_Environment (policy_norm (vr_Policy r)) = e"
    if r: "r \<in> set (hist pv ?k)" for r
  proof -
    obtain n' p where p: "CHR ''/'' \<notin> set n'" "active pv n' = Some p" "?k = n' @ ''/'' @ po_Environment p"
      "TrimSpace (po_Name (vr_Policy r)) = n'" "TrimSpace (vr_PolicyName r) = n'"
      "po_Environment (policy_norm (vr_Policy r)) = po_Environment p"
      by (rule policies_ok_history [OF ok r])
    have "n = n' \<and> e = po_Environment p" using rec(4) p(1,3) by (rule slash_split)
    then show ?thesis using p(4,5,6) by (simp only: simp_thms)
  qed
  have "history_ok pv' k" for k
  proof (cases "k = ?k")
    case True
    have num: "\<forall>i < length (hist pv ?k). vr_Version (hist pv ?k ! i) = int i + 1"
      using ok unfolding policies_ok_def history_ok_def by blast
    have "vr_Version ((hist pv ?k @ [rec]) ! i) = int i + 1" if "i < length (hist pv ?k @ [rec])" for i
    proof (cases "i < length (hist pv ?k)")
      case True
      then have "(hist pv ?k @ [rec]) ! i = hist pv ?k ! i" by (rule nth_append_left)
      with num True show ?thesis by metis
    next
      case False
      then have i: "i = length (hist pv ?k)" using that by simp
      show ?thesis unfolding i using rec(3) by (simp only: nth_append_length)
    qed
    moreover have "\<exists>m p. CHR ''/'' \<notin> set m \<and> active pv' m = Some p \<and> ?k = m @ ''/'' @ po_Environment p
            \<and> policy_norm (vr_Policy (last (hist pv ?k @ [rec]))) = p
            \<and> (\<forall>r \<in> set (hist pv ?k @ [rec]). TrimSpace (po_Name (vr_Policy r)) = m
                \<and> TrimSpace (vr_PolicyName r) = m \<and> po_Environment (policy_norm (vr_Policy r)) = po_Environment p)"
    proof (intro exI conjI)
      show "active pv' n = Some (policy_norm (vr_Policy rec))" by (rule new)
      show "\<forall>r \<in> set (hist pv ?k @ [rec]). TrimSpace (po_Name (vr_Policy r)) = n
          \<and> TrimSpace (vr_PolicyName r) = n \<and> po_Environment (policy_norm (vr_Policy r)) = po_Environment (policy_norm (vr_Policy rec))"
        using same rec(1,2,5) by simp
    qed (use rec in simp_all)
    ultimately show ?thesis unfolding history_ok_def hist' True if_P [OF refl] by blast
  next
    case False
    have ho: "history_ok pv k" using ok unfolding policies_ok_def by blast
    have "active pv' m = Some p" if "active pv m = Some p" "k = m @ ''/'' @ po_Environment p" for m p
      using that False fresh by (auto simp: active')
    with ho show ?thesis unfolding history_ok_def hist' if_not_P [OF False] by blast
  qed
  moreover have "active_ok pv' m" for m
  proof (cases "m = n")
    case True
    have "n \<noteq> []" "TrimSpace (po_Service (vr_Policy rec)) \<noteq> []" using v rec(1) by (auto simp: versioned_def)
    then show ?thesis unfolding active_ok_def True new using rec by (simp add: hist')
  next
    case False
    have "active_ok pv m" using ok unfolding policies_ok_def by blast
    then show ?thesis unfolding active_ok_def by (auto simp: active' False hist')
  qed
  moreover have "gm_ok (pv_versions pv')" using ok v unfolding policies_ok_def versioned_def by blast
  ultimately show ?thesis unfolding policies_ok_def by blast
qed

lemma policies_ok_step:
  assumes ok: "policies_ok pv" and tidy: "tidy_op x"
  shows "policies_ok (policy_step fmt_g store pv x)"
proof (cases rule: policy_step_cases [where pv = pv and x = x and fmt_g = fmt_g and store = store])
  case unchanged
  with ok show ?thesis by simp
next
  case (created now p actor reason rec)
  let ?n = "TrimSpace (po_Name p)" and ?e = "TrimSpace (po_Environment p)"
  have n: "CHR ''/'' \<notin> set ?n" "?e \<noteq> []" using tidy created(1) set_TrimSpace by auto
  have e: "po_Environment (policy_norm p) = ?e" using n(2) by (simp add: policy_norm_def)
  have "hist pv (?n @ ''/'' @ ?e) = []"
  proof (rule ccontr)
    assume "hist pv (?n @ ''/'' @ ?e) \<noteq> []"
    then have "hd (hist pv (?n @ ''/'' @ ?e)) \<in> set (hist pv (?n @ ''/'' @ ?e))" by simp
    then obtain n' q where q: "CHR ''/'' \<notin> set n'" "active pv n' = Some q"
      "?n @ ''/'' @ ?e = n' @ ''/'' @ po_Environment q"
      by (rule policies_ok_history [OF ok])
    from n(1) q(1,3) have "?n = n' \<and> ?e = po_Environment q" by (rule slash_split)
    with q(2) created(6) show False by simp
  qed
  then show ?thesis
    using created n e by (intro policies_ok_versioned [OF ok, of _ ?n ?e rec]) (simp_all add: policyKey_def)
next
  case (updated now p actor reason rec cur)
  let ?n = "TrimSpace (po_Name p)" and ?e = "po_Environment (policy_norm p)"
  have a: "policy_norm cur = cur" "CHR ''/'' \<notin> set ?n"
    using ok updated(5) unfolding policies_ok_def active_ok_def by blast+
  have "po_Environment (policy_norm cur) = po_Environment (policy_norm p)"
    using updated(6) by (simp add: policy_norm_def)
  then have "po_Environment cur = ?e" using a(1) by simp
  then show ?thesis
    using updated a(2) by (intro policies_ok_versioned [OF ok, of _ ?n ?e rec]) (simp_all add: policyKey_def)
next
  case (rolled_back now name env v actor reason rec)
  let ?k = "policyKey name env"
  let ?r = "hist pv ?k ! nat (v - 1)"
  have r: "?r \<in> set (hist pv ?k)" using rolled_back(3,4) by (intro nth_mem) linarith
  obtain n p where k: "CHR ''/'' \<notin> set n" "active pv n = Some p"
    "?k = n @ ''/'' @ po_Environment p" "TrimSpace (po_Name (vr_Policy ?r)) = n" "TrimSpace (vr_PolicyName ?r) = n"
    "po_Environment (policy_norm (vr_Policy ?r)) = po_Environment p"
    by (rule policies_ok_history [OF ok r])
  have "CHR ''/'' \<notin> set (TrimSpace name)" using tidy rolled_back(1) set_TrimSpace by auto
  from slash_split [OF k(1) this, of "po_Environment p" "TrimSpace env"] k(3)
  have "n = TrimSpace name" by (simp add: policyKey_def)
  then show ?thesis
    using rolled_back k by (intro policies_ok_versioned [OF ok, of _ n "po_Environment p" rec]) simp_all
qed

lemma policies_ok_run:
  "policies_ok pv \<Longrightarrow> list_all tidy_op xs \<Longrightarrow> policies_ok (run (policy_step fmt_g store) pv xs)"
  by (induction xs arbitrary: pv) (simp_all add: policies_ok_step)

definition empty_versioner :: "'w \<Rightarrow> 'w PolicyVersioner" where
  "empty_versioner w = \<lparr>pv_registry = NewRouteRegistry, pv_versions = [], pv_world = w\<rparr>"

lemma policies_ok_empty: "policies_ok (empty_versioner w)"
  by (simp add: policies_ok_def history_ok_def active_ok_def empty_versioner_def NewRouteRegistry_def)


section \<open>The restart\<close>

text \<open>
  Restoring the histories of a well-formed versioner, in any order, gives the policies that
  were active: a name is restored once, from the only history it has.
\<close>

definition restored_by :: "PolicyVersionState \<Rightarrow> string \<Rightarrow> bool" where
  "restored_by l n \<longleftrightarrow> (\<exists>(k, h) \<in> set l. h \<noteq> [] \<and> TrimSpace (vr_PolicyName (last h)) = n)"

lemma restored_by_simps [simp]:
  "restored_by [] n = False"
  "restored_by ((k, h) # l) n \<longleftrightarrow> h \<noteq> [] \<and> TrimSpace (vr_PolicyName (last h)) = n \<or> restored_by l n"
  by (auto simp: restored_by_def)

lemma restore_policy_ok:
  assumes ok: "policies_ok pv" and h: "h = hist pv k"
    and r: "\<And>n. gm_get (rr_policies r) n = None \<or> gm_get (rr_policies r) n = active pv n"
  shows "gm_get (rr_policies (restore_policy r (k, h))) n =
    (if h \<noteq> [] \<and> TrimSpace (vr_PolicyName (last h)) = n then active pv n else gm_get (rr_policies r) n)"
proof (cases "h = []")
  case True
  then show ?thesis by (simp add: restore_policy_def)
next
  case False
  then have mem: "last h \<in> set (hist pv k)" using h by simp
  obtain m p where m: "active pv m = Some p" "TrimSpace (po_Name (vr_Policy (last h))) = m"
    "TrimSpace (vr_PolicyName (last h)) = m"
    using policies_ok_history [OF ok mem] by metis
  have ho: "history_ok pv k" and ao: "active_ok pv m" using ok unfolding policies_ok_def by blast+
  have p: "policy_norm (vr_Policy (last h)) = p"
  proof -
    obtain n' p' where n': "active pv n' = Some p'" "policy_norm (vr_Policy (last h)) = p'"
      "TrimSpace (po_Name (vr_Policy (last h))) = n'"
      using ho False mem unfolding history_ok_def h [symmetric] by blast
    have "n' = m" using n'(3) m(2) by (rule trans [OF sym])
    then show ?thesis using m(1) n'(1,2) by simp
  qed
  have good: "m \<noteq> []" "po_Service p \<noteq> []" using ao m(1) unfolding active_ok_def by blast+
  then have srv: "TrimSpace (po_Service (vr_Policy (last h))) \<noteq> []" using p by (metis policy_norm_simps(2))
  show ?thesis
  proof (cases "gm_get (rr_policies r) m")
    case None
    then have "snd (RegisterPolicy r (vr_Policy (last h))) = nil"
      using RegisterPolicy_nil good srv m(2) by blast
    then show ?thesis
      using False None m p
      by (auto simp: restore_policy_def Let_def GetPolicy_def RegisterPolicy_policies gm_get_put)
  next
    case (Some q)
    then show ?thesis using r [of m] False m by (auto simp: restore_policy_def Let_def GetPolicy_def)
  qed
qed

lemma restore_all:
  assumes "policies_ok pv"
    and "\<And>k h. (k, h) \<in> set l \<Longrightarrow> h = hist pv k"
    and "\<And>n. gm_get (rr_policies r) n = None \<or> gm_get (rr_policies r) n = active pv n"
  shows "gm_get (rr_policies (foldl restore_policy r l)) n =
    (if restored_by l n then active pv n else gm_get (rr_policies r) n)"
  using assms(2,3)
proof (induction l arbitrary: r)
  case (Cons kh l)
  obtain k h where kh: "kh = (k, h)" by fastforce
  have step: "gm_get (rr_policies (restore_policy r (k, h))) n =
      (if h \<noteq> [] \<and> TrimSpace (vr_PolicyName (last h)) = n then active pv n else gm_get (rr_policies r) n)" for n
    using Cons.prems kh by (intro restore_policy_ok [OF assms(1)]) auto
  have "gm_get (rr_policies (foldl restore_policy (restore_policy r (k, h)) l)) n =
      (if restored_by l n then active pv n else gm_get (rr_policies (restore_policy r (k, h))) n)"
    using Cons.prems(2) by (intro Cons.IH Cons.prems(1)) (simp_all add: step)
  then show ?case by (simp add: kh step)
qed simp

lemma restart_policies:
  assumes ok: "policies_ok pv" and it: "is_range it" and load: "ps_Load s w = Inr (pv_versions pv)"
    and fresh: "rr_policies r = []"
  shows "active (NewPolicyVersioner it r (Some s) w) n = active pv n"
proof -
  have gm: "gm_ok (pv_versions pv)" using ok unfolding policies_ok_def by blast
  have mem: "h = hist pv k" if "(k, h) \<in> set (it (pv_versions pv))" for k h
    using that gm by (simp add: is_range_set [OF it] gm_mem_iff gm_getd_def)
  have "restored_by (it (pv_versions pv)) n" if p: "active pv n = Some p" for p
  proof -
    let ?k = "n @ ''/'' @ po_Environment p"
    have "hist pv ?k \<noteq> []" using ok p unfolding policies_ok_def active_ok_def by blast
    then have last: "last (hist pv ?k) \<in> set (hist pv ?k)" and entry: "(?k, hist pv ?k) \<in> set (pv_versions pv)"
      using gm by (auto simp: gm_mem_iff gm_getd_def split: option.splits)
    obtain n' q where q: "CHR ''/'' \<notin> set n'" "active pv n' = Some q" "?k = n' @ ''/'' @ po_Environment q"
      "TrimSpace (po_Name (vr_Policy (last (hist pv ?k)))) = n'"
      "TrimSpace (vr_PolicyName (last (hist pv ?k))) = n'"
      "po_Environment (policy_norm (vr_Policy (last (hist pv ?k)))) = po_Environment q"
      by (rule policies_ok_history [OF ok last])
    have "CHR ''/'' \<notin> set n" using ok p unfolding policies_ok_def active_ok_def by blast
    from slash_split [OF this q(1,3)] q(5) have "TrimSpace (vr_PolicyName (last (hist pv ?k))) = n" by simp
    with entry \<open>hist pv ?k \<noteq> []\<close> show ?thesis
      unfolding restored_by_def is_range_set [OF it] by blast
  qed
  then show ?thesis
    using restore_all [of pv "it (pv_versions pv)" r n, OF ok mem] load fresh
    by (cases "active pv n") (auto simp: NewPolicyVersioner_def)
qed

section \<open>Saving\<close>

abbreviation file_store :: "string \<Rightarrow> PolicyVersionState disk PolicyVersionStore option" where
  "file_store path \<equiv> Some \<lparr>ps_Save = filePolicy_Save path, ps_Load = filePolicy_Load path\<rparr>"

lemma append_record_saved:
  "readable path (pv_world pv) \<Longrightarrow> readable path (pv_world (fst (append_record (file_store path) pv k rec)))"
  "readable path (pv_world pv) \<Longrightarrow> snd (append_record (file_store path) pv k rec) = nil \<Longrightarrow>
     filePolicy_Load path (pv_world (fst (append_record (file_store path) pv k rec)))
       = Inr (pv_versions (fst (append_record (file_store path) pv k rec)))"
  by (auto simp: append_record_def persistLocked_def split: prod.split
      dest: filePolicy.usable_save [where st = "gm_put k (gm_getd [] (pv_versions pv) k @ [rec]) (pv_versions pv)"]
        filePolicy.load_save [where st = "gm_put k (gm_getd [] (pv_versions pv) k @ [rec]) (pv_versions pv)"])

text \<open>An operation either fails before it touches anything or ends in \<open>append_record\<close>.\<close>

lemma policy_exec_appends:
  obtains (failed) e where "policy_exec fmt_g store pv x = (pv, Some e)"
  | (appended) pv0 k rec where "policy_exec fmt_g store pv x = append_record store pv0 k rec"
      "pv_world pv0 = pv_world pv"
proof -
  have "(\<exists>e. policy_exec fmt_g store pv x = (pv, Some e)) \<or>
    (\<exists>pv0 k rec. policy_exec fmt_g store pv x = append_record store pv0 k rec \<and> pv_world pv0 = pv_world pv)"
  proof (cases x)
    case (PCreate now p actor reason)
    show ?thesis
      unfolding PCreate policy_exec.simps policy_Create_def
      by (simp split: prod.split option.split, intro impI allI conjI)
        (rule disjI2, intro exI conjI, rule refl, simp)+
  next
    case (PUpdate now p actor reason)
    show ?thesis
      unfolding PUpdate policy_exec.simps policy_Update_def Let_def
      by (simp split: prod.split option.split, intro impI allI conjI)
        (rule disjI2, intro exI conjI, rule refl, simp)+
  next
    case (PRollback now name env v actor reason)
    show ?thesis
      unfolding PRollback policy_exec.simps policy_Rollback_def Let_def
      by (simp split: prod.split option.split, intro impI allI conjI)
        (rule disjI2, intro exI conjI, rule refl, simp)+
  qed
  then show ?thesis using failed appended by blast
qed

lemma policy_step_readable:
  assumes "readable path (pv_world pv)"
  shows "readable path (pv_world (policy_step fmt_g (file_store path) pv x))"
  using assms unfolding policy_step_def
  by (cases rule: policy_exec_appends [of fmt_g "file_store path" pv x])
    (simp_all add: append_record_saved)

lemma policy_run_readable:
  "readable path (pv_world pv) \<Longrightarrow> readable path (pv_world (run (policy_step fmt_g (file_store path)) pv xs))"
  by (induction xs arbitrary: pv) (simp_all add: policy_step_readable)

lemma policy_saved:
  assumes "readable path (pv_world pv)" "snd (policy_exec fmt_g (file_store path) pv x) = nil"
  shows "filePolicy_Load path (pv_world (policy_step fmt_g (file_store path) pv x))
    = Inr (pv_versions (policy_step fmt_g (file_store path) pv x))"
  using assms unfolding policy_step_def
  by (cases rule: policy_exec_appends [of fmt_g "file_store path" pv x])
    (simp_all add: append_record_saved)


section \<open>Properties\<close>

definition demo_policy_at :: "string \<Rightarrow> RoutePolicy" where
  "demo_policy_at service =
     \<lparr>po_Name = ''api'', po_Environment = ''prod'', po_Service = service, po_AllowedTenants = [],
      po_AllowedRegions = [], po_RequireSignedArtifacts = True, po_RequireAudit = True,
      po_SLO = None\<rparr>"

definition demo_ops :: "policy_op list" where
  "demo_ops = [PCreate 1 (demo_policy_at ''users'') ''ana'' ''first'',
               PUpdate 2 (demo_policy_at ''orders'') ''bo'' ''move'',
               PRollback 3 ''api'' ''prod'' 1 ''ana'' ''undo'']"

definition demo_disk :: "PolicyVersionState disk" where
  "demo_disk = sound_disk []"

text \<open>
  After any sequence of creates, updates and rollbacks over any store, starting empty, the
  history of a policy is numbered 1, 2, 3, ... and the policy in force under its name is the one
  of the last version, in the normal form of \<open>RegisterPolicy\<close>. (Names without a slash, and
  policies created with an environment that is not blank; the two findings show both are needed.)
\<close>

theorem policy_history_numbered:
  assumes "list_all tidy_op xs" "CHR ''/'' \<notin> set name"
    and "policy_History (run (policy_step fmt_g store) (empty_versioner w) xs) name env = Inr h"
  shows "h \<noteq> [] \<and> (\<forall>i < length h. vr_Version (h ! i) = int i + 1)
    \<and> GetPolicy (pv_registry (run (policy_step fmt_g store) (empty_versioner w) xs)) name
        = Some (policy_norm (vr_Policy (last h)))"
proof -
  let ?pv = "run (policy_step fmt_g store) (empty_versioner w) xs" and ?k = "policyKey name env"
  have h: "h = hist ?pv ?k" "h \<noteq> []" using assms(3) by (auto simp: policy_History_def Let_def split: if_splits)
  have "policies_ok ?pv" using policies_ok_run [OF policies_ok_empty assms(1)] .
  then have ho: "history_ok ?pv ?k" unfolding policies_ok_def by blast
  then obtain n p where n: "CHR ''/'' \<notin> set n" "active ?pv n = Some p" "?k = n @ ''/'' @ po_Environment p"
    "policy_norm (vr_Policy (last h)) = p"
    using h unfolding history_ok_def by blast
  have "CHR ''/'' \<notin> set (TrimSpace name)" using assms(2) set_TrimSpace by blast
  from slash_split [OF n(1) this, of "po_Environment p" "TrimSpace env"] n(3)
  have "n = TrimSpace name" by (simp add: policyKey_def)
  then show ?thesis using ho h n unfolding history_ok_def by (simp add: GetPolicy_def)
qed

lemma policy_history_numbered_witness:
  "length (hist (run (policy_step (\<lambda>_. ''0'') (file_store ''p'')) (empty_versioner demo_disk) demo_ops) ''api/prod'') = 3
   \<and> GetPolicy (pv_registry (run (policy_step (\<lambda>_. ''0'') (file_store ''p'')) (empty_versioner demo_disk) demo_ops)) ''api''
       = Some (policy_norm (demo_policy_at ''users''))"
proof -
  let ?pv = "run (policy_step (\<lambda>_. ''0'') (file_store ''p'')) (empty_versioner demo_disk) demo_ops"
  have tidy: "list_all tidy_op demo_ops" "CHR ''/'' \<notin> set ''api''" by code_simp+
  have len: "length (hist ?pv ''api/prod'') = 3" "vr_Policy (last (hist ?pv ''api/prod'')) = demo_policy_at ''users''"
    by code_simp+
  have "policyKey ''api'' ''prod'' = ''api/prod''" by code_simp
  then have "policy_History ?pv ''api'' ''prod'' = Inr (hist ?pv ''api/prod'')"
    unfolding policy_History_def Let_def using len(1) by (simp only:) simp
  from policy_history_numbered [OF tidy this] len show ?thesis by simp
qed

text \<open>History is never rewritten: whatever operations follow, an entry of a policy's history stays
  where it is and unchanged.
\<close>

theorem policy_history_append_only:
  assumes "i < length (hist pv k)"
  shows "i < length (hist (run (policy_step fmt_g store) pv xs) k)
    \<and> hist (run (policy_step fmt_g store) pv xs) k ! i = hist pv k ! i"
  using assms by (rule policies.entry_stable)

lemma policy_history_append_only_witness:
  "hist (run (policy_step (\<lambda>_. ''0'') None) (run (policy_step (\<lambda>_. ''0'') None) (empty_versioner ()) (take 1 demo_ops))
     (drop 1 demo_ops)) ''api/prod'' ! 0
   = hist (run (policy_step (\<lambda>_. ''0'') None) (empty_versioner ()) (take 1 demo_ops)) ''api/prod'' ! 0"
proof -
  have "0 < length (hist (run (policy_step (\<lambda>_. ''0'') None) (empty_versioner ()) (take 1 demo_ops)) ''api/prod'')"
    by code_simp
  from policy_history_append_only [OF this] show ?thesis by blast
qed

text \<open>C6. A rollback to version \<open>v\<close> that succeeds appends one version, numbered after the last, that
  holds the policy of version \<open>v\<close>, and puts that policy back in force; the older versions stay.
\<close>

theorem policy_rollback_restores:
  assumes "policy_Rollback fmt_g store now pv name env v actor reason = (pv', nil)"
  shows "\<exists>rec. hist pv' (policyKey name env) = hist pv (policyKey name env) @ [rec]
      \<and> vr_Version rec = int (length (hist pv (policyKey name env))) + 1
      \<and> vr_Policy rec = vr_Policy (hist pv (policyKey name env) ! nat (v - 1))
      \<and> GetPolicy (pv_registry pv') (po_Name (vr_Policy rec)) = Some (policy_norm (vr_Policy rec))"
proof -
  let ?x = "PRollback now name env v actor reason"
  have x: "policy_step fmt_g store pv ?x = pv'" "snd (policy_exec fmt_g store pv ?x) = nil"
    using assms by (simp_all add: policy_step_def)
  show ?thesis
  proof (cases rule: policy_step_cases [where pv = pv and x = ?x and fmt_g = fmt_g and store = store])
    case (rolled_back now' name' env' v' actor' reason' rec)
    then show ?thesis
      using versioned_hist [OF rolled_back(2)] versioned_active [OF rolled_back(2)] x(1)
      by (intro exI [of _ rec]) (simp add: GetPolicy_def)
  qed (use x in simp_all)
qed

lemma policy_rollback_restores_witness:
  "\<exists>rec. hist (run (policy_step (\<lambda>_. ''0'') None) (empty_versioner ()) demo_ops) ''api/prod''
      = hist (run (policy_step (\<lambda>_. ''0'') None) (empty_versioner ()) (take 2 demo_ops)) ''api/prod'' @ [rec]
    \<and> vr_Policy rec = demo_policy_at ''users''"
proof -
  let ?pv = "run (policy_step (\<lambda>_. ''0'') None) (empty_versioner ()) (take 2 demo_ops)"
  let ?pv' = "run (policy_step (\<lambda>_. ''0'') None) (empty_versioner ()) demo_ops"
  have "policy_Rollback (\<lambda>_. ''0'') None 3 ?pv ''api'' ''prod'' 1 ''ana'' ''undo'' = (?pv', nil)"
    by code_simp
  from policy_rollback_restores [OF this]
  have "\<exists>rec. hist ?pv' (policyKey ''api'' ''prod'') = hist ?pv (policyKey ''api'' ''prod'') @ [rec]
      \<and> vr_Policy rec = vr_Policy (hist ?pv (policyKey ''api'' ''prod'') ! nat (1 - 1))" by blast
  moreover have "policyKey ''api'' ''prod'' = ''api/prod''" by code_simp
  moreover have "vr_Policy (hist ?pv ''api/prod'' ! 0) = demo_policy_at ''users''" by code_simp
  ultimately show ?thesis by simp
qed




definition slash_ops :: "policy_op list" where
  "slash_ops =
     [PCreate 1 (demo_policy_at ''s1''\<lparr>po_Name := ''a/b'', po_Environment := ''c''\<rparr>) ''ana'' [],
      PCreate 2 (demo_policy_at ''s2''\<lparr>po_Name := ''a'', po_Environment := ''b/c''\<rparr>) ''ana'' []]"

text \<open>The history key joins name and environment with a slash, and names may hold one: two
  policies whose keys coincide share one history, which then has two versions numbered 1, and
  rolling one of them back changes the other.
\<close>

theorem policy_key_collision:
  "let pv = run (policy_step fmt_g None) (empty_versioner ()) slash_ops in
   map vr_Version (hist pv (policyKey ''a/b'' ''c'')) = [1, 1]
   \<and> snd (policy_Rollback fmt_g None now pv ''a/b'' ''c'' 2 ''ana'' reason) = nil
   \<and> GetPolicy (pv_registry (fst (policy_Rollback fmt_g None now pv ''a/b'' ''c'' 2 ''ana'' reason))) ''a/b'' =
        Some (policy_norm (demo_policy_at ''s1''\<lparr>po_Name := ''a/b'', po_Environment := ''c''\<rparr>))"
proof -
  let ?pv = "run (policy_step fmt_g None) (empty_versioner ()) slash_ops"
  let ?p2 = "demo_policy_at ''s2''\<lparr>po_Name := ''a'', po_Environment := ''b/c''\<rparr>"
  have h: "map vr_Version (hist ?pv (policyKey ''a/b'' ''c'')) = [1, 1]"
    "vr_Policy (hist ?pv (policyKey ''a/b'' ''c'') ! 1) = ?p2"
    "GetPolicy (pv_registry ?pv) ''a/b'' = Some (policy_norm (demo_policy_at ''s1''\<lparr>po_Name := ''a/b'', po_Environment := ''c''\<rparr>))"
    "snd (replacePolicy (pv_registry ?pv) ?p2) = nil" "TrimSpace (po_Name ?p2) = ''a''"
    by code_simp+
  have len: "length (hist ?pv (policyKey ''a/b'' ''c'')) = 2" using arg_cong [OF h(1), of length] by simp
  then have ne: "hist ?pv (policyKey ''a/b'' ''c'') \<noteq> []" by (metis list.size(3) zero_neq_numeral)
  obtain r where r: "replacePolicy (pv_registry ?pv) ?p2 = (r, nil)" using h(4) by (cases "replacePolicy (pv_registry ?pv) ?p2") simp
  have "TrimSpace ''a/b'' = ''a/b''" by code_simp
  then have get: "GetPolicy r ''a/b'' = GetPolicy (pv_registry ?pv) ''a/b''"
    using replacePolicy_policies [OF h(4)] r h(5) by (simp add: GetPolicy_def gm_get_put)
  have "TrimSpace ''ana'' = ''ana''" by code_simp
  then have "snd (policy_Rollback fmt_g None now ?pv ''a/b'' ''c'' 2 ''ana'' reason) = nil
     \<and> pv_registry (fst (policy_Rollback fmt_g None now ?pv ''a/b'' ''c'' 2 ''ana'' reason)) = r"
    using len ne h(2) r
    by (simp add: policy_Rollback_def Let_def append_record_def persistLocked_def)
  with h get show ?thesis unfolding Let_def by simp
qed

definition blank_env_ops :: "policy_op list" where
  "blank_env_ops =
     [PCreate 1 (demo_policy_at ''users''\<lparr>po_Environment := []\<rparr>) ''ana'' [],
      PUpdate 2 (demo_policy_at ''orders'') ''ana'' []]"

text \<open>
  \<open>Create\<close> files a policy with a blank environment under the key \<open>name/\<close> although it becomes
  a \<open>prod\<close> policy; an \<open>Update\<close> of it (which must name \<open>prod\<close>) starts a second history at version
  1. After a restart the policy in force depends on the order of ranging over a map: it may be
  the one the update replaced.
\<close>

theorem policy_blank_environment_splits_history:
  "let pv = run (policy_step (\<lambda>_. ''0'') (file_store ''p'')) (empty_versioner demo_disk) blank_env_ops;
       restarted = (\<lambda>it. map_option po_Service (GetPolicy (pv_registry
         (NewPolicyVersioner it NewRouteRegistry (file_store ''p'') (pv_world pv))) ''api'')) in
   map vr_Version (hist pv (policyKey ''api'' [])) = [1]
   \<and> map vr_Version (hist pv (policyKey ''api'' ''prod'')) = [1]
   \<and> map_option po_Service (GetPolicy (pv_registry pv) ''api'') = Some ''orders''
   \<and> restarted (\<lambda>m. m) = Some ''users'' \<and> restarted rev = Some ''orders''"
  by code_simp

section \<open>The text of a diff\<close>

lemma Join_hd: "xs \<noteq> [] \<Longrightarrow> \<forall>x \<in> set xs. x \<noteq> [] \<and> hd x \<noteq> c \<Longrightarrow> Join xs sep \<noteq> [] \<and> hd (Join xs sep) \<noteq> c"
  by (cases "(xs, sep)" rule: Join.cases) auto

lemma change_entry_hd:
  "x \<in> set (change_entry (c # field) b d) \<Longrightarrow> x \<noteq> [] \<and> hd x = c"
  by (auto simp: change_entry_def)

lemma policy_changes_hd: "x \<in> set (policy_changes fmt_g p q) \<Longrightarrow> x \<noteq> [] \<and> hd x \<noteq> CHR ''n''"
  unfolding policy_changes_def set_append Un_iff
  by (elim disjE) (auto dest!: change_entry_hd split: option.splits)

lemma policy_changes_Nil:
  "policy_changes fmt_g p q = [] \<longleftrightarrow>
     po_Service p = po_Service q \<and> mset (po_AllowedTenants p) = mset (po_AllowedTenants q)
     \<and> mset (po_AllowedRegions p) = mset (po_AllowedRegions q)
     \<and> po_RequireSignedArtifacts p = po_RequireSignedArtifacts q \<and> po_RequireAudit p = po_RequireAudit q
     \<and> po_SLO p = po_SLO q"
  by (simp add: policy_changes_def change_entry_def equalStringSlices_iff split: option.split)

text \<open>
  A diff reads "no changes" exactly when service, flags and SLO are the same and the
  allowlists are equal as multisets (\<open>equalStringSlices\<close> sorts copies of both).
\<close>

theorem diffPolicies_no_changes_iff:
  "diffPolicies fmt_g p q = ''no changes'' \<longleftrightarrow>
     po_Service p = po_Service q \<and> mset (po_AllowedTenants p) = mset (po_AllowedTenants q)
     \<and> mset (po_AllowedRegions p) = mset (po_AllowedRegions q)
     \<and> po_RequireSignedArtifacts p = po_RequireSignedArtifacts q \<and> po_RequireAudit p = po_RequireAudit q
     \<and> po_SLO p = po_SLO q"
proof -
  have "diffPolicies fmt_g p q = ''no changes'' \<longleftrightarrow> policy_changes fmt_g p q = []"
  proof (cases "policy_changes fmt_g p q = []")
    case False
    let ?s = "sort (policy_changes fmt_g p q)"
    have "?s \<noteq> []" using False by (metis length_0_conv length_sort)
    moreover have "\<forall>x \<in> set ?s. x \<noteq> [] \<and> hd x \<noteq> CHR ''n''" by (simp add: policy_changes_hd)
    ultimately have "hd (Join ?s ''; '') \<noteq> CHR ''n''" using Join_hd by blast
    then have "Join ?s ''; '' \<noteq> ''no changes''" by auto
    with False show ?thesis by (simp add: diffPolicies_def Let_def)
  qed (simp add: diffPolicies_def)
  then show ?thesis by (simp only: policy_changes_Nil)
qed

end
