(* ===== verification/Control_Plane.thy ===== *)
theory Control_Plane
  imports Governance Policy_Versions
begin

text \<open>
  The control plane API (\<open>pkg/runtime/controlplane.go\<close>): the server state, authentication, the
  routing table, every handler, persistence and reload.

  The versioner owns the route registry here, as the two share it in the code. The stores of the
  ledger and of the policies live in two worlds \<open>'w\<close> and \<open>'p\<close> (two files). What a handler takes
  from outside is the record \<open>api_env\<close>: the clock, the random draw, the iteration orders of the
  maps, \<open>url.Parse\<close>, \<open>%g\<close>, and \<open>json.Decode\<close> of a request body (at most 1 MiB of it) into each
  request type, \<open>None\<close> for a decoding error. A reply is its status code and JSON value; a
  handler that panics is \<open>Aborted\<close> (\<open>net/http\<close> recovers it and drops the connection).
\<close>

section \<open>Requests, replies and the environment of a handler\<close>

record Request =
  rq_Method :: string
  rq_EscapedPath :: string
  rq_Path :: string
  rq_Authorization :: string
  rq_Body :: string

record release_item =
  ri_workflow :: string
  ri_service :: string
  ri_environment :: string
  ri_version :: string
  ri_state :: string

datatype json_value =
    JStr string | JInt int | JBool bool
  | JUpstreams "UpstreamConfig list" | JRoutes "RouteConfig list" | JPolicies "RoutePolicy list"
  | JVersions "PolicyVersionRecord list" | JManifests "DeploymentManifest list"
  | JCurrent "DeploymentManifest gomap2" | JReleases "release_item list"
  | JHeaders "(string, string) gomap"

datatype reply_body =
    Fields "(string \<times> json_value) list"
  | PolicyBody RoutePolicy
  | ManifestBody DeploymentManifest

datatype outcome = Reply nat reply_body | Redirect string | NotFoundPage | Aborted string

record policyRequest =
  pr_RoutePolicy :: RoutePolicy
  pr_Actor :: string
  pr_Reason :: string

record policyRollbackRequest =
  pb_Version :: int
  pb_Actor :: string
  pb_Reason :: string

record deploymentRequest =
  dr_Service :: string
  dr_Environment :: string
  dr_Version :: string
  dr_Audit :: "string list"

record releaseRequest =
  re_Service :: string
  re_Environment :: string
  re_Version :: string

record actorRequest =
  ac_Actor :: string
  ac_Reason :: string

record api_env =
  env_now :: int
  env_draw :: "int \<Rightarrow> int"
  env_urlOK :: "string \<Rightarrow> bool"
  env_fmt_g :: "rat \<Rightarrow> string"
  it_upstreams :: "(string, UpstreamConfig) gomap \<Rightarrow> (string, UpstreamConfig) gomap"
  it_routes :: "(string, RouteConfig) gomap \<Rightarrow> (string, RouteConfig) gomap"
  it_policies :: "(string, RoutePolicy) gomap \<Rightarrow> (string, RoutePolicy) gomap"
  it_histories :: "PolicyVersionState \<Rightarrow> PolicyVersionState"
  it_releases :: "(string, ReleaseWorkflow) gomap \<Rightarrow> (string, ReleaseWorkflow) gomap"
  dec_upstream :: "string \<Rightarrow> UpstreamConfig option"
  dec_route :: "string \<Rightarrow> RouteConfig option"
  dec_policy :: "string \<Rightarrow> policyRequest option"
  dec_rollback :: "string \<Rightarrow> policyRollbackRequest option"
  dec_deployment :: "string \<Rightarrow> deploymentRequest option"
  dec_release :: "string \<Rightarrow> releaseRequest option"
  dec_actor :: "string \<Rightarrow> actorRequest option"

section \<open>The server\<close>

record ControlPlaneConfig =
  cc_StorePath :: string
  cc_AdminToken :: string
  cc_ApprovalRequirement :: int

record 'w DeploymentStore =
  ds_Save :: "'w \<Rightarrow> DeploymentLedgerState \<Rightarrow> 'w \<times> error"
  ds_Load :: "'w \<Rightarrow> string + DeploymentLedgerState"

record ('p, 'w) ControlPlaneServer =
  cp_policyVersions :: "'p PolicyVersioner"
  cp_policyStore :: "'p PolicyVersionStore option"
  cp_ledger :: DeploymentLedger
  cp_store :: "'w DeploymentStore option"
  cp_world :: 'w
  cp_workflows :: "(string, ReleaseWorkflow) gomap"
  cp_workflowGates :: "(string, int) gomap"
  cp_config :: ControlPlaneConfig

abbreviation cp_registry :: "('p, 'w) ControlPlaneServer \<Rightarrow> RouteRegistry" where
  "cp_registry cp \<equiv> pv_registry (cp_policyVersions cp)"

definition set_registry :: "('p, 'w) ControlPlaneServer \<Rightarrow> RouteRegistry \<Rightarrow> ('p, 'w) ControlPlaneServer" where
  "set_registry cp r = cp\<lparr>cp_policyVersions := (cp_policyVersions cp)\<lparr>pv_registry := r\<rparr>\<rparr>"

definition NewControlPlaneServerWithStores ::
  "(PolicyVersionState \<Rightarrow> PolicyVersionState) \<Rightarrow> ControlPlaneConfig \<Rightarrow> 'w DeploymentStore option \<Rightarrow> 'w
   \<Rightarrow> 'p PolicyVersionStore option \<Rightarrow> 'p \<Rightarrow> ('p, 'w) ControlPlaneServer" where
  "NewControlPlaneServerWithStores it cfg deploymentStore w policyStore p =
     \<lparr>cp_policyVersions = NewPolicyVersioner it NewRouteRegistry policyStore p,
      cp_policyStore = policyStore,
      cp_ledger = (case deploymentStore of
          None \<Rightarrow> NewDeploymentLedger
        | Some s \<Rightarrow> fst (ledger_LoadFrom (Some (ds_Load s)) w NewDeploymentLedger)),
      cp_store = deploymentStore, cp_world = w, cp_workflows = [], cp_workflowGates = [],
      cp_config = cfg\<rparr>"

definition file_deployment_store :: "string \<Rightarrow> DeploymentLedgerState disk DeploymentStore" where
  "file_deployment_store path = \<lparr>ds_Save = fileDeployment_Save path, ds_Load = fileDeployment_Load path\<rparr>"

definition policyStorePath :: "string \<Rightarrow> string" where
  "policyStorePath storePath = TrimSuffix storePath ''.json'' @ ''-policies.json''"

definition NewControlPlaneServer ::
  "(PolicyVersionState \<Rightarrow> PolicyVersionState) \<Rightarrow> ControlPlaneConfig \<Rightarrow> DeploymentLedgerState disk
   \<Rightarrow> PolicyVersionState disk \<Rightarrow> (PolicyVersionState disk, DeploymentLedgerState disk) ControlPlaneServer" where
  "NewControlPlaneServer it cfg w p =
     (if cc_StorePath cfg \<noteq> [] then
        NewControlPlaneServerWithStores it cfg (Some (file_deployment_store (cc_StorePath cfg))) w
          (file_store (policyStorePath (cc_StorePath cfg))) p
      else NewControlPlaneServerWithStores it cfg None w None p)"

definition Reload :: "('p, 'w) ControlPlaneServer \<Rightarrow> ('p, 'w) ControlPlaneServer \<times> error" where
  "Reload cp =
     (case cp_store cp of
        None \<Rightarrow> (cp, errorf ''control plane has no store configured'')
      | Some s \<Rightarrow>
          (let (l, err) = ledger_LoadFrom (Some (ds_Load s)) (cp_world cp) (cp_ledger cp)
           in (cp\<lparr>cp_ledger := l\<rparr>, err)))"

text \<open>\<open>Close\<close>, given what closing the two stores reports.\<close>

definition cp_Close ::
  "error \<Rightarrow> error \<Rightarrow> ('p, 'w) ControlPlaneServer \<Rightarrow> ('p, 'w) ControlPlaneServer \<times> error" where
  "cp_Close storeErr policyErr cp =
     (cp\<lparr>cp_store := None\<rparr>,
      case (if cp_store cp = None then nil else storeErr) of
        Some e \<Rightarrow> Some e
      | None \<Rightarrow> (if cp_policyStore cp = None then nil else policyErr))"

definition workflowKey :: "string \<Rightarrow> string \<Rightarrow> string \<Rightarrow> string" where
  "workflowKey service environment version = service @ ''/'' @ environment @ ''/'' @ version"

definition workflowGateKey :: "string \<Rightarrow> string \<Rightarrow> string" where
  "workflowGateKey service environment = TrimSpace service @ ''/'' @ TrimSpace environment"

definition SetWorkflowGate ::
  "('p, 'w) ControlPlaneServer \<Rightarrow> string \<Rightarrow> string \<Rightarrow> int \<Rightarrow> ('p, 'w) ControlPlaneServer" where
  "SetWorkflowGate cp service environment required =
     (let service = TrimSpace service; environment = TrimSpace environment in
      if service = [] \<or> environment = [] then cp
      else cp\<lparr>cp_workflowGates :=
          gm_put (workflowGateKey service environment) (if required \<le> 0 then 1 else required)
            (cp_workflowGates cp)\<rparr>)"

definition cp_workflow ::
  "('p, 'w) ControlPlaneServer \<Rightarrow> string \<Rightarrow> string \<Rightarrow> string \<Rightarrow> ReleaseWorkflow option" where
  "cp_workflow cp service environment version =
     gm_get (cp_workflows cp) (workflowKey service environment version)"

definition cp_persist :: "('p, 'w) ControlPlaneServer \<Rightarrow> ('p, 'w) ControlPlaneServer \<times> error" where
  "cp_persist cp =
     (case cp_store cp of
        None \<Rightarrow> (cp, nil)
      | Some s \<Rightarrow>
          (case ledger_Persist (Some (ds_Save s)) (cp_world cp) (cp_ledger cp) of
             (w, None) \<Rightarrow> (cp\<lparr>cp_world := w\<rparr>, nil)
           | (w, Some err) \<Rightarrow> (cp\<lparr>cp_world := w\<rparr>, errorf (''persist deployment ledger: '' @ err))))"

section \<open>Replies\<close>

definition writeError :: "nat \<Rightarrow> string \<Rightarrow> outcome" where
  "writeError code msg = Reply code (Fields [(''error'', JStr msg)])"

definition malformed :: outcome where
  "malformed = writeError 400 ''malformed json body''"

text \<open>The class of an error is read off its message.\<close>

definition writeConflictOrInvalid :: "string \<Rightarrow> outcome" where
  "writeConflictOrInvalid msg =
     (if Contains msg ''already exists'' then writeError 409 msg else writeError 422 msg)"

section \<open>Handlers\<close>

type_synonym ('p, 'w) apiHandler =
  "api_env \<Rightarrow> ('p, 'w) ControlPlaneServer \<Rightarrow> Request \<Rightarrow> string list \<Rightarrow> ('p, 'w) ControlPlaneServer \<times> outcome"

definition listUpstreams :: "('p, 'w) apiHandler" where
  "listUpstreams env cp rq parts =
     (cp, Reply 200 (Fields [(''items'', JUpstreams (ListUpstreams (it_upstreams env) (cp_registry cp)))]))"

definition createUpstream :: "('p, 'w) apiHandler" where
  "createUpstream env cp rq parts =
     (case dec_upstream env (rq_Body rq) of
        None \<Rightarrow> (cp, malformed)
      | Some body \<Rightarrow>
          (case RegisterUpstream (env_urlOK env) (cp_registry cp) body of
             (r, Some err) \<Rightarrow> (set_registry cp r, writeConflictOrInvalid err)
           | (r, None) \<Rightarrow>
               (set_registry cp r,
                Reply 201 (Fields [(''status'', JStr ''created''), (''name'', JStr (up_Name body))]))))"

definition listRoutes :: "('p, 'w) apiHandler" where
  "listRoutes env cp rq parts =
     (cp, Reply 200 (Fields [(''items'', JRoutes (registry_List (it_routes env) (cp_registry cp)))]))"

definition createRoute :: "('p, 'w) apiHandler" where
  "createRoute env cp rq parts =
     (case dec_route env (rq_Body rq) of
        None \<Rightarrow> (cp, malformed)
      | Some body \<Rightarrow>
          (case Register (cp_registry cp) body of
             (r, Some err) \<Rightarrow> (set_registry cp r, writeConflictOrInvalid err)
           | (r, None) \<Rightarrow>
               (set_registry cp r,
                Reply 201 (Fields [(''status'', JStr ''created''), (''name'', JStr (rc_Name body))]))))"

definition resolveRoute :: "('p, 'w) apiHandler" where
  "resolveRoute env cp rq parts =
     (let name = parts ! 0 in
      case ResolveRouteTarget (it_upstreams env) (env_draw env) (cp_registry cp) name of
        Inl panic \<Rightarrow> (cp, Aborted panic)
      | Inr None \<Rightarrow> (cp, writeError 404 (''route '' @ Quote name @ '' not found or no healthy upstream''))
      | Inr (Some target) \<Rightarrow>
          (let resp = [(''route'', JStr name), (''target'', JStr target)];
               headers = RouteHeaders (cp_registry cp) name in
           (cp, Reply 200 (Fields
              (if length headers > 0 then resp @ [(''headers'', JHeaders headers)] else resp)))))"

definition listPolicies :: "('p, 'w) apiHandler" where
  "listPolicies env cp rq parts =
     (cp, Reply 200 (Fields [(''items'', JPolicies (ListPolicies (it_policies env) (cp_registry cp)))]))"

definition createPolicy :: "('p, 'w) apiHandler" where
  "createPolicy env cp rq parts =
     (case dec_policy env (rq_Body rq) of
        None \<Rightarrow> (cp, malformed)
      | Some body \<Rightarrow>
          (case policy_Create (cp_policyStore cp) (env_now env) (cp_policyVersions cp)
                  (pr_RoutePolicy body) (pr_Actor body) (pr_Reason body) of
             (pv, Some err) \<Rightarrow> (cp\<lparr>cp_policyVersions := pv\<rparr>, writeConflictOrInvalid err)
           | (pv, None) \<Rightarrow>
               (cp\<lparr>cp_policyVersions := pv\<rparr>,
                Reply 201 (Fields [(''status'', JStr ''created''),
                  (''name'', JStr (po_Name (pr_RoutePolicy body))), (''version'', JInt 1)]))))"

definition getPolicy :: "('p, 'w) apiHandler" where
  "getPolicy env cp rq parts =
     (let name = parts ! 0 in
      case GetPolicy (cp_registry cp) name of
        None \<Rightarrow> (cp, writeError 404 (''policy '' @ Quote name @ '' not found''))
      | Some policy \<Rightarrow> (cp, Reply 200 (PolicyBody policy)))"

definition updatePolicy :: "('p, 'w) apiHandler" where
  "updatePolicy env cp rq parts =
     (let name = parts ! 0 in
      case dec_policy env (rq_Body rq) of
        None \<Rightarrow> (cp, malformed)
      | Some body \<Rightarrow>
          (let policy = (pr_RoutePolicy body)\<lparr>po_Name := name\<rparr> in
           case policy_Update (env_fmt_g env) (cp_policyStore cp) (env_now env) (cp_policyVersions cp)
                  policy (pr_Actor body) (pr_Reason body) of
             (pv, Some err) \<Rightarrow>
               (cp\<lparr>cp_policyVersions := pv\<rparr>,
                if Contains err ''not found'' then writeError 404 err else writeConflictOrInvalid err)
           | (pv, None) \<Rightarrow>
               (let version = (case policy_History pv name (po_Environment policy) of
                      Inl _ \<Rightarrow> 0
                    | Inr history \<Rightarrow> if length history > 0 then vr_Version (last history) else 0) in
                (cp\<lparr>cp_policyVersions := pv\<rparr>,
                 Reply 200 (Fields [(''status'', JStr ''updated''), (''name'', JStr name),
                   (''version'', JInt version)])))))"

text \<open>\<open>strings.SplitN(key, "/", 2)[0] == strings.TrimSpace(name)\<close>\<close>

definition key_of_name :: "string \<Rightarrow> string \<Rightarrow> bool" where
  "key_of_name name key \<longleftrightarrow> SplitN2 key CHR ''/'' ! 0 = TrimSpace name"

definition policyHistory :: "('p, 'w) apiHandler" where
  "policyHistory env cp rq parts =
     (let name = parts ! 0;
          items = concat (map snd (filter (\<lambda>kv. key_of_name name (fst kv))
            (it_histories env (pv_versions (cp_policyVersions cp))))) in
      if length items = 0 then (cp, writeError 404 (''policy '' @ Quote name @ '' has no version history''))
      else (cp, Reply 200 (Fields [(''items'', JVersions items)])))"

text \<open>The history \<open>rollbackPolicy\<close> takes the environment from: the one without environment, else any.\<close>

definition rollback_history :: "api_env \<Rightarrow> 'p PolicyVersioner \<Rightarrow> string \<Rightarrow> PolicyVersionRecord list" where
  "rollback_history env pv name =
     (case policy_History pv name [] of
        Inr h \<Rightarrow> h
      | Inl _ \<Rightarrow>
          (case find (\<lambda>kv. key_of_name name (fst kv) \<and> length (snd kv) > 0) (it_histories env (pv_versions pv)) of
             None \<Rightarrow> []
           | Some (_, versions) \<Rightarrow> versions))"

definition rollbackPolicy :: "('p, 'w) apiHandler" where
  "rollbackPolicy env cp rq parts =
     (let name = parts ! 0 in
      case dec_rollback env (rq_Body rq) of
        None \<Rightarrow> (cp, malformed)
      | Some body \<Rightarrow>
          (let pv = cp_policyVersions cp;
               history = rollback_history env pv name in
           if length history = 0 then
             (cp, writeError 404 (''policy '' @ Quote name @ '' has no version history''))
           else
             (let environment = vr_Environment (history ! 0) in
              case policy_Rollback (env_fmt_g env) (cp_policyStore cp) (env_now env) pv name environment
                     (pb_Version body) (pb_Actor body) (pb_Reason body) of
                (pv, Some err) \<Rightarrow> (cp\<lparr>cp_policyVersions := pv\<rparr>, writeConflictOrInvalid err)
              | (pv, None) \<Rightarrow>
                  (cp\<lparr>cp_policyVersions := pv\<rparr>,
                   Reply 200 (Fields [(''status'', JStr ''rolled_back''), (''name'', JStr name),
                     (''to_version'', JInt (pb_Version body))])))))"

definition createDeployment :: "('p, 'w) apiHandler" where
  "createDeployment env cp rq parts =
     (case dec_deployment env (rq_Body rq) of
        None \<Rightarrow> (cp, malformed)
      | Some body \<Rightarrow>
          (let manifest = (NewDeploymentManifest (env_now env) (dr_Environment body) (dr_Service body)
                 (dr_Version body))\<lparr>dm_Audit := dr_Audit body\<rparr> in
           case ledger_Record (cp_ledger cp) manifest of
             (l, Some err) \<Rightarrow> (cp\<lparr>cp_ledger := l\<rparr>, writeConflictOrInvalid err)
           | (l, None) \<Rightarrow>
               (case cp_persist (cp\<lparr>cp_ledger := l\<rparr>) of
                  (cp, Some _) \<Rightarrow> (cp, writeError 500 ''failed to persist deployment state'')
                | (cp, None) \<Rightarrow>
                    (cp, Reply 201 (Fields [(''status'', JStr ''recorded''), (''service'', JStr (dr_Service body)),
                       (''environment'', JStr (dm_Environment manifest)),
                       (''version'', JStr (dr_Version body))])))))"

definition listDeployments :: "('p, 'w) apiHandler" where
  "listDeployments env cp rq parts =
     (cp, Reply 200 (Fields [(''current'', JCurrent (ls_Current (ledger_Snapshot (cp_ledger cp))))]))"

definition getDeployment :: "('p, 'w) apiHandler" where
  "getDeployment env cp rq parts =
     (case ledger_Current (cp_ledger cp) (parts ! 0) (parts ! 1) of
        None \<Rightarrow> (cp, writeError 404 ''deployment not found'')
      | Some manifest \<Rightarrow> (cp, Reply 200 (ManifestBody manifest)))"

definition getDeploymentHistory :: "('p, 'w) apiHandler" where
  "getDeploymentHistory env cp rq parts =
     (case ledger_History (cp_ledger cp) (parts ! 0) (parts ! 1) of
        None \<Rightarrow> (cp, writeError 404 ''no history for deployment'')
      | Some history \<Rightarrow> (cp, Reply 200 (Fields [(''items'', JManifests history)])))"

definition createRelease :: "('p, 'w) apiHandler" where
  "createRelease env cp rq parts =
     (case dec_release env (rq_Body rq) of
        None \<Rightarrow> (cp, malformed)
      | Some body \<Rightarrow>
          (let key = workflowKey (re_Service body) (re_Environment body) (re_Version body) in
           if gm_get (cp_workflows cp) key \<noteq> None then (cp, writeError 409 ''release workflow already exists'')
           else
             (let rw = NewReleaseWorkflow (env_now env) (re_Service body) (re_Environment body) (re_Version body);
                  required = cc_ApprovalRequirement (cp_config cp);
                  required = (case gm_get (cp_workflowGates cp)
                      (workflowGateKey (re_Service body) (re_Environment body)) of
                      Some scoped \<Rightarrow> scoped | None \<Rightarrow> required);
                  required = (if required \<le> 0 then 1 else required);
                  rw = rw\<lparr>rw_Gate := Some (NewApprovalGate key required)\<rparr> in
              (cp\<lparr>cp_workflows := gm_put key rw (cp_workflows cp)\<rparr>,
               Reply 201 (Fields [(''status'', JStr ''pending''), (''workflow'', JStr key)])))))"

definition getRelease :: "('p, 'w) apiHandler" where
  "getRelease env cp rq parts =
     (case cp_workflow cp (parts ! 0) (parts ! 1) (parts ! 2) of
        None \<Rightarrow> (cp, writeError 404 ''release workflow not found'')
      | Some rw \<Rightarrow>
          (cp, Reply 200 (Fields [(''service'', JStr (rw_Service rw)), (''environment'', JStr (rw_Environment rw)),
             (''version'', JStr (rw_Version rw)), (''state'', JStr (rw_State rw)),
             (''approved'', JBool (workflow_IsApproved rw))])))"

definition listReleases :: "('p, 'w) apiHandler" where
  "listReleases env cp rq parts =
     (cp, Reply 200 (Fields [(''items'', JReleases (map (\<lambda>(key, rw).
        \<lparr>ri_workflow = key, ri_service = rw_Service rw, ri_environment = rw_Environment rw,
         ri_version = rw_Version rw, ri_state = rw_State rw\<rparr>) (it_releases env (cp_workflows cp))))]))"

text \<open>
  The three operator actions on a release change the workflow in place (the map holds pointers):
  decode, look the workflow up, run the operation, reply with the state.
\<close>

definition put_workflow ::
  "('p, 'w) ControlPlaneServer \<Rightarrow> string list \<Rightarrow> ReleaseWorkflow \<Rightarrow> ('p, 'w) ControlPlaneServer" where
  "put_workflow cp parts rw =
     cp\<lparr>cp_workflows := gm_put (workflowKey (parts ! 0) (parts ! 1) (parts ! 2)) rw (cp_workflows cp)\<rparr>"

definition approveRelease :: "('p, 'w) apiHandler" where
  "approveRelease env cp rq parts =
     (case dec_actor env (rq_Body rq) of
        None \<Rightarrow> (cp, malformed)
      | Some body \<Rightarrow>
          (case cp_workflow cp (parts ! 0) (parts ! 1) (parts ! 2) of
             None \<Rightarrow> (cp, writeError 404 ''release workflow not found'')
           | Some rw \<Rightarrow>
               (case workflow_Approve (env_now env) rw (ac_Actor body) of
                  (rw, Some err) \<Rightarrow> (put_workflow cp parts rw, writeConflictOrInvalid err)
                | (rw, None) \<Rightarrow>
                    (put_workflow cp parts rw, Reply 200 (Fields [(''state'', JStr (rw_State rw)),
                       (''approved'', JBool (workflow_IsApproved rw))])))))"

definition rollbackRelease :: "('p, 'w) apiHandler" where
  "rollbackRelease env cp rq parts =
     (case dec_actor env (rq_Body rq) of
        None \<Rightarrow> (cp, malformed)
      | Some body \<Rightarrow>
          (case cp_workflow cp (parts ! 0) (parts ! 1) (parts ! 2) of
             None \<Rightarrow> (cp, writeError 404 ''release workflow not found'')
           | Some rw \<Rightarrow>
               (case workflow_Rollback (env_now env) rw (ac_Actor body) (ac_Reason body) of
                  (rw, Some err) \<Rightarrow> (put_workflow cp parts rw, writeConflictOrInvalid err)
                | (rw, None) \<Rightarrow>
                    (put_workflow cp parts rw, Reply 200 (Fields [(''state'', JStr (rw_State rw))])))))"

definition rejectRelease :: "('p, 'w) apiHandler" where
  "rejectRelease env cp rq parts =
     (case dec_actor env (rq_Body rq) of
        None \<Rightarrow> (cp, malformed)
      | Some body \<Rightarrow>
          (case cp_workflow cp (parts ! 0) (parts ! 1) (parts ! 2) of
             None \<Rightarrow> (cp, writeError 404 ''release workflow not found'')
           | Some rw \<Rightarrow>
               (case workflow_Reject (env_now env) rw (ac_Actor body) (ac_Reason body) of
                  (rw, Some err) \<Rightarrow> (put_workflow cp parts rw, writeConflictOrInvalid err)
                | (rw, None) \<Rightarrow>
                    (put_workflow cp parts rw, Reply 200 (Fields [(''state'', JStr (rw_State rw))])))))"

section \<open>Routing and authentication\<close>

definition apiRoutingTable :: "(string list \<times> (string \<times> ('p, 'w) apiHandler) list) list" where
  "apiRoutingTable =
     [([''upstreams''], [(''GET'', listUpstreams), (''POST'', createUpstream)]),
      ([''routes''], [(''GET'', listRoutes), (''POST'', createRoute)]),
      ([''routes'', ''{name}'', ''target''], [(''GET'', resolveRoute)]),
      ([''deployments''], [(''GET'', listDeployments), (''POST'', createDeployment)]),
      ([''deployments'', ''{service}'', ''{environment}''], [(''GET'', getDeployment)]),
      ([''deployments'', ''{service}'', ''{environment}'', ''history''], [(''GET'', getDeploymentHistory)]),
      ([''releases''], [(''GET'', listReleases), (''POST'', createRelease)]),
      ([''releases'', ''{service}'', ''{environment}'', ''{version}''], [(''GET'', getRelease)]),
      ([''releases'', ''{service}'', ''{environment}'', ''{version}'', ''approve''], [(''POST'', approveRelease)]),
      ([''releases'', ''{service}'', ''{environment}'', ''{version}'', ''rollback''], [(''POST'', rollbackRelease)]),
      ([''releases'', ''{service}'', ''{environment}'', ''{version}'', ''reject''], [(''POST'', rejectRelease)]),
      ([''policies''], [(''GET'', listPolicies), (''POST'', createPolicy)]),
      ([''policies'', ''{name}''], [(''GET'', getPolicy), (''PUT'', updatePolicy)]),
      ([''policies'', ''{name}'', ''history''], [(''GET'', policyHistory)]),
      ([''policies'', ''{name}'', ''rollback''], [(''POST'', rollbackPolicy)])]"

definition is_param :: "string \<Rightarrow> bool" where
  "is_param seg \<longleftrightarrow> HasPrefix seg ''{'' \<and> HasSuffix seg ''}''"

fun apiMatchLoop :: "string list \<Rightarrow> string list \<Rightarrow> string list option" where
  "apiMatchLoop (seg # pattern) (part # parts) =
     (if is_param seg then map_option (\<lambda>params. part # params) (apiMatchLoop pattern parts)
      else if seg \<noteq> part then None
      else apiMatchLoop pattern parts)"
| "apiMatchLoop pattern parts = Some []"

definition apiMatchRoute :: "string list \<Rightarrow> string list \<Rightarrow> string list option" where
  "apiMatchRoute pattern parts =
     (if length pattern \<noteq> length parts then None else apiMatchLoop pattern parts)"

definition splitPath :: "string \<Rightarrow> string list" where
  "splitPath path =
     (let trimmed = TrimByte path CHR ''/'' in
      if trimmed = [] then [[]] else Split trimmed CHR ''/'')"

fun routeLoop ::
  "api_env \<Rightarrow> ('p, 'w) ControlPlaneServer \<Rightarrow> Request \<Rightarrow> string list
   \<Rightarrow> (string list \<times> (string \<times> ('p, 'w) apiHandler) list) list \<Rightarrow> ('p, 'w) ControlPlaneServer \<times> outcome" where
  "routeLoop env cp rq parts [] = (cp, writeError 404 ''not found'')"
| "routeLoop env cp rq parts ((segments, methods) # routes) =
     (case apiMatchRoute segments parts of
        None \<Rightarrow> routeLoop env cp rq parts routes
      | Some params \<Rightarrow>
          (case map_of methods (rq_Method rq) of
             None \<Rightarrow> (cp, writeError 405 ''method not allowed'')
           | Some handler \<Rightarrow> handler env cp rq params))"

definition routeAPI ::
  "api_env \<Rightarrow> ('p, 'w) ControlPlaneServer \<Rightarrow> Request \<Rightarrow> ('p, 'w) ControlPlaneServer \<times> outcome" where
  "routeAPI env cp rq =
     routeLoop env cp rq (splitPath (TrimPrefix (rq_Path rq) ''/api/v1'')) apiRoutingTable"

definition checkToken :: "string \<Rightarrow> string \<Rightarrow> bool" where
  "checkToken a b \<longleftrightarrow> a = b"

definition requireAuth ::
  "(('p, 'w) ControlPlaneServer \<Rightarrow> Request \<Rightarrow> ('p, 'w) ControlPlaneServer \<times> outcome)
   \<Rightarrow> ('p, 'w) ControlPlaneServer \<Rightarrow> Request \<Rightarrow> ('p, 'w) ControlPlaneServer \<times> outcome" where
  "requireAuth next_handler cp rq =
     (let token = TrimSpace (cc_AdminToken (cp_config cp)); got = rq_Authorization rq in
      if token = [] then
        (cp, writeError 500 ''control plane has no AdminToken configured; refusing to serve'')
      else if \<not> HasPrefix got ''Bearer '' \<or> \<not> checkToken (TrimPrefix got ''Bearer '') token then
        (cp, writeError 401 ''unauthorized'')
      else next_handler cp rq)"

text \<open>
  \<open>http.ServeMux\<close>: the path is cleaned (\<open>path.Clean\<close>, keeping a trailing slash) unless the method
  is CONNECT, a subtree pattern without its slash redirects, and so does a path that was not clean.
\<close>

definition clean_step :: "string list \<Rightarrow> string \<Rightarrow> string list" where
  "clean_step acc seg =
     (if seg = [] \<or> seg = ''.'' then acc else if seg = ''..'' then butlast acc else acc @ [seg])"

definition cleanPath :: "string \<Rightarrow> string" where
  "cleanPath p =
     (if p = [] then ''/''
      else
        (let segs = foldl clean_step [] (Split p CHR ''/'');
             np = CHR ''/'' # Join segs ''/'' in
         if HasSuffix p ''/'' \<and> np \<noteq> ''/'' then np @ ''/'' else np))"

definition cp_Handler ::
  "api_env \<Rightarrow> ('p, 'w) ControlPlaneServer \<Rightarrow> Request \<Rightarrow> ('p, 'w) ControlPlaneServer \<times> outcome" where
  "cp_Handler env cp rq =
     (let path = (if rq_Method rq = ''CONNECT'' then rq_EscapedPath rq else cleanPath (rq_EscapedPath rq)) in
      if path = ''/api/v1'' then (cp, Redirect ''/api/v1/'')
      else if path \<noteq> rq_EscapedPath rq then (cp, Redirect path)
      else if path = ''/healthz'' then (cp, Reply 200 (Fields [(''status'', JStr ''ok'')]))
      else if HasPrefix path ''/api/v1/'' then requireAuth (routeAPI env) cp rq
      else (cp, NotFoundPage))"

section \<open>Authentication\<close>

lemma requireAuth_denied:
  assumes "TrimSpace (cc_AdminToken (cp_config cp)) = []
    \<or> rq_Authorization rq \<noteq> ''Bearer '' @ TrimSpace (cc_AdminToken (cp_config cp))"
  shows "requireAuth h cp rq = (cp, writeError 500 ''control plane has no AdminToken configured; refusing to serve'')
    \<or> requireAuth h cp rq = (cp, writeError 401 ''unauthorized'')"
  using assms by (auto simp: requireAuth_def Let_def checkToken_def go_str prefix_def)

lemma requireAuth_granted:
  assumes "TrimSpace (cc_AdminToken (cp_config cp)) \<noteq> []"
    and "rq_Authorization rq = ''Bearer '' @ TrimSpace (cc_AdminToken (cp_config cp))"
  shows "requireAuth h cp rq = h cp rq"
  using assms by (simp add: requireAuth_def Let_def checkToken_def go_str)

section \<open>The routing table is unambiguous\<close>

definition compatible :: "string list \<Rightarrow> string list \<Rightarrow> bool" where
  "compatible p q \<longleftrightarrow> length p = length q \<and> list_all2 (\<lambda>a b. is_param a \<or> is_param b \<or> a = b) p q"

lemma apiMatchLoop_compatible:
  "length p = length parts \<Longrightarrow> length q = length parts \<Longrightarrow>
   apiMatchLoop p parts \<noteq> None \<Longrightarrow> apiMatchLoop q parts \<noteq> None \<Longrightarrow>
   list_all2 (\<lambda>a b. is_param a \<or> is_param b \<or> a = b) p q"
proof (induction parts arbitrary: p q)
  case (Cons x parts)
  then obtain a p' b q' where pq: "p = a # p'" "q = b # q'" by (cases p; cases q) auto
  have "apiMatchLoop p' parts \<noteq> None \<and> (is_param a \<or> a = x)"
    using Cons.prems(3) by (auto simp: pq split: if_splits)
  moreover have "apiMatchLoop q' parts \<noteq> None \<and> (is_param b \<or> b = x)"
    using Cons.prems(4) by (auto simp: pq split: if_splits)
  ultimately show ?case using Cons.IH [of p' q'] Cons.prems(1,2) pq by auto
qed simp

lemma apiMatchRoute_compatible:
  "apiMatchRoute p parts \<noteq> None \<Longrightarrow> apiMatchRoute q parts \<noteq> None \<Longrightarrow> compatible p q"
  unfolding apiMatchRoute_def compatible_def
  by (auto intro: apiMatchLoop_compatible split: if_splits)

lemma table_segments:
  "distinct (map fst (apiRoutingTable :: (string list \<times> (string \<times> ('p, 'w) apiHandler) list) list))"
  "\<forall>p \<in> set (map fst (apiRoutingTable :: (string list \<times> (string \<times> ('p, 'w) apiHandler) list) list)).
     \<forall>q \<in> set (map fst (apiRoutingTable :: (string list \<times> (string \<times> ('p, 'w) apiHandler) list) list)).
       compatible p q \<longrightarrow> p = q"
proof -
  define segs :: "string list list" where
    "segs = [[''upstreams''], [''routes''], [''routes'', ''{name}'', ''target''], [''deployments''],
       [''deployments'', ''{service}'', ''{environment}''],
       [''deployments'', ''{service}'', ''{environment}'', ''history''], [''releases''],
       [''releases'', ''{service}'', ''{environment}'', ''{version}''],
       [''releases'', ''{service}'', ''{environment}'', ''{version}'', ''approve''],
       [''releases'', ''{service}'', ''{environment}'', ''{version}'', ''rollback''],
       [''releases'', ''{service}'', ''{environment}'', ''{version}'', ''reject''],
       [''policies''], [''policies'', ''{name}''], [''policies'', ''{name}'', ''history''],
       [''policies'', ''{name}'', ''rollback'']]"
  have fst: "map fst (apiRoutingTable :: (string list \<times> (string \<times> ('p, 'w) apiHandler) list) list) = segs"
    by (simp add: apiRoutingTable_def segs_def)
  have "list_all (\<lambda>p. list_all (\<lambda>q. compatible p q \<longrightarrow> p = q) segs) segs \<and> distinct segs"
    unfolding segs_def by code_simp
  then show "distinct (map fst (apiRoutingTable :: (string list \<times> (string \<times> ('p, 'w) apiHandler) list) list))"
    "\<forall>p \<in> set (map fst (apiRoutingTable :: (string list \<times> (string \<times> ('p, 'w) apiHandler) list) list)).
     \<forall>q \<in> set (map fst (apiRoutingTable :: (string list \<times> (string \<times> ('p, 'w) apiHandler) list) list)).
       compatible p q \<longrightarrow> p = q"
    unfolding fst list_all_iff by blast+
qed

lemma table_unique:
  assumes "e \<in> set apiRoutingTable" "f \<in> set apiRoutingTable"
    "apiMatchRoute (fst e) parts \<noteq> None" "apiMatchRoute (fst f) parts \<noteq> None"
  shows "e = f"
proof -
  have "compatible (fst e) (fst f)" using assms(3,4) by (rule apiMatchRoute_compatible)
  then have "fst e = fst f" using table_segments(2) assms(1,2) by auto
  then show ?thesis using table_segments(1) assms(1,2) by (meson distinct_map inj_onD)
qed

definition dispatch_entry ::
  "api_env \<Rightarrow> ('p, 'w) ControlPlaneServer \<Rightarrow> Request \<Rightarrow> string list
   \<Rightarrow> string list \<times> (string \<times> ('p, 'w) apiHandler) list \<Rightarrow> ('p, 'w) ControlPlaneServer \<times> outcome" where
  "dispatch_entry env cp rq parts e =
     (case map_of (snd e) (rq_Method rq) of
        None \<Rightarrow> (cp, writeError 405 ''method not allowed'')
      | Some handler \<Rightarrow> handler env cp rq (the (apiMatchRoute (fst e) parts)))"

lemma routeLoop_match:
  assumes "e \<in> set t" "apiMatchRoute (fst e) parts \<noteq> None"
    and "\<And>f. f \<in> set t \<Longrightarrow> apiMatchRoute (fst f) parts \<noteq> None \<Longrightarrow> f = e"
  shows "routeLoop env cp rq parts t = dispatch_entry env cp rq parts e"
  using assms
proof (induction t)
  case (Cons f t)
  show ?case
  proof (cases "apiMatchRoute (fst f) parts")
    case None
    then have "e \<in> set t" using Cons.prems(1,2) by auto
    then have "routeLoop env cp rq parts t = dispatch_entry env cp rq parts e"
      using Cons.prems(2) by (rule Cons.IH) (rule Cons.prems(3) [OF list.set_intros(2)])
    moreover have "routeLoop env cp rq parts (f # t) = routeLoop env cp rq parts t"
      using None by (cases f) simp
    ultimately show ?thesis by (simp only:)
  next
    case (Some params)
    have "f = e" using Some by (intro Cons.prems(3)) simp_all
    moreover have "routeLoop env cp rq parts (f # t) = dispatch_entry env cp rq parts f"
      using Some by (cases f) (simp add: dispatch_entry_def split: option.split)
    ultimately show ?thesis by (simp only:)
  qed
qed simp

lemma routeLoop_nomatch:
  "\<forall>f \<in> set t. apiMatchRoute (fst f) parts = None \<Longrightarrow>
     routeLoop env cp rq parts t = (cp, writeError 404 ''not found'')"
  by (induction t) auto

lemma routeLoop_set:
  assumes "set t = set apiRoutingTable"
  shows "routeLoop env cp rq parts t = routeLoop env cp rq parts apiRoutingTable"
proof (cases "\<exists>e \<in> set t. apiMatchRoute (fst e) parts \<noteq> None")
  case True
  then obtain e where e: "e \<in> set t" "apiMatchRoute (fst e) parts \<noteq> None" by blast
  have uniq: "f = e" if "f \<in> set t" "apiMatchRoute (fst f) parts \<noteq> None" for f
    using table_unique [of f e parts] that e assms by simp
  have "routeLoop env cp rq parts t = dispatch_entry env cp rq parts e"
    using e uniq by (rule routeLoop_match)
  moreover have "routeLoop env cp rq parts apiRoutingTable = dispatch_entry env cp rq parts e"
    using e uniq unfolding assms by (rule routeLoop_match)
  ultimately show ?thesis by simp
next
  case False
  then have "\<forall>f \<in> set t. apiMatchRoute (fst f) parts = None" by blast
  then have "routeLoop env cp rq parts t = (cp, writeError 404 ''not found'')" by (rule routeLoop_nomatch)
  moreover have "routeLoop env cp rq parts apiRoutingTable = (cp, writeError 404 ''not found'')"
    by (rule routeLoop_nomatch) (use False assms in blast)
  ultimately show ?thesis by simp
qed

section \<open>The invariant of the server\<close>

definition workflows_ok :: "(string, ReleaseWorkflow) gomap \<Rightarrow> bool" where
  "workflows_ok ws \<longleftrightarrow> (\<forall>k rw. gm_get ws k = Some rw \<longrightarrow> workflow_ok rw \<and> rw_Gate rw \<noteq> None)"

definition cp_ok :: "('p, 'w) ControlPlaneServer \<Rightarrow> bool" where
  "cp_ok cp \<longleftrightarrow> ledger_ok (cp_ledger cp) \<and> registry_ok (cp_registry cp) \<and> workflows_ok (cp_workflows cp)"

lemma registry_ok_register: "registry_ok r \<Longrightarrow> registry_ok (fst (register urlOK r x))"
  by (rule registry_inv.step_keeps)

lemma replacePolicy_ok:
  assumes "registry_ok r"
  shows "registry_ok (fst (replacePolicy r p))"
proof (cases "snd (replacePolicy r p) = nil")
  case True
  let ?r = "fst (replacePolicy r p)"
  have keeps: "rr_routes ?r = rr_routes r" "rr_upstreams ?r = rr_upstreams r" "rr_regions ?r = rr_regions r"
    "rr_tenants ?r = rr_tenants r" "rr_rollouts ?r = rr_rollouts r"
    by (simp_all add: replacePolicy_def Let_def del: first_error_nil)
  have "reg_get ?r k = Some x \<Longrightarrow> reg_get r k = Some x \<or> k = KPolicy (TrimSpace (po_Name p)) \<and> x = RegPolicy (policy_norm p)" for k x
    by (cases k) (auto simp: keeps replacePolicy_policies [OF True] gm_get_put split: if_splits)
  moreover have "entry_good (RegPolicy (policy_norm p))"
    using True by (auto simp: replacePolicy_nil policy_norm_def split: option.split)
  moreover have "reg_key_of (RegPolicy (policy_norm p)) = KPolicy (TrimSpace (po_Name p))" by simp
  ultimately show ?thesis using assms unfolding registry_ok_def keeps by blast
next
  case False
  then have "fst (replacePolicy r p) = r" unfolding replacePolicy_def Let_def by (rule commit_rejected)
  with assms show ?thesis by simp
qed

lemma policy_exec_registry:
  assumes "registry_ok (pv_registry pv)"
  shows "registry_ok (pv_registry (fst (policy_exec fmt_g store pv x)))"
proof (cases x)
  case (PCreate now p actor reason)
  have "registry_ok (fst (RegisterPolicy (pv_registry pv) p))"
    using registry_ok_register [OF assms, of _ "RegPolicy p"] by simp
  then show ?thesis
    using assms by (auto simp: PCreate policy_Create_def split: prod.split option.split)
next
  case (PUpdate now p actor reason)
  have "registry_ok (fst (replacePolicy (pv_registry pv) (policy_norm p)))" by (rule replacePolicy_ok [OF assms])
  then show ?thesis
    using assms by (auto simp: PUpdate policy_Update_def Let_def split: prod.split option.split)
next
  case (PRollback now name e v actor reason)
  have "registry_ok (fst (replacePolicy (pv_registry pv) p))" for p by (rule replacePolicy_ok [OF assms])
  from this [of "vr_Policy (hist pv (policyKey name e) ! nat (v - 1))"] show ?thesis
    using assms by (auto simp: PRollback policy_Rollback_def Let_def split: prod.split option.split)
qed

lemma cp_ok_set_registry: "cp_ok cp \<Longrightarrow> registry_ok r \<Longrightarrow> cp_ok (set_registry cp r)"
  by (simp add: cp_ok_def set_registry_def)

lemma cp_ok_policies: "cp_ok cp \<Longrightarrow> cp_ok (cp\<lparr>cp_policyVersions := fst (policy_exec fmt_g store (cp_policyVersions cp) x)\<rparr>)"
  by (simp add: cp_ok_def policy_exec_registry)

lemma cp_persist_keeps [simp]:
  "cp_ledger (fst (cp_persist cp)) = cp_ledger cp"
  "cp_policyVersions (fst (cp_persist cp)) = cp_policyVersions cp"
  "cp_workflows (fst (cp_persist cp)) = cp_workflows cp"
  "cp_store (fst (cp_persist cp)) = cp_store cp"
  "cp_workflowGates (fst (cp_persist cp)) = cp_workflowGates cp"
  "cp_config (fst (cp_persist cp)) = cp_config cp"
  by (auto simp: cp_persist_def split: option.split prod.split)

lemma cp_ok_persist: "cp_ok cp \<Longrightarrow> cp_ok (fst (cp_persist cp))"
  by (simp add: cp_ok_def)

lemma cp_ok_ledger: "cp_ok cp \<Longrightarrow> cp_ok (cp\<lparr>cp_ledger := fst (ledger_Record (cp_ledger cp) m)\<rparr>)"
  using ledger_inv.step_keeps by (simp add: cp_ok_def)

lemma workflows_ok_put:
  "workflows_ok ws \<Longrightarrow> workflow_ok rw \<Longrightarrow> rw_Gate rw \<noteq> None \<Longrightarrow> workflows_ok (gm_put k rw ws)"
  by (simp add: workflows_ok_def gm_get_put)

lemma cp_ok_workflow:
  assumes "cp_ok cp" "cp_workflow cp (parts ! 0) (parts ! 1) (parts ! 2) = Some rw"
  shows "cp_ok (put_workflow cp parts (fst (workflow_exec rw x)))"
proof -
  have rw: "workflow_ok rw" "rw_Gate rw \<noteq> None"
    using assms by (auto simp: cp_ok_def cp_workflow_def workflows_ok_def)
  have "workflow_ok (workflow_step rw x)" by (rule workflow_ok_step [OF rw(1)])
  moreover have "rw_Gate (workflow_step rw x) \<noteq> None"
    using rw(2) by (cases rule: workflow_step_cases [where w = rw and x = x]) auto
  ultimately show ?thesis
    using assms(1) by (simp add: cp_ok_def put_workflow_def workflows_ok_put workflow_step_def)
qed

text \<open>What each handler does to the state.\<close>

lemma handler_state:
  "fst (createUpstream env cp rq parts) = (case dec_upstream env (rq_Body rq) of None \<Rightarrow> cp
     | Some b \<Rightarrow> set_registry cp (fst (register (env_urlOK env) (cp_registry cp) (RegUpstream b))))"
  "fst (createRoute env cp rq parts) = (case dec_route env (rq_Body rq) of None \<Rightarrow> cp
     | Some b \<Rightarrow> set_registry cp (fst (register (env_urlOK env) (cp_registry cp) (RegRoute b))))"
  "fst (createPolicy env cp rq parts) = (case dec_policy env (rq_Body rq) of None \<Rightarrow> cp
     | Some b \<Rightarrow> cp\<lparr>cp_policyVersions := fst (policy_exec (env_fmt_g env) (cp_policyStore cp) (cp_policyVersions cp)
         (PCreate (env_now env) (pr_RoutePolicy b) (pr_Actor b) (pr_Reason b)))\<rparr>)"
  "fst (updatePolicy env cp rq parts) = (case dec_policy env (rq_Body rq) of None \<Rightarrow> cp
     | Some b \<Rightarrow> cp\<lparr>cp_policyVersions := fst (policy_exec (env_fmt_g env) (cp_policyStore cp) (cp_policyVersions cp)
         (PUpdate (env_now env) ((pr_RoutePolicy b)\<lparr>po_Name := parts ! 0\<rparr>) (pr_Actor b) (pr_Reason b)))\<rparr>)"
  "fst (createDeployment env cp rq parts) = (case dec_deployment env (rq_Body rq) of None \<Rightarrow> cp
     | Some b \<Rightarrow>
        (let m = (NewDeploymentManifest (env_now env) (dr_Environment b) (dr_Service b) (dr_Version b))\<lparr>dm_Audit := dr_Audit b\<rparr>;
             cp1 = cp\<lparr>cp_ledger := fst (ledger_Record (cp_ledger cp) m)\<rparr>
         in if snd (ledger_Record (cp_ledger cp) m) = nil then fst (cp_persist cp1) else cp1))"
  by (simp_all add: createUpstream_def createRoute_def createPolicy_def updatePolicy_def createDeployment_def
      Let_def split: option.split prod.split)

lemma rollbackPolicy_state:
  "fst (rollbackPolicy env cp rq parts) =
     (case dec_rollback env (rq_Body rq) of None \<Rightarrow> cp
      | Some b \<Rightarrow>
         (let h = rollback_history env (cp_policyVersions cp) (parts ! 0)
          in if h = [] then cp
             else cp\<lparr>cp_policyVersions := fst (policy_exec (env_fmt_g env) (cp_policyStore cp) (cp_policyVersions cp)
               (PRollback (env_now env) (parts ! 0) (vr_Environment (h ! 0)) (pb_Version b) (pb_Actor b) (pb_Reason b)))\<rparr>))"
  by (simp add: rollbackPolicy_def Let_def split: option.split prod.split)

lemma readers_state [simp]:
  "fst (listUpstreams env cp rq parts) = cp" "fst (listRoutes env cp rq parts) = cp"
  "fst (resolveRoute env cp rq parts) = cp" "fst (listPolicies env cp rq parts) = cp"
  "fst (getPolicy env cp rq parts) = cp" "fst (policyHistory env cp rq parts) = cp"
  "fst (listDeployments env cp rq parts) = cp" "fst (getDeployment env cp rq parts) = cp"
  "fst (getDeploymentHistory env cp rq parts) = cp" "fst (getRelease env cp rq parts) = cp"
  "fst (listReleases env cp rq parts) = cp"
  by (simp_all add: listUpstreams_def listRoutes_def resolveRoute_def listPolicies_def getPolicy_def
      policyHistory_def listDeployments_def getDeployment_def getDeploymentHistory_def getRelease_def
      listReleases_def Let_def split: option.split sum.split)

lemma release_state:
  "fst (approveRelease env cp rq parts) =
     (case (dec_actor env (rq_Body rq), cp_workflow cp (parts ! 0) (parts ! 1) (parts ! 2)) of
        (Some b, Some rw) \<Rightarrow> put_workflow cp parts (fst (workflow_exec rw (WApprove (env_now env) (ac_Actor b))))
      | _ \<Rightarrow> cp)"
  "fst (rollbackRelease env cp rq parts) =
     (case (dec_actor env (rq_Body rq), cp_workflow cp (parts ! 0) (parts ! 1) (parts ! 2)) of
        (Some b, Some rw) \<Rightarrow> put_workflow cp parts (fst (workflow_exec rw (WRollback (env_now env) (ac_Actor b) (ac_Reason b))))
      | _ \<Rightarrow> cp)"
  "fst (rejectRelease env cp rq parts) =
     (case (dec_actor env (rq_Body rq), cp_workflow cp (parts ! 0) (parts ! 1) (parts ! 2)) of
        (Some b, Some rw) \<Rightarrow> put_workflow cp parts (fst (workflow_exec rw (WReject (env_now env) (ac_Actor b) (ac_Reason b))))
      | _ \<Rightarrow> cp)"
  by (simp_all add: approveRelease_def rollbackRelease_def rejectRelease_def split: option.split prod.split)

lemma new_workflow_Gate [simp]: "rw_Gate (new_workflow now s e v k) \<noteq> None"
  by (simp add: new_workflow_def)

text \<open>The approvals a new release needs: the gate of its service and environment, else the default.\<close>

definition required_approvals :: "('p, 'w) ControlPlaneServer \<Rightarrow> string \<Rightarrow> string \<Rightarrow> int" where
  "required_approvals cp service environment =
     (let n = (case gm_get (cp_workflowGates cp) (workflowGateKey service environment) of
          Some scoped \<Rightarrow> scoped | None \<Rightarrow> cc_ApprovalRequirement (cp_config cp))
      in if n \<le> 0 then 1 else n)"

lemma createRelease_state:
  "fst (createRelease env cp rq parts) =
     (case dec_release env (rq_Body rq) of None \<Rightarrow> cp
      | Some b \<Rightarrow>
         (let k = workflowKey (re_Service b) (re_Environment b) (re_Version b)
          in if gm_get (cp_workflows cp) k = None
             then cp\<lparr>cp_workflows := gm_put k (new_workflow (env_now env) (re_Service b) (re_Environment b)
                  (re_Version b) (required_approvals cp (re_Service b) (re_Environment b))) (cp_workflows cp)\<rparr>
             else cp))"
  by (cases "dec_release env (rq_Body rq)")
    (simp_all add: createRelease_def Let_def new_workflow_def workflowKey_def required_approvals_def)

lemma createRelease_ok: "cp_ok cp \<Longrightarrow> cp_ok (fst (createRelease env cp rq parts))"
  unfolding createRelease_state Let_def
  by (simp add: cp_ok_def workflows_ok_put split: option.split)

lemma rollbackPolicy_ok: "cp_ok cp \<Longrightarrow> cp_ok (fst (rollbackPolicy env cp rq parts))"
  unfolding rollbackPolicy_state Let_def
  using cp_ok_policies [of cp] by (simp del: policy_exec.simps split: option.split)

lemma registering_ok:
  assumes "cp_ok cp"
  shows "cp_ok (set_registry cp (fst (register urlOK (cp_registry cp) x)))"
  using assms by (intro cp_ok_set_registry registry_ok_register) (simp_all add: cp_ok_def)

lemma creates_ok:
  assumes "cp_ok cp"
  shows "cp_ok (fst (createUpstream env cp rq parts))" "cp_ok (fst (createRoute env cp rq parts))"
    "cp_ok (fst (createPolicy env cp rq parts))" "cp_ok (fst (updatePolicy env cp rq parts))"
  unfolding handler_state
  using assms registering_ok [OF assms] cp_ok_policies [OF assms]
  by (simp_all del: register.simps policy_exec.simps split: option.split)

lemma createDeployment_ok: "cp_ok cp \<Longrightarrow> cp_ok (fst (createDeployment env cp rq parts))"
  unfolding handler_state(5) Let_def
  by (cases "dec_deployment env (rq_Body rq)") (simp_all add: cp_ok_persist cp_ok_ledger)

lemma releases_ok:
  assumes "cp_ok cp"
  shows "cp_ok (fst (approveRelease env cp rq parts))" "cp_ok (fst (rollbackRelease env cp rq parts))"
    "cp_ok (fst (rejectRelease env cp rq parts))"
  unfolding release_state
  using assms cp_ok_workflow [OF assms]
  by (simp_all del: workflow_exec.simps split: option.split)

lemmas handlers_ok = creates_ok createDeployment_ok releases_ok createRelease_ok rollbackPolicy_ok

lemma table_ok:
  assumes "cp_ok cp" "e \<in> set apiRoutingTable" "(m, h) \<in> set (snd e)"
  shows "cp_ok (fst (h env cp rq params))"
  using assms unfolding apiRoutingTable_def by (auto simp: handlers_ok)

lemma routeLoop_ok:
  assumes "cp_ok cp" "set t \<subseteq> set apiRoutingTable"
  shows "cp_ok (fst (routeLoop env cp rq parts t))"
  using assms(2)
proof (induction t)
  case Nil
  then show ?case using assms(1) by simp
next
  case (Cons e t)
  obtain segs methods where e: "e = (segs, methods)" by fastforce
  have "cp_ok (fst (h env cp rq params))" if "map_of methods (rq_Method rq) = Some h" for h params
    using table_ok [OF assms(1), of e "rq_Method rq" h] Cons.prems map_of_SomeD [OF that] e by simp
  then show ?case using Cons assms(1) by (simp add: e split: option.split)
qed

lemma cp_Handler_ok: "cp_ok cp \<Longrightarrow> cp_ok (fst (cp_Handler env cp rq))"
  by (simp add: cp_Handler_def Let_def requireAuth_def routeAPI_def routeLoop_ok)

datatype cp_op = CRequest api_env Request | CGate string string int

fun cp_step :: "('p, 'w) ControlPlaneServer \<Rightarrow> cp_op \<Rightarrow> ('p, 'w) ControlPlaneServer" where
  "cp_step cp (CRequest env rq) = fst (cp_Handler env cp rq)"
| "cp_step cp (CGate service environment required) = SetWorkflowGate cp service environment required"

interpretation control_plane: kept_invariant cp_step cp_ok
proof
  fix cp :: "('p, 'w) ControlPlaneServer" and x
  assume "cp_ok cp"
  then show "cp_ok (cp_step cp x)"
    by (cases x) (simp_all add: cp_Handler_ok, simp add: SetWorkflowGate_def cp_ok_def Let_def)
qed

section \<open>Properties\<close>

text \<open>The environment, request and configuration the examples use.\<close>

definition demo_env :: api_env where
  "demo_env = \<lparr>env_now = 7, env_draw = (\<lambda>_. 0), env_urlOK = (\<lambda>_. True), env_fmt_g = (\<lambda>_. ''0''),
     it_upstreams = (\<lambda>m. m), it_routes = (\<lambda>m. m), it_policies = (\<lambda>m. m), it_histories = (\<lambda>m. m),
     it_releases = (\<lambda>m. m), dec_upstream = (\<lambda>_. None), dec_route = (\<lambda>_. None), dec_policy = (\<lambda>_. None),
     dec_rollback = (\<lambda>_. None),
     dec_deployment = (\<lambda>b. Some \<lparr>dr_Service = ''api'', dr_Environment = b, dr_Version = ''1'', dr_Audit = [''ok'']\<rparr>),
     dec_release = (\<lambda>b. Some \<lparr>re_Service = ''api'', re_Environment = b, re_Version = ''1''\<rparr>),
     dec_actor = (\<lambda>b. Some \<lparr>ac_Actor = b, ac_Reason = []\<rparr>)\<rparr>"

definition demo_request :: "string \<Rightarrow> string \<Rightarrow> string \<Rightarrow> string \<Rightarrow> Request" where
  "demo_request method path token body =
     \<lparr>rq_Method = method, rq_EscapedPath = path, rq_Path = path, rq_Authorization = token, rq_Body = body\<rparr>"

definition demo_config :: ControlPlaneConfig where
  "demo_config = \<lparr>cc_StorePath = ''s.json'', cc_AdminToken = ''secret'', cc_ApprovalRequirement = 1\<rparr>"

definition demo_server ::
  "(PolicyVersionState disk, DeploymentLedgerState disk) ControlPlaneServer" where
  "demo_server = NewControlPlaneServer (\<lambda>m. m) demo_config (sound_disk []) (sound_disk [])"



text \<open>The routing table is unambiguous: a path matches at most one entry, so dispatch over the
  entries in any order (or repeated) gives what dispatch over the table gives.
\<close>

theorem routing_order_irrelevant:
  assumes "set t = set apiRoutingTable"
  shows "routeLoop env cp rq parts t = routeLoop env cp rq parts apiRoutingTable"
  using assms by (rule routeLoop_set)

lemma routing_order_irrelevant_witness:
  "routeLoop demo_env demo_server rq parts (rev apiRoutingTable) = routeLoop demo_env demo_server rq parts apiRoutingTable"
  by (rule routing_order_irrelevant) simp


lemma createDeployment_created:
  assumes "createDeployment env cp rq parts = (cp', Reply 201 b)"
  obtains d l where "dec_deployment env (rq_Body rq) = Some d"
    "ledger_Record (cp_ledger cp) ((NewDeploymentManifest (env_now env) (dr_Environment d) (dr_Service d)
       (dr_Version d))\<lparr>dm_Audit := dr_Audit d\<rparr>) = (l, nil)"
    "cp_persist (cp\<lparr>cp_ledger := l\<rparr>) = (cp', nil)"
proof -
  have err: "writeConflictOrInvalid e \<noteq> Reply 201 b" "writeError 500 e \<noteq> Reply 201 b" "malformed \<noteq> Reply 201 b" for e
    by (simp_all add: writeConflictOrInvalid_def writeError_def malformed_def)
  show ?thesis
    using assms that by (auto simp: createDeployment_def err Let_def split: option.splits prod.splits)
qed




text \<open>
  A production deployment can never be recorded through the API: whatever the server, a
  request for environment \<open>prod\<close> (or none, which means \<open>prod\<close>) is refused, because production
  manifests need tenant and region allowlists and the handler builds them with none.
\<close>

lemma prod_manifest_bad:
  assumes "e = [] \<or> e = ''prod''"
  shows "\<not> manifest_good (manifest_norm ((NewDeploymentManifest now e s v)\<lparr>dm_Audit := a\<rparr>))"
  using assms by (auto simp: manifest_good_def manifest_norm_def NewDeploymentManifest_def stage_policy_def Let_def)

theorem createDeployment_prod_refused:
  assumes "dec_deployment env (rq_Body rq) = Some d" "dr_Environment d = [] \<or> dr_Environment d = ''prod''"
  shows "\<exists>code msg. snd (createDeployment env cp rq parts) = writeError code msg \<and> code \<in> {409, 422}
    \<and> cp_store (fst (createDeployment env cp rq parts)) = cp_store cp
    \<and> cp_world (fst (createDeployment env cp rq parts)) = cp_world cp"
proof -
  let ?m = "(NewDeploymentManifest (env_now env) (dr_Environment d) (dr_Service d) (dr_Version d))\<lparr>dm_Audit := dr_Audit d\<rparr>"
  have "snd (ledger_Record (cp_ledger cp) ?m) \<noteq> nil"
    using ledger_Record_nil(1) [of "cp_ledger cp" ?m] prod_manifest_bad [OF assms(2)] by blast
  then obtain l e where "ledger_Record (cp_ledger cp) ?m = (l, Some e)" by (metis not_None_eq prod.collapse)
  then have eq: "createDeployment env cp rq parts = (cp\<lparr>cp_ledger := l\<rparr>, writeConflictOrInvalid e)"
    by (simp add: createDeployment_def assms(1) Let_def)
  show ?thesis
    unfolding eq writeConflictOrInvalid_def
    by (intro exI [of _ "if Contains e ''already exists'' then 409 else 422"] exI [of _ e]) simp
qed

lemma createDeployment_prod_refused_witness:
  "\<exists>code msg. snd (createDeployment demo_env demo_server (demo_request ''POST'' ''/api/v1/deployments'' [] []) [])
     = writeError code msg \<and> code \<in> {409, 422}"
proof -
  have "dec_deployment demo_env (rq_Body (demo_request ''POST'' ''/api/v1/deployments'' [] []))
      = Some \<lparr>dr_Service = ''api'', dr_Environment = [], dr_Version = ''1'', dr_Audit = [''ok'']\<rparr>" by code_simp
  from createDeployment_prod_refused [OF this, of demo_server "[]"] show ?thesis by auto
qed

text \<open>
  The production checks look at the environment as sent, but the ledger files it trimmed: a
  deployment to \<open>prod\<close> with a trailing blank is accepted without signed artifacts, audit or
  allowlists, and is from then on the current production deployment the API reports.
\<close>

theorem createDeployment_blank_bypasses_prod_checks:
  "let cp' = fst (createDeployment demo_env demo_server (demo_request ''POST'' ''/api/v1/deployments'' [] ''prod '') [])
   in snd (createDeployment demo_env demo_server (demo_request ''POST'' ''/api/v1/deployments'' [] ''prod '') [])
        = Reply 201 (Fields [(''status'', JStr ''recorded''), (''service'', JStr ''api''),
            (''environment'', JStr ''prod ''), (''version'', JStr ''1'')])
      \<and> (\<exists>m. snd (getDeployment demo_env cp' rq [''api'', ''prod'']) = Reply 200 (ManifestBody m)
           \<and> \<not> po_RequireSignedArtifacts (dm_Policy m) \<and> \<not> po_RequireAudit (dm_Policy m)
           \<and> po_AllowedTenants (dm_Policy m) = [])"
proof -
  let ?r = "createDeployment demo_env demo_server (demo_request ''POST'' ''/api/v1/deployments'' [] ''prod '') []"
  have "(case ledger_Current (cp_ledger (fst ?r)) ''api'' ''prod'' of None \<Rightarrow> False
      | Some m \<Rightarrow> \<not> po_RequireSignedArtifacts (dm_Policy m) \<and> \<not> po_RequireAudit (dm_Policy m)
           \<and> po_AllowedTenants (dm_Policy m) = [])" by code_simp
  moreover have "snd ?r = Reply 201 (Fields [(''status'', JStr ''recorded''), (''service'', JStr ''api''),
            (''environment'', JStr ''prod ''), (''version'', JStr ''1'')])" by code_simp
  ultimately show ?thesis
    by (auto simp: getDeployment_def split: option.splits)
qed

text \<open>
  A deployment whose write fails is answered 500 and yet kept: the API serves it from memory
  although the store does not have it, and repeating the request is refused.
\<close>

definition failing_disk :: "DeploymentLedgerState disk" where
  "failing_disk = (sound_disk [])\<lparr>dk_write := (\<lambda>n _. if n = 0 then NotOpened ''disk full'' else Written)\<rparr>"

theorem createDeployment_failed_persist_kept:
  "let rq = demo_request ''POST'' ''/api/v1/deployments'' [] ''staging'';
       cp = NewControlPlaneServer (\<lambda>m. m) demo_config failing_disk (sound_disk []);
       (cp1, out1) = createDeployment demo_env cp rq []; (cp2, out2) = createDeployment demo_env cp1 rq []
   in out1 = writeError 500 ''failed to persist deployment state''
      \<and> (case ledger_Current (cp_ledger cp1) ''api'' ''staging'' of None \<Rightarrow> False | Some m \<Rightarrow> dm_Version m = ''1'')
      \<and> fileDeployment_Load ''s.json'' (cp_world cp1) = Inr NewDeploymentLedger
      \<and> (case out2 of Reply code _ \<Rightarrow> code = 409 | _ \<Rightarrow> False)"
  by code_simp

text \<open>
  A gate set for a service and environment is what a release created for exactly these needs;
  but a release created with no environment becomes a \<open>prod\<close> release that ignores the gate of
  \<open>prod\<close>: with three approvals required for \<open>prod\<close>, one is enough.
\<close>

theorem release_blank_environment_bypasses_gate:
  "let cp = SetWorkflowGate demo_server ''api'' ''prod'' 3;
       cp1 = fst (createRelease demo_env cp (demo_request ''POST'' ''/api/v1/releases'' [] []) []);
       cp2 = fst (approveRelease demo_env cp1 (demo_request ''POST'' [] [] ''ana'') [''api'', [], ''1''])
   in required_approvals cp ''api'' ''prod'' = 3
      \<and> (case cp_workflow cp2 ''api'' [] ''1'' of None \<Rightarrow> False
         | Some rw \<Rightarrow> rw_Environment rw = ''prod'' \<and> rw_State rw = ''approved'')"
  by code_simp

text \<open>A release that is created answers 201 with exactly the approvals its gate requires, pending,
  and an existing one is never replaced.
\<close>

theorem createRelease_gate:
  assumes "dec_release env (rq_Body rq) = Some d"
  defines "k \<equiv> workflowKey (re_Service d) (re_Environment d) (re_Version d)"
  shows "(case gm_get (cp_workflows cp) k of
      Some rw \<Rightarrow> createRelease env cp rq parts = (cp, writeError 409 ''release workflow already exists'')
    | None \<Rightarrow> \<exists>rw g. gm_get (cp_workflows (fst (createRelease env cp rq parts))) k = Some rw
        \<and> rw_State rw = ''pending'' \<and> rw_Gate rw = Some g \<and> ag_Approvals g = []
        \<and> ag_Required g = required_approvals cp (re_Service d) (re_Environment d)
        \<and> snd (createRelease env cp rq parts) = Reply 201 (Fields [(''status'', JStr ''pending''), (''workflow'', JStr k)]))"
proof (cases "gm_get (cp_workflows cp) k")
  case None
  have "1 \<le> required_approvals cp (re_Service d) (re_Environment d)"
    by (auto simp: required_approvals_def Let_def)
  then show ?thesis
    using None assms
    by (simp add: createRelease_state gm_get_put new_workflow_def NewReleaseWorkflow_def NewApprovalGate_def Let_def,
        simp add: createRelease_def Let_def)
next
  case (Some rw)
  then show ?thesis using assms by (simp add: createRelease_def Let_def)
qed


lemma createRelease_gate_witness:
  "case gm_get (cp_workflows (fst (createRelease demo_env demo_server (demo_request ''POST'' [] [] ''staging'') []))) ''api/staging/1'' of
     None \<Rightarrow> False | Some rw \<Rightarrow> rw_State rw = ''pending'' \<and> map_option ag_Required (rw_Gate rw) = Some 1"
proof -
  let ?rq = "demo_request ''POST'' [] [] ''staging''"
  let ?d = "\<lparr>re_Service = ''api'', re_Environment = ''staging'', re_Version = ''1''\<rparr>"
  have d: "dec_release demo_env (rq_Body ?rq) = Some ?d" by code_simp
  have k: "workflowKey (re_Service ?d) (re_Environment ?d) (re_Version ?d) = ''api/staging/1''" by code_simp
  have "gm_get (cp_workflows demo_server) ''api/staging/1'' = None"
    "required_approvals demo_server (re_Service ?d) (re_Environment ?d) = 1" by code_simp+
  then show ?thesis using createRelease_gate [OF d, where cp = demo_server and parts = "[]"] unfolding k by auto
qed

end
