(* ===== verification/Telemetry.thy ===== *)
theory Telemetry
  imports Go_Paths
begin

text \<open>
  Request telemetry (\<open>pkg/runtime/metrics.go\<close>) and what is computed from it in
  \<open>pkg/runtime/health.go\<close>: counters, latency histograms with a sliding window of samples, the
  ring of the last 1000 outcomes, the alert threshold, and readiness checks.

  Counters and durations are 64-bit integers that wrap (\<open>int64\<close>); an error rate is a rational.
\<close>

section \<open>Latency histograms\<close>

record DurationPercentiles =
  dp_P50 :: int
  dp_P95 :: int
  dp_P99 :: int

record RouteHistogram =
  hg_samples :: "int list"
  hg_maxSize :: nat
  hg_dirty :: bool
  hg_p50 :: int
  hg_p95 :: int
  hg_P99 :: int

definition newRouteHistogram :: "nat \<Rightarrow> RouteHistogram" where
  "newRouteHistogram capacity =
     \<lparr>hg_samples = [], hg_maxSize = capacity, hg_dirty = False, hg_p50 = 0, hg_p95 = 0, hg_P99 = 0\<rparr>"

definition hist_Record :: "RouteHistogram \<Rightarrow> int \<Rightarrow> RouteHistogram" where
  "hist_Record h d =
     (let d = (if d < 0 then 0 else d);
          samples = hg_samples h @ [d];
          samples = (if length samples > hg_maxSize h
                     then (let cut = hg_maxSize h div 10; cut = (if cut < 1 then 1 else cut)
                           in drop cut samples)
                     else samples)
      in h\<lparr>hg_samples := samples, hg_dirty := True\<rparr>)"

definition recomputePercentiles :: "RouteHistogram \<Rightarrow> RouteHistogram" where
  "recomputePercentiles h =
     (if length (hg_samples h) = 0 then h\<lparr>hg_p50 := 0, hg_p95 := 0, hg_P99 := 0\<rparr>
      else
        (let sorted = sort (hg_samples h); n = length sorted
         in h\<lparr>hg_p50 := sorted ! (n * 50 div 100), hg_p95 := sorted ! (n * 95 div 100),
              hg_P99 := sorted ! (n * 99 div 100)\<rparr>))"

definition hist_Snapshot :: "RouteHistogram \<Rightarrow> RouteHistogram \<times> DurationPercentiles" where
  "hist_Snapshot h =
     (let h = (if hg_dirty h then (recomputePercentiles h)\<lparr>hg_dirty := False\<rparr> else h)
      in (h, \<lparr>dp_P50 = hg_p50 h, dp_P95 = hg_p95 h, dp_P99 = hg_P99 h\<rparr>))"

section \<open>The collector\<close>

definition errorWindowCap :: nat where
  "errorWindowCap = 1000"

record Metrics =
  mt_totalRequests :: int
  mt_totalErrors :: int
  mt_totalLatency :: int
  mt_byMethod :: "(string, int) gomap"
  mt_byRoute :: "(string, int) gomap"
  mt_byStatus :: "(int, int) gomap"
  mt_byRouteLatency :: "(string, int) gomap"
  mt_byRouteHistogram :: "(string, RouteHistogram) gomap"
  mt_latencyHistogram :: RouteHistogram
  mt_errorWindow :: "bool list option"
  mt_errorWinHead :: nat
  mt_errorWinCount :: int
  mt_errorWinErrs :: int

definition NewMetrics :: Metrics where
  "NewMetrics = \<lparr>mt_totalRequests = 0, mt_totalErrors = 0, mt_totalLatency = 0, mt_byMethod = [], mt_byRoute = [],
     mt_byStatus = [], mt_byRouteLatency = [], mt_byRouteHistogram = [],
     mt_latencyHistogram = newRouteHistogram 10000, mt_errorWindow = None, mt_errorWinHead = 0,
     mt_errorWinCount = 0, mt_errorWinErrs = 0\<rparr>"

text \<open>\<open>m[k] += d\<close> on a map of 64-bit counters.\<close>

definition count_add :: "'k \<Rightarrow> int \<Rightarrow> ('k, int) gomap \<Rightarrow> ('k, int) gomap" where
  "count_add k d m = gm_put k (int64 (gm_getd 0 m k + d)) m"

text \<open>The part of \<open>Record\<close> that maintains the ring of outcomes.\<close>

definition window_Record :: "bool \<Rightarrow> Metrics \<Rightarrow> Metrics" where
  "window_Record failed m =
     (let ring = (case mt_errorWindow m of None \<Rightarrow> replicate errorWindowCap False | Some r \<Rightarrow> r);
          head = mt_errorWinHead m in
      if mt_errorWinCount m < int errorWindowCap then
        m\<lparr>mt_errorWindow := Some (ring[head := failed]), mt_errorWinHead := (head + 1) mod errorWindowCap,
          mt_errorWinCount := mt_errorWinCount m + 1,
          mt_errorWinErrs := (if failed then mt_errorWinErrs m + 1 else mt_errorWinErrs m)\<rparr>
      else
        (let evicted = ring ! head;
             errs = (if evicted then mt_errorWinErrs m - 1 else mt_errorWinErrs m) in
         m\<lparr>mt_errorWindow := Some (ring[head := failed]), mt_errorWinHead := (head + 1) mod errorWindowCap,
           mt_errorWinErrs := (if failed then errs + 1 else errs)\<rparr>))"

definition metrics_Record :: "Metrics \<Rightarrow> string \<Rightarrow> string \<Rightarrow> int \<Rightarrow> int option \<Rightarrow> Metrics" where
  "metrics_Record m http_method route status elapsed =
     (let http_method = ToUpper (TrimSpace http_method);
          http_method = (if http_method = [] then ''GET'' else http_method);
          route = normalizePath route;
          duration = (case elapsed of None \<Rightarrow> 0 | Some d \<Rightarrow> if d < 0 then 0 else d);
          m = m\<lparr>mt_totalRequests := int64 (mt_totalRequests m + 1),
                mt_byMethod := count_add http_method 1 (mt_byMethod m),
                mt_byRoute := count_add route 1 (mt_byRoute m),
                mt_byStatus := count_add status 1 (mt_byStatus m),
                mt_totalLatency := int64 (mt_totalLatency m + duration),
                mt_byRouteLatency := count_add route duration (mt_byRouteLatency m),
                mt_totalErrors := (if status \<ge> 400 then int64 (mt_totalErrors m + 1) else mt_totalErrors m)\<rparr>;
          m = window_Record (status \<ge> 400) m;
          routeHist = (case gm_get (mt_byRouteHistogram m) route of
              None \<Rightarrow> newRouteHistogram 1000 | Some h \<Rightarrow> h)
      in m\<lparr>mt_latencyHistogram := hist_Record (mt_latencyHistogram m) duration,
           mt_byRouteHistogram := gm_put route (hist_Record routeHist duration) (mt_byRouteHistogram m)\<rparr>)"

definition ErrorWindow :: "Metrics \<Rightarrow> int \<Rightarrow> int \<times> rat" where
  "ErrorWindow m bound =
     (if bound \<le> 0 then (0, 0)
      else
        (let reqs = mt_errorWinCount m; reqs = (if reqs > bound then bound else reqs) in
         if reqs = 0 then (0, 0) else (reqs, of_int (mt_errorWinErrs m) / of_int reqs)))"

record MetricsSnapshot =
  ms_TotalRequests :: int
  ms_TotalErrors :: int
  ms_TotalLatency :: int
  ms_AvgLatency :: int
  ms_ByMethod :: "(string, int) gomap"
  ms_ByRoute :: "(string, int) gomap"
  ms_ByStatus :: "(int, int) gomap"
  ms_ByRouteLatency :: "(string, int) gomap"
  ms_ByRoutePercentiles :: "(string, DurationPercentiles) gomap"

text \<open>
  A snapshot recomputes the dirty histograms, so it changes them. Go's integer division truncates.
\<close>

definition metrics_Snapshot :: "Metrics \<Rightarrow> Metrics \<times> MetricsSnapshot" where
  "metrics_Snapshot m =
     (let hists = map (\<lambda>(k, h). (k, hist_Snapshot h)) (mt_byRouteHistogram m);
          m = m\<lparr>mt_byRouteHistogram := map (\<lambda>(k, hp). (k, fst hp)) hists\<rparr>;
          total = mt_totalRequests m; latency = mt_totalLatency m in
      (m, \<lparr>ms_TotalRequests = total, ms_TotalErrors = mt_totalErrors m, ms_TotalLatency = latency,
           ms_AvgLatency = (if total > 0 then sgn latency * (\<bar>latency\<bar> div total) else 0),
           ms_ByMethod = mt_byMethod m, ms_ByRoute = mt_byRoute m, ms_ByStatus = mt_byStatus m,
           ms_ByRouteLatency = mt_byRouteLatency m,
           ms_ByRoutePercentiles = map (\<lambda>(k, hp). (k, snd hp)) hists\<rparr>))"

definition GlobalPercentiles :: "Metrics \<Rightarrow> Metrics \<times> DurationPercentiles" where
  "GlobalPercentiles m =
     (let (h, p) = hist_Snapshot (mt_latencyHistogram m) in (m\<lparr>mt_latencyHistogram := h\<rparr>, p))"

definition RoutePercentiles :: "Metrics \<Rightarrow> string \<Rightarrow> Metrics \<times> DurationPercentiles" where
  "RoutePercentiles m route =
     (let route = normalizePath route in
      case gm_get (mt_byRouteHistogram m) route of
        None \<Rightarrow> (m, \<lparr>dp_P50 = 0, dp_P95 = 0, dp_P99 = 0\<rparr>)
      | Some h \<Rightarrow>
          (let (h, p) = hist_Snapshot h
           in (m\<lparr>mt_byRouteHistogram := gm_put route h (mt_byRouteHistogram m)\<rparr>, p)))"

section \<open>The alert threshold\<close>

record alertThreshold =
  al_threshold :: rat
  al_triggered :: bool

text \<open>
  What the middleware does after each request: the state of the alert and, when it fires, the
  error rate passed to the callback.
\<close>

definition alert_check :: "alertThreshold \<Rightarrow> rat \<Rightarrow> alertThreshold \<times> rat option" where
  "alert_check alert errorRate =
     (if errorRate \<ge> al_threshold alert \<and> \<not> al_triggered alert then
        (alert\<lparr>al_triggered := True\<rparr>, Some errorRate)
      else if errorRate < al_threshold alert then (alert\<lparr>al_triggered := False\<rparr>, None)
      else (alert, None))"

definition alert_after_request :: "alertThreshold \<Rightarrow> Metrics \<Rightarrow> alertThreshold \<times> rat option" where
  "alert_after_request alert m = alert_check alert (snd (ErrorWindow m (int errorWindowCap)))"

section \<open>Readiness\<close>

text \<open>
  The checks run in order until one fails; \<open>None\<close> is a nil check. The result is the status code
  and the error reported.
\<close>

fun readiness :: "(unit \<Rightarrow> error) option list \<Rightarrow> int \<times> error" where
  "readiness [] = (200, nil)"
| "readiness (None # checks) = readiness checks"
| "readiness (Some check # checks) =
     (case check () of Some err \<Rightarrow> (503, Some err) | None \<Rightarrow> readiness checks)"

definition readinessTimeout :: "int \<Rightarrow> int" where
  "readinessTimeout configured = (if configured \<le> 0 then 2 * 10 ^ 9 else configured)"

section \<open>Histograms: the window and the percentiles\<close>

text \<open>The window never exceeds the capacity, and keeps the most recent samples.\<close>

definition hist_ok :: "RouteHistogram \<Rightarrow> bool" where
  "hist_ok h \<longleftrightarrow> 1 \<le> hg_maxSize h \<and> length (hg_samples h) \<le> hg_maxSize h
     \<and> (\<forall>d \<in> set (hg_samples h). 0 \<le> d)
     \<and> (\<not> hg_dirty h \<longrightarrow> (hg_p50 h, hg_p95 h, hg_P99 h) =
          (let r = recomputePercentiles h in (hg_p50 r, hg_p95 r, hg_P99 r)))"

lemma hist_ok_new: "1 \<le> c \<Longrightarrow> hist_ok (newRouteHistogram c)"
  by (simp add: hist_ok_def newRouteHistogram_def recomputePercentiles_def Let_def)

lemma hist_Record_simps [simp]:
  "hg_maxSize (hist_Record h d) = hg_maxSize h" "hg_dirty (hist_Record h d)"
  by (simp_all add: hist_Record_def Let_def)

lemma hist_Record_suffix: "suffix (hg_samples (hist_Record h d)) (hg_samples h @ [max 0 d])"
  by (auto simp: hist_Record_def Let_def max_def suffix_drop)

lemma hist_Record_last: "1 \<le> hg_maxSize h \<Longrightarrow> length (hg_samples h) \<le> hg_maxSize h \<Longrightarrow>
    hg_samples (hist_Record h d) \<noteq> []"
  by (auto simp: hist_Record_def Let_def)

lemma hist_ok_Record: "hist_ok h \<Longrightarrow> hist_ok (hist_Record h d)"
proof -
  assume ok: "hist_ok h"
  have "length (hg_samples (hist_Record h d)) \<le> hg_maxSize h"
    using ok by (auto simp: hist_Record_def Let_def hist_ok_def)
  moreover have "set (hg_samples (hist_Record h d)) \<subseteq> set (hg_samples h @ [max 0 d])"
    using hist_Record_suffix by (rule set_mono_suffix)
  ultimately show ?thesis using ok by (auto simp: hist_ok_def max_def split: if_splits)
qed

lemma recompute_idem: "hg_samples (recomputePercentiles h) = hg_samples h" "hg_maxSize (recomputePercentiles h) = hg_maxSize h"
  "hg_dirty (recomputePercentiles h) = hg_dirty h"
  by (simp_all add: recomputePercentiles_def Let_def)

lemma hist_Snapshot_value:
  "hist_ok h \<Longrightarrow> snd (hist_Snapshot h) =
     (let r = recomputePercentiles h in \<lparr>dp_P50 = hg_p50 r, dp_P95 = hg_p95 r, dp_P99 = hg_P99 r\<rparr>)"
  by (auto simp: hist_Snapshot_def hist_ok_def Let_def)

lemma recompute_again:
  "hg_p50 (recomputePercentiles (h\<lparr>hg_p50 := a, hg_p95 := b, hg_P99 := c, hg_dirty := e\<rparr>)) = hg_p50 (recomputePercentiles h)"
  "hg_p95 (recomputePercentiles (h\<lparr>hg_p50 := a, hg_p95 := b, hg_P99 := c, hg_dirty := e\<rparr>)) = hg_p95 (recomputePercentiles h)"
  "hg_P99 (recomputePercentiles (h\<lparr>hg_p50 := a, hg_p95 := b, hg_P99 := c, hg_dirty := e\<rparr>)) = hg_P99 (recomputePercentiles h)"
  by (simp_all add: recomputePercentiles_def Let_def)

lemma hist_ok_Snapshot: "hist_ok h \<Longrightarrow> hist_ok (fst (hist_Snapshot h))"
  by (auto simp: hist_Snapshot_def hist_ok_def Let_def recompute_idem recomputePercentiles_def)

section \<open>Sequences of requests\<close>

record observation =
  ob_method :: string
  ob_route :: string
  ob_status :: int
  ob_elapsed :: "int option"

definition record_one :: "Metrics \<Rightarrow> observation \<Rightarrow> Metrics" where
  "record_one m x = metrics_Record m (ob_method x) (ob_route x) (ob_status x) (ob_elapsed x)"

definition failed :: "observation \<Rightarrow> bool" where
  "failed x \<longleftrightarrow> 400 \<le> ob_status x"

definition method_label :: "observation \<Rightarrow> string" where
  "method_label x = (let s = ToUpper (TrimSpace (ob_method x)) in if s = [] then ''GET'' else s)"

definition latency :: "observation \<Rightarrow> int" where
  "latency x = (case ob_elapsed x of None \<Rightarrow> 0 | Some d \<Rightarrow> max 0 d)"

lemma record_one_fields:
  "mt_totalRequests (record_one m x) = int64 (mt_totalRequests m + 1)"
  "mt_totalErrors (record_one m x) = (if failed x then int64 (mt_totalErrors m + 1) else mt_totalErrors m)"
  "mt_totalLatency (record_one m x) = int64 (mt_totalLatency m + latency x)"
  "mt_byMethod (record_one m x) = count_add (method_label x) 1 (mt_byMethod m)"
  "mt_byRoute (record_one m x) = count_add (normalizePath (ob_route x)) 1 (mt_byRoute m)"
  "mt_byStatus (record_one m x) = count_add (ob_status x) 1 (mt_byStatus m)"
  "mt_byRouteLatency (record_one m x) = count_add (normalizePath (ob_route x)) (latency x) (mt_byRouteLatency m)"
  by (simp_all add: record_one_def metrics_Record_def window_Record_def Let_def failed_def method_label_def
      latency_def max_def split: option.split)

lemma record_one_ring:
  "mt_errorWindow (record_one m x) = mt_errorWindow (window_Record (failed x) m)"
  "mt_errorWinHead (record_one m x) = mt_errorWinHead (window_Record (failed x) m)"
  "mt_errorWinCount (record_one m x) = mt_errorWinCount (window_Record (failed x) m)"
  "mt_errorWinErrs (record_one m x) = mt_errorWinErrs (window_Record (failed x) m)"
  by (simp_all add: record_one_def metrics_Record_def window_Record_def Let_def failed_def)

section \<open>The ring holds the last outcomes\<close>

definition ring_of :: "Metrics \<Rightarrow> bool list" where
  "ring_of m = (case mt_errorWindow m of None \<Rightarrow> replicate errorWindowCap False | Some r \<Rightarrow> r)"

definition recent :: "'a list \<Rightarrow> 'a list" where
  "recent xs = drop (length xs - errorWindowCap) xs"

definition ring_ok :: "Metrics \<Rightarrow> bool list \<Rightarrow> bool" where
  "ring_ok m xs \<longleftrightarrow>
     length (ring_of m) = errorWindowCap \<and> mt_errorWinHead m = length xs mod errorWindowCap
     \<and> mt_errorWinCount m = int (min (length xs) errorWindowCap)
     \<and> (\<forall>j < length xs. length xs \<le> j + errorWindowCap \<longrightarrow> ring_of m ! (j mod errorWindowCap) = xs ! j)
     \<and> mt_errorWinErrs m = int (length (filter id (recent xs)))"

lemma errorWindowCap_pos [simp]: "0 < errorWindowCap" "errorWindowCap \<noteq> 0"
  by (simp_all add: errorWindowCap_def)

lemma mod_distinct:
  assumes "(j :: nat) < n" "n < j + c"
  shows "j mod c \<noteq> n mod c"
proof
  assume "j mod c = n mod c"
  then have "c dvd n - j" using assms(1) by (metis mod_eq_dvd_iff_nat nat_less_le)
  moreover have "0 < n - j" "n - j < c" using assms by auto
  ultimately show False using nat_dvd_not_less by blast
qed

lemma tl_recent: "tl (recent xs) = drop (Suc (length xs - errorWindowCap)) xs"
  by (simp add: recent_def tl_drop drop_Suc)

lemma recent_snoc:
  "recent (xs @ [x]) = (if length xs < errorWindowCap then xs @ [x] else tl (recent xs) @ [x])"
proof (cases "length xs < errorWindowCap")
  case False
  then have "Suc (length xs) - errorWindowCap = Suc (length xs - errorWindowCap)"
    "Suc (length xs - errorWindowCap) \<le> length xs"
    using errorWindowCap_pos(1) by linarith+
  with False show ?thesis unfolding tl_recent by (simp add: recent_def)
qed (simp add: recent_def)

lemma recent_cons:
  assumes "errorWindowCap \<le> length xs"
  shows "recent xs = xs ! (length xs - errorWindowCap) # tl (recent xs)"
proof -
  have "length xs - errorWindowCap < length xs" using assms errorWindowCap_pos(1) by linarith
  then show ?thesis unfolding tl_recent by (simp add: recent_def Cons_nth_drop_Suc)
qed

lemma window_Record_simps:
  "ring_of (window_Record f m) = (ring_of m)[mt_errorWinHead m := f]"
  "mt_errorWinHead (window_Record f m) = (mt_errorWinHead m + 1) mod errorWindowCap"
  "mt_errorWinCount (window_Record f m) =
     (if mt_errorWinCount m < int errorWindowCap then mt_errorWinCount m + 1 else mt_errorWinCount m)"
  "mt_errorWinErrs (window_Record f m) = mt_errorWinErrs m + of_bool f
     - of_bool (\<not> mt_errorWinCount m < int errorWindowCap \<and> ring_of m ! mt_errorWinHead m)"
  by (simp_all add: window_Record_def ring_of_def Let_def)

lemma ring_ok_Record:
  assumes "ring_ok m xs"
  shows "ring_ok (window_Record f m) (xs @ [f])"
proof -
  let ?c = errorWindowCap and ?n = "length xs"
  have len: "length (ring_of m) = ?c" and head: "mt_errorWinHead m = ?n mod ?c"
    and count: "mt_errorWinCount m = int (min ?n ?c)"
    and ring: "\<And>j. j < ?n \<Longrightarrow> ?n \<le> j + ?c \<Longrightarrow> ring_of m ! (j mod ?c) = xs ! j"
    and errs: "mt_errorWinErrs m = int (length (filter id (recent xs)))"
    using assms by (auto simp: ring_ok_def)
  have "(ring_of m)[?n mod ?c := f] ! (j mod ?c) = (xs @ [f]) ! j" if "j < Suc ?n" "Suc ?n \<le> j + ?c" for j
  proof (cases "j = ?n")
    case True
    then show ?thesis by (simp add: len)
  next
    case False
    then have "j mod ?c \<noteq> ?n mod ?c" using that by (intro mod_distinct) auto
    with False that ring [of j] show ?thesis by (simp add: nth_append)
  qed
  moreover have "mt_errorWinErrs (window_Record f m) = int (length (filter id (recent (xs @ [f]))))"
  proof (cases "?n < ?c")
    case True
    then have "recent xs = xs" by (simp add: recent_def)
    with True errs show ?thesis by (simp add: window_Record_simps count recent_snoc)
  next
    case False
    have "?n - ?c < ?n" using False errorWindowCap_pos(1) by linarith
    then have "ring_of m ! (?n mod ?c) = xs ! (?n - ?c)"
      using ring [of "?n - ?c"] False by (simp add: le_mod_geq [symmetric])
    moreover have "recent xs = xs ! (?n - ?c) # tl (recent xs)" using False by (intro recent_cons) simp
    from arg_cong [OF this, of "\<lambda>l. length (filter id l)"]
    have "length (filter id (recent xs)) = of_bool (xs ! (?n - ?c)) + length (filter id (tl (recent xs)))"
      by simp
    ultimately show ?thesis
      using False errs by (simp add: window_Record_simps count head recent_snoc)
  qed
  ultimately show ?thesis
    using len by (simp add: ring_ok_def window_Record_simps head count mod_Suc_eq)
qed

lemma ring_ok_cong:
  assumes "mt_errorWindow m' = mt_errorWindow m" "mt_errorWinHead m' = mt_errorWinHead m"
    "mt_errorWinCount m' = mt_errorWinCount m" "mt_errorWinErrs m' = mt_errorWinErrs m"
  shows "ring_ok m' xs = ring_ok m xs"
  using assms by (simp add: ring_ok_def ring_of_def)

lemma ring_ok_run: "ring_ok m os \<Longrightarrow> ring_ok (run record_one m xs) (os @ map failed xs)"
proof (induction xs arbitrary: m os)
  case (Cons x xs)
  have "ring_ok (window_Record (failed x) m) (os @ [failed x])" using Cons.prems by (rule ring_ok_Record)
  then have "ring_ok (record_one m x) (os @ [failed x])"
    using ring_ok_cong [OF record_one_ring] by blast
  from Cons.IH [OF this] show ?case by simp
qed simp

lemma ring_ok_New: "ring_ok NewMetrics []"
  by (simp add: ring_ok_def NewMetrics_def ring_of_def recent_def)

section \<open>The counters\<close>

lemma int64_add_left: "int64 (int64 a + b) = int64 (a + b)"
  by (simp add: int64_def)

lemma int64_add_right: "int64 (b + int64 a) = int64 (b + a)"
  using int64_add_left [of a b] by (simp only: add.commute)

lemma count_add_get: "gm_getd 0 (count_add k d m) k' = (if k' = k then int64 (gm_getd 0 m k + d) else gm_getd 0 m k')"
  by (simp add: count_add_def)

definition tally :: "(observation \<Rightarrow> bool) \<Rightarrow> observation list \<Rightarrow> int" where
  "tally P xs = int (length (filter P xs))"

definition counters_ok :: "Metrics \<Rightarrow> observation list \<Rightarrow> bool" where
  "counters_ok m xs \<longleftrightarrow>
     mt_totalRequests m = int64 (int (length xs)) \<and> mt_totalErrors m = int64 (tally failed xs)
     \<and> mt_totalLatency m = int64 (\<Sum>x\<leftarrow>xs. latency x)
     \<and> (\<forall>k. gm_getd 0 (mt_byMethod m) k = int64 (tally (\<lambda>x. method_label x = k) xs))
     \<and> (\<forall>k. gm_getd 0 (mt_byRoute m) k = int64 (tally (\<lambda>x. normalizePath (ob_route x) = k) xs))
     \<and> (\<forall>k. gm_getd 0 (mt_byStatus m) k = int64 (tally (\<lambda>x. ob_status x = k) xs))
     \<and> (\<forall>k. gm_getd 0 (mt_byRouteLatency m) k
              = int64 (\<Sum>x\<leftarrow>filter (\<lambda>x. normalizePath (ob_route x) = k) xs. latency x))"

lemma tally_snoc: "tally P (xs @ [x]) = tally P xs + of_bool (P x)"
  by (simp add: tally_def)

lemma counters_ok_Record:
  assumes "counters_ok m xs"
  shows "counters_ok (record_one m x) (xs @ [x])"
  using assms unfolding counters_ok_def record_one_fields count_add_get tally_snoc
  by (auto simp: int64_add_left int64_add_right add.commute [of "latency x"] add.commute [of _ 1])

lemma counters_ok_run: "counters_ok m os \<Longrightarrow> counters_ok (run record_one m xs) (os @ xs)"
proof (induction xs arbitrary: m os)
  case (Cons x xs)
  from Cons.IH [OF counters_ok_Record [OF Cons.prems]] show ?case by simp
qed simp

lemma counters_ok_New: "counters_ok NewMetrics []"
  by (simp add: counters_ok_def NewMetrics_def tally_def int64_id)

section \<open>Sorted samples\<close>

text \<open>In a sorted list the element at index \<open>k\<close> has at least \<open>k + 1\<close> elements up to it.\<close>

lemma sorted_rank:
  assumes "sorted xs" "k < length xs"
  shows "k + 1 \<le> length (filter (\<lambda>x. x \<le> xs ! k) xs)"
proof -
  have "x \<le> xs ! k" if m: "x \<in> set (take (Suc k) xs)" for x
  proof -
    obtain i where "i < Suc k" "x = xs ! i" using m assms(2) by (auto simp: in_set_conv_nth)
    with assms show ?thesis by (simp add: sorted_nth_mono)
  qed
  then have "filter (\<lambda>x. x \<le> xs ! k) (take (Suc k) xs) = take (Suc k) xs" by (simp add: filter_id_conv)
  then have "Suc k = length (filter (\<lambda>x. x \<le> xs ! k) (take (Suc k) xs))" using assms(2) by simp
  also have "\<dots> \<le> length (filter (\<lambda>x. x \<le> xs ! k) (take (Suc k) xs @ drop (Suc k) xs))"
    by (simp only: filter_append length_append le_add1)
  finally show ?thesis by simp
qed

lemma filter_sort_length: "length (filter P (sort xs)) = length (filter P xs)"
  by (metis mset_filter mset_sort size_mset)

definition percentile_ok :: "nat \<Rightarrow> int \<Rightarrow> int list \<Rightarrow> bool" where
  "percentile_ok k p xs \<longleftrightarrow> p \<in> set xs \<and> length xs * k div 100 + 1 \<le> length (filter (\<lambda>x. x \<le> p) xs)"

lemma percentile_ok_nth:
  assumes "xs \<noteq> []" "k < 100"
  shows "percentile_ok k (sort xs ! (length xs * k div 100)) xs"
proof -
  have "length xs * k < length xs * 100" using assms by simp
  then have i: "length xs * k div 100 < length (sort xs)"
    unfolding length_sort by (rule less_mult_imp_div_less)
  then have "sort xs ! (length xs * k div 100) \<in> set (sort xs)" by (rule nth_mem)
  then show ?thesis
    using sorted_rank [OF sorted_sort i] by (simp add: percentile_ok_def filter_sort_length)
qed

lemma recompute_percentiles:
  assumes "hg_samples h \<noteq> []"
  shows "percentile_ok 50 (hg_p50 (recomputePercentiles h)) (hg_samples h)"
    "percentile_ok 95 (hg_p95 (recomputePercentiles h)) (hg_samples h)"
    "percentile_ok 99 (hg_P99 (recomputePercentiles h)) (hg_samples h)"
    "hg_p50 (recomputePercentiles h) \<le> hg_p95 (recomputePercentiles h)"
    "hg_p95 (recomputePercentiles h) \<le> hg_P99 (recomputePercentiles h)"
proof -
  let ?s = "hg_samples h"
  show "percentile_ok 50 (hg_p50 (recomputePercentiles h)) ?s"
    "percentile_ok 95 (hg_p95 (recomputePercentiles h)) ?s"
    "percentile_ok 99 (hg_P99 (recomputePercentiles h)) ?s"
    using percentile_ok_nth [OF assms, of 50] percentile_ok_nth [OF assms, of 95]
      percentile_ok_nth [OF assms, of 99] assms by (simp_all add: recomputePercentiles_def Let_def)
  have "length ?s * 99 < length ?s * 100" using assms by simp
  then have "length ?s * 99 div 100 < length ?s" by (rule less_mult_imp_div_less)
  moreover have "length ?s * 50 div 100 \<le> length ?s * 95 div 100" "length ?s * 95 div 100 \<le> length ?s * 99 div 100"
    by (auto intro: div_le_mono)
  ultimately show "hg_p50 (recomputePercentiles h) \<le> hg_p95 (recomputePercentiles h)"
    "hg_p95 (recomputePercentiles h) \<le> hg_P99 (recomputePercentiles h)"
    using assms by (auto simp: recomputePercentiles_def Let_def intro!: sorted_nth_mono)
qed

lemma suffix_append_right: "suffix a b \<Longrightarrow> suffix (a @ c) (b @ c)"
  by (auto simp: suffix_def)

lemma hist_run:
  assumes "hist_ok h"
  shows "hist_ok (run hist_Record h ds)"
    and "suffix (hg_samples (run hist_Record h ds)) (hg_samples h @ map (max 0) ds)"
    and "ds \<noteq> [] \<Longrightarrow> hg_samples (run hist_Record h ds) \<noteq> []"
    and "hg_maxSize (run hist_Record h ds) = hg_maxSize h"
proof -
  have "hist_ok (run hist_Record h ds) \<and> hg_maxSize (run hist_Record h ds) = hg_maxSize h
    \<and> suffix (hg_samples (run hist_Record h ds)) (hg_samples h @ map (max 0) ds)
    \<and> (ds \<noteq> [] \<longrightarrow> hg_samples (run hist_Record h ds) \<noteq> [])"
    using assms
  proof (induction ds arbitrary: h)
    case (Cons d ds)
    have ok: "hist_ok (hist_Record h d)" by (rule hist_ok_Record [OF Cons.prems])
    have "suffix (hg_samples (hist_Record h d) @ map (max 0) ds) ((hg_samples h @ [max 0 d]) @ map (max 0) ds)"
      using hist_Record_suffix by (rule suffix_append_right)
    moreover have "hg_samples (hist_Record h d) \<noteq> []"
      using Cons.prems hist_Record_last unfolding hist_ok_def by blast
    ultimately show ?case
      using Cons.IH [OF ok] by (cases ds) (auto intro: suffix_order.trans)
  qed simp
  then show "hist_ok (run hist_Record h ds)"
    and "suffix (hg_samples (run hist_Record h ds)) (hg_samples h @ map (max 0) ds)"
    and "ds \<noteq> [] \<Longrightarrow> hg_samples (run hist_Record h ds) \<noteq> []"
    and "hg_maxSize (run hist_Record h ds) = hg_maxSize h" by blast+
qed

section \<open>Properties\<close>

text \<open>
  The error window is exact: after any sequence of requests, what the alert reads is the number
  of the last 1000 requests (all of them, while there are fewer) and exactly the fraction of these
  that failed, so the ring buffer agrees with the list of outcomes it summarises.
\<close>

theorem ErrorWindow_exact:
  assumes "xs \<noteq> []"
  shows "ErrorWindow (run record_one NewMetrics xs) (int errorWindowCap) =
     (int (length (recent xs)), of_int (tally failed (recent xs)) / of_int (int (length (recent xs))))"
proof -
  have "ring_ok (run record_one NewMetrics xs) (map failed xs)"
    using ring_ok_run [OF ring_ok_New] by simp
  moreover have "recent (map failed xs) = map failed (recent xs)" by (simp add: recent_def drop_map)
  moreover have "length (recent xs) = min (length xs) errorWindowCap" by (simp add: recent_def)
  moreover have "0 < min (length xs) errorWindowCap" using assms by simp
  ultimately show ?thesis
    by (simp add: ErrorWindow_def ring_ok_def Let_def tally_def filter_map o_def)
qed

lemma ErrorWindow_exact_witness:
  "ErrorWindow (run record_one NewMetrics
     [\<lparr>ob_method = ''GET'', ob_route = ''/a'', ob_status = 500, ob_elapsed = None\<rparr>,
      \<lparr>ob_method = ''GET'', ob_route = ''/a'', ob_status = 200, ob_elapsed = None\<rparr>]) (int errorWindowCap) = (2, 1 / 2)"
  (is "ErrorWindow (run _ _ ?xs) _ = _")
proof -
  have "recent ?xs = ?xs" by (simp add: recent_def errorWindowCap_def)
  then show ?thesis using ErrorWindow_exact [of ?xs] by (simp add: tally_def failed_def)
qed

text \<open>
  Every counter is exact modulo \<open>2^64\<close>: requests, errors, latency, and the counters by method
  (in upper case, GET when blank), route (normalised) and status, after any sequence of requests.
\<close>

theorem metrics_counters_exact:
  "counters_ok (run record_one NewMetrics xs) xs"
  using counters_ok_run [OF counters_ok_New] by simp

text \<open>
  Percentiles: whatever durations are recorded, the window is a non-empty tail of them (negative
  ones as zero) within the capacity, and the percentiles of a snapshot are samples of the window
  with the rank they stand for, in increasing order.
\<close>

theorem histogram_percentiles:
  assumes "1 \<le> c" "ds \<noteq> []"
  defines "h \<equiv> run hist_Record (newRouteHistogram c) ds"
  shows "suffix (hg_samples h) (map (max 0) ds) \<and> hg_samples h \<noteq> [] \<and> length (hg_samples h) \<le> c
    \<and> percentile_ok 50 (dp_P50 (snd (hist_Snapshot h))) (hg_samples h)
    \<and> percentile_ok 95 (dp_P95 (snd (hist_Snapshot h))) (hg_samples h)
    \<and> percentile_ok 99 (dp_P99 (snd (hist_Snapshot h))) (hg_samples h)
    \<and> dp_P50 (snd (hist_Snapshot h)) \<le> dp_P95 (snd (hist_Snapshot h))
    \<and> dp_P95 (snd (hist_Snapshot h)) \<le> dp_P99 (snd (hist_Snapshot h))"
proof -
  note r = hist_run [OF hist_ok_new [OF assms(1)], of ds, folded h_def]
  have ne: "hg_samples h \<noteq> []" using r(3) assms(2) by blast
  have "hg_samples (newRouteHistogram c) = []" "hg_maxSize (newRouteHistogram c) = c"
    by (simp_all add: newRouteHistogram_def)
  then show ?thesis
    using r ne recompute_percentiles [OF ne] hist_Snapshot_value [OF r(1)]
    by (simp add: Let_def hist_ok_def)
qed

lemma histogram_percentiles_witness:
  "dp_P99 (snd (hist_Snapshot (run hist_Record (newRouteHistogram 2) [5, -1, 3]))) = 3
   \<and> percentile_ok 99 3 [0, 3]"
proof -
  let ?h = "run hist_Record (newRouteHistogram 2) [5, -1, 3]"
  have "hg_samples ?h = [0, 3]" "dp_P99 (snd (hist_Snapshot ?h)) = 3" by code_simp+
  then show ?thesis using histogram_percentiles [of 2 "[5, -1, 3]"] by simp
qed

text \<open>
  \<open>ErrorWindow\<close> with a size below the number of recorded requests divides all the errors of the
  ring by that size, so what it reports as an error rate can exceed one.
\<close>

theorem ErrorWindow_small_size_exceeds_one:
  "ErrorWindow (run record_one NewMetrics
     [\<lparr>ob_method = ''GET'', ob_route = ''/a'', ob_status = 500, ob_elapsed = None\<rparr>,
      \<lparr>ob_method = ''GET'', ob_route = ''/a'', ob_status = 500, ob_elapsed = None\<rparr>]) 1 = (1, 2)"
  by (simp add: record_one_def metrics_Record_def window_Record_def NewMetrics_def Let_def ErrorWindow_def
      errorWindowCap_def)

text \<open>
  The alert is edge-triggered: over any sequence of error rates it fires exactly at the rates at
  or above the threshold whose predecessor (if any) was below it, with that rate.
\<close>

fun alert_run :: "alertThreshold \<Rightarrow> rat list \<Rightarrow> rat option list" where
  "alert_run a [] = []"
| "alert_run a (r # rs) = snd (alert_check a r) # alert_run (fst (alert_check a r)) rs"

fun crossings :: "rat \<Rightarrow> bool \<Rightarrow> rat list \<Rightarrow> rat option list" where
  "crossings t high [] = []"
| "crossings t high (r # rs) = (if t \<le> r \<and> \<not> high then Some r else None) # crossings t (t \<le> r) rs"

theorem alert_fires_on_crossings:
  "alert_run \<lparr>al_threshold = t, al_triggered = False\<rparr> rs = crossings t False rs"
proof -
  have "alert_run a rs = crossings (al_threshold a) (al_triggered a) rs" for a
    by (induction rs arbitrary: a) (auto simp: alert_check_def)
  from this [of "\<lparr>al_threshold = t, al_triggered = False\<rparr>"] show ?thesis by simp
qed

definition check_fails :: "(unit \<Rightarrow> error) option \<Rightarrow> bool" where
  "check_fails c \<longleftrightarrow> (case c of None \<Rightarrow> False | Some f \<Rightarrow> f () \<noteq> nil)"

lemma check_fails_simps [simp]: "\<not> check_fails None" "check_fails (Some f) \<longleftrightarrow> f () \<noteq> nil"
  by (simp_all add: check_fails_def)

text \<open>Readiness is 200 exactly when every check passes, and otherwise 503 with the error of the
  first check that fails, nil checks being skipped.
\<close>

theorem readiness_first_failure:
  "readiness checks = (case List.find check_fails checks of Some (Some f) \<Rightarrow> (503, f ()) | _ \<Rightarrow> (200, nil))"
proof (induction checks rule: readiness.induct)
  case (3 check checks)
  then show ?case by (cases "check ()") simp_all
qed simp_all

end
