(* ===== verification/Go_Http.thy ===== *)
theory Go_Http
  imports Go_Paths
begin

text \<open>
  HTTP as the runtime uses it: headers with canonical keys, requests with their context, upstream
  responses, and response writers. A handler produces the sequence of calls it makes on its
  \<open>http.ResponseWriter\<close>; each writer (the one of \<open>net/http\<close>, \<open>statusRecorder\<close> of
  \<open>pkg/runtime/metrics.go\<close>, \<open>failoverResponseWriter\<close> of \<open>pkg/runtime/proxy.go\<close>) interprets that
  sequence. Also the correlation ID of \<open>pkg/runtime/requestid.go\<close>.
\<close>

section \<open>Headers\<close>

type_synonym Header = "(string, string list) gomap"

definition token_byte :: "char \<Rightarrow> bool" where
  "token_byte c \<longleftrightarrow>
     CHR ''0'' \<le> c \<and> c \<le> CHR ''9'' \<or> CHR ''A'' \<le> c \<and> c \<le> CHR ''Z'' \<or> CHR ''a'' \<le> c \<and> c \<le> CHR ''z''
     \<or> c \<in> set ''!#$%&*+-.^_|~'' \<or> c = CHR 0x27 \<or> c = CHR 0x60"

fun canon_loop :: "bool \<Rightarrow> string \<Rightarrow> string" where
  "canon_loop up [] = []"
| "canon_loop up (c # cs) = (if up then upper_byte c else lower_byte c) # canon_loop (c = CHR ''-'') cs"

text \<open>\<open>textproto.CanonicalMIMEHeaderKey\<close>\<close>

definition canonKey :: "string \<Rightarrow> string" where
  "canonKey k = (if list_all token_byte k then canon_loop True k else k)"

definition Header_Get :: "Header \<Rightarrow> string \<Rightarrow> string" where
  "Header_Get h k = (case gm_get h (canonKey k) of Some (v # vs) \<Rightarrow> v | _ \<Rightarrow> [])"

definition Header_Set :: "string \<Rightarrow> string \<Rightarrow> Header \<Rightarrow> Header" where
  "Header_Set k v h = gm_put (canonKey k) [v] h"

definition Header_Add :: "string \<Rightarrow> string \<Rightarrow> Header \<Rightarrow> Header" where
  "Header_Add k v h = gm_put (canonKey k) (gm_getd [] h (canonKey k) @ [v]) h"

definition Header_Del :: "string \<Rightarrow> Header \<Rightarrow> Header" where
  "Header_Del k h = AList.delete (canonKey k) h"

text \<open>\<open>httputil.copyHeader\<close>: every value is added.\<close>

definition copyHeader :: "Header \<Rightarrow> Header \<Rightarrow> Header" where
  "copyHeader dst src = foldl (\<lambda>d (k, vs). foldl (\<lambda>d v. Header_Add k v d) d vs) dst src"

section \<open>Requests\<close>

text \<open>A value of type \<open>any\<close> in the claims of a token.\<close>

datatype any =
    ANil | ABool bool | AString string | AFloat rat | AInt int
  | AStrings "string list" | AList "any list" | AMap "(string \<times> any) list"

record Certificate =
  ct_CommonName :: string
  ct_DNSNames :: "string list"
  ct_URIs :: "string list"

record ClientIdentity =
  ci_CommonName :: string
  ci_DNSNames :: "string list"
  ci_URIs :: "string list"
  ci_Cert :: Certificate

text \<open>The values the runtime keeps in a request's context, under distinct unexported keys.\<close>

record Context =
  cx_requestID :: "string option"
  cx_proxyStart :: "int option"
  cx_tenant :: "string option"
  cx_claims :: "(string, any) gomap option"
  cx_identity :: "ClientIdentity option"
  cx_secrets :: "(string, string) gomap option"

definition Background :: Context where
  "Background = \<lparr>cx_requestID = None, cx_proxyStart = None, cx_tenant = None, cx_claims = None,
     cx_identity = None, cx_secrets = None\<rparr>"

text \<open>
  A body is the bytes that can be read and the error that follows them (\<open>nil\<close> for EOF);
  \<open>hq_GetBody\<close> is what \<open>GetBody\<close> yields, when it is set.
\<close>

record HttpRequest =
  hq_Method :: string
  hq_Scheme :: string
  hq_URLHost :: string
  hq_Path :: string
  hq_Host :: string
  hq_Header :: Header
  hq_ContentLength :: int
  hq_Body :: "(string \<times> error) option"
  hq_GetBody :: "(string + string) option"
  hq_RemoteAddr :: string
  hq_PeerCertificates :: "Certificate list option"
  hq_Context :: Context

text \<open>\<open>rs_ContentLength\<close> is -1 when the length is not known (a chunked response).\<close>

record Response =
  rs_Status :: int
  rs_Header :: Header
  rs_ContentLength :: int
  rs_Body :: string
  rs_closed :: bool

section \<open>Response writers\<close>

datatype wcall =
    HSet string string | HAdd string string | HDel string
  | WriteHeader int | Write string | Flush

definition http_Error :: "string \<Rightarrow> int \<Rightarrow> wcall list" where
  "http_Error msg code =
     [HDel ''Content-Length'', HSet ''Content-Type'' ''text/plain; charset=utf-8'',
      HSet ''X-Content-Type-Options'' ''nosniff'', WriteHeader code, Write (msg @ ''\<newline>'')]"

text \<open>
  The writer of \<open>net/http\<close>: the first final status wins, a write without one means 200, the header
  is fixed by the final status, and a status in 100-199 other than 101 is informational.
\<close>

record Sent =
  se_header :: Header
  se_code :: "int option"
  se_sent :: Header
  se_body :: string
  se_info :: "int list"

definition fresh_writer :: Sent where
  "fresh_writer = \<lparr>se_header = [], se_code = None, se_sent = [], se_body = [], se_info = []\<rparr>"

definition informational :: "int \<Rightarrow> bool" where
  "informational code \<longleftrightarrow> 100 \<le> code \<and> code \<le> 199 \<and> code \<noteq> 101"

definition net_WriteHeader :: "int \<Rightarrow> Sent \<Rightarrow> Sent" where
  "net_WriteHeader code s =
     (if se_code s \<noteq> None then s
      else if informational code then s\<lparr>se_info := se_info s @ [code]\<rparr>
      else s\<lparr>se_code := Some code, se_sent := se_header s\<rparr>)"

fun net_write :: "Sent \<Rightarrow> wcall \<Rightarrow> Sent" where
  "net_write s (HSet k v) = s\<lparr>se_header := Header_Set k v (se_header s)\<rparr>"
| "net_write s (HAdd k v) = s\<lparr>se_header := Header_Add k v (se_header s)\<rparr>"
| "net_write s (HDel k) = s\<lparr>se_header := Header_Del k (se_header s)\<rparr>"
| "net_write s (WriteHeader code) = net_WriteHeader code s"
| "net_write s (Write b) = (let s = net_WriteHeader 200 s in s\<lparr>se_body := se_body s @ b\<rparr>)"
| "net_write s Flush = net_WriteHeader 200 s"

text \<open>What the client gets when the handler returns: with nothing written, an empty 200.\<close>

definition finish :: "Sent \<Rightarrow> Sent" where
  "finish s = net_WriteHeader 200 s"

definition respond :: "wcall list \<Rightarrow> Sent" where
  "respond cs = finish (run net_write fresh_writer cs)"

subsection \<open>statusRecorder\<close>

text \<open>It notes the first status and passes every call on to the writer it wraps.\<close>

record statusRecorder =
  sr_status :: int
  sr_wroteCode :: bool

definition newStatusRecorder :: statusRecorder where
  "newStatusRecorder = \<lparr>sr_status = 200, sr_wroteCode = False\<rparr>"

definition recorder_WriteHeader :: "int \<Rightarrow> statusRecorder \<Rightarrow> statusRecorder" where
  "recorder_WriteHeader code sr =
     (if \<not> sr_wroteCode sr then sr\<lparr>sr_status := code, sr_wroteCode := True\<rparr> else sr)"

fun recorder_call :: "statusRecorder \<Rightarrow> wcall \<Rightarrow> statusRecorder" where
  "recorder_call sr (WriteHeader code) = recorder_WriteHeader code sr"
| "recorder_call sr (Write b) = recorder_WriteHeader 200 sr"
| "recorder_call sr c = sr"

definition StatusCode :: "statusRecorder \<Rightarrow> int" where
  "StatusCode sr = (if sr_status sr = 0 then 200 else sr_status sr)"

definition recorded_status :: "wcall list \<Rightarrow> int" where
  "recorded_status cs = StatusCode (run recorder_call newStatusRecorder cs)"

section \<open>Correlation IDs\<close>

definition id_headers :: "string list" where
  "id_headers = [''X-Request-ID'', ''X-Correlation-ID'', ''X-Trace-ID'']"

definition RequestIDFromRequest :: "HttpRequest \<Rightarrow> string" where
  "RequestIDFromRequest r =
     (case cx_requestID (hq_Context r) of
        Some i \<Rightarrow> if i \<noteq> [] then i
                  else (case find (\<lambda>h. TrimSpace (Header_Get (hq_Header r) h) \<noteq> []) id_headers of
                      Some h \<Rightarrow> TrimSpace (Header_Get (hq_Header r) h) | None \<Rightarrow> [])
      | None \<Rightarrow>
          (case find (\<lambda>h. TrimSpace (Header_Get (hq_Header r) h) \<noteq> []) id_headers of
             Some h \<Rightarrow> TrimSpace (Header_Get (hq_Header r) h) | None \<Rightarrow> []))"

text \<open>\<open>fresh\<close> is the text \<open>newRequestID\<close> generates.\<close>

definition ensureRequestID :: "string \<Rightarrow> HttpRequest \<Rightarrow> HttpRequest \<times> string" where
  "ensureRequestID fresh r =
     (let requestID = RequestIDFromRequest r in
      if requestID \<noteq> [] then (r, requestID)
      else
        (r\<lparr>hq_Header := foldl (\<lambda>h k. if Header_Get h k = [] then Header_Set k fresh h else h)
            (hq_Header r) id_headers\<rparr>, fresh))"

text \<open>The middleware of \<open>WithRequestID\<close>, around a handler.\<close>

definition requestID_middleware ::
  "string \<Rightarrow> ('s \<Rightarrow> HttpRequest \<Rightarrow> 's \<times> wcall list) \<Rightarrow> 's \<Rightarrow> HttpRequest \<Rightarrow> 's \<times> wcall list" where
  "requestID_middleware fresh next_handler s r =
     (let (r, requestID) = ensureRequestID fresh r;
          (s, calls) = next_handler s (r\<lparr>hq_Context := (hq_Context r)\<lparr>cx_requestID := Some requestID\<rparr>\<rparr>)
      in (s, map (\<lambda>h. HSet h requestID) id_headers @ calls))"

section \<open>Lemmas\<close>

lemma recorder_first:
  "sr_wroteCode sr \<Longrightarrow> run recorder_call sr cs = sr"
proof (induction cs)
  case (Cons c cs)
  then have "recorder_call sr c = sr" by (cases c) (simp_all add: recorder_WriteHeader_def)
  with Cons show ?case by simp
qed simp

lemma net_code_final: "se_code s \<noteq> None \<Longrightarrow> se_code (run net_write s cs) = se_code s \<and> se_sent (run net_write s cs) = se_sent s"
proof (induction cs arbitrary: s)
  case (Cons c cs)
  then have "se_code (net_write s c) = se_code s \<and> se_sent (net_write s c) = se_sent s"
    by (cases c) (auto simp: net_WriteHeader_def Let_def)
  with Cons show ?case by simp
qed simp

fun starts_with_info :: "wcall list \<Rightarrow> bool" where
  "starts_with_info [] = False"
| "starts_with_info (WriteHeader code # cs) = informational code"
| "starts_with_info (Write b # cs) = False"
| "starts_with_info (Flush # cs) = False"
| "starts_with_info (c # cs) = starts_with_info cs"

end
