(* ===== verification/Resilience.thy ===== *)
theory Resilience
  imports Go_Http
begin

text \<open>
  The three guards of the reverse proxy (\<open>pkg/runtime/proxy.go\<close>): the retrying transport, the
  circuit breaker and the token bucket, each with its state and every operation. An instant is a
  number of nanoseconds and is read once per locked method; a zero \<open>time.Time\<close> is \<open>None\<close>. The
  tokens of the bucket are rationals (the code uses float64).

  A transport is a function on a world \<open>'w\<close>: the world after the round trip, the response and the
  error.
\<close>

section \<open>The retrying transport\<close>

type_synonym 'w RoundTripper = "'w \<Rightarrow> HttpRequest \<Rightarrow> 'w \<times> Response option \<times> error"

definition close_response :: "Response option \<Rightarrow> Response option" where
  "close_response resp = map_option (\<lambda>r. r\<lparr>rs_closed := True\<rparr>) resp"

definition acceptable :: "Response option \<Rightarrow> error \<Rightarrow> bool" where
  "acceptable resp err \<longleftrightarrow>
     err = nil \<and> (case resp of None \<Rightarrow> False | Some r \<Rightarrow> rs_Status r < 500 \<and> rs_Status r \<noteq> 429)"

text \<open>The request of one attempt: a clone with a fresh body when \<open>GetBody\<close> is set.\<close>

definition attempt_request :: "HttpRequest \<Rightarrow> string + HttpRequest" where
  "attempt_request req =
     (case hq_GetBody req of
        None \<Rightarrow> Inr req
      | Some (Inl err) \<Rightarrow> Inl err
      | Some (Inr body) \<Rightarrow> Inr (req\<lparr>hq_Body := Some (body, nil)\<rparr>))"

text \<open>The loop with \<open>left\<close> further attempts after this one; \<open>slept\<close> is the time slept so far.\<close>

fun retry_loop ::
  "'w RoundTripper \<Rightarrow> int \<Rightarrow> 'w \<Rightarrow> int \<Rightarrow> HttpRequest \<Rightarrow> nat \<Rightarrow> 'w \<times> int \<times> Response option \<times> error" where
  "retry_loop base delay w slept req left =
     (case attempt_request req of
        Inl err \<Rightarrow> (w, slept, None, Some err)
      | Inr attemptReq \<Rightarrow>
          (case base w attemptReq of
             (w, resp, err) \<Rightarrow>
               if acceptable resp err then (w, slept, resp, nil)
               else
                 (let resp = close_response resp in
                  case left of
                    0 \<Rightarrow> (w, slept, resp, err)
                  | Suc left \<Rightarrow> retry_loop base delay w (if delay > 0 then slept + delay else slept) req left)))"

declare retry_loop.simps [simp del]

definition retry_RoundTrip ::
  "'w RoundTripper \<Rightarrow> int \<Rightarrow> int \<Rightarrow> 'w \<Rightarrow> HttpRequest \<Rightarrow> 'w \<times> int \<times> Response option \<times> error" where
  "retry_RoundTrip base retries delay w req =
     (case (hq_Body req, hq_GetBody req) of
        (Some (bytes, Some readErr), None) \<Rightarrow> (w, 0, None, Some readErr)
      | (body, getBody) \<Rightarrow>
          (let req = (case (body, getBody) of
                 (Some (bytes, None), None) \<Rightarrow> req\<lparr>hq_Body := Some ([], nil), hq_GetBody := Some (Inr bytes)\<rparr>
               | _ \<Rightarrow> req) in
           if retries < 0 then (w, 0, None, nil) else retry_loop base delay w 0 req (nat retries)))"

section \<open>The circuit breaker\<close>

record proxyCircuitBreaker =
  cb_threshold :: int
  cb_window :: int
  cb_openFor :: int
  cb_failures :: int
  cb_resetAt :: "int option"
  cb_openUntil :: "int option"
  cb_lastFailure :: "int option"

definition newProxyCircuitBreaker :: "int \<Rightarrow> int \<Rightarrow> int \<Rightarrow> proxyCircuitBreaker option" where
  "newProxyCircuitBreaker threshold window openFor =
     (if threshold \<le> 0 then None
      else Some \<lparr>cb_threshold = threshold, cb_window = (if window \<le> 0 then 60 * 10 ^ 9 else window),
                cb_openFor = (if openFor \<le> 0 then 15 * 10 ^ 9 else openFor), cb_failures = 0,
                cb_resetAt = None, cb_openUntil = None, cb_lastFailure = None\<rparr>)"

text \<open>\<open>resetAt.IsZero() || now - resetAt > window\<close>\<close>

definition window_over :: "proxyCircuitBreaker \<Rightarrow> int \<Rightarrow> bool" where
  "window_over cb now = (case cb_resetAt cb of None \<Rightarrow> True | Some r \<Rightarrow> now - r > cb_window cb)"

definition restart_window :: "int \<Rightarrow> proxyCircuitBreaker \<Rightarrow> proxyCircuitBreaker" where
  "restart_window now cb = (if window_over cb now then cb\<lparr>cb_failures := 0, cb_resetAt := Some now\<rparr> else cb)"

definition breaker_allow :: "int \<Rightarrow> proxyCircuitBreaker \<Rightarrow> proxyCircuitBreaker \<times> bool" where
  "breaker_allow now cb =
     (case cb_openUntil cb of
        Some u \<Rightarrow>
          if now < u then (cb, False)
          else (restart_window now (cb\<lparr>cb_openUntil := None\<rparr>), True)
      | None \<Rightarrow> (restart_window now cb, True))"

definition recordSuccess :: "int \<Rightarrow> proxyCircuitBreaker \<Rightarrow> proxyCircuitBreaker" where
  "recordSuccess now cb = cb\<lparr>cb_failures := 0, cb_resetAt := Some now, cb_openUntil := None\<rparr>"

definition recordFailure :: "int \<Rightarrow> proxyCircuitBreaker \<Rightarrow> proxyCircuitBreaker" where
  "recordFailure now cb =
     (let cb = restart_window now cb;
          cb = cb\<lparr>cb_failures := cb_failures cb + 1, cb_lastFailure := Some now\<rparr>
      in if cb_failures cb \<ge> cb_threshold cb then cb\<lparr>cb_openUntil := Some (now + cb_openFor cb)\<rparr> else cb)"

section \<open>The token bucket\<close>

record proxyRateLimiter =
  rl_limit :: rat
  rl_burst :: rat
  rl_tokens :: rat
  rl_last :: "int option"

definition newProxyRateLimiter :: "int \<Rightarrow> int \<Rightarrow> int \<Rightarrow> proxyRateLimiter option" where
  "newProxyRateLimiter now requestsPerSecond burst =
     (if requestsPerSecond \<le> 0 then None
      else
        (let burst = (if burst \<le> 0 then requestsPerSecond else burst)
         in Some \<lparr>rl_limit = of_int requestsPerSecond, rl_burst = of_int burst, rl_tokens = of_int burst,
                 rl_last = Some now\<rparr>))"

definition seconds :: "int \<Rightarrow> rat" where
  "seconds d = of_int d / 10 ^ 9"

definition limiter_allow :: "int \<Rightarrow> proxyRateLimiter \<Rightarrow> proxyRateLimiter \<times> bool" where
  "limiter_allow now rl =
     (let last = (case rl_last rl of None \<Rightarrow> now | Some l \<Rightarrow> l);
          elapsed = seconds (now - last);
          tokens = rl_tokens rl + elapsed * rl_limit rl;
          tokens = (if tokens > rl_burst rl then rl_burst rl else tokens);
          rl = rl\<lparr>rl_last := Some now\<rparr>
      in if tokens \<ge> 1 then (rl\<lparr>rl_tokens := tokens - 1\<rparr>, True) else (rl\<lparr>rl_tokens := tokens\<rparr>, False))"

section \<open>Retrying: agreement with the list of attempts\<close>

text \<open>
  The reference: perform the attempts one after the other, as if none was accepted; the loop
  returns the first acceptable outcome, or the last one with its body closed.
\<close>

fun attempts :: "'w RoundTripper \<Rightarrow> 'w \<Rightarrow> HttpRequest \<Rightarrow> nat \<Rightarrow> ('w \<times> Response option \<times> error) list" where
  "attempts base w req 0 = []"
| "attempts base w req (Suc n) = base w req # attempts base (fst (base w req)) req n"

definition outcome_ok :: "'w \<times> Response option \<times> error \<Rightarrow> bool" where
  "outcome_ok o' \<longleftrightarrow> acceptable (fst (snd o')) (snd (snd o'))"

lemma attempts_length [simp]: "length (attempts base w req n) = n"
  by (induction n arbitrary: w) simp_all

definition retry_reference ::
  "int \<Rightarrow> int \<Rightarrow> ('w \<times> Response option \<times> error) list \<Rightarrow> 'w \<times> int \<times> Response option \<times> error" where
  "retry_reference delay slept outs =
     (case List.find outcome_ok outs of
        Some (w, resp, err) \<Rightarrow>
          (w, slept + max 0 delay * int (length (takeWhile (\<lambda>o'. \<not> outcome_ok o') outs)), resp, nil)
      | None \<Rightarrow>
          (case last outs of (w, resp, err) \<Rightarrow>
             (w, slept + max 0 delay * int (length outs - 1), close_response resp, err)))"

lemma attempts_ne: "attempts base w req (Suc n) \<noteq> []"
  by simp

lemma retry_loop_reference:
  assumes "attempt_request req = Inr areq"
  shows "retry_loop base delay w slept req n = retry_reference delay slept (attempts base w areq (Suc n))"
proof (induction n arbitrary: w slept)
  case 0
  obtain w' resp err where b: "base w areq = (w', resp, err)" by (metis prod_cases3)
  show ?case
    by (subst retry_loop.simps)
      (simp add: assms b retry_reference_def outcome_ok_def acceptable_def Let_def)
next
  case (Suc n)
  obtain w' resp err where b: "base w areq = (w', resp, err)" by (metis prod_cases3)
  show ?case
  proof (cases "acceptable resp err")
    case True
    then show ?thesis
      by (subst retry_loop.simps) (simp add: assms b retry_reference_def outcome_ok_def)
  next
    case False
    have "retry_loop base delay w slept req (Suc n) =
        retry_loop base delay w' (slept + max 0 delay) req n"
      using False by (subst retry_loop.simps) (simp add: assms b max_def Let_def)
    also have "\<dots> = retry_reference delay (slept + max 0 delay) (attempts base w' areq (Suc n))" by (rule Suc.IH)
    also have "\<dots> = retry_reference delay slept (attempts base w areq (Suc (Suc n)))"
      using False by (simp add: retry_reference_def outcome_ok_def b algebra_simps split: option.split prod.split)
    finally show ?thesis .
  qed
qed

section \<open>The circuit breaker along a trace\<close>

datatype breaker_event = CAllow int | CSuccess int | CFailure int

fun event_time :: "breaker_event \<Rightarrow> int" where
  "event_time (CAllow t) = t" | "event_time (CSuccess t) = t" | "event_time (CFailure t) = t"

fun breaker_step :: "proxyCircuitBreaker \<Rightarrow> breaker_event \<Rightarrow> proxyCircuitBreaker" where
  "breaker_step cb (CAllow t) = fst (breaker_allow t cb)"
| "breaker_step cb (CSuccess t) = recordSuccess t cb"
| "breaker_step cb (CFailure t) = recordFailure t cb"

fun failure_times :: "breaker_event list \<Rightarrow> int list" where
  "failure_times [] = []"
| "failure_times (CFailure t # es) = t # failure_times es"
| "failure_times (e # es) = failure_times es"

definition no_success :: "breaker_event list \<Rightarrow> bool" where
  "no_success es \<longleftrightarrow> (\<forall>t. CSuccess t \<notin> set es)"

lemma failure_times_append [simp]: "failure_times (xs @ ys) = failure_times xs @ failure_times ys"
  by (induction xs rule: failure_times.induct) simp_all

lemma no_success_simps [simp]: "no_success []" "no_success (xs @ ys) \<longleftrightarrow> no_success xs \<and> no_success ys"
  "no_success (CAllow t # es) \<longleftrightarrow> no_success es" "no_success (CFailure t # es) \<longleftrightarrow> no_success es"
  by (auto simp: no_success_def)

text \<open>Failures within one window, at the end of the trace or before its last part.\<close>

definition burst_of :: "int \<Rightarrow> int \<Rightarrow> breaker_event list \<Rightarrow> bool" where
  "burst_of r window es \<longleftrightarrow> no_success es \<and> (\<forall>t \<in> set (failure_times es). r \<le> t \<and> t \<le> r + window)"

definition same_config :: "proxyCircuitBreaker \<Rightarrow> proxyCircuitBreaker \<Rightarrow> bool" where
  "same_config a b \<longleftrightarrow> cb_threshold a = cb_threshold b \<and> cb_window a = cb_window b \<and> cb_openFor a = cb_openFor b"

lemma restart_simps [simp]:
  "cb_threshold (restart_window t cb) = cb_threshold cb" "cb_window (restart_window t cb) = cb_window cb"
  "cb_openFor (restart_window t cb) = cb_openFor cb" "cb_openUntil (restart_window t cb) = cb_openUntil cb"
  by (simp_all add: restart_window_def)

lemma breaker_step_config [simp]: "same_config (breaker_step cb e) cb"
  by (cases e) (simp_all add: same_config_def breaker_allow_def recordSuccess_def recordFailure_def Let_def
      split: option.split)

lemma same_config_run: "same_config (run breaker_step cb es) cb"
proof (induction es arbitrary: cb)
  case Nil
  then show ?case by (simp add: same_config_def)
next
  case (Cons e es)
  have "same_config (run breaker_step (breaker_step cb e) es) (breaker_step cb e)" by (rule Cons.IH)
  then show ?case using breaker_step_config [of cb e] by (simp add: same_config_def)
qed

text \<open>The failures counted now, after the events \<open>es\<close>.\<close>

definition counted :: "proxyCircuitBreaker \<Rightarrow> breaker_event list \<Rightarrow> int \<Rightarrow> bool" where
  "counted cb es now \<longleftrightarrow>
     (\<exists>ys fs r. es = ys @ fs \<and> burst_of r (cb_window cb) fs \<and> int (length (failure_times fs)) = cb_failures cb
        \<and> (case cb_resetAt cb of None \<Rightarrow> fs = [] | Some r' \<Rightarrow> r' = r \<and> r \<le> now))"

definition opened :: "proxyCircuitBreaker \<Rightarrow> breaker_event list \<Rightarrow> bool" where
  "opened cb es \<longleftrightarrow>
     (\<forall>u. cb_openUntil cb = Some u \<longrightarrow>
          (\<exists>ys fs zs r. es = ys @ fs @ zs \<and> burst_of r (cb_window cb) fs \<and> no_success zs
             \<and> failure_times fs \<noteq> [] \<and> cb_threshold cb \<le> int (length (failure_times fs))
             \<and> u = last (failure_times fs) + cb_openFor cb))"

lemma counted_restart:
  assumes "counted cb es now" "now \<le> t"
  shows "counted (restart_window t cb) es t \<and> cb_resetAt (restart_window t cb) \<noteq> None
    \<and> (0 < cb_window cb \<longrightarrow> t \<le> the (cb_resetAt (restart_window t cb)) + cb_window cb)"
proof (cases "window_over cb t")
  case True
  have "burst_of t (cb_window cb) []" by (simp add: burst_of_def)
  then have "counted (restart_window t cb) es t"
    unfolding counted_def using True
    by (intro exI [of _ es] exI [of _ "[]"] exI [of _ t]) (simp add: restart_window_def)
  with True show ?thesis by (simp add: restart_window_def)
next
  case False
  then obtain r where r: "cb_resetAt cb = Some r" "t - r \<le> cb_window cb"
    by (auto simp: window_over_def split: option.splits)
  from assms r show ?thesis
    by (fastforce simp: restart_window_def False counted_def)
qed

lemma counted_append:
  assumes "counted cb es now" "cb_resetAt cb \<noteq> None" "no_success [e]" "failure_times [e] = []"
  shows "counted cb (es @ [e]) now"
proof -
  obtain ys fs r where f: "es = ys @ fs" "burst_of r (cb_window cb) fs"
    "int (length (failure_times fs)) = cb_failures cb" "cb_resetAt cb = Some r" "r \<le> now"
    using assms(1,2) by (auto simp: counted_def split: option.splits)
  have "es @ [e] = ys @ (fs @ [e])" using f(1) by simp
  moreover have "burst_of r (cb_window cb) (fs @ [e])" using f(2) assms(3,4) by (simp add: burst_of_def)
  moreover have "int (length (failure_times (fs @ [e]))) = cb_failures cb" using f(3) assms(4) by simp
  ultimately show ?thesis
    using f(4,5) unfolding counted_def by (intro exI [of _ ys] exI [of _ "fs @ [e]"] exI [of _ r]) simp
qed

lemma opened_append:
  assumes "opened cb es" "no_success [e]"
  shows "opened cb (es @ [e])"
  unfolding opened_def
proof (intro allI impI)
  fix u assume "cb_openUntil cb = Some u"
  then obtain ys fs zs r where o: "es = ys @ fs @ zs" "burst_of r (cb_window cb) fs" "no_success zs"
    "failure_times fs \<noteq> []" "cb_threshold cb \<le> int (length (failure_times fs))"
    "u = last (failure_times fs) + cb_openFor cb"
    using assms(1) unfolding opened_def by blast
  have "es @ [e] = ys @ fs @ (zs @ [e])" "no_success (zs @ [e])" using o(1,3) assms(2) by simp_all
  with o show "\<exists>ys fs zs r. es @ [e] = ys @ fs @ zs \<and> burst_of r (cb_window cb) fs \<and> no_success zs
    \<and> failure_times fs \<noteq> [] \<and> cb_threshold cb \<le> int (length (failure_times fs))
    \<and> u = last (failure_times fs) + cb_openFor cb" by blast
qed

lemma counted_later:
  assumes "counted cb es now" "now \<le> t"
  shows "counted cb (es @ [CAllow t]) t"
proof -
  obtain ys fs r where f: "es = ys @ fs" "burst_of r (cb_window cb) fs"
    "int (length (failure_times fs)) = cb_failures cb"
    "case cb_resetAt cb of None \<Rightarrow> fs = [] | Some r' \<Rightarrow> r' = r \<and> r \<le> now"
    using assms(1) unfolding counted_def by blast
  show ?thesis
  proof (cases "cb_resetAt cb")
    case None
    then have "es @ [CAllow t] = (es @ [CAllow t]) @ []" "burst_of r (cb_window cb) []" "cb_failures cb = 0"
      using f by (simp_all add: burst_of_def)
    then show ?thesis unfolding counted_def using None
      by (intro exI [of _ "es @ [CAllow t]"] exI [of _ "[]"] exI [of _ r]) simp
  next
    case (Some r')
    with f assms(2) have "counted cb es t" unfolding counted_def
      by (intro exI [of _ ys] exI [of _ fs] exI [of _ r]) simp
    then show ?thesis using counted_append [of cb es t "CAllow t"] Some by simp
  qed
qed

lemma breaker_allow_ok:
  assumes "counted cb es now" "opened cb es" "now \<le> t"
  shows "counted (breaker_step cb (CAllow t)) (es @ [CAllow t]) t \<and> opened (breaker_step cb (CAllow t)) (es @ [CAllow t])"
proof -
  let ?cb = "cb\<lparr>cb_openUntil := None\<rparr>"
  have later: "counted c (es @ [CAllow t]) t" if "counted c es t" "cb_resetAt c \<noteq> None" for c
    using counted_append [OF that] by simp
  have cnt: "counted ?cb es now" using assms(1) by (simp add: counted_def)
  show ?thesis
  proof (cases "cb_openUntil cb")
    case None
    then have "opened (restart_window t cb) (es @ [CAllow t])" by (simp add: opened_def)
    then show ?thesis using None counted_restart [OF assms(1), of t] assms(3) by (simp add: breaker_allow_def later)
  next
    case (Some u)
    show ?thesis
    proof (cases "t < u")
      case True
      have "opened cb (es @ [CAllow t])" using opened_append [OF assms(2)] by simp
      then show ?thesis using True Some counted_later [OF assms(1,3)] by (simp add: breaker_allow_def)
    next
      case False
      have "opened (restart_window t ?cb) (es @ [CAllow t])" by (simp add: opened_def)
      then show ?thesis using False Some counted_restart [OF cnt, of t] assms(3) by (simp add: breaker_allow_def later)
    qed
  qed
qed

lemma breaker_success_ok:
  "counted (recordSuccess t cb) (es @ [CSuccess t]) t \<and> opened (recordSuccess t cb) (es @ [CSuccess t])"
proof
  have "burst_of t (cb_window cb) []" by (simp add: burst_of_def)
  then show "counted (recordSuccess t cb) (es @ [CSuccess t]) t"
    unfolding counted_def
    by (intro exI [of _ "es @ [CSuccess t]"] exI [of _ "[]"] exI [of _ t]) (simp add: recordSuccess_def)
qed (simp add: opened_def recordSuccess_def)

lemma breaker_failure_ok:
  assumes "counted cb es now" "opened cb es" "now \<le> t" "0 < cb_window cb"
  shows "counted (recordFailure t cb) (es @ [CFailure t]) t \<and> opened (recordFailure t cb) (es @ [CFailure t])"
proof
  let ?c = "restart_window t cb"
  have "counted ?c es t" "cb_resetAt ?c \<noteq> None" "t \<le> the (cb_resetAt ?c) + cb_window cb"
    using counted_restart [OF assms(1), of t] assms(3,4) by auto
  then obtain ys fs r where f: "es = ys @ fs" "burst_of r (cb_window cb) fs"
    "int (length (failure_times fs)) = cb_failures ?c" "cb_resetAt ?c = Some r" "r \<le> t" "t \<le> r + cb_window cb"
    unfolding counted_def by (auto split: option.splits)
  have b: "burst_of r (cb_window cb) (fs @ [CFailure t])" using f(2,5,6) by (auto simp: burst_of_def)
  have reset: "cb_resetAt (recordFailure t cb) = Some r" "cb_window (recordFailure t cb) = cb_window cb"
    "cb_failures (recordFailure t cb) = cb_failures ?c + 1"
    using f(4) by (simp_all add: recordFailure_def Let_def)
  show "counted (recordFailure t cb) (es @ [CFailure t]) t"
    unfolding counted_def reset using f b
    by (intro exI [of _ ys] exI [of _ "fs @ [CFailure t]"] exI [of _ r]) simp
  show "opened (recordFailure t cb) (es @ [CFailure t])"
  proof (cases "cb_failures ?c + 1 \<ge> cb_threshold cb")
    case True
    then have "cb_openUntil (recordFailure t cb) = Some (t + cb_openFor cb)"
      "cb_threshold (recordFailure t cb) = cb_threshold cb" "cb_openFor (recordFailure t cb) = cb_openFor cb"
      by (simp_all add: recordFailure_def Let_def)
    then show ?thesis
      unfolding opened_def reset using f(1,3) b True
      by (intro allI impI exI [of _ ys] exI [of _ "fs @ [CFailure t]"] exI [of _ "[]"] exI [of _ r]) simp
  next
    case False
    then have "opened (recordFailure t cb) (es @ [CFailure t]) = opened cb (es @ [CFailure t])"
      by (simp add: opened_def recordFailure_def Let_def)
    then show ?thesis using opened_append [OF assms(2), of "CFailure t"] by simp
  qed
qed

lemma breaker_step_ok:
  assumes "counted cb es now" "opened cb es" "now \<le> event_time e" "0 < cb_window cb"
  shows "counted (breaker_step cb e) (es @ [e]) (event_time e) \<and> opened (breaker_step cb e) (es @ [e])"
  using assms breaker_success_ok breaker_allow_ok [of cb es now] breaker_failure_ok [of cb es now] by (cases e) simp_all

lemma breaker_run_ok:
  assumes "counted cb os now" "opened cb os" "0 < cb_window cb" "sorted (now # map event_time es)"
  shows "opened (run breaker_step cb es) (os @ es)"
  using assms
proof (induction es arbitrary: cb os now)
  case (Cons e es)
  have step: "counted (breaker_step cb e) (os @ [e]) (event_time e)" "opened (breaker_step cb e) (os @ [e])"
    using breaker_step_ok [OF Cons.prems(1,2) _ Cons.prems(3), of e] Cons.prems(4) by auto
  have "0 < cb_window (breaker_step cb e)" using Cons.prems(3) breaker_step_config [of cb e] by (simp add: same_config_def)
  from Cons.IH [OF step this] Cons.prems(4) show ?case by simp
qed simp

lemma new_breaker:
  assumes "newProxyCircuitBreaker threshold window openFor = Some cb"
  shows "0 < cb_window cb" "0 < cb_openFor cb" "0 < cb_threshold cb" "cb_threshold cb = threshold"
    "cb_openUntil cb = None" "cb_resetAt cb = None" "cb_failures cb = 0"
  using assms by (auto simp: newProxyCircuitBreaker_def split: if_splits)

lemma new_breaker_ok:
  assumes "newProxyCircuitBreaker threshold window openFor = Some cb"
  shows "counted cb [] now" "opened cb []"
  using new_breaker [OF assms] by (auto simp: counted_def opened_def burst_of_def)

lemma burst_opens:
  assumes "cb_resetAt cb = Some t0" "0 < cb_threshold cb" "0 \<le> cb_failures cb"
    and "\<forall>t \<in> set ts. t - t0 \<le> cb_window cb" "ts \<noteq> []"
    and "cb_threshold cb \<le> cb_failures cb + int (length ts)"
  shows "cb_openUntil (run breaker_step cb (map CFailure ts)) = Some (last ts + cb_openFor cb)"
  using assms
proof (induction ts arbitrary: cb)
  case (Cons t ts)
  have keep: "restart_window t cb = cb" using Cons.prems(1,4) by (simp add: restart_window_def window_over_def)
  let ?c = "recordFailure t cb"
  have c: "cb_resetAt ?c = Some t0" "cb_threshold ?c = cb_threshold cb" "cb_failures ?c = cb_failures cb + 1"
    "cb_window ?c = cb_window cb" "cb_openFor ?c = cb_openFor cb"
    using Cons.prems(1) by (simp_all add: recordFailure_def keep Let_def)
  show ?case
  proof (cases "ts = []")
    case True
    then show ?thesis using Cons.prems(6) by (simp add: recordFailure_def keep Let_def)
  next
    case False
    then show ?thesis using Cons.IH [of ?c] Cons.prems c by simp
  qed
qed simp

section \<open>The token bucket along a trace\<close>

definition limiter_ok :: "proxyRateLimiter \<Rightarrow> bool" where
  "limiter_ok rl \<longleftrightarrow> 1 \<le> rl_limit rl \<and> 1 \<le> rl_burst rl \<and> 0 \<le> rl_tokens rl \<and> rl_tokens rl \<le> rl_burst rl
     \<and> rl_last rl \<noteq> None"

fun limiter_run :: "proxyRateLimiter \<Rightarrow> int list \<Rightarrow> proxyRateLimiter \<times> bool list" where
  "limiter_run rl [] = (rl, [])"
| "limiter_run rl (t # ts) =
     (let (rl, ok) = limiter_allow t rl; (rl, oks) = limiter_run rl ts in (rl, ok # oks))"

definition admitted :: "bool list \<Rightarrow> nat" where
  "admitted oks = length (filter id oks)"

lemma new_limiter_ok: "newProxyRateLimiter now rps burst = Some rl \<Longrightarrow> limiter_ok rl"
  by (auto simp: newProxyRateLimiter_def limiter_ok_def Let_def split: if_splits)

lemma seconds_nonneg: "0 \<le> seconds d \<longleftrightarrow> 0 \<le> d"
  by (simp add: seconds_def)

lemma seconds_add: "seconds (a + b) = seconds a + seconds b"
  by (simp add: seconds_def add_divide_distrib)

lemma limiter_step:
  assumes "limiter_ok rl" "rl_last rl = Some l" "l \<le> t"
  shows "limiter_ok (fst (limiter_allow t rl))" "rl_last (fst (limiter_allow t rl)) = Some t"
    "rl_limit (fst (limiter_allow t rl)) = rl_limit rl" "rl_burst (fst (limiter_allow t rl)) = rl_burst rl"
    "rl_tokens (fst (limiter_allow t rl)) + of_bool (snd (limiter_allow t rl))
       \<le> rl_tokens rl + rl_limit rl * seconds (t - l)"
proof -
  have pos: "0 \<le> seconds (t - l) * rl_limit rl"
    using assms by (intro mult_nonneg_nonneg) (simp_all add: seconds_nonneg limiter_ok_def)
  then show "limiter_ok (fst (limiter_allow t rl))"
    using assms by (auto simp: limiter_ok_def limiter_allow_def Let_def)
  show "rl_last (fst (limiter_allow t rl)) = Some t"
    "rl_limit (fst (limiter_allow t rl)) = rl_limit rl" "rl_burst (fst (limiter_allow t rl)) = rl_burst rl"
    "rl_tokens (fst (limiter_allow t rl)) + of_bool (snd (limiter_allow t rl))
       \<le> rl_tokens rl + rl_limit rl * seconds (t - l)"
    using assms pos by (auto simp: limiter_allow_def Let_def mult.commute)
qed

lemma limiter_run_bound:
  assumes "limiter_ok rl" "rl_last rl = Some l" "sorted (l # ts)"
  shows "of_nat (admitted (snd (limiter_run rl ts))) + rl_tokens (fst (limiter_run rl ts))
      \<le> rl_tokens rl + rl_limit rl * seconds (last (l # ts) - l)
    \<and> limiter_ok (fst (limiter_run rl ts)) \<and> rl_last (fst (limiter_run rl ts)) = Some (last (l # ts))
    \<and> rl_limit (fst (limiter_run rl ts)) = rl_limit rl \<and> rl_burst (fst (limiter_run rl ts)) = rl_burst rl"
  using assms
proof (induction ts arbitrary: rl l)
  case Nil
  then show ?case by (simp add: admitted_def seconds_def)
next
  case (Cons t ts)
  obtain rl1 ok where s: "limiter_allow t rl = (rl1, ok)" by fastforce
  obtain rl2 oks where r: "limiter_run rl1 ts = (rl2, oks)" by fastforce
  have lt: "l \<le> t" using Cons.prems(3) by simp
  note st = limiter_step [OF Cons.prems(1,2) lt, unfolded s fst_conv snd_conv]
  have IH: "of_nat (admitted oks) + rl_tokens rl2 \<le> rl_tokens rl1 + rl_limit rl * seconds (last (t # ts) - t)
    \<and> limiter_ok rl2 \<and> rl_last rl2 = Some (last (t # ts)) \<and> rl_limit rl2 = rl_limit rl \<and> rl_burst rl2 = rl_burst rl"
    using Cons.IH [OF st(1,2)] Cons.prems(3) r st(3,4) by simp
  have "seconds (last (t # ts) - l) = seconds (t - l) + seconds (last (t # ts) - t)"
    by (simp flip: seconds_add)
  then have "rl_limit rl * seconds (last (t # ts) - l)
      = rl_limit rl * seconds (t - l) + rl_limit rl * seconds (last (t # ts) - t)" by (simp add: distrib_left)
  moreover have "of_nat (admitted (ok # oks)) = (of_bool ok :: rat) + of_nat (admitted oks)"
    by (simp add: admitted_def)
  moreover have "limiter_run rl (t # ts) = (rl2, ok # oks)" using s r by simp
  moreover have "last (l # t # ts) = last (t # ts)" by simp
  ultimately show ?case using IH st(5) by simp
qed

section \<open>Properties\<close>



text \<open>No starvation: a request that comes at least one token's time after the one before it is
  admitted, whatever happened earlier.
\<close>

theorem rate_limit_progress:
  assumes "newProxyRateLimiter t0 rps burst = Some rl" "sorted (t0 # us)"
    and "1 \<le> rl_limit rl * seconds (t - last (t0 # us))"
  shows "snd (limiter_allow t (fst (limiter_run rl us)))"
proof -
  have "rl_last rl = Some t0" using assms(1) by (auto simp: newProxyRateLimiter_def Let_def split: if_splits)
  note r = limiter_run_bound [OF new_limiter_ok [OF assms(1)] this assms(2)]
  let ?rl = "fst (limiter_run rl us)"
  have "0 \<le> rl_tokens ?rl" "1 \<le> rl_burst ?rl" "rl_limit ?rl = rl_limit rl" "rl_last ?rl = Some (last (t0 # us))"
    using r by (simp_all add: limiter_ok_def)
  then show ?thesis using assms(3) by (simp add: limiter_allow_def Let_def mult.commute del: last.simps)
qed

lemma rate_limit_progress_witness:
  "snd (limiter_allow 500000000 (fst (limiter_run (the (newProxyRateLimiter 0 2 1)) [0, 0])))"
proof -
  have "newProxyRateLimiter 0 2 1 = Some (the (newProxyRateLimiter 0 2 1))" by code_simp
  moreover have "1 \<le> rl_limit (the (newProxyRateLimiter 0 2 1)) * seconds (500000000 - last (0 # [0, 0]))" by code_simp
  ultimately show ?thesis using rate_limit_progress [of 0 2 1 _ "[0, 0]" 500000000] by simp
qed

lemma denied_after_burst:
  assumes "newProxyCircuitBreaker threshold window openFor = Some cb" "sorted (map event_time es)"
    and "\<not> snd (breaker_allow now (run breaker_step cb es))"
  shows "\<exists>ys fs zs r. es = ys @ fs @ zs \<and> no_success (fs @ zs) \<and> failure_times fs \<noteq> []
    \<and> threshold \<le> int (length (failure_times fs))
    \<and> (\<forall>t \<in> set (failure_times fs). r \<le> t \<and> t \<le> r + cb_window cb)
    \<and> now < last (failure_times fs) + cb_openFor cb"
proof -
  let ?cb = "run breaker_step cb es"
  obtain now0 where now0: "sorted (now0 # map event_time es)"
  proof (cases es)
    case Nil
    then show ?thesis using that by simp
  next
    case (Cons e es')
    then show ?thesis using that [of "event_time e"] assms(2) by simp
  qed
  have cfg: "cb_window ?cb = cb_window cb" "cb_threshold ?cb = cb_threshold cb" "cb_openFor ?cb = cb_openFor cb"
    using same_config_run [of cb es] by (simp_all add: same_config_def)
  have "opened ?cb es"
    using breaker_run_ok [OF new_breaker_ok(1,2) [OF assms(1)] new_breaker(1) [OF assms(1)] now0] by simp
  moreover obtain u where u: "cb_openUntil ?cb = Some u" "now < u"
    using assms(3) by (auto simp: breaker_allow_def split: option.splits if_splits)
  ultimately obtain ys fs zs r where o: "es = ys @ fs @ zs" "burst_of r (cb_window cb) fs" "no_success zs"
    "failure_times fs \<noteq> []" "cb_threshold cb \<le> int (length (failure_times fs))"
    "u = last (failure_times fs) + cb_openFor cb"
    unfolding opened_def cfg by blast
  with u new_breaker(4) [OF assms(1)] show ?thesis
    by (intro exI [of _ ys] exI [of _ fs] exI [of _ zs] exI [of _ r]) (auto simp: burst_of_def)
qed

text \<open>
  The breaker denies for a reason: if, after any trace in time order, a request at \<open>now\<close> is
  denied, then the trace contains at least \<open>threshold\<close> failures that lie within one window, with no
  success among them or since, and the last of them is less than the open time ago.
\<close>

theorem breaker_denies_only_after_burst:
  assumes "newProxyCircuitBreaker threshold window openFor = Some cb" "sorted (map event_time es)"
    and "\<not> snd (breaker_allow now (run breaker_step cb es))"
  shows "\<exists>ys fs zs r. es = ys @ fs @ zs \<and> no_success (fs @ zs) \<and> failure_times fs \<noteq> []
    \<and> threshold \<le> int (length (failure_times fs))
    \<and> (\<forall>t \<in> set (failure_times fs). r \<le> t \<and> t \<le> r + cb_window cb)
    \<and> now < last (failure_times fs) + cb_openFor cb"
  using assms by (rule denied_after_burst)

lemma breaker_denies_only_after_burst_witness:
  "\<not> snd (breaker_allow 5 (run breaker_step (the (newProxyCircuitBreaker 2 10 10)) [CAllow 0, CFailure 1, CFailure 2]))
   \<and> (\<exists>ys fs zs. [CAllow 0, CFailure 1, CFailure 2] = ys @ fs @ zs \<and> 2 \<le> int (length (failure_times fs)))"
proof -
  have n: "newProxyCircuitBreaker 2 10 10 = Some (the (newProxyCircuitBreaker 2 10 10))" by code_simp
  have d: "\<not> snd (breaker_allow 5 (run breaker_step (the (newProxyCircuitBreaker 2 10 10)) [CAllow 0, CFailure 1, CFailure 2]))"
    by code_simp
  have "sorted (map event_time [CAllow 0, CFailure 1, CFailure 2])" by simp
  from breaker_denies_only_after_burst [OF n this d] d show ?thesis by blast
qed

text \<open>
  The breaker opens: a success followed by at least \<open>threshold\<close> failures within one window of it
  denies every request until the open time has passed since the last of them.
\<close>

theorem breaker_opens:
  assumes "newProxyCircuitBreaker threshold window openFor = Some cb"
    and "\<forall>t \<in> set ts. t - t0 \<le> cb_window cb" "threshold \<le> int (length ts)" "now < last ts + cb_openFor cb"
  shows "\<not> snd (breaker_allow now (run breaker_step cb (es @ CSuccess t0 # map CFailure ts)))"
proof -
  let ?c = "recordSuccess t0 (run breaker_step cb es)"
  have cfg: "cb_window ?c = cb_window cb" "cb_threshold ?c = threshold" "cb_openFor ?c = cb_openFor cb"
    using same_config_run [of cb es] new_breaker(4) [OF assms(1)]
    by (simp_all add: same_config_def recordSuccess_def)
  have "0 < threshold" using new_breaker(3,4) [OF assms(1)] by simp
  then have "ts \<noteq> []" using assms(3) by auto
  then have "cb_openUntil (run breaker_step ?c (map CFailure ts)) = Some (last ts + cb_openFor ?c)"
    using assms(2,3) \<open>0 < threshold\<close> unfolding cfg [symmetric]
    by (intro burst_opens [of _ t0]) (simp_all add: recordSuccess_def)
  then show ?thesis using assms(4) by (simp add: run_append breaker_allow_def cfg)
qed

lemma breaker_opens_witness:
  "\<not> snd (breaker_allow 12 (run breaker_step (the (newProxyCircuitBreaker 2 10 10)) ([] @ CSuccess 0 # map CFailure [1, 3])))"
proof -
  have n: "newProxyCircuitBreaker 2 10 10 = Some (the (newProxyCircuitBreaker 2 10 10))" by code_simp
  have "cb_window (the (newProxyCircuitBreaker 2 10 10)) = 10" "cb_openFor (the (newProxyCircuitBreaker 2 10 10)) = 10"
    by code_simp+
  then show ?thesis using breaker_opens [OF n, of "[1, 3]" 0 12 "[]"] by simp
qed

text \<open>
  The breaker recovers: once the open time has passed since every failure of the trace, a
  request is admitted, whatever the trace.
\<close>

theorem breaker_recovers:
  assumes "newProxyCircuitBreaker threshold window openFor = Some cb" "sorted (map event_time es)"
    and "\<forall>t \<in> set (failure_times es). t + cb_openFor cb \<le> now"
  shows "snd (breaker_allow now (run breaker_step cb es))"
proof (rule ccontr)
  assume "\<not> ?thesis"
  then obtain ys fs zs where fs: "es = ys @ fs @ zs" "failure_times fs \<noteq> []"
    "now < last (failure_times fs) + cb_openFor cb"
    using denied_after_burst [OF assms(1,2)] by blast
  then have "last (failure_times fs) \<in> set (failure_times es)" by simp
  with fs(3) assms(3) show False by fastforce
qed

lemma breaker_recovers_witness:
  "snd (breaker_allow 12 (run breaker_step (the (newProxyCircuitBreaker 2 10 10)) [CFailure 1, CFailure 2]))"
proof -
  have n: "newProxyCircuitBreaker 2 10 10 = Some (the (newProxyCircuitBreaker 2 10 10))" by code_simp
  have "cb_openFor (the (newProxyCircuitBreaker 2 10 10)) = 10" by code_simp
  then show ?thesis using breaker_recovers [OF n, of "[CFailure 1, CFailure 2]" 12] by simp
qed

definition replayed :: "HttpRequest \<Rightarrow> HttpRequest" where
  "replayed req = (case hq_Body req of None \<Rightarrow> req
     | Some (bytes, err) \<Rightarrow> req\<lparr>hq_Body := Some (bytes, nil), hq_GetBody := Some (Inr bytes)\<rparr>)"

lemma retry_as_reference:
  assumes "hq_GetBody req = None" "case hq_Body req of None \<Rightarrow> True | Some (bytes, err) \<Rightarrow> err = nil" "0 \<le> retries"
  shows "retry_RoundTrip base retries delay w req =
    retry_reference delay 0 (attempts base w (replayed req) (Suc (nat retries)))"
proof (cases "hq_Body req")
  case None
  then have "attempt_request req = Inr (replayed req)" using assms(1) by (simp add: attempt_request_def replayed_def)
  from retry_loop_reference [OF this] None assms(1,3) show ?thesis by (simp add: retry_RoundTrip_def)
next
  case (Some be)
  obtain b where b: "hq_Body req = Some (b, nil)" using assms(2) Some by (cases be) auto
  have "attempt_request (req\<lparr>hq_Body := Some ([], nil), hq_GetBody := Some (Inr b)\<rparr>) = Inr (replayed req)"
    using b by (simp add: attempt_request_def replayed_def)
  from retry_loop_reference [OF this] b assms(1,3) show ?thesis by (simp add: retry_RoundTrip_def)
qed

text \<open>C24. The retrying transport is the reference that performs the attempts one after the other: it
  returns the first outcome with a status below 500 other than 429, else the last one; it performs
  no attempt after an accepted one and at most one more than \<open>retries\<close>; every attempt carries the
  whole body; and it has slept the delay between attempts only.
\<close>

theorem retry_equivalent_to_attempts:
  assumes "hq_GetBody req = None" "case hq_Body req of None \<Rightarrow> True | Some (bytes, err) \<Rightarrow> err = nil" "0 \<le> retries"
  shows "retry_RoundTrip base retries delay w req =
    retry_reference delay 0 (attempts base w (replayed req) (Suc (nat retries)))"
  using assms by (rule retry_as_reference)

definition demo_http_request :: HttpRequest where
  "demo_http_request = \<lparr>hq_Method = ''POST'', hq_Scheme = [], hq_URLHost = [], hq_Path = ''/a'', hq_Host = ''h'',
     hq_Header = [], hq_ContentLength = 2, hq_Body = Some (''hi'', nil), hq_GetBody = None,
     hq_RemoteAddr = ''10.0.0.1:4711'', hq_PeerCertificates = None, hq_Context = Background\<rparr>"

text \<open>An upstream that answers the statuses of a list one after the other, echoing the body.\<close>

definition scripted :: "int list RoundTripper" where
  "scripted w req =
     (case w of
        [] \<Rightarrow> ([], None, errorf ''connection refused'')
      | code # w \<Rightarrow> (w, Some \<lparr>rs_Status = code, rs_Header = [], rs_ContentLength = 2,
          rs_Body = (case hq_Body req of None \<Rightarrow> [] | Some (b, _) \<Rightarrow> b), rs_closed = False\<rparr>, nil))"

lemma retry_equivalent_to_attempts_witness:
  "retry_RoundTrip scripted 2 7 [503, 200, 500] demo_http_request =
     ([500], 7, Some \<lparr>rs_Status = 200, rs_Header = [], rs_ContentLength = 2, rs_Body = ''hi'', rs_closed = False\<rparr>, nil)"
proof -
  have "hq_GetBody demo_http_request = None"
    "case hq_Body demo_http_request of None \<Rightarrow> True | Some (bytes, err) \<Rightarrow> err = nil" "0 \<le> (2 :: int)"
    by (simp_all add: demo_http_request_def)
  from retry_equivalent_to_attempts [OF this]
  have "retry_RoundTrip scripted 2 7 [503, 200, 500] demo_http_request =
    retry_reference 7 0 (attempts scripted [503, 200, 500] (replayed demo_http_request) (Suc (nat 2)))" .
  moreover have "retry_reference 7 0 (attempts scripted [503, 200, 500] (replayed demo_http_request) (Suc (nat 2))) =
     ([500], 7, Some \<lparr>rs_Status = 200, rs_Header = [], rs_ContentLength = 2, rs_Body = ''hi'', rs_closed = False\<rparr>, nil)"
    by code_simp
  ultimately show ?thesis by simp
qed

text \<open>When every attempt is refused by the upstream, the response the transport returns has its body
  closed already: the client cannot read the error the upstream sent.
\<close>

theorem retry_exhausted_closes_body:
  assumes "hq_GetBody req = None" "case hq_Body req of None \<Rightarrow> True | Some (bytes, err) \<Rightarrow> err = nil" "0 \<le> retries"
    and "\<forall>o' \<in> set (attempts base w (replayed req) (Suc (nat retries))). \<not> outcome_ok o'"
    and "retry_RoundTrip base retries delay w req = (w', slept, Some resp, err)"
  shows "rs_closed resp"
proof -
  let ?outs = "attempts base w (replayed req) (Suc (nat retries))"
  have "List.find outcome_ok ?outs = None" using assms(4) by (simp add: find_None_iff del: attempts.simps)
  then have "retry_RoundTrip base retries delay w req =
      (case last ?outs of (w, resp, err) \<Rightarrow> (w, 0 + max 0 delay * int (length ?outs - 1), close_response resp, err))"
    unfolding retry_as_reference [OF assms(1,2,3)] retry_reference_def by simp
  with assms(5) show ?thesis by (auto simp: close_response_def split: prod.splits)
qed

lemma retry_exhausted_closes_body_witness:
  "rs_closed (the (fst (snd (snd (retry_RoundTrip scripted 1 7 [503, 503] demo_http_request)))))"
proof -
  let ?r = "retry_RoundTrip scripted 1 7 [503, 503] demo_http_request"
  have h: "hq_GetBody demo_http_request = None"
    "case hq_Body demo_http_request of None \<Rightarrow> True | Some (bytes, err) \<Rightarrow> err = nil" "0 \<le> (1 :: int)"
    by (simp_all add: demo_http_request_def)
  have bad: "\<forall>o' \<in> set (attempts scripted [503, 503] (replayed demo_http_request) (Suc (nat 1))). \<not> outcome_ok o'"
    by code_simp
  have r: "?r = ([], 7, Some \<lparr>rs_Status = 503, rs_Header = [], rs_ContentLength = 2, rs_Body = ''hi'', rs_closed = True\<rparr>, nil)" by code_simp
  from retry_exhausted_closes_body [OF h bad r] r show ?thesis by simp
qed

end
