(* ===== verification/Proxy.thy ===== *)
theory Proxy
  imports Resilience Telemetry Registry
begin

text \<open>
  The reverse proxy (\<open>pkg/runtime/proxy.go\<close>): its builder methods, the director, health checks,
  the failover writer and \<open>ServeHTTP\<close>, over the parts of \<open>httputil.ReverseProxy\<close> it uses.

  The network is a parameter: what a base transport answers to a request, on a world \<open>'w\<close>. The
  request's query, raw path and protocol upgrades are left out. A response writer is the sequence
  of calls made on it (\<open>Go_Http\<close>); \<open>aborted\<close> says that the handler panicked with
  \<open>http.ErrAbortHandler\<close>, which \<open>ReverseProxy\<close> does when copying the body fails.
\<close>

section \<open>Addresses\<close>

definition last_index :: "string \<Rightarrow> char \<Rightarrow> nat option" where
  "last_index s c = (case IndexByte (rev s) c of None \<Rightarrow> None | Some i \<Rightarrow> Some (length s - 1 - i))"

text \<open>The host of \<open>net.SplitHostPort\<close>; \<open>None\<close> for an error.\<close>

definition SplitHost :: "string \<Rightarrow> string option" where
  "SplitHost hostport =
     (case last_index hostport CHR '':'' of
        None \<Rightarrow> None
      | Some i \<Rightarrow>
          if HasPrefix hostport ''['' then
            (case IndexByte hostport CHR '']'' of
               None \<Rightarrow> None
             | Some e \<Rightarrow>
                 if e + 1 \<noteq> i \<or> CHR ''['' \<in> set (drop 1 hostport) \<or> CHR '']'' \<in> set (drop (e + 1) hostport)
                 then None else Some (take (e - 1) (drop 1 hostport)))
          else
            (let host = take i hostport in
             if CHR '':'' \<in> set host \<or> CHR ''['' \<in> set hostport \<or> CHR '']'' \<in> set hostport then None
             else Some host))"

section \<open>The proxy and its builders\<close>

record URL =
  u_Scheme :: string
  u_Host :: string
  u_Path :: string

text \<open>The pooled transport of \<open>NewProxy\<close>, or the one \<open>WithTimeout\<close> or \<open>WithUpstreamTLS\<close> builds.\<close>

record upstream_tls =
  ut_Certificate :: "string option"
  ut_RootCAs :: "string option"

datatype base_transport = Pooled | TimeoutTransport int | UpstreamTLS upstream_tls

datatype observer = UserObserver | LogObserver | MetricsObserver

record Proxy =
  px_targetURL :: URL
  px_stripPrefix :: string
  px_targetPathPrefix :: string
  px_rewriteFrom :: string
  px_rewriteTo :: string
  px_headers :: Header
  px_timeout :: int
  px_observer :: "observer list"
  px_metrics :: Metrics
  px_circuitBreaker :: "proxyCircuitBreaker option"
  px_rateLimiter :: "proxyRateLimiter option"
  px_retryAttempts :: int
  px_retryDelay :: int
  px_transport :: "base_transport \<times> (int \<times> int) option"
  px_director :: bool
  px_healthCheckPath :: string
  px_healthCheckInterval :: int
  px_healthCheckTimeout :: int
  px_failoverProxy :: "URL option"
  px_healthy :: bool
  px_lastHealthCheck :: "int option"

text \<open>The failover proxy is built by \<open>NewProxy\<close> alone and cannot be configured, so its target determines it.\<close>

definition plain_proxy :: "URL \<Rightarrow> Proxy" where
  "plain_proxy u = \<lparr>px_targetURL = u, px_stripPrefix = [], px_targetPathPrefix = [], px_rewriteFrom = [],
     px_rewriteTo = [], px_headers = [], px_timeout = 0, px_observer = [], px_metrics = NewMetrics,
     px_circuitBreaker = None, px_rateLimiter = None, px_retryAttempts = 0, px_retryDelay = 0,
     px_transport = (Pooled, None), px_director = False, px_healthCheckPath = [],
     px_healthCheckInterval = 0, px_healthCheckTimeout = 0, px_failoverProxy = None, px_healthy = False,
     px_lastHealthCheck = None\<rparr>"

definition NewProxy :: "(string \<Rightarrow> string + URL) \<Rightarrow> string \<Rightarrow> string + Proxy" where
  "NewProxy parse target =
     (if target = [] then Inl ''target url is required''
      else case parse target of
          Inl err \<Rightarrow> Inl err
        | Inr u \<Rightarrow>
            if u_Scheme u = [] \<or> u_Host u = [] then
              Inl ''target must be a full URL such as http://localhost:8081''
            else Inr (plain_proxy u))"

definition no_root :: "string \<Rightarrow> string" where
  "no_root p = (if normalizePath p = ''/'' then [] else normalizePath p)"

definition WithPathPrefix :: "string \<Rightarrow> Proxy \<Rightarrow> Proxy" where
  "WithPathPrefix pre p = p\<lparr>px_targetPathPrefix := no_root pre, px_director := True\<rparr>"

definition WithStripPrefix :: "string \<Rightarrow> Proxy \<Rightarrow> Proxy" where
  "WithStripPrefix pre p = p\<lparr>px_stripPrefix := no_root pre, px_director := True\<rparr>"

definition WithHeader :: "string \<Rightarrow> string \<Rightarrow> Proxy \<Rightarrow> Proxy" where
  "WithHeader k v p = p\<lparr>px_headers := Header_Set k v (px_headers p), px_director := True\<rparr>"

definition WithRewrite :: "string \<Rightarrow> string \<Rightarrow> Proxy \<Rightarrow> Proxy" where
  "WithRewrite from_path to_path p =
     p\<lparr>px_rewriteFrom := no_root from_path, px_rewriteTo := no_root to_path, px_director := True\<rparr>"

definition WithFailover :: "(string \<Rightarrow> string + URL) \<Rightarrow> string \<Rightarrow> Proxy \<Rightarrow> Proxy" where
  "WithFailover parse target p =
     (if target = [] then p
      else case NewProxy parse target of
          Inl err \<Rightarrow> p
        | Inr fallback \<Rightarrow> p\<lparr>px_failoverProxy := Some (px_targetURL fallback)\<rparr>)"

definition WithObserver :: "bool \<Rightarrow> Proxy \<Rightarrow> Proxy" where
  "WithObserver given p = p\<lparr>px_observer := (if given then [UserObserver] else [])\<rparr>"

definition WithLogger :: "Proxy \<Rightarrow> Proxy" where
  "WithLogger p = p\<lparr>px_observer := px_observer p @ [LogObserver]\<rparr>"

definition WithMetrics :: "Proxy \<Rightarrow> Proxy" where
  "WithMetrics p = p\<lparr>px_observer := px_observer p @ [MetricsObserver]\<rparr>"

definition WithRetry :: "int \<Rightarrow> int \<Rightarrow> Proxy \<Rightarrow> Proxy" where
  "WithRetry attempts' delay p =
     p\<lparr>px_retryAttempts := attempts', px_retryDelay := delay,
       px_transport := (fst (px_transport p), if attempts' \<le> 0 then None else Some (attempts', delay))\<rparr>"

definition WithRateLimit :: "int \<Rightarrow> int \<Rightarrow> int \<Rightarrow> Proxy \<Rightarrow> Proxy" where
  "WithRateLimit now rps burst p = p\<lparr>px_rateLimiter := newProxyRateLimiter now rps burst\<rparr>"

definition WithCircuitBreaker :: "int \<Rightarrow> int \<Rightarrow> int \<Rightarrow> Proxy \<Rightarrow> Proxy" where
  "WithCircuitBreaker threshold window openFor p =
     p\<lparr>px_circuitBreaker := newProxyCircuitBreaker threshold window openFor\<rparr>"

definition WithTimeout :: "int \<Rightarrow> Proxy \<Rightarrow> Proxy" where
  "WithTimeout timeout p =
     (let p = p\<lparr>px_timeout := timeout\<rparr> in
      if timeout > 0 then
        p\<lparr>px_transport := (TimeoutTransport timeout,
            if px_retryAttempts p > 0 then Some (px_retryAttempts p, px_retryDelay p) else None)\<rparr>
      else p)"

section \<open>What a request meets outside the proxy\<close>

record 'w proxy_env =
  pe_arrive :: int
  pe_answer :: int
  pe_net :: "base_transport \<Rightarrow> 'w RoundTripper"
  pe_probe :: "base_transport \<times> (int \<times> int) option \<Rightarrow> 'w \<Rightarrow> HttpRequest \<Rightarrow> 'w \<times> (string + int)"

definition round_trip ::
  "'w proxy_env \<Rightarrow> base_transport \<times> (int \<times> int) option \<Rightarrow> 'w RoundTripper" where
  "round_trip env tr w req =
     (case snd tr of
        None \<Rightarrow> pe_net env (fst tr) w req
      | Some (retries, delay) \<Rightarrow>
          (case retry_RoundTrip (pe_net env (fst tr)) retries delay w req of
             (w, slept, resp, err) \<Rightarrow> (w, resp, err)))"

section \<open>Health checks\<close>

definition probe_request :: "Proxy \<Rightarrow> HttpRequest" where
  "probe_request p =
     \<lparr>hq_Method = ''GET'', hq_Scheme = u_Scheme (px_targetURL p), hq_URLHost = u_Host (px_targetURL p),
      hq_Path = joinProxyPath (u_Path (px_targetURL p)) (px_healthCheckPath p) (px_stripPrefix p)
        (px_targetPathPrefix p) (px_rewriteFrom p) (px_rewriteTo p),
      hq_Host = u_Host (px_targetURL p), hq_Header = [], hq_ContentLength = 0, hq_Body = None,
      hq_GetBody = None, hq_RemoteAddr = [], hq_PeerCertificates = None, hq_Context = Background\<rparr>"

definition refreshHealthStatus :: "'w proxy_env \<Rightarrow> 'w \<Rightarrow> Proxy \<Rightarrow> 'w \<times> Proxy \<times> bool" where
  "refreshHealthStatus env w p =
     (let now = pe_arrive env in
      if px_healthCheckPath p = [] then (w, p, True)
      else if px_healthCheckInterval p > 0
        \<and> (case px_lastHealthCheck p of None \<Rightarrow> False | Some l \<Rightarrow> now - l < px_healthCheckInterval p)
      then (w, p, px_healthy p)
      else
        (let p = (if px_healthCheckTimeout p \<le> 0 then p\<lparr>px_healthCheckTimeout := 2 * 10 ^ 9\<rparr> else p) in
         case pe_probe env (px_transport p) w (probe_request p) of
           (w, Inl err) \<Rightarrow> (w, p\<lparr>px_healthy := False, px_lastHealthCheck := Some now\<rparr>, False)
         | (w, Inr code) \<Rightarrow>
             (let ok = (code \<ge> 200 \<and> code < 500)
              in (w, p\<lparr>px_healthy := ok, px_lastHealthCheck := Some now\<rparr>, ok))))"

definition WithHealthCheck ::
  "'w proxy_env \<Rightarrow> 'w \<Rightarrow> string \<Rightarrow> int \<Rightarrow> Proxy \<Rightarrow> 'w \<times> Proxy" where
  "WithHealthCheck env w path interval p =
     (let path = (if path = [] then ''/health'' else path);
          p = p\<lparr>px_healthCheckPath := normalizePath path,
                px_healthCheckInterval := (if interval \<le> 0 then 10 ^ 9 else interval),
                px_healthCheckTimeout := (if px_healthCheckTimeout p \<le> 0 then 2 * 10 ^ 9
                  else px_healthCheckTimeout p)\<rparr>;
          (w, p, ok) = refreshHealthStatus env w p
      in (w, p))"

section \<open>The director\<close>

text \<open>The director \<open>NewSingleHostReverseProxy\<close> installs, and the one of \<open>applyDirector\<close>.\<close>

definition singleJoiningSlash :: "string \<Rightarrow> string \<Rightarrow> string" where
  "singleJoiningSlash a b =
     (if HasSuffix a ''/'' \<and> HasPrefix b ''/'' then a @ drop 1 b
      else if \<not> HasSuffix a ''/'' \<and> \<not> HasPrefix b ''/'' then a @ ''/'' @ b
      else a @ b)"

definition single_host_director :: "Proxy \<Rightarrow> HttpRequest \<Rightarrow> HttpRequest" where
  "single_host_director p req =
     req\<lparr>hq_Scheme := u_Scheme (px_targetURL p), hq_URLHost := u_Host (px_targetURL p),
        hq_Path := singleJoiningSlash (u_Path (px_targetURL p)) (hq_Path req)\<rparr>"

definition forwarded_for :: "string \<Rightarrow> Header \<Rightarrow> Header" where
  "forwarded_for remote h =
     (if remote = [] then h
      else
        (let clientIP = (case SplitHost remote of None \<Rightarrow> remote | Some host \<Rightarrow> host);
             prior = TrimSpace (Header_Get h ''X-Forwarded-For'')
         in Header_Set ''X-Forwarded-For'' (if prior \<noteq> [] then prior @ '', '' @ clientIP else clientIP) h))"

definition applied_director :: "int \<Rightarrow> Proxy \<Rightarrow> HttpRequest \<Rightarrow> HttpRequest" where
  "applied_director now p req =
     (let req = req\<lparr>hq_Context := (hq_Context req)\<lparr>cx_proxyStart := Some now\<rparr>,
                   hq_Scheme := u_Scheme (px_targetURL p), hq_URLHost := u_Host (px_targetURL p),
                   hq_Path := joinProxyPath (u_Path (px_targetURL p)) (hq_Path req) (px_stripPrefix p)
                     (px_targetPathPrefix p) (px_rewriteFrom p) (px_rewriteTo p),
                   hq_Host := u_Host (px_targetURL p)\<rparr>;
          requestID = RequestIDFromRequest req;
          h = hq_Header req;
          h = (if requestID \<noteq> [] then foldl (\<lambda>h k. Header_Set k requestID h) h
                 [''X-Request-ID'', ''X-Correlation-ID'', ''X-Trace-ID''] else h);
          h = (if hq_Scheme req = ''http'' \<or> hq_Scheme req = ''https''
               then Header_Set ''X-Forwarded-Proto'' (hq_Scheme req) h else h);
          h = forwarded_for (hq_RemoteAddr req) h;
          h = foldl (\<lambda>h (k, vs). foldl (\<lambda>h v. Header_Set k v h) h vs) h (px_headers p)
      in req\<lparr>hq_Header := h\<rparr>)"

definition director :: "int \<Rightarrow> Proxy \<Rightarrow> HttpRequest \<Rightarrow> HttpRequest" where
  "director now p req = (if px_director p then applied_director now p req else single_host_director p req)"

section \<open>Forwarding\<close>

definition hop_headers :: "string list" where
  "hop_headers = [''Connection'', ''Proxy-Connection'', ''Keep-Alive'', ''Proxy-Authenticate'',
     ''Proxy-Authorization'', ''Te'', ''Trailer'', ''Transfer-Encoding'', ''Upgrade'']"

text \<open>\<open>httputil.ReverseProxy\<close>: hop-by-hop headers, and the client address it appends itself.\<close>

definition removeHopByHopHeaders :: "Header \<Rightarrow> Header" where
  "removeHopByHopHeaders h =
     (let listed = filter (\<lambda>f. f \<noteq> []) (concat (map (\<lambda>f. map TrimSpace (Split f CHR '','')) (gm_getd [] h ''Connection'')))
      in foldl (\<lambda>h k. Header_Del k h) h (listed @ hop_headers))"

definition append_client :: "string \<Rightarrow> Header \<Rightarrow> Header" where
  "append_client remote h =
     (case SplitHost remote of
        None \<Rightarrow> h
      | Some clientIP \<Rightarrow> Header_Set ''X-Forwarded-For'' (Join (gm_getd [] h ''X-Forwarded-For'' @ [clientIP]) '', '') h)"

definition default_agent :: "Header \<Rightarrow> Header" where
  "default_agent h = (if gm_get h ''User-Agent'' = None then Header_Set ''User-Agent'' [] h else h)"

text \<open>The request the reverse proxy sends upstream for \<open>req\<close>.\<close>

definition outgoing :: "int \<Rightarrow> Proxy \<Rightarrow> HttpRequest \<Rightarrow> HttpRequest" where
  "outgoing now p req =
     (let outreq = director now p (if hq_ContentLength req = 0 then req\<lparr>hq_Body := None\<rparr> else req)
      in outreq\<lparr>hq_Header := default_agent (append_client (hq_RemoteAddr req) (removeHopByHopHeaders (hq_Header outreq)))\<rparr>)"

text \<open>The \<open>ErrorHandler\<close> and the \<open>ModifyResponse\<close> of \<open>NewProxy\<close>.\<close>

definition ErrorHandler :: "int \<Rightarrow> string \<Rightarrow> Proxy \<Rightarrow> Proxy \<times> wcall list" where
  "ErrorHandler now err p =
     (p\<lparr>px_circuitBreaker := map_option (recordFailure now) (px_circuitBreaker p)\<rparr>,
      http_Error (''proxy error: '' @ err) 502)"

definition took :: "int \<Rightarrow> HttpRequest \<Rightarrow> int" where
  "took now outreq =
     (let d = now - (case cx_proxyStart (hq_Context outreq) of None \<Rightarrow> now | Some start \<Rightarrow> start)
      in if d \<le> 0 then 1 else d)"

definition observe :: "int \<Rightarrow> HttpRequest \<Rightarrow> int \<Rightarrow> Proxy \<Rightarrow> Proxy" where
  "observe now outreq status p =
     foldl (\<lambda>p ob. if ob = MetricsObserver
               then p\<lparr>px_metrics := metrics_Record (px_metrics p) (hq_Method outreq) (hq_Path outreq) status
                        (Some (took now outreq))\<rparr>
               else p) p (px_observer p)"

definition ModifyResponse :: "int \<Rightarrow> HttpRequest \<Rightarrow> int \<Rightarrow> Proxy \<Rightarrow> Proxy" where
  "ModifyResponse now outreq status p =
     (let record = (if status \<ge> 500 \<or> status = 429 then recordFailure now else recordSuccess now)
      in observe now outreq status (p\<lparr>px_circuitBreaker := map_option record (px_circuitBreaker p)\<rparr>))"

text \<open>
  Copying a response: its header is added to the writer's, then the status, then the body, flushed
  after each write when the length is unknown or the type is an event stream.
\<close>

definition streamed :: "Response \<Rightarrow> bool" where
  "streamed resp \<longleftrightarrow> rs_ContentLength resp = -1
     \<or> TrimSpace (hd (Split (Header_Get (rs_Header resp) ''Content-Type'') CHR '';'')) = ''text/event-stream''"

definition header_calls :: "Header \<Rightarrow> wcall list" where
  "header_calls h = concat (map (\<lambda>(k, vs). map (HAdd k) vs) h)"

definition copy_fails :: "Response \<Rightarrow> bool" where
  "copy_fails resp \<longleftrightarrow> rs_closed resp \<and> rs_Body resp \<noteq> []"

definition response_calls :: "Response \<Rightarrow> wcall list" where
  "response_calls resp =
     header_calls (removeHopByHopHeaders (rs_Header resp)) @ [WriteHeader (rs_Status resp)]
     @ (if rs_closed resp \<or> rs_Body resp = [] then []
        else Write (rs_Body resp) # (if streamed resp then [Flush] else []))"

text \<open>
  \<open>reverseProxy.ServeHTTP\<close>: the world, the proxy, the calls on the response writer and whether the
  handler panicked with \<open>http.ErrAbortHandler\<close>.
\<close>

definition reverse_proxy ::
  "'w proxy_env \<Rightarrow> 'w \<Rightarrow> Proxy \<Rightarrow> HttpRequest \<Rightarrow> 'w \<times> Proxy \<times> wcall list \<times> bool" where
  "reverse_proxy env w p req =
     (let outreq = outgoing (pe_arrive env) p req; now = pe_answer env in
      case round_trip env (px_transport p) w outreq of
        (w, resp, Some err) \<Rightarrow>
          (case ErrorHandler now err p of (p, calls) \<Rightarrow> (w, p, calls, False))
      | (w, None, None) \<Rightarrow> (w, p, [], True)
      | (w, Some resp, None) \<Rightarrow>
          (w, ModifyResponse now outreq (rs_Status resp) p, response_calls resp, copy_fails resp))"

text \<open>A body that was sent upstream is gone for whoever forwards the request next.\<close>

definition consumed :: "HttpRequest \<Rightarrow> HttpRequest" where
  "consumed req =
     (if hq_ContentLength req = 0 then req
      else req\<lparr>hq_Body := map_option (\<lambda>b. ([], errorf ''http: invalid Read on closed Body'')) (hq_Body req)\<rparr>)"

section \<open>The failover writer\<close>

record failoverResponseWriter =
  fw_code :: int
  fw_failed :: bool
  fw_committed :: bool

definition new_failover_writer :: failoverResponseWriter where
  "new_failover_writer = \<lparr>fw_code = 200, fw_failed = False, fw_committed = False\<rparr>"

definition fw_WriteHeader :: "int \<Rightarrow> failoverResponseWriter \<Rightarrow> failoverResponseWriter \<times> wcall list" where
  "fw_WriteHeader code fw =
     (if fw_committed fw then (fw, [])
      else if code \<ge> 500 \<or> code = 429 then (fw\<lparr>fw_failed := True\<rparr>, [])
      else (fw\<lparr>fw_committed := True, fw_code := code\<rparr>, [WriteHeader code]))"

definition fw_Write :: "string \<Rightarrow> failoverResponseWriter \<Rightarrow> failoverResponseWriter \<times> wcall list" where
  "fw_Write b fw =
     (if fw_failed fw \<and> \<not> fw_committed fw then (fw, [])
      else (fw\<lparr>fw_committed := True\<rparr>, [Write b]))"

text \<open>One call on the wrapper and the calls it makes on the writer it wraps; the header is shared.\<close>

fun fw_call :: "failoverResponseWriter \<Rightarrow> wcall \<Rightarrow> failoverResponseWriter \<times> wcall list" where
  "fw_call fw (WriteHeader code) = fw_WriteHeader code fw"
| "fw_call fw (Write b) = fw_Write b fw"
| "fw_call fw c = (fw, [c])"

fun fw_run :: "failoverResponseWriter \<Rightarrow> wcall list \<Rightarrow> failoverResponseWriter \<times> wcall list" where
  "fw_run fw [] = (fw, [])"
| "fw_run fw (c # cs) = (let (fw, out) = fw_call fw c; (fw, outs) = fw_run fw cs in (fw, out @ outs))"

section \<open>ServeHTTP\<close>

text \<open>The guards, in the order of the code: the refusal, or \<open>None\<close> when the request goes on.\<close>

definition rate_guard :: "int \<Rightarrow> Proxy \<Rightarrow> Proxy \<times> bool" where
  "rate_guard now p =
     (case px_rateLimiter p of
        None \<Rightarrow> (p, True)
      | Some rl \<Rightarrow> (let (rl, ok) = limiter_allow now rl in (p\<lparr>px_rateLimiter := Some rl\<rparr>, ok)))"

definition breaker_guard :: "int \<Rightarrow> Proxy \<Rightarrow> Proxy \<times> bool" where
  "breaker_guard now p =
     (case px_circuitBreaker p of
        None \<Rightarrow> (p, True)
      | Some cb \<Rightarrow> (let (cb, ok) = breaker_allow now cb in (p\<lparr>px_circuitBreaker := Some cb\<rparr>, ok)))"

definition failover_serve ::
  "'w proxy_env \<Rightarrow> 'w \<Rightarrow> URL \<Rightarrow> HttpRequest \<Rightarrow> 'w \<times> wcall list \<times> bool" where
  "failover_serve env w target req =
     (case reverse_proxy env w (plain_proxy target) req of (w, fallback, calls, aborted) \<Rightarrow> (w, calls, aborted))"

definition proxy_ServeHTTP ::
  "'w proxy_env \<Rightarrow> 'w \<Rightarrow> Proxy \<Rightarrow> HttpRequest \<Rightarrow> 'w \<times> Proxy \<times> wcall list \<times> bool" where
  "proxy_ServeHTTP env w p r =
     (let (p, ok) = rate_guard (pe_arrive env) p in
      if \<not> ok then (w, p, http_Error ''rate limit exceeded'' 429, False)
      else let (p, ok) = breaker_guard (pe_arrive env) p in
      if \<not> ok then (w, p, http_Error ''upstream temporarily unavailable'' 503, False)
      else let (w, p, ok) = refreshHealthStatus env w p in
      if \<not> ok then
        (case px_failoverProxy p of
           Some target \<Rightarrow> (let (w, calls, aborted) = failover_serve env w target r in (w, p, calls, aborted))
         | None \<Rightarrow> (w, p, http_Error ''upstream unavailable'' 503, False))
      else
        (let (w, p, calls, aborted) = reverse_proxy env w p r in
         case px_failoverProxy p of
           None \<Rightarrow> (w, p, calls, aborted)
         | Some target \<Rightarrow>
             (let (fw, out) = fw_run new_failover_writer calls in
              if aborted then (w, p, out, True)
              else if fw_failed fw \<and> \<not> fw_committed fw then
                (let (w, calls, aborted) = failover_serve env w target (consumed r) in (w, p, out @ calls, aborted))
              else (w, p, out, False))))"

section \<open>Proxies from the registry\<close>

definition registry_NewProxy ::
  "(string \<Rightarrow> string + URL) \<Rightarrow> ((string, UpstreamConfig) gomap \<Rightarrow> (string, UpstreamConfig) gomap) \<Rightarrow>
   ((string, string) gomap \<Rightarrow> (string, string) gomap) \<Rightarrow> (int \<Rightarrow> int) \<Rightarrow> RouteRegistry \<Rightarrow> string \<Rightarrow>
   string + Proxy" where
  "registry_NewProxy parse it ith draw r routeName =
     (case ResolveRouteTarget it draw r routeName of
        Inl panic \<Rightarrow> Inl panic
      | Inr None \<Rightarrow> Inl (''route '' @ Quote (TrimSpace routeName) @ '' not found or has no healthy upstream'')
      | Inr (Some target) \<Rightarrow>
          (case NewProxy parse target of
             Inl err \<Rightarrow> Inl err
           | Inr p \<Rightarrow> Inr (foldl (\<lambda>p (k, v). WithHeader k v p) p (ith (RouteHeaders r routeName)))))"

section \<open>Lemmas\<close>

lemma observe_keeps [simp]:
  "px_circuitBreaker (observe now outreq status p) = px_circuitBreaker p"
  "px_failoverProxy (observe now outreq status p) = px_failoverProxy p"
proof -
  have "px_circuitBreaker (foldl (\<lambda>p ob. if ob = MetricsObserver
        then p\<lparr>px_metrics := metrics_Record (px_metrics p) m r status e\<rparr> else p) p obs) = px_circuitBreaker p
    \<and> px_failoverProxy (foldl (\<lambda>p ob. if ob = MetricsObserver
        then p\<lparr>px_metrics := metrics_Record (px_metrics p) m r status e\<rparr> else p) p obs) = px_failoverProxy p" for m r e obs
    by (induction obs arbitrary: p) simp_all
  then show "px_circuitBreaker (observe now outreq status p) = px_circuitBreaker p"
    "px_failoverProxy (observe now outreq status p) = px_failoverProxy p"
    by (simp_all add: observe_def)
qed

lemma reverse_proxy_keeps:
  "reverse_proxy env w p req = (w', p', calls, aborted) \<Longrightarrow> px_failoverProxy p' = px_failoverProxy p"
  by (auto simp: reverse_proxy_def ErrorHandler_def ModifyResponse_def Let_def split: prod.splits option.splits)

text \<open>What a round trip tells the breaker.\<close>

definition failing :: "int \<Rightarrow> bool" where
  "failing status \<longleftrightarrow> status \<ge> 500 \<or> status = 429"

fun verdict :: "int \<Rightarrow> 'w \<times> Response option \<times> error \<Rightarrow> breaker_event list" where
  "verdict t (w, resp, Some err) = [CFailure t]"
| "verdict t (w, None, None) = []"
| "verdict t (w, Some resp, None) = [if failing (rs_Status resp) then CFailure t else CSuccess t]"

lemma reverse_proxy_breaker:
  assumes "reverse_proxy env w p req = (w', p', calls, aborted)" "px_circuitBreaker p = Some cb"
  shows "px_circuitBreaker p' =
    Some (run breaker_step cb (verdict (pe_answer env) (round_trip env (px_transport p) w (outgoing (pe_arrive env) p req))))"
proof -
  obtain w1 resp err where rt: "round_trip env (px_transport p) w (outgoing (pe_arrive env) p req) = (w1, resp, err)"
    by (metis prod_cases3)
  show ?thesis
    using assms rt by (cases err; cases resp)
      (auto simp: reverse_proxy_def ErrorHandler_def ModifyResponse_def Let_def failing_def)
qed

text \<open>The guards and the health check leave what is sent upstream alone.\<close>

lemma outgoing_update [simp]:
  "outgoing t (p\<lparr>px_rateLimiter := a\<rparr>) req = outgoing t p req"
  "outgoing t (p\<lparr>px_circuitBreaker := b\<rparr>) req = outgoing t p req"
  "outgoing t (p\<lparr>px_healthCheckTimeout := c\<rparr>) req = outgoing t p req"
  "outgoing t (p\<lparr>px_healthy := d\<rparr>) req = outgoing t p req"
  "outgoing t (p\<lparr>px_lastHealthCheck := l\<rparr>) req = outgoing t p req"
  by (simp_all add: outgoing_def director_def applied_director_def single_host_director_def Let_def)

lemma rate_guard_keeps:
  "px_circuitBreaker (fst (rate_guard t p)) = px_circuitBreaker p"
  "px_transport (fst (rate_guard t p)) = px_transport p"
  "px_failoverProxy (fst (rate_guard t p)) = px_failoverProxy p"
  "outgoing t' (fst (rate_guard t p)) req = outgoing t' p req"
  by (simp_all add: rate_guard_def Let_def split: option.split prod.split)

lemma breaker_guard_keeps:
  "px_transport (fst (breaker_guard t p)) = px_transport p"
  "px_failoverProxy (fst (breaker_guard t p)) = px_failoverProxy p"
  "outgoing t' (fst (breaker_guard t p)) req = outgoing t' p req"
  by (simp_all add: breaker_guard_def Let_def split: option.split prod.split)

lemma refresh_keeps:
  assumes "refreshHealthStatus env w p = (w', p', ok)"
  shows "px_circuitBreaker p' = px_circuitBreaker p" "px_transport p' = px_transport p"
    "px_failoverProxy p' = px_failoverProxy p" "outgoing t p' req = outgoing t p req"
  using assms by (auto simp: refreshHealthStatus_def Let_def split: if_splits option.splits prod.splits sum.splits)

subsection \<open>What a response puts on the writer\<close>

lemma run_header_calls:
  "run net_write s (header_calls h) = s\<lparr>se_header := copyHeader (se_header s) h\<rparr>"
proof (induction h arbitrary: s)
  case Nil
  then show ?case by (simp add: header_calls_def copyHeader_def)
next
  case (Cons kv h)
  obtain k vs where kv: "kv = (k, vs)" by (cases kv)
  have one: "run net_write s (map (HAdd k) vs) = s\<lparr>se_header := foldl (\<lambda>d v. Header_Add k v d) (se_header s) vs\<rparr>"
    for s by (induction vs arbitrary: s) simp_all
  have "header_calls (kv # h) = map (HAdd k) vs @ header_calls h" by (simp add: header_calls_def kv)
  then show ?case by (simp add: run_append one Cons.IH copyHeader_def kv)
qed

lemma header_calls_fw: "fw_run fw (header_calls h) = (fw, header_calls h)"
proof -
  have "fw_run fw cs = (fw, cs)" if "\<forall>c \<in> set cs. \<exists>k v. c = HAdd k v" for cs
    using that by (induction cs) (auto simp: Let_def)
  then have "\<forall>c \<in> set cs. \<exists>k v. c = HAdd k v \<Longrightarrow> fw_run fw cs = (fw, cs)" for cs .
  moreover have "\<forall>c \<in> set (header_calls h). \<exists>k v. c = HAdd k v" by (auto simp: header_calls_def)
  ultimately show ?thesis by blast
qed

lemma fw_run_append:
  "fw_run fw (xs @ ys) = (let (fw, out) = fw_run fw xs; (fw, outs) = fw_run fw ys in (fw, out @ outs))"
  by (induction xs arbitrary: fw) (simp_all add: Let_def split_beta)

definition canonical :: "Header \<Rightarrow> bool" where
  "canonical h \<longleftrightarrow> gm_ok h \<and> list_all (\<lambda>kv. canonKey (fst kv) = fst kv) h"

lemma Header_Add_get: "gm_getd [] (Header_Add k v d) k' = gm_getd [] d k' @ (if k' = canonKey k then [v] else [])"
  by (simp add: Header_Add_def)

lemma copyHeader_get:
  assumes "canonical h"
  shows "gm_getd [] (copyHeader d h) k = gm_getd [] d k @ gm_getd [] h k"
  using assms
proof (induction h arbitrary: d)
  case Nil
  then show ?case by (simp add: copyHeader_def)
next
  case (Cons kv h)
  obtain k' vs where kv: "kv = (k', vs)" by (cases kv)
  have one: "gm_getd [] (foldl (\<lambda>d v. Header_Add k' v d) d vs) k = gm_getd [] d k @ (if k = canonKey k' then vs else [])"
    for d by (induction vs arbitrary: d) (simp_all add: Header_Add_get)
  have h: "canonical h" "canonKey k' = k'" "k' \<notin> fst ` set h"
    using Cons.prems by (auto simp: canonical_def gm_ok_def kv)
  then have absent: "gm_getd [] h k' = []" by (simp add: gm_getd_def map_of_eq_None_iff [THEN iffD2])
  have "gm_getd [] (copyHeader d (kv # h)) k = gm_getd [] (copyHeader (foldl (\<lambda>d v. Header_Add k' v d) d vs) h) k"
    by (simp add: copyHeader_def kv)
  also have "\<dots> = gm_getd [] d k @ (if k = k' then vs else []) @ gm_getd [] h k"
    by (simp add: Cons.IH [OF h(1)] one h(2))
  also have "\<dots> = gm_getd [] d k @ gm_getd [] (kv # h) k" using absent by (auto simp: gm_getd_def kv)
  finally show ?case .
qed

lemma Header_Del_canonical: "canonical h \<Longrightarrow> canonical (Header_Del k h)"
  by (auto simp: canonical_def Header_Del_def gm_ok_def list_all_iff AList.delete_eq distinct_map_filter)

lemma removeHop_canonical: "canonical h \<Longrightarrow> canonical (removeHopByHopHeaders h)"
proof -
  have "canonical h \<Longrightarrow> canonical (foldl (\<lambda>h k. Header_Del k h) h ks)" for ks h
    by (induction ks arbitrary: h) (simp_all add: Header_Del_canonical)
  then show "canonical h \<Longrightarrow> canonical (removeHopByHopHeaders h)" by (simp add: removeHopByHopHeaders_def Let_def)
qed

lemma run_response:
  assumes "se_code s = None" "\<not> informational (rs_Status resp)"
  shows "run net_write s (response_calls resp) =
    (let h = copyHeader (se_header s) (removeHopByHopHeaders (rs_Header resp))
     in s\<lparr>se_header := h, se_code := Some (rs_Status resp), se_sent := h,
         se_body := se_body s @ (if rs_closed resp then [] else rs_Body resp)\<rparr>)"
  using assms by (simp add: response_calls_def run_append run_header_calls net_WriteHeader_def Let_def)

lemma new_failover_writer_simps [simp]:
  "fw_failed new_failover_writer = False" "fw_committed new_failover_writer = False"
  by (simp_all add: new_failover_writer_def)

lemma fw_failing_response:
  assumes "failing (rs_Status resp)"
  shows "fw_run new_failover_writer (response_calls resp) =
    (new_failover_writer\<lparr>fw_failed := True\<rparr>,
     header_calls (removeHopByHopHeaders (rs_Header resp))
       @ (if \<not> rs_closed resp \<and> rs_Body resp \<noteq> [] \<and> streamed resp then [Flush] else []))"
  using assms
  by (simp add: response_calls_def fw_run_append header_calls_fw fw_WriteHeader_def fw_Write_def failing_def
      new_failover_writer_def Let_def)

lemma fw_good_response:
  assumes "\<not> failing (rs_Status resp)"
  shows "fw_run new_failover_writer (response_calls resp) =
    (new_failover_writer\<lparr>fw_committed := True, fw_code := rs_Status resp\<rparr>, response_calls resp)"
  using assms
  by (simp add: response_calls_def fw_run_append header_calls_fw fw_WriteHeader_def fw_Write_def failing_def
      new_failover_writer_def Let_def)

section \<open>Properties\<close>

text \<open>
  A guard that refuses answers by itself: the exact status and text the client gets for each of the
  three, the upstream is not contacted (but for the health probe), and a rate-limited request does
  not touch the circuit breaker.
\<close>

definition plain_error :: "int \<Rightarrow> string \<Rightarrow> wcall list \<Rightarrow> bool" where
  "plain_error code msg calls \<longleftrightarrow>
     se_code (respond calls) = Some code \<and> se_body (respond calls) = msg @ ''\<newline>''
     \<and> gm_get (se_sent (respond calls)) ''Content-Type'' = Some [''text/plain; charset=utf-8'']"

lemma http_Error_sent: "\<not> informational code \<Longrightarrow> plain_error code msg (http_Error msg code)"
proof -
  have k: "canonKey ''Content-Type'' = ''Content-Type''" "canonKey ''X-Content-Type-Options'' = ''X-Content-Type-Options''"
    by code_simp+
  show "\<not> informational code \<Longrightarrow> plain_error code msg (http_Error msg code)"
    by (simp add: plain_error_def http_Error_def respond_def finish_def net_WriteHeader_def fresh_writer_def
        Header_Set_def k Header_Del_def Let_def)
qed

theorem proxy_guards_answer_alone:
  assumes "proxy_ServeHTTP env w p r = (w', p', calls, aborted)"
  defines "p1 \<equiv> fst (rate_guard (pe_arrive env) p)"
  defines "p2 \<equiv> fst (breaker_guard (pe_arrive env) p1)"
  shows "(\<not> snd (rate_guard (pe_arrive env) p) \<longrightarrow> w' = w \<and> px_circuitBreaker p' = px_circuitBreaker p
      \<and> plain_error 429 ''rate limit exceeded'' calls)
    \<and> (snd (rate_guard (pe_arrive env) p) \<and> \<not> snd (breaker_guard (pe_arrive env) p1) \<longrightarrow> w' = w
      \<and> plain_error 503 ''upstream temporarily unavailable'' calls)
    \<and> (snd (rate_guard (pe_arrive env) p) \<and> snd (breaker_guard (pe_arrive env) p1)
      \<and> \<not> snd (snd (refreshHealthStatus env w p2)) \<and> px_failoverProxy p = None
      \<longrightarrow> w' = fst (refreshHealthStatus env w p2) \<and> plain_error 503 ''upstream unavailable'' calls)"
proof -
  obtain q1 ok1 where g1: "rate_guard (pe_arrive env) p = (q1, ok1)" by (cases "rate_guard (pe_arrive env) p")
  obtain q2 ok2 where g2: "breaker_guard (pe_arrive env) q1 = (q2, ok2)" by (cases "breaker_guard (pe_arrive env) q1")
  obtain w3 q3 ok3 where g3: "refreshHealthStatus env w q2 = (w3, q3, ok3)" by (metis prod_cases3)
  have f: "px_failoverProxy q3 = px_failoverProxy p" "px_circuitBreaker q1 = px_circuitBreaker p"
    using rate_guard_keeps(1,3) [of "pe_arrive env" p] breaker_guard_keeps(2) [of "pe_arrive env" q1] refresh_keeps(3) [OF g3]
    by (simp_all add: g1 g2)
  have e: "plain_error 429 ''rate limit exceeded'' (http_Error ''rate limit exceeded'' 429)"
    "plain_error 503 ''upstream temporarily unavailable'' (http_Error ''upstream temporarily unavailable'' 503)"
    "plain_error 503 ''upstream unavailable'' (http_Error ''upstream unavailable'' 503)"
    by (simp_all add: http_Error_sent informational_def)
  show ?thesis
    using assms(1) e f by (simp add: proxy_ServeHTTP_def p1_def p2_def g1 g2 g3 split: if_splits option.splits)
qed

definition demo_proxy_env :: "int \<Rightarrow> int list proxy_env" where
  "demo_proxy_env t = \<lparr>pe_arrive = t, pe_answer = t + 1, pe_net = \<lambda>tr. scripted,
     pe_probe = \<lambda>tr w req. (case w of [] \<Rightarrow> ([], Inl ''refused'') | code # w \<Rightarrow> (w, Inr code))\<rparr>"

definition demo_target :: URL where
  "demo_target = \<lparr>u_Scheme = ''http'', u_Host = ''api:8080'', u_Path = ''/base''\<rparr>"

definition demo_proxy :: Proxy where
  "demo_proxy = WithCircuitBreaker 2 100 50 (plain_proxy demo_target)"

lemma proxy_guards_answer_alone_witness:
  "plain_error 429 ''rate limit exceeded''
    (fst (snd (snd (proxy_ServeHTTP (demo_proxy_env 0) [200]
      (demo_proxy\<lparr>px_rateLimiter := Some \<lparr>rl_limit = 1, rl_burst = 1, rl_tokens = 0, rl_last = Some 0\<rparr>\<rparr>) demo_http_request))))"
proof -
  let ?p = "demo_proxy\<lparr>px_rateLimiter := Some \<lparr>rl_limit = 1, rl_burst = 1, rl_tokens = 0, rl_last = Some 0\<rparr>\<rparr>"
  obtain w' p' calls aborted where s: "proxy_ServeHTTP (demo_proxy_env 0) [200] ?p demo_http_request = (w', p', calls, aborted)"
    by (metis prod_cases4)
  have "\<not> snd (rate_guard (pe_arrive (demo_proxy_env 0)) ?p)" by code_simp
  with proxy_guards_answer_alone [OF s] s show ?thesis by simp
qed

text \<open>
  What one request tells the circuit breaker: that it was asked, and, when it let the request
  through, how the upstream answered. The guards before it and the health check may keep it silent.
\<close>

definition request_events :: "'w proxy_env \<Rightarrow> 'w \<Rightarrow> Proxy \<Rightarrow> HttpRequest \<Rightarrow> breaker_event list" where
  "request_events env w p r =
     (let (p, ok) = rate_guard (pe_arrive env) p in
      if \<not> ok then []
      else CAllow (pe_arrive env) #
        (let (p, ok) = breaker_guard (pe_arrive env) p in
         if \<not> ok then []
         else (let (w, p, ok) = refreshHealthStatus env w p in
           if \<not> ok then []
           else verdict (pe_answer env) (round_trip env (px_transport p) w (outgoing (pe_arrive env) p r)))))"

lemma serve_breaker:
  assumes "px_circuitBreaker p = Some cb"
  shows "px_circuitBreaker (fst (snd (proxy_ServeHTTP env w p r))) = Some (run breaker_step cb (request_events env w p r))"
proof -
  obtain q1 ok1 where g1: "rate_guard (pe_arrive env) p = (q1, ok1)" by (cases "rate_guard (pe_arrive env) p")
  obtain q2 ok2 where g2: "breaker_guard (pe_arrive env) q1 = (q2, ok2)" by (cases "breaker_guard (pe_arrive env) q1")
  obtain w3 q3 ok3 where g3: "refreshHealthStatus env w q2 = (w3, q3, ok3)" by (metis prod_cases3)
  obtain w4 q4 calls ab where g4: "reverse_proxy env w3 q3 r = (w4, q4, calls, ab)" by (metis prod_cases4)
  have c1: "px_circuitBreaker q1 = Some cb" using rate_guard_keeps(1) [of "pe_arrive env" p] g1 assms by simp
  have c2: "px_circuitBreaker q2 = Some (fst (breaker_allow (pe_arrive env) cb))"
    using g2 c1 by (auto simp: breaker_guard_def Let_def split: prod.splits)
  have c3: "px_circuitBreaker q3 = px_circuitBreaker q2" by (rule refresh_keeps(1) [OF g3])
  have c4: "px_circuitBreaker q4 = Some (run breaker_step (fst (breaker_allow (pe_arrive env) cb))
      (verdict (pe_answer env) (round_trip env (px_transport q3) w3 (outgoing (pe_arrive env) q3 r))))"
    by (rule reverse_proxy_breaker [OF g4]) (simp add: c3 c2)
  show ?thesis
  proof (cases "ok1 \<and> ok2 \<and> ok3")
    case True
    with c4 have "px_circuitBreaker q4 = Some (run breaker_step cb (request_events env w p r))"
      by (simp add: request_events_def g1 g2 g3)
    moreover have "fst (snd (proxy_ServeHTTP env w p r)) = q4"
      using True unfolding proxy_ServeHTTP_def g1 g2 g3 g4 Let_def split
      by (simp split: option.split prod.split)
    ultimately show ?thesis by simp
  next
    case False
    then show ?thesis
      using c1 c2 c3 unfolding proxy_ServeHTTP_def request_events_def g1 g2 g3 Let_def split
      by (auto split: option.split prod.split)
  qed
qed

text \<open>A sequence of requests, each with what it meets outside.\<close>

definition serve_step :: "'w \<times> Proxy \<Rightarrow> 'w proxy_env \<times> HttpRequest \<Rightarrow> 'w \<times> Proxy" where
  "serve_step s x = (let (w, p, calls, aborted) = proxy_ServeHTTP (fst x) (fst s) (snd s) (snd x) in (w, p))"

lemmas proxy_eval = request_events_def serve_step_def proxy_ServeHTTP_def reverse_proxy_def rate_guard_def
  breaker_guard_def refreshHealthStatus_def round_trip_def scripted_def ModifyResponse_def observe_def
  demo_proxy_env_def demo_proxy_def WithCircuitBreaker_def newProxyCircuitBreaker_def plain_proxy_def
  breaker_allow_def restart_window_def window_over_def recordFailure_def failing_def Let_def

fun trace_events :: "'w \<times> Proxy \<Rightarrow> ('w proxy_env \<times> HttpRequest) list \<Rightarrow> breaker_event list" where
  "trace_events s [] = []"
| "trace_events s (x # xs) = request_events (fst x) (fst s) (snd s) (snd x) @ trace_events (serve_step s x) xs"

lemma trace_breaker:
  assumes "px_circuitBreaker (snd s) = Some cb"
  shows "px_circuitBreaker (snd (run serve_step s xs)) = Some (run breaker_step cb (trace_events s xs))"
  using assms
proof (induction xs arbitrary: s cb)
  case (Cons x xs)
  have "px_circuitBreaker (snd (serve_step s x)) = Some (run breaker_step cb (request_events (fst x) (fst s) (snd s) (snd x)))"
    using serve_breaker [OF Cons.prems] by (simp add: serve_step_def split_beta)
  from Cons.IH [OF this] show ?case by (simp add: run_append)
qed simp

text \<open>C21. The proxy drives the breaker of \<open>Resilience\<close>: its breaker after any sequence of requests is the
  breaker run over the outcomes of those requests (a failure for a transport error, a 429 or a status
  of 500 and above; a success for any other answer).
\<close>

theorem proxy_breaker_refines:
  assumes "px_circuitBreaker p = Some cb"
  shows "px_circuitBreaker (snd (run serve_step (w, p) xs)) = Some (run breaker_step cb (trace_events (w, p) xs))"
  using trace_breaker [of "(w, p)" cb xs] assms by simp

lemma proxy_breaker_refines_witness:
  "px_circuitBreaker (snd (run serve_step ([503, 500, 200], demo_proxy)
      [(demo_proxy_env 0, demo_http_request), (demo_proxy_env 5, demo_http_request), (demo_proxy_env 8, demo_http_request)]))
   = Some (run breaker_step (the (newProxyCircuitBreaker 2 100 50)) [CAllow 0, CFailure 1, CAllow 5, CFailure 6, CAllow 8])"
proof -
  let ?xs = "[(demo_proxy_env 0, demo_http_request), (demo_proxy_env 5, demo_http_request), (demo_proxy_env 8, demo_http_request)]"
  have b: "px_circuitBreaker demo_proxy = Some (the (newProxyCircuitBreaker 2 100 50))" by code_simp
  have e: "trace_events ([503, 500, 200], demo_proxy) ?xs = [CAllow 0, CFailure 1, CAllow 5, CFailure 6, CAllow 8]"
    by (simp add: proxy_eval)
  show ?thesis using proxy_breaker_refines [OF b, of "[503, 500, 200]" ?xs] unfolding e .
qed



section \<open>Answers and failover\<close>

text \<open>The state in which the guards let a request through to the upstream.\<close>

definition let_through :: "'w proxy_env \<Rightarrow> 'w \<Rightarrow> Proxy \<Rightarrow> ('w \<times> Proxy) option" where
  "let_through env w p =
     (let (p, ok1) = rate_guard (pe_arrive env) p;
          (p, ok2) = breaker_guard (pe_arrive env) p;
          (w, p, ok3) = refreshHealthStatus env w p
      in if ok1 \<and> ok2 \<and> ok3 then Some (w, p) else None)"

lemma let_through_serve:
  assumes "let_through env w p = Some (w1, p1)"
  shows "proxy_ServeHTTP env w p r =
    (let (w, p', calls, aborted) = reverse_proxy env w1 p1 r in
     case px_failoverProxy p of
       None \<Rightarrow> (w, p', calls, aborted)
     | Some target \<Rightarrow>
         (let (fw, out) = fw_run new_failover_writer calls in
          if aborted then (w, p', out, True)
          else if fw_failed fw \<and> \<not> fw_committed fw then
            (let (w, calls, aborted) = failover_serve env w target (consumed r) in (w, p', out @ calls, aborted))
          else (w, p', out, False)))"
proof -
  obtain q1 ok1 where g1: "rate_guard (pe_arrive env) p = (q1, ok1)" by (cases "rate_guard (pe_arrive env) p")
  obtain q2 ok2 where g2: "breaker_guard (pe_arrive env) q1 = (q2, ok2)" by (cases "breaker_guard (pe_arrive env) q1")
  obtain w3 q3 ok3 where g3: "refreshHealthStatus env w q2 = (w3, q3, ok3)" by (metis prod_cases3)
  have ok: "ok1" "ok2" "ok3" "w3 = w1" "q3 = p1"
    using assms unfolding let_through_def g1 g2 g3 Let_def split by (auto split: if_splits)
  obtain w4 p4 calls ab where g4: "reverse_proxy env w1 p1 r = (w4, p4, calls, ab)" by (metis prod_cases4)
  have "px_failoverProxy p4 = px_failoverProxy p"
    using reverse_proxy_keeps [OF g4] rate_guard_keeps(3) [of "pe_arrive env" p]
      breaker_guard_keeps(2) [of "pe_arrive env" q1] refresh_keeps(3) [OF g3] g1 g2 ok by simp
  then show ?thesis
    using ok g4 unfolding proxy_ServeHTTP_def g1 g2 g3 Let_def split by simp
qed

text \<open>What the client has got: the status, the header and the body of an upstream response.\<close>

definition relayed :: "Response \<Rightarrow> wcall list \<Rightarrow> bool" where
  "relayed resp calls \<longleftrightarrow>
     se_code (respond calls) = Some (rs_Status resp) \<and> se_body (respond calls) = rs_Body resp
     \<and> (\<forall>k. gm_getd [] (se_sent (respond calls)) k = gm_getd [] (removeHopByHopHeaders (rs_Header resp)) k)"

lemma respond_response:
  assumes "\<not> informational (rs_Status resp)" "canonical (rs_Header resp)" "\<not> rs_closed resp"
  shows "relayed resp (response_calls resp)"
  using assms
  by (simp add: relayed_def respond_def finish_def run_response fresh_writer_def net_WriteHeader_def Let_def
      copyHeader_get removeHop_canonical)

lemma reverse_proxy_response:
  assumes "round_trip env (px_transport p) w (outgoing (pe_arrive env) p r) = (w', Some resp, nil)"
  shows "reverse_proxy env w p r =
    (w', ModifyResponse (pe_answer env) (outgoing (pe_arrive env) p r) (rs_Status resp) p, response_calls resp, copy_fails resp)"
  using assms by (simp add: reverse_proxy_def Let_def)

text \<open>
  A request the guards let through is answered by the upstream's response, to the byte, with or
  without a failover target: status, body, and every header but the hop-by-hop ones; and the upstream
  has been asked exactly once.
\<close>

theorem proxy_relays_response:
  assumes "let_through env w p = Some (w1, p1)"
    and "round_trip env (px_transport p1) w1 (outgoing (pe_arrive env) p1 r) = (w2, Some resp, nil)"
    and "\<not> informational (rs_Status resp)" "\<not> rs_closed resp" "canonical (rs_Header resp)"
    and "px_failoverProxy p = None \<or> \<not> failing (rs_Status resp)"
  shows "fst (proxy_ServeHTTP env w p r) = w2 \<and> relayed resp (fst (snd (snd (proxy_ServeHTTP env w p r))))
    \<and> \<not> snd (snd (snd (proxy_ServeHTTP env w p r)))"
proof -
  have c: "\<not> copy_fails resp" using assms(4) by (simp add: copy_fails_def)
  have "fst (proxy_ServeHTTP env w p r) = w2 \<and> fst (snd (snd (proxy_ServeHTTP env w p r))) = response_calls resp
    \<and> \<not> snd (snd (snd (proxy_ServeHTTP env w p r)))"
  proof (cases "px_failoverProxy p")
    case None
    then show ?thesis
      unfolding let_through_serve [OF assms(1)] reverse_proxy_response [OF assms(2)] Let_def split by (simp add: c)
  next
    case (Some target)
    with assms(6) have "\<not> failing (rs_Status resp)" by simp
    with Some show ?thesis
      unfolding let_through_serve [OF assms(1)] reverse_proxy_response [OF assms(2)] Let_def split
      by (simp add: fw_good_response c)
  qed
  with respond_response [OF assms(3,5,4)] show ?thesis by simp
qed

lemma failover_answer:
  assumes "let_through env w p = Some (w1, p1)" "px_failoverProxy p = Some target"
    and "round_trip env (px_transport p1) w1 (outgoing (pe_arrive env) p1 r) = (w2, Some bad, nil)"
    and "failing (rs_Status bad)" "\<not> copy_fails bad"
    and "round_trip env (Pooled, None) w2 (outgoing (pe_arrive env) (plain_proxy target) (consumed r)) = (w3, Some resp, nil)"
  shows "fst (proxy_ServeHTTP env w p r) = w3
    \<and> fst (snd (snd (proxy_ServeHTTP env w p r))) = header_calls (removeHopByHopHeaders (rs_Header bad))
       @ (if \<not> rs_closed bad \<and> rs_Body bad \<noteq> [] \<and> streamed bad then [Flush] else []) @ response_calls resp"
proof -
  have t: "px_transport (plain_proxy target) = (Pooled, None)" by (simp add: plain_proxy_def)
  have "failover_serve env w2 target (consumed r) = (w3, response_calls resp, copy_fails resp)"
    unfolding failover_serve_def by (simp add: reverse_proxy_response [where p = "plain_proxy target"] t assms(6))
  then show ?thesis
    unfolding let_through_serve [OF assms(1)] reverse_proxy_response [OF assms(3)] Let_def split
    by (simp add: assms(2,5) fw_failing_response [OF assms(4)])
qed


text \<open>
  The header of the failing answer is not withdrawn: the client gets every value of it followed by
  the failover target's, so a \<open>Content-Type\<close> or a \<open>Set-Cookie\<close> of the failed attempt is sent.
\<close>

theorem failover_keeps_headers_of_failed_answer:
  assumes "let_through env w p = Some (w1, p1)" "px_failoverProxy p = Some target"
    and "round_trip env (px_transport p1) w1 (outgoing (pe_arrive env) p1 r) = (w2, Some bad, nil)"
    and "failing (rs_Status bad)" "\<not> streamed bad" "\<not> copy_fails bad"
    and "round_trip env (Pooled, None) w2 (outgoing (pe_arrive env) (plain_proxy target) (consumed r)) = (w3, Some resp, nil)"
    and "\<not> informational (rs_Status resp)" "canonical (rs_Header bad)" "canonical (rs_Header resp)"
  shows "gm_getd [] (se_sent (respond (fst (snd (snd (proxy_ServeHTTP env w p r)))))) k =
    gm_getd [] (removeHopByHopHeaders (rs_Header bad)) k @ gm_getd [] (removeHopByHopHeaders (rs_Header resp)) k"
  using failover_answer [OF assms(1,2,3,4,6,7)] assms(5,8,9,10)
  by (simp add: respond_def run_append run_header_calls run_response fresh_writer_def finish_def net_WriteHeader_def
      copyHeader_get removeHop_canonical Let_def)

text \<open>A failing answer of unknown length (chunked) or an event stream is flushed after its first bytes,
  and the flush commits a 200 before the failover target is asked: whatever status that target
  answers, the client gets 200.
\<close>

theorem failover_after_chunked_failure_answers_200:
  assumes "let_through env w p = Some (w1, p1)" "px_failoverProxy p = Some target"
    and "round_trip env (px_transport p1) w1 (outgoing (pe_arrive env) p1 r) = (w2, Some bad, nil)"
    and "failing (rs_Status bad)" "streamed bad" "rs_Body bad \<noteq> []" "\<not> rs_closed bad"
    and "round_trip env (Pooled, None) w2 (outgoing (pe_arrive env) (plain_proxy target) (consumed r)) = (w3, Some resp, nil)"
  shows "se_code (respond (fst (snd (snd (proxy_ServeHTTP env w p r))))) = Some 200"
proof -
  have c: "\<not> copy_fails bad" using assms(7) by (simp add: copy_fails_def)
  let ?s = "run net_write fresh_writer (header_calls (removeHopByHopHeaders (rs_Header bad)) @ [Flush])"
  have "se_code ?s = Some 200"
    by (simp add: run_append run_header_calls fresh_writer_def net_WriteHeader_def informational_def)
  then have "se_code (run net_write ?s (response_calls resp)) = Some 200" using net_code_final [of ?s] by simp
  moreover have "fst (snd (snd (proxy_ServeHTTP env w p r))) =
      (header_calls (removeHopByHopHeaders (rs_Header bad)) @ [Flush]) @ response_calls resp"
    using failover_answer [OF assms(1,2,3,4) c assms(8)] assms(5,6,7) by simp
  ultimately show ?thesis by (simp add: respond_def finish_def run_append net_WriteHeader_def)
qed

section \<open>Retries and failover\<close>

lemma director_body:
  "hq_Body (director t p r) = hq_Body r" "hq_GetBody (director t p r) = hq_GetBody r"
  by (simp_all add: director_def applied_director_def single_host_director_def Let_def)

lemma outgoing_body:
  "hq_Body (outgoing t p r) = (if hq_ContentLength r = 0 then None else hq_Body r)"
  "hq_GetBody (outgoing t p r) = hq_GetBody r"
  by (simp_all add: outgoing_def director_body Let_def)

lemma retry_failing_closed:
  assumes "hq_GetBody req = None" "case hq_Body req of None \<Rightarrow> True | Some (bytes, err) \<Rightarrow> err = nil" "0 \<le> retries"
    and "retry_RoundTrip base retries delay w req = (w', slept, Some resp, nil)" "failing (rs_Status resp)"
  shows "rs_closed resp"
proof -
  let ?outs = "attempts base w (replayed req) (Suc (nat retries))"
  note r = assms(4) [unfolded retry_as_reference [OF assms(1,2,3)]]
  show ?thesis
  proof (cases "List.find outcome_ok ?outs")
    case None
    then show ?thesis using r unfolding retry_reference_def by (auto simp: close_response_def split: prod.splits)
  next
    case (Some o')
    obtain w2 resp2 err2 where o': "o' = (w2, resp2, err2)" by (metis prod_cases3)
    have "outcome_ok o'" using Some find_Some_iff [of outcome_ok ?outs o'] by blast
    moreover have "resp2 = Some resp" using r unfolding retry_reference_def Some o' by simp
    ultimately have False using assms(5) by (simp add: outcome_ok_def acceptable_def failing_def o')
    then show ?thesis ..
  qed
qed

text \<open>
  Retrying and failover do not combine: when every attempt is answered 429 or 500 and above, the
  answer the retrying transport hands over has a closed body, copying it fails, the handler panics
  with \<open>http.ErrAbortHandler\<close>, and the failover target is never asked.
\<close>

theorem retry_defeats_failover:
  assumes "let_through env w p = Some (w1, p1)" "px_failoverProxy p = Some target"
    and "snd (px_transport p1) = Some (retries, delay)" "0 \<le> retries"
    and "round_trip env (px_transport p1) w1 (outgoing (pe_arrive env) p1 r) = (w2, Some bad, nil)"
    and "failing (rs_Status bad)" "rs_Body bad \<noteq> []"
    and "hq_GetBody r = None" "case hq_Body r of None \<Rightarrow> True | Some (bytes, err) \<Rightarrow> err = nil"
  shows "fst (proxy_ServeHTTP env w p r) = w2 \<and> snd (snd (snd (proxy_ServeHTTP env w p r)))"
proof -
  let ?out = "outgoing (pe_arrive env) p1 r"
  obtain w' slept resp err where rt: "retry_RoundTrip (pe_net env (fst (px_transport p1))) retries delay w1 ?out =
      (w', slept, resp, err)" by (metis prod_cases4)
  have "w' = w2" "resp = Some bad" "err = nil"
    using assms(5) by (simp_all add: round_trip_def assms(3) rt)
  note rt = rt [unfolded this]
  have body: "hq_GetBody ?out = None" "case hq_Body ?out of None \<Rightarrow> True | Some (bytes, err) \<Rightarrow> err = nil"
    using assms(8,9) by (simp_all add: outgoing_body)
  have "rs_closed bad" by (rule retry_failing_closed [OF body assms(4) rt assms(6)])
  then have c: "copy_fails bad" using assms(7) by (simp add: copy_fails_def)
  show ?thesis
    unfolding let_through_serve [OF assms(1)] reverse_proxy_response [OF assms(5)] Let_def split
    by (simp add: assms(2) c fw_failing_response [OF assms(6)])
qed

section \<open>Health checks\<close>

text \<open>
  A health check holds for the whole interval: after one at \<open>t\<close>, every request before
  \<open>t\<close> plus the interval gets the same verdict without another probe.
\<close>

theorem health_verdict_cached:
  assumes "refreshHealthStatus env w p = (w1, p1, ok)" "px_lastHealthCheck p1 = Some t"
    and "px_healthCheckPath p \<noteq> []" "0 < px_healthCheckInterval p" "pe_arrive env' < t + px_healthCheckInterval p"
  shows "refreshHealthStatus env' w' p1 = (w', p1, ok)"
proof -
  have k: "px_healthCheckPath p1 = px_healthCheckPath p \<and> px_healthCheckInterval p1 = px_healthCheckInterval p
      \<and> px_healthy p1 = ok"
    using assms(1,3) by (auto simp: refreshHealthStatus_def Let_def split: if_splits option.splits prod.splits sum.splits)
  show ?thesis using assms(2,3,4,5) by (simp add: refreshHealthStatus_def k Let_def)
qed

section \<open>What is sent upstream\<close>

lemma Header_Set_get [simp]: "gm_get (Header_Set k v h) k' = (if k' = canonKey k then Some [v] else gm_get h k')"
  by (simp add: Header_Set_def update_conv')

lemma Header_Del_get: "gm_get (Header_Del k h) k' = (if k' = canonKey k then None else gm_get h k')"
  by (simp add: Header_Del_def delete_conv')

lemma canon_consts:
  "canonKey ''X-Request-ID'' = ''X-Request-Id''" "canonKey ''X-Correlation-ID'' = ''X-Correlation-Id''"
  "canonKey ''X-Trace-ID'' = ''X-Trace-Id''" "canonKey ''X-Forwarded-Proto'' = ''X-Forwarded-Proto''"
  "canonKey ''X-Forwarded-For'' = ''X-Forwarded-For''" "canonKey ''User-Agent'' = ''User-Agent''"
  "map canonKey hop_headers = hop_headers"
  by code_simp+

lemma removeHop_get:
  assumes "gm_get h ''Connection'' = None" "k \<notin> set hop_headers"
  shows "gm_get (removeHopByHopHeaders h) k = gm_get h k"
proof -
  have "k \<notin> set (map canonKey ks) \<Longrightarrow> gm_get (foldl (\<lambda>h k. Header_Del k h) h ks) k = gm_get h k" for ks h
    by (induction ks arbitrary: h) (auto simp: Header_Del_get)
  moreover have "k \<notin> set (map canonKey hop_headers)" using assms(2) unfolding canon_consts .
  moreover have "removeHopByHopHeaders h = foldl (\<lambda>h k. Header_Del k h) h hop_headers"
    using assms(1) by (simp add: removeHopByHopHeaders_def gm_getd_def)
  ultimately show ?thesis by simp
qed

lemma append_client_get:
  "k \<noteq> ''X-Forwarded-For'' \<Longrightarrow> gm_get (append_client remote h) k = gm_get h k"
  "SplitHost remote = Some ip \<Longrightarrow> gm_get (append_client remote h) ''X-Forwarded-For'' =
     Some [Join (gm_getd [] h ''X-Forwarded-For'' @ [ip]) '', '']"
  by (simp_all add: append_client_def canon_consts split: option.split)

lemma default_agent_get: "k \<noteq> ''User-Agent'' \<Longrightarrow> gm_get (default_agent h) k = gm_get h k"
  by (simp add: default_agent_def canon_consts)

lemma outgoing_get:
  assumes "gm_get (hq_Header (director t p r')) ''Connection'' = None"
    and "r' = (if hq_ContentLength r = 0 then r\<lparr>hq_Body := None\<rparr> else r)"
    and "k \<notin> set hop_headers" "k \<noteq> ''User-Agent''"
  shows "gm_get (hq_Header (outgoing t p r)) k =
    gm_get (append_client (hq_RemoteAddr r) (removeHopByHopHeaders (hq_Header (director t p r')))) k"
  using assms by (simp add: outgoing_def default_agent_get Let_def)

lemma forwarded_for_get:
  "k \<noteq> ''X-Forwarded-For'' \<Longrightarrow> gm_get (forwarded_for remote h) k = gm_get h k"
  "SplitHost remote = Some ip \<Longrightarrow> gm_get h ''X-Forwarded-For'' = None \<Longrightarrow>
     gm_get (forwarded_for remote h) ''X-Forwarded-For'' = Some [ip]"
proof -
  have "SplitHost [] = None" by code_simp
  then show "SplitHost remote = Some ip \<Longrightarrow> gm_get h ''X-Forwarded-For'' = None \<Longrightarrow>
     gm_get (forwarded_for remote h) ''X-Forwarded-For'' = Some [ip]"
    by (cases "remote = []") (auto simp: forwarded_for_def Header_Get_def canon_consts)
qed (simp add: forwarded_for_def canon_consts Let_def)

lemma RequestID_cong:
  "cx_requestID (hq_Context a) = cx_requestID (hq_Context b) \<Longrightarrow> hq_Header a = hq_Header b \<Longrightarrow>
     RequestIDFromRequest a = RequestIDFromRequest b"
  by (simp only: RequestIDFromRequest_def)

lemma director_header:
  assumes "px_director p" "px_headers p = []" "k \<noteq> ''X-Forwarded-Proto''" "k \<noteq> ''X-Forwarded-For''"
  shows "gm_get (hq_Header (director t p r)) k =
    (if RequestIDFromRequest r \<noteq> [] \<and> k \<in> {''X-Request-Id'', ''X-Correlation-Id'', ''X-Trace-Id''}
     then Some [RequestIDFromRequest r] else gm_get (hq_Header r) k)"
proof -
  have "RequestIDFromRequest (r\<lparr>hq_Context := (hq_Context r)\<lparr>cx_proxyStart := s\<rparr>, hq_Scheme := a, hq_URLHost := b,
      hq_Path := c, hq_Host := d\<rparr>) = RequestIDFromRequest r" for s a b c d
    by (rule RequestID_cong) simp_all
  then show ?thesis
    using assms by (simp add: director_def applied_director_def forwarded_for_get(1) canon_consts Let_def)
qed

lemma RequestID_body [simp]: "RequestIDFromRequest (r\<lparr>hq_Body := b\<rparr>) = RequestIDFromRequest r"
  by (rule RequestID_cong) simp_all

text \<open>
  A configured proxy sends the request to its target, under the target's host name, at the target's
  base path, then the target prefix, then the rest of the path after the stripped prefix; and the
  correlation ID of the request travels on in all three headers.
\<close>

theorem proxy_rewrites_and_correlates:
  assumes "px_director p" "px_headers p = []" "gm_get (hq_Header r) ''Connection'' = None"
    and "normal_path (px_stripPrefix p)" "px_stripPrefix p \<noteq> ''/''" "px_rewriteFrom p = []" "px_rewriteTo p = []"
    and "hq_Path r = px_stripPrefix p @ ''/'' @ rest" "RequestIDFromRequest r = i" "i \<noteq> []"
  defines "base \<equiv> u_Path (px_targetURL p)" and "tp \<equiv> px_targetPathPrefix p"
  shows "hq_URLHost (outgoing t p r) = u_Host (px_targetURL p) \<and> hq_Host (outgoing t p r) = u_Host (px_targetURL p)
    \<and> hq_Scheme (outgoing t p r) = u_Scheme (px_targetURL p)
    \<and> hq_Path (outgoing t p r) =
        (if base = ''/'' then [] else if HasSuffix base ''/'' then TrimSuffix base ''/'' else base)
        @ (if tp = [] \<or> normalizePath tp = ''/'' then [] else normalizePath tp) @ ''/'' @ rest
    \<and> (\<forall>k \<in> {''X-Request-Id'', ''X-Correlation-Id'', ''X-Trace-Id''}. gm_get (hq_Header (outgoing t p r)) k = Some [i])"
proof -
  let ?r = "if hq_ContentLength r = 0 then r\<lparr>hq_Body := None\<rparr> else r"
  have f: "hq_URLHost (director t p q) = u_Host (px_targetURL p)" "hq_Host (director t p q) = u_Host (px_targetURL p)"
    "hq_Scheme (director t p q) = u_Scheme (px_targetURL p)"
    "hq_Path (director t p q) = joinProxyPath base (hq_Path q) (px_stripPrefix p) tp [] []" for q
    using assms(1,6,7) by (simp_all add: director_def applied_director_def base_def tp_def Let_def)
  have path: "hq_Path ?r = px_stripPrefix p @ ''/'' @ rest" "RequestIDFromRequest ?r = i"
    "gm_get (hq_Header ?r) ''Connection'' = None"
    using assms(3,8,9) by simp_all
  have h: "gm_get (hq_Header (director t p ?r)) k = (if k \<in> {''X-Request-Id'', ''X-Correlation-Id'', ''X-Trace-Id''}
     then Some [i] else gm_get (hq_Header ?r) k)" if "k \<noteq> ''X-Forwarded-Proto''" "k \<noteq> ''X-Forwarded-For''" for k
    using director_header [OF assms(1,2) that, of t ?r] assms(10) path(2) by simp
  have "gm_get (hq_Header (director t p ?r)) ''Connection'' = None" using h [of "''Connection''"] path(3) by simp
  then have ids: "gm_get (hq_Header (outgoing t p r)) k = Some [i]"
    if "k \<in> {''X-Request-Id'', ''X-Correlation-Id'', ''X-Trace-Id''}" for k
    using that h [of k] outgoing_get [of t p ?r r k]
    by (auto simp: append_client_get(1) removeHop_get hop_headers_def)
  have "hq_Path (outgoing t p r) = joinProxyPath base (px_stripPrefix p @ ''/'' @ rest) (px_stripPrefix p) tp [] []"
    using path(1) by (simp add: outgoing_def f Let_def)
  then show ?thesis
    using ids unfolding joinProxyPath_boundary [OF assms(4,5)] by (simp add: outgoing_def f Let_def)
qed

text \<open>
  The director appends the client's address to \<open>X-Forwarded-For\<close>, and \<open>httputil.ReverseProxy\<close> appends
  it again: the upstream is told of two hops where there was one.
\<close>

theorem forwarded_for_has_client_twice:
  assumes "px_director p" "px_headers p = []" "gm_get (hq_Header r) ''Connection'' = None"
    and "gm_get (hq_Header r) ''X-Forwarded-For'' = None" "SplitHost (hq_RemoteAddr r) = Some ip"
  shows "gm_get (hq_Header (outgoing t p r)) ''X-Forwarded-For'' = Some [ip @ '', '' @ ip]"
proof -
  let ?r = "if hq_ContentLength r = 0 then r\<lparr>hq_Body := None\<rparr> else r"
  have c: "gm_get (hq_Header (director t p ?r)) ''Connection'' = None"
    using director_header [OF assms(1,2), of "''Connection''" t ?r] assms(3) by simp
  have "gm_get (hq_Header (director t p ?r)) ''X-Forwarded-For'' = Some [ip]"
    using assms(1,2,4,5) by (simp add: director_def applied_director_def forwarded_for_get(2) canon_consts Let_def)
  then have "gm_get (removeHopByHopHeaders (hq_Header (director t p ?r))) ''X-Forwarded-For'' = Some [ip]"
    using removeHop_get [OF c, of "''X-Forwarded-For''"] by (simp add: hop_headers_def)
  then show ?thesis
    using outgoing_get [OF c refl, of "''X-Forwarded-For''"]
    by (simp add: append_client_get(2) [OF assms(5)] hop_headers_def gm_getd_def)
qed

text \<open>
  The failover target is asked with the request as the client sent it: neither the prefixes, the
  rewrite nor the headers of the proxy apply to it, and the host name stays the client's.
\<close>

theorem failover_request_not_rewritten:
  "hq_Path (outgoing t (plain_proxy target) r) = singleJoiningSlash (u_Path target) (hq_Path r)
   \<and> hq_Host (outgoing t (plain_proxy target) r) = hq_Host r"
  by (simp add: outgoing_def director_def plain_proxy_def single_host_director_def Let_def)

text \<open>
  The strip prefix is cut off wherever the text matches, not at a segment: below \<open>/api\<close> the request
  \<open>/apix\<close> is sent upstream with the path \<open>x\<close>, which has no leading slash.
\<close>

theorem strip_prefix_cuts_inside_segment:
  "hq_Path (outgoing 0 (WithStripPrefix ''/api'' (plain_proxy (demo_target\<lparr>u_Path := []\<rparr>)))
     (demo_http_request\<lparr>hq_Path := ''/apix''\<rparr>)) = ''x''"
proof -
  have "no_root ''/api'' = ''/api''" "joinProxyPath [] ''/apix'' ''/api'' [] [] [] = ''x''" by code_simp+
  then show ?thesis
    by (simp add: outgoing_def director_def applied_director_def WithStripPrefix_def plain_proxy_def demo_target_def
        demo_http_request_def Let_def)
qed

section \<open>Concrete instances\<close>

text \<open>Two upstreams: \<open>api:8080\<close> answers \<open>bad\<close>, every other host answers \<open>good\<close>.\<close>

definition two_hosts :: "Response \<Rightarrow> Response \<Rightarrow> unit RoundTripper" where
  "two_hosts bad good w req = ((), Some (if hq_URLHost req = ''api:8080'' then bad else good), nil)"

definition two_env :: "Response \<Rightarrow> Response \<Rightarrow> unit proxy_env" where
  "two_env bad good = \<lparr>pe_arrive = 0, pe_answer = 1, pe_net = \<lambda>tr. two_hosts bad good,
     pe_probe = \<lambda>tr w req. ((), Inr 200)\<rparr>"

definition answer :: "int \<Rightarrow> int \<Rightarrow> string \<Rightarrow> Response" where
  "answer code len body = \<lparr>rs_Status = code, rs_Header = [(''Content-Type'', [''text/plain''])],
     rs_ContentLength = len, rs_Body = body, rs_closed = False\<rparr>"

definition second_target :: URL where
  "second_target = \<lparr>u_Scheme = ''http'', u_Host = ''spare:8080'', u_Path = []\<rparr>"

definition guarded :: Proxy where
  "guarded = (plain_proxy demo_target)\<lparr>px_failoverProxy := Some second_target\<rparr>"

lemma outgoing_host [simp]: "hq_URLHost (outgoing t p r) = u_Host (px_targetURL p)"
  by (simp add: outgoing_def director_def applied_director_def single_host_director_def Let_def)

lemmas demo_simps = let_through_def rate_guard_def breaker_guard_def refreshHealthStatus_def guarded_def
  plain_proxy_def round_trip_def two_env_def two_hosts_def demo_target_def second_target_def

lemma demo_answer: "canonical (rs_Header (answer code len body))" "\<not> rs_closed (answer code len body)"
  "rs_Status (answer code len body) = code" "rs_Body (answer code len body) = body"
  "streamed (answer code len body) \<longleftrightarrow> len = -1" "\<not> copy_fails (answer code len body)"
proof -
  have c: "canonKey ''Content-Type'' = ''Content-Type''" by code_simp
  then show "canonical (rs_Header (answer code len body))" by (simp add: answer_def canonical_def gm_ok_def)
  have "TrimSpace (hd (Split ''text/plain'' CHR '';'')) \<noteq> ''text/event-stream''" by code_simp
  then show "streamed (answer code len body) \<longleftrightarrow> len = -1" by (simp add: streamed_def answer_def Header_Get_def c)
qed (simp_all add: answer_def copy_fails_def)

lemma guarded_primary:
  "let_through (two_env bad good) () guarded = Some ((), guarded)"
  "px_failoverProxy guarded = Some second_target"
  "round_trip (two_env bad good) (px_transport guarded) () (outgoing t guarded r) = ((), Some bad, nil)"
  "round_trip (two_env bad good) (Pooled, None) () (outgoing t (plain_proxy second_target) q) = ((), Some good, nil)"
  by (simp_all add: demo_simps)

lemma proxy_relays_response_witness:
  "relayed (answer 404 2 ''no'') (fst (snd (snd (proxy_ServeHTTP (two_env (answer 404 2 ''no'') (answer 200 2 ''ok'')) ()
     guarded demo_http_request))))"
  using proxy_relays_response [OF guarded_primary(1) guarded_primary(3), of "answer 404 2 ''no''"]
  by (simp add: demo_answer failing_def informational_def)


lemma failover_keeps_headers_of_failed_answer_witness:
  "gm_getd [] (se_sent (respond (fst (snd (snd (proxy_ServeHTTP (two_env (answer 503 2 ''no'') (answer 200 2 ''ok'')) ()
     guarded demo_http_request)))))) ''Content-Type'' = [''text/plain'', ''text/plain'']"
proof -
  have "gm_getd [] (removeHopByHopHeaders (rs_Header (answer code len body))) ''Content-Type'' = [''text/plain'']"
    for code len body by (simp add: removeHop_get gm_getd_def hop_headers_def answer_def)
  then show ?thesis
    using failover_keeps_headers_of_failed_answer [OF guarded_primary(1,2,3), where bad = "answer 503 2 ''no''"
        and resp = "answer 200 2 ''ok''" and r = demo_http_request and k = "''Content-Type''"] guarded_primary(4)
    by (simp add: demo_answer failing_def informational_def)
qed

lemma failover_after_chunked_failure_answers_200_witness:
  "se_code (respond (fst (snd (snd (proxy_ServeHTTP (two_env (answer 503 (-1) ''no'') (answer 404 2 ''ok'')) ()
     guarded demo_http_request))))) = Some 200"
  using failover_after_chunked_failure_answers_200 [OF guarded_primary(1,2,3), of "answer 503 (-1) ''no''" "answer 404 2 ''ok''"
      demo_http_request] guarded_primary(4)
  by (simp add: demo_answer failing_def)

lemma retry_defeats_failover_witness:
  "snd (snd (snd (proxy_ServeHTTP (two_env (answer 503 2 ''no'') (answer 200 2 ''ok'')) ()
     (guarded\<lparr>px_transport := (Pooled, Some (1, 7))\<rparr>) demo_http_request)))"
proof -
  let ?p = "guarded\<lparr>px_transport := (Pooled, Some (1, 7))\<rparr>"
  let ?env = "two_env (answer 503 2 ''no'') (answer 200 2 ''ok'')"
  have l: "let_through ?env () ?p = Some ((), ?p)" by (simp add: demo_simps)
  have f: "px_failoverProxy ?p = Some second_target" by (simp add: guarded_def)
  have t: "snd (px_transport ?p) = Some (1, 7)" by simp
  have n: "nat 1 = Suc 0" by simp
  have r: "round_trip ?env (px_transport ?p) () (outgoing (pe_arrive ?env) ?p demo_http_request) =
      ((), Some ((answer 503 2 ''no'')\<lparr>rs_closed := True\<rparr>), nil)"
    by (simp add: round_trip_def retry_RoundTrip_def outgoing_body demo_http_request_def n retry_loop.simps
        attempt_request_def acceptable_def close_response_def demo_simps demo_answer Let_def)
  show ?thesis
    using retry_defeats_failover [OF l f t _ r] by (simp add: demo_answer failing_def demo_http_request_def)
qed

lemma health_verdict_cached_witness:
  "refreshHealthStatus (demo_proxy_env 50) [200] (fst (snd (refreshHealthStatus (demo_proxy_env 0) [500, 200]
      (demo_proxy\<lparr>px_healthCheckPath := ''/health'', px_healthCheckInterval := 100\<rparr>)))) =
   ([200], fst (snd (refreshHealthStatus (demo_proxy_env 0) [500, 200]
      (demo_proxy\<lparr>px_healthCheckPath := ''/health'', px_healthCheckInterval := 100\<rparr>))), False)"
proof -
  let ?p = "demo_proxy\<lparr>px_healthCheckPath := ''/health'', px_healthCheckInterval := 100\<rparr>"
  let ?p1 = "fst (snd (refreshHealthStatus (demo_proxy_env 0) [500, 200] ?p))"
  have r: "refreshHealthStatus (demo_proxy_env 0) [500, 200] ?p = ([200], ?p1, False)" by (simp add: proxy_eval)
  have l: "px_lastHealthCheck ?p1 = Some 0" by (simp add: proxy_eval)
  have a: "pe_arrive (demo_proxy_env 50) = 50" by (simp add: demo_proxy_env_def)
  show ?thesis by (rule health_verdict_cached [OF r l]) (simp_all add: a)
qed

definition demo_tagged :: HttpRequest where
  "demo_tagged = demo_http_request\<lparr>hq_Path := ''/api/users'', hq_Context := Background\<lparr>cx_requestID := Some ''r1''\<rparr>\<rparr>"

lemma demo_stripped:
  "px_director (WithStripPrefix ''/api'' (plain_proxy demo_target))"
  "px_headers (WithStripPrefix ''/api'' (plain_proxy demo_target)) = []"
  "px_rewriteFrom (WithStripPrefix ''/api'' (plain_proxy demo_target)) = []"
  "px_rewriteTo (WithStripPrefix ''/api'' (plain_proxy demo_target)) = []"
  "px_stripPrefix (WithStripPrefix ''/api'' (plain_proxy demo_target)) = ''/api''"
  "px_targetURL (WithStripPrefix ''/api'' (plain_proxy demo_target)) = demo_target"
  "px_targetPathPrefix (WithStripPrefix ''/api'' (plain_proxy demo_target)) = []"
  "gm_get (hq_Header demo_tagged) ''Connection'' = None"
  "gm_get (hq_Header demo_tagged) ''X-Forwarded-For'' = None"
proof -
  have "no_root ''/api'' = ''/api''" by code_simp
  then show "px_stripPrefix (WithStripPrefix ''/api'' (plain_proxy demo_target)) = ''/api''"
    by (simp add: WithStripPrefix_def)
qed (simp_all add: WithStripPrefix_def plain_proxy_def demo_tagged_def demo_http_request_def)

lemma proxy_rewrites_and_correlates_witness:
  "hq_Path (outgoing 0 (WithStripPrefix ''/api'' (plain_proxy demo_target)) demo_tagged) = ''/base/users''"
proof -
  note d = demo_stripped
  have n: "normal_path (px_stripPrefix (WithStripPrefix ''/api'' (plain_proxy demo_target)))"
    "px_stripPrefix (WithStripPrefix ''/api'' (plain_proxy demo_target)) \<noteq> ''/''"
    unfolding d by code_simp+
  have p: "hq_Path demo_tagged = px_stripPrefix (WithStripPrefix ''/api'' (plain_proxy demo_target)) @ ''/'' @ ''users''"
    unfolding d by (simp add: demo_tagged_def)
  have i: "RequestIDFromRequest demo_tagged = ''r1''" by (simp add: RequestIDFromRequest_def demo_tagged_def)
  have "\<not> HasSuffix ''/base'' ''/''" by code_simp
  then show ?thesis
    using proxy_rewrites_and_correlates [OF d(1,2,8) n d(3,4) p i, of 0]
    unfolding d by (simp add: demo_target_def)
qed

lemma forwarded_for_has_client_twice_witness:
  "gm_get (hq_Header (outgoing 0 (WithStripPrefix ''/api'' (plain_proxy demo_target)) demo_tagged)) ''X-Forwarded-For''
     = Some [''10.0.0.1, 10.0.0.1'']"
proof -
  have s: "SplitHost (hq_RemoteAddr demo_tagged) = Some ''10.0.0.1''" by code_simp
  show ?thesis using forwarded_for_has_client_twice [OF demo_stripped(1,2,8,9) s] by simp
qed

end
