(* ===== verification/Access.thy ===== *)
theory Access
  imports Go_Http
begin

text \<open>
  The access middlewares: bearer tokens and claim policies (\<open>pkg/runtime/auth.go\<close>), tenants and
  tenant quotas (\<open>tenant.go\<close>), client certificates (\<open>identity.go\<close>), secrets (\<open>secrets.go\<close>) and the
  audit log (\<open>audit.go\<close>).

  A handler takes a state and a request to the state after it and the calls it made on its response
  writer; a middleware takes the handler it wraps. What a request carries through the context is in
  \<open>hq_Context\<close>. Parsing and verifying a token belongs to \<open>golang-jwt\<close> and is a parameter. Case
  folding (\<open>strings.EqualFold\<close>) is that of ASCII.
\<close>

type_synonym 's httpHandler = "'s \<Rightarrow> HttpRequest \<Rightarrow> 's \<times> wcall list"

definition EqualFold :: "string \<Rightarrow> string \<Rightarrow> bool" where
  "EqualFold s t \<longleftrightarrow> map lower_byte s = map lower_byte t"

section \<open>Claims and policies\<close>

record AuthPolicy =
  ap_Roles :: "string list"
  ap_Scopes :: "string list"
  ap_Claims :: "(string, any) gomap"
  ap_RolesClaim :: string
  ap_ScopesClaim :: string

definition rolesClaimName :: "AuthPolicy \<Rightarrow> string" where
  "rolesClaimName p = (if ap_RolesClaim p = [] then ''roles'' else ap_RolesClaim p)"

definition scopesClaimName :: "AuthPolicy \<Rightarrow> string" where
  "scopesClaimName p = (if ap_ScopesClaim p = [] then ''scope'' else ap_ScopesClaim p)"

fun strings_of :: "any list \<Rightarrow> string list" where
  "strings_of [] = []"
| "strings_of (AString s # vs) = s # strings_of vs"
| "strings_of (v # vs) = strings_of vs"

fun normalizeStringSlice :: "any \<Rightarrow> string list" where
  "normalizeStringSlice (AString v) = (if v = [] then [] else Fields v)"
| "normalizeStringSlice (AStrings v) = v"
| "normalizeStringSlice (AList v) = strings_of v"
| "normalizeStringSlice v = []"

definition hasAnyValue :: "any \<Rightarrow> string list \<Rightarrow> bool" where
  "hasAnyValue value expected \<longleftrightarrow>
     expected = [] \<or> list_ex (\<lambda>want. list_ex (\<lambda>got. got = want) (normalizeStringSlice value)) expected"

definition hasAnyScope :: "any \<Rightarrow> string list \<Rightarrow> bool" where
  "hasAnyScope value expected \<longleftrightarrow>
     expected = [] \<or> list_ex (\<lambda>want. list_ex (\<lambda>got. got = want) (normalizeStringSlice value)) expected"

text \<open>\<open>float64(n)\<close>: the nearest number with 53 significant bits, ties to even.\<close>

fun bit_length :: "nat \<Rightarrow> nat" where
  "bit_length n = (if n = 0 then 0 else Suc (bit_length (n div 2)))"

declare bit_length.simps [simp del]

definition float64_of_int :: "int \<Rightarrow> rat" where
  "float64_of_int n =
     (let e = bit_length (nat \<bar>n\<bar>) - 53 in of_int (round_even (of_int n / 2 ^ e)) * 2 ^ e)"

fun asFloat64 :: "any \<Rightarrow> rat option" where
  "asFloat64 (AFloat x) = Some x"
| "asFloat64 (AInt n) = Some (float64_of_int n)"
| "asFloat64 v = None"

text \<open>\<open>reflect.DeepEqual\<close>, on maps up to the order of the entries.\<close>

function DeepEqual :: "any \<Rightarrow> any \<Rightarrow> bool" where
  "DeepEqual (AMap m) (AMap m') \<longleftrightarrow> length m = length m'
     \<and> list_all (\<lambda>(k, v). case gm_get m' k of None \<Rightarrow> False | Some v' \<Rightarrow> DeepEqual v v') m"
| "DeepEqual (AList vs) (AList vs') \<longleftrightarrow> length vs = length vs' \<and> list_all (\<lambda>(v, v'). DeepEqual v v') (zip vs vs')"
| "DeepEqual ANil b \<longleftrightarrow> b = ANil"
| "DeepEqual (ABool x) b \<longleftrightarrow> b = ABool x"
| "DeepEqual (AString x) b \<longleftrightarrow> b = AString x"
| "DeepEqual (AFloat x) b \<longleftrightarrow> b = AFloat x"
| "DeepEqual (AInt x) b \<longleftrightarrow> b = AInt x"
| "DeepEqual (AStrings x) b \<longleftrightarrow> b = AStrings x"
| "DeepEqual (AList vs) ANil \<longleftrightarrow> False"
| "DeepEqual (AList vs) (ABool x) \<longleftrightarrow> False"
| "DeepEqual (AList vs) (AString y) \<longleftrightarrow> False"
| "DeepEqual (AList vs) (AFloat z) \<longleftrightarrow> False"
| "DeepEqual (AList vs) (AInt i) \<longleftrightarrow> False"
| "DeepEqual (AList vs) (AStrings ss) \<longleftrightarrow> False"
| "DeepEqual (AList vs) (AMap m) \<longleftrightarrow> False"
| "DeepEqual (AMap m) ANil \<longleftrightarrow> False"
| "DeepEqual (AMap m) (ABool x) \<longleftrightarrow> False"
| "DeepEqual (AMap m) (AString y) \<longleftrightarrow> False"
| "DeepEqual (AMap m) (AFloat z) \<longleftrightarrow> False"
| "DeepEqual (AMap m) (AInt i) \<longleftrightarrow> False"
| "DeepEqual (AMap m) (AStrings ss) \<longleftrightarrow> False"
| "DeepEqual (AMap m) (AList vs) \<longleftrightarrow> False"
  by pat_completeness auto
termination
proof (relation "measure (\<lambda>(a, b). size a)", goal_cases)
  case (2 m m' x k v v')
  then have "(k, v) \<in> set m" by simp
  then have "size v < size (AMap m)"
    by (induction m) auto
  then show ?case by simp
next
  case (3 vs vs' x v v')
  then have "v \<in> set vs" using set_zip_leftD by fastforce
  then have "size v < size (AList vs)"
    by (induction vs) auto
  then show ?case by simp
qed simp

definition claimMatches :: "any \<Rightarrow> any \<Rightarrow> bool" where
  "claimMatches got want \<longleftrightarrow>
     (if got = ANil \<or> want = ANil then got = want
      else DeepEqual got want
        \<or> (case (asFloat64 got, asFloat64 want) of (Some g, Some w) \<Rightarrow> g = w | _ \<Rightarrow> False))"

text \<open>The loop over \<open>Claims\<close>, over the entries in the order of the iteration.\<close>

fun check_claims :: "(string \<times> any) list \<Rightarrow> (string, any) gomap \<Rightarrow> error" where
  "check_claims [] claims = nil"
| "check_claims ((key, want) # cs) claims =
     (case gm_get claims key of
        None \<Rightarrow> errorf (''claim '' @ Quote key @ '' requirement failed'')
      | Some got \<Rightarrow>
          if \<not> claimMatches got want then errorf (''claim '' @ Quote key @ '' requirement failed'')
          else check_claims cs claims)"

type_synonym claims = "(string, any) gomap"

definition check_values ::
  "string list \<Rightarrow> string \<Rightarrow> (any \<Rightarrow> string list \<Rightarrow> bool) \<Rightarrow> string \<Rightarrow> claims \<Rightarrow> error" where
  "check_values wanted name has kind claims =
     (if wanted = [] then nil
      else case gm_get claims name of
          None \<Rightarrow> errorf (''missing required '' @ kind @ '' claim'')
        | Some v \<Rightarrow> if \<not> has v wanted then errorf (kind @ '' requirement failed'') else nil)"

definition policy_Check :: "(claims \<Rightarrow> claims) \<Rightarrow> AuthPolicy \<Rightarrow> claims \<Rightarrow> error" where
  "policy_Check it p claims =
     (case check_values (ap_Roles p) (rolesClaimName p) hasAnyValue ''role'' claims of
        Some err \<Rightarrow> Some err
      | None \<Rightarrow>
          (case check_values (ap_Scopes p) (scopesClaimName p) hasAnyScope ''scope'' claims of
             Some err \<Rightarrow> Some err
           | None \<Rightarrow> check_claims (it (ap_Claims p)) claims))"

definition access_Check :: "(claims \<Rightarrow> claims) \<Rightarrow> claims \<Rightarrow> claims \<Rightarrow> error" where
  "access_Check it required claims = check_claims (it required) claims"

definition ContextClaims :: "HttpRequest \<Rightarrow> claims option" where
  "ContextClaims r = cx_claims (hq_Context r)"

text \<open>\<open>claims[key]\<close>, which is \<open>nil\<close> for a key that is absent.\<close>

definition claim :: "claims \<Rightarrow> string \<Rightarrow> any" where
  "claim claims key = gm_getd ANil claims key"

definition RequireRole :: "string \<Rightarrow> 's httpHandler \<Rightarrow> 's httpHandler" where
  "RequireRole role next_handler s r =
     (case ContextClaims r of
        None \<Rightarrow> (s, http_Error ''authorization required'' 403)
      | Some claims \<Rightarrow>
          if \<not> hasAnyValue (claim claims ''roles'') [role] \<and> \<not> hasAnyValue (claim claims ''role'') [role] then
            (s, http_Error ''role required'' 403)
          else next_handler s r)"

definition RequirePermission :: "string \<Rightarrow> 's httpHandler \<Rightarrow> 's httpHandler" where
  "RequirePermission permission next_handler s r =
     (case ContextClaims r of
        None \<Rightarrow> (s, http_Error ''authorization required'' 403)
      | Some claims \<Rightarrow>
          if \<not> hasAnyValue (claim claims ''permissions'') [permission]
             \<and> \<not> hasAnyValue (claim claims ''scope'') [permission]
             \<and> \<not> hasAnyValue (claim claims ''scopes'') [permission] then
            (s, http_Error ''permission required'' 403)
          else next_handler s r)"

definition RequireAccess :: "(claims \<Rightarrow> claims) \<Rightarrow> claims \<Rightarrow> 's httpHandler \<Rightarrow> 's httpHandler" where
  "RequireAccess it policy next_handler s r =
     (case ContextClaims r of
        None \<Rightarrow> (s, http_Error ''authorization required'' 403)
      | Some claims \<Rightarrow>
          (case access_Check it policy claims of
             Some err \<Rightarrow> (s, http_Error err 403)
           | None \<Rightarrow> next_handler s r))"

section \<open>Bearer tokens\<close>

definition bearerToken :: "HttpRequest \<Rightarrow> string + string" where
  "bearerToken r =
     (let authorization = Header_Get (hq_Header r) ''Authorization'' in
      if authorization = [] then Inl ''missing authorization header''
      else case SplitN2 authorization CHR '' '' of
          [scheme, token] \<Rightarrow>
            if \<not> EqualFold scheme ''Bearer'' then Inl ''authorization header must be Bearer <token>''
            else if TrimSpace token = [] then Inl ''bearer token is empty''
            else Inr (TrimSpace token)
        | _ \<Rightarrow> Inl ''authorization header must be Bearer <token>'')"

text \<open>
  What the code reads of a parsed token: whether its method is HMAC, its \<open>alg\<close>, whether it is
  valid, and its claims when they are a \<open>jwt.MapClaims\<close>. A parser gets the token and the key
  function; it returns an error or the token.
\<close>

record jwtToken =
  jt_hmac :: bool
  jt_alg :: string
  jt_valid :: bool
  jt_claims :: "claims option"

type_synonym jwtParser = "string \<Rightarrow> (jwtToken \<Rightarrow> string + string) \<Rightarrow> string + jwtToken"

definition jwt_key :: "string \<Rightarrow> jwtToken \<Rightarrow> string + string" where
  "jwt_key secret token =
     (if \<not> jt_hmac token then Inl (''unexpected signing method: '' @ jt_alg token) else Inr secret)"

definition jwtClaimsMap :: "claims option \<Rightarrow> claims option" where
  "jwtClaimsMap cs = cs"

definition RequireJWT ::
  "jwtParser \<Rightarrow> (claims \<Rightarrow> claims) \<Rightarrow> string \<Rightarrow> AuthPolicy \<Rightarrow> 's httpHandler \<Rightarrow> 's httpHandler" where
  "RequireJWT parseToken it secret policy next_handler s r =
     (if secret = [] then (s, http_Error ''server misconfiguration: JWT secret not configured'' 500)
      else case bearerToken r of
          Inl err \<Rightarrow> (s, http_Error ''unauthorized'' 401)
        | Inr tokenString \<Rightarrow>
            (case parseToken tokenString (jwt_key secret) of
               Inl err \<Rightarrow> (s, http_Error ''invalid token'' 401)
             | Inr token \<Rightarrow>
                 if \<not> jt_valid token then (s, http_Error ''invalid token'' 401)
                 else case jwtClaimsMap (jt_claims token) of
                     None \<Rightarrow> (s, http_Error ''invalid claims'' 401)
                   | Some claimMap \<Rightarrow>
                       (case policy_Check it policy claimMap of
                          Some err \<Rightarrow> (s, http_Error err 403)
                        | None \<Rightarrow>
                            next_handler s (r\<lparr>hq_Context := (hq_Context r)\<lparr>cx_claims := Some claimMap\<rparr>\<rparr>))))"

section \<open>Tenants\<close>

definition ContextTenant :: "HttpRequest \<Rightarrow> string" where
  "ContextTenant r = (case cx_tenant (hq_Context r) of Some t \<Rightarrow> t | None \<Rightarrow> [])"

definition RequireTenant :: "string \<Rightarrow> 's httpHandler \<Rightarrow> 's httpHandler" where
  "RequireTenant headerName next_handler s r =
     (let headerName = (if headerName = [] then ''X-Tenant-ID'' else headerName);
          tenant = TrimSpace (Header_Get (hq_Header r) headerName) in
      if tenant = [] then (s, http_Error ''tenant required'' 400)
      else next_handler s (r\<lparr>hq_Context := (hq_Context r)\<lparr>cx_tenant := Some tenant\<rparr>\<rparr>))"

definition request_tenant :: "HttpRequest \<Rightarrow> string" where
  "request_tenant r =
     (let tenant = TrimSpace (ContextTenant r)
      in if tenant = [] then TrimSpace (Header_Get (hq_Header r) ''X-Tenant-ID'') else tenant)"

definition RequireTenantMatch :: "string \<Rightarrow> 's httpHandler \<Rightarrow> 's httpHandler" where
  "RequireTenantMatch expected next_handler s r =
     (let tenant = request_tenant r in
      if tenant = [] then (s, http_Error ''tenant required'' 400)
      else if expected \<noteq> [] \<and> tenant \<noteq> expected then (s, http_Error ''tenant access denied'' 403)
      else next_handler s r)"

record tenantQuotaStore =
  tq_byUser :: "(string, int list) gomap"
  tq_requests :: "64 word"

definition newQuotaStore :: tenantQuotaStore where
  "newQuotaStore = \<lparr>tq_byUser = [], tq_requests = 0\<rparr>"

text \<open>Every 256th request drops the tenants whose last request is outside the window.\<close>

definition quota_gc :: "int \<Rightarrow> (string, int list) gomap \<Rightarrow> (string, int list) gomap" where
  "quota_gc cutoff m = filter (\<lambda>(key, timestamps). \<not> (timestamps = [] \<or> \<not> last timestamps > cutoff)) m"

text \<open>The locked part of the middleware: the store after a request of a tenant at \<open>now\<close>, and whether it is admitted.\<close>

definition quota_take :: "int \<Rightarrow> int \<Rightarrow> string \<Rightarrow> int \<Rightarrow> tenantQuotaStore \<Rightarrow> tenantQuotaStore \<times> bool" where
  "quota_take limit window tenant now store =
     (let cutoff = now - window;
          store = store\<lparr>tq_requests := tq_requests store + 1\<rparr>;
          store = (if tq_requests store mod 256 = 0 then store\<lparr>tq_byUser := quota_gc cutoff (tq_byUser store)\<rparr>
                   else store);
          filtered = filter (\<lambda>ts. ts > cutoff) (gm_getd [] (tq_byUser store) tenant)
      in if int (length filtered) \<ge> limit then
           (store\<lparr>tq_byUser := gm_put tenant filtered (tq_byUser store)\<rparr>, False)
         else (store\<lparr>tq_byUser := gm_put tenant (filtered @ [now]) (tq_byUser store)\<rparr>, True))"

definition TenantQuotaMiddleware ::
  "int \<Rightarrow> int \<Rightarrow> int \<Rightarrow> 's httpHandler \<Rightarrow> (tenantQuotaStore \<times> 's) httpHandler" where
  "TenantQuotaMiddleware limit window now next_handler st r =
     (case st of (store, s) \<Rightarrow>
      if limit \<le> 0 \<or> window \<le> 0 then (let (s, calls) = next_handler s r in ((store, s), calls))
      else
        (let tenant = request_tenant r in
         if tenant = [] then ((store, s), http_Error ''tenant required'' 400)
         else let (store, ok) = quota_take limit window tenant now store in
         if \<not> ok then ((store, s), http_Error ''tenant quota exceeded'' 429)
         else let (s, calls) = next_handler s (r\<lparr>hq_Context := (hq_Context r)\<lparr>cx_tenant := Some tenant\<rparr>\<rparr>)
         in ((store, s), calls)))"

section \<open>Client certificates\<close>

record IdentityPolicy =
  ip_AllowedCommonNames :: "string list"
  ip_AllowedDNSNames :: "string list"
  ip_AllowedURIs :: "string list"

definition ip_isEmpty :: "IdentityPolicy \<Rightarrow> bool" where
  "ip_isEmpty p \<longleftrightarrow> ip_AllowedCommonNames p = [] \<and> ip_AllowedDNSNames p = [] \<and> ip_AllowedURIs p = []"

definition containsFold :: "string list \<Rightarrow> string \<Rightarrow> bool" where
  "containsFold values want \<longleftrightarrow> want \<noteq> [] \<and> list_ex (\<lambda>v. EqualFold v want) values"

definition identity_allows :: "IdentityPolicy \<Rightarrow> ClientIdentity option \<Rightarrow> bool" where
  "identity_allows p identity =
     (if ip_isEmpty p then True
      else case identity of
          None \<Rightarrow> False
        | Some i \<Rightarrow>
            if ip_AllowedCommonNames p \<noteq> [] \<and> containsFold (ip_AllowedCommonNames p) (ci_CommonName i) then True
            else if ip_AllowedDNSNames p \<noteq> [] \<and> list_ex (containsFold (ip_AllowedDNSNames p)) (ci_DNSNames i) then True
            else if ip_AllowedURIs p \<noteq> [] \<and> list_ex (containsFold (ip_AllowedURIs p)) (ci_URIs i) then True
            else False)"

definition clientIdentityFromRequest :: "HttpRequest \<Rightarrow> ClientIdentity option" where
  "clientIdentityFromRequest r =
     (case hq_PeerCertificates r of
        Some (cert # certs) \<Rightarrow>
          Some \<lparr>ci_CommonName = ct_CommonName cert, ci_DNSNames = ct_DNSNames cert, ci_URIs = ct_URIs cert, ci_Cert = cert\<rparr>
      | _ \<Rightarrow> None)"

definition RequireClientIdentity :: "IdentityPolicy \<Rightarrow> 's httpHandler \<Rightarrow> 's httpHandler" where
  "RequireClientIdentity policy next_handler s r =
     (case clientIdentityFromRequest r of
        None \<Rightarrow> (s, http_Error ''client certificate required'' 401)
      | Some identity \<Rightarrow>
          if \<not> identity_allows policy (Some identity) then
            (s, http_Error (''identity '' @ Quote (ci_CommonName identity) @ '' is not authorized for this route'') 403)
          else next_handler s (r\<lparr>hq_Context := (hq_Context r)\<lparr>cx_identity := Some identity\<rparr>\<rparr>))"

section \<open>Secrets\<close>

type_synonym SecretSource = "string \<Rightarrow> string + string"

text \<open>\<open>lookup\<close> is \<open>os.LookupEnv\<close>.\<close>

definition EnvironmentSecretSource :: "(string \<Rightarrow> string option) \<Rightarrow> SecretSource" where
  "EnvironmentSecretSource lookup name =
     (let key = TrimSpace name in
      if key = [] then Inl ''secret name is empty''
      else case lookup key of
          None \<Rightarrow> Inl (''secret '' @ Quote key @ '' not found'')
        | Some value \<Rightarrow> if TrimSpace value = [] then Inl (''secret '' @ Quote key @ '' not found'') else Inr value)"

definition NewSecretResolver :: "(string \<Rightarrow> string option) \<Rightarrow> SecretSource option list \<Rightarrow> SecretSource option list" where
  "NewSecretResolver lookup sources = (if sources = [] then [Some (EnvironmentSecretSource lookup)] else sources)"

fun resolver_Get :: "SecretSource option list \<Rightarrow> string \<Rightarrow> string + string" where
  "resolver_Get [] name = Inl (''secret '' @ Quote (TrimSpace name) @ '' not found'')"
| "resolver_Get (None # sources) name = resolver_Get sources name"
| "resolver_Get (Some source # sources) name =
     (case source name of
        Inr value \<Rightarrow> if TrimSpace value \<noteq> [] then Inr value else resolver_Get sources name
      | Inl err \<Rightarrow> resolver_Get sources name)"

definition ContextSecret :: "HttpRequest \<Rightarrow> string \<Rightarrow> string" where
  "ContextSecret r name = (case cx_secrets (hq_Context r) of None \<Rightarrow> [] | Some values \<Rightarrow> gm_getd [] values name)"

definition RequireSecret :: "SecretSource option list option \<Rightarrow> string \<Rightarrow> 's httpHandler \<Rightarrow> 's httpHandler" where
  "RequireSecret resolver name next_handler s r =
     (case resolver of
        None \<Rightarrow> (s, http_Error ''server misconfiguration: secret resolver not configured'' 500)
      | Some sources \<Rightarrow>
          (case resolver_Get sources name of
             Inl err \<Rightarrow> (s, http_Error ''server misconfiguration: secret unavailable'' 500)
           | Inr secret \<Rightarrow>
               (let values = [(name, secret)];
                    values = (case cx_secrets (hq_Context r) of
                        None \<Rightarrow> values
                      | Some existing \<Rightarrow> foldl (\<lambda>m (k, v). gm_put k v m) values existing)
                in next_handler s (r\<lparr>hq_Context := (hq_Context r)\<lparr>cx_secrets := Some values\<rparr>\<rparr>))))"

section \<open>The audit log\<close>

record AuditEvent =
  ae_Timestamp :: int
  ae_Duration :: int
  ae_Method :: string
  ae_Path :: string
  ae_StatusCode :: int
  ae_Tenant :: string
  ae_Subject :: string
  ae_RequestID :: string
  ae_RemoteAddr :: string
  ae_UserAgent :: string

text \<open>\<open>claims[key].(string)\<close>, with the empty string for any other value.\<close>

definition string_claim :: "claims \<Rightarrow> string \<Rightarrow> string" where
  "string_claim claims key = (case claim claims key of AString v \<Rightarrow> v | _ \<Rightarrow> [])"

definition audit_subject :: "HttpRequest \<Rightarrow> string" where
  "audit_subject r =
     (case ContextClaims r of
        None \<Rightarrow> []
      | Some claims \<Rightarrow>
          (let subject = string_claim claims ''sub''
           in if subject = [] then string_claim claims ''user_id'' else subject))"

definition audit_event :: "int \<Rightarrow> int \<Rightarrow> HttpRequest \<Rightarrow> int \<Rightarrow> AuditEvent" where
  "audit_event start now r status =
     (let tenant = ContextTenant r in
      \<lparr>ae_Timestamp = now, ae_Duration = now - start, ae_Method = hq_Method r, ae_Path = normalizePath (hq_Path r),
       ae_StatusCode = status,
       ae_Tenant = (if tenant = [] then TrimSpace (Header_Get (hq_Header r) ''X-Tenant-ID'') else tenant),
       ae_Subject = audit_subject r, ae_RequestID = RequestIDFromRequest r, ae_RemoteAddr = hq_RemoteAddr r,
       ae_UserAgent = Header_Get (hq_Header r) ''User-Agent''\<rparr>)"

text \<open>
  The state is the events emitted so far and the state of the handler it wraps. The event reads the
  header map of the request after the handler ran, which may have written to it in place:
  \<open>header_of\<close> is that map in the handler's state.
\<close>

definition AuditLogger ::
  "('s \<Rightarrow> Header) \<Rightarrow> int \<Rightarrow> int \<Rightarrow> 's httpHandler \<Rightarrow> (AuditEvent list \<times> 's) httpHandler" where
  "AuditLogger header_of start now next_handler st r =
     (case st of (events, s) \<Rightarrow>
      (let (s, calls) = next_handler s r
       in ((events @ [audit_event start now (r\<lparr>hq_Header := header_of s\<rparr>) (recorded_status calls)], s), calls)))"

section \<open>Quotas: agreement with a log of admissions\<close>

text \<open>
  The reference keeps every admission for ever: a request of a tenant is admitted when fewer than
  \<open>limit\<close> of its admissions lie within the window that ends now.
\<close>

definition admissions :: "string \<Rightarrow> (string \<times> int) list \<Rightarrow> int list" where
  "admissions tenant taken = map snd (filter (\<lambda>e. fst e = tenant) taken)"

definition in_window :: "int \<Rightarrow> int \<Rightarrow> int list \<Rightarrow> int list" where
  "in_window window now ts = filter (\<lambda>t. t > now - window) ts"

definition quota_ref :: "int \<Rightarrow> int \<Rightarrow> (string \<times> int) list \<Rightarrow> string \<times> int \<Rightarrow> (string \<times> int) list \<times> bool" where
  "quota_ref limit window taken x =
     (if int (length (in_window window (snd x) (admissions (fst x) taken))) \<ge> limit then (taken, False)
      else (taken @ [x], True))"

fun quota_run :: "int \<Rightarrow> int \<Rightarrow> tenantQuotaStore \<Rightarrow> (string \<times> int) list \<Rightarrow> bool list" where
  "quota_run limit window store [] = []"
| "quota_run limit window store (x # xs) =
     (let (store, ok) = quota_take limit window (fst x) (snd x) store in ok # quota_run limit window store xs)"

fun ref_run :: "int \<Rightarrow> int \<Rightarrow> (string \<times> int) list \<Rightarrow> (string \<times> int) list \<Rightarrow> (string \<times> int) list \<times> bool list" where
  "ref_run limit window taken [] = (taken, [])"
| "ref_run limit window taken (x # xs) =
     (let (taken, ok) = quota_ref limit window taken x; (taken, oks) = ref_run limit window taken xs in (taken, ok # oks))"

definition quota_agrees :: "int \<Rightarrow> int \<Rightarrow> (string, int list) gomap \<Rightarrow> (string \<times> int) list \<Rightarrow> bool" where
  "quota_agrees window now m taken \<longleftrightarrow> gm_ok m
     \<and> (\<forall>t. in_window window now (gm_getd [] m t) = in_window window now (admissions t taken)
        \<and> sorted (gm_getd [] m t) \<and> (\<forall>u \<in> set (gm_getd [] m t). u \<le> now))"

lemma gm_get_filter:
  "gm_ok m \<Longrightarrow> gm_get (filter P m) k = (case gm_get m k of None \<Rightarrow> None | Some v \<Rightarrow> if P (k, v) then Some v else None)"
proof (induction m)
  case (Cons kv m)
  have "gm_ok m" "fst kv \<notin> fst ` set m" using Cons.prems by (simp_all add: gm_ok_def)
  moreover have "gm_get m (fst kv) = None" using calculation(2) by (simp add: map_of_eq_None_iff)
  ultimately show ?case using Cons.IH by (cases kv) (auto split: option.split)
qed simp

lemma in_window_later:
  assumes "in_window window now a = in_window window now b" "now \<le> now'"
  shows "in_window window now' a = in_window window now' b"
proof -
  have "in_window window now' c = filter (\<lambda>t. t > now' - window) (in_window window now c)" for c
    using assms(2) by (auto simp: in_window_def intro!: filter_cong)
  with assms(1) show ?thesis by simp
qed

lemma in_window_all_old: "\<forall>u \<in> set ts. u \<le> now - window \<Longrightarrow> in_window window now ts = []"
  by (auto simp: in_window_def filter_empty_conv)

lemma sorted_le_last: "sorted ts \<Longrightarrow> \<forall>u \<in> set ts. (u :: int) \<le> last ts"
  by (induction ts rule: rev_induct) (auto simp: sorted_append)

lemma quota_gc_agrees:
  assumes "quota_agrees window now m taken" "now \<le> now'"
  shows "quota_agrees window now' (quota_gc (now' - window) m) taken"
proof -
  let ?m = "quota_gc (now' - window) m"
  have ok: "gm_ok ?m" using assms(1) by (auto simp: quota_agrees_def quota_gc_def gm_ok_def distinct_map_filter)
  have get: "gm_getd [] ?m t = (if gm_getd [] m t = [] \<or> last (gm_getd [] m t) \<le> now' - window then [] else gm_getd [] m t)" for t
    using assms(1) by (auto simp: quota_agrees_def quota_gc_def gm_getd_def gm_get_filter split: option.split)
  have "in_window window now' (gm_getd [] ?m t) = in_window window now' (gm_getd [] m t)" for t
  proof -
    have "sorted (gm_getd [] m t)" using assms(1) by (simp add: quota_agrees_def)
    then have "\<forall>u \<in> set (gm_getd [] m t). u \<le> last (gm_getd [] m t)" by (rule sorted_le_last)
    then have "in_window window now' (gm_getd [] m t) = []" if "last (gm_getd [] m t) \<le> now' - window"
      using that by (intro in_window_all_old) fastforce
    then show ?thesis by (cases "gm_getd [] m t = []") (simp_all add: get in_window_def)
  qed
  moreover have "in_window window now' (gm_getd [] m t) = in_window window now' (admissions t taken)" for t
    using assms by (auto simp: quota_agrees_def intro: in_window_later)
  moreover have "sorted (gm_getd [] ?m t) \<and> (\<forall>u \<in> set (gm_getd [] ?m t). u \<le> now')" for t
  proof -
    have "sorted (gm_getd [] m t)" "\<forall>u \<in> set (gm_getd [] m t). u \<le> now"
      using assms(1) by (simp_all add: quota_agrees_def)
    then show ?thesis using assms(2) by (auto simp: get intro: order_trans)
  qed
  ultimately show ?thesis using ok by (simp add: quota_agrees_def)
qed

lemma quota_agrees_later: "quota_agrees window now m taken \<Longrightarrow> now \<le> now' \<Longrightarrow> quota_agrees window now' m taken"
  unfolding quota_agrees_def using in_window_later by (metis order_trans)

lemma admissions_snoc: "admissions t (taken @ [x]) = admissions t taken @ (if fst x = t then [snd x] else [])"
  by (simp add: admissions_def)

lemma quota_take_agrees:
  assumes "quota_agrees window now (tq_byUser store) taken" "now \<le> now'"
  shows "snd (quota_take limit window tenant now' store) = snd (quota_ref limit window taken (tenant, now'))
    \<and> quota_agrees window now' (tq_byUser (fst (quota_take limit window tenant now' store)))
        (fst (quota_ref limit window taken (tenant, now')))"
proof -
  let ?s = "store\<lparr>tq_requests := tq_requests store + 1\<rparr>"
  define m where "m = (if tq_requests ?s mod 256 = 0 then quota_gc (now' - window) (tq_byUser store) else tq_byUser store)"
  have m: "quota_agrees window now' m taken"
    using assms by (auto simp: m_def intro: quota_gc_agrees quota_agrees_later)
  define filtered where "filtered = in_window window now' (gm_getd [] m tenant)"
  have f: "filtered = in_window window now' (admissions tenant taken)" "sorted filtered"
    "\<forall>u \<in> set filtered. u \<le> now'" "in_window window now' filtered = filtered"
  proof -
    have g: "in_window window now' (gm_getd [] m tenant) = in_window window now' (admissions tenant taken)"
      "sorted (gm_getd [] m tenant)" "\<forall>u \<in> set (gm_getd [] m tenant). u \<le> now'"
      using m by (simp_all add: quota_agrees_def)
    show "filtered = in_window window now' (admissions tenant taken)" unfolding filtered_def by (rule g(1))
    show "sorted filtered" using sorted_filter [of id "gm_getd [] m tenant"] g(2)
      by (simp add: filtered_def in_window_def)
    show "\<forall>u \<in> set filtered. u \<le> now'" using g(3) by (simp add: filtered_def in_window_def)
    show "in_window window now' filtered = filtered" by (simp add: filtered_def in_window_def)
  qed
  have take: "quota_take limit window tenant now' store =
     (let st = ?s\<lparr>tq_byUser := gm_put tenant (if int (length filtered) \<ge> limit then filtered else filtered @ [now']) m\<rparr>
      in (st, \<not> int (length filtered) \<ge> limit))"
    by (simp add: quota_take_def m_def filtered_def in_window_def Let_def)
  show ?thesis
  proof (cases "int (length filtered) \<ge> limit")
    case True
    have "quota_agrees window now' (gm_put tenant filtered m) taken"
      using m f by (simp add: quota_agrees_def)
    then show ?thesis using True f(1) by (simp add: take quota_ref_def)
  next
    case False
    have "quota_agrees window now' (gm_put tenant (filtered @ [now']) m) (taken @ [(tenant, now')])"
      using m f by (auto simp: quota_agrees_def admissions_snoc in_window_def sorted_append)
    then show ?thesis using False f(1) by (simp add: take quota_ref_def Let_def)
  qed
qed

lemma quota_run_agrees:
  assumes "quota_agrees window now (tq_byUser store) taken" "sorted (now # map snd xs)"
  shows "quota_run limit window store xs = snd (ref_run limit window taken xs)"
  using assms
proof (induction xs arbitrary: store taken now)
  case (Cons x xs)
  obtain store' ok where q: "quota_take limit window (fst x) (snd x) store = (store', ok)"
    by (cases "quota_take limit window (fst x) (snd x) store")
  obtain taken' ok' where r: "quota_ref limit window taken x = (taken', ok')" by (cases "quota_ref limit window taken x")
  have "now \<le> snd x" using Cons.prems(2) by simp
  from quota_take_agrees [OF Cons.prems(1) this, of limit "fst x"]
  have "ok = ok'" "quota_agrees window (snd x) (tq_byUser store') taken'" by (simp_all add: q r)
  with Cons.IH [of "snd x" store' taken'] Cons.prems(2) show ?case by (simp add: q r Let_def split_beta)
qed simp

lemma quota_run_ref:
  assumes "sorted (map snd xs)"
  shows "quota_run limit window newQuotaStore xs = snd (ref_run limit window [] xs)"
proof (cases xs)
  case (Cons x ys)
  have "quota_agrees window (snd x) (tq_byUser newQuotaStore) []"
    by (simp add: quota_agrees_def newQuotaStore_def admissions_def)
  then show ?thesis by (rule quota_run_agrees) (use assms Cons in simp)
qed simp

section \<open>Properties\<close>

text \<open>C26. The quota is the sliding window it promises: for requests of any tenants in time order, the
  middleware admits exactly those the reference admits. Dropping idle tenants and forgetting old
  requests never changes a decision, and a tenant's decisions depend on its own requests only.
\<close>

theorem quota_equivalent_to_window:
  assumes "sorted (map snd xs)"
  shows "quota_run limit window newQuotaStore xs = snd (ref_run limit window [] xs)"
  using assms by (rule quota_run_ref)

lemma quota_equivalent_to_window_witness:
  "quota_run 1 10 newQuotaStore [(''a'', 0), (''b'', 3), (''a'', 9), (''a'', 10)] = [True, True, False, True]"
proof -
  have "snd (ref_run 1 10 [] [(''a'', 0), (''b'', 3), (''a'', 9), (''a'', 10)]) = [True, True, False, True]" by code_simp
  then show ?thesis using quota_equivalent_to_window [of "[(''a'', 0), (''b'', 3), (''a'', 9), (''a'', 10)]" 1 10] by simp
qed

text \<open>
  No tenant gets more than \<open>limit\<close> requests admitted in any window: of the admissions of one tenant,
  at most \<open>limit\<close> lie in a window of the given length, wherever it ends.
\<close>

definition admitted_requests :: "bool list \<Rightarrow> (string \<times> int) list \<Rightarrow> (string \<times> int) list" where
  "admitted_requests oks xs = map snd (filter fst (zip oks xs))"

lemma ref_run_log: "fst (ref_run limit window taken xs) = taken @ admitted_requests (snd (ref_run limit window taken xs)) xs"
proof (induction xs arbitrary: taken)
  case (Cons x xs)
  show ?case using Cons.IH by (simp add: quota_ref_def admitted_requests_def Let_def split_beta)
qed (simp add: admitted_requests_def)

lemma ref_run_bound:
  assumes "\<forall>t. int (length (filter (\<lambda>u. u > t - window \<and> u \<le> t) (admissions tenant taken))) \<le> limit"
    and "sorted (map snd (taken @ xs))" "0 \<le> limit"
  shows "int (length (filter (\<lambda>u. u > t - window \<and> u \<le> t) (admissions tenant (fst (ref_run limit window taken xs))))) \<le> limit"
  using assms
proof (induction xs arbitrary: taken)
  case (Cons x xs)
  show ?case
  proof (cases "int (length (in_window window (snd x) (admissions (fst x) taken))) \<ge> limit")
    case True
    then have "fst (ref_run limit window taken (x # xs)) = fst (ref_run limit window taken xs)"
      by (simp add: quota_ref_def Let_def split_beta)
    moreover have "sorted (map snd (taken @ xs))" using Cons.prems(2) by (simp add: sorted_append)
    ultimately show ?thesis using Cons.IH [of taken] Cons.prems(1,3) by simp
  next
    case False
    then have r: "fst (ref_run limit window taken (x # xs)) = fst (ref_run limit window (taken @ [x]) xs)"
      by (simp add: quota_ref_def Let_def split_beta)
    have late: "u \<le> snd x" if "u \<in> set (admissions tenant taken)" for u
      using that Cons.prems(2) by (auto simp: admissions_def sorted_append)
    have "int (length (filter (\<lambda>u. u > t - window \<and> u \<le> t) (admissions tenant (taken @ [x])))) \<le> limit" for t
    proof (cases "fst x = tenant \<and> t - window < snd x \<and> snd x \<le> t")
      case True
      have "length (filter (\<lambda>u. u > t - window \<and> u \<le> t) (admissions tenant taken))
          \<le> length (in_window window (snd x) (admissions tenant taken))"
        unfolding in_window_def
      proof -
        have "filter (\<lambda>u. u > t - window \<and> u \<le> t) (admissions tenant taken) =
            filter (\<lambda>u. u > t - window) (filter (\<lambda>u. u > snd x - window) (admissions tenant taken))"
          using True late by (auto intro!: filter_cong order_trans [of _ "snd x" t])
        then show "length (filter (\<lambda>u. u > t - window \<and> u \<le> t) (admissions tenant taken))
          \<le> length (filter (\<lambda>u. u > snd x - window) (admissions tenant taken))"
          by (simp only: length_filter_le)
      qed
      then show ?thesis using True False by (simp add: admissions_snoc)
    next
      case other: False
      then show ?thesis using Cons.prems(1) by (auto simp: admissions_snoc)
    qed
    moreover have "sorted (map snd ((taken @ [x]) @ xs))" using Cons.prems(2) by simp
    ultimately show ?thesis using Cons.IH [of "taken @ [x]"] Cons.prems(3) unfolding r by blast
  qed
qed simp

theorem quota_bound:
  assumes "sorted (map snd xs)" "0 \<le> limit"
  shows "int (length (filter (\<lambda>u. u > t - window \<and> u \<le> t)
    (admissions tenant (admitted_requests (quota_run limit window newQuotaStore xs) xs)))) \<le> limit"
proof -
  have q: "quota_run limit window newQuotaStore xs = snd (ref_run limit window [] xs)"
    using assms(1) by (rule quota_run_ref)
  show ?thesis
    using ref_run_bound [of window tenant "[]" limit xs t] ref_run_log [of limit window "[]" xs] assms
    by (simp add: q admissions_def)
qed

lemma quota_bound_witness:
  "length (filter (\<lambda>u. u > 0 \<and> u \<le> 10) (admissions ''a'' (admitted_requests
    (quota_run 1 10 newQuotaStore [(''a'', 0), (''b'', 3), (''a'', 9), (''a'', 10)]) [(''a'', 0), (''b'', 3), (''a'', 9), (''a'', 10)]))) \<le> 1"
  using quota_bound [of "[(''a'', 0), (''b'', 3), (''a'', 9), (''a'', 10)]" 1 10 10 "''a''"] by simp

text \<open>What a middleware lets through to the handler it wraps, if it does.\<close>

definition passes :: "(HttpRequest option httpHandler \<Rightarrow> HttpRequest option httpHandler) \<Rightarrow> HttpRequest \<Rightarrow> HttpRequest option" where
  "passes mw r = fst (mw (\<lambda>s r. (Some r, [])) None r)"

text \<open>What a policy asks for, without the order of the checks.\<close>

definition meets :: "AuthPolicy \<Rightarrow> claims \<Rightarrow> bool" where
  "meets p claims \<longleftrightarrow>
     (ap_Roles p = [] \<or> (\<exists>v. gm_get claims (rolesClaimName p) = Some v \<and> set (normalizeStringSlice v) \<inter> set (ap_Roles p) \<noteq> {}))
   \<and> (ap_Scopes p = [] \<or> (\<exists>v. gm_get claims (scopesClaimName p) = Some v \<and> set (normalizeStringSlice v) \<inter> set (ap_Scopes p) \<noteq> {}))
   \<and> (\<forall>(key, want) \<in> set (ap_Claims p). \<exists>got. gm_get claims key = Some got \<and> claimMatches got want)"

lemma check_claims_nil:
  "check_claims cs claims = nil \<longleftrightarrow> (\<forall>(key, want) \<in> set cs. \<exists>got. gm_get claims key = Some got \<and> claimMatches got want)"
proof (induction cs)
  case (Cons c cs)
  then show ?case by (cases c) (simp split: option.split)
qed simp

lemma check_values_nil:
  assumes "\<And>v. has v wanted \<longleftrightarrow> wanted = [] \<or> set (normalizeStringSlice v) \<inter> set wanted \<noteq> {}"
  shows "check_values wanted name has kind claims = nil \<longleftrightarrow>
    wanted = [] \<or> (\<exists>v. gm_get claims name = Some v \<and> set (normalizeStringSlice v) \<inter> set wanted \<noteq> {})"
  using assms by (simp add: check_values_def split: option.split)

lemma has_any: "hasAnyValue v wanted \<longleftrightarrow> wanted = [] \<or> set (normalizeStringSlice v) \<inter> set wanted \<noteq> {}"
  and has_scope: "hasAnyScope v wanted \<longleftrightarrow> wanted = [] \<or> set (normalizeStringSlice v) \<inter> set wanted \<noteq> {}"
  unfolding hasAnyValue_def hasAnyScope_def list_ex_iff by blast+

lemma policy_nil:
  assumes "is_range it"
  shows "policy_Check it p claims = nil \<longleftrightarrow> meets p claims"
proof -
  have "check_claims (it (ap_Claims p)) claims = nil \<longleftrightarrow> check_claims (ap_Claims p) claims = nil"
    unfolding check_claims_nil is_range_set [OF assms] ..
  moreover have "policy_Check it p claims = nil \<longleftrightarrow>
      check_values (ap_Roles p) (rolesClaimName p) hasAnyValue ''role'' claims = nil
      \<and> check_values (ap_Scopes p) (scopesClaimName p) hasAnyScope ''scope'' claims = nil
      \<and> check_claims (it (ap_Claims p)) claims = nil"
    unfolding policy_Check_def by (auto split: option.splits)
  ultimately show ?thesis
    using check_values_nil [of hasAnyValue "ap_Roles p" "rolesClaimName p" "''role''" claims, OF has_any]
      check_values_nil [of hasAnyScope "ap_Scopes p" "scopesClaimName p" "''scope''" claims, OF has_scope]
    by (simp add: meets_def check_claims_nil)
qed

text \<open>
  A policy passes exactly the claims it describes, whatever order the map of required claims is
  iterated in: one of the roles, one of the scopes, and every required claim.
\<close>

theorem policy_Check_iff:
  assumes "is_range it"
  shows "policy_Check it p claims = nil \<longleftrightarrow> meets p claims"
  using assms by (rule policy_nil)

definition demo_policy :: AuthPolicy where
  "demo_policy = \<lparr>ap_Roles = [''admin'', ''ops''], ap_Scopes = [], ap_Claims = [(''org'', AString ''acme''), (''level'', AInt 3)],
     ap_RolesClaim = [], ap_ScopesClaim = []\<rparr>"

definition demo_claims :: claims where
  "demo_claims = [(''roles'', AList [AInt 1, AString ''ops'']), (''org'', AString ''acme''), (''level'', AFloat 3)]"

lemma policy_Check_iff_witness: "policy_Check rev demo_policy demo_claims = nil \<and> meets demo_policy demo_claims"
proof -
  have "policy_Check rev demo_policy demo_claims = nil" by code_simp
  then show ?thesis using policy_Check_iff [OF is_range_rev, of demo_policy demo_claims] by simp
qed

definition sound_parser :: "jwtParser \<Rightarrow> (string \<Rightarrow> string \<Rightarrow> bool) \<Rightarrow> bool" where
  "sound_parser parse verified \<longleftrightarrow>
     (\<forall>t kf token. parse t kf = Inr token \<longrightarrow> (\<exists>key. kf token = Inr key \<and> verified key t))"


text \<open>A parser for a concrete case: the token is its key, and carries the claims of the example.\<close>

definition demo_parser :: jwtParser where
  "demo_parser t kf =
     (let token = \<lparr>jt_hmac = True, jt_alg = ''HS256'', jt_valid = True, jt_claims = Some demo_claims\<rparr> in
      case kf token of Inl err \<Rightarrow> Inl err | Inr key \<Rightarrow> if t = key then Inr token else Inl ''signature is invalid'')"

definition demo_bearer :: HttpRequest where
  "demo_bearer = \<lparr>hq_Method = ''GET'', hq_Scheme = [], hq_URLHost = [], hq_Path = ''/a'', hq_Host = ''h'',
     hq_Header = [(''Authorization'', [''bearer k1''])], hq_ContentLength = 0, hq_Body = None, hq_GetBody = None,
     hq_RemoteAddr = [], hq_PeerCertificates = None, hq_Context = Background\<rparr>"

definition demo_admitted :: HttpRequest where
  "demo_admitted = demo_bearer\<lparr>hq_Context := (hq_Context demo_bearer)\<lparr>cx_claims := Some demo_claims\<rparr>\<rparr>"


text \<open>
  A certificate passes a non-empty identity policy exactly when one of its names or addresses is on
  the matching list, in any case of letters; an empty name never matches.
\<close>

theorem identity_allows_iff:
  "identity_allows p (Some i) \<longleftrightarrow>
     ip_AllowedCommonNames p = [] \<and> ip_AllowedDNSNames p = [] \<and> ip_AllowedURIs p = []
     \<or> ci_CommonName i \<noteq> [] \<and> (\<exists>v \<in> set (ip_AllowedCommonNames p). EqualFold v (ci_CommonName i))
     \<or> (\<exists>n \<in> set (ci_DNSNames i). n \<noteq> [] \<and> (\<exists>v \<in> set (ip_AllowedDNSNames p). EqualFold v n))
     \<or> (\<exists>u \<in> set (ci_URIs i). u \<noteq> [] \<and> (\<exists>v \<in> set (ip_AllowedURIs p). EqualFold v u))"
  by (cases "ip_AllowedCommonNames p = []"; cases "ip_AllowedDNSNames p = []"; cases "ip_AllowedURIs p = []")
    (auto simp: identity_allows_def ip_isEmpty_def containsFold_def list_ex_iff)

text \<open>
  Integer claims are compared as floats: two different integers of more than 53 bits can match.
\<close>

theorem claimMatches_confuses_large_integers:
  "claimMatches (AInt 9007199254740992) (AInt 9007199254740993)"
proof -
  have "bit_length 9007199254740992 = 54" "bit_length 9007199254740993 = 54"
    by (simp_all add: bit_length.simps)
  moreover have "\<lfloor>9007199254740993 / 2 :: rat\<rfloor> = 4503599627370496" by (rule floor_unique) simp_all
  ultimately have "float64_of_int 9007199254740992 = 9007199254740992" "float64_of_int 9007199254740993 = 9007199254740992"
    by (simp_all add: float64_of_int_def round_even_def Let_def)
  then show ?thesis by (simp add: claimMatches_def)
qed

text \<open>
  A claim matches itself, and for claims that are not numbers matching is deep equality.
\<close>

lemma claimMatches_non_numeric:
  "asFloat64 got = None \<or> asFloat64 want = None \<Longrightarrow> got \<noteq> ANil \<Longrightarrow> want \<noteq> ANil \<Longrightarrow>
     claimMatches got want \<longleftrightarrow> DeepEqual got want"
  by (auto simp: claimMatches_def split: option.split)

text \<open>
  The audit log reads the subject from the request it was given, and the claims are put on the copy
  the token guard passes on: an audit log around the token guard never names a subject, whoever is
  authenticated.
\<close>

theorem audit_outside_jwt_has_no_subject:
  assumes "AuditLogger header_of start now (RequireJWT parse it secret policy next_handler) (events, s) r = ((events', s'), calls)"
    and "cx_claims (hq_Context r) = None"
  shows "\<exists>e. events' = events @ [e] \<and> ae_Subject e = [] \<and> ae_StatusCode e = recorded_status calls"
  using assms by (auto simp: AuditLogger_def audit_event_def audit_subject_def ContextClaims_def Let_def split: prod.splits)

lemma audit_outside_jwt_has_no_subject_witness:
  "\<exists>e. fst (fst (AuditLogger (\<lambda>s. []) 0 5 (RequireJWT demo_parser rev ''k1'' demo_policy (\<lambda>s r. (s + 1, [WriteHeader 204])))
      ([], 0 :: nat) demo_bearer)) = [] @ [e] \<and> ae_Subject e = []"
proof -
  let ?run = "AuditLogger (\<lambda>s. []) 0 5 (RequireJWT demo_parser rev ''k1'' demo_policy (\<lambda>s r. (s + 1, [WriteHeader 204]))) ([], 0 :: nat) demo_bearer"
  obtain events s calls where r: "?run = ((events, s), calls)" by (metis prod.collapse)
  have c: "cx_claims (hq_Context demo_bearer) = None" by (simp add: demo_bearer_def Background_def)
  obtain e where "events = [] @ [e]" "ae_Subject e = []" using audit_outside_jwt_has_no_subject [OF r c] by (elim exE conjE)
  then show ?thesis unfolding r by (intro exI [of _ e]) simp
qed

text \<open>
  Nested secret guards: a handler behind guards for two names gets both secrets, and for one name the
  outer guard's value.
\<close>

theorem RequireSecret_nested:
  assumes "resolver_Get outer a = Inr va" "resolver_Get inner b = Inr vb" "cx_secrets (hq_Context r) = None"
    and "passes (\<lambda>k. RequireSecret (Some outer) a (RequireSecret (Some inner) b k)) r = Some r'"
  shows "ContextSecret r' a = va \<and> (b \<noteq> a \<longrightarrow> ContextSecret r' b = vb)"
  using assms by (auto simp: passes_def RequireSecret_def ContextSecret_def gm_getd_def Let_def)

end
