(* ===== verification/Server.thy ===== *)
theory Server
  imports Router Access Telemetry Proxy
begin

text \<open>
  The server (\<open>pkg/runtime/server.go\<close>, with the endpoints of \<open>health.go\<close> and the request ID of
  \<open>requestid.go\<close>): its configuration, the middlewares it installs on its router, a request through
  them, and its start and shutdown.

  A handler of the router takes the routing request, a runtime state and the HTTP request. The runtime
  state holds what the middlewares share: the clock, the collector, the alerts with the callbacks they
  made, the access log, and the header map of the request being served, which the request ID
  middleware writes in place so that middlewares around it see the new ID.
\<close>

section \<open>The runtime state\<close>

record access_entry =
  lg_method :: string
  lg_path :: string
  lg_status :: int
  lg_duration_ms :: int
  lg_request_id :: string

record 'x runtime =
  rt_clock :: int
  rt_metrics :: Metrics
  rt_alerts :: "alertThreshold list"
  rt_fired :: "(nat \<times> MetricsSnapshot \<times> rat) list"
  rt_log :: "access_entry list"
  rt_header :: Header
  rt_app :: 'x

type_synonym 'x routeHandler = "'x runtime httpHandler handler"

record 'x Server =
  sv_Addr :: string
  sv_router :: "'x runtime httpHandler router"
  sv_patterns :: patternIndex
  sv_alerts :: "alertThreshold list"
  sv_readinessTimeout :: int
  sv_shutdownTimeout :: int
  sv_reusePort :: bool
  sv_injectedListener :: "nat option"

definition NewServer :: "patternIndex \<Rightarrow> string \<Rightarrow> 'x Server" where
  "NewServer patterns addr =
     \<lparr>sv_Addr = (if addr = [] then '':8080'' else addr), sv_router = NewRouter, sv_patterns = patterns, sv_alerts = [],
      sv_readinessTimeout = 0, sv_shutdownTimeout = 0, sv_reusePort = False, sv_injectedListener = None\<rparr>"

definition boot :: "'x Server \<Rightarrow> int \<Rightarrow> 'x \<Rightarrow> 'x runtime" where
  "boot sv now app = \<lparr>rt_clock = now, rt_metrics = NewMetrics, rt_alerts = sv_alerts sv, rt_fired = [], rt_log = [],
     rt_header = [], rt_app = app\<rparr>"

section \<open>Configuration\<close>

definition server_Use :: "('x routeHandler \<Rightarrow> 'x routeHandler) list \<Rightarrow> 'x Server \<Rightarrow> 'x Server" where
  "server_Use mws sv = sv\<lparr>sv_router := router_Use (sv_router sv) mws\<rparr>"

definition server_Handle :: "string \<Rightarrow> string \<Rightarrow> 'x routeHandler option \<Rightarrow> 'x Server \<Rightarrow> 'x Server" where
  "server_Handle http_method path handler sv =
     (let (r, idx) = router_Handle (sv_router sv, sv_patterns sv) http_method path handler
      in sv\<lparr>sv_router := r, sv_patterns := idx\<rparr>)"

definition server_Any :: "string \<Rightarrow> 'x routeHandler option \<Rightarrow> 'x Server \<Rightarrow> 'x Server" where
  "server_Any path handler sv =
     (let (r, idx) = router_Any (sv_router sv, sv_patterns sv) path handler
      in sv\<lparr>sv_router := r, sv_patterns := idx\<rparr>)"

definition mountMethods :: "string list" where
  "mountMethods = [''GET'', ''POST'', ''PUT'', ''PATCH'', ''DELETE'', ''HEAD'', ''OPTIONS'']"

definition server_Mount :: "string \<Rightarrow> 'x routeHandler option \<Rightarrow> 'x Server \<Rightarrow> 'x Server" where
  "server_Mount pre handler sv =
     (case handler of
        None \<Rightarrow> sv
      | Some h \<Rightarrow>
          (let pre = normalizePath pre; wildcard = withWildcardRoute pre
           in foldl (\<lambda>sv m. server_Handle m wildcard handler (server_Handle m pre handler sv)) sv mountMethods))"

text \<open>\<open>serve\<close> makes the handler of a configured proxy.\<close>

definition server_Proxy ::
  "(string \<Rightarrow> string + URL) \<Rightarrow> (Proxy \<Rightarrow> 'x routeHandler) \<Rightarrow> string \<Rightarrow> string \<Rightarrow> 'x Server \<Rightarrow> 'x Server \<times> error" where
  "server_Proxy parse serve pre target sv =
     (case NewProxy parse target of
        Inl err \<Rightarrow> (sv, Some err)
      | Inr proxy \<Rightarrow>
          (let h = Some (serve (WithStripPrefix pre proxy)); wildcard = withWildcardRoute pre
           in (foldl (\<lambda>sv m. server_Handle m wildcard h (server_Handle m pre h sv)) sv mountMethods, nil)))"

definition WithShutdownTimeout :: "int \<Rightarrow> 'x Server \<Rightarrow> 'x Server" where
  "WithShutdownTimeout d sv = sv\<lparr>sv_shutdownTimeout := d\<rparr>"

definition WithReadinessTimeout :: "int \<Rightarrow> 'x Server \<Rightarrow> 'x Server" where
  "WithReadinessTimeout d sv = sv\<lparr>sv_readinessTimeout := d\<rparr>"

definition WithListener :: "nat option \<Rightarrow> 'x Server \<Rightarrow> 'x Server" where
  "WithListener listener sv = sv\<lparr>sv_injectedListener := listener\<rparr>"

definition WithReusePort :: "'x Server \<Rightarrow> 'x Server" where
  "WithReusePort sv = sv\<lparr>sv_reusePort := True\<rparr>"

section \<open>Middlewares\<close>

definition metrics_mw :: "'x routeHandler \<Rightarrow> 'x routeHandler" where
  "metrics_mw next_handler rq s r =
     (let start = rt_clock s; (s, calls) = next_handler rq s r
      in (s\<lparr>rt_metrics := metrics_Record (rt_metrics s) (hq_Method r) (routePattern rq) (recorded_status calls)
             (Some (rt_clock s - start))\<rparr>, calls))"

definition WithServerMetrics :: "'x Server \<Rightarrow> 'x Server" where
  "WithServerMetrics sv = server_Use [metrics_mw] sv"

definition logger_mw :: "'x routeHandler \<Rightarrow> 'x routeHandler" where
  "logger_mw next_handler rq s r =
     (let start = rt_clock s; (s, calls) = next_handler rq s r
      in (s\<lparr>rt_log := rt_log s @ [\<lparr>lg_method = hq_Method r, lg_path = normalizePath (hq_Path r),
             lg_status = recorded_status calls, lg_duration_ms = (rt_clock s - start) div 1000000,
             lg_request_id = RequestIDFromRequest (r\<lparr>hq_Header := rt_header s\<rparr>)\<rparr>]\<rparr>, calls))"

definition WithServerLogger :: "'x Server \<Rightarrow> 'x Server" where
  "WithServerLogger sv = server_Use [logger_mw] sv"

text \<open>The alert number \<open>i\<close>; a callback gets the snapshot and the error rate.\<close>

definition alert_mw :: "nat \<Rightarrow> 'x routeHandler \<Rightarrow> 'x routeHandler" where
  "alert_mw i next_handler rq s r =
     (let (s, calls) = next_handler rq s r in
      case alert_after_request (rt_alerts s ! i) (rt_metrics s) of
        (alert, None) \<Rightarrow> (s\<lparr>rt_alerts := (rt_alerts s)[i := alert]\<rparr>, calls)
      | (alert, Some rate) \<Rightarrow>
          (let (m, snap) = metrics_Snapshot (rt_metrics s)
           in (s\<lparr>rt_alerts := (rt_alerts s)[i := alert], rt_metrics := m, rt_fired := rt_fired s @ [(i, snap, rate)]\<rparr>, calls)))"

definition WithAlertThreshold :: "rat \<Rightarrow> 'x Server \<Rightarrow> 'x Server" where
  "WithAlertThreshold threshold sv =
     server_Use [alert_mw (length (sv_alerts sv))]
       (sv\<lparr>sv_alerts := sv_alerts sv @ [\<lparr>al_threshold = threshold, al_triggered = False\<rparr>]\<rparr>)"

definition requestID_mw :: "(int \<Rightarrow> string) \<Rightarrow> 'x routeHandler \<Rightarrow> 'x routeHandler" where
  "requestID_mw fresh next_handler rq s r =
     requestID_middleware (fresh (rt_clock s))
       (\<lambda>s r. next_handler rq (s\<lparr>rt_header := hq_Header r\<rparr>) r) s r"

definition WithRequestID :: "(int \<Rightarrow> string) \<Rightarrow> 'x Server \<Rightarrow> 'x Server" where
  "WithRequestID fresh sv = server_Use [requestID_mw fresh] sv"

section \<open>Endpoints\<close>

text \<open>\<open>quote\<close> is the JSON form of a string, \<open>encode\<close> that of a snapshot; \<open>Encode\<close> adds a newline.\<close>

definition json_reply :: "int \<Rightarrow> string \<Rightarrow> wcall list" where
  "json_reply code body = [HSet ''Content-Type'' ''application/json'', WriteHeader code, Write (body @ ''\<newline>'')]"

definition liveness_handler :: "'x routeHandler" where
  "liveness_handler rq s r = (s, json_reply 200 ''{\"status\":\"ok\"}'')"

definition WithLiveness :: "string \<Rightarrow> 'x Server \<Rightarrow> 'x Server" where
  "WithLiveness path sv =
     server_Handle ''GET'' (if path = [] then ''/health/live'' else path) (Some liveness_handler) sv"

definition readiness_handler ::
  "(string \<Rightarrow> string) \<Rightarrow> (int \<Rightarrow> 'x runtime \<Rightarrow> error) option list \<Rightarrow> int \<Rightarrow> 'x routeHandler" where
  "readiness_handler quote checks timeout rq s r =
     (case readiness (map (map_option (\<lambda>check u. check timeout s)) checks) of
        (code, None) \<Rightarrow> (s, json_reply code ''{\"status\":\"ok\"}'')
      | (code, Some err) \<Rightarrow> (s, json_reply code (''{\"error\":'' @ quote err @ '',\"status\":\"unavailable\"}'')))"

definition WithReadiness ::
  "(string \<Rightarrow> string) \<Rightarrow> string \<Rightarrow> (int \<Rightarrow> 'x runtime \<Rightarrow> error) option list \<Rightarrow> 'x Server \<Rightarrow> 'x Server" where
  "WithReadiness quote path checks sv =
     server_Handle ''GET'' (if path = [] then ''/health/ready'' else path)
       (Some (readiness_handler quote checks (readinessTimeout (sv_readinessTimeout sv)))) sv"

definition metrics_handler :: "(MetricsSnapshot \<Rightarrow> string) \<Rightarrow> 'x routeHandler" where
  "metrics_handler encode rq s r =
     (let (m, snap) = metrics_Snapshot (rt_metrics s)
      in (s\<lparr>rt_metrics := m\<rparr>, json_reply 200 (encode snap)))"

definition WithMetricsEndpoint :: "(MetricsSnapshot \<Rightarrow> string) \<Rightarrow> string \<Rightarrow> 'x Server \<Rightarrow> 'x Server" where
  "WithMetricsEndpoint encode path sv =
     server_Handle ''GET'' (if path = [] then ''/metrics'' else path) (Some (metrics_handler encode)) sv"

section \<open>Serving\<close>

definition routing_request :: "HttpRequest \<Rightarrow> request" where
  "routing_request r = \<lparr>rq_Method = hq_Method r, rq_Path = hq_Path r, rq_Pattern = []\<rparr>"

definition not_found :: "'x routeHandler" where
  "not_found rq s r = (s, http_Error ''404 page not found'' 404)"

definition server_ServeHTTP ::
  "('x runtime httpHandler methodRoutes \<Rightarrow> 'x runtime httpHandler methodRoutes) \<Rightarrow> 'x Server \<Rightarrow> 'x runtime httpHandler" where
  "server_ServeHTTP it sv s r =
     router_ServeHTTP it not_found (sv_router sv) (routing_request r) (s\<lparr>rt_header := hq_Header r\<rparr>) r"

section \<open>Start and shutdown\<close>

datatype socket = InjectedSocket nat | BoundSocket string bool

text \<open>\<open>bind\<close> is what \<open>net.Listen\<close> answers for an address, with \<open>SO_REUSEPORT\<close> or without.\<close>

definition server_listen ::
  "(string \<Rightarrow> bool \<Rightarrow> error) \<Rightarrow> 'x Server \<Rightarrow> 'x Server \<times> (string + socket)" where
  "server_listen bind sv =
     (case sv_injectedListener sv of
        Some l \<Rightarrow> (sv\<lparr>sv_injectedListener := None\<rparr>, Inr (InjectedSocket l))
      | None \<Rightarrow>
          (case bind (sv_Addr sv) (sv_reusePort sv) of
             Some err \<Rightarrow> (sv, Inl err)
           | None \<Rightarrow> (sv, Inr (BoundSocket (sv_Addr sv) (sv_reusePort sv)))))"

text \<open>
  \<open>OnShutdown\<close> and \<open>Shutdown\<close>. A hook runs under the deadline of its context on a world; \<open>drain\<close> is
  \<open>http.Server.Shutdown\<close>.
\<close>

type_synonym 'w hook = "int option \<Rightarrow> 'w \<Rightarrow> 'w \<times> error"

definition OnShutdown :: "'w hook option \<Rightarrow> 'w hook list \<Rightarrow> 'w hook list" where
  "OnShutdown fn hooks = (case fn of None \<Rightarrow> hooks | Some h \<Rightarrow> hooks @ [h])"

fun run_hooks :: "int option \<Rightarrow> 'w hook list \<Rightarrow> 'w \<Rightarrow> 'w \<times> error" where
  "run_hooks ctx [] w = (w, nil)"
| "run_hooks ctx (fn # fns) w =
     (case fn ctx w of
        (w, Some err) \<Rightarrow> (w, Some err)
      | (w, None) \<Rightarrow> run_hooks ctx fns w)"

definition shutdown_deadline :: "int \<Rightarrow> int \<Rightarrow> int option \<Rightarrow> int option" where
  "shutdown_deadline timeout now deadline =
     (if timeout > 0 then (case deadline of None \<Rightarrow> Some (now + timeout) | Some d \<Rightarrow> Some (min d (now + timeout)))
      else deadline)"

definition server_Shutdown ::
  "'w hook \<Rightarrow> int \<Rightarrow> 'w hook list \<Rightarrow> int \<Rightarrow> int option \<Rightarrow> 'w \<Rightarrow> 'w \<times> error" where
  "server_Shutdown drain timeout hooks now deadline w =
     (let ctx = shutdown_deadline timeout now deadline in
      case drain ctx w of
        (w, Some err) \<Rightarrow> (w, Some err)
      | (w, None) \<Rightarrow> run_hooks ctx hooks w)"

section \<open>A request through the server\<close>

definition matched :: "('x runtime httpHandler methodRoutes \<Rightarrow> 'x runtime httpHandler methodRoutes) \<Rightarrow> 'x Server \<Rightarrow>
    HttpRequest \<Rightarrow> (string \<times> 'x runtime httpHandler routeEntry) option" where
  "matched it sv r = matchRoute it (sv_router sv) (ToUpper (hq_Method r)) (normalizePath (hq_Path r))"

lemma server_dispatch:
  "server_ServeHTTP it sv s r =
    (let s = s\<lparr>rt_header := hq_Header r\<rparr> in
     case matched it sv r of
       None \<Rightarrow> (s, http_Error ''404 page not found'' 404)
     | Some (pattern, entry) \<Rightarrow>
         foldr (\<lambda>mw k. mw k) (middleware (sv_router sv)) (re_handler entry) ((routing_request r)\<lparr>rq_Pattern := pattern\<rparr>) s r)"
  by (simp add: server_ServeHTTP_def router_ServeHTTP_def matched_def routing_request_def not_found_def chain_foldr Let_def
      split: option.split prod.split)

lemma matched_pattern_ne:
  assumes "matched it sv r = Some (pattern, entry)" "pattern \<noteq> []"
  shows "routePattern ((routing_request r)\<lparr>rq_Pattern := pattern\<rparr>) = pattern"
  using assms(2) by (simp add: routePattern_def)

section \<open>Properties\<close>

text \<open>
  A request that matches no route is answered 404 outside every middleware: it is not authenticated,
  counted, logged or given a request ID.
\<close>

theorem unmatched_request_bypasses_middleware:
  assumes "matched it sv r = None"
  shows "server_ServeHTTP it sv s r = (s\<lparr>rt_header := hq_Header r\<rparr>, http_Error ''404 page not found'' 404)"
  using assms by (simp add: server_dispatch)

text \<open>
  What the collector is told of a request: its method, the pattern of its route, the status the
  recorder saw and the time it took; nothing when no route matches.
\<close>

definition observed :: "('x runtime httpHandler methodRoutes \<Rightarrow> 'x runtime httpHandler methodRoutes) \<Rightarrow> 'x Server \<Rightarrow>
    'x runtime \<Rightarrow> HttpRequest \<Rightarrow> observation list" where
  "observed it sv s r =
     (case matched it sv r of
        None \<Rightarrow> []
      | Some (pattern, entry) \<Rightarrow>
          (let (s', calls) = server_ServeHTTP it sv s r in
           [\<lparr>ob_method = hq_Method r, ob_route = routePattern ((routing_request r)\<lparr>rq_Pattern := pattern\<rparr>),
             ob_status = recorded_status calls, ob_elapsed = Some (rt_clock s' - rt_clock s)\<rparr>]))"

fun observed_all where
  "observed_all it sv s [] = []"
| "observed_all it sv s (r # rs) = observed it sv s r @ observed_all it sv (fst (server_ServeHTTP it sv s r)) rs"

text \<open>Everything behind the first middleware leaves the collector alone.\<close>

definition inner :: "('x routeHandler \<Rightarrow> 'x routeHandler) list \<Rightarrow> 'x runtime httpHandler routeEntry \<Rightarrow> 'x routeHandler" where
  "inner mws entry = foldr (\<lambda>mw k. mw k) mws (re_handler entry)"

definition leaves_metrics :: "'x routeHandler \<Rightarrow> bool" where
  "leaves_metrics h \<longleftrightarrow> (\<forall>rq s r. rt_metrics (fst (h rq s r)) = rt_metrics s)"

definition routes_leave_metrics ::
  "('x runtime httpHandler methodRoutes \<Rightarrow> 'x runtime httpHandler methodRoutes) \<Rightarrow> 'x Server \<Rightarrow> ('x routeHandler \<Rightarrow> 'x routeHandler) list \<Rightarrow> bool" where
  "routes_leave_metrics it sv mws \<longleftrightarrow>
     (\<forall>r pattern entry. matched it sv r = Some (pattern, entry) \<longrightarrow> leaves_metrics (inner mws entry))"

lemma metrics_one:
  assumes "middleware (sv_router sv) = metrics_mw # mws" "routes_leave_metrics it sv mws"
  shows "rt_metrics (fst (server_ServeHTTP it sv s r)) = run record_one (rt_metrics s) (observed it sv s r)"
proof (cases "matched it sv r")
  case None
  then show ?thesis by (simp add: server_dispatch observed_def)
next
  case (Some pe)
  obtain pattern entry where pe: "pe = (pattern, entry)" by (cases pe)
  let ?rq = "(routing_request r)\<lparr>rq_Pattern := pattern\<rparr>" and ?s = "s\<lparr>rt_header := hq_Header r\<rparr>"
  obtain s' calls where i: "inner mws entry ?rq ?s r = (s', calls)" by (cases "inner mws entry ?rq ?s r")
  have "leaves_metrics (inner mws entry)" using assms(2) Some pe by (simp add: routes_leave_metrics_def)
  then have "rt_metrics (fst (inner mws entry ?rq ?s r)) = rt_metrics ?s" unfolding leaves_metrics_def by blast
  then have m: "rt_metrics s' = rt_metrics s" by (simp add: i)
  have d: "server_ServeHTTP it sv s r = metrics_mw (inner mws entry) ?rq ?s r"
    by (simp add: server_dispatch Some pe assms(1) inner_def Let_def)
  have res: "server_ServeHTTP it sv s r = (s'\<lparr>rt_metrics := metrics_Record (rt_metrics s') (hq_Method r) (routePattern ?rq)
      (recorded_status calls) (Some (rt_clock s' - rt_clock s))\<rparr>, calls)"
    by (simp add: d metrics_mw_def i)
  show ?thesis by (simp add: observed_def Some pe res m record_one_def)
qed


text \<open>A server with one route, whose handler answers the status in its application state and takes 5 ns.\<close>

definition demo_handler :: "int routeHandler" where
  "demo_handler rq s r = (s\<lparr>rt_clock := rt_clock s + 5\<rparr>, [WriteHeader (rt_app s)])"

definition demo_server :: "int Server" where
  "demo_server = server_Handle ''GET'' ''/a'' (Some demo_handler) (WithServerMetrics (NewServer [] []))"

lemma server_Handle_router:
  "sv_router (server_Handle m p h sv) = fst (router_Handle (sv_router sv, sv_patterns sv) m p h)"
  by (simp add: server_Handle_def Let_def split_beta)

lemma demo_paths: "ToUpper ''GET'' = ''GET''" "normalizePath ''/a'' = ''/a''"
  by code_simp+

lemma demo_server_routes:
  "middleware (sv_router demo_server) = [metrics_mw]"
  "routes (sv_router demo_server) = [(''GET'', [(''/a'', compileEntry demo_handler ''/a'')])]"
  by (simp_all add: demo_server_def server_Handle_router router_Handle_Some WithServerMetrics_def server_Use_def
      router_Use_def NewServer_def NewRouter_def demo_paths)

lemma one_route_entry:
  assumes "routes (sv_router sv) = [(''GET'', [(''/a'', e)])]" "matched id sv r = Some (pattern, entry)"
  shows "entry = e"
  using assms by (auto simp: matched_def matchRoute_def matchStep_def Let_def split: if_splits option.splits)

lemma demo_leaves_metrics: "leaves_metrics (inner [] (compileEntry demo_handler ''/a''))"
  by (simp add: leaves_metrics_def inner_def demo_handler_def)


lemma unmatched_request_bypasses_middleware_witness:
  "server_ServeHTTP id demo_server (boot demo_server 0 500) demo_http_request =
     ((boot demo_server 0 500)\<lparr>rt_header := hq_Header demo_http_request\<rparr>, http_Error ''404 page not found'' 404)"
proof -
  have "ToUpper ''POST'' \<noteq> ''GET''" by code_simp
  then have "matched id demo_server demo_http_request = None"
    by (simp add: matched_def matchRoute_def demo_server_routes demo_http_request_def)
  then show ?thesis by (rule unmatched_request_bypasses_middleware)
qed

text \<open>An alert set up after the metrics, the order its documentation asks for, runs inside the metrics
  middleware and so looks at the window before the request it watches is recorded: whether it fires
  during a request does not depend on the outcome of that request.
\<close>

theorem alert_ignores_current_request:
  assumes "middleware (sv_router sv) = [metrics_mw, alert_mw i]" "matched it sv r = Some (pattern, entry)"
    and "i < length (rt_alerts s)"
    and "\<forall>rq s r. rt_metrics (fst (re_handler entry rq s r)) = rt_metrics s \<and> rt_alerts (fst (re_handler entry rq s r)) = rt_alerts s
      \<and> rt_fired (fst (re_handler entry rq s r)) = rt_fired s"
  shows "map (\<lambda>(i, snap, rate). (i, rate)) (rt_fired (fst (server_ServeHTTP it sv s r))) =
    map (\<lambda>(i, snap, rate). (i, rate)) (rt_fired s)
      @ (case snd (alert_after_request (rt_alerts s ! i) (rt_metrics s)) of None \<Rightarrow> [] | Some rate \<Rightarrow> [(i, rate)])"
proof -
  let ?rq = "(routing_request r)\<lparr>rq_Pattern := pattern\<rparr>" and ?s = "s\<lparr>rt_header := hq_Header r\<rparr>"
  obtain s' calls where h: "re_handler entry ?rq ?s r = (s', calls)" by (cases "re_handler entry ?rq ?s r")
  have k: "rt_metrics s' = rt_metrics s" "rt_alerts s' = rt_alerts s" "rt_fired s' = rt_fired s"
    using assms(4) [rule_format, of ?rq ?s r] by (simp_all add: h)
  have d: "server_ServeHTTP it sv s r = metrics_mw (alert_mw i (re_handler entry)) ?rq ?s r"
    by (simp add: server_dispatch assms(1,2) Let_def)
  show ?thesis
    by (simp add: d metrics_mw_def alert_mw_def h k Let_def split: prod.split option.split)
qed

definition demo_alerting :: "int Server" where
  "demo_alerting = server_Handle ''GET'' ''/a'' (Some demo_handler)
     (WithAlertThreshold (1 / 2) (WithServerMetrics (NewServer [] [])))"

lemma demo_alerting_routes:
  "middleware (sv_router demo_alerting) = [metrics_mw, alert_mw 0]"
  "routes (sv_router demo_alerting) = [(''GET'', [(''/a'', compileEntry demo_handler ''/a'')])]"
  "rt_alerts (boot demo_alerting 0 500) = [\<lparr>al_threshold = 1 / 2, al_triggered = False\<rparr>]"
  by (simp_all add: demo_alerting_def server_Handle_router router_Handle_Some WithServerMetrics_def server_Use_def
      router_Use_def NewServer_def NewRouter_def WithAlertThreshold_def demo_paths boot_def server_Handle_def Let_def split_beta)

text \<open>The first request of a server answers 500: every request so far failed, and the alert stays silent.\<close>

lemma alert_ignores_current_request_witness:
  "rt_fired (fst (server_ServeHTTP id demo_alerting (boot demo_alerting 0 500) (demo_http_request\<lparr>hq_Method := ''GET''\<rparr>))) = []"
proof -
  let ?r = "demo_http_request\<lparr>hq_Method := ''GET''\<rparr>" and ?s = "boot demo_alerting 0 (500 :: int)"
  have "matchRoute id (sv_router demo_alerting) ''GET'' ''/a'' = Some (''/a'', compileEntry demo_handler ''/a'')"
    by (rule matchRoute_exact, simp add: demo_alerting_routes, simp)
  then have m: "matched id demo_alerting ?r = Some (''/a'', compileEntry demo_handler ''/a'')"
    by (simp add: matched_def demo_paths demo_http_request_def)
  have q: "\<forall>rq s r. rt_metrics (fst (re_handler (compileEntry demo_handler ''/a'') rq s r)) = rt_metrics s
      \<and> rt_alerts (fst (re_handler (compileEntry demo_handler ''/a'') rq s r)) = rt_alerts s
      \<and> rt_fired (fst (re_handler (compileEntry demo_handler ''/a'') rq s r)) = rt_fired s"
    by (simp add: demo_handler_def)
  have l: "0 < length (rt_alerts ?s)" by (simp add: demo_alerting_routes)
  have "snd (alert_after_request (rt_alerts ?s ! 0) (rt_metrics ?s)) = None" unfolding demo_alerting_routes
    by (simp add: alert_after_request_def alert_check_def ErrorWindow_def boot_def NewMetrics_def Let_def errorWindowCap_def)
  moreover have "rt_fired ?s = []" by (simp add: boot_def)
  ultimately have "map (\<lambda>(i, snap, rate). (i, rate)) (rt_fired (fst (server_ServeHTTP id demo_alerting ?s ?r))) = []"
    unfolding alert_ignores_current_request [OF demo_alerting_routes(1) m l q] by simp
  then show ?thesis by simp
qed

definition touches :: "string \<Rightarrow> wcall \<Rightarrow> bool" where
  "touches k c = (case c of HSet k' v \<Rightarrow> canonKey k' = k | HAdd k' v \<Rightarrow> canonKey k' = k | HDel k' \<Rightarrow> canonKey k' = k | _ \<Rightarrow> False)"

lemma untouched_header:
  assumes "list_all (\<lambda>c. \<not> touches k c) cs" "se_code s \<noteq> None \<Longrightarrow> gm_get (se_sent s) k = gm_get (se_header s) k"
  shows "gm_get (se_header (run net_write s cs)) k = gm_get (se_header s) k
    \<and> (se_code (run net_write s cs) \<noteq> None \<longrightarrow> gm_get (se_sent (run net_write s cs)) k = gm_get (se_header s) k)"
  using assms
proof (induction cs arbitrary: s)
  case (Cons c cs)
  have keep: "gm_get (se_header (net_write s c)) k = gm_get (se_header s) k"
    using Cons.prems(1)
    by (cases c) (auto simp: touches_def Header_Add_def gm_get_put Header_Del_get net_WriteHeader_def Let_def)
  have "se_code (net_write s c) \<noteq> None \<Longrightarrow> gm_get (se_sent (net_write s c)) k = gm_get (se_header (net_write s c)) k"
    using Cons.prems keep by (cases c) (auto simp: net_WriteHeader_def Let_def split: if_splits)
  from Cons.IH [OF _ this] Cons.prems(1) keep show ?case by simp
qed simp

lemma respond_header:
  assumes "list_all (\<lambda>c. \<not> touches k c) cs" "se_code s = None"
  shows "gm_get (se_sent (finish (run net_write s cs))) k = gm_get (se_header s) k"
  using untouched_header [OF assms(1), of s] assms(2)
  by (auto simp: finish_def net_WriteHeader_def informational_def)

lemma ensureRequestID_id:
  assumes "fresh \<noteq> []"
  shows "snd (ensureRequestID fresh r) = (if RequestIDFromRequest r \<noteq> [] then RequestIDFromRequest r else fresh)"
    "snd (ensureRequestID fresh r) \<noteq> []" "hq_Context (fst (ensureRequestID fresh r)) = hq_Context r"
  using assms by (simp_all add: ensureRequestID_def Let_def)

text \<open>
  Correlation: with the request ID middleware outermost, the handler sees an ID in the context, it is
  the one the client sent if it sent one, and the response carries it in \<open>X-Request-Id\<close> unless the
  handler writes that header itself.
\<close>

theorem request_id_correlates:
  assumes "middleware (sv_router sv) = requestID_mw fresh # mws" "matched it sv r = Some (pattern, entry)"
    and "fresh (rt_clock s) \<noteq> []" "server_ServeHTTP it sv s r = (s', calls)"
  defines "i \<equiv> (if RequestIDFromRequest r \<noteq> [] then RequestIDFromRequest r else fresh (rt_clock s))"
  shows "\<exists>s1 r' inner_calls. inner mws entry ((routing_request r)\<lparr>rq_Pattern := pattern\<rparr>) s1 r' = (s', inner_calls)
    \<and> RequestIDFromRequest r' = i \<and> rt_header s1 = hq_Header r'
    \<and> (list_all (\<lambda>c. \<not> touches ''X-Request-Id'' c) inner_calls \<longrightarrow>
        gm_get (se_sent (respond calls)) ''X-Request-Id'' = Some [i])"
proof -
  obtain r1 j where e: "ensureRequestID (fresh (rt_clock s)) r = (r1, j)" by (cases "ensureRequestID (fresh (rt_clock s)) r")
  have j: "j = i" "i \<noteq> []" using ensureRequestID_id [OF assms(3), of r] by (auto simp: e i_def)
  let ?rq = "(routing_request r)\<lparr>rq_Pattern := pattern\<rparr>"
  let ?r = "r1\<lparr>hq_Context := (hq_Context r1)\<lparr>cx_requestID := Some j\<rparr>\<rparr>"
  let ?s = "s\<lparr>rt_header := hq_Header ?r\<rparr>"
  obtain s2 cs where h: "inner mws entry ?rq ?s ?r = (s2, cs)" by (cases "inner mws entry ?rq ?s ?r")
  have "server_ServeHTTP it sv s r = (s2, map (\<lambda>h. HSet h j) id_headers @ cs)"
    using h by (simp add: server_dispatch assms(1,2) requestID_mw_def requestID_middleware_def e inner_def Let_def)
  with assms(4) have c: "s' = s2" "calls = map (\<lambda>h. HSet h j) id_headers @ cs" by simp_all
  have id: "RequestIDFromRequest ?r = i" using j by (simp add: RequestIDFromRequest_def)
  have "gm_get (se_sent (respond calls)) ''X-Request-Id'' = Some [i]" if t: "list_all (\<lambda>c. \<not> touches ''X-Request-Id'' c) cs"
  proof -
    let ?w = "run net_write fresh_writer (map (\<lambda>h. HSet h j) id_headers)"
    have w: "se_code ?w = None" "gm_get (se_header ?w) ''X-Request-Id'' = Some [j]"
      by (simp_all add: id_headers_def fresh_writer_def canon_consts)
    have "respond calls = finish (run net_write ?w cs)" by (simp add: respond_def c(2) run_append)
    with respond_header [OF t w(1)] w(2) j show ?thesis by simp
  qed
  with h id c(1) show ?thesis by (intro exI [of _ ?s] exI [of _ ?r] exI [of _ cs]) simp
qed

definition demo_correlating :: "int Server" where
  "demo_correlating = server_Handle ''GET'' ''/a'' (Some demo_handler) (WithRequestID (\<lambda>t. ''fgoths-00'') (NewServer [] []))"

lemma demo_correlating_routes:
  "middleware (sv_router demo_correlating) = [requestID_mw (\<lambda>t. ''fgoths-00'')]"
  "routes (sv_router demo_correlating) = [(''GET'', [(''/a'', compileEntry demo_handler ''/a'')])]"
  by (simp_all add: demo_correlating_def server_Handle_router router_Handle_Some WithRequestID_def server_Use_def
      router_Use_def NewServer_def NewRouter_def demo_paths)

lemma request_id_correlates_witness:
  "gm_get (se_sent (respond (snd (server_ServeHTTP id demo_correlating (boot demo_correlating 0 200)
     (demo_tagged\<lparr>hq_Method := ''GET'', hq_Path := ''/a''\<rparr>))))) ''X-Request-Id'' = Some [''r1'']"
proof -
  let ?r = "demo_tagged\<lparr>hq_Method := ''GET'', hq_Path := ''/a''\<rparr>" and ?s = "boot demo_correlating 0 (200 :: int)"
  obtain s' calls where serve: "server_ServeHTTP id demo_correlating ?s ?r = (s', calls)" by fastforce
  have "matchRoute id (sv_router demo_correlating) ''GET'' ''/a'' = Some (''/a'', compileEntry demo_handler ''/a'')"
    by (rule matchRoute_exact, simp add: demo_correlating_routes, simp)
  then have m: "matched id demo_correlating ?r = Some (''/a'', compileEntry demo_handler ''/a'')"
    by (simp add: matched_def demo_paths)
  have i: "RequestIDFromRequest ?r = ''r1''" by (simp add: RequestIDFromRequest_def demo_tagged_def)
  have f: "(\<lambda>t. ''fgoths-00'') (rt_clock ?s) \<noteq> []" by simp
  obtain s1 r' cs where h: "inner [] (compileEntry demo_handler ''/a'') ((routing_request ?r)\<lparr>rq_Pattern := ''/a''\<rparr>) s1 r' = (s', cs)"
    "list_all (\<lambda>c. \<not> touches ''X-Request-Id'' c) cs \<longrightarrow> gm_get (se_sent (respond calls)) ''X-Request-Id'' = Some [''r1'']"
    using request_id_correlates [OF demo_correlating_routes(1) m f serve] unfolding i by (elim exE conjE) simp
  have "cs = [WriteHeader (rt_app s1)]" using h(1) by (simp add: inner_def demo_handler_def)
  with h(2) show ?thesis by (simp add: serve touches_def)
qed

section \<open>Shutdown\<close>

text \<open>
  Shutdown drains first, then runs the hooks in the order of their registration, each on the world the
  one before it left, and stops at the first error, which it returns; later hooks do not run.
\<close>

fun hooks_reference :: "int option \<Rightarrow> 'w hook list \<Rightarrow> 'w \<Rightarrow> ('w \<times> error) list" where
  "hooks_reference ctx [] w = []"
| "hooks_reference ctx (fn # fns) w = fn ctx w # hooks_reference ctx fns (fst (fn ctx w))"

theorem Shutdown_runs_hooks_in_order:
  "server_Shutdown drain timeout hooks now deadline w =
    (let outs = hooks_reference (shutdown_deadline timeout now deadline) (drain # hooks) w in
     case List.find (\<lambda>out. snd out \<noteq> nil) outs of Some out \<Rightarrow> out | None \<Rightarrow> (fst (last outs), nil))"
proof -
  let ?ctx = "shutdown_deadline timeout now deadline"
  have hooks: "run_hooks ?ctx fns w' = (case List.find (\<lambda>out. snd out \<noteq> nil) (hooks_reference ?ctx fns w') of
      Some out \<Rightarrow> out | None \<Rightarrow> (if fns = [] then w' else fst (last (hooks_reference ?ctx fns w')), nil))" for fns w'
  proof (induction fns arbitrary: w')
    case (Cons fn fns)
    obtain w2 e where fn: "fn ?ctx w' = (w2, e)" by (cases "fn ?ctx w'")
    have ne: "fns \<noteq> [] \<Longrightarrow> hooks_reference ?ctx fns w2 \<noteq> []" by (cases fns) simp_all
    show ?case using Cons.IH [of w2] ne by (cases e; cases fns) (auto simp: fn split: option.split)
  qed simp
  obtain w1 e where d: "drain ?ctx w = (w1, e)" by (cases "drain ?ctx w")
  have ne: "hooks \<noteq> [] \<Longrightarrow> hooks_reference ?ctx hooks w1 \<noteq> []" by (cases hooks) simp_all
  show ?thesis
    using hooks [of hooks w1] ne by (cases e; cases hooks) (auto simp: server_Shutdown_def d Let_def split: option.split)
qed

section \<open>The status recorder\<close>

text \<open>What a handler writes first, when that is neither a flush, an informational status nor status 0.\<close>

fun plain_start :: "wcall list \<Rightarrow> bool" where
  "plain_start [] \<longleftrightarrow> True"
| "plain_start (WriteHeader code # cs) \<longleftrightarrow> code \<noteq> 0 \<and> \<not> informational code"
| "plain_start (Write b # cs) \<longleftrightarrow> True"
| "plain_start (Flush # cs) \<longleftrightarrow> False"
| "plain_start (c # cs) \<longleftrightarrow> plain_start cs"

text \<open>
  The recorder reports the status the client got, for handlers whose first write is not a flush, an
  informational status or status 0.
\<close>

theorem recorded_status_is_sent:
  assumes "plain_start cs"
  shows "se_code (respond cs) = Some (recorded_status cs)"
proof -
  have first: "se_code (finish (run net_write s ds)) = Some code \<and> run recorder_call sr ds = sr"
    if "se_code s = Some code" "sr_wroteCode sr" for s ds code sr
    using net_code_final [of s ds] recorder_first [OF that(2), of ds] that(1)
    by (simp add: finish_def net_WriteHeader_def)
  have "se_code (finish (run net_write s cs)) = Some (StatusCode (run recorder_call newStatusRecorder cs))"
    if "se_code s = None" for s
    using assms that
  proof (induction cs arbitrary: s rule: plain_start.induct)
    case 1
    then show ?case by (simp add: finish_def net_WriteHeader_def informational_def StatusCode_def newStatusRecorder_def)
  next
    case (2 code cs)
    then show ?case
      using first [of "net_WriteHeader code s" code "recorder_WriteHeader code newStatusRecorder" cs]
      by (simp add: net_WriteHeader_def recorder_WriteHeader_def newStatusRecorder_def StatusCode_def)
  next
    case (3 b cs)
    then show ?case
      using first [of "net_write s (Write b)" 200 "recorder_WriteHeader 200 newStatusRecorder" cs]
      by (simp add: net_WriteHeader_def recorder_WriteHeader_def newStatusRecorder_def StatusCode_def
          informational_def Let_def)
  qed simp_all
  then show ?thesis by (simp add: respond_def recorded_status_def fresh_writer_def)
qed

lemma recorded_status_is_sent_witness:
  "se_code (respond [HSet ''A'' ''b'', WriteHeader 404, WriteHeader 200, Write ''x'']) =
     Some (recorded_status [HSet ''A'' ''b'', WriteHeader 404, WriteHeader 200, Write ''x''])"
  by (rule recorded_status_is_sent) (simp add: informational_def)

text \<open>
  An informational status, or a flush before the status, makes the recorder report another status than
  the client got: an early hint followed by a 500 is recorded as 103, below the error threshold, and
  a flushed response that then tries to answer 500 is recorded as 500 although 200 was sent.
\<close>

theorem recorded_status_informational_or_flushed:
  "recorded_status [WriteHeader 103, WriteHeader 500] = 103 \<and> se_code (respond [WriteHeader 103, WriteHeader 500]) = Some 500
   \<and> recorded_status [Flush, WriteHeader 500] = 500 \<and> se_code (respond [Flush, WriteHeader 500]) = Some 200"
  by (simp add: recorded_status_def respond_def finish_def recorder_WriteHeader_def newStatusRecorder_def StatusCode_def
      net_WriteHeader_def fresh_writer_def informational_def)

end
