(* ===== verification/Project_Tree.thy ===== *)
theory Project_Tree
  imports Go_Paths
begin

text \<open>
  The file tree the commands of \<open>internal/cli\<close> work on, with the system calls they use: a tree of nodes
  below the project directory, by path components. Faults are part of the world: system call number
  \<open>pj_tick\<close> may fail, and one that works in steps (a write, \<open>MkdirAll\<close>) may fail after \<open>pj_done\<close> of them.
  The lemmas say what every call keeps, through the locale \<open>io_relation\<close> of relations that sequences of
  calls preserve.
\<close>

section \<open>The project tree\<close>

datatype node = File string nat | Dir | Symlink | Special

record project =
  pj_root :: "node option"
  pj_nodes :: "(string list, node) gomap"
  pj_tick :: nat
  pj_fault :: "nat \<Rightarrow> error"
  pj_done :: "nat \<Rightarrow> nat"

abbreviation node_at :: "project \<Rightarrow> string list \<Rightarrow> node option" where
  "node_at w p \<equiv> gm_get (pj_nodes w) p"

definition put_node :: "string list \<Rightarrow> node \<Rightarrow> project \<Rightarrow> project" where
  "put_node p n w = w\<lparr>pj_nodes := gm_put p n (pj_nodes w)\<rparr>"

definition pj_next :: "project \<Rightarrow> project" where
  "pj_next w = w\<lparr>pj_tick := Suc (pj_tick w)\<rparr>"

text \<open>An operation that returned an error ends its caller, which may add to the message.\<close>

definition try_io :: "'w \<times> (string + 'a) \<Rightarrow> ('w \<Rightarrow> 'a \<Rightarrow> 'w \<times> (string + 'b)) \<Rightarrow> 'w \<times> (string + 'b)" where
  "try_io m k = (case m of (w, Inl err) \<Rightarrow> (w, Inl err) | (w, Inr x) \<Rightarrow> k w x)"

definition wrap_error :: "string \<Rightarrow> 'w \<times> (string + 'a) \<Rightarrow> 'w \<times> (string + 'a)" where
  "wrap_error msg m = (case m of (w, Inl err) \<Rightarrow> (w, Inl (msg @ '': '' @ err)) | (w, Inr x) \<Rightarrow> (w, Inr x))"

text \<open>A system call that does all or nothing, and those that may stop half-way.\<close>

definition attempt :: "project \<Rightarrow> (project \<Rightarrow> project \<times> (string + 'a)) \<Rightarrow> project \<times> (string + 'a)" where
  "attempt w f = (case pj_fault w (pj_tick w) of
     Some err \<Rightarrow> (pj_next w, Inl err)
   | None \<Rightarrow> f (pj_next w))"

definition lstat :: "project \<Rightarrow> string list \<Rightarrow> project \<times> (string + node option)" where
  "lstat w p = attempt w (\<lambda>w. (w, Inr (node_at w p)))"

definition read_file :: "project \<Rightarrow> string list \<Rightarrow> project \<times> (string + string)" where
  "read_file w p = attempt w (\<lambda>w. (w, case node_at w p of
     Some (File c m) \<Rightarrow> Inr c | None \<Rightarrow> Inl ''no such file or directory'' | _ \<Rightarrow> Inl ''is not a regular file''))"

text \<open>
  \<open>os.MkdirAll\<close>: the missing prefixes become directories, from the top; it stops at a node that is
  none. (It would follow symbolic links; the callers have just refused them.)
\<close>

fun mkdirs :: "project \<Rightarrow> string list \<Rightarrow> string list \<Rightarrow> project \<times> (string + unit)" where
  "mkdirs w pre [] = (w, Inr ())"
| "mkdirs w pre (part # parts) =
     (let here = pre @ [part] in
      case node_at w here of
        None \<Rightarrow> mkdirs (put_node here Dir w) here parts
      | Some Dir \<Rightarrow> mkdirs w here parts
      | Some _ \<Rightarrow> (w, Inl ''not a directory''))"

definition mkdir_all :: "project \<Rightarrow> string list \<Rightarrow> project \<times> (string + unit)" where
  "mkdir_all w dir = (case pj_fault w (pj_tick w) of
     Some err \<Rightarrow> (fst (mkdirs (pj_next w) [] (take (pj_done w (pj_tick w)) dir)), Inl err)
   | None \<Rightarrow> mkdirs (pj_next w) [] dir)"

text \<open>The rename of the temporary file; the exclusive creation of a file, and the write to it.\<close>

definition rename_over :: "project \<Rightarrow> string list \<Rightarrow> string \<Rightarrow> nat \<Rightarrow> project \<times> (string + unit)" where
  "rename_over w p content mode = attempt w (\<lambda>w.
     if node_at w p = Some Dir then (w, Inl ''file exists'')
     else (put_node p (File content mode) w, Inr ()))"

definition open_excl :: "project \<Rightarrow> string list \<Rightarrow> nat \<Rightarrow> project \<times> (string + unit)" where
  "open_excl w p mode = attempt w (\<lambda>w.
     if node_at w p \<noteq> None then (w, Inl ''file exists'')
     else (put_node p (File [] mode) w, Inr ()))"

definition write_open :: "project \<Rightarrow> string list \<Rightarrow> string \<Rightarrow> nat \<Rightarrow> project \<times> (string + unit)" where
  "write_open w p content mode = (case pj_fault w (pj_tick w) of
     Some err \<Rightarrow> (put_node p (File (take (pj_done w (pj_tick w)) content) mode) (pj_next w), Inl err)
   | None \<Rightarrow> (put_node p (File content mode) (pj_next w), Inr ()))"

text \<open>
  \<open>os.WriteFile\<close> truncates the file before it writes and keeps the mode of one that exists. A symbolic link
  is taken to lead out of the tree: what is written to it is not part of the tree.
\<close>

definition write_file :: "project \<Rightarrow> string list \<Rightarrow> string \<Rightarrow> nat \<Rightarrow> project \<times> (string + unit)" where
  "write_file w p content mode =
     (case node_at w p of
        Some Dir \<Rightarrow> attempt w (\<lambda>w. (w, Inl ''is a directory''))
      | Some (File c m) \<Rightarrow>
          try_io (attempt w (\<lambda>w. (put_node p (File [] m) w, Inr ()))) (\<lambda>w _. write_open w p content m)
      | Some _ \<Rightarrow> attempt w (\<lambda>w. (w, Inr ()))
      | None \<Rightarrow>
          if butlast p \<noteq> [] \<and> node_at w (butlast p) \<noteq> Some Dir then
            attempt w (\<lambda>w. (w, Inl ''no such file or directory''))
          else try_io (attempt w (\<lambda>w. (put_node p (File [] mode) w, Inr ()))) (\<lambda>w _. write_open w p content mode))"

section \<open>Paths\<close>

text \<open>\<open>filepath.Clean\<close> of a relative path, by components (\<open>.\<close> is the empty list), and \<open>filepath.Join\<close>.\<close>

definition clean_part :: "string list \<Rightarrow> string \<Rightarrow> string list" where
  "clean_part acc part =
     (if part = [] \<or> part = ''.'' then acc
      else if part = ''..'' then
        (case acc of [] \<Rightarrow> [part] | q # qs \<Rightarrow> if q = ''..'' then part # acc else qs)
      else part # acc)"

definition clean_rel :: "string \<Rightarrow> string list" where
  "clean_rel p = rev (foldl clean_part [] (Split p CHR ''/''))"

definition path_join :: "string list \<Rightarrow> string" where
  "path_join ps = Join (clean_rel (Join ps ''/'')) ''/''"

section \<open>What an operation keeps\<close>

text \<open>
  A tree: only directories have children. An operation \<open>grows\<close> the tree up to a set of paths if it
  keeps that shape and every other node.
\<close>

definition tree_ok :: "project \<Rightarrow> bool" where
  "tree_ok w \<longleftrightarrow> (\<forall>p n. node_at w p = Some n \<longrightarrow> butlast p = [] \<or> node_at w (butlast p) = Some Dir)"

definition grows :: "string list set \<Rightarrow> project \<Rightarrow> project \<Rightarrow> bool" where
  "grows S w w' \<longleftrightarrow> (tree_ok w \<longrightarrow> tree_ok w' \<and>
     (\<forall>p n. p \<notin> S \<and> node_at w p = Some n \<longrightarrow> node_at w' p = Some n))"

lemma grows_refl [simp]: "grows S w w"
  by (simp add: grows_def)

lemma grows_trans: "grows S w w' \<Longrightarrow> grows S w' w'' \<Longrightarrow> grows S w w''"
  unfolding grows_def by blast

lemma grows_mono: "grows S w w' \<Longrightarrow> S \<subseteq> T \<Longrightarrow> grows T w w'"
  unfolding grows_def by blast

lemma node_put [simp]: "node_at (put_node p n w) q = (if q = p then Some n else node_at w q)"
  by (simp add: put_node_def update_conv')

lemma pj_next_simps [simp]: "pj_nodes (pj_next w) = pj_nodes w" "pj_root (pj_next w) = pj_root w"
  by (simp_all add: pj_next_def)

lemma grows_same: "pj_nodes w' = pj_nodes w \<Longrightarrow> grows S w w'"
  by (simp add: grows_def tree_ok_def)

lemma wrap_error_simps [simp]:
  "fst (wrap_error msg m) = fst m"
  "wrap_error msg m = (w, Inr x) \<longleftrightarrow> m = (w, Inr x)"
  by (auto simp: wrap_error_def split: prod.splits sum.splits)

lemma try_io_Inr:
  "try_io m k = (w, Inr y) \<longleftrightarrow> (\<exists>w' x. m = (w', Inr x) \<and> k w' x = (w, Inr y))"
  by (auto simp: try_io_def split: prod.splits sum.splits)

text \<open>The rule for a sequence of operations, for every reflexive relation that composes.\<close>

lemma try_io_rel:
  assumes "R w (fst m)" and "\<And>w' x. m = (w', Inr x) \<Longrightarrow> R w w' \<Longrightarrow> R w (fst (k w' x))"
  shows "R w (fst (try_io m k))"
  using assms by (auto simp: try_io_def split: prod.splits sum.splits)

locale io_preorder =
  fixes R :: "project \<Rightarrow> project \<Rightarrow> bool"
  assumes refl: "R w w"
    and trans: "R w w' \<Longrightarrow> R w' w'' \<Longrightarrow> R w w''"
begin

lemma seq:
  assumes "R w (fst m)" and "\<And>w' x. m = (w', Inr x) \<Longrightarrow> R w' (fst (k w' x))"
  shows "R w (fst (try_io m k))"
  using assms by (intro try_io_rel [where R = R]) (auto intro: trans)

lemma seq_list:
  assumes "\<And>w x. x \<in> set xs \<Longrightarrow> R w (f x w)"
  shows "R w (fold f xs w)"
  using assms by (induction xs arbitrary: w) (auto intro: trans refl)

end

text \<open>Relations that only see the nodes of the tree.\<close>

locale io_relation =
  fixes R :: "project \<Rightarrow> project \<Rightarrow> bool"
  assumes same: "pj_nodes w' = pj_nodes w \<Longrightarrow> R w w'"
    and steps: "R w w' \<Longrightarrow> R w' w'' \<Longrightarrow> R w w''"
begin

lemma after_read:
  assumes "pj_nodes (fst m) = pj_nodes w"
    and "\<And>w' x. m = (w', Inr x) \<Longrightarrow> pj_nodes w' = pj_nodes w \<Longrightarrow> R w (fst (k w' x))"
  shows "R w (fst (try_io m k))"
  using assms by (auto simp: try_io_def same split: prod.splits sum.splits)

end

sublocale io_relation \<subseteq> io_preorder
  by unfold_locales (rule same, simp, rule steps)

interpretation grows_io: io_relation "grows S" for S
  by unfold_locales (rule grows_same, assumption, rule grows_trans)

interpretation fault_io: io_preorder "\<lambda>w w'. pj_fault w' = pj_fault w"
  by unfold_locales simp_all

lemma try_io_same:
  assumes "pj_nodes (fst m) = pj_nodes w"
    and "\<And>w' x. m = (w', Inr x) \<Longrightarrow> pj_nodes w' = pj_nodes w \<Longrightarrow> pj_nodes (fst (k w' x)) = pj_nodes w'"
  shows "pj_nodes (fst (try_io m k)) = pj_nodes w"
  using assms by (auto simp: try_io_def split: prod.splits sum.splits)

section \<open>Operations that only read\<close>

lemma attempt_unit_same [simp]: "pj_nodes (fst (attempt w (\<lambda>w. (w, x w)))) = pj_nodes w"
  by (simp add: attempt_def split: option.splits)

lemma lstat_same [simp]: "pj_nodes (fst (lstat w p)) = pj_nodes w"
  and lstat_Inr: "lstat w p = (w', Inr i) \<Longrightarrow> pj_nodes w' = pj_nodes w \<and> i = node_at w p"
  by (auto simp: lstat_def attempt_def split: option.splits)

lemma read_file_same [simp]: "pj_nodes (fst (read_file w p)) = pj_nodes w"
  and read_file_Inr: "read_file w p = (w', Inr c) \<Longrightarrow>
    pj_nodes w' = pj_nodes w \<and> (\<exists>m. node_at w p = Some (File c m))"
  by (auto simp: read_file_def attempt_def split: option.splits node.splits)

lemma tree_ok_absent: "tree_ok w \<Longrightarrow> p \<noteq> [] \<Longrightarrow> node_at w p = None \<Longrightarrow> node_at w (p @ q) = None"
proof (induction q rule: rev_induct)
  case (snoc x xs)
  then have "node_at w (p @ xs) \<noteq> Some Dir" "butlast (p @ xs @ [x]) = p @ xs" "p @ xs \<noteq> []"
    by (auto simp: butlast_append)
  with snoc.prems(1) show ?case unfolding tree_ok_def by (metis option.exhaust)
qed simp

lemma tree_ok_same: "pj_nodes w' = pj_nodes w \<Longrightarrow> tree_ok w' = tree_ok w"
  by (simp add: tree_ok_def)

lemma attempt_unit_Inr: "attempt w (\<lambda>w. (w, Inr x)) = (w', Inr y) \<Longrightarrow> pj_nodes w' = pj_nodes w"
  by (auto simp: attempt_def split: option.splits)

section \<open>Operations that write\<close>

lemma tree_ok_put:
  "tree_ok w \<Longrightarrow> node_at w p = None \<Longrightarrow> butlast p = [] \<or> node_at w (butlast p) = Some Dir \<Longrightarrow> tree_ok (put_node p n w)"
  by (auto simp: tree_ok_def) 

lemma tree_ok_replace:
  "tree_ok w \<Longrightarrow> node_at w p \<noteq> Some Dir \<Longrightarrow> butlast p = [] \<or> node_at w (butlast p) = Some Dir \<Longrightarrow> tree_ok (put_node p n w)"
  by (auto simp: tree_ok_def)

lemma grows_put:
  assumes "node_at w p \<noteq> Some Dir" "butlast p = [] \<or> node_at w (butlast p) = Some Dir"
    "node_at w p = None \<or> p \<in> S"
  shows "grows S w (put_node p n w)"
  using assms tree_ok_replace by (auto simp: grows_def)

lemma mkdirs_grows: "pre = [] \<or> node_at w pre = Some Dir \<Longrightarrow> grows S w (fst (mkdirs w pre parts))"
proof (induction parts arbitrary: w pre)
  case (Cons part parts)
  show ?case
  proof (cases "node_at w (pre @ [part])")
    case None
    then have "grows S w (put_node (pre @ [part]) Dir w)" using Cons.prems by (intro grows_put) auto
    then show ?thesis using None Cons.IH [of "pre @ [part]" "put_node (pre @ [part]) Dir w"]
      by (auto simp: Let_def intro: grows_trans)
  next
    case (Some n)
    then show ?thesis using Cons.IH [of "pre @ [part]" w] by (cases n) (auto simp: Let_def)
  qed
qed simp

lemma mkdirs_Inr:
  "mkdirs w pre parts = (w', Inr u) \<Longrightarrow> pre = [] \<or> node_at w pre = Some Dir \<Longrightarrow>
     pre @ parts = [] \<or> node_at w' (pre @ parts) = Some Dir"
proof (induction parts arbitrary: w pre)
  case (Cons part parts)
  show ?case
  proof (cases "node_at w (pre @ [part])")
    case None
    then show ?thesis using Cons.prems Cons.IH [of "put_node (pre @ [part]) Dir w" "pre @ [part]"]
      by (simp add: Let_def)
  next
    case (Some n)
    then show ?thesis using Cons.prems Cons.IH [of w "pre @ [part]"] by (cases n) (auto simp: Let_def)
  qed
qed simp

lemma mkdir_all_grows: "grows S w (fst (mkdir_all w dir))"
proof -
  have "grows S w (pj_next w)" by (rule grows_same) simp
  then show ?thesis
    by (auto simp: mkdir_all_def split: option.splits intro: grows_trans mkdirs_grows)
qed

lemma mkdir_all_Inr: "mkdir_all w dir = (w', Inr u) \<Longrightarrow> dir = [] \<or> node_at w' dir = Some Dir"
  by (auto simp: mkdir_all_def split: option.splits dest: mkdirs_Inr)

lemma rename_over_grows:
  assumes "butlast p = [] \<or> node_at w (butlast p) = Some Dir" "p \<in> S"
  shows "grows S w (fst (rename_over w p c m))"
proof -
  have ticked: "grows S w (pj_next w)" by (rule grows_same) simp
  have "grows S (pj_next w) (put_node p (File c m) (pj_next w))" if "node_at w p \<noteq> Some Dir"
    using assms that by (intro grows_put) auto
  with ticked show ?thesis
    by (auto simp: rename_over_def attempt_def split: option.splits intro: grows_trans)
qed

lemma rename_over_Inr: "rename_over w p c m = (w', Inr u) \<Longrightarrow> node_at w' p = Some (File c m)"
  by (auto simp: rename_over_def attempt_def split: option.splits if_splits)

lemma open_write_grows:
  assumes "butlast p = [] \<or> node_at w (butlast p) = Some Dir"
  shows "grows S w (fst (try_io (open_excl w p m) (\<lambda>w _. write_open w p c m)))"
proof (cases "node_at w p = None \<and> pj_fault w (pj_tick w) = nil")
  case True
  let ?v = "put_node p (File [] m) (pj_next w)"
  have put: "grows S w (put_node p n (pj_next (put_node p n' (pj_next w))))" for n n'
    using assms True tree_ok_replace [of w p n]
    by (auto simp: grows_def tree_ok_def)
  show ?thesis using True put
    by (auto simp: open_excl_def attempt_def try_io_def write_open_def split: option.splits)
next
  case False
  then show ?thesis
    by (auto simp: open_excl_def attempt_def try_io_def intro!: grows_same split: option.splits)
qed

lemma write_open_Inr: "write_open w p c m = (w', Inr u) \<Longrightarrow> node_at w' p = Some (File c m)"
  by (auto simp: write_open_def split: option.splits)

lemma truncate_write_grows:
  assumes "tree_ok w \<Longrightarrow> butlast p = [] \<or> node_at w (butlast p) = Some Dir"
    and "node_at w p \<noteq> Some Dir" "p \<in> S \<or> node_at w p = None"
  shows "grows S w (fst (try_io (attempt w (\<lambda>w. (put_node p (File [] m) w, Inr ()))) (\<lambda>w _. write_open w p c k)))"
proof -
  have "grows S w (put_node p n (pj_next (put_node p n' (pj_next w))))" for n n'
    using assms by (auto simp: grows_def tree_ok_def)
  moreover have "grows S w (pj_next w)" by (rule grows_same) simp
  ultimately show ?thesis
    by (auto simp: attempt_def try_io_def write_open_def split: option.splits)
qed

lemma write_file_grows:
  assumes "p \<in> S \<or> node_at w p = None"
  shows "grows S w (fst (write_file w p c m))"
proof (cases "node_at w p")
  case None
  show ?thesis
  proof (cases "butlast p \<noteq> [] \<and> node_at w (butlast p) \<noteq> Some Dir")
    case True
    with None show ?thesis by (simp add: write_file_def grows_same)
  next
    case False
    then have "butlast p = [] \<or> node_at w (butlast p) = Some Dir" by simp
    with None show ?thesis using truncate_write_grows [of w p S m c]
      by (simp add: write_file_def False del: de_Morgan_conj)
  qed
next
  case (Some n)
  show ?thesis
  proof (cases n)
    case (File c k)
    then show ?thesis using assms Some
      by (auto simp: write_file_def intro!: truncate_write_grows) (auto simp: tree_ok_def)
  qed (use Some in \<open>simp_all add: write_file_def grows_same\<close>)
qed

lemma write_file_Inr:
  assumes "write_file w p c m = (w', Inr u)" "node_at w p \<in> {None} \<union> {Some (File d k) |d k. True}"
  shows "\<exists>k. node_at w' p = Some (File c k)"
  using assms by (auto simp: write_file_def try_io_Inr attempt_def split: if_splits option.splits dest!: write_open_Inr)

lemma write_file_File:
  "write_file w p c m = (w', Inr u) \<Longrightarrow> node_at w p \<notin> {Some Symlink, Some Special} \<Longrightarrow>
     \<exists>k. node_at w' p = Some (File c k)"
proof -
  assume w: "write_file w p c m = (w', Inr u)" and n: "node_at w p \<notin> {Some Symlink, Some Special}"
  have "node_at w p \<noteq> Some Dir" using w by (auto simp: write_file_def attempt_def split: option.splits)
  then have "node_at w p \<in> {None} \<union> {Some (File d k) |d k. True}"
    using n by (cases "node_at w p"; cases "the (node_at w p)") auto
  then show ?thesis by (rule write_file_Inr [OF w])
qed

lemma write_file_other: "r \<noteq> q \<Longrightarrow> node_at (fst (write_file w q c m)) r = node_at w r"
  by (auto simp: write_file_def try_io_def attempt_def write_open_def split: option.splits node.splits)

lemma mkdirs_other: "\<not> prefix r (pre @ parts) \<Longrightarrow> node_at (fst (mkdirs w pre parts)) r = node_at w r"
proof (induction parts arbitrary: w pre)
  case (Cons part parts)
  have "r \<noteq> pre @ [part]" using Cons.prems by (auto simp: prefix_def)
  then show ?case using Cons.IH [of "pre @ [part]"] Cons.prems
    by (auto simp: Let_def split: option.splits node.splits)
qed simp

lemma mkdir_all_other: "\<not> prefix r dir \<Longrightarrow> node_at (fst (mkdir_all w dir)) r = node_at w r"
proof -
  assume r: "\<not> prefix r dir"
  then have "\<not> prefix r (take k dir)" for k using take_is_prefix [of k dir] prefix_order.trans by blast
  then show ?thesis using r by (auto simp: mkdir_all_def mkdirs_other split: option.split)
qed

interpretation kept_io: io_relation "\<lambda>w w'. node_at w' r = node_at w r" for r
  by unfold_locales simp_all

section \<open>Faults\<close>

text \<open>No operation changes which system calls fail.\<close>

lemma put_node_fields [simp]:
  "pj_fault (put_node p n w) = pj_fault w" "pj_tick (put_node p n w) = pj_tick w" "pj_done (put_node p n w) = pj_done w"
  "pj_fault (pj_next w) = pj_fault w" "pj_tick (pj_next w) = Suc (pj_tick w)" "pj_done (pj_next w) = pj_done w"
  by (simp_all add: put_node_def pj_next_def)

lemma attempt_fault: "pj_fault (fst (f (pj_next w))) = pj_fault w \<Longrightarrow> pj_fault (fst (attempt w f)) = pj_fault w"
  by (simp add: attempt_def split: option.split)

lemma faults_kept [simp]:
  "pj_fault (fst (lstat w p)) = pj_fault w" "pj_fault (fst (read_file w p)) = pj_fault w"
  "pj_fault (fst (write_open w p c m)) = pj_fault w"
  by (simp_all add: lstat_def read_file_def write_open_def attempt_fault split: option.split)

lemma mkdirs_fault: "pj_fault (fst (mkdirs w pre parts)) = pj_fault w"
  by (induction w pre parts rule: mkdirs.induct) (simp_all add: Let_def split: option.split node.split)

lemma mkdir_all_fault [simp]: "pj_fault (fst (mkdir_all w dir)) = pj_fault w"
  by (simp add: mkdir_all_def mkdirs_fault split: option.split)

lemma write_file_fault [simp]: "pj_fault (fst (write_file w p c m)) = pj_fault w"
  by (auto simp: write_file_def split: option.split node.split intro!: fault_io.seq attempt_fault)

section \<open>Plain paths\<close>

definition plain :: "string \<Rightarrow> bool" where
  "plain part \<longleftrightarrow> part \<noteq> [] \<and> part \<noteq> ''.'' \<and> part \<noteq> ''..''"

lemma clean_plain:
  assumes "list_all plain (Split p CHR ''/'')"
  shows "clean_rel p = Split p CHR ''/''"
proof -
  have "foldl clean_part acc parts = rev parts @ acc" if "list_all plain parts" for parts acc
    using that by (induction parts arbitrary: acc) (auto simp: clean_part_def plain_def)
  with assms show ?thesis by (simp add: clean_rel_def)
qed

lemma Split_Join_concat: "ps \<noteq> [] \<Longrightarrow> Split (Join ps [c]) c = concat (map (\<lambda>p. Split p c) ps)"
  by (induction ps "[c]" rule: Join.induct) (auto simp: Split_append_sep)

text \<open>The components of a joined path of plain parts.\<close>

lemma path_join_clean:
  assumes "ps \<noteq> []" "\<forall>p \<in> set ps. list_all plain (Split p CHR ''/'')"
  shows "clean_rel (path_join ps) = concat (map (\<lambda>p. Split p CHR ''/'') ps)"
    and "Split (path_join ps) CHR ''/'' = concat (map (\<lambda>p. Split p CHR ''/'') ps)"
proof -
  let ?s = "Join ps ''/''" and ?c = "concat (map (\<lambda>p. Split p CHR ''/'') ps)"
  have split: "Split ?s CHR ''/'' = ?c" using assms(1) by (rule Split_Join_concat)
  have "list_all plain ?c" using assms(2) by (auto simp: list_all_iff)
  then have "clean_rel ?s = ?c" using split clean_plain [of ?s] by simp
  then have "path_join ps = ?s" using Join_Split [of ?s "CHR ''/''"] split by (simp add: path_join_def)
  then show "clean_rel (path_join ps) = ?c" "Split (path_join ps) CHR ''/'' = ?c"
    using split \<open>clean_rel ?s = ?c\<close> by simp_all
qed

end
