(* ===== verification/Upgrade.thy ===== *)
theory Upgrade
  imports Project_Tree Artifacts
begin

text \<open>
  The command \<open>fgoths upgrade\<close> (\<open>internal/cli/upgrade.go\<close>, \<open>upgrade_baseline.go\<close>, the managed sources
  of \<open>internal/generator/generator.go\<close>): it plans the update of the framework-managed runtime files of
  a generated project and applies the plan, with a backup of every file it replaces.

  The temporary file of \<open>writeProjectFile\<close> has a random name and is removed at the end, so only its
  rename shows in the tree. The embedded files, JSON coding, the run of
  \<open>git merge-file\<close>, the parsed flags and the clock are parameters; printing is left out.
\<close>

section \<open>Paths inside the project\<close>

text \<open>The walk of \<open>safeProjectPath\<close> below the root: the node at the end, if there is one.\<close>

fun safe_walk :: "project \<Rightarrow> string list \<Rightarrow> string list \<Rightarrow> node option \<Rightarrow> project \<times> (string + node option)" where
  "safe_walk w pre [] info = (w, Inr info)"
| "safe_walk w pre (part # parts) info =
     (let here = pre @ [part]; name = Join here ''/'' in
      try_io (wrap_error (''inspect project path '' @ name) (lstat w here)) (\<lambda>w info.
        case info of
          None \<Rightarrow> (w, Inr None)
        | Some n \<Rightarrow>
            if n = Symlink then (w, Inl (''refusing to follow symlink in project path '' @ name))
            else if parts \<noteq> [] \<and> n \<noteq> Dir then
              (w, Inl (''project path component '' @ name @ '' is not a directory''))
            else safe_walk w here parts info))"

definition safeProjectPath :: "project \<Rightarrow> string \<Rightarrow> project \<times> (string + string list \<times> node option)" where
  "safeProjectPath w relPath =
     (let clean = clean_rel relPath in
      if HasPrefix relPath ''/'' \<or> clean = [] \<or> hd clean = ''..'' then
        (w, Inl (''unsafe project path '' @ Quote relPath))
      else try_io (safe_walk w [] clean None) (\<lambda>w info. (w, Inr (clean, info))))"

section \<open>Writing files\<close>

definition writeProjectFile :: "project \<Rightarrow> string \<Rightarrow> string \<Rightarrow> nat \<Rightarrow> project \<times> (string + unit)" where
  "writeProjectFile w relPath content mode =
     try_io (safeProjectPath w relPath) (\<lambda>w (path, info).
     try_io (mkdir_all w (butlast path)) (\<lambda>w _.
     try_io (safeProjectPath w relPath) (\<lambda>w _.
     try_io (attempt w (\<lambda>w. (w, Inr ()))) (\<lambda>w temp.
     try_io (attempt w (\<lambda>w. (w, Inr ()))) (\<lambda>w written.
     rename_over w path content mode)))))"

definition writeNewProjectFile :: "project \<Rightarrow> string \<Rightarrow> string \<Rightarrow> nat \<Rightarrow> project \<times> (string + unit)" where
  "writeNewProjectFile w relPath content mode =
     try_io (safeProjectPath w relPath) (\<lambda>w (path, info).
     if info \<noteq> None then (w, Inl (relPath @ '' already exists; refusing to overwrite it''))
     else
       try_io (mkdir_all w (butlast path)) (\<lambda>w _.
       try_io (safeProjectPath w relPath) (\<lambda>w _.
       try_io (open_excl w path mode) (\<lambda>w _.
       write_open w path content mode))))"

section \<open>The runtime shipped with the command\<close>

record upgradeManifest =
  um_Version :: string
  um_UpdatedAt :: string
  um_ProjectType :: string
  um_Architecture :: string
  um_Database :: string
  um_Features :: "string list"
  um_RuntimeFiles :: "(string, string) gomap"

definition no_manifest :: upgradeManifest where
  "no_manifest = \<lparr>um_Version = [], um_UpdatedAt = [], um_ProjectType = [], um_Architecture = [],
     um_Database = [], um_Features = [], um_RuntimeFiles = []\<rparr>"

text \<open>
  What is outside the source: the embedded baselines and templates, \<open>encoding/json\<close>, the steps of
  running \<open>git merge-file\<close> with its combined output and its exit code, the clock.
\<close>

record upgrade_env =
  ue_baseline_file :: "string \<Rightarrow> string + string"
  ue_template :: "string \<Rightarrow> string + string"
  ue_unmarshal :: "string \<Rightarrow> string + upgradeManifest"
  ue_marshal :: "upgradeManifest \<Rightarrow> string + string"
  ue_git_path :: "string + string"
  ue_workspace :: "string + string"
  ue_merge_input :: "string \<Rightarrow> error"
  ue_merge_file :: "string \<Rightarrow> string \<Rightarrow> string \<Rightarrow> string \<times> int"
  ue_stamp :: string
  ue_now :: string

definition latestRuntimeUpgradeVersion :: string where
  "latestRuntimeUpgradeVersion = ''1.4.1''"

definition supportedRuntimeUpgradeSources :: "string list" where
  "supportedRuntimeUpgradeSources = [''1.1.0'', ''1.2.0'', ''1.3.0'', ''1.4.0'']"

definition runtimeUpgradePaths :: "string list" where
  "runtimeUpgradePaths =
     [''pkg/runtime/server.go'', ''pkg/runtime/router.go'', ''pkg/runtime/proxy.go'',
      ''pkg/runtime/metrics.go'', ''pkg/runtime/hmr/hmr.go'', ''pkg/runtime/auth.go'']"

text \<open>A loop that stores a loaded file under its path, and stops at the first error.\<close>

fun load_files :: "('k \<Rightarrow> string + string) \<Rightarrow> ('k \<times> string) list \<Rightarrow> (string, string) gomap \<Rightarrow>
    string + (string, string) gomap" where
  "load_files load [] m = Inr m"
| "load_files load ((k, path) # ks) m =
     (case load k of Inl err \<Rightarrow> Inl err | Inr content \<Rightarrow> load_files load ks (gm_put path content m))"

definition runtimeUpgradeBaseline :: "upgrade_env \<Rightarrow> string \<Rightarrow> string + (string, string) gomap" where
  "runtimeUpgradeBaseline env version =
     (if version \<notin> set supportedRuntimeUpgradeSources then
        Inl (''no runtime upgrade baseline is available for v'' @ version @
          '' (supported sources: v1.1.0, v1.2.0, v1.3.0, v1.4.0)'')
      else load_files (\<lambda>path.
          case ue_baseline_file env (''upgrade/baselines/v'' @ version @ ''/'' @ path @ ''.txt'') of
            Inl err \<Rightarrow> Inl (''read embedded v'' @ version @ '' baseline for '' @ path @ '': '' @ err)
          | Inr content \<Rightarrow> Inr content)
        (map (\<lambda>p. (p, p)) runtimeUpgradePaths) [])"

definition managedRuntimeTemplates :: "(string, string) gomap" where
  "managedRuntimeTemplates =
     [(''pkg/runtime/router.go'', ''templates/base/pkg/runtime/router.go.tpl''),
      (''pkg/runtime/server.go'', ''templates/base/pkg/runtime/server.go.tpl''),
      (''pkg/runtime/proxy.go'', ''templates/base/pkg/runtime/proxy.go.tpl''),
      (''pkg/runtime/requestid.go'', ''templates/base/pkg/runtime/requestid.go.tpl''),
      (''pkg/runtime/metrics.go'', ''templates/base/pkg/runtime/metrics.go.tpl''),
      (''pkg/runtime/health.go'', ''templates/base/pkg/runtime/health.go.tpl''),
      (''pkg/runtime/hmr/hmr.go'', ''templates/base/pkg/runtime/hmr/hmr.go.tpl''),
      (''pkg/runtime/hmr/client.go'', ''templates/base/pkg/runtime/hmr/client.go.tpl''),
      (''pkg/runtime/hmr/codec.go'', ''templates/base/pkg/runtime/hmr/codec.go.tpl''),
      (''pkg/runtime/auth.go'', ''templates/features/jwt-auth/pkg/runtime/auth.go.tpl''),
      (''pkg/runtime/otel.go'', ''templates/features/otel/pkg/runtime/otel.go.tpl''),
      (''pkg/runtime/tls.go'', ''templates/features/mtls/pkg/runtime/tls.go.tpl''),
      (''pkg/runtime/identity.go'', ''templates/features/mtls/pkg/runtime/identity.go.tpl'')]"

definition ManagedRuntimeSources ::
    "((string, string) gomap \<Rightarrow> (string, string) gomap) \<Rightarrow> (string \<Rightarrow> string + string) \<Rightarrow>
     string + (string, string) gomap" where
  "ManagedRuntimeSources it template =
     load_files (\<lambda>templatePath. case template templatePath of
         Inl err \<Rightarrow> Inl (''read managed runtime template '' @ templatePath @ '': '' @ err)
       | Inr source \<Rightarrow>
           if Contains source ''{{'' then
             Inl (''managed runtime template '' @ templatePath @ '' contains unsupported template directives'')
           else Inr source)
       (map prod.swap (it managedRuntimeTemplates)) []"

section \<open>Merging\<close>

datatype merge_outcome = Merged string | MergeConflict string | MergeFailed string

definition mergeWithGit :: "upgrade_env \<Rightarrow> string \<Rightarrow> string \<Rightarrow> string \<Rightarrow> merge_outcome" where
  "mergeWithGit env current base target =
     (case ue_git_path env of
        Inl _ \<Rightarrow> MergeFailed ''git is required to merge locally edited runtime files''
      | Inr _ \<Rightarrow>
     (case ue_workspace env of
        Inl err \<Rightarrow> MergeFailed (''create merge workspace: '' @ err)
      | Inr dir \<Rightarrow>
     (case List.map_filter (ue_merge_input env) [''current.go'', ''base.go'', ''target.go''] of
        err # _ \<Rightarrow> MergeFailed (''write merge input: '' @ err)
      | [] \<Rightarrow>
          (let (output, code) = ue_merge_file env current base target in
           if code = 0 then Merged output
           else if code = 1 then MergeConflict output
           else MergeFailed (''git merge-file failed: '' @ TrimSpace output @ '': exit status '' @ Itoa code)))))"

section \<open>Planning\<close>

datatype upgrade_status = Current | Update | Merge | Conflict | Ignore

record upgradeFileAction =
  ac_path :: string
  ac_status :: upgrade_status
  ac_original :: string
  ac_content :: string
  ac_mode :: nat
  ac_conflict :: string
  ac_conflictTo :: string

record upgradeReport =
  re_from :: string
  re_to :: string
  re_actions :: "upgradeFileAction list"
  re_artifactIgnore :: "upgradeFileAction option"

definition upgradeArtifactIgnoreRules :: "string list" where
  "upgradeArtifactIgnoreRules = [''/upgrade-backups/'', ''/upgrade-conflicts/'']"

definition hasIgnoreRule :: "string \<Rightarrow> string \<Rightarrow> bool" where
  "hasIgnoreRule content rule \<longleftrightarrow> (\<exists>line \<in> set (Split content (CHR 0x0A)). TrimSpace line = rule)"

definition add_rule :: "string \<Rightarrow> string \<Rightarrow> string" where
  "add_rule content rule =
     (if hasIgnoreRule content rule then content
      else
        (let newline = (if Contains content [CHR 0x0D, CHR 0x0A] then [CHR 0x0D, CHR 0x0A] else [CHR 0x0A]);
             content = (if content \<noteq> [] \<and> \<not> HasSuffix content [CHR 0x0A] then content @ newline else content)
         in content @ rule @ newline))"

definition planUpgradeArtifactIgnore :: "project \<Rightarrow> project \<times> (string + upgradeFileAction option)" where
  "planUpgradeArtifactIgnore w =
     (let relPath = ''.fgoths/.gitignore'' in
      try_io (safeProjectPath w relPath) (\<lambda>w (path, info).
      try_io
        (case info of
           None \<Rightarrow> (w, Inr ([], 420))
         | Some (File _ m) \<Rightarrow>
             try_io (wrap_error (''read '' @ relPath) (read_file w path)) (\<lambda>w original. (w, Inr (original, m)))
         | Some _ \<Rightarrow> (w, Inl (relPath @ '' is not a regular file; refusing to update it'')))
        (\<lambda>w (original, mode).
         let content = foldl add_rule original upgradeArtifactIgnoreRules in
         (w, Inr (if content = original then None
                  else Some \<lparr>ac_path = relPath, ac_status = Ignore, ac_original = original,
                    ac_content = content, ac_mode = mode, ac_conflict = [], ac_conflictTo = []\<rparr>)))))"

text \<open>What is planned for one managed file that exists with contents \<open>current\<close>.\<close>

definition plan_action :: "upgrade_env \<Rightarrow> string \<Rightarrow> string \<Rightarrow> string \<Rightarrow> string \<Rightarrow> string \<Rightarrow> nat \<Rightarrow>
    string + upgradeFileAction" where
  "plan_action env to relPath base target current mode =
     (let action = \<lparr>ac_path = relPath, ac_status = Current, ac_original = current, ac_content = target,
        ac_mode = mode, ac_conflict = [], ac_conflictTo = []\<rparr> in
      if current = target then Inr (action\<lparr>ac_content := []\<rparr>)
      else if current = base then Inr (action\<lparr>ac_status := Update\<rparr>)
      else
        (case mergeWithGit env current base target of
           MergeConflict merged \<Rightarrow>
             Inr (action\<lparr>ac_status := Conflict, ac_conflict := merged,
               ac_conflictTo := path_join [''.fgoths'', ''upgrade-conflicts'', ''v'' @ to, relPath @ ''.merge'']\<rparr>)
         | MergeFailed err \<Rightarrow> Inl (''merge local changes in '' @ relPath @ '': '' @ err)
         | Merged merged \<Rightarrow>
             if current = merged then Inr (action\<lparr>ac_content := []\<rparr>)
             else Inr (action\<lparr>ac_status := Merge, ac_content := merged\<rparr>)))"

fun plan_files :: "upgrade_env \<Rightarrow> string \<Rightarrow> (string, string) gomap \<Rightarrow> (string, string) gomap \<Rightarrow>
    project \<Rightarrow> string list \<Rightarrow> upgradeFileAction list \<Rightarrow> project \<times> (string + upgradeFileAction list)" where
  "plan_files env to baseline targetSources w [] actions = (w, Inr actions)"
| "plan_files env to baseline targetSources w (relPath # paths) actions =
     (case (gm_get baseline relPath, gm_get targetSources relPath) of
        (Some base, Some target) \<Rightarrow>
          try_io (safeProjectPath w relPath) (\<lambda>w (targetPath, info).
          case info of
            None \<Rightarrow> plan_files env to baseline targetSources w paths actions
          | Some (File _ mode) \<Rightarrow>
              try_io (wrap_error (''read '' @ relPath) (read_file w targetPath)) (\<lambda>w current.
              try_io (w, plan_action env to relPath base target current mode) (\<lambda>w action.
              plan_files env to baseline targetSources w paths (actions @ [action])))
          | Some _ \<Rightarrow> (w, Inl (relPath @ '' is not a regular file; refusing to update it'')))
      | _ \<Rightarrow> (w, Inl (''runtime upgrade metadata is incomplete for '' @ relPath)))"

definition is_regular :: "node option \<Rightarrow> bool" where
  "is_regular info = (case info of Some (File _ _) \<Rightarrow> True | _ \<Rightarrow> False)"

text \<open>The version the project is at, from its metadata or from the flag.\<close>

definition upgrade_from :: "string \<Rightarrow> upgradeManifest \<Rightarrow> string + string" where
  "upgrade_from fromArg manifest =
     (let from' = TrimPrefix (TrimSpace fromArg) ''v'' in
      if um_Version manifest \<noteq> [] then
        (if from' \<noteq> [] \<and> from' \<noteq> um_Version manifest then
           Inl (''--from=v'' @ from' @ '' does not match project upgrade metadata v'' @ um_Version manifest)
         else Inr (um_Version manifest))
      else if from' = [] then
        Inl ''project has no FGOTHS upgrade metadata; specify its current version, e.g. --from=1.1.0''
      else Inr from')"

definition readManifest :: "upgrade_env \<Rightarrow> project \<Rightarrow> project \<times> (string + upgradeManifest)" where
  "readManifest env w =
     try_io (safeProjectPath w ''.fgoths/upgrade.json'') (\<lambda>w (manifestPath, manifestInfo).
     if manifestInfo = None then (w, Inr no_manifest)
     else
       try_io (wrap_error ''read upgrade metadata'' (read_file w manifestPath)) (\<lambda>w data.
       wrap_error ''parse .fgoths/upgrade.json'' (w, ue_unmarshal env data)))"

definition checkProject :: "string \<Rightarrow> project \<Rightarrow> project \<times> (string + unit)" where
  "checkProject rootDir w =
     try_io (attempt w (\<lambda>w. (w, case pj_root w of
        None \<Rightarrow> Inl ''project directory is unavailable: no such file or directory''
      | Some Dir \<Rightarrow> Inr ()
      | Some _ \<Rightarrow> Inl (Quote rootDir @ '' is not a directory'')))) (\<lambda>w _.
     try_io (safeProjectPath w ''go.mod'') (\<lambda>w (_, goModInfo).
     if \<not> is_regular goModInfo then
       (w, Inl (Quote rootDir @ '' is not a generated Go project (go.mod not found)''))
     else
       try_io (safeProjectPath w ''pkg/runtime/server.go'') (\<lambda>w (_, runtimeInfo).
       if \<not> is_regular runtimeInfo then
         (w, Inl (Quote rootDir @ '' has no pkg/runtime/server.go; this command only upgrades embedded FGOTHS runtimes''))
       else (w, Inr ()))))"

definition planRuntimeUpgrade ::
    "((string, string) gomap \<Rightarrow> (string, string) gomap) \<Rightarrow> upgrade_env \<Rightarrow> string \<Rightarrow> project \<Rightarrow> string \<Rightarrow> string \<Rightarrow>
     project \<times> (string + upgradeReport)" where
  "planRuntimeUpgrade it env rootDir w fromArg to =
     try_io (checkProject rootDir w) (\<lambda>w _.
     try_io (readManifest env w) (\<lambda>w manifest.
     try_io (w, upgrade_from fromArg manifest) (\<lambda>w from'.
     let versions = ''unsupported runtime upgrade v'' @ from' @ '' -> v'' @ to in
     if from' = to then
       (w, Inr \<lparr>re_from = from', re_to = to, re_actions = [], re_artifactIgnore = None\<rparr>)
     else if to \<noteq> latestRuntimeUpgradeVersion then
       (w, Inl (versions @ '' (supported target: v'' @ latestRuntimeUpgradeVersion @ '')''))
     else
       try_io (wrap_error versions (w, runtimeUpgradeBaseline env from')) (\<lambda>w baseline.
       try_io (planUpgradeArtifactIgnore w) (\<lambda>w ignore.
       try_io (wrap_error ''load target runtime sources'' (w, ManagedRuntimeSources it (ue_template env))) (\<lambda>w targetSources.
       try_io (plan_files env to baseline targetSources w runtimeUpgradePaths []) (\<lambda>w actions.
       (w, Inr \<lparr>re_from = from', re_to = to, re_actions = actions, re_artifactIgnore = ignore\<rparr>))))))))"

section \<open>Applying\<close>

definition changed_error :: "string \<Rightarrow> string" where
  "changed_error path = path @ '' changed after the upgrade plan was created; no content was written''"

text \<open>
  The steps that replacing a file shares: reading it again, the backup of what was read, and the
  write. The kind of node has been checked by the caller.
\<close>

definition read_planned :: "project \<Rightarrow> string list \<Rightarrow> upgradeFileAction \<Rightarrow> string \<Rightarrow> project \<times> (string + string)" where
  "read_planned w path action purpose =
     try_io (wrap_error (''read '' @ ac_path action @ purpose) (read_file w path)) (\<lambda>w original.
     if original \<noteq> ac_original action then (w, Inl (changed_error (ac_path action)))
     else (w, Inr original))"

definition replace_file :: "project \<Rightarrow> string \<Rightarrow> string \<Rightarrow> upgradeFileAction \<Rightarrow> string list \<Rightarrow> nat \<Rightarrow>
    project \<times> (string + unit)" where
  "replace_file w verb backupRoot action path perm =
     try_io (read_planned w path action '' before update'') (\<lambda>w original.
     let backupPath = path_join [backupRoot, ac_path action] in
     try_io (wrap_error (''back up '' @ ac_path action) (writeNewProjectFile w backupPath original perm)) (\<lambda>w _.
     wrap_error (verb @ ac_path action @ '' (backup at '' @ backupPath @ '')'')
       (writeProjectFile w (ac_path action) (ac_content action) (ac_mode action))))"

definition applyUpgradeArtifactIgnore :: "project \<Rightarrow> string \<Rightarrow> upgradeFileAction \<Rightarrow> project \<times> (string + unit)" where
  "applyUpgradeArtifactIgnore w backupRoot action =
     try_io (safeProjectPath w (ac_path action)) (\<lambda>w (path, info).
     case info of
       None \<Rightarrow>
         if ac_original action \<noteq> [] then (w, Inl (changed_error (ac_path action)))
         else wrap_error (''write '' @ ac_path action)
           (writeNewProjectFile w (ac_path action) (ac_content action) (ac_mode action))
     | Some (File _ perm) \<Rightarrow> replace_file w ''write '' backupRoot action path perm
     | Some _ \<Rightarrow> (w, Inl (changed_error (ac_path action))))"

text \<open>A merge candidate that cannot be written is accepted if it is there already.\<close>

definition save_candidate :: "project \<Rightarrow> upgradeFileAction \<Rightarrow> project \<times> (string + unit)" where
  "save_candidate w action =
     (case writeNewProjectFile w (ac_conflictTo action) (ac_conflict action) 384 of
        (w, Inr _) \<Rightarrow> (w, Inr ())
      | (w, Inl err) \<Rightarrow>
          (let failed = Inl (''save merge candidate for '' @ ac_path action @ '': '' @ err) in
           case safeProjectPath w (ac_conflictTo action) of
             (w, Inr (candidatePath, Some _)) \<Rightarrow>
               (case read_file w candidatePath of
                  (w, Inr existing) \<Rightarrow> (w, if existing = ac_conflict action then Inr () else failed)
                | (w, Inl _) \<Rightarrow> (w, failed))
           | (w, _) \<Rightarrow> (w, failed)))"

definition apply_action :: "project \<Rightarrow> string \<Rightarrow> nat \<Rightarrow> upgradeFileAction \<Rightarrow> project \<times> (string + nat)" where
  "apply_action w backupRoot conflicts action =
     (if ac_status action \<in> {Update, Merge} then
        try_io (safeProjectPath w (ac_path action)) (\<lambda>w (targetPath, info).
        case info of
          Some (File _ perm) \<Rightarrow>
            try_io (replace_file w ''write updated '' backupRoot action targetPath perm) (\<lambda>w _.
            (w, Inr conflicts))
        | _ \<Rightarrow>
            (w, Inl (ac_path action @ '' changed while upgrade was being applied; no content was written'')))
      else if ac_status action = Conflict then
        try_io (safeProjectPath w (ac_path action)) (\<lambda>w (originalPath, _).
        try_io (read_planned w originalPath action '' before saving merge candidate'') (\<lambda>w original.
        try_io (save_candidate w action) (\<lambda>w _.
        (w, Inr (conflicts + 1)))))
      else (w, Inr conflicts))"

fun apply_actions :: "project \<Rightarrow> string \<Rightarrow> nat \<Rightarrow> upgradeFileAction list \<Rightarrow> project \<times> (string + nat)" where
  "apply_actions w backupRoot conflicts [] = (w, Inr conflicts)"
| "apply_actions w backupRoot conflicts (action # actions) =
     try_io (apply_action w backupRoot conflicts action) (\<lambda>w conflicts.
     apply_actions w backupRoot conflicts actions)"

text \<open>The fingerprints: of the shipped sources, for the managed files the project has.\<close>

fun record_hashes :: "(string, string) gomap \<Rightarrow> project \<Rightarrow> string list \<Rightarrow> (string, string) gomap \<Rightarrow>
    project \<times> (string + (string, string) gomap)" where
  "record_hashes sources w [] hashes = (w, Inr hashes)"
| "record_hashes sources w (relPath # paths) hashes =
     try_io (safeProjectPath w relPath) (\<lambda>w (_, info).
     record_hashes sources w paths
       (if info = None then AList.delete relPath hashes
        else gm_put relPath (sha256Hex (gm_getd [] sources relPath)) hashes))"

text \<open>The metadata: loaded, brought up to date and encoded, and stored with a backup.\<close>

definition loadMetadata :: "upgrade_env \<Rightarrow> project \<Rightarrow> project \<times> (string + node option \<times> string \<times> upgradeManifest)" where
  "loadMetadata env w =
     try_io (safeProjectPath w ''.fgoths/upgrade.json'') (\<lambda>w (metadataPath, metadataInfo).
     case metadataInfo of
       None \<Rightarrow> (w, Inr (None, [], no_manifest))
     | Some _ \<Rightarrow>
         try_io (wrap_error ''read existing upgrade metadata'' (read_file w metadataPath)) (\<lambda>w original.
         try_io (wrap_error ''parse existing upgrade metadata'' (w, ue_unmarshal env original)) (\<lambda>w metadata.
         (w, Inr (metadataInfo, original, metadata)))))"

definition encodeMetadata ::
    "((string, string) gomap \<Rightarrow> (string, string) gomap) \<Rightarrow> upgrade_env \<Rightarrow> project \<Rightarrow> string \<Rightarrow> upgradeManifest \<Rightarrow>
     project \<times> (string + string)" where
  "encodeMetadata it env w to metadata =
     try_io (wrap_error ''load runtime sources for upgrade metadata'' (w, ManagedRuntimeSources it (ue_template env))) (\<lambda>w sources.
     try_io (record_hashes sources w runtimeUpgradePaths (um_RuntimeFiles metadata)) (\<lambda>w hashes.
     wrap_error ''encode upgrade metadata'' (w, ue_marshal env
       (metadata\<lparr>um_Version := to, um_UpdatedAt := ue_now env, um_RuntimeFiles := hashes\<rparr>))))"

definition storeMetadata :: "project \<Rightarrow> string \<Rightarrow> node option \<Rightarrow> string \<Rightarrow> string \<Rightarrow> project \<times> (string + unit)" where
  "storeMetadata w backupRoot metadataInfo original encoded =
     try_io
       (case metadataInfo of
          Some (File _ perm) \<Rightarrow>
            wrap_error ''back up existing upgrade metadata''
              (writeNewProjectFile w (path_join [backupRoot, ''.fgoths'', ''upgrade.json'']) original perm)
        | _ \<Rightarrow> (w, Inr ()))
       (\<lambda>w _.
     wrap_error ''write upgrade metadata''
       (writeProjectFile w ''.fgoths/upgrade.json'' (encoded @ [CHR 0x0A]) 420))"

definition applyMetadata ::
    "((string, string) gomap \<Rightarrow> (string, string) gomap) \<Rightarrow> upgrade_env \<Rightarrow> project \<Rightarrow> string \<Rightarrow> string \<Rightarrow>
     project \<times> (string + unit)" where
  "applyMetadata it env w backupRoot to =
     try_io (loadMetadata env w) (\<lambda>w (metadataInfo, original, metadata).
     try_io (encodeMetadata it env w to metadata) (\<lambda>w encoded.
     storeMetadata w backupRoot metadataInfo original encoded))"

definition backup_root :: "upgrade_env \<Rightarrow> string \<Rightarrow> string" where
  "backup_root env to = path_join [''.fgoths'', ''upgrade-backups'', ''v'' @ to @ ''-'' @ ue_stamp env]"

text \<open>The number of conflicts; on an error the callers do not use it.\<close>

definition applyRuntimeUpgrade ::
    "((string, string) gomap \<Rightarrow> (string, string) gomap) \<Rightarrow> upgrade_env \<Rightarrow> project \<Rightarrow> upgradeReport \<Rightarrow>
     project \<times> (string + nat)" where
  "applyRuntimeUpgrade it env w report =
     (let backupRoot = backup_root env (re_to report) in
      try_io
        (case re_artifactIgnore report of
           None \<Rightarrow> (w, Inr ())
         | Some action \<Rightarrow> applyUpgradeArtifactIgnore w backupRoot action)
        (\<lambda>w _.
      try_io (apply_actions w backupRoot 0 (re_actions report)) (\<lambda>w conflicts.
      if conflicts > 0 then (w, Inr conflicts)
      else
        try_io (applyMetadata it env w backupRoot (re_to report)) (\<lambda>w _.
        (w, Inr conflicts)))))"

section \<open>The command\<close>

text \<open>
  The version of the command (\<open>internal/cli/version.go\<close>): the one stamped at build time if it is a
  release, else the one of the module in the build information, if there is any.
\<close>

definition IsReleaseVersion :: "string \<Rightarrow> bool" where
  "IsReleaseVersion version \<longleftrightarrow>
     (let parts = Split (TrimPrefix version ''v'') CHR ''.'' in
      length parts = 3 \<and>
      list_all (\<lambda>part. part \<noteq> [] \<and> list_all (\<lambda>digit. CHR ''0'' \<le> digit \<and> digit \<le> CHR ''9'') part) parts)"

definition frameworkVersion :: "string \<Rightarrow> string option \<Rightarrow> string" where
  "frameworkVersion Version buildInfo =
     (if IsReleaseVersion Version then Version
      else
        (case buildInfo of
           None \<Rightarrow> Version
         | Some mainVersion \<Rightarrow>
             (let version = TrimPrefix mainVersion ''v'' in
              if IsReleaseVersion version then version else Version)))"

text \<open>\<open>RunUpgrade\<close>; \<open>cliVersion\<close> is the \<open>frameworkVersion\<close>, \<open>resolve\<close> finds the directory on the disk.\<close>

datatype upgrade_args = Help | BadFlags string
  | Flags (fl_dir: string) (fl_from: string) (fl_apply: bool) (fl_narg: nat)

definition RunUpgrade ::
    "((string, string) gomap \<Rightarrow> (string, string) gomap) \<Rightarrow> upgrade_env \<Rightarrow> string \<Rightarrow> (string \<Rightarrow> string + string) \<Rightarrow>
     project \<Rightarrow> upgrade_args \<Rightarrow> project \<times> error" where
  "RunUpgrade it env cliVersion resolve w args =
     (if cliVersion \<noteq> ''0.0.0-dev'' \<and> cliVersion \<noteq> latestRuntimeUpgradeVersion then
        (w, errorf (''this CLI contains the v'' @ latestRuntimeUpgradeVersion @
          '' runtime upgrade path, but reports v'' @ cliVersion))
      else
        (case args of
           Help \<Rightarrow> (w, nil)
         | BadFlags err \<Rightarrow> (w, errorf err)
         | Flags dir from' apply_it narg \<Rightarrow>
             if narg \<noteq> 0 then (w, errorf ''upgrade does not accept positional arguments'')
             else
               (case resolve dir of
                  Inl err \<Rightarrow> (w, errorf err)
                | Inr rootDir \<Rightarrow>
                    (case planRuntimeUpgrade it env rootDir w from' latestRuntimeUpgradeVersion of
                       (w, Inl err) \<Rightarrow> (w, errorf err)
                     | (w, Inr report) \<Rightarrow>
                         if re_from report = re_to report \<or> \<not> apply_it then (w, nil)
                         else
                           (case applyRuntimeUpgrade it env w report of
                              (w, Inl err) \<Rightarrow> (w, errorf err)
                            | (w, Inr conflicts) \<Rightarrow>
                                if conflicts > 0 then
                                  (w, errorf (Itoa (int conflicts) @ '' local conflict(s) were preserved; resolve the reported merge files and rerun upgrade''))
                                else (w, nil))))))"

end
