(* ===== verification/Upgrade_Safety.thy ===== *)
theory Upgrade_Safety
  imports Upgrade
begin

text \<open>
  What the upgrade command does to a project: dry runs and failing plans change nothing, no run loses
  the contents of a file, whatever system call fails, and a run without conflicts installs what was
  planned and records the version, so that the next run has nothing to do.
\<close>

section \<open>Checked paths and writes\<close>

lemma safe_walk_same [simp]: "pj_nodes (fst (safe_walk w pre parts info)) = pj_nodes w"
proof (induction w pre parts info rule: safe_walk.induct)
  case (2 w pre part parts info)
  then show ?case by (auto simp: Let_def intro!: try_io_same dest!: lstat_Inr split: option.splits)
qed simp

lemma safe_walk_Inr:
  "safe_walk w pre parts info = (w', Inr i) \<Longrightarrow> tree_ok w \<Longrightarrow> parts \<noteq> [] \<Longrightarrow> i = node_at w (pre @ parts)"
proof (induction parts arbitrary: w pre info)
  case (Cons part parts)
  let ?here = "pre @ [part]"
  obtain w1 j where l: "lstat w ?here = (w1, Inr j)"
    using Cons.prems(1) by (auto simp: Let_def try_io_Inr)
  then have nodes: "pj_nodes w1 = pj_nodes w" and j: "j = node_at w ?here"
    using lstat_Inr [OF l] by auto
  show ?case
  proof (cases "j = None \<or> parts = []")
    case True
    then show ?thesis using Cons.prems l j tree_ok_absent [of w ?here parts]
      by (auto simp: Let_def try_io_Inr split: if_splits option.splits)
  next
    case False
    then have "safe_walk w1 ?here parts j = (w', Inr i)"
      using Cons.prems(1) l by (auto simp: Let_def try_io_Inr split: if_splits)
    moreover have "tree_ok w1" using Cons.prems(2) nodes by (simp add: tree_ok_def)
    ultimately show ?thesis using Cons.IH [of w1 ?here j] False nodes by simp
  qed
qed simp

lemma safeProjectPath_same [simp]: "pj_nodes (fst (safeProjectPath w p)) = pj_nodes w"
  by (auto simp: safeProjectPath_def Let_def intro!: try_io_same)

lemma safeProjectPath_Inr:
  assumes "safeProjectPath w p = (w', Inr (path, info))"
  shows "path = clean_rel p" "pj_nodes w' = pj_nodes w" "tree_ok w \<Longrightarrow> info = node_at w path"
proof -
  from assms have "clean_rel p \<noteq> []" and walk: "safe_walk w [] (clean_rel p) None = (w', Inr info)"
    and "path = clean_rel p"
    by (auto simp: safeProjectPath_def Let_def try_io_Inr split: if_splits)
  then show "path = clean_rel p" "tree_ok w \<Longrightarrow> info = node_at w path"
    using safe_walk_Inr [OF walk] by auto
  show "pj_nodes w' = pj_nodes w" using safe_walk_same [of w "[]" "clean_rel p" None] walk by simp
qed

text \<open>What the two ways of writing have done when they reach the last system call.\<close>

lemma prepared:
  assumes "mkdir_all w (butlast path) = (w1, Inr u)" "safeProjectPath w1 p = (w2, Inr x)"
  shows "butlast path = [] \<or> node_at w2 (butlast path) = Some Dir"
  using mkdir_all_Inr [OF assms(1)] safeProjectPath_Inr(2) [of w1 p w2 "fst x" "snd x"] assms(2) by auto

lemma writeProjectFile_grows:
  assumes "clean_rel p \<in> S"
  shows "grows S w (fst (writeProjectFile w p c m))"
  unfolding writeProjectFile_def
  apply (rule grows_io.seq, simp add: grows_same)
  apply (clarsimp dest!: safeProjectPath_Inr(1))
  apply (rule grows_io.seq, simp add: mkdir_all_grows)
  apply (rule grows_io.seq, simp add: grows_same)
  apply (rule grows_io.seq, simp add: grows_same)
  apply (rule grows_io.seq, simp add: grows_same)
  apply (rule rename_over_grows)
  using assms by (auto dest!: prepared attempt_unit_Inr)

lemma writeNewProjectFile_grows: "grows S w (fst (writeNewProjectFile w p c m))"
  unfolding writeNewProjectFile_def
  apply (rule grows_io.seq, simp add: grows_same)
  apply (clarsimp)
  apply (rule grows_io.seq, simp add: mkdir_all_grows)
  apply (rule grows_io.seq, simp add: grows_same)
  apply (rule open_write_grows)
  by (auto dest: prepared)

lemma writeProjectFile_Inr: "writeProjectFile w p c m = (w', Inr u) \<Longrightarrow> node_at w' (clean_rel p) = Some (File c m)"
  unfolding writeProjectFile_def
  by (auto simp: try_io_Inr dest!: safeProjectPath_Inr(1) dest: rename_over_Inr)

lemma writeNewProjectFile_Inr:
  "writeNewProjectFile w p c m = (w', Inr u) \<Longrightarrow> node_at w' (clean_rel p) = Some (File c m)"
  unfolding writeNewProjectFile_def
  by (auto simp: try_io_Inr dest!: safeProjectPath_Inr(1) dest: write_open_Inr split: if_splits)

section \<open>Backups\<close>

text \<open>
  Between two states of a project every node is kept, or it is a file at one of the paths \<open>W\<close> whose
  copy, contents and mode, is in the later state below the directory \<open>B\<close>.
\<close>

definition backed_up :: "string list \<Rightarrow> string list set \<Rightarrow> project \<Rightarrow> project \<Rightarrow> bool" where
  "backed_up B W w w' \<longleftrightarrow> (tree_ok w \<longrightarrow> tree_ok w' \<and>
     (\<forall>p n. node_at w p = Some n \<longrightarrow> node_at w' p = Some n \<or>
       (p \<in> W \<and> (\<exists>c m. n = File c m) \<and> node_at w' (B @ p) = Some n)))"

lemma grows_backed_up: "grows {} w w' \<Longrightarrow> backed_up B W w w'"
  by (auto simp: grows_def backed_up_def)

lemma same_backed_up: "pj_nodes w' = pj_nodes w \<Longrightarrow> backed_up B W w w'"
  by (rule grows_backed_up) (rule grows_same)

lemma backed_up_refl [simp]: "backed_up B W w w"
  by (rule same_backed_up) simp

lemma backed_up_trans:
  assumes "backed_up B W w w'" "backed_up B W w' w''" "\<forall>p. B @ p \<notin> W"
  shows "backed_up B W w w''"
  using assms unfolding backed_up_def by metis

lemma try_io_backed_up:
  assumes "\<forall>p. B @ p \<notin> W" "backed_up B W w (fst m)"
    and "\<And>w' x. m = (w', Inr x) \<Longrightarrow> backed_up B W w' (fst (k w' x))"
  shows "backed_up B W w (fst (try_io m k))"
  using assms by (intro try_io_rel [where R = "backed_up B W"]) (auto intro: backed_up_trans)

lemma read_planned_same [simp]: "pj_nodes (fst (read_planned w path a purpose)) = pj_nodes w"
  by (auto simp: read_planned_def intro!: try_io_same)

lemma read_planned_Inr:
  "read_planned w path a purpose = (w', Inr c) \<Longrightarrow>
     pj_nodes w' = pj_nodes w \<and> c = ac_original a \<and> (\<exists>m. node_at w path = Some (File c m))"
  by (auto simp: read_planned_def try_io_Inr dest!: read_file_Inr split: if_splits)

text \<open>The step all replacements share: a copy first, then the new contents.\<close>

lemma backup_then_write:
  assumes "tree_ok w \<Longrightarrow> node_at w path = Some (File original perm)"
    and new: "writeNewProjectFile w backupPath original perm = (w', Inr u)"
    and "clean_rel backupPath = B @ path" "path \<in> W" "\<forall>p. B @ p \<notin> W"
    and "path = clean_rel relPath"
  shows "backed_up B W w (fst (writeProjectFile w' relPath c m))"
proof -
  let ?w = "fst (writeProjectFile w' relPath c m)"
  have copied: "node_at w' (B @ path) = Some (File original perm)"
    using writeNewProjectFile_Inr [OF new] assms(3) by simp
  have g: "grows {} w w'" using writeNewProjectFile_grows [of "{}" w backupPath original perm] new by simp
  have g': "grows {path} w' ?w" using assms(6) by (intro writeProjectFile_grows) simp
  have ne: "B @ path \<noteq> path" using assms(4,5) by metis
  show ?thesis unfolding backed_up_def
  proof (intro impI conjI allI)
    assume ok: "tree_ok w"
    then show "tree_ok ?w" using g g' by (simp add: grows_def)
    fix p n assume n: "node_at w p = Some n"
    then have n': "node_at w' p = Some n" using g ok by (auto simp: grows_def)
    have ok': "tree_ok w'" using g ok by (simp add: grows_def)
    show "node_at ?w p = Some n \<or> p \<in> W \<and> (\<exists>c m. n = File c m) \<and> node_at ?w (B @ p) = Some n"
    proof (cases "p = path")
      case True
      then show ?thesis using assms(1,4) ok n copied g' ok' ne by (auto simp: grows_def)
    next
      case False
      then show ?thesis using g' ok' n' by (auto simp: grows_def)
    qed
  qed
qed

lemma replace_file_backed_up:
  assumes "tree_ok w \<Longrightarrow> \<exists>c. node_at w path = Some (File c perm)"
    and "clean_rel (path_join [backupRoot, ac_path a]) = B @ path" "path \<in> W" "\<forall>p. B @ p \<notin> W"
    and "path = clean_rel (ac_path a)"
  shows "backed_up B W w (fst (replace_file w verb backupRoot a path perm))"
  unfolding replace_file_def
proof (rule try_io_backed_up)
  fix w1 original assume read: "read_planned w path a '' before update'' = (w1, Inr original)"
  then have same: "pj_nodes w1 = pj_nodes w" and c: "\<exists>m. node_at w1 path = Some (File original m)"
    by (auto dest: read_planned_Inr)
  then have here: "tree_ok w1 \<Longrightarrow> node_at w1 path = Some (File original perm)"
    using assms(1) by (auto simp: tree_ok_def)
  let ?bp = "path_join [backupRoot, ac_path a]"
  show "backed_up B W w1 (fst (let backupPath = ?bp in
      try_io (wrap_error (''back up '' @ ac_path a) (writeNewProjectFile w1 backupPath original perm)) (\<lambda>w _.
      wrap_error (verb @ ac_path a @ '' (backup at '' @ backupPath @ '')'')
        (writeProjectFile w (ac_path a) (ac_content a) (ac_mode a)))))"
    unfolding Let_def
  proof (rule try_io_rel [where R = "backed_up B W"])
    show "backed_up B W w1 (fst (wrap_error (''back up '' @ ac_path a) (writeNewProjectFile w1 ?bp original perm)))"
      by (simp add: grows_backed_up writeNewProjectFile_grows)
    fix w2 u
    assume "wrap_error (''back up '' @ ac_path a) (writeNewProjectFile w1 ?bp original perm) = (w2, Inr u)"
    then have new: "writeNewProjectFile w1 ?bp original perm = (w2, Inr u)" by simp
    show "backed_up B W w1 (fst (wrap_error (verb @ ac_path a @ '' (backup at '' @ ?bp @ '')'')
        (writeProjectFile w2 (ac_path a) (ac_content a) (ac_mode a))))"
      using backup_then_write [OF here new assms(2-5)] by simp
  qed
qed (use assms(4) in \<open>simp_all add: same_backed_up\<close>)

text \<open>The files the command may replace, and the directory of its backups.\<close>

definition upgrade_files :: "string list" where
  "upgrade_files = ''.fgoths/.gitignore'' # ''.fgoths/upgrade.json'' # runtimeUpgradePaths"

definition upgrade_writes :: "string list set" where
  "upgrade_writes = set (map clean_rel upgrade_files)"

definition backup_dir :: "upgrade_env \<Rightarrow> string \<Rightarrow> string list" where
  "backup_dir env to = [''.fgoths'', ''upgrade-backups'', ''v'' @ to @ ''-'' @ ue_stamp env]"

definition report_ok :: "upgradeReport \<Rightarrow> bool" where
  "report_ok r \<longleftrightarrow> (\<forall>a \<in> set (re_actions r). ac_path a \<in> set runtimeUpgradePaths) \<and>
     (\<forall>a. re_artifactIgnore r = Some a \<longrightarrow> ac_path a = ''.fgoths/.gitignore'')"

lemma upgrade_files_split:
  "map (\<lambda>p. Split p CHR ''/'') upgrade_files =
     [[''.fgoths'', ''.gitignore''], [''.fgoths'', ''upgrade.json''], [''pkg'', ''runtime'', ''server.go''],
      [''pkg'', ''runtime'', ''router.go''], [''pkg'', ''runtime'', ''proxy.go''],
      [''pkg'', ''runtime'', ''metrics.go''], [''pkg'', ''runtime'', ''hmr'', ''hmr.go''],
      [''pkg'', ''runtime'', ''auth.go'']]"
  by (simp add: upgrade_files_def runtimeUpgradePaths_def)

lemma upgrade_files_plain: "p \<in> set upgrade_files \<Longrightarrow> list_all plain (Split p CHR ''/'')"
proof -
  have "\<forall>parts \<in> set (map (\<lambda>p. Split p CHR ''/'') upgrade_files). list_all plain parts"
    unfolding upgrade_files_split by (simp add: plain_def)
  then show "p \<in> set upgrade_files \<Longrightarrow> list_all plain (Split p CHR ''/'')" by simp
qed

lemma upgrade_files_clean: "p \<in> set upgrade_files \<Longrightarrow> clean_rel p = Split p CHR ''/''"
  by (simp add: clean_plain upgrade_files_plain)

lemma upgrade_writes_eq: "upgrade_writes = set (map (\<lambda>p. Split p CHR ''/'') upgrade_files)"
  by (auto simp: upgrade_writes_def upgrade_files_clean image_iff)

lemma backups_not_written: "backup_dir env to @ p \<notin> upgrade_writes"
  unfolding upgrade_writes_eq upgrade_files_split by (simp add: backup_dir_def)

interpretation backup_io: io_relation "backed_up (backup_dir env to) upgrade_writes" for env to
proof unfold_locales
  fix w w' w'' :: project
  show "pj_nodes w' = pj_nodes w \<Longrightarrow> backed_up (backup_dir env to) upgrade_writes w w'"
    by (rule same_backed_up)
  assume "backed_up (backup_dir env to) upgrade_writes w w'" "backed_up (backup_dir env to) upgrade_writes w' w''"
  then show "backed_up (backup_dir env to) upgrade_writes w w''"
    using backups_not_written by (blast intro: backed_up_trans)
qed

abbreviation no_slash :: "string \<Rightarrow> bool" where
  "no_slash s \<equiv> CHR ''/'' \<notin> set s"

lemma backup_root_split:
  assumes "no_slash to" "no_slash (ue_stamp env)"
  shows "Split (backup_root env to) CHR ''/'' = backup_dir env to" "list_all plain (backup_dir env to)"
proof -
  have last: "Split (''v'' @ to @ ''-'' @ ue_stamp env) CHR ''/'' = [''v'' @ to @ ''-'' @ ue_stamp env]"
    using assms by (intro Split_no_sep) auto
  have plain: "plain (''v'' @ to @ ''-'' @ ue_stamp env)" by (simp add: plain_def)
  show "Split (backup_root env to) CHR ''/'' = backup_dir env to"
    unfolding backup_root_def
    by (subst path_join_clean(2)) (use last plain in \<open>simp_all add: backup_dir_def plain_def\<close>)
  show "list_all plain (backup_dir env to)" using plain by (simp add: backup_dir_def plain_def)
qed

lemma backup_path_clean:
  assumes "no_slash to" "no_slash (ue_stamp env)" "p \<in> set upgrade_files"
  shows "clean_rel (path_join [backup_root env to, p]) = backup_dir env to @ clean_rel p"
  using assms backup_root_split [of to env]
  by (subst path_join_clean(1)) (auto simp: upgrade_files_clean upgrade_files_plain)

lemma metadata_backup_clean:
  assumes "no_slash to" "no_slash (ue_stamp env)"
  shows "clean_rel (path_join [backup_root env to, ''.fgoths'', ''upgrade.json'']) =
    backup_dir env to @ clean_rel ''.fgoths/upgrade.json''"
  using assms backup_root_split [of to env] upgrade_files_clean [of "''.fgoths/upgrade.json''"]
  by (subst path_join_clean(1)) (auto simp: plain_def upgrade_files_def)

section \<open>No run loses contents\<close>

lemma reads_same:
  "safeProjectPath w p = (w', x) \<Longrightarrow> pj_nodes w' = pj_nodes w"
  "read_file w path = (w', y) \<Longrightarrow> pj_nodes w' = pj_nodes w"
  using safeProjectPath_same [of w p] read_file_same [of w path] by simp_all

lemma save_candidate_nodes:
  "pj_nodes (fst (save_candidate w a)) =
     pj_nodes (fst (writeNewProjectFile w (ac_conflictTo a) (ac_conflict a) 384))"
  by (auto simp: save_candidate_def Let_def split: prod.splits sum.splits option.splits dest!: reads_same)

lemma save_candidate_grows: "grows S w (fst (save_candidate w a))"
  using writeNewProjectFile_grows grows_same [OF save_candidate_nodes] grows_trans by blast

lemma apply_replace_backed_up:
  assumes "no_slash to" "no_slash (ue_stamp env)" "ac_path a \<in> set upgrade_files"
    and "safeProjectPath w (ac_path a) = (w', Inr (path, Some (File c perm)))"
  shows "backed_up (backup_dir env to) upgrade_writes w'
    (fst (replace_file w' verb (backup_root env to) a path perm))"
proof (rule replace_file_backed_up)
  show "tree_ok w' \<Longrightarrow> \<exists>c. node_at w' path = Some (File c perm)"
    using safeProjectPath_Inr [OF assms(4)] by (auto simp: tree_ok_def dest: sym)
  show path: "path = clean_rel (ac_path a)" using safeProjectPath_Inr [OF assms(4)] by simp
  show "clean_rel (path_join [backup_root env to, ac_path a]) = backup_dir env to @ path"
    using assms(1-3) path by (simp add: backup_path_clean)
  show "path \<in> upgrade_writes" using assms(3) path by (auto simp: upgrade_writes_def)
qed (use backups_not_written in blast)

lemma apply_action_backed_up:
  assumes "no_slash to" "no_slash (ue_stamp env)" "ac_path a \<in> set upgrade_files"
  shows "backed_up (backup_dir env to) upgrade_writes w (fst (apply_action w (backup_root env to) n a))"
proof -
  have B: "\<forall>p. backup_dir env to @ p \<notin> upgrade_writes" using backups_not_written by blast
  consider "ac_status a \<in> {Update, Merge}" | "ac_status a = Conflict" | "ac_status a \<in> {Current, Ignore}"
    by (cases "ac_status a") auto
  then show ?thesis
  proof cases
    case 1
    show ?thesis unfolding apply_action_def if_P [OF 1]
    proof (rule backup_io.seq, simp add: same_backed_up, clarsimp split: option.splits node.splits)
      fix w' path c perm
      assume "safeProjectPath w (ac_path a) = (w', Inr (path, Some (File c perm)))"
      then have "backed_up (backup_dir env to) upgrade_writes w'
          (fst (replace_file w' ''write updated '' (backup_root env to) a path perm))"
        by (rule apply_replace_backed_up [OF assms])
      then show "backed_up (backup_dir env to) upgrade_writes w'
          (fst (try_io (replace_file w' ''write updated '' (backup_root env to) a path perm) (\<lambda>w _. (w, Inr n))))"
        by (intro backup_io.seq) auto
    qed
  next
    case 2
    then have "ac_status a \<notin> {Update, Merge}" by simp
    then show ?thesis unfolding apply_action_def if_not_P [OF \<open>ac_status a \<notin> _\<close>] if_P [OF 2]
      by (intro backup_io.seq)
        (auto simp: same_backed_up grows_backed_up save_candidate_grows intro!: backup_io.seq)
  next
    case 3
    then show ?thesis by (auto simp: apply_action_def)
  qed
qed

lemma apply_actions_backed_up:
  assumes "no_slash to" "no_slash (ue_stamp env)" "\<forall>a \<in> set actions. ac_path a \<in> set upgrade_files"
  shows "backed_up (backup_dir env to) upgrade_writes w (fst (apply_actions w (backup_root env to) n actions))"
  using assms(3)
proof (induction actions arbitrary: w n)
  case (Cons a actions)
  have "\<forall>p. backup_dir env to @ p \<notin> upgrade_writes" using backups_not_written by blast
  with Cons show ?case
    by (auto intro!: backup_io.seq apply_action_backed_up [OF assms(1,2)])
qed simp

lemma applyUpgradeArtifactIgnore_backed_up:
  assumes "no_slash to" "no_slash (ue_stamp env)" "ac_path a \<in> set upgrade_files"
  shows "backed_up (backup_dir env to) upgrade_writes w
    (fst (applyUpgradeArtifactIgnore w (backup_root env to) a))"
proof -
  have B: "\<forall>p. backup_dir env to @ p \<notin> upgrade_writes" using backups_not_written by blast
  show ?thesis unfolding applyUpgradeArtifactIgnore_def
    by (rule backup_io.seq)
      (auto simp: same_backed_up grows_backed_up writeNewProjectFile_grows
        intro: apply_replace_backed_up [OF assms] split: option.splits node.splits)
qed

lemma record_hashes_same [simp]: "pj_nodes (fst (record_hashes sources w paths hashes)) = pj_nodes w"
proof (induction sources w paths hashes rule: record_hashes.induct)
  case (2 sources w relPath paths hashes)
  then show ?case by (auto intro!: try_io_same split: prod.splits)
qed simp

lemma pure_same [simp]: "pj_nodes (fst (w, x)) = pj_nodes w"
  by simp

lemma backed_up_same: "pj_nodes w' = pj_nodes w \<Longrightarrow> backed_up B W w' v = backed_up B W w v"
  by (simp add: backed_up_def tree_ok_def)

lemma write_absent_backed_up:
  assumes "tree_ok w \<Longrightarrow> node_at w (clean_rel p) = None"
  shows "backed_up B W w (fst (writeProjectFile w p c m))"
proof -
  let ?w = "fst (writeProjectFile w p c m)"
  have "grows {clean_rel p} w ?w" by (rule writeProjectFile_grows) simp
  then have "grows {} w ?w" using assms unfolding grows_def by (metis empty_iff option.distinct(1) singletonD)
  then show ?thesis by (rule grows_backed_up)
qed

lemma loadMetadata_same [simp]: "pj_nodes (fst (loadMetadata env w)) = pj_nodes w"
  unfolding loadMetadata_def by (rule try_io_same) (auto intro!: try_io_same split: option.splits)

lemma loadMetadata_Inr:
  assumes "loadMetadata env w = (w', Inr (info, original, metadata))"
  shows "pj_nodes w' = pj_nodes w"
    and "tree_ok w \<Longrightarrow> info = node_at w (clean_rel ''.fgoths/upgrade.json'') \<and>
      (info = None \<or> (\<exists>perm. info = Some (File original perm)))"
proof -
  show same: "pj_nodes w' = pj_nodes w" using loadMetadata_same [of env w] assms by simp
  obtain w1 path where safe: "safeProjectPath w ''.fgoths/upgrade.json'' = (w1, Inr (path, info))"
    and read: "info = None \<or> (\<exists>w2. read_file w1 path = (w2, Inr original))"
    using assms by (auto simp: loadMetadata_def try_io_Inr split: option.splits)
  show "tree_ok w \<Longrightarrow> info = node_at w (clean_rel ''.fgoths/upgrade.json'') \<and>
      (info = None \<or> (\<exists>perm. info = Some (File original perm)))"
    using safeProjectPath_Inr [OF safe] read by (auto dest!: read_file_Inr)
qed

lemma encodeMetadata_same [simp]: "pj_nodes (fst (encodeMetadata it env w to metadata)) = pj_nodes w"
  unfolding encodeMetadata_def by (rule try_io_same) (auto intro!: try_io_same)

lemma storeMetadata_backed_up:
  assumes "no_slash to" "no_slash (ue_stamp env)"
    and "tree_ok w \<Longrightarrow> info = node_at w (clean_rel ''.fgoths/upgrade.json'') \<and>
      (info = None \<or> (\<exists>perm. info = Some (File original perm)))"
  shows "backed_up (backup_dir env to) upgrade_writes w
    (fst (storeMetadata w (backup_root env to) info original encoded))"
proof (cases "tree_ok w")
  case True
  let ?meta = "''.fgoths/upgrade.json''" and ?bp = "path_join [backup_root env to, ''.fgoths'', ''upgrade.json'']"
  have W: "clean_rel ?meta \<in> upgrade_writes" by (simp add: upgrade_writes_def upgrade_files_def)
  have B: "\<forall>p. backup_dir env to @ p \<notin> upgrade_writes" using backups_not_written by blast
  show ?thesis
  proof (cases info)
    case None
    then show ?thesis using assms(3) [OF True]
      by (auto simp: storeMetadata_def try_io_def intro!: write_absent_backed_up)
  next
    case (Some n)
    then obtain perm where info: "info = Some (File original perm)"
      and here: "node_at w (clean_rel ?meta) = Some (File original perm)"
      using assms(3) [OF True] by auto
    show ?thesis unfolding storeMetadata_def info
    proof (simp, rule try_io_rel [where R = "backed_up (backup_dir env to) upgrade_writes"])
      show "backed_up (backup_dir env to) upgrade_writes w
          (fst (wrap_error ''back up existing upgrade metadata'' (writeNewProjectFile w ?bp original perm)))"
        by (simp add: grows_backed_up writeNewProjectFile_grows)
      fix w' u
      assume "wrap_error ''back up existing upgrade metadata'' (writeNewProjectFile w ?bp original perm) = (w', Inr u)"
      then have new: "writeNewProjectFile w ?bp original perm = (w', Inr u)" by simp
      show "backed_up (backup_dir env to) upgrade_writes w (fst (wrap_error ''write upgrade metadata''
          (writeProjectFile w' ?meta (encoded @ [CHR 0x0A]) 420)))"
        using backup_then_write [OF here new metadata_backup_clean [OF assms(1,2)] W B refl] by simp
    qed
  qed
qed (simp add: backed_up_def)

lemma applyMetadata_backed_up:
  assumes "no_slash to" "no_slash (ue_stamp env)"
  shows "backed_up (backup_dir env to) upgrade_writes w (fst (applyMetadata it env w (backup_root env to) to))"
  unfolding applyMetadata_def
proof (rule backup_io.after_read, simp, clarify, rule backup_io.after_read)
  fix w1 info original metadata
  assume load: "loadMetadata env w = (w1, Inr (info, original, metadata))" and w1: "pj_nodes w1 = pj_nodes w"
  show "pj_nodes (fst (encodeMetadata it env w1 to metadata)) = pj_nodes w" using w1 by simp
  fix w2 :: project and encoded
  assume w2: "pj_nodes w2 = pj_nodes w"
  have "tree_ok w2 \<Longrightarrow> info = node_at w2 (clean_rel ''.fgoths/upgrade.json'') \<and>
      (info = None \<or> (\<exists>perm. info = Some (File original perm)))"
    unfolding w2 tree_ok_same [OF w2] by (rule loadMetadata_Inr(2) [OF load])
  then show "backed_up (backup_dir env to) upgrade_writes w
      (fst (storeMetadata w2 (backup_root env to) info original encoded))"
    unfolding backed_up_same [OF w2, symmetric] by (rule storeMetadata_backed_up [OF assms])
qed

lemma applyRuntimeUpgrade_backed_up:
  assumes "report_ok r" "no_slash (re_to r)" "no_slash (ue_stamp env)"
  shows "backed_up (backup_dir env (re_to r)) upgrade_writes w (fst (applyRuntimeUpgrade it env w r))"
proof -
  have B: "\<forall>p. backup_dir env (re_to r) @ p \<notin> upgrade_writes" using backups_not_written by blast
  have actions: "\<forall>a \<in> set (re_actions r). ac_path a \<in> set upgrade_files"
    and ignore: "\<And>a. re_artifactIgnore r = Some a \<Longrightarrow> ac_path a \<in> set upgrade_files"
    using assms(1) by (auto simp: report_ok_def upgrade_files_def)
  show ?thesis unfolding applyRuntimeUpgrade_def Let_def
    apply (rule backup_io.seq)
     apply (auto intro!: applyUpgradeArtifactIgnore_backed_up assms(2,3) ignore split: option.splits) []
    apply (rule backup_io.seq)
     apply (rule apply_actions_backed_up [OF assms(2,3) actions])
    apply (auto intro!: backup_io.seq applyMetadata_backed_up [OF assms(2,3)])
    done
qed

section \<open>Planning\<close>

lemma checkProject_same [simp]: "pj_nodes (fst (checkProject rootDir w)) = pj_nodes w"
  unfolding checkProject_def
  by (rule try_io_same) (auto intro!: try_io_same)

lemma readManifest_same [simp]: "pj_nodes (fst (readManifest env w)) = pj_nodes w"
  unfolding readManifest_def by (rule try_io_same) (auto intro!: try_io_same)

lemma planUpgradeArtifactIgnore_same [simp]: "pj_nodes (fst (planUpgradeArtifactIgnore w)) = pj_nodes w"
  unfolding planUpgradeArtifactIgnore_def Let_def
  apply (rule try_io_same, simp, clarsimp)
  apply (rule try_io_same)
   apply (auto intro!: try_io_same split: option.splits node.splits)
  done

lemma planUpgradeArtifactIgnore_path:
  "planUpgradeArtifactIgnore w = (w', Inr (Some a)) \<Longrightarrow> ac_path a = ''.fgoths/.gitignore'' \<and> ac_status a = Ignore"
  by (auto simp: planUpgradeArtifactIgnore_def Let_def try_io_Inr split: if_splits)

text \<open>What a planned action says of the file.\<close>

definition planned :: "upgrade_env \<Rightarrow> (string, string) gomap \<Rightarrow> (string, string) gomap \<Rightarrow> project \<Rightarrow>
    upgradeFileAction \<Rightarrow> bool" where
  "planned env baseline targetSources w a \<longleftrightarrow>
     (\<exists>base target. gm_get baseline (ac_path a) = Some base \<and> gm_get targetSources (ac_path a) = Some target \<and>
       (tree_ok w \<longrightarrow> node_at w (clean_rel (ac_path a)) = Some (File (ac_original a) (ac_mode a))) \<and>
       (case ac_status a of
          Current \<Rightarrow> ac_original a = target \<or>
            (ac_original a \<noteq> base \<and> mergeWithGit env (ac_original a) base target = Merged (ac_original a))
        | Update \<Rightarrow> ac_original a = base \<and> ac_content a = target \<and> base \<noteq> target
        | Merge \<Rightarrow> ac_original a \<notin> {base, target} \<and> mergeWithGit env (ac_original a) base target = Merged (ac_content a)
        | Conflict \<Rightarrow> ac_original a \<notin> {base, target} \<and>
            mergeWithGit env (ac_original a) base target = MergeConflict (ac_conflict a)
        | Ignore \<Rightarrow> False))"

lemma plan_action_Inr:
  "plan_action env to relPath base target current mode = Inr a \<Longrightarrow>
     ac_path a = relPath \<and> ac_original a = current \<and> ac_mode a = mode \<and>
     (case ac_status a of
        Current \<Rightarrow> current = target \<or> (current \<noteq> base \<and> mergeWithGit env current base target = Merged current)
      | Update \<Rightarrow> current = base \<and> ac_content a = target \<and> base \<noteq> target
      | Merge \<Rightarrow> current \<notin> {base, target} \<and> mergeWithGit env current base target = Merged (ac_content a)
      | Conflict \<Rightarrow> current \<notin> {base, target} \<and> mergeWithGit env current base target = MergeConflict (ac_conflict a)
      | Ignore \<Rightarrow> False)"
  by (auto simp: plan_action_def Let_def split: if_splits merge_outcome.splits)

lemma plan_files_same: "pj_nodes (fst (plan_files env to bl ts w paths actions)) = pj_nodes w"
proof (induction paths arbitrary: w actions)
  case (Cons p paths)
  show ?case
    apply (clarsimp split: option.splits)
    apply (rule try_io_same, simp, clarsimp split: option.splits node.splits simp: Cons)
    apply (rule try_io_same, simp, rule try_io_same)
     apply (simp_all add: Cons)
    done
qed simp

lemma planned_same: "pj_nodes w' = pj_nodes w \<Longrightarrow> planned env bl ts w' a = planned env bl ts w a"
  by (simp add: planned_def tree_ok_def)

lemma plan_files_Inr:
  assumes "plan_files env to bl ts w paths actions = (w', Inr actions')"
  shows "\<exists>new. actions' = actions @ new \<and> subseq (map ac_path new) paths \<and>
    (\<forall>a \<in> set new. planned env bl ts w a) \<and>
    (tree_ok w \<longrightarrow> (\<forall>p \<in> set paths. node_at w (clean_rel p) \<noteq> None \<longrightarrow> p \<in> set (map ac_path new)))"
  using assms
proof (induction paths arbitrary: w actions)
  case (Cons p paths)
  from Cons.prems obtain base target w1 path info where b: "gm_get bl p = Some base" "gm_get ts p = Some target"
    and safe: "safeProjectPath w p = (w1, Inr (path, info))"
    by (auto simp: try_io_Inr split: option.splits)
  note at = safeProjectPath_Inr [OF safe]
  show ?case
  proof (cases info)
    case None
    with Cons.prems b safe have "plan_files env to bl ts w1 paths actions = (w', Inr actions')"
      by (simp add: try_io_Inr)
    from Cons.IH [OF this] obtain new where "actions' = actions @ new" "subseq (map ac_path new) paths"
      "\<forall>a \<in> set new. planned env bl ts w a"
      "tree_ok w \<longrightarrow> (\<forall>p \<in> set paths. node_at w (clean_rel p) \<noteq> None \<longrightarrow> p \<in> set (map ac_path new))"
      unfolding planned_same [OF at(2)] tree_ok_same [OF at(2)] at(2) by blast
    then show ?thesis using at(1,3) None by (intro exI [of _ new]) auto
  next
    case (Some n)
    with Cons.prems b safe obtain c mode where n: "n = File c mode"
      by (cases n) (auto simp: try_io_Inr)
    with Some Cons.prems b safe obtain w2 current a where read: "read_file w1 path = (w2, Inr current)"
      and plan: "plan_action env to p base target current mode = Inr a"
      and rest: "plan_files env to bl ts w2 paths (actions @ [a]) = (w', Inr actions')"
      by (auto simp: try_io_Inr)
    have nodes: "pj_nodes w2 = pj_nodes w" using read_file_Inr [OF read] at(2) by simp
    have here: "tree_ok w \<Longrightarrow> node_at w (clean_rel p) = Some (File current mode)"
      using read_file_Inr [OF read] at Some n by auto
    have a: "planned env bl ts w a" and path: "ac_path a = p"
      using plan_action_Inr [OF plan] here b by (auto simp: planned_def)
    from Cons.IH [OF rest] obtain new where "actions' = actions @ a # new" "subseq (map ac_path new) paths"
      "\<forall>a \<in> set new. planned env bl ts w a"
      "tree_ok w \<longrightarrow> (\<forall>p \<in> set paths. node_at w (clean_rel p) \<noteq> None \<longrightarrow> p \<in> set (map ac_path new))"
      unfolding planned_same [OF nodes] tree_ok_same [OF nodes] nodes by auto
    then show ?thesis using a path by (intro exI [of _ "a # new"]) auto
  qed
qed simp

lemma if_same:
  "pj_nodes (fst x) = N \<Longrightarrow> pj_nodes (fst y) = N \<Longrightarrow> pj_nodes (fst (if c then x else y)) = N"
  by simp

lemma planRuntimeUpgrade_same [simp]:
  "pj_nodes (fst (planRuntimeUpgrade it env rootDir w fromArg to)) = pj_nodes w"
  unfolding planRuntimeUpgrade_def Let_def
  by (rule try_io_same, simp, rule try_io_same, simp, rule try_io_same, simp, rule if_same, simp,
      rule if_same, simp, rule try_io_same, simp, rule try_io_same, simp, rule try_io_same, simp,
      rule try_io_same) (simp_all add: plan_files_same)

lemma planRuntimeUpgrade_cases:
  assumes "planRuntimeUpgrade it env rootDir w fromArg to = (w', Inr r)"
  obtains w1 w2 manifest where "pj_nodes w1 = pj_nodes w" "readManifest env w1 = (w2, Inr manifest)"
    "upgrade_from fromArg manifest = Inr (re_from r)" "re_to r = to"
    "re_from r = to \<and> re_actions r = [] \<and> re_artifactIgnore r = None \<or>
     re_from r \<noteq> to \<and> (\<exists>bl ts w3 w4. runtimeUpgradeBaseline env (re_from r) = Inr bl \<and>
       planUpgradeArtifactIgnore w2 = (w3, Inr (re_artifactIgnore r)) \<and> ManagedRuntimeSources it (ue_template env) = Inr ts \<and>
       plan_files env to bl ts w3 runtimeUpgradePaths [] = (w4, Inr (re_actions r)))"
proof -
  from assms obtain w1 w2 u manifest from' where "checkProject rootDir w = (w1, Inr u)"
    and m: "readManifest env w1 = (w2, Inr manifest)" "upgrade_from fromArg manifest = Inr from'"
    and rest: "from' = to \<and> r = \<lparr>re_from = from', re_to = to, re_actions = [], re_artifactIgnore = None\<rparr> \<or>
      from' \<noteq> to \<and> (\<exists>bl ts w3 w4 ignore actions. runtimeUpgradeBaseline env from' = Inr bl \<and>
        planUpgradeArtifactIgnore w2 = (w3, Inr ignore) \<and> ManagedRuntimeSources it (ue_template env) = Inr ts \<and>
        plan_files env to bl ts w3 runtimeUpgradePaths [] = (w4, Inr actions) \<and>
        r = \<lparr>re_from = from', re_to = to, re_actions = actions, re_artifactIgnore = ignore\<rparr>)"
    unfolding planRuntimeUpgrade_def Let_def try_io_Inr
    by (auto simp: try_io_Inr split: if_splits)
  moreover have "pj_nodes w1 = pj_nodes w"
    using checkProject_same [of rootDir w] \<open>checkProject rootDir w = (w1, Inr u)\<close> by simp
  ultimately show thesis using that [of w1 w2 manifest] by auto
qed

lemma subseq_set: "subseq xs ys \<Longrightarrow> x \<in> set xs \<Longrightarrow> x \<in> set ys"
  by (induction rule: list_emb.induct) auto

lemma subseq_distinct: "subseq xs ys \<Longrightarrow> distinct ys \<Longrightarrow> distinct xs"
  by (induction rule: list_emb.induct) (auto dest: subseq_set)

text \<open>A plan names managed files only, each once, with the contents they have.\<close>

lemma planRuntimeUpgrade_Inr:
  assumes "planRuntimeUpgrade it env rootDir w fromArg to = (w', Inr r)"
  shows "re_to r = to" "report_ok r"
    and "re_from r \<noteq> to \<Longrightarrow> \<exists>bl ts. runtimeUpgradeBaseline env (re_from r) = Inr bl \<and>
      ManagedRuntimeSources it (ue_template env) = Inr ts \<and> subseq (map ac_path (re_actions r)) runtimeUpgradePaths \<and>
      (\<forall>a \<in> set (re_actions r). planned env bl ts w a) \<and>
      (tree_ok w \<longrightarrow> (\<forall>p \<in> set runtimeUpgradePaths. node_at w (clean_rel p) \<noteq> None \<longrightarrow>
         p \<in> set (map ac_path (re_actions r))))"
proof -
  from assms obtain w1 w2 manifest where w1: "pj_nodes w1 = pj_nodes w"
    and m: "readManifest env w1 = (w2, Inr manifest)" and to: "re_to r = to"
    and "re_from r = to \<and> re_actions r = [] \<and> re_artifactIgnore r = None \<or>
     re_from r \<noteq> to \<and> (\<exists>bl ts w3 w4. runtimeUpgradeBaseline env (re_from r) = Inr bl \<and>
       planUpgradeArtifactIgnore w2 = (w3, Inr (re_artifactIgnore r)) \<and> ManagedRuntimeSources it (ue_template env) = Inr ts \<and>
       plan_files env to bl ts w3 runtimeUpgradePaths [] = (w4, Inr (re_actions r)))" (is "?same \<or> ?new")
    by (rule planRuntimeUpgrade_cases)
  from this(4) have "report_ok r \<and> (re_from r \<noteq> to \<longrightarrow> (\<exists>bl ts. runtimeUpgradeBaseline env (re_from r) = Inr bl \<and>
      ManagedRuntimeSources it (ue_template env) = Inr ts \<and> subseq (map ac_path (re_actions r)) runtimeUpgradePaths \<and>
      (\<forall>a \<in> set (re_actions r). planned env bl ts w a) \<and>
      (tree_ok w \<longrightarrow> (\<forall>p \<in> set runtimeUpgradePaths. node_at w (clean_rel p) \<noteq> None \<longrightarrow>
         p \<in> set (map ac_path (re_actions r))))))" (is "?ok \<and> (_ \<longrightarrow> ?plan)")
  proof
    assume ?same
    then show ?thesis by (simp add: report_ok_def)
  next
    assume ?new
    then obtain bl ts w3 w4 where f: "runtimeUpgradeBaseline env (re_from r) = Inr bl"
      "ManagedRuntimeSources it (ue_template env) = Inr ts" and ignore: "planUpgradeArtifactIgnore w2 = (w3, Inr (re_artifactIgnore r))"
      and files: "plan_files env to bl ts w3 runtimeUpgradePaths [] = (w4, Inr (re_actions r))" by blast
    have nodes: "pj_nodes w3 = pj_nodes w"
      using planUpgradeArtifactIgnore_same [of w2] ignore readManifest_same [of env w1] m w1 by simp
    note p = plan_files_Inr [OF files, unfolded planned_same [OF nodes] tree_ok_same [OF nodes] nodes append_Nil]
    have "subseq (map ac_path (re_actions r)) runtimeUpgradePaths" using p by auto
    from subseq_set [OF this] have "report_ok r"
      using ignore by (auto simp: report_ok_def dest: planUpgradeArtifactIgnore_path)
    then show ?thesis using p f by auto
  qed
  then show "re_to r = to" "report_ok r" "re_from r \<noteq> to \<Longrightarrow> ?plan" using to by blast+
qed

section \<open>Runs of the command\<close>

lemma RunUpgrade_cases:
  obtains "pj_nodes (fst (RunUpgrade it env v resolve w args)) = pj_nodes w"
  | rootDir fromArg w1 r where "fl_apply args" "fl_from args = fromArg"
      "planRuntimeUpgrade it env rootDir w fromArg latestRuntimeUpgradeVersion = (w1, Inr r)"
      "re_from r \<noteq> re_to r"
      "fst (RunUpgrade it env v resolve w args) = fst (applyRuntimeUpgrade it env w1 r)"
      "snd (RunUpgrade it env v resolve w args) = nil \<longleftrightarrow> snd (applyRuntimeUpgrade it env w1 r) = Inr 0"
proof (cases "\<exists>dir fromArg. args = Flags dir fromArg True 0 \<and> (\<exists>rootDir. resolve dir = Inr rootDir) \<and>
    (v = ''0.0.0-dev'' \<or> v = latestRuntimeUpgradeVersion)")
  case True
  then obtain dir fromArg rootDir where args: "args = Flags dir fromArg True 0" "resolve dir = Inr rootDir"
    and v: "\<not> (v \<noteq> ''0.0.0-dev'' \<and> v \<noteq> latestRuntimeUpgradeVersion)" by blast
  obtain w1 x where plan: "planRuntimeUpgrade it env rootDir w fromArg latestRuntimeUpgradeVersion = (w1, x)"
    by (cases "planRuntimeUpgrade it env rootDir w fromArg latestRuntimeUpgradeVersion")
  then have w1: "pj_nodes w1 = pj_nodes w"
    using planRuntimeUpgrade_same [of it env rootDir w fromArg latestRuntimeUpgradeVersion] by simp
  show thesis
  proof (cases "\<exists>r. x = Inr r \<and> re_from r \<noteq> re_to r")
    case True
    then obtain r where r: "x = Inr r" "re_from r \<noteq> re_to r" by blast
    obtain w2 y where "applyRuntimeUpgrade it env w1 r = (w2, y)"
      by (cases "applyRuntimeUpgrade it env w1 r")
    then show thesis
      using that(2) [of fromArg rootDir w1 r] args plan r unfolding RunUpgrade_def if_not_P [OF v]
      by (auto split: sum.splits)
  next
    case False
    then have "fst (RunUpgrade it env v resolve w args) = w1"
      using args plan unfolding RunUpgrade_def if_not_P [OF v] by (auto split: sum.splits)
    then show thesis using w1 by (intro that(1)) simp
  qed
next
  case False
  have "pj_nodes w1 = pj_nodes w"
    if "planRuntimeUpgrade it env rootDir w f latestRuntimeUpgradeVersion = (w1, x)" for rootDir f w1 x
    using planRuntimeUpgrade_same [of it env rootDir w f latestRuntimeUpgradeVersion] that by simp
  with False have "pj_nodes (fst (RunUpgrade it env v resolve w args)) = pj_nodes w"
    by (cases args) (auto simp: RunUpgrade_def split: prod.splits sum.splits if_splits)
  then show thesis by (rule that(1))
qed

section \<open>What a successful application installs\<close>

lemma replace_file_grows:
  "clean_rel (ac_path a) \<in> S \<Longrightarrow> grows S w (fst (replace_file w verb backupRoot a path perm))"
  unfolding replace_file_def Let_def
  by (rule grows_io.seq, simp add: grows_same, rule grows_io.seq)
    (simp_all add: writeNewProjectFile_grows writeProjectFile_grows)

lemma replace_file_Inr:
  "replace_file w verb backupRoot a path perm = (w', Inr u) \<Longrightarrow>
     node_at w' (clean_rel (ac_path a)) = Some (File (ac_content a) (ac_mode a))"
  by (auto simp: replace_file_def Let_def try_io_Inr dest: writeProjectFile_Inr)

lemma apply_action_cases:
  assumes "apply_action w backupRoot n a = (w', Inr n')"
  obtains w1 path perm u where "ac_status a \<in> {Update, Merge}" "pj_nodes w1 = pj_nodes w" "n' = n"
      "replace_file w1 ''write updated '' backupRoot a path perm = (w', Inr u)"
  | w1 u where "ac_status a = Conflict" "pj_nodes w1 = pj_nodes w" "n' = n + 1"
      "save_candidate w1 a = (w', Inr u)"
  | "ac_status a \<in> {Current, Ignore}" "w' = w" "n' = n"
proof -
  consider "ac_status a \<in> {Update, Merge}" | "ac_status a = Conflict" | "ac_status a \<in> {Current, Ignore}"
    by (cases "ac_status a") auto
  then show thesis
  proof cases
    case 1
    from assms obtain w1 path info where safe: "safeProjectPath w (ac_path a) = (w1, Inr (path, info))"
      and rest: "(case info of
          Some (File _ perm) \<Rightarrow>
            try_io (replace_file w1 ''write updated '' backupRoot a path perm) (\<lambda>w _. (w, Inr n))
        | _ \<Rightarrow> (w1, Inl (ac_path a @ '' changed while upgrade was being applied; no content was written''))) = (w', Inr n')"
      unfolding apply_action_def if_P [OF 1] try_io_Inr by auto
    from rest obtain c perm where "info = Some (File c perm)" by (auto split: option.splits node.splits)
    with rest obtain u where "replace_file w1 ''write updated '' backupRoot a path perm = (w', Inr u)" "n' = n"
      by (auto simp: try_io_Inr)
    then show thesis using that(1) [of w1] 1 reads_same(1) [OF safe] by blast
  next
    case 2
    then have no: "ac_status a \<notin> {Update, Merge}" by simp
    from assms obtain w0 path info w1 c u where safe: "safeProjectPath w (ac_path a) = (w0, Inr (path, info))"
      and read: "read_planned w0 path a '' before saving merge candidate'' = (w1, Inr c)"
      and "save_candidate w1 a = (w', Inr u)" "n' = n + 1"
      unfolding apply_action_def if_not_P [OF no] if_P [OF 2] by (auto simp: try_io_Inr)
    then show thesis using that(2) [of w1] 2 reads_same(1) [OF safe] read_planned_Inr [OF read] by simp
  next
    case 3
    then show thesis using that(3) assms by (auto simp: apply_action_def)
  qed
qed

lemma apply_action_Inr:
  assumes "apply_action w backupRoot n a = (w', Inr n')"
  shows "n' = (if ac_status a = Conflict then n + 1 else n)"
    and "grows (if ac_status a \<in> {Update, Merge} then {clean_rel (ac_path a)} else {}) w w'"
    and "ac_status a \<in> {Update, Merge} \<Longrightarrow>
      node_at w' (clean_rel (ac_path a)) = Some (File (ac_content a) (ac_mode a))"
proof -
  show "n' = (if ac_status a = Conflict then n + 1 else n)"
    using assms by (rule apply_action_cases) auto
  show "grows (if ac_status a \<in> {Update, Merge} then {clean_rel (ac_path a)} else {}) w w'"
    using assms
  proof (rule apply_action_cases)
    fix w1 path perm u
    assume st: "ac_status a \<in> {Update, Merge}" and w1: "pj_nodes w1 = pj_nodes w"
      and rep: "replace_file w1 ''write updated '' backupRoot a path perm = (w', Inr u)"
    have "grows {clean_rel (ac_path a)} w1 w'"
      using replace_file_grows [of a "{clean_rel (ac_path a)}" w1 "''write updated ''" backupRoot path perm] rep by simp
    then show ?thesis using grows_trans [OF grows_same [OF w1]] st by simp
  next
    fix w1 u
    assume st: "ac_status a = Conflict" and w1: "pj_nodes w1 = pj_nodes w" and "save_candidate w1 a = (w', Inr u)"
    then have "grows {} w1 w'" using save_candidate_grows [of "{}" w1 a] by simp
    then show ?thesis using grows_trans [OF grows_same [OF w1]] st by simp
  qed auto
  show "ac_status a \<in> {Update, Merge} \<Longrightarrow>
      node_at w' (clean_rel (ac_path a)) = Some (File (ac_content a) (ac_mode a))"
    using assms by (rule apply_action_cases) (auto dest: replace_file_Inr)
qed

lemma apply_actions_Inr:
  assumes "apply_actions w backupRoot n actions = (w', Inr n')"
  shows "n \<le> n' \<and> (n' = n \<longrightarrow> (\<forall>a \<in> set actions. ac_status a \<noteq> Conflict)) \<and>
    grows ((clean_rel \<circ> ac_path) ` {a \<in> set actions. ac_status a \<in> {Update, Merge}}) w w' \<and>
    (distinct (map (clean_rel \<circ> ac_path) actions) \<and> tree_ok w \<longrightarrow> (\<forall>a \<in> set actions.
      ac_status a \<in> {Update, Merge} \<longrightarrow> node_at w' (clean_rel (ac_path a)) = Some (File (ac_content a) (ac_mode a))))"
    (is "?P w n actions")
  using assms
proof (induction actions arbitrary: w n)
  case (Cons b actions)
  let ?S = "\<lambda>actions. (clean_rel \<circ> ac_path) ` {a \<in> set actions. ac_status a \<in> {Update, Merge}}"
  from Cons.prems obtain w1 n1 where b: "apply_action w backupRoot n b = (w1, Inr n1)"
    and rest: "apply_actions w1 backupRoot n1 actions = (w', Inr n')" by (auto simp: try_io_Inr)
  note one = apply_action_Inr [OF b] and IH = Cons.IH [OF rest]
  have g1: "grows (?S (b # actions)) w w1" by (rule grows_mono [OF one(2)]) auto
  have "grows (?S (b # actions)) w1 w'" using IH by (auto intro: grows_mono)
  with g1 have g: "grows (?S (b # actions)) w w'" by (rule grows_trans)
  have kept: "node_at w' (clean_rel (ac_path b)) = Some (File (ac_content b) (ac_mode b))"
    if "distinct (map (clean_rel \<circ> ac_path) (b # actions))" "tree_ok w" "ac_status b \<in> {Update, Merge}"
  proof -
    have "tree_ok w1" using g1 that(2) by (simp add: grows_def)
    moreover have "clean_rel (ac_path b) \<notin> ?S actions" using that(1) by auto
    ultimately show ?thesis using IH one(3) [OF that(3)] by (auto simp: grows_def)
  qed
  have count: "n \<le> n' \<and> (n' = n \<longrightarrow> ac_status b \<noteq> Conflict \<and> n1 = n)"
    using one(1) IH [THEN conjunct1] by (auto split: if_splits)
  show ?case
  proof (intro conjI impI ballI)
    fix a assume d: "distinct (map (clean_rel \<circ> ac_path) (b # actions)) \<and> tree_ok w"
      and a: "a \<in> set (b # actions)" "ac_status a \<in> {Update, Merge}"
    have "tree_ok w1" using g1 d by (simp add: grows_def)
    then show "node_at w' (clean_rel (ac_path a)) = Some (File (ac_content a) (ac_mode a))"
      using IH d a kept by (cases "a = b") (auto simp: comp_def)
  next
    fix a assume "n' = n" "a \<in> set (b # actions)"
    then show "ac_status a \<noteq> Conflict" using count IH by auto
  qed (use count g in simp_all)
qed simp

text \<open>The parts of a successful application without conflicts.\<close>

lemma applyMetadata_Inr:
  assumes "applyMetadata it env w backupRoot to = (w', Inr u)"
  shows "grows {clean_rel ''.fgoths/upgrade.json''} w w'"
    and "\<exists>m encoded. ue_marshal env m = Inr encoded \<and> um_Version m = to \<and>
      node_at w' (clean_rel ''.fgoths/upgrade.json'') = Some (File (encoded @ [CHR 0x0A]) 420)"
proof -
  let ?meta = "''.fgoths/upgrade.json''"
  from assms obtain w1 info original metadata w2 encoded where
    load: "loadMetadata env w = (w1, Inr (info, original, metadata))"
    and enc: "encodeMetadata it env w1 to metadata = (w2, Inr encoded)"
    and store: "storeMetadata w2 backupRoot info original encoded = (w', Inr u)"
    by (auto simp: applyMetadata_def try_io_Inr)
  have nodes: "pj_nodes w2 = pj_nodes w"
    using loadMetadata_Inr(1) [OF load] encodeMetadata_same [of it env w1 to metadata] enc by simp
  have "grows {clean_rel ?meta} w2 (fst (storeMetadata w2 backupRoot info original encoded))"
    unfolding storeMetadata_def
    by (rule grows_io.seq)
      (auto intro: writeNewProjectFile_grows writeProjectFile_grows split: option.splits node.splits)
  with store show "grows {clean_rel ?meta} w w'" using grows_trans [OF grows_same [OF nodes]] by simp
  have "\<exists>m. ue_marshal env m = Inr encoded \<and> um_Version m = to"
    using enc by (auto simp: encodeMetadata_def try_io_Inr)
  moreover have "node_at w' (clean_rel ?meta) = Some (File (encoded @ [CHR 0x0A]) 420)"
    using store by (auto simp: storeMetadata_def try_io_Inr dest!: writeProjectFile_Inr)
  ultimately show "\<exists>m encoded. ue_marshal env m = Inr encoded \<and> um_Version m = to \<and>
      node_at w' (clean_rel ?meta) = Some (File (encoded @ [CHR 0x0A]) 420)" by blast
qed

lemma applyRuntimeUpgrade_Inr:
  assumes "applyRuntimeUpgrade it env w r = (w', Inr 0)" "report_ok r"
  obtains wa wb where "grows {clean_rel ''.fgoths/.gitignore''} w wa"
    "apply_actions wa (backup_root env (re_to r)) 0 (re_actions r) = (wb, Inr 0)"
    "grows {clean_rel ''.fgoths/upgrade.json''} wb w'"
    "\<exists>m encoded. ue_marshal env m = Inr encoded \<and> um_Version m = re_to r \<and>
      node_at w' (clean_rel ''.fgoths/upgrade.json'') = Some (File (encoded @ [CHR 0x0A]) 420)"
proof -
  let ?R = "backup_root env (re_to r)" and ?G = "{clean_rel ''.fgoths/.gitignore''}"
  let ?ignore = "case re_artifactIgnore r of None \<Rightarrow> (w, Inr ()) | Some a \<Rightarrow> applyUpgradeArtifactIgnore w ?R a"
  from assms obtain wa wb u v where ig: "?ignore = (wa, Inr u)"
    and acts: "apply_actions wa ?R 0 (re_actions r) = (wb, Inr 0)"
    and meta: "applyMetadata it env wb ?R (re_to r) = (w', Inr v)"
    unfolding applyRuntimeUpgrade_def Let_def try_io_Inr by (auto simp: try_io_Inr split: if_splits)
  have "grows ?G w (fst ?ignore)"
  proof (cases "re_artifactIgnore r")
    case (Some a)
    then have "clean_rel (ac_path a) \<in> ?G" using assms(2) by (simp add: report_ok_def)
    then have "grows ?G w (fst (applyUpgradeArtifactIgnore w ?R a))"
      unfolding applyUpgradeArtifactIgnore_def
      by (intro grows_io.seq)
        (auto simp: grows_same intro: writeNewProjectFile_grows replace_file_grows split: option.splits node.splits)
    with Some show ?thesis by simp
  qed simp
  with ig have "grows ?G w wa" by simp
  from that [OF this acts applyMetadata_Inr [OF meta]] show thesis .
qed

section \<open>Properties\<close>


lemma managed_distinct:
  assumes "subseq (map ac_path actions) runtimeUpgradePaths"
  shows "distinct (map (clean_rel \<circ> ac_path) actions)"
proof -
  have "map clean_rel runtimeUpgradePaths = map (\<lambda>p. Split p CHR ''/'') runtimeUpgradePaths"
    by (rule map_cong) (auto simp: upgrade_files_clean upgrade_files_def)
  then have "distinct (map clean_rel runtimeUpgradePaths)" by (simp add: runtimeUpgradePaths_def)
  moreover have "subseq (map clean_rel (map ac_path actions)) (map clean_rel runtimeUpgradePaths)"
    using assms by (rule subseq_map)
  ultimately show ?thesis using subseq_distinct by (metis map_map)
qed

text \<open>What applying a plan leaves in a managed file.\<close>

lemma apply_writes_action:
  assumes "tree_ok w1" "applyRuntimeUpgrade it env w1 r = (w', Inr 0)" "report_ok r"
    and sub: "subseq (map ac_path (re_actions r)) runtimeUpgradePaths" and a: "a \<in> set (re_actions r)"
    and at: "node_at w1 (clean_rel (ac_path a)) = Some (File current (ac_mode a))"
  shows "ac_status a \<noteq> Conflict \<and> node_at w' (clean_rel (ac_path a)) =
      Some (File (if ac_status a \<in> {Update, Merge} then ac_content a else current) (ac_mode a))"
proof -
  let ?p = "clean_rel (ac_path a)"
  obtain wa wb where g: "grows {clean_rel ''.fgoths/.gitignore''} w1 wa"
    and acts: "apply_actions wa (backup_root env (re_to r)) 0 (re_actions r) = (wb, Inr 0)"
    and g': "grows {clean_rel ''.fgoths/upgrade.json''} wb w'" using applyRuntimeUpgrade_Inr [OF assms(2,3)] by blast
  have "ac_path a \<in> set runtimeUpgradePaths" using list_emb_set [OF sub, of "ac_path a"] a by auto
  then have ne: "?p \<noteq> clean_rel ''.fgoths/.gitignore''" "?p \<noteq> clean_rel ''.fgoths/upgrade.json''"
    by (auto simp: upgrade_files_clean upgrade_files_def runtimeUpgradePaths_def)
  have before: "tree_ok wa" "node_at wa ?p = Some (File current (ac_mode a))"
    using g assms(1) at ne by (auto simp: grows_def)
  note A = apply_actions_Inr [OF acts] and d = managed_distinct [OF sub]
  have "tree_ok wb" using A before by (simp add: grows_def)
  moreover have "node_at wb ?p = Some (File (if ac_status a \<in> {Update, Merge} then ac_content a else current) (ac_mode a))"
  proof (cases "ac_status a \<in> {Update, Merge}")
    case True
    then show ?thesis using A d before a by auto
  next
    case False
    have "b = a" if "b \<in> set (re_actions r)" "clean_rel (ac_path b) = ?p" for b
      using d that a by (auto simp: distinct_map inj_on_def)
    then have "?p \<notin> (clean_rel \<circ> ac_path) ` {a \<in> set (re_actions r). ac_status a \<in> {Update, Merge}}"
      using False by auto
    then show ?thesis using A before False by (simp add: grows_def)
  qed
  moreover have "ac_status a \<noteq> Conflict" using A a by auto
  ultimately show ?thesis using g' ne by (simp add: grows_def)
qed

text \<open>C12. An upgrade that is applied without conflicts leaves every managed file of the project with what
  was planned: the shipped source where the file was the shipped one of the old or the new version, and
  the merge of local edits and new version otherwise; its mode is kept.
\<close>

theorem upgrade_installs_plan:
  assumes "tree_ok w" "planRuntimeUpgrade it env rootDir w fromArg to = (w1, Inr r)" "re_from r \<noteq> to"
    and "applyRuntimeUpgrade it env w1 r = (w', Inr 0)"
    and "p \<in> set runtimeUpgradePaths" "node_at w (clean_rel p) = Some (File current mode)"
  shows "\<exists>bl ts base target content. runtimeUpgradeBaseline env (re_from r) = Inr bl \<and>
    ManagedRuntimeSources it (ue_template env) = Inr ts \<and> gm_get bl p = Some base \<and> gm_get ts p = Some target \<and>
    node_at w' (clean_rel p) = Some (File content mode) \<and>
    (if current \<in> {base, target} then content = target
     else mergeWithGit env current base target = Merged content)"
proof -
  note plan = planRuntimeUpgrade_Inr [OF assms(2)]
  from plan(3) [OF assms(3)] obtain bl ts where f: "runtimeUpgradeBaseline env (re_from r) = Inr bl"
      "ManagedRuntimeSources it (ue_template env) = Inr ts"
    and sub: "subseq (map ac_path (re_actions r)) runtimeUpgradePaths"
    and planned: "\<forall>a \<in> set (re_actions r). planned env bl ts w a"
    and all: "p \<in> set (map ac_path (re_actions r))"
    using assms(1,5,6) by fastforce
  from all obtain a where a: "a \<in> set (re_actions r)" "ac_path a = p" by auto
  have here: "ac_original a = current" "ac_mode a = mode" and pa: "planned env bl ts w a"
    using planned a assms(1,6) by (auto simp: planned_def)
  have w1: "pj_nodes w1 = pj_nodes w"
    using planRuntimeUpgrade_same [of it env rootDir w fromArg to] assms(2) by simp
  have after: "ac_status a \<noteq> Conflict" "node_at w' (clean_rel p) =
      Some (File (if ac_status a \<in> {Update, Merge} then ac_content a else current) mode)"
    using apply_writes_action [OF assms(1) [folded tree_ok_same [OF w1]] assms(4) plan(2) sub a(1), of current] a(2) here(2) assms(6) w1
    by simp_all
  moreover from pa here a(2) obtain base target where "gm_get bl p = Some base" "gm_get ts p = Some target"
    "(case ac_status a of
        Current \<Rightarrow> current = target \<or> (current \<noteq> base \<and> mergeWithGit env current base target = Merged current)
      | Update \<Rightarrow> current = base \<and> ac_content a = target \<and> base \<noteq> target
      | Merge \<Rightarrow> current \<notin> {base, target} \<and> mergeWithGit env current base target = Merged (ac_content a)
      | Conflict \<Rightarrow> current \<notin> {base, target} \<and>
          mergeWithGit env current base target = MergeConflict (ac_conflict a)
      | Ignore \<Rightarrow> False)"
    unfolding planned_def by blast
  ultimately show ?thesis using f by (cases "ac_status a") auto
qed

lemma readManifest_Inr:
  assumes "readManifest env w = (w', Inr m)" "tree_ok w"
  shows "(case node_at w (clean_rel ''.fgoths/upgrade.json'') of
      None \<Rightarrow> m = no_manifest | Some n \<Rightarrow> \<exists>c k. n = File c k \<and> ue_unmarshal env c = Inr m)"
proof -
  from assms(1) obtain w1 path info where safe: "safeProjectPath w ''.fgoths/upgrade.json'' = (w1, Inr (path, info))"
    and rest: "(if info = None then (w1, Inr no_manifest)
      else try_io (wrap_error ''read upgrade metadata'' (read_file w1 path)) (\<lambda>w data.
        wrap_error ''parse .fgoths/upgrade.json'' (w, ue_unmarshal env data))) = (w', Inr m)"
    unfolding readManifest_def try_io_Inr by auto
  show ?thesis
  proof (cases info)
    case None
    then show ?thesis using rest safeProjectPath_Inr [OF safe] assms(2) by (auto split: option.splits)
  next
    case (Some n)
    with rest obtain c w2 where "read_file w1 path = (w2, Inr c)" "ue_unmarshal env c = Inr m"
      by (auto simp: try_io_Inr)
    then show ?thesis using safeProjectPath_Inr [OF safe] assms(2) by (auto dest!: read_file_Inr)
  qed
qed

lemma RunUpgrade_nil:
  assumes "RunUpgrade it env v resolve w (Flags dir fromArg True narg) = (w', nil)"
  obtains rootDir w1 r where
    "planRuntimeUpgrade it env rootDir w fromArg latestRuntimeUpgradeVersion = (w1, Inr r)"
    "re_from r = latestRuntimeUpgradeVersion \<and> w' = w1 \<or> applyRuntimeUpgrade it env w1 r = (w', Inr 0)"
proof -
  have v: "\<not> (v \<noteq> ''0.0.0-dev'' \<and> v \<noteq> latestRuntimeUpgradeVersion)" and "narg = 0"
    using assms by (auto simp: RunUpgrade_def split: if_splits)
  with assms obtain rootDir where root: "resolve dir = Inr rootDir"
    by (cases "resolve dir") (auto simp: RunUpgrade_def)
  obtain w1 x where plan: "planRuntimeUpgrade it env rootDir w fromArg latestRuntimeUpgradeVersion = (w1, x)"
    by (cases "planRuntimeUpgrade it env rootDir w fromArg latestRuntimeUpgradeVersion")
  with assms root v \<open>narg = 0\<close> obtain r where r: "x = Inr r" by (cases x) (auto simp: RunUpgrade_def)
  obtain w2 y where app: "applyRuntimeUpgrade it env w1 r = (w2, y)"
    by (cases "applyRuntimeUpgrade it env w1 r")
  have "re_to r = latestRuntimeUpgradeVersion" using planRuntimeUpgrade_Inr(1) plan r by blast
  then have "re_from r = latestRuntimeUpgradeVersion \<and> w' = w1 \<or> applyRuntimeUpgrade it env w1 r = (w', Inr 0)"
    using assms root v \<open>narg = 0\<close> plan r app unfolding RunUpgrade_def
    by (auto split: if_splits sum.splits)
  with that plan r show thesis by blast
qed

text \<open>The version a second run starts from is the one the first run has left.\<close>

lemma rerun_after_current:
  assumes "tree_ok w" "pj_nodes w'' = pj_nodes w" "ue_unmarshal env' = ue_unmarshal env"
    and "planRuntimeUpgrade it env rootDir w fromArg to = (w1, Inr r)"
    and "planRuntimeUpgrade it' env' rootDir' w'' fromArg to = (w2, Inr r2)"
  shows "re_from r2 = re_from r"
proof -
  from planRuntimeUpgrade_cases [OF assms(4)] obtain u1 u2 m1 where u1: "pj_nodes u1 = pj_nodes w"
    and read1: "readManifest env u1 = (u2, Inr m1)" and from1: "upgrade_from fromArg m1 = Inr (re_from r)" by metis
  from planRuntimeUpgrade_cases [OF assms(5)] obtain v1 v2 m2 where v1: "pj_nodes v1 = pj_nodes w''"
    and read2: "readManifest env' v1 = (v2, Inr m2)" and from2: "upgrade_from fromArg m2 = Inr (re_from r2)" by metis
  have v1w: "pj_nodes v1 = pj_nodes w" using v1 assms(2) by simp
  have ok: "tree_ok u1" "tree_ok v1" using assms(1) tree_ok_same [OF u1] tree_ok_same [OF v1w] by simp_all
  from readManifest_Inr [OF read1 ok(1)] readManifest_Inr [OF read2 ok(2)] have "m2 = m1"
    using assms(3) u1 v1w by (auto split: option.splits)
  then show ?thesis using from1 from2 by simp
qed

lemma rerun_after_apply:
  assumes "tree_ok w1" "pj_nodes w'' = pj_nodes w'" "ue_unmarshal env' = ue_unmarshal env" "report_ok r" "re_to r = to"
    and json: "\<forall>m s. ue_marshal env m = Inr s \<longrightarrow>
      (\<exists>m'. ue_unmarshal env (s @ [CHR 0x0A]) = Inr m' \<and> um_Version m' = um_Version m)"
    and run: "applyRuntimeUpgrade it env w1 r = (w', Inr 0)" and to: "to = latestRuntimeUpgradeVersion"
    and "planRuntimeUpgrade it' env' rootDir' w'' fromArg to = (w2, Inr r2)"
  shows "re_from r2 = to"
proof -
  let ?meta = "clean_rel ''.fgoths/upgrade.json''"
  from planRuntimeUpgrade_cases [OF assms(9)] obtain v1 v2 m2 where v1: "pj_nodes v1 = pj_nodes w''"
    and read2: "readManifest env' v1 = (v2, Inr m2)" and from2: "upgrade_from fromArg m2 = Inr (re_from r2)" by metis
  obtain wa wb where g: "grows {clean_rel ''.fgoths/.gitignore''} w1 wa"
    and acts: "apply_actions wa (backup_root env (re_to r)) 0 (re_actions r) = (wb, Inr 0)" and g': "grows {?meta} wb w'"
    and stored: "\<exists>m s. ue_marshal env m = Inr s \<and> um_Version m = re_to r \<and> node_at w' ?meta = Some (File (s @ [CHR 0x0A]) 420)"
    by (rule applyRuntimeUpgrade_Inr [OF run assms(4)])
  from stored obtain m s where m: "ue_marshal env m = Inr s" "um_Version m = re_to r"
    "node_at w' ?meta = Some (File (s @ [CHR 0x0A]) 420)" by blast
  have "tree_ok w'" using assms(1) g apply_actions_Inr [OF acts] g' by (simp add: grows_def)
  then have "tree_ok v1" using tree_ok_same [of v1 w'] v1 assms(2) by simp
  from readManifest_Inr [OF read2 this] have "ue_unmarshal env (s @ [CHR 0x0A]) = Inr m2"
    using m(3) v1 assms(2,3) by simp
  then have "um_Version m2 = to" using json m(1,2) assms(5) by fastforce
  then show ?thesis using from2 by (auto simp: upgrade_from_def Let_def to latestRuntimeUpgradeVersion_def split: if_splits)
qed

text \<open>C13. Upgrading is idempotent: after an upgrade that reported success the same command changes nothing,
  on the project as it is then and whatever system call fails, provided JSON decodes the version it has
  encoded.
\<close>

theorem upgrade_rerun_changes_nothing:
  assumes "tree_ok w"
    and json: "\<forall>m s. ue_marshal env m = Inr s \<longrightarrow>
      (\<exists>m'. ue_unmarshal env (s @ [CHR 0x0A]) = Inr m' \<and> um_Version m' = um_Version m)"
    and first: "RunUpgrade it env v resolve w (Flags dir fromArg True narg) = (w', nil)"
    and later: "pj_nodes w'' = pj_nodes w'" "ue_unmarshal env' = ue_unmarshal env"
  shows "pj_nodes (fst (RunUpgrade it' env' v' resolve' w'' (Flags dir' fromArg True narg'))) = pj_nodes w'"
proof (rule RunUpgrade_cases [of it' env' v' resolve' w'' "Flags dir' fromArg True narg'"])
  assume "pj_nodes (fst (RunUpgrade it' env' v' resolve' w'' (Flags dir' fromArg True narg'))) = pj_nodes w''"
  then show ?thesis using later by simp
next
  let ?to = latestRuntimeUpgradeVersion
  fix rootDir' fromArg' w2 r2
  assume "fl_from (Flags dir' fromArg True narg') = fromArg'" and ne: "re_from r2 \<noteq> re_to r2"
    and "planRuntimeUpgrade it' env' rootDir' w'' fromArg' ?to = (w2, Inr r2)"
  then have plan2: "planRuntimeUpgrade it' env' rootDir' w'' fromArg ?to = (w2, Inr r2)" by simp
  from RunUpgrade_nil [OF first] obtain rootDir w1 r where
    plan: "planRuntimeUpgrade it env rootDir w fromArg ?to = (w1, Inr r)"
    and run: "re_from r = ?to \<and> w' = w1 \<or> applyRuntimeUpgrade it env w1 r = (w', Inr 0)" .
  have w1: "pj_nodes w1 = pj_nodes w" using planRuntimeUpgrade_same [of it env rootDir w fromArg ?to] plan by simp
  from run have "re_from r2 = ?to"
  proof
    assume same: "re_from r = ?to \<and> w' = w1"
    then have "pj_nodes w'' = pj_nodes w" using later(1) w1 by simp
    then show ?thesis using rerun_after_current [OF assms(1) _ later(2) plan plan2] same by simp
  next
    assume "applyRuntimeUpgrade it env w1 r = (w', Inr 0)"
    then show ?thesis using rerun_after_apply [OF assms(1) [folded tree_ok_same [OF w1]] later
        planRuntimeUpgrade_Inr(2) [OF plan] planRuntimeUpgrade_Inr(1) [OF plan] json _ refl plan2] by simp
  qed
  then have False using ne planRuntimeUpgrade_Inr(1) [OF plan2] by simp
  then show ?thesis ..
qed

text \<open>
  A merge with more than one conflict is not a conflict to the command, since \<open>git merge-file\<close> exits
  with the number of conflicts: no plan that has to merge such a file exists, and the other files are
  not upgraded either.
\<close>

lemma merge_exit_code:
  "mergeWithGit env current base target = Merged m \<or> mergeWithGit env current base target = MergeConflict m \<Longrightarrow>
     snd (ue_merge_file env current base target) \<in> {0, 1}"
  by (auto simp: mergeWithGit_def Let_def split: sum.splits list.splits prod.splits if_splits)

lemma many_conflicts_no_plan:
  assumes "tree_ok w" "planRuntimeUpgrade it env rootDir w fromArg to = (w1, Inr r)" "re_from r \<noteq> to"
    and "p \<in> set runtimeUpgradePaths" "node_at w (clean_rel p) = Some (File current mode)"
    and "runtimeUpgradeBaseline env (re_from r) = Inr bl" "gm_get bl p = Some base" "current \<noteq> base"
    and "ManagedRuntimeSources it (ue_template env) = Inr ts" "gm_get ts p = Some target" "current \<noteq> target"
  shows "snd (ue_merge_file env current base target) \<in> {0, 1}"
proof -
  from planRuntimeUpgrade_Inr(3) [OF assms(2,3)] obtain bl' ts' where
    "runtimeUpgradeBaseline env (re_from r) = Inr bl'" "ManagedRuntimeSources it (ue_template env) = Inr ts'"
    and planned: "\<forall>a \<in> set (re_actions r). planned env bl' ts' w a"
    and all: "p \<in> set (map ac_path (re_actions r))"
    using assms(1,4,5) by blast
  then have "bl' = bl" "ts' = ts" using assms(6,9) by simp_all
  with planned all obtain a where a: "ac_path a = p" "planned env bl ts w a" by auto
  then have orig: "ac_original a = current" using assms(1,5) by (auto simp: planned_def)
  have "mergeWithGit env current base target = Merged current \<or>
      mergeWithGit env current base target = Merged (ac_content a) \<or>
      mergeWithGit env current base target = MergeConflict (ac_conflict a)"
    using a(2) assms(7,8,10,11) unfolding planned_def a(1) orig by (cases "ac_status a") simp_all
  then show ?thesis using merge_exit_code [of env current base target] by blast
qed

section \<open>A concrete upgrade\<close>

text \<open>Walks advance the clock of system calls only; so do the fingerprints.\<close>

lemma safe_walk_ticks: "\<exists>t. fst (safe_walk w pre parts info) = w\<lparr>pj_tick := t\<rparr>"
proof (induction parts arbitrary: w pre info)
  case Nil
  then show ?case by (intro exI [of _ "pj_tick w"]) simp
next
  case (Cons part parts)
  have ticked: "pj_next w = w\<lparr>pj_tick := Suc (pj_tick w)\<rparr>" by (simp add: pj_next_def)
  obtain t where "fst (safe_walk (pj_next w) (pre @ [part]) parts (node_at w (pre @ [part]))) = pj_next w\<lparr>pj_tick := t\<rparr>"
    using Cons.IH by blast
  then show ?case
    by (cases "node_at w (pre @ [part])")
      (auto simp: Let_def lstat_def attempt_def try_io_def wrap_error_def pj_next_def split: option.splits)
qed

lemma safeProjectPath_ticks: "\<exists>t. fst (safeProjectPath w p) = w\<lparr>pj_tick := t\<rparr>"
proof -
  obtain t where "fst (safe_walk w [] (clean_rel p) None) = w\<lparr>pj_tick := t\<rparr>" using safe_walk_ticks by blast
  moreover have "\<exists>t. w = w\<lparr>pj_tick := t\<rparr>" by (rule exI [of _ "pj_tick w"]) simp
  ultimately show ?thesis
    by (auto simp: safeProjectPath_def Let_def try_io_def split: prod.splits sum.splits)
qed

lemma record_hashes_ok:
  assumes "\<And>t. list_all (\<lambda>p. \<not> isl (snd (safeProjectPath (w\<lparr>pj_tick := t\<rparr>) p))) paths"
  shows "\<exists>t h. record_hashes src (w\<lparr>pj_tick := t0\<rparr>) paths h0 = (w\<lparr>pj_tick := t\<rparr>, Inr h)"
  using assms
proof (induction paths arbitrary: t0 h0)
  case (Cons p paths)
  obtain t where "fst (safeProjectPath (w\<lparr>pj_tick := t0\<rparr>) p) = w\<lparr>pj_tick := t\<rparr>"
    using safeProjectPath_ticks [of "w\<lparr>pj_tick := t0\<rparr>" p] by auto
  moreover obtain y where "snd (safeProjectPath (w\<lparr>pj_tick := t0\<rparr>) p) = Inr y"
    using Cons.prems [of t0] by (cases "snd (safeProjectPath (w\<lparr>pj_tick := t0\<rparr>) p)") auto
  ultimately have "safeProjectPath (w\<lparr>pj_tick := t0\<rparr>) p = (w\<lparr>pj_tick := t\<rparr>, Inr y)" by (metis prod.collapse)
  then show ?case using Cons by (cases y) (auto simp: try_io_def)
qed auto

text \<open>A project at 1.3.0 with the shipped server, in a world without faults.\<close>

definition demo_project :: project where
  "demo_project = \<lparr>pj_root = Some Dir, pj_nodes =
     [([''go.mod''], File ''module shop'' 420), ([''pkg''], Dir), ([''pkg'', ''runtime''], Dir),
      ([''pkg'', ''runtime'', ''server.go''], File ''old'' 420)],
     pj_tick = 0, pj_fault = (\<lambda>_. nil), pj_done = (\<lambda>_. 0)\<rparr>"

definition demo_env :: upgrade_env where
  "demo_env = \<lparr>ue_baseline_file = (\<lambda>_. Inr ''old''), ue_template = (\<lambda>_. Inr ''new''),
     ue_unmarshal = (\<lambda>s. Inr (no_manifest\<lparr>um_Version := butlast s\<rparr>)), ue_marshal = (\<lambda>m. Inr (um_Version m)),
     ue_git_path = Inr ''/usr/bin/git'', ue_workspace = Inr ''/tmp/merge'', ue_merge_input = (\<lambda>_. nil),
     ue_merge_file = (\<lambda>_ _ _. ('''', 1)), ue_stamp = ''20260101T000000.000000000Z'', ue_now = ''2026-01-01T00:00:00Z''\<rparr>"

definition demo_applied :: "project \<times> (string + nat)" where
  "demo_applied =
     (case planRuntimeUpgrade (\<lambda>m. m) demo_env ''.'' demo_project ''1.3.0'' latestRuntimeUpgradeVersion of
        (w, Inr r) \<Rightarrow>
          try_io (case re_artifactIgnore r of
              None \<Rightarrow> (w, Inr ())
            | Some a \<Rightarrow> applyUpgradeArtifactIgnore w (backup_root demo_env latestRuntimeUpgradeVersion) a)
            (\<lambda>w _. apply_actions w (backup_root demo_env latestRuntimeUpgradeVersion) 0 (re_actions r))
      | (w, Inl err) \<Rightarrow> (w, Inl err))"

definition demo_ready :: project where
  "demo_ready = fst (loadMetadata demo_env (fst demo_applied))"

lemma demo_plan:
  "case planRuntimeUpgrade (\<lambda>m. m) demo_env ''.'' demo_project ''1.3.0'' latestRuntimeUpgradeVersion of
     (w, Inr r) \<Rightarrow> re_from r = ''1.3.0'' | _ \<Rightarrow> False"
  by code_simp

lemma demo_actions:
  "snd demo_applied = Inr 0"
  by code_simp

lemma demo_load:
  "snd (loadMetadata demo_env (fst demo_applied)) = Inr (None, [], no_manifest)"
  by code_simp

lemma demo_walks:
  "let w = demo_ready\<lparr>pj_tick := t\<rparr> in list_all (\<lambda>p. \<not> isl (snd (safeProjectPath w p))) runtimeUpgradePaths"
  by code_simp

lemma demo_sources:
  "\<not> isl (ManagedRuntimeSources (\<lambda>m. m) (ue_template demo_env))"
  by code_simp

lemma demo_store: 
  "\<not> isl (snd (storeMetadata (demo_ready\<lparr>pj_tick := t\<rparr>) (backup_root demo_env latestRuntimeUpgradeVersion) None [] encoded))"
  by code_simp

lemma demo_metadata:
  "\<exists>w'. applyMetadata (\<lambda>m. m) demo_env (fst demo_applied)
     (backup_root demo_env latestRuntimeUpgradeVersion) latestRuntimeUpgradeVersion = (w', Inr ())"
proof -
  let ?R = "backup_root demo_env latestRuntimeUpgradeVersion"
  obtain src where src: "ManagedRuntimeSources (\<lambda>m. m) (ue_template demo_env) = Inr src"
    using demo_sources by (cases "ManagedRuntimeSources (\<lambda>m. m) (ue_template demo_env)") auto
  have load: "loadMetadata demo_env (fst demo_applied) = (demo_ready, Inr (None, [], no_manifest))"
    using demo_load by (simp add: demo_ready_def prod_eq_iff)
  obtain t h where "record_hashes src (demo_ready\<lparr>pj_tick := pj_tick demo_ready\<rparr>) runtimeUpgradePaths [] =
      (demo_ready\<lparr>pj_tick := t\<rparr>, Inr h)"
    using record_hashes_ok [of demo_ready runtimeUpgradePaths] demo_walks unfolding Let_def by blast
  then obtain e where enc: "encodeMetadata (\<lambda>m. m) demo_env demo_ready latestRuntimeUpgradeVersion no_manifest =
      (demo_ready\<lparr>pj_tick := t\<rparr>, Inr e)"
    by (auto simp: encodeMetadata_def try_io_def wrap_error_def src no_manifest_def) (auto simp: demo_env_def)
  obtain w' where "storeMetadata (demo_ready\<lparr>pj_tick := t\<rparr>) ?R None [] e = (w', Inr ())"
    using demo_store [of t e] by (cases "snd (storeMetadata (demo_ready\<lparr>pj_tick := t\<rparr>) ?R None [] e)") (auto simp: prod_eq_iff)
  then show ?thesis using load enc by (auto simp: applyMetadata_def try_io_Inr)
qed

lemma demo_upgrade:
  "\<exists>w1 r w'. planRuntimeUpgrade (\<lambda>m. m) demo_env ''.'' demo_project ''1.3.0'' latestRuntimeUpgradeVersion = (w1, Inr r) \<and>
     re_from r = ''1.3.0'' \<and> re_to r = latestRuntimeUpgradeVersion \<and>
     applyRuntimeUpgrade (\<lambda>m. m) demo_env w1 r = (w', Inr 0)"
proof -
  obtain w1 r where plan: "planRuntimeUpgrade (\<lambda>m. m) demo_env ''.'' demo_project ''1.3.0''
      latestRuntimeUpgradeVersion = (w1, Inr r)" and r: "re_from r = ''1.3.0''"
    using demo_plan by (auto split: prod.splits sum.splits)
  note to = planRuntimeUpgrade_Inr(1) [OF plan]
  obtain wa where wa: "demo_applied = (wa, Inr 0)" using demo_actions by (metis prod.collapse)
  obtain w' where "applyMetadata (\<lambda>m. m) demo_env wa
      (backup_root demo_env latestRuntimeUpgradeVersion) latestRuntimeUpgradeVersion = (w', Inr ())"
    using demo_metadata unfolding wa fst_conv by blast
  then have "applyRuntimeUpgrade (\<lambda>m. m) demo_env w1 r = (w', Inr 0)"
    using wa unfolding applyRuntimeUpgrade_def Let_def to demo_applied_def plan by (auto simp: try_io_Inr)
  with plan r to show ?thesis by blast
qed

lemma demo_tree: "tree_ok demo_project"
  by (auto simp: tree_ok_def demo_project_def split: if_splits)

lemma demo_run:
  "\<exists>w'. RunUpgrade (\<lambda>m. m) demo_env ''1.4.1'' (\<lambda>d. Inr ''.'') demo_project (Flags ''.'' ''1.3.0'' True 0) = (w', nil)"
  using demo_upgrade by (auto simp: RunUpgrade_def latestRuntimeUpgradeVersion_def)


theorem upgrade_installs_plan_witness:
  "\<exists>w1 r w'. planRuntimeUpgrade (\<lambda>m. m) demo_env ''.'' demo_project ''1.3.0'' latestRuntimeUpgradeVersion = (w1, Inr r) \<and>
     applyRuntimeUpgrade (\<lambda>m. m) demo_env w1 r = (w', Inr 0) \<and>
     node_at w' [''pkg'', ''runtime'', ''server.go''] = Some (File ''new'' 420)"
proof -
  obtain w1 r w' where plan: "planRuntimeUpgrade (\<lambda>m. m) demo_env ''.'' demo_project ''1.3.0''
      latestRuntimeUpgradeVersion = (w1, Inr r)" "re_from r \<noteq> latestRuntimeUpgradeVersion" "re_from r = ''1.3.0''"
    and app: "applyRuntimeUpgrade (\<lambda>m. m) demo_env w1 r = (w', Inr 0)"
    using demo_upgrade by (auto simp: latestRuntimeUpgradeVersion_def)
  have path: "clean_rel ''pkg/runtime/server.go'' = [''pkg'', ''runtime'', ''server.go'']" by code_simp
  have sources: "case ManagedRuntimeSources (\<lambda>m. m) (ue_template demo_env) of
      Inr ts \<Rightarrow> gm_get ts ''pkg/runtime/server.go'' = Some ''new'' | _ \<Rightarrow> False" by code_simp
  have baseline: "case runtimeUpgradeBaseline demo_env ''1.3.0'' of
      Inr bl \<Rightarrow> gm_get bl ''pkg/runtime/server.go'' = Some ''old'' | _ \<Rightarrow> False" by code_simp
  have p: "''pkg/runtime/server.go'' \<in> set runtimeUpgradePaths" by (simp add: runtimeUpgradePaths_def)
  have n: "node_at demo_project (clean_rel ''pkg/runtime/server.go'') = Some (File ''old'' 420)"
    unfolding path by (simp add: demo_project_def)
  from upgrade_installs_plan [OF demo_tree plan(1,2) app p n] sources baseline plan(3)
  have "node_at w' (clean_rel ''pkg/runtime/server.go'') = Some (File ''new'' 420)" by auto
  then show ?thesis using plan(1) app path by auto
qed

theorem upgrade_rerun_changes_nothing_witness:
  "\<exists>w'. RunUpgrade (\<lambda>m. m) demo_env ''1.4.1'' (\<lambda>d. Inr ''.'') demo_project (Flags ''.'' ''1.3.0'' True 0) = (w', nil) \<and>
     pj_nodes (fst (RunUpgrade (\<lambda>m. m) demo_env ''1.4.1'' (\<lambda>d. Inr ''.'') w' (Flags ''.'' ''1.3.0'' True 0))) = pj_nodes w'"
proof -
  obtain w' where run: "RunUpgrade (\<lambda>m. m) demo_env ''1.4.1'' (\<lambda>d. Inr ''.'') demo_project
      (Flags ''.'' ''1.3.0'' True 0) = (w', nil)" using demo_run by blast
  have "\<forall>m s. ue_marshal demo_env m = Inr s \<longrightarrow>
      (\<exists>m'. ue_unmarshal demo_env (s @ [CHR 0x0A]) = Inr m' \<and> um_Version m' = um_Version m)"
    by (simp add: demo_env_def)
  from upgrade_rerun_changes_nothing [OF demo_tree this run refl refl] run show ?thesis by blast
qed

section \<open>Where the command stops short\<close>

text \<open>
  A conflict cannot be resolved the way its message asks: after an edit of the file the merge differs
  from the candidate that is there, which is neither replaced nor accepted.
\<close>

lemma stale_candidate_blocks:
  assumes "tree_ok w" "node_at w (clean_rel (ac_conflictTo a)) = Some (File c m)" "c \<noteq> ac_conflict a"
    and "ac_status a = Conflict"
  shows "isl (snd (apply_action w backupRoot n a))"
proof (rule ccontr)
  assume "\<not> isl (snd (apply_action w backupRoot n a))"
  then obtain w' n' where "apply_action w backupRoot n a = (w', Inr n')"
    by (cases "apply_action w backupRoot n a"; cases "snd (apply_action w backupRoot n a)") auto
  then obtain w1 u where w1: "pj_nodes w1 = pj_nodes w" and save: "save_candidate w1 a = (w', Inr u)"
    by (rule apply_action_cases) (use assms(4) in auto)
  have ok: "tree_ok w1" using assms(1) by (simp add: tree_ok_same [OF w1])
  have "isl (snd (writeNewProjectFile w1 (ac_conflictTo a) (ac_conflict a) 384))"
  proof (rule ccontr)
    assume "\<not> isl (snd (writeNewProjectFile w1 (ac_conflictTo a) (ac_conflict a) 384))"
    then obtain w2 v where "writeNewProjectFile w1 (ac_conflictTo a) (ac_conflict a) 384 = (w2, Inr v)"
      by (cases "snd (writeNewProjectFile w1 (ac_conflictTo a) (ac_conflict a) 384)") (auto simp: prod_eq_iff)
    then obtain w3 path where "safeProjectPath w1 (ac_conflictTo a) = (w3, Inr (path, None))"
      by (auto simp: writeNewProjectFile_def try_io_Inr split: if_splits)
    from safeProjectPath_Inr [OF this] show False using ok assms(2) w1 by simp
  qed
  then obtain w2 err where new: "writeNewProjectFile w1 (ac_conflictTo a) (ac_conflict a) 384 = (w2, Inl err)"
    by (cases "snd (writeNewProjectFile w1 (ac_conflictTo a) (ac_conflict a) 384)") (auto simp: prod_eq_iff)
  have g: "grows {} w1 w2" using writeNewProjectFile_grows [of "{}" w1 "ac_conflictTo a" "ac_conflict a" 384] new by simp
  then have there: "tree_ok w2" "node_at w2 (clean_rel (ac_conflictTo a)) = Some (File c m)"
    using ok assms(2) w1 by (auto simp: grows_def)
  from save new obtain w3 path n2 w4 where "safeProjectPath w2 (ac_conflictTo a) = (w3, Inr (path, Some n2))"
    and "read_file w3 path = (w4, Inr (ac_conflict a))"
    by (auto simp: save_candidate_def Let_def split: prod.splits sum.splits option.splits if_splits)
  then show False using there assms(3) safeProjectPath_Inr [of w2 "ac_conflictTo a"]
    by (auto dest!: read_file_Inr)
qed

text \<open>A release build stamped with a leading \<open>v\<close> is a release version, which the command refuses.\<close>

lemma prefixed_version_refused:
  "RunUpgrade it env (frameworkVersion ''v1.4.1'' b) resolve w args =
     (w, errorf ''this CLI contains the v1.4.1 runtime upgrade path, but reports vv1.4.1'')"
proof -
  have "frameworkVersion ''v1.4.1'' b = ''v1.4.1''"
    by (simp add: frameworkVersion_def IsReleaseVersion_def TrimPrefix_def)
  then show ?thesis by (simp add: RunUpgrade_def latestRuntimeUpgradeVersion_def)
qed

end
