(* ===== verification/Crud.thy ===== *)
theory Crud
  imports Project_Tree
begin

text \<open>
  The command \<open>fgoths generate crud\<close> (\<open>internal/cli/crud.go\<close>): parsing of entity and fields, the names
  derived from them, and the protocol that writes the generated files. Templates and their rendering
  are parameters. Paths are relative to the project directory, by components.
\<close>

section \<open>Names\<close>

definition is_upper :: "char \<Rightarrow> bool" where
  "is_upper c \<longleftrightarrow> CHR ''A'' \<le> c \<and> c \<le> CHR ''Z''"

definition is_lower :: "char \<Rightarrow> bool" where
  "is_lower c \<longleftrightarrow> CHR ''a'' \<le> c \<and> c \<le> CHR ''z''"

definition is_digit :: "char \<Rightarrow> bool" where
  "is_digit c \<longleftrightarrow> CHR ''0'' \<le> c \<and> c \<le> CHR ''9''"

text \<open>The loop of \<open>toSnake\<close>: an underscore before every capital but the first rune.\<close>

fun toSnake_loop :: "nat \<Rightarrow> string \<Rightarrow> string \<Rightarrow> string" where
  "toSnake_loop i out [] = out"
| "toSnake_loop i out (r # rs) =
     (if is_upper r then toSnake_loop (Suc i) ((if i > 0 then out @ ''_'' else out) @ [lower_byte r]) rs
      else toSnake_loop (Suc i) (out @ [r]) rs)"

definition toSnake :: "string \<Rightarrow> string" where
  "toSnake value = toSnake_loop 0 [] value"

definition pluralize :: "string \<Rightarrow> string" where
  "pluralize value = value @ ''s''"

text \<open>The slices \<open>value[:1]\<close> panic on the empty string; the callers give none.\<close>

definition lowerFirst :: "string \<Rightarrow> string" where
  "lowerFirst value = (case value of [] \<Rightarrow> [] | c # cs \<Rightarrow> lower_byte c # cs)"

fun exportName_loop :: "string \<Rightarrow> string list \<Rightarrow> string" where
  "exportName_loop out [] = out"
| "exportName_loop out (part # parts) =
     (case part of
        [] \<Rightarrow> exportName_loop out parts
      | c # cs \<Rightarrow> exportName_loop (out @ ToUpper [c] @ cs) parts)"

definition exportName :: "string \<Rightarrow> string" where
  "exportName value = exportName_loop [] (Split value CHR ''_'')"

text \<open>The two regular expressions, \<open>^[A-Z][A-Za-z0-9]*$\<close> and \<open>^[a-z][a-z0-9_]*$\<close>.\<close>

definition is_entity :: "string \<Rightarrow> bool" where
  "is_entity s = (case s of [] \<Rightarrow> False
     | c # cs \<Rightarrow> is_upper c \<and> list_all (\<lambda>c. is_upper c \<or> is_lower c \<or> is_digit c) cs)"

definition identifierPattern :: "string \<Rightarrow> bool" where
  "identifierPattern s = (case s of [] \<Rightarrow> False
     | c # cs \<Rightarrow> is_lower c \<and> list_all (\<lambda>c. is_lower c \<or> is_digit c \<or> c = CHR ''_'') cs)"

section \<open>Arguments\<close>

record crudField =
  cf_Name :: string
  cf_Exported :: string
  cf_GoType :: string
  cf_SQLType :: string
  cf_TestValue :: string

record crudData =
  cd_ProjectName :: string
  cd_Entity :: string
  cd_EntityLower :: string
  cd_Table :: string
  cd_Fields :: "crudField list"
  cd_Columns :: string
  cd_Placeholders :: string
  cd_ArgumentList :: string
  cd_ScanArguments :: string
  cd_Assignments :: string
  cd_IDPlaceholder :: string

definition supportedCRUDType :: "string \<Rightarrow> (string \<times> string) option" where
  "supportedCRUDType value =
     (if value = ''string'' then Some (''string'', ''TEXT'')
      else if value = ''bool'' then Some (''bool'', ''INTEGER'')
      else if value = ''int'' then Some (''int'', ''INTEGER'')
      else if value = ''int64'' then Some (''int64'', ''INTEGER'')
      else if value = ''float64'' then Some (''float64'', ''REAL'')
      else None)"

definition testValueFor :: "string \<Rightarrow> string" where
  "testValueFor goType =
     (if goType = ''string'' then [CHR 0x22] @ ''test'' @ [CHR 0x22]
      else if goType = ''bool'' then ''true''
      else if goType = ''int'' \<or> goType = ''int64'' then ''1''
      else if goType = ''float64'' then ''1.5''
      else [])"

text \<open>The loop over the field arguments, with the names seen so far.\<close>

fun parse_fields :: "string list \<Rightarrow> string list \<Rightarrow> crudField list \<Rightarrow> string + crudField list" where
  "parse_fields seen [] fs = Inr fs"
| "parse_fields seen (argument # arguments) fs =
     (case SplitN2 argument CHR '':'' of
        [name, type] \<Rightarrow>
          if \<not> identifierPattern name then Inl (''invalid field '' @ Quote argument @ ''; use lower_snake:type'')
          else if name \<in> set seen then Inl (''field '' @ Quote name @ '' is repeated'')
          else
            (case supportedCRUDType type of
               None \<Rightarrow> Inl (''unsupported type '' @ Quote type @ ''; use string, bool, int, int64 or float64'')
             | Some (goType, sqlType) \<Rightarrow>
                 parse_fields (name # seen) arguments (fs @
                   [\<lparr>cf_Name = name, cf_Exported = exportName name, cf_GoType = goType, cf_SQLType = sqlType,
                     cf_TestValue = testValueFor goType\<rparr>]))
      | _ \<Rightarrow> Inl (''invalid field '' @ Quote argument @ ''; use lower_snake:type''))"

definition placeholder_at :: "nat \<Rightarrow> string" where
  "placeholder_at index = ''?'' @ Itoa (int index + 1)"

definition parseCRUDArgs :: "string list \<Rightarrow> string + crudData" where
  "parseCRUDArgs args =
     (if length args < 2 then Inl ''usage: fgoths generate crud Entity field:type [field:type...]''
      else
        (let entity = hd args in
         if \<not> is_entity entity then Inl ''entity must be a PascalCase identifier''
         else
           (case parse_fields [] (tl args) [] of
              Inl err \<Rightarrow> Inl err
            | Inr fs \<Rightarrow>
                (let indexed = zip [0..<length fs] fs in
                 Inr \<lparr>cd_ProjectName = [], cd_Entity = entity, cd_EntityLower = lowerFirst entity,
                   cd_Table = pluralize (toSnake entity), cd_Fields = fs,
                   cd_Columns = Join (map cf_Name fs) '', '',
                   cd_Placeholders = Join (map (placeholder_at \<circ> fst) indexed) '', '',
                   cd_ArgumentList = Join (map (\<lambda>f. ''in.'' @ cf_Exported f) fs) '', '',
                   cd_ScanArguments = Join (''&item.ID'' # map (\<lambda>f. ''&item.'' @ cf_Exported f) fs) '', '',
                   cd_Assignments = Join (map (\<lambda>(i, f). cf_Name f @ '' = '' @ placeholder_at i) indexed) '', '',
                   cd_IDPlaceholder = placeholder_at (length fs)\<rparr>))))"
section \<open>The project directory\<close>

text \<open>
  \<open>os.ReadDir\<close>: the entries by name, with whether they are directories. \<open>os.Stat\<close> is \<open>lstat\<close>: a symbolic
  link is taken to lead out of the project, to something that exists.
\<close>

definition read_dir :: "project \<Rightarrow> string list \<Rightarrow> project \<times> (string + (string \<times> bool) list)" where
  "read_dir w dir = attempt w (\<lambda>w. (w,
     if node_at w dir = Some Dir then
       Inr (sort_key fst (map (\<lambda>(p, n). (last p, n = Dir)) (filter (\<lambda>(p, n). p \<noteq> [] \<and> butlast p = dir) (pj_nodes w))))
     else Inl ''no such directory''))"

definition requireMVCProject :: "project \<Rightarrow> project \<times> (string + unit)" where
  "requireMVCProject w =
     (case read_file w [''go.mod''] of
        (w, Inl _) \<Rightarrow> (w, Inl ''go.mod not found; run this inside a project generated by `fgoths init`'')
      | (w, Inr goMod) \<Rightarrow>
          if \<not> Contains goMod ''modernc.org/sqlite'' then
            (w, Inl ''CRUD generation requires SQLite; regenerate with `fgoths init --db=sqlite` or `--preset=webapp`'')
          else
            (case lstat w [''models''] of
               (w, Inr (Some _)) \<Rightarrow> (w, Inr ())
             | (w, _) \<Rightarrow>
                 (w, Inl ''CRUD generation requires an MVC webapp; regenerate with `fgoths init --preset=webapp`'')))"

fun module_line :: "string list \<Rightarrow> string + string" where
  "module_line [] = Inl ''could not determine module name from go.mod''"
| "module_line (line # rest) =
     (case Fields line of
        [keyword, name] \<Rightarrow> if keyword = ''module'' then Inr name else module_line rest
      | _ \<Rightarrow> module_line rest)"

definition currentModuleName :: "project \<Rightarrow> project \<times> (string + string)" where
  "currentModuleName w =
     try_io (read_file w [''go.mod'']) (\<lambda>w content. (w, module_line (Split content (CHR 0x0A))))"

section \<open>Writing the files\<close>

text \<open>The templates of the command by name; \<open>renderCRUDTemplate\<close> is a parameter.\<close>

datatype crud_template = crudModelTemplate | crudRepositoryTemplate | crudRepositoryTestTemplate
  | crudMigrationTemplate | crudHandlerTemplate | crudHandlerTestTemplate

type_synonym crud_files = "(string list, crud_template) gomap"

definition handler_path :: "crudData \<Rightarrow> string list" where
  "handler_path data = [''handlers'', toSnake (cd_Entity data) @ ''_handler.go'']"

definition handler_test_path :: "crudData \<Rightarrow> string list" where
  "handler_test_path data =
     (let name = last (handler_path data) in
      [''handlers'', take (length name - length ''.go'') name @ ''_test.go''])"

definition entity_files :: "crudData \<Rightarrow> crud_files" where
  "entity_files data =
     [([''models'', toSnake (cd_Entity data) @ ''.go''], crudModelTemplate),
      ([''internal'', ''database'', toSnake (cd_Entity data) @ ''_repository.go''], crudRepositoryTemplate),
      ([''internal'', ''database'', toSnake (cd_Entity data) @ ''_repository_test.go''], crudRepositoryTestTemplate),
      ([''migrations'', ''002_create_'' @ cd_Table data @ ''.sql''], crudMigrationTemplate)]"

definition handler_files :: "crudData \<Rightarrow> crud_files" where
  "handler_files data =
     [(handler_path data, crudHandlerTemplate), (handler_test_path data, crudHandlerTestTemplate)]"

fun check_absent :: "project \<Rightarrow> string list list \<Rightarrow> project \<times> (string + unit)" where
  "check_absent w [] = (w, Inr ())"
| "check_absent w (path # paths) =
     try_io (lstat w path) (\<lambda>w info.
       if info \<noteq> None then (w, Inl (''refusing to overwrite existing file '' @ Join path ''/''))
       else check_absent w paths)"

fun make_dirs :: "project \<Rightarrow> string list list \<Rightarrow> project \<times> (string + unit)" where
  "make_dirs w [] = (w, Inr ())"
| "make_dirs w (dir # dirs) = try_io (mkdir_all w dir) (\<lambda>w _. make_dirs w dirs)"

fun render_files :: "(crud_template \<Rightarrow> crudData \<Rightarrow> string + string) \<Rightarrow> crudData \<Rightarrow> project \<Rightarrow> crud_files \<Rightarrow>
    project \<times> (string + unit)" where
  "render_files render data w [] = (w, Inr ())"
| "render_files render data w ((path, source) # rest) =
     try_io (wrap_error (''render '' @ Join path ''/'') (w, render source data)) (\<lambda>w content.
     try_io (wrap_error (''write '' @ Join path ''/'') (write_file w path content 420)) (\<lambda>w _.
     render_files render data w rest))"

definition registered_entities :: "(string \<times> bool) list \<Rightarrow> string list" where
  "registered_entities entries = sort (map (\<lambda>(name, _). exportName (TrimSuffix name ''_handler.go''))
     (filter (\<lambda>(name, is_dir). \<not> (is_dir \<or> \<not> HasSuffix name ''_handler.go'')) entries))"

definition writeCRUDRouteRegistry :: "(string \<Rightarrow> string list \<Rightarrow> string + string) \<Rightarrow> project \<Rightarrow> string \<Rightarrow>
    project \<times> (string + unit)" where
  "writeCRUDRouteRegistry renderRegistry w projectName =
     try_io (wrap_error ''scan handlers'' (read_dir w [''handlers''])) (\<lambda>w entries.
     try_io (w, renderRegistry projectName (registered_entities entries)) (\<lambda>w output.
     write_file w [''handlers'', ''routes_gen.go''] output 420))"

definition writeCRUDFiles ::
    "(crud_files \<Rightarrow> crud_files) \<Rightarrow> (crud_template \<Rightarrow> crudData \<Rightarrow> string + string) \<Rightarrow>
     (string \<Rightarrow> string list \<Rightarrow> string + string) \<Rightarrow> project \<Rightarrow> crudData \<Rightarrow> project \<times> (string + unit)" where
  "writeCRUDFiles it render renderRegistry w data =
     try_io (check_absent w (map fst (it (entity_files data)))) (\<lambda>w _.
     case lstat w (handler_path data) of
       (w, Inr (Some _)) \<Rightarrow> (w, Inl (''refusing to overwrite existing file '' @ Join (handler_path data) ''/''))
     | (w, _) \<Rightarrow>
         try_io (make_dirs w [[''handlers''], [''models''], [''migrations''], [''internal'', ''database'']]) (\<lambda>w _.
         try_io (render_files render data w (it (handler_files data))) (\<lambda>w _.
         try_io (render_files render data w (it (entity_files data))) (\<lambda>w _.
         writeCRUDRouteRegistry renderRegistry w (cd_ProjectName data)))))"

definition RunGenerateCRUD ::
    "(crud_files \<Rightarrow> crud_files) \<Rightarrow> (crud_template \<Rightarrow> crudData \<Rightarrow> string + string) \<Rightarrow>
     (string \<Rightarrow> string list \<Rightarrow> string + string) \<Rightarrow> project \<Rightarrow> string list \<Rightarrow> project \<times> (string + unit)" where
  "RunGenerateCRUD it render renderRegistry w args =
     try_io (w, parseCRUDArgs args) (\<lambda>w data.
     try_io (requireMVCProject w) (\<lambda>w _.
     try_io (currentModuleName w) (\<lambda>w projectName.
     wrap_error ''Could not generate CRUD''
       (writeCRUDFiles it render renderRegistry w (data\<lparr>cd_ProjectName := projectName\<rparr>)))))"

end
