(* ===== verification/Crud_Safety.thy ===== *)
theory Crud_Safety
  imports Crud
begin

text \<open>
  What \<open>fgoths generate crud\<close> guarantees: names convert back and forth, arguments are accepted exactly
  if they are well formed, existing files are kept, and a successful run registers the entity.
\<close>

section \<open>Names\<close>

lemma is_upper_code: "is_upper c \<longleftrightarrow> 65 \<le> (of_char c :: nat) \<and> (of_char c :: nat) \<le> 90"
  and is_lower_code: "is_lower c \<longleftrightarrow> 97 \<le> (of_char c :: nat) \<and> (of_char c :: nat) \<le> 122"
  by (simp_all add: is_upper_def is_lower_def less_eq_char_def)

lemma lower_upper:
  assumes "is_upper c"
  shows "is_lower (lower_byte c)" "upper_byte (lower_byte c) = c" "lower_byte c \<noteq> CHR ''_''"
proof -
  have code: "(of_char (lower_byte c) :: nat) = of_char c + 32"
    using assms by (simp add: lower_byte_def is_upper_def [symmetric] is_upper_code)
  then show low: "is_lower (lower_byte c)" using assms by (simp add: is_upper_code is_lower_code)
  then show "upper_byte (lower_byte c) = c" using code
    by (simp add: upper_byte_def is_lower_def [symmetric])
  show "lower_byte c \<noteq> CHR ''_''" using low by (auto simp: is_lower_def)
qed

definition snake_tail :: "string \<Rightarrow> string" where
  "snake_tail s = concat (map (\<lambda>r. if is_upper r then [CHR ''_'', lower_byte r] else [r]) s)"

lemma toSnake_loop_tail: "i > 0 \<Longrightarrow> toSnake_loop i out s = out @ snake_tail s"
  by (induction i out s rule: toSnake_loop.induct) (auto simp: snake_tail_def)

lemma toSnake_entity: "is_upper c \<Longrightarrow> toSnake (c # cs) = lower_byte c # snake_tail cs"
  by (simp add: toSnake_def toSnake_loop_tail)

definition capital :: "string \<Rightarrow> string" where
  "capital part = (case part of [] \<Rightarrow> [] | c # cs \<Rightarrow> upper_byte c # cs)"

lemma capital_simps [simp]: "capital [] = []" "capital (c # cs) = upper_byte c # cs"
  by (simp_all add: capital_def)

lemma exportName_parts: "exportName v = concat (map capital (Split v CHR ''_''))"
proof -
  have "exportName_loop out parts = out @ concat (map capital parts)" for out parts
    by (induction out parts rule: exportName_loop.induct)
      (auto simp: ToUpper_def split: list.splits)
  then show ?thesis by (simp add: exportName_def)
qed

lemma snake_tail_parts:
  assumes "CHR ''_'' \<notin> set cs"
  shows "\<exists>p ps. Split (snake_tail cs) CHR ''_'' = p # ps \<and> p @ concat (map capital ps) = cs"
  using assms
proof (induction cs)
  case (Cons r rs)
  then obtain p ps where ps: "Split (snake_tail rs) CHR ''_'' = p # ps" "p @ concat (map capital ps) = rs" by auto
  show ?case
  proof (cases "is_upper r")
    case True
    then have "Split (snake_tail (r # rs)) CHR ''_'' = [] # (lower_byte r # p) # ps"
      using ps(1) lower_upper [OF True] by (simp add: snake_tail_def)
    then show ?thesis using ps(2) lower_upper [OF True] by auto
  next
    case False
    then have "Split (snake_tail (r # rs)) CHR ''_'' = (r # p) # ps"
      using ps(1) Cons.prems by (auto simp: snake_tail_def)
    then show ?thesis using ps(2) by auto
  qed
qed (auto simp: snake_tail_def)

lemma exportName_toSnake:
  assumes "is_entity e"
  shows "exportName (toSnake e) = e"
proof -
  obtain c cs where e: "e = c # cs" "is_upper c" and "list_all (\<lambda>c. is_upper c \<or> is_lower c \<or> is_digit c) cs"
    using assms by (auto simp: is_entity_def split: list.splits)
  then have "CHR ''_'' \<notin> set cs" by (auto simp: list_all_iff is_upper_def is_lower_def is_digit_def)
  from snake_tail_parts [OF this] obtain p ps where
    ps: "Split (snake_tail cs) CHR ''_'' = p # ps" "p @ concat (map capital ps) = cs" by blast
  then show ?thesis using e(1) lower_upper [OF e(2)] toSnake_entity [OF e(2), of cs]
    by (simp add: exportName_parts)
qed

lemma toSnake_identifier: "is_entity e \<Longrightarrow> identifierPattern (toSnake e)"
proof -
  assume "is_entity e"
  then obtain c cs where e: "e = c # cs" "is_upper c" and cs: "list_all (\<lambda>c. is_upper c \<or> is_lower c \<or> is_digit c) cs"
    by (auto simp: is_entity_def split: list.splits)
  have "list_all (\<lambda>c. is_lower c \<or> is_digit c \<or> c = CHR ''_'') (snake_tail cs)"
    using cs lower_upper(1) by (induction cs) (auto simp: snake_tail_def)
  then show ?thesis using e lower_upper(1) by (simp add: toSnake_entity identifierPattern_def)
qed

section \<open>Arguments\<close>

text \<open>A field argument \<open>name:type\<close>, and the record made of it.\<close>

definition field_of :: "string \<Rightarrow> (string \<times> string) option" where
  "field_of argument = (case SplitN2 argument CHR '':'' of [name, type] \<Rightarrow> Some (name, type) | _ \<Rightarrow> None)"

definition good_field :: "string \<Rightarrow> bool" where
  "good_field argument \<longleftrightarrow> (case field_of argument of
     None \<Rightarrow> False | Some (name, type) \<Rightarrow> identifierPattern name \<and> supportedCRUDType type \<noteq> None)"

definition make_field :: "string \<Rightarrow> crudField" where
  "make_field argument = (case field_of argument of
     Some (name, type) \<Rightarrow>
       (case supportedCRUDType type of
          Some (goType, sqlType) \<Rightarrow> \<lparr>cf_Name = name, cf_Exported = exportName name, cf_GoType = goType,
            cf_SQLType = sqlType, cf_TestValue = testValueFor goType\<rparr>))"

definition fields_good :: "string list \<Rightarrow> string list \<Rightarrow> bool" where
  "fields_good seen args \<longleftrightarrow> list_all good_field args \<and> distinct (map (fst \<circ> the \<circ> field_of) args) \<and>
     (\<forall>a \<in> set args. fst (the (field_of a)) \<notin> set seen)"

lemma fields_good_simps:
  "fields_good seen []"
  "fields_good seen (a # args) \<longleftrightarrow> good_field a \<and> fst (the (field_of a)) \<notin> set seen \<and>
     fields_good (fst (the (field_of a)) # seen) args"
  by (simp_all add: fields_good_def comp_def) (metis (mono_tags, lifting) image_iff)

lemma parse_fields_step:
  "parse_fields seen (a # args) fs =
     (case field_of a of
        None \<Rightarrow> Inl (''invalid field '' @ Quote a @ ''; use lower_snake:type'')
      | Some (name, type) \<Rightarrow>
          if \<not> identifierPattern name then Inl (''invalid field '' @ Quote a @ ''; use lower_snake:type'')
          else if name \<in> set seen then Inl (''field '' @ Quote name @ '' is repeated'')
          else if supportedCRUDType type = None then
            Inl (''unsupported type '' @ Quote type @ ''; use string, bool, int, int64 or float64'')
          else parse_fields (name # seen) args (fs @ [make_field a]))"
  by (simp add: field_of_def make_field_def split: list.splits option.splits)

lemma parse_fields_Inr:
  "parse_fields seen args fs = Inr fs' \<longleftrightarrow> fields_good seen args \<and> fs' = fs @ map make_field args"
proof (induction args arbitrary: seen fs)
  case (Cons a args)
  show ?case
  proof (cases "field_of a")
    case (Some nt)
    then show ?thesis using Cons [of "fst nt # seen" "fs @ [make_field a]"]
      by (cases nt) (auto simp: parse_fields_step fields_good_simps good_field_def simp del: parse_fields.simps)
  qed (simp add: parse_fields_step fields_good_simps good_field_def del: parse_fields.simps)
qed (auto simp: fields_good_simps)

lemma parseCRUDArgs_Inr:
  "(\<exists>data. parseCRUDArgs args = Inr data) \<longleftrightarrow>
     (\<exists>e fs. args = e # fs \<and> fs \<noteq> [] \<and> is_entity e \<and> fields_good [] fs)"
  "parseCRUDArgs args = Inr data \<Longrightarrow> cd_Entity data = hd args \<and> is_entity (hd args) \<and>
     cd_Fields data = map make_field (tl args) \<and> cd_Table data = toSnake (hd args) @ ''s''"
proof -
  show "(\<exists>data. parseCRUDArgs args = Inr data) \<longleftrightarrow>
     (\<exists>e fs. args = e # fs \<and> fs \<noteq> [] \<and> is_entity e \<and> fields_good [] fs)"
  proof (cases args)
    case (Cons e fs)
    show ?thesis
    proof (cases "parse_fields [] fs []")
      case (Inl err)
      then have "\<not> fields_good [] fs" using parse_fields_Inr [of "[]" fs "[]"] by auto
      then show ?thesis using Cons Inl by (auto simp: parseCRUDArgs_def)
    next
      case (Inr fs')
      then have "fields_good [] fs" using parse_fields_Inr [of "[]" fs "[]"] by auto
      then show ?thesis using Cons Inr by (cases fs) (auto simp: parseCRUDArgs_def Let_def)
    qed
  qed (simp add: parseCRUDArgs_def)
  show "parseCRUDArgs args = Inr data \<Longrightarrow> cd_Entity data = hd args \<and> is_entity (hd args) \<and>
     cd_Fields data = map make_field (tl args) \<and> cd_Table data = toSnake (hd args) @ ''s''"
    by (auto simp: parseCRUDArgs_def Let_def parse_fields_Inr pluralize_def split: if_splits sum.splits)
qed

section \<open>Files that are kept\<close>

lemma read_dir_same [simp]: "pj_nodes (fst (read_dir w dir)) = pj_nodes w"
  by (simp add: read_dir_def)

text \<open>
  Relative to a state where certain paths are absent, writing to them keeps everything: from then on
  they may be written as often as the command likes.
\<close>

lemma grows_absent:
  "grows (S \<union> E) w w' \<Longrightarrow> \<forall>p \<in> E. node_at w p = None \<Longrightarrow> grows S w w'"
  unfolding grows_def by (metis Un_iff option.distinct(1))

lemma check_absent_same [simp]: "pj_nodes (fst (check_absent w paths)) = pj_nodes w"
  by (induction w paths rule: check_absent.induct) (auto intro!: try_io_same)

lemma check_absent_Inr:
  "check_absent w paths = (w', Inr u) \<Longrightarrow> pj_nodes w' = pj_nodes w \<and> (\<forall>p \<in> set paths. node_at w p = None)"
proof (induction paths arbitrary: w)
  case (Cons p paths)
  then obtain w1 info where l: "lstat w p = (w1, Inr info)" "info = None"
    and rest: "check_absent w1 paths = (w', Inr u)"
    by (auto simp: try_io_Inr split: if_splits)
  with lstat_Inr [OF l(1)] Cons.IH [OF rest] show ?case by auto
qed simp

lemma make_dirs_grows: "grows S w (fst (make_dirs w dirs))"
  by (induction w dirs rule: make_dirs.induct) (auto intro!: grows_io.seq mkdir_all_grows)

lemma render_files_grows:
  "fst ` set files \<subseteq> S \<Longrightarrow> grows S w (fst (render_files render data w files))"
  by (induction render data w files rule: render_files.induct)
    (auto intro!: grows_io.seq write_file_grows)

lemma writeCRUDRouteRegistry_grows:
  "[''handlers'', ''routes_gen.go''] \<in> S \<Longrightarrow> grows S w (fst (writeCRUDRouteRegistry rr w name))"
  unfolding writeCRUDRouteRegistry_def
  by (rule grows_io.seq, simp add: grows_same, rule grows_io.seq) (auto intro: write_file_grows)

lemma lstat_Inl: "lstat w p = (w', Inl err) \<Longrightarrow> pj_nodes w' = pj_nodes w \<and> pj_fault w (pj_tick w) \<noteq> nil"
  by (auto simp: lstat_def attempt_def split: option.splits)

lemma check_absent_faults [simp]: "pj_fault (fst (check_absent w paths)) = pj_fault w"
  by (induction w paths rule: check_absent.induct) (auto intro!: fault_io.seq)

definition routes_gen :: "string list" where
  "routes_gen = [''handlers'', ''routes_gen.go'']"

text \<open>The paths a run for an entity may replace: the handler only after its inspection has failed.\<close>

definition crud_replaces :: "project \<Rightarrow> crudData \<Rightarrow> string list set" where
  "crud_replaces w data = {handler_test_path data, routes_gen} \<union>
     (if \<exists>t. pj_fault w t \<noteq> nil then {handler_path data} else {})"

lemma writeCRUDFiles_grows:
  assumes it: "is_range it"
  shows "grows (crud_replaces w data) w (fst (writeCRUDFiles it render rr w data))"
proof -
  let ?E = "fst ` set (entity_files data)" and ?S = "crud_replaces w data"
  have sets: "set (it (entity_files data)) = set (entity_files data)" "set (it (handler_files data)) = set (handler_files data)"
    using is_range_set [OF it] by simp_all
  have hs: "fst ` set (handler_files data) = {handler_path data, handler_test_path data}"
    by (simp add: handler_files_def)
  obtain w1 x where ca: "check_absent w (map fst (it (entity_files data))) = (w1, x)"
    by (cases "check_absent w (map fst (it (entity_files data)))")
  have w1: "pj_nodes w1 = pj_nodes w" "pj_fault w1 = pj_fault w"
    using check_absent_same [of w "map fst (it (entity_files data))"]
      check_absent_faults [of w "map fst (it (entity_files data))"] ca by simp_all
  show ?thesis
  proof (cases x)
    case (Inl err)
    then show ?thesis using ca w1 by (simp add: writeCRUDFiles_def try_io_def grows_same)
  next
    case (Inr u)
    have absent: "\<forall>p \<in> ?E. node_at w p = None"
      using check_absent_Inr [of w _ w1 u] ca Inr sets by auto
    obtain w2 y where l: "lstat w1 (handler_path data) = (w2, y)" by (cases "lstat w1 (handler_path data)")
    then have w2: "pj_nodes w2 = pj_nodes w" using lstat_same [of w1 "handler_path data"] w1 by simp
    let ?m = "try_io (make_dirs w2 [[''handlers''], [''models''], [''migrations''], [''internal'', ''database'']]) (\<lambda>w _.
        try_io (render_files render data w (it (handler_files data))) (\<lambda>w _.
        try_io (render_files render data w (it (entity_files data))) (\<lambda>w _.
        writeCRUDRouteRegistry rr w (cd_ProjectName data))))"
    let ?T = "{handler_path data, handler_test_path data, routes_gen} \<union> ?E"
    have "grows ?T w2 (fst ?m)"
      by (intro grows_io.seq make_dirs_grows render_files_grows writeCRUDRouteRegistry_grows)
        (auto simp: sets hs routes_gen_def)
    then have g: "grows ?T w (fst ?m)" by (rule grows_trans [OF grows_same [OF w2]])
    show ?thesis
    proof (cases "\<exists>n. y = Inr (Some n)")
      case True
      then show ?thesis using ca Inr l w2 by (auto simp: writeCRUDFiles_def try_io_def intro!: grows_same)
    next
      case False
      then have res: "fst (writeCRUDFiles it render rr w data) = fst ?m"
        unfolding writeCRUDFiles_def ca Inr try_io_def [of "(w1, Inr u)"] prod.case sum.case l
        by (cases y) (auto split: option.split)
      have "node_at w (handler_path data) = None \<or> handler_path data \<in> ?S"
      proof (cases y)
        case (Inl err)
        then have "\<exists>t. pj_fault w t \<noteq> nil" using lstat_Inl [of w1 "handler_path data" w2 err] l w1 by auto
        then show ?thesis by (simp add: crud_replaces_def)
      next
        case (Inr i)
        then have "i = None" using False by (cases i) auto
        then show ?thesis using lstat_Inr [of w1 "handler_path data" w2 i] l Inr w1 by simp
      qed
      then have "grows ?S w (fst ?m)"
      proof
        assume none: "node_at w (handler_path data) = None"
        have "?T \<subseteq> ?S \<union> insert (handler_path data) ?E" unfolding crud_replaces_def by blast
        from grows_mono [OF g this] show ?thesis by (rule grows_absent) (use none absent in auto)
      next
        assume "handler_path data \<in> ?S"
        then have "?T \<subseteq> ?S \<union> ?E" unfolding crud_replaces_def by blast
        from grows_mono [OF g this] show ?thesis by (rule grows_absent) (use absent in auto)
      qed
      then show ?thesis unfolding res .
    qed
  qed
qed

section \<open>What a run does\<close>

lemma run_parts:
  "pj_nodes (fst (requireMVCProject w)) = pj_nodes w" "pj_fault (fst (requireMVCProject w)) = pj_fault w"
  "pj_nodes (fst (currentModuleName w)) = pj_nodes w" "pj_fault (fst (currentModuleName w)) = pj_fault w"
proof -
  have r: "pj_nodes w1 = pj_nodes w \<and> pj_fault w1 = pj_fault w" if "read_file w p = (w1, x)" for w1 :: project and w x p
    using read_file_same [of w p] faults_kept(2) [of w p] that by simp
  have l: "pj_nodes w1 = pj_nodes w \<and> pj_fault w1 = pj_fault w" if "lstat w p = (w1, x)" for w1 :: project and w x p
    using lstat_same [of w p] faults_kept(1) [of w p] that by simp
  show "pj_nodes (fst (requireMVCProject w)) = pj_nodes w" "pj_fault (fst (requireMVCProject w)) = pj_fault w"
    by (auto simp: requireMVCProject_def split: prod.splits sum.splits option.splits dest!: r l)
  show "pj_nodes (fst (currentModuleName w)) = pj_nodes w" "pj_fault (fst (currentModuleName w)) = pj_fault w"
    by (auto simp: currentModuleName_def try_io_def split: prod.splits sum.splits dest!: r)
qed

lemma RunGenerateCRUD_cases:
  obtains (early) "pj_nodes (fst (RunGenerateCRUD it render rr w args)) = pj_nodes w"
      "\<forall>u. snd (RunGenerateCRUD it render rr w args) \<noteq> Inr u"
  | (run) data w1 name where "parseCRUDArgs args = Inr data" "pj_nodes w1 = pj_nodes w" "pj_fault w1 = pj_fault w"
      "\<exists>w0. currentModuleName w0 = (w1, Inr name) \<and> pj_nodes w0 = pj_nodes w"
      "RunGenerateCRUD it render rr w args = wrap_error ''Could not generate CRUD''
        (writeCRUDFiles it render rr w1 (data\<lparr>cd_ProjectName := name\<rparr>))"
proof (cases "parseCRUDArgs args")
  case (Inl err)
  then show thesis by (intro early) (simp_all add: RunGenerateCRUD_def try_io_def)
next
  case (Inr data)
  obtain w0 x where req: "requireMVCProject w = (w0, x)" by (cases "requireMVCProject w")
  obtain w1 y where cur: "currentModuleName w0 = (w1, y)" by (cases "currentModuleName w0")
  have w0: "pj_nodes w0 = pj_nodes w" "pj_fault w0 = pj_fault w" using run_parts(1,2) [of w] req by simp_all
  have w1: "pj_nodes w1 = pj_nodes w" "pj_fault w1 = pj_fault w" using run_parts(3,4) [of w0] cur w0 by simp_all
  show thesis
  proof (cases "\<exists>u name. x = Inr u \<and> y = Inr name")
    case True
    then obtain u name where xy: "x = Inr u" "y = Inr name" by blast
    then have "RunGenerateCRUD it render rr w args = wrap_error ''Could not generate CRUD''
        (writeCRUDFiles it render rr w1 (data\<lparr>cd_ProjectName := name\<rparr>))"
      using Inr req cur by (simp add: RunGenerateCRUD_def try_io_def)
    moreover have "\<exists>w0. currentModuleName w0 = (w1, Inr name) \<and> pj_nodes w0 = pj_nodes w"
      using cur xy w0 by blast
    ultimately show thesis using run Inr w1 by blast
  next
    case False
    then show thesis using Inr req cur w0 w1
      by (intro early) (auto simp: RunGenerateCRUD_def try_io_def split: sum.splits)
  qed
qed


section \<open>What a successful run leaves\<close>

lemma make_dirs_other: "\<forall>dir \<in> set dirs. \<not> prefix r dir \<Longrightarrow> node_at (fst (make_dirs w dirs)) r = node_at w r"
  by (induction w dirs rule: make_dirs.induct) (auto intro!: kept_io.seq mkdir_all_other)

text \<open>Files written one after another under different paths all hold what was rendered.\<close>

lemma render_files_Inr:
  assumes "render_files render data w files = (w', Inr u)" "tree_ok w" "distinct (map fst files)"
    and "\<forall>p \<in> fst ` set files. node_at w p \<notin> {Some Symlink, Some Special}"
    and "(p, source) \<in> set files"
  shows "\<exists>c k. render source data = Inr c \<and> node_at w' p = Some (File c k)"
  using assms
proof (induction files arbitrary: w)
  case (Cons f files)
  obtain q s where f: "f = (q, s)" by (cases f)
  with Cons.prems obtain c w1 v where c: "render s data = Inr c" and w1: "write_file w q c 420 = (w1, Inr v)"
    and rest: "render_files render data w1 files = (w', Inr u)"
    by (auto simp: try_io_Inr)
  have g: "grows {q} w w1" using write_file_grows [of q "{q}" w c 420] w1 by simp
  have ok: "tree_ok w1" using g Cons.prems(2) by (simp add: grows_def)
  obtain k where q: "node_at w1 q = Some (File c k)"
    using write_file_File [OF w1] Cons.prems(4) f by auto
  show ?case
  proof (cases "(p, source) = (q, s)")
    case True
    have "q \<notin> fst ` set files" using Cons.prems(3) f by auto
    then have "grows (fst ` set files) w1 w'" "node_at w' q = Some (File c k)"
      using render_files_grows [of files "fst ` set files" w1 render data] rest q ok by (auto simp: grows_def)
    then show ?thesis using True c by auto
  next
    case False
    have same: "node_at w1 r = node_at w r" if "r \<in> fst ` set files" for r
    proof -
      have "r \<noteq> q" using that Cons.prems(3) f by auto
      then show ?thesis using write_file_other [of r q w c 420] w1 by simp
    qed
    have "\<forall>r \<in> fst ` set files. node_at w1 r \<notin> {Some Symlink, Some Special}"
      using same Cons.prems(4) by (simp add: f)
    moreover have "distinct (map fst files)" "(p, source) \<in> set files" using Cons.prems(3,5) False f by auto
    ultimately show ?thesis using Cons.IH [OF rest ok] by blast
  qed
qed simp

lemma render_files_other:
  "r \<notin> fst ` set files \<Longrightarrow> node_at (fst (render_files render data w files)) r = node_at w r"
  by (induction render data w files rule: render_files.induct)
    (auto intro!: kept_io.seq write_file_other)

definition regular_tree :: "project \<Rightarrow> bool" where
  "regular_tree w \<longleftrightarrow> (\<forall>p. node_at w p \<notin> {Some Symlink, Some Special})"

definition crud_dirs :: "string list list" where
  "crud_dirs = [[''handlers''], [''models''], [''migrations''], [''internal'', ''database'']]"

lemma handler_test_path_eq:
  "handler_test_path data = [''handlers'', toSnake (cd_Entity data) @ ''_handler_test.go'']"
  by (simp add: handler_test_path_def handler_path_def)

lemma suffix_differs: "x @ ''_handler.go'' \<noteq> ''routes_gen.go''" "x @ ''_handler_test.go'' \<noteq> ''routes_gen.go''"
  by (auto dest: arg_cong [of _ _ rev])

lemma crud_paths:
  "distinct (map fst (entity_files data) @ map fst (handler_files data) @ [routes_gen])"
  by (simp add: entity_files_def handler_files_def handler_test_path_eq handler_path_def routes_gen_def suffix_differs)

lemma crud_paths_dirs:
  "p \<in> fst ` set (entity_files data) \<union> fst ` set (handler_files data) \<union> {routes_gen} \<Longrightarrow> dir \<in> set crud_dirs \<Longrightarrow>
     \<not> prefix p dir"
  by (auto simp: entity_files_def handler_files_def handler_test_path_eq handler_path_def routes_gen_def crud_dirs_def)

text \<open>The files in a directory are among its entries.\<close>

lemma read_dir_Inr:
  assumes "read_dir w dir = (w', Inr entries)" "node_at w (dir @ [name]) = Some (File c k)"
  shows "(name, False) \<in> set entries"
proof -
  have node: "(dir @ [name], File c k) \<in> set (pj_nodes w)" using assms(2) by (rule map_of_SomeD)
  have "set entries = (\<lambda>(p, n). (last p, n = Dir)) ` {(p, n) \<in> set (pj_nodes w). p \<noteq> [] \<and> butlast p = dir}"
    using assms(1) by (auto simp: read_dir_def attempt_def split: option.splits if_splits)
  moreover have "(\<lambda>(p, n). (last p, n = Dir)) (dir @ [name], File c k) = (name, False)" by simp
  ultimately show ?thesis using node by (auto intro: image_eqI [where x = "(dir @ [name], File c k)"])
qed

lemma registered_entities_handler:
  "(name, False) \<in> set entries \<Longrightarrow> HasSuffix name ''_handler.go'' \<Longrightarrow>
     exportName (TrimSuffix name ''_handler.go'') \<in> set (registered_entities entries)"
  by (force simp: registered_entities_def)

lemma sorted_registered_entities: "sorted (registered_entities entries)"
  by (simp add: registered_entities_def)

definition regenerated :: "project \<Rightarrow> (string \<Rightarrow> string list \<Rightarrow> string + string) \<Rightarrow> string \<Rightarrow> string list \<Rightarrow> bool" where
  "regenerated w rr name es \<longleftrightarrow> sorted es \<and>
     (\<exists>out k. rr name es = Inr out \<and> node_at w routes_gen = Some (File out k)) \<and>
     (\<forall>n c k. node_at w [''handlers'', n] = Some (File c k) \<and> HasSuffix n ''_handler.go'' \<longrightarrow>
        exportName (TrimSuffix n ''_handler.go'') \<in> set es)"

lemma writeCRUDRouteRegistry_Inr:
  assumes "writeCRUDRouteRegistry rr w name = (w', Inr u)" "node_at w routes_gen \<notin> {Some Symlink, Some Special}"
  shows "(\<exists>es. regenerated w' rr name es) \<and> (\<forall>p. p \<noteq> routes_gen \<longrightarrow> node_at w' p = node_at w p)"
proof -
  obtain w1 entries out where r: "read_dir w [''handlers''] = (w1, Inr entries)"
    and out: "rr name (registered_entities entries) = Inr out"
    and wr: "write_file w1 routes_gen out 420 = (w', Inr u)"
    using assms(1) by (auto simp: writeCRUDRouteRegistry_def try_io_Inr routes_gen_def)
  have w1: "pj_nodes w1 = pj_nodes w" using read_dir_same [of w "[''handlers'']"] r by simp
  have other: "node_at w' p = node_at w p" if "p \<noteq> routes_gen" for p
    using write_file_other [OF that, of w1 out 420] wr w1 by simp
  obtain k where "node_at w' routes_gen = Some (File out k)"
    using write_file_File [OF wr] assms(2) w1 by auto
  moreover have "exportName (TrimSuffix n ''_handler.go'') \<in> set (registered_entities entries)"
    if n: "node_at w' [''handlers'', n] = Some (File c k)" "HasSuffix n ''_handler.go''" for n c k
  proof -
    have "n \<noteq> ''routes_gen.go''" using n(2) by (auto simp: HasSuffix_def)
    then have "node_at w ([''handlers''] @ [n]) = Some (File c k)" using n(1) other by (simp add: routes_gen_def)
    from read_dir_Inr [OF r this] n(2) show ?thesis by (rule registered_entities_handler)
  qed
  ultimately show ?thesis using out other sorted_registered_entities unfolding regenerated_def by blast
qed

lemma writeCRUDFiles_Inr:
  assumes it: "is_range it" and w: "tree_ok w" "regular_tree w"
    and run: "writeCRUDFiles it render rr w data = (w', Inr u)"
  shows "\<forall>(p, source) \<in> set (entity_files data) \<union> set (handler_files data).
      \<exists>c k. render source data = Inr c \<and> node_at w' p = Some (File c k)"
    and "\<exists>es. regenerated w' rr (cd_ProjectName data) es"
proof -
  let ?ef = "it (entity_files data)" and ?hf = "it (handler_files data)"
  have sets: "set ?ef = set (entity_files data)" "set ?hf = set (handler_files data)"
    using is_range_set [OF it] by simp_all
  have dist: "distinct (map fst ?ef)" "distinct (map fst ?hf)" "fst ` set ?ef \<inter> fst ` set ?hf = {}"
    "routes_gen \<notin> fst ` set ?ef \<union> fst ` set ?hf"
    using crud_paths [of data] is_range_ok [OF it, of "entity_files data"] is_range_ok [OF it, of "handler_files data"]
    by (auto simp: gm_ok_def sets)
  let ?rest = "\<lambda>w. try_io (make_dirs w crud_dirs) (\<lambda>w _. try_io (render_files render data w ?hf) (\<lambda>w _.
    try_io (render_files render data w ?ef) (\<lambda>w _. writeCRUDRouteRegistry rr w (cd_ProjectName data))))"
  obtain w1 where ca: "check_absent w (map fst ?ef) = (w1, Inr ())"
    and r1: "(case lstat w1 (handler_path data) of
       (w, Inr (Some _)) \<Rightarrow> (w, Inl (''refusing to overwrite existing file '' @ Join (handler_path data) ''/''))
     | (w, _) \<Rightarrow> ?rest w) = (w', Inr u)"
    using run unfolding writeCRUDFiles_def crud_dirs_def [symmetric] by (simp only: try_io_Inr) auto
  obtain w2 y where l: "lstat w1 (handler_path data) = (w2, y)" by (cases "lstat w1 (handler_path data)")
  with r1 have "?rest w2 = (w', Inr u)" by (simp split: sum.splits option.splits)
  then obtain w3 w4 w5 v where md: "make_dirs w2 crud_dirs = (w3, Inr ())"
    and rh: "render_files render data w3 ?hf = (w4, Inr ())"
    and re: "render_files render data w4 ?ef = (w5, Inr ())"
    and rg: "writeCRUDRouteRegistry rr w5 (cd_ProjectName data) = (w', Inr v)"
    by (auto simp: try_io_Inr)
  have w2: "pj_nodes w2 = pj_nodes w"
    using check_absent_Inr [OF ca] lstat_same [of w1 "handler_path data"] l by simp
  have ok3: "tree_ok w3"
    using make_dirs_grows [of "{}" w2 crud_dirs] md w(1) tree_ok_same [OF w2] by (simp add: grows_def)
  have n3: "node_at w3 p = node_at w p" if "p \<in> fst ` set ?ef \<union> fst ` set ?hf \<union> {routes_gen}" for p
    using make_dirs_other [of crud_dirs p w2] crud_paths_dirs [of p data] that md w2 by (auto simp: sets)
  have regular: "node_at w p \<notin> {Some Symlink, Some Special}" for p
    using w(2) by (auto simp: regular_tree_def)
  have n4: "node_at w4 p = node_at w3 p" if "p \<notin> fst ` set ?hf" for p
    using render_files_other [OF that, of render data w3] rh by simp
  have n5: "node_at w5 p = node_at w4 p" if "p \<notin> fst ` set ?ef" for p
    using render_files_other [OF that, of render data w4] re by simp
  have ok4: "tree_ok w4"
    using render_files_grows [of ?hf "fst ` set ?hf" w3 render data] rh ok3 by (simp add: grows_def)
  have h: "\<exists>c k. render s data = Inr c \<and> node_at w4 p = Some (File c k)" if "(p, s) \<in> set ?hf" for p s
    using render_files_Inr [OF rh ok3 dist(2) _ that] n3 regular by auto
  have e: "\<exists>c k. render s data = Inr c \<and> node_at w5 p = Some (File c k)" if "(p, s) \<in> set ?ef" for p s
  proof (rule render_files_Inr [OF re ok4 dist(1) _ that])
    show "\<forall>p \<in> fst ` set ?ef. node_at w4 p \<notin> {Some Symlink, Some Special}"
      using n3 n4 dist(3) regular by (metis IntI UnCI empty_iff)
  qed
  have "routes_gen \<notin> fst ` set ?ef" "routes_gen \<notin> fst ` set ?hf" using dist(4) by simp_all
  then have "node_at w5 routes_gen \<notin> {Some Symlink, Some Special}" using n3 n4 n5 regular by simp
  from writeCRUDRouteRegistry_Inr [OF rg this]
  have gen: "\<exists>es. regenerated w' rr (cd_ProjectName data) es" and n6: "p \<noteq> routes_gen \<Longrightarrow> node_at w' p = node_at w5 p" for p
    by blast+
  show "\<exists>es. regenerated w' rr (cd_ProjectName data) es" by (fact gen)
  have "\<exists>c k. render s data = Inr c \<and> node_at w' p = Some (File c k)" if "(p, s) \<in> set ?ef \<union> set ?hf" for p s
  proof -
    have p: "p \<noteq> routes_gen" using that dist(4) by force
    from that show ?thesis
    proof
      assume "(p, s) \<in> set ?ef"
      then show ?thesis using e n6 [OF p] by auto
    next
      assume hf: "(p, s) \<in> set ?hf"
      then have "p \<notin> fst ` set ?ef" using dist(3) by force
      then show ?thesis using h [OF hf] n6 [OF p] n5 by auto
    qed
  qed
  then show "\<forall>(p, source) \<in> set (entity_files data) \<union> set (handler_files data).
      \<exists>c k. render source data = Inr c \<and> node_at w' p = Some (File c k)"
    by (auto simp: sets)
qed

section \<open>Properties\<close>

text \<open>C15. A successful run leaves every file it generates with the rendered content: model, repository, its
  test, migration, handler and handler test, under the module name of \<open>go.mod\<close>. The list of routes is
  generated from a sorted list of entities that contains the new entity and one for every handler file.
\<close>

theorem crud_registers_entity:
  assumes "is_range it" "tree_ok w" "regular_tree w" "RunGenerateCRUD it render rr w args = (w', Inr u)"
  shows "\<exists>data name es. parseCRUDArgs args = Inr data \<and> regenerated w' rr name es \<and> cd_Entity data \<in> set es \<and>
    (\<exists>c k. node_at w [''go.mod''] = Some (File c k) \<and> module_line (Split c (CHR 0x0A)) = Inr name) \<and>
    (\<forall>(p, source) \<in> set (entity_files data) \<union> set (handler_files data).
      \<exists>c k. render source (data\<lparr>cd_ProjectName := name\<rparr>) = Inr c \<and> node_at w' p = Some (File c k))"
proof (rule RunGenerateCRUD_cases [of it render rr w args])
  fix data w1 name
  assume parse: "parseCRUDArgs args = Inr data" and w1: "pj_nodes w1 = pj_nodes w"
    and name: "\<exists>w0. currentModuleName w0 = (w1, Inr name) \<and> pj_nodes w0 = pj_nodes w"
    and res: "RunGenerateCRUD it render rr w args = wrap_error ''Could not generate CRUD''
        (writeCRUDFiles it render rr w1 (data\<lparr>cd_ProjectName := name\<rparr>))"
  let ?d = "data\<lparr>cd_ProjectName := name\<rparr>"
  have same: "entity_files ?d = entity_files data" "handler_files ?d = handler_files data"
    by (simp_all add: entity_files_def handler_files_def handler_test_path_eq handler_path_def)
  have "tree_ok w1" "regular_tree w1" using assms(2,3) w1 by (simp_all add: tree_ok_def regular_tree_def)
  moreover have "writeCRUDFiles it render rr w1 ?d = (w', Inr u)" using assms(4) unfolding res by simp
  ultimately have files: "\<forall>(p, source) \<in> set (entity_files data) \<union> set (handler_files data).
      \<exists>c k. render source ?d = Inr c \<and> node_at w' p = Some (File c k)" and "\<exists>es. regenerated w' rr name es"
    using writeCRUDFiles_Inr [OF assms(1), of w1 render rr ?d w' u] unfolding same by simp_all
  then obtain es where es: "regenerated w' rr name es" by blast
  have mod: "\<exists>c k. node_at w [''go.mod''] = Some (File c k) \<and> module_line (Split c (CHR 0x0A)) = Inr name"
    using name by (auto simp: currentModuleName_def try_io_Inr dest!: read_file_Inr)
  have "cd_Entity data \<in> set es"
  proof -
    have "(handler_path data, crudHandlerTemplate) \<in> set (handler_files data)" by (simp add: handler_files_def)
    then obtain c k where "node_at w' (handler_path data) = Some (File c k)" using files by blast
    moreover have "HasSuffix (toSnake (cd_Entity data) @ ''_handler.go'') ''_handler.go''"
      unfolding HasSuffix_iff by (rule suffix_appendI) (rule suffix_order.refl)
    ultimately have "exportName (TrimSuffix (toSnake (cd_Entity data) @ ''_handler.go'') ''_handler.go'') \<in> set es"
      using es unfolding regenerated_def handler_path_def by blast
    then have "exportName (toSnake (cd_Entity data)) \<in> set es" unfolding TrimSuffix_append .
    then show ?thesis using parseCRUDArgs_Inr(2) [OF parse] exportName_toSnake by auto
  qed
  then show ?thesis using parse es mod files by blast
qed (use assms(4) in auto)

text \<open>
  The name of an entity is recovered from the names of its files, so two entities never share one,
  and it always gives a valid table name.
\<close>

theorem entity_name_roundtrip:
  assumes "is_entity e"
  shows "exportName (toSnake e) = e \<and> identifierPattern (pluralize (toSnake e))"
proof -
  have "is_lower CHR ''s''" by (simp add: is_lower_def)
  then have "identifierPattern (pluralize (toSnake e))"
    using toSnake_identifier [OF assms] by (cases "toSnake e") (simp_all add: identifierPattern_def pluralize_def)
  then show ?thesis using exportName_toSnake [OF assms] by blast
qed

text \<open>C16. The arguments are accepted exactly if there is a PascalCase entity and at least one field, every field
  is \<open>lower_snake:type\<close> with a supported type, and no name is repeated; the fields keep their order.
\<close>

theorem crud_args_accepted_iff:
  "case parseCRUDArgs args of
     Inr data \<Rightarrow> \<exists>e fs. args = e # fs \<and> fs \<noteq> [] \<and> is_entity e \<and> fields_good [] fs \<and>
       cd_Entity data = e \<and> cd_Table data = pluralize (toSnake e) \<and> cd_Fields data = map make_field fs
   | Inl _ \<Rightarrow> \<nexists>e fs. args = e # fs \<and> fs \<noteq> [] \<and> is_entity e \<and> fields_good [] fs"
proof (cases "parseCRUDArgs args")
  case (Inl err)
  then show ?thesis using parseCRUDArgs_Inr(1) [of args] by auto
next
  case (Inr data)
  then show ?thesis using parseCRUDArgs_Inr(1) [of args] parseCRUDArgs_Inr(2) [OF Inr] by (auto simp: pluralize_def)
qed

section \<open>Concrete runs\<close>

definition demo_app :: "(nat \<Rightarrow> error) \<Rightarrow> project" where
  "demo_app fault = \<lparr>pj_root = Some Dir,
     pj_nodes = [([''go.mod''], File (''module demo'' @ [CHR 0x0A] @ ''require modernc.org/sqlite v1'') 420),
       ([''models''], Dir), ([''handlers''], Dir), ([''handlers'', ''home_handler.go''], File ''hand-written'' 420),
       ([''handlers'', ''user_handler_test.go''], File ''my tests'' 420)],
     pj_tick = 0, pj_fault = fault, pj_done = (\<lambda>_. 0)\<rparr>"

definition demo_render :: "crud_template \<Rightarrow> crudData \<Rightarrow> string + string" where
  "demo_render t data = Inr (cd_ProjectName data @ cd_Table data)"

definition demo_registry :: "string \<Rightarrow> string list \<Rightarrow> string + string" where
  "demo_registry name entities = Inr (Join entities '' '')"

abbreviation demo_run :: "(nat \<Rightarrow> error) \<Rightarrow> project \<times> (string + unit)" where
  "demo_run fault \<equiv> RunGenerateCRUD (\<lambda>m. m) demo_render demo_registry (demo_app fault) [''User'', ''name:string'']"

lemma demo_run_value:
  "case demo_run (\<lambda>_. None) of (w, r) \<Rightarrow> r = Inr () \<and>
     node_at w [''handlers'', ''user_handler_test.go''] = Some (File ''demousers'' 420) \<and>
     node_at w routes_gen = Some (File ''Home User'' 420)"
  by code_simp

lemma demo_run_values:
  "snd (demo_run (\<lambda>_. None)) = Inr ()"
  "node_at (fst (demo_run (\<lambda>_. None))) [''handlers'', ''user_handler_test.go''] = Some (File ''demousers'' 420)"
  "node_at (fst (demo_run (\<lambda>_. None))) routes_gen = Some (File ''Home User'' 420)"
  using demo_run_value by (simp_all add: case_prod_unfold)


lemma demo_app_ok: "tree_ok (demo_app f)" "regular_tree (demo_app f)"
proof -
  have "list_all (\<lambda>(p, n). butlast p = [] \<or> node_at (demo_app f) (butlast p) = Some Dir) (pj_nodes (demo_app f))"
    by (simp add: demo_app_def)
  then show "tree_ok (demo_app f)" unfolding tree_ok_def list_all_iff by (blast dest: map_of_SomeD)
  have "list_all (\<lambda>(p, n). n \<notin> {Symlink, Special}) (pj_nodes (demo_app f))" by (simp add: demo_app_def)
  then show "regular_tree (demo_app f)" unfolding regular_tree_def list_all_iff by (blast dest: map_of_SomeD)
qed


theorem crud_registers_entity_witness:
  "\<exists>data name es. parseCRUDArgs [''User'', ''name:string''] = Inr data \<and>
     regenerated (fst (demo_run (\<lambda>_. None))) demo_registry name es \<and> cd_Entity data \<in> set es"
proof -
  have "demo_run (\<lambda>_. None) = (fst (demo_run (\<lambda>_. None)), Inr ())"
    using demo_run_values(1) by (cases "demo_run (\<lambda>_. None)") simp
  from crud_registers_entity [OF is_range_id demo_app_ok this] show ?thesis by blast
qed

theorem entity_name_roundtrip_witness: "exportName (toSnake ''BlogPost2'') = ''BlogPost2''"
proof -
  have "is_entity ''BlogPost2''" by code_simp
  from entity_name_roundtrip [OF this] show ?thesis by blast
qed

section \<open>What the checks miss\<close>

text \<open>The handler test is not among the paths checked: a successful run replaces one written by hand.\<close>

lemma handler_test_overwritten:
  "node_at (demo_app (\<lambda>_. None)) [''handlers'', ''user_handler_test.go''] = Some (File ''my tests'' 420)"
  "node_at (fst (demo_run (\<lambda>_. None))) [''handlers'', ''user_handler_test.go''] = Some (File ''demousers'' 420)"
  by (simp add: demo_app_def) (rule demo_run_values)

text \<open>If the inspection of the handler fails (not: finds nothing), the command goes on and replaces it.\<close>

definition home_app :: project where
  "home_app = demo_app (\<lambda>t. if t = 7 then Some ''permission denied'' else None)"

lemma handler_overwritten_after_failed_stat:
  "(case RunGenerateCRUD (\<lambda>m. m) demo_render demo_registry home_app [''Home'', ''name:string''] of
     (w, r) \<Rightarrow> r = Inr () \<and> node_at w [''handlers'', ''home_handler.go''] = Some (File ''demohomes'' 420))"
  by code_simp

text \<open>Names that are told apart may still clash: as Go fields, or with the columns every table has.\<close>

lemma fields_may_clash:
  "case parseCRUDArgs [''User'', ''a_b:int'', ''a__b:int'', ''id:int''] of
     Inr d \<Rightarrow> map cf_Exported (cd_Fields d) = [''AB'', ''AB'', ''Id''] \<and> cd_Columns d = ''a_b, a__b, id''
   | Inl _ \<Rightarrow> False"
  by code_simp

text \<open>The model of an entity whose name ends in \<open>Test\<close> goes to a test file, which builds leave out.\<close>

lemma test_entity_is_test_file:
  "case parseCRUDArgs [''LoadTest'', ''name:string''] of
     Inr d \<Rightarrow> [''models'', ''load_test.go''] \<in> fst ` set (entity_files d) | Inl _ \<Rightarrow> False"
  by code_simp

text \<open>A handler written by hand is listed as an entity, for which the generated list refers to code.\<close>

lemma any_handler_is_registered:
  "node_at (fst (demo_run (\<lambda>_. None))) routes_gen = Some (File ''Home User'' 420)"
  by (rule demo_run_values)

end
