(* ===== verification/Project_Config.thy ===== *)
theory Project_Config
  imports Go_Prelude
begin

text \<open>
  The configuration of a generated project and its presets (\<open>internal/config/types.go\<close>,
  \<open>presets.go\<close>): the enumerated fields are strings, with the empty one for a field that is not set.
\<close>

section \<open>Configurations\<close>

type_synonym ProjectType = string
type_synonym ArchPattern = string
type_synonym DatabaseType = string
type_synonym Feature = string

record ProjectConfig =
  pc_Name :: string
  pc_Dir :: string
  pc_Type :: ProjectType
  pc_Architecture :: ArchPattern
  pc_Database :: DatabaseType
  pc_Features :: "Feature list"
  pc_FrameworkVersion :: string

abbreviation TypeAPI :: ProjectType where "TypeAPI \<equiv> ''api''"
abbreviation TypeSSR :: ProjectType where "TypeSSR \<equiv> ''ssr''"
abbreviation ArchFlat :: ArchPattern where "ArchFlat \<equiv> ''flat''"
abbreviation ArchMVC :: ArchPattern where "ArchMVC \<equiv> ''mvc''"
abbreviation DBSQLite :: DatabaseType where "DBSQLite \<equiv> ''sqlite''"
abbreviation DBPostgres :: DatabaseType where "DBPostgres \<equiv> ''postgres''"
abbreviation DBMySQL :: DatabaseType where "DBMySQL \<equiv> ''mysql''"
abbreviation DBNone :: DatabaseType where "DBNone \<equiv> ''none''"

definition ValidTypes :: "ProjectType list" where
  "ValidTypes = [TypeAPI, TypeSSR]"

definition ValidArchs :: "ArchPattern list" where
  "ValidArchs = [ArchFlat, ArchMVC]"

definition ValidDBs :: "DatabaseType list" where
  "ValidDBs = [DBNone, DBSQLite, DBPostgres, DBMySQL]"

definition ValidFeatures :: "Feature list" where
  "ValidFeatures = [''health'', ''metrics'', ''openapi'', ''flatbuffers'', ''htmx'', ''grpc'', ''jwt-auth'',
     ''mtls'', ''otel'', ''ci-cd'']"

text \<open>
  The four \<open>contains\<close> loops are one function, since Go's distinct string types are one type here; so
  are the four \<open>join\<close> loops, which append to an accumulator.
\<close>

fun contains_item :: "string list \<Rightarrow> string \<Rightarrow> bool" where
  "contains_item [] item = False"
| "contains_item (s # rest) item = (if s = item then True else contains_item rest item)"

fun join_items :: "nat \<Rightarrow> string \<Rightarrow> string list \<Rightarrow> string" where
  "join_items i out [] = out"
| "join_items i out (s # rest) = join_items (Suc i) ((if i > 0 then out @ '', '' else out) @ s) rest"

definition choice_error :: "string \<Rightarrow> string \<Rightarrow> string list \<Rightarrow> string" where
  "choice_error what value available =
     what @ '' '' @ Quote value @ '' (available: '' @ join_items 0 [] available @ '')''"

definition config_Validate :: "ProjectConfig \<Rightarrow> error" where
  "config_Validate c = first_error
     ([(pc_Name c = [], ''project name cannot be empty''),
       (\<not> contains_item ValidTypes (pc_Type c), choice_error ''invalid project type'' (pc_Type c) ValidTypes),
       (\<not> contains_item ValidArchs (pc_Architecture c),
          choice_error ''invalid architecture'' (pc_Architecture c) ValidArchs),
       (\<not> contains_item ValidDBs (pc_Database c), choice_error ''invalid database'' (pc_Database c) ValidDBs)] @
      map (\<lambda>feature. (\<not> contains_item ValidFeatures feature,
        choice_error ''unknown feature'' feature ValidFeatures)) (pc_Features c))"

definition config_Normalize :: "ProjectConfig \<Rightarrow> ProjectConfig" where
  "config_Normalize c =
     (let c = (if pc_Type c = [] then c\<lparr>pc_Type := TypeAPI\<rparr> else c);
          c = (if pc_Architecture c = [] then
                 c\<lparr>pc_Architecture := if pc_Type c = TypeSSR then ArchMVC else ArchFlat\<rparr> else c);
          c = (if pc_Database c = [] then c\<lparr>pc_Database := DBNone\<rparr> else c)
      in c)"

fun HasFeature_loop :: "Feature list \<Rightarrow> Feature \<Rightarrow> bool" where
  "HasFeature_loop [] feature = False"
| "HasFeature_loop (f # fs) feature = (if f = feature then True else HasFeature_loop fs feature)"

definition HasFeature :: "ProjectConfig \<Rightarrow> Feature \<Rightarrow> bool" where
  "HasFeature c feature = HasFeature_loop (pc_Features c) feature"

definition UseSQLite :: "ProjectConfig \<Rightarrow> bool" where
  "UseSQLite c \<longleftrightarrow> pc_Database c = DBSQLite"

definition UsePostgres :: "ProjectConfig \<Rightarrow> bool" where
  "UsePostgres c \<longleftrightarrow> pc_Database c = DBPostgres"

definition UseMySQL :: "ProjectConfig \<Rightarrow> bool" where
  "UseMySQL c \<longleftrightarrow> pc_Database c = DBMySQL"

definition UseDatabase :: "ProjectConfig \<Rightarrow> bool" where
  "UseDatabase c \<longleftrightarrow> pc_Database c \<noteq> DBNone"

definition config_Placeholder :: "ProjectConfig \<Rightarrow> string" where
  "config_Placeholder c = (if pc_Database c = DBPostgres then ''$1'' else ''?'')"

section \<open>Presets\<close>

record Preset =
  ps_Name :: string
  ps_Type :: ProjectType
  ps_Architecture :: ArchPattern
  ps_Database :: DatabaseType
  ps_Features :: "Feature list"

definition PresetAPI :: Preset where
  "PresetAPI = \<lparr>ps_Name = ''api'', ps_Type = TypeAPI, ps_Architecture = ArchFlat, ps_Database = DBNone,
     ps_Features = [''health'']\<rparr>"

definition PresetWebapp :: Preset where
  "PresetWebapp = \<lparr>ps_Name = ''webapp'', ps_Type = TypeSSR, ps_Architecture = ArchMVC,
     ps_Database = DBSQLite, ps_Features = [''htmx'', ''health'']\<rparr>"

definition GetPreset :: "string \<Rightarrow> Preset option" where
  "GetPreset name =
     (if name = ps_Name PresetAPI then Some PresetAPI
      else if name = ps_Name PresetWebapp then Some PresetWebapp
      else None)"

definition ListPresets :: "Preset list" where
  "ListPresets = [PresetAPI, PresetWebapp]"

definition ApplyPreset :: "ProjectConfig \<Rightarrow> string \<Rightarrow> ProjectConfig \<times> error" where
  "ApplyPreset c presetName =
     (case GetPreset presetName of
        None \<Rightarrow> (c, nil)
      | Some preset \<Rightarrow>
          (let c = (if pc_Type c = [] then c\<lparr>pc_Type := ps_Type preset\<rparr> else c);
               c = (if pc_Architecture c = [] then c\<lparr>pc_Architecture := ps_Architecture preset\<rparr> else c);
               c = (if pc_Database c = [] then c\<lparr>pc_Database := ps_Database preset\<rparr> else c);
               c = (if pc_Features c = [] then c\<lparr>pc_Features := ps_Features preset\<rparr> else c)
           in (c, nil)))"

section \<open>Well-formed configurations\<close>

text \<open>A field that is set has one of its values; a complete configuration has all fields set.\<close>

definition fields_ok :: "ProjectConfig \<Rightarrow> bool" where
  "fields_ok c \<longleftrightarrow> pc_Type c \<in> insert [] (set ValidTypes) \<and> pc_Architecture c \<in> insert [] (set ValidArchs) \<and>
     pc_Database c \<in> insert [] (set ValidDBs) \<and> set (pc_Features c) \<subseteq> set ValidFeatures"

definition complete :: "ProjectConfig \<Rightarrow> bool" where
  "complete c \<longleftrightarrow> pc_Type c \<noteq> [] \<and> pc_Architecture c \<noteq> [] \<and> pc_Database c \<noteq> []"

lemma contains_item_iff [simp]: "contains_item xs x \<longleftrightarrow> x \<in> set xs"
  by (induction xs) auto

lemma HasFeature_iff: "HasFeature c f \<longleftrightarrow> f \<in> set (pc_Features c)"
proof -
  have "HasFeature_loop fs f \<longleftrightarrow> f \<in> set fs" for fs by (induction fs) auto
  then show ?thesis by (simp add: HasFeature_def)
qed

lemma join_items_Join: "join_items 0 [] xs = Join xs '', ''"
proof -
  have step: "join_items (Suc i) out xs = out @ (if xs = [] then [] else '', '' @ Join xs '', '')" for i out xs
    by (induction xs arbitrary: i out) (auto simp: neq_Nil_conv)
  show ?thesis
  proof (cases xs)
    case (Cons a ys)
    have "join_items 0 [] (a # ys) = join_items (Suc 0) a ys" by simp
    then show ?thesis unfolding Cons step by (cases ys) auto
  qed simp
qed

lemma config_Validate_iff: "config_Validate c = nil \<longleftrightarrow> pc_Name c \<noteq> [] \<and> complete c \<and> fields_ok c"
proof -
  have "[] \<notin> set ValidTypes" "[] \<notin> set ValidArchs" "[] \<notin> set ValidDBs"
    by (simp_all add: ValidTypes_def ValidArchs_def ValidDBs_def)
  then show ?thesis
    by (auto simp: config_Validate_def fields_ok_def complete_def list_all_iff)
qed

lemma valid_values:
  "TypeAPI \<in> set ValidTypes" "TypeSSR \<in> set ValidTypes" "ArchFlat \<in> set ValidArchs" "ArchMVC \<in> set ValidArchs"
  "DBNone \<in> set ValidDBs" "DBSQLite \<in> set ValidDBs" "''health'' \<in> set ValidFeatures" "''htmx'' \<in> set ValidFeatures"
  by (simp_all add: ValidTypes_def ValidArchs_def ValidDBs_def ValidFeatures_def)

lemma config_Normalize_fields:
  "pc_Name (config_Normalize c) = pc_Name c" "pc_Features (config_Normalize c) = pc_Features c"
  "pc_Type (config_Normalize c) = (if pc_Type c = [] then TypeAPI else pc_Type c)"
  "pc_Architecture (config_Normalize c) =
     (if pc_Architecture c \<noteq> [] then pc_Architecture c else if pc_Type c = TypeSSR then ArchMVC else ArchFlat)"
  "pc_Database (config_Normalize c) = (if pc_Database c = [] then DBNone else pc_Database c)"
  by (simp_all add: config_Normalize_def Let_def)

lemma config_Normalize_complete: "complete (config_Normalize c)"
  by (simp add: complete_def config_Normalize_fields)

lemma config_Normalize_id: "complete c \<Longrightarrow> config_Normalize c = c"
  by (simp add: config_Normalize_def complete_def)

lemma config_Normalize_ok: "fields_ok (config_Normalize c) = fields_ok c"
  using valid_values by (simp add: fields_ok_def config_Normalize_fields)

lemma ApplyPreset_fields:
  "pc_Name (fst (ApplyPreset c name)) = pc_Name c" "pc_Dir (fst (ApplyPreset c name)) = pc_Dir c"
  "GetPreset name = Some p \<Longrightarrow> pc_Type (fst (ApplyPreset c name)) = (if pc_Type c = [] then ps_Type p else pc_Type c)"
  "GetPreset name = Some p \<Longrightarrow> pc_Architecture (fst (ApplyPreset c name)) =
     (if pc_Architecture c = [] then ps_Architecture p else pc_Architecture c)"
  "GetPreset name = Some p \<Longrightarrow> pc_Database (fst (ApplyPreset c name)) =
     (if pc_Database c = [] then ps_Database p else pc_Database c)"
  "GetPreset name = Some p \<Longrightarrow> pc_Features (fst (ApplyPreset c name)) =
     (if pc_Features c = [] then ps_Features p else pc_Features c)"
  "GetPreset name = None \<Longrightarrow> fst (ApplyPreset c name) = c" "snd (ApplyPreset c name) = nil"
  by (simp_all add: ApplyPreset_def Let_def split: option.splits)

lemma GetPreset_ok:
  "GetPreset name = Some p \<Longrightarrow> ps_Type p \<in> set ValidTypes \<and> ps_Architecture p \<in> set ValidArchs \<and>
     ps_Database p \<in> set ValidDBs \<and> set (ps_Features p) \<subseteq> set ValidFeatures \<and> p \<in> set ListPresets"
  using valid_values
  by (auto simp: GetPreset_def ListPresets_def PresetAPI_def PresetWebapp_def split: if_splits)

lemma ApplyPreset_ok: "fields_ok (fst (ApplyPreset c name)) = fields_ok c"
proof (cases "GetPreset name")
  case (Some p)
  then show ?thesis using GetPreset_ok [OF Some] by (auto simp: fields_ok_def ApplyPreset_fields)
qed (simp add: ApplyPreset_fields)

text \<open>C17. Configurations are typed by validation: a named configuration is accepted after presets and
  defaults exactly if every field that was set has one of its values, every preset is accepted with
  its own values, and defaults leave an accepted configuration as it is.
\<close>

theorem config_accepted_iff:
  "(config_Validate (config_Normalize (fst (ApplyPreset c name))) = nil \<longleftrightarrow> pc_Name c \<noteq> [] \<and> fields_ok c) \<and>
   (config_Validate c = nil \<longrightarrow> config_Normalize c = c) \<and>
   (\<forall>p. GetPreset name = Some p \<and> pc_Type c = [] \<and> pc_Architecture c = [] \<and> pc_Database c = [] \<and> pc_Features c = [] \<longrightarrow>
     (let d = config_Normalize (fst (ApplyPreset c name)) in
      pc_Type d = ps_Type p \<and> pc_Architecture d = ps_Architecture p \<and> pc_Database d = ps_Database p \<and>
      (\<forall>f. HasFeature d f \<longleftrightarrow> f \<in> set (ps_Features p))))"
proof (intro conjI allI impI)
  show "config_Validate (config_Normalize (fst (ApplyPreset c name))) = nil \<longleftrightarrow> pc_Name c \<noteq> [] \<and> fields_ok c"
    by (simp add: config_Validate_iff config_Normalize_complete config_Normalize_ok ApplyPreset_ok
        config_Normalize_fields ApplyPreset_fields)
  show "config_Normalize c = c" if "config_Validate c = nil"
    using that by (simp add: config_Validate_iff config_Normalize_id)
  fix p assume p: "GetPreset name = Some p \<and> pc_Type c = [] \<and> pc_Architecture c = [] \<and> pc_Database c = [] \<and> pc_Features c = []"
  then have "ps_Type p \<noteq> []" "ps_Architecture p \<noteq> []" "ps_Database p \<noteq> []"
    using GetPreset_ok [of name p] by (auto simp: ValidTypes_def ValidArchs_def ValidDBs_def)
  then show "let d = config_Normalize (fst (ApplyPreset c name)) in
      pc_Type d = ps_Type p \<and> pc_Architecture d = ps_Architecture p \<and> pc_Database d = ps_Database p \<and>
      (\<forall>f. HasFeature d f \<longleftrightarrow> f \<in> set (ps_Features p))"
    using p by (simp add: Let_def config_Normalize_fields ApplyPreset_fields HasFeature_iff)
qed

definition demo_config :: ProjectConfig where
  "demo_config = \<lparr>pc_Name = ''shop'', pc_Dir = [], pc_Type = [], pc_Architecture = [], pc_Database = [],
     pc_Features = [], pc_FrameworkVersion = ''1.4.1''\<rparr>"

theorem config_accepted_iff_witness:
  "config_Validate (config_Normalize (fst (ApplyPreset demo_config ''webapp''))) = nil \<and>
   pc_Database (config_Normalize (fst (ApplyPreset demo_config ''webapp''))) = DBSQLite \<and>
   HasFeature (config_Normalize (fst (ApplyPreset demo_config ''webapp''))) ''htmx''"
proof -
  have "GetPreset ''webapp'' = Some PresetWebapp" by (simp add: GetPreset_def PresetAPI_def PresetWebapp_def)
  then show ?thesis
    using config_accepted_iff [of demo_config "''webapp''"]
    by (simp add: demo_config_def fields_ok_def Let_def PresetWebapp_def)
qed

end
