(* ===== verification/Generator.thy ===== *)
theory Generator
  imports Upgrade Project_Config
begin

text \<open>
  Project generation (\<open>internal/generator/generator.go\<close>) and the command \<open>fgoths init\<close> before it
  (\<open>internal/cli/init.go\<close>). The file tree is the one of \<open>Project_Tree\<close>, here of absolute paths from the
  root directory. The embedded templates are a tree of files; their rendering, \<open>go/format\<close>, JSON coding,
  the name \<open>os.MkdirTemp\<close> draws, the volume a directory is on and the working directory are parameters.
  Printing is left out.
\<close>

section \<open>File system operations\<close>

text \<open>
  \<open>os.Stat\<close>: a path below something that is no directory is an error, not absence. (A symbolic link
  exists; it is not followed.)
\<close>

definition blocked :: "project \<Rightarrow> string list \<Rightarrow> bool" where
  "blocked w p \<longleftrightarrow> list_ex (\<lambda>k. node_at w (take k p) \<notin> {None, Some Dir}) [1..<length p]"

definition stat :: "project \<Rightarrow> string list \<Rightarrow> project \<times> (string + node option)" where
  "stat w p = attempt w (\<lambda>w. (w,
     if p = [] then Inr (Some Dir)
     else if node_at w p = None \<and> blocked w p then Inl ''not a directory''
     else Inr (node_at w p)))"

text \<open>\<open>os.MkdirTemp\<close>, with the name that was drawn: it is used only if it is free.\<close>

definition mkdir_temp :: "project \<Rightarrow> string list \<Rightarrow> string \<Rightarrow> project \<times> (string + string list)" where
  "mkdir_temp w dir name = attempt w (\<lambda>w.
     if dir \<noteq> [] \<and> node_at w dir \<noteq> Some Dir then (w, Inl ''no such file or directory'')
     else if node_at w (dir @ [name]) \<noteq> None then (w, Inl ''file exists'')
     else (put_node (dir @ [name]) Dir w, Inr (dir @ [name])))"

text \<open>
  \<open>os.RemoveAll\<close>: one that fails has removed what lies deeper than some level below the directory.
\<close>

definition drop_nodes :: "(string list \<Rightarrow> bool) \<Rightarrow> project \<Rightarrow> project" where
  "drop_nodes gone w = w\<lparr>pj_nodes := filter (\<lambda>(p, _). \<not> gone p) (pj_nodes w)\<rparr>"

definition remove_all :: "project \<Rightarrow> string list \<Rightarrow> project \<times> (string + unit)" where
  "remove_all w dir = (case pj_fault w (pj_tick w) of
     Some err \<Rightarrow> (drop_nodes (\<lambda>p. prefix dir p \<and> length p > length dir + pj_done w (pj_tick w)) (pj_next w), Inl err)
   | None \<Rightarrow> (drop_nodes (prefix dir) (pj_next w), Inr ()))"

text \<open>\<open>os.Rename\<close>: a directory moves with what is below it, and only within a volume.\<close>

abbreviation EXDEV :: string where "EXDEV \<equiv> ''invalid cross-device link''"
abbreviation ENOENT :: string where "ENOENT \<equiv> ''no such file or directory''"

definition move_nodes :: "string list \<Rightarrow> string list \<Rightarrow> project \<Rightarrow> project" where
  "move_nodes src dst w = w\<lparr>pj_nodes :=
     map (\<lambda>(p, n). (if prefix src p then dst @ drop (length src) p else p, n))
       (filter (\<lambda>(p, _). \<not> prefix dst p) (pj_nodes w))\<rparr>"

definition rename :: "(string list \<Rightarrow> string) \<Rightarrow> project \<Rightarrow> string list \<Rightarrow> string list \<Rightarrow> project \<times> (string + unit)" where
  "rename volume w src dst = attempt w (\<lambda>w.
     if node_at w src = None \<or> (butlast dst \<noteq> [] \<and> node_at w (butlast dst) \<noteq> Some Dir) then (w, Inl ENOENT)
     else if volume (butlast src) \<noteq> volume (butlast dst) then (w, Inl EXDEV)
     else if prefix src dst then (w, Inl ''invalid argument'')
     else if node_at w dst = Some Dir \<or> (node_at w src = Some Dir \<and> node_at w dst \<noteq> None) then (w, Inl ''file exists'')
     else (move_nodes src dst w, Inr ()))"

text \<open>\<open>copyFile\<close>: open the source, create or truncate the target, copy. \<open>copyDir\<close> walks in lexical order.\<close>

definition copyFile :: "project \<Rightarrow> string list \<Rightarrow> string list \<Rightarrow> string \<Rightarrow> nat \<Rightarrow> project \<times> (string + unit)" where
  "copyFile w src dst content mode =
     try_io (attempt w (\<lambda>w. (w, Inr ()))) (\<lambda>w opened. write_file w dst content mode)"

fun copy_walk :: "string list \<Rightarrow> string list \<Rightarrow> project \<Rightarrow> string list list \<Rightarrow> project \<times> (string + unit)" where
  "copy_walk src dst w [] = (w, Inr ())"
| "copy_walk src dst w (path # paths) =
     try_io (lstat w path) (\<lambda>w info.
     let target = dst @ drop (length src) path in
     try_io
       (case info of
          Some Dir \<Rightarrow> try_io (attempt w (\<lambda>w. (w, Inr ()))) (\<lambda>w names. mkdir_all w target)
        | Some (File content mode) \<Rightarrow> copyFile w path target content mode
        | Some _ \<Rightarrow> (w, Inl ''not a regular file'')
        | None \<Rightarrow> (w, Inl ENOENT))
       (\<lambda>w _. copy_walk src dst w paths))"

definition copyDir :: "project \<Rightarrow> string list \<Rightarrow> string list \<Rightarrow> project \<times> (string + unit)" where
  "copyDir w src dst = copy_walk src dst w (sort (map fst (filter (\<lambda>(p, _). prefix src p) (pj_nodes w))))"

definition finalizeProjectDir :: "(string list \<Rightarrow> string) \<Rightarrow> project \<Rightarrow> string list \<Rightarrow> string list \<Rightarrow> project \<times> (string + unit)" where
  "finalizeProjectDir volume w stagingRoot projectRoot =
     (case rename volume w stagingRoot projectRoot of
        (w, Inr _) \<Rightarrow> (w, Inr ())
      | (w, Inl err) \<Rightarrow>
          if err \<noteq> EXDEV then (w, Inl err)
          else try_io (copyDir w stagingRoot projectRoot) (\<lambda>w _. remove_all w stagingRoot))"

section \<open>Templates\<close>

datatype embed = EFile string | EDir "(string \<times> embed) list"

fun embed_at :: "embed \<Rightarrow> string list \<Rightarrow> embed option" where
  "embed_at e [] = Some e"
| "embed_at (EFile _) (part # parts) = None"
| "embed_at (EDir entries) (part # parts) =
     (case map_of entries part of None \<Rightarrow> None | Some e \<Rightarrow> embed_at e parts)"

definition not_exist :: string where
  "not_exist = ''file does not exist''"

definition embed_read :: "embed \<Rightarrow> string \<Rightarrow> string + string" where
  "embed_read templates path = (case embed_at templates (Split path CHR ''/'') of
     Some (EFile content) \<Rightarrow> Inr content
   | Some (EDir _) \<Rightarrow> Inl (''read '' @ path @ '': is a directory'')
   | None \<Rightarrow> Inl (''open '' @ path @ '': '' @ not_exist))"

record TemplateData =
  td_ProjectName :: string
  td_Type :: ProjectType
  td_Architecture :: ArchPattern
  td_Database :: DatabaseType
  td_Features :: "(Feature, bool) gomap"

record projectUpgradeMetadata =
  pu_FrameworkVersion :: string
  pu_ProjectType :: ProjectType
  pu_Architecture :: ArchPattern
  pu_Database :: DatabaseType
  pu_Features :: "Feature list"
  pu_RuntimeFiles :: "(string, string) gomap"

record gen_env =
  ge_templates :: embed
  ge_render :: "string \<Rightarrow> string \<Rightarrow> TemplateData \<Rightarrow> string + string"
  ge_format :: "string \<Rightarrow> string + string"
  ge_marshal :: "projectUpgradeMetadata \<Rightarrow> string + string"
  ge_volume :: "string list \<Rightarrow> string"
  ge_temp :: string
  ge_cwd :: "string list"
  ge_getwd :: error
  ge_version :: string

definition TemplateData_Has :: "TemplateData \<Rightarrow> Feature \<Rightarrow> bool" where
  "TemplateData_Has d feature = gm_getd False (td_Features d) feature"

definition td_UseSQLite :: "TemplateData \<Rightarrow> bool" where
  "td_UseSQLite d \<longleftrightarrow> td_Database d = DBSQLite"

definition td_UsePostgres :: "TemplateData \<Rightarrow> bool" where
  "td_UsePostgres d \<longleftrightarrow> td_Database d = DBPostgres"

definition td_UseMySQL :: "TemplateData \<Rightarrow> bool" where
  "td_UseMySQL d \<longleftrightarrow> td_Database d = DBMySQL"

definition td_UseDatabase :: "TemplateData \<Rightarrow> bool" where
  "td_UseDatabase d \<longleftrightarrow> td_Database d \<noteq> DBNone"

definition td_IsMVC :: "TemplateData \<Rightarrow> bool" where
  "td_IsMVC d \<longleftrightarrow> td_Architecture d = ArchMVC"

definition td_IsAPI :: "TemplateData \<Rightarrow> bool" where
  "td_IsAPI d \<longleftrightarrow> td_Type d = TypeAPI"

definition td_IsSSR :: "TemplateData \<Rightarrow> bool" where
  "td_IsSSR d \<longleftrightarrow> td_Type d = TypeSSR"

definition td_Placeholder :: "TemplateData \<Rightarrow> string" where
  "td_Placeholder d = (if td_Database d = DBPostgres then ''$1'' else ''?'')"

definition templateOutputPath :: "string \<Rightarrow> string" where
  "templateOutputPath templatePath =
     (let parts = Split templatePath CHR ''/'';
          relativePath =
            (if length parts \<ge> 3 then
               (if parts ! 1 = ''base'' then Join (drop 2 parts) ''/''
                else if parts ! 1 = ''architectures'' \<or> parts ! 1 = ''database'' \<or> parts ! 1 = ''features'' then
                  (if length parts \<ge> 4 then Join (drop 3 parts) ''/'' else Join (drop 2 parts) ''/'')
                else Join (drop 2 parts) ''/'')
             else [])
      in TrimSuffix relativePath ''.tpl'')"

text \<open>Rendering of one template, and formatting of Go files; the errors name the template.\<close>

definition template_output :: "gen_env \<Rightarrow> TemplateData \<Rightarrow> string \<Rightarrow> string \<Rightarrow> string + string" where
  "template_output env data templatePath content =
     (case ge_render env templatePath content data of
        Inl err \<Rightarrow> Inl err
      | Inr rendered \<Rightarrow>
          if HasSuffix (templateOutputPath templatePath) ''.go'' then
            (case ge_format env rendered of
               Inl err \<Rightarrow> Inl (''template '' @ templatePath @ '' rendered invalid Go: '' @ err)
             | Inr formatted \<Rightarrow> Inr formatted)
          else Inr rendered)"

text \<open>The embedded paths hold no dot-dot, so joining them to the project only cleans the relative path.\<close>

definition target_path :: "string list \<Rightarrow> string \<Rightarrow> string list" where
  "target_path proj templatePath = proj @ clean_rel (templateOutputPath templatePath)"

definition target_name :: "string list \<Rightarrow> string list \<Rightarrow> string" where
  "target_name proj path = Join (drop (length proj - 1) path) ''/''"

definition processTemplate :: "gen_env \<Rightarrow> string list \<Rightarrow> TemplateData \<Rightarrow> project \<Rightarrow> string \<Rightarrow> project \<times> (string + unit)" where
  "processTemplate env proj data w templatePath =
     (let targetPath = target_path proj templatePath in
      try_io (wrap_error (''failed to read template '' @ templatePath) (w, embed_read (ge_templates env) templatePath)) (\<lambda>w content.
      try_io (wrap_error (''failed to create directory '' @ target_name proj (butlast targetPath)) (mkdir_all w (butlast targetPath))) (\<lambda>w _.
      try_io (w, template_output env data templatePath content) (\<lambda>w output.
      wrap_error (''failed to create file '' @ target_name proj targetPath) (write_file w targetPath output 420)))))"

fun process_all :: "gen_env \<Rightarrow> string list \<Rightarrow> TemplateData \<Rightarrow> project \<Rightarrow> string list \<Rightarrow> project \<times> (string + unit)" where
  "process_all env proj data w [] = (w, Inr ())"
| "process_all env proj data w (path # paths) =
     try_io (processTemplate env proj data w path) (\<lambda>w _. process_all env proj data w paths)"

text \<open>The loop of \<open>walkAndProcess\<close> over the entries of a directory.\<close>

fun walk_entries :: "gen_env \<Rightarrow> string list \<Rightarrow> TemplateData \<Rightarrow> project \<Rightarrow> string \<Rightarrow> (string \<times> embed) list \<Rightarrow>
    project \<times> (string + unit)" where
  "walk_entries env proj data w dir [] = (w, Inr ())"
| "walk_entries env proj data w dir ((name, EDir entries) # rest) =
     try_io (walk_entries env proj data w (path_join [dir, name]) entries) (\<lambda>w _.
     walk_entries env proj data w dir rest)"
| "walk_entries env proj data w dir ((name, EFile _) # rest) =
     (if \<not> HasSuffix name ''.tpl'' then walk_entries env proj data w dir rest
      else try_io (processTemplate env proj data w (path_join [dir, name])) (\<lambda>w _.
        walk_entries env proj data w dir rest))"

definition walkAndProcess :: "gen_env \<Rightarrow> string list \<Rightarrow> TemplateData \<Rightarrow> project \<Rightarrow> string \<Rightarrow> project \<times> (string + unit)" where
  "walkAndProcess env proj data w dir =
     (case embed_at (ge_templates env) (Split dir CHR ''/'') of
        Some (EDir entries) \<Rightarrow> walk_entries env proj data w dir entries
      | Some (EFile _) \<Rightarrow> (w, Inl (''read '' @ dir @ '': not a directory''))
      | None \<Rightarrow> (w, Inl (''open '' @ dir @ '': '' @ not_exist)))"

section \<open>Stages\<close>

definition baseFiles :: "string list" where
  "baseFiles = [
     ''templates/base/go.mod.tpl'',
     ''templates/base/Makefile.tpl'',
     ''templates/base/Dockerfile.tpl'',
     ''templates/base/.dockerignore.tpl'',
     ''templates/base/README.md.tpl'',
     ''templates/base/gitignore.tpl'',
     ''templates/base/cmd/assetmanifest/main.go.tpl'',
     ''templates/base/cmd/dev/main.go.tpl'',
     ''templates/base/internal/assets/assets.go.tpl'',
     ''templates/base/internal/assets/manifest_gen.go.tpl'',
     ''templates/base/static/css/app.css.tpl'',
     ''templates/base/pkg/runtime/router.go.tpl'',
     ''templates/base/pkg/runtime/server.go.tpl'',
     ''templates/base/pkg/runtime/proxy.go.tpl'',
     ''templates/base/pkg/runtime/requestid.go.tpl'',
     ''templates/base/pkg/runtime/reuseport_linux.go.tpl'',
     ''templates/base/pkg/runtime/reuseport_other.go.tpl'',
     ''templates/base/pkg/runtime/reuseport_posix.go.tpl'',
     ''templates/base/pkg/runtime/metrics.go.tpl'',
     ''templates/base/pkg/runtime/health.go.tpl'',
     ''templates/base/pkg/runtime/hmr_server.go.tpl'',
     ''templates/base/pkg/runtime/hmr/hmr.go.tpl'',
     ''templates/base/pkg/runtime/hmr/client.go.tpl'',
     ''templates/base/pkg/runtime/hmr/codec.go.tpl'']"

definition generateBase :: "gen_env \<Rightarrow> string list \<Rightarrow> TemplateData \<Rightarrow> project \<Rightarrow> project \<times> (string + unit)" where
  "generateBase env proj data w = process_all env proj data w baseFiles"

text \<open>
  Only errors of the embedded files hold the text \<open>file does not exist\<close>; \<open>os.IsNotExist\<close> is true of no
  other error here, since the rest are wrapped.
\<close>

definition generateArchitecture :: "gen_env \<Rightarrow> string list \<Rightarrow> TemplateData \<Rightarrow> project \<Rightarrow> project \<times> (string + unit)" where
  "generateArchitecture env proj data w =
     (case walkAndProcess env proj data w (''templates/architectures/'' @ td_Architecture data) of
        (w, Inr _) \<Rightarrow> (w, Inr ())
      | (w, Inl err) \<Rightarrow>
          (w, Inl (if Contains err not_exist then
             ''architecture '' @ Quote (td_Architecture data) @ '' is not implemented yet (implemented: flat, mvc)'' else err)))"

definition generateDatabase :: "gen_env \<Rightarrow> string list \<Rightarrow> TemplateData \<Rightarrow> project \<Rightarrow> project \<times> (string + unit)" where
  "generateDatabase env proj data w =
     (case walkAndProcess env proj data w (''templates/database/'' @ td_Database data) of
        (w, Inr _) \<Rightarrow> (w, Inr ())
      | (w, Inl err) \<Rightarrow>
          (w, Inl (if Contains err not_exist then
             ''database '' @ Quote (td_Database data) @ '' is not implemented yet (implemented: sqlite, postgres, mysql)'' else err)))"

fun feature_loop :: "gen_env \<Rightarrow> string list \<Rightarrow> TemplateData \<Rightarrow> project \<Rightarrow> Feature list \<Rightarrow> project \<times> (string + unit)" where
  "feature_loop env proj data w [] = (w, Inr ())"
| "feature_loop env proj data w (feature # rest) =
     (case walkAndProcess env proj data w (''templates/features/'' @ feature) of
        (w, Inr _) \<Rightarrow> feature_loop env proj data w rest
      | (w, Inl err) \<Rightarrow> if Contains err not_exist then feature_loop env proj data w rest else (w, Inl err))"

type_synonym feature_range = "(Feature, bool) gomap \<Rightarrow> (Feature, bool) gomap"
type_synonym source_range = "(string, string) gomap \<Rightarrow> (string, string) gomap"

definition generateFeatures :: "feature_range \<Rightarrow> gen_env \<Rightarrow> string list \<Rightarrow> TemplateData \<Rightarrow> project \<Rightarrow> project \<times> (string + unit)" where
  "generateFeatures itf env proj data w = feature_loop env proj data w (map fst (itf (td_Features data)))"

section \<open>Upgrade metadata\<close>

fun runtime_hashes :: "string list \<Rightarrow> project \<Rightarrow> string list \<Rightarrow> (string, string) gomap \<Rightarrow>
    project \<times> (string + (string, string) gomap)" where
  "runtime_hashes proj w [] hashes = (w, Inr hashes)"
| "runtime_hashes proj w (path # paths) hashes =
     (case read_file w (proj @ clean_rel path) of
        (w, Inr content) \<Rightarrow> runtime_hashes proj w paths (gm_put path (sha256Hex content) hashes)
      | (w, Inl err) \<Rightarrow>
          if err = ENOENT then runtime_hashes proj w paths hashes
          else (w, Inl (''read generated runtime file '' @ path @ '': '' @ err)))"

definition writeProjectUpgradeMetadata ::
    "source_range \<Rightarrow> gen_env \<Rightarrow> string list \<Rightarrow> ProjectConfig \<Rightarrow> project \<Rightarrow> project \<times> (string + unit)" where
  "writeProjectUpgradeMetadata it env proj cfg w =
     (if \<not> IsReleaseVersion (pc_FrameworkVersion cfg) then (w, Inr ())
      else
        try_io (w, ManagedRuntimeSources it (embed_read (ge_templates env))) (\<lambda>w sources.
        try_io (runtime_hashes proj w (map fst (it sources)) []) (\<lambda>w hashes.
        try_io (w, ge_marshal env \<lparr>pu_FrameworkVersion = pc_FrameworkVersion cfg, pu_ProjectType = pc_Type cfg,
            pu_Architecture = pc_Architecture cfg, pu_Database = pc_Database cfg, pu_Features = pc_Features cfg,
            pu_RuntimeFiles = hashes\<rparr>) (\<lambda>w metadata.
        try_io (mkdir_all w (proj @ [''.fgoths''])) (\<lambda>w _.
        write_file w (proj @ [''.fgoths'', ''upgrade.json'']) (metadata @ [CHR 0x0A]) 420)))))"

section \<open>Generate\<close>

text \<open>\<open>filepath.Base\<close>, and \<open>filepath.Clean\<close> and \<open>filepath.Abs\<close> for paths that become absolute.\<close>

definition Base :: "string \<Rightarrow> string" where
  "Base path =
     (if path = [] then ''.''
      else (let trimmed = rev (dropWhile (\<lambda>c. c = CHR ''/'') (rev path)) in
        if trimmed = [] then ''/'' else last (Split trimmed CHR ''/'')))"

definition abs_part :: "string list \<Rightarrow> string \<Rightarrow> string list" where
  "abs_part acc part = (if part = [] \<or> part = ''.'' then acc else if part = ''..'' then tl acc else part # acc)"

definition abs_path :: "string list \<Rightarrow> string \<Rightarrow> string list" where
  "abs_path from path = rev (foldl abs_part (rev from) (Split path CHR ''/''))"

definition projectRoot :: "gen_env \<Rightarrow> string \<Rightarrow> string \<Rightarrow> string + string list" where
  "projectRoot env name dir =
     (if Base name \<noteq> name \<or> name = ''.'' \<or> name = ''..'' \<or> CHR ''/'' \<in> set name then
        Inl ''project name must be a single directory name; use --dir to choose a target directory''
      else if dir = [] then Inr (ge_cwd env @ [name])
      else if HasPrefix dir ''/'' then Inr (abs_path [] dir @ [name])
      else
        (case ge_getwd env of
           Some err \<Rightarrow> Inl (''invalid target directory '' @ Quote dir @ '': '' @ err)
         | None \<Rightarrow> Inr (abs_path (ge_cwd env) dir @ [name])))"

definition template_data :: "ProjectConfig \<Rightarrow> string list \<Rightarrow> TemplateData" where
  "template_data cfg proj = \<lparr>td_ProjectName = last proj, td_Type = pc_Type cfg, td_Architecture = pc_Architecture cfg,
     td_Database = pc_Database cfg, td_Features = foldl (\<lambda>m f. gm_put f True m) [] (pc_Features cfg)\<rparr>"

text \<open>The work inside the staging directory, and the rename of \<open>gitignore\<close>, whose failure is a warning.\<close>

definition generate_stages :: "feature_range \<Rightarrow> source_range \<Rightarrow> gen_env \<Rightarrow> ProjectConfig \<Rightarrow> string list \<Rightarrow> string list \<Rightarrow>
    project \<Rightarrow> project \<times> (string + unit)" where
  "generate_stages itf it env cfg proj staging w =
     (let data = template_data cfg proj in
      try_io (wrap_error ''failed to generate base'' (generateBase env staging data w)) (\<lambda>w _.
      try_io (wrap_error ''failed to generate architecture'' (generateArchitecture env staging data w)) (\<lambda>w _.
      try_io (if pc_Database cfg = DBNone then (w, Inr ())
        else wrap_error ''failed to generate database'' (generateDatabase env staging data w)) (\<lambda>w _.
      try_io (wrap_error ''failed to generate features'' (generateFeatures itf env staging data w)) (\<lambda>w _.
      let w = fst (rename (ge_volume env) w (staging @ [''gitignore'']) (staging @ [''.gitignore''])) in
      try_io (wrap_error ''failed to write upgrade metadata'' (writeProjectUpgradeMetadata it env staging cfg w)) (\<lambda>w _.
      wrap_error ''failed to finalize project generation'' (finalizeProjectDir (ge_volume env) w staging proj)))))))"

definition Generate :: "feature_range \<Rightarrow> source_range \<Rightarrow> gen_env \<Rightarrow> project \<Rightarrow> ProjectConfig \<Rightarrow> project \<times> (string + unit)" where
  "Generate itf it env w cfg =
     (let cfg = config_Normalize cfg in
      case config_Validate cfg of
        Some err \<Rightarrow> (w, Inl (''invalid configuration: '' @ err))
      | None \<Rightarrow>
          try_io (w, projectRoot env (pc_Name cfg) (pc_Dir cfg)) (\<lambda>w proj.
          try_io (wrap_error ''could not inspect project directory'' (stat w proj)) (\<lambda>w info.
          if info \<noteq> None then (w, Inl (''project directory '' @ Quote (pc_Name cfg) @ '' already exists''))
          else
            try_io (wrap_error ''failed to create staging directory'' (mkdir_temp w (ge_cwd env) (''.fgoths-'' @ ge_temp env))) (\<lambda>w staging.
            case generate_stages itf it env cfg proj staging w of
              (w, Inr _) \<Rightarrow> (w, Inr ())
            | (w, Inl err) \<Rightarrow> (fst (remove_all w staging), Inl err)))))"

section \<open>The command\<close>

definition replace_byte :: "char \<Rightarrow> char \<Rightarrow> string \<Rightarrow> string" where
  "replace_byte a b s = map (\<lambda>c. if c = a then b else c) s"

definition normalizeFeatureName :: "string \<Rightarrow> Feature option" where
  "normalizeFeatureName raw =
     (let normalized = replace_byte CHR '' '' CHR ''-'' (replace_byte CHR ''_'' CHR ''-'' (TrimSpace (ToLower raw))) in
      if normalized \<in> set [''flatbuffers'', ''flat-buffers''] then Some ''flatbuffers''
      else if normalized = ''htmx'' then Some ''htmx''
      else if normalized \<in> set [''openapi'', ''swagger''] then Some ''openapi''
      else if normalized \<in> set [''metrics'', ''prometheus''] then Some ''metrics''
      else if normalized \<in> set [''health'', ''healthcheck'', ''health-check''] then Some ''health''
      else if normalized = ''grpc'' then Some ''grpc''
      else if normalized \<in> set [''jwt-auth'', ''jwtauth'', ''jwt_auth''] then Some ''jwt-auth''
      else if normalized \<in> set [''mtls'', ''m-tls'', ''mutual-tls''] then Some ''mtls''
      else if normalized \<in> set [''otel'', ''opentelemetry''] then Some ''otel''
      else if normalized \<in> set [''ci-cd'', ''cicd'', ''ci'', ''github-actions'', ''gitlab-ci''] then Some ''ci-cd''
      else None)"

fun merge_loop :: "Feature list \<Rightarrow> Feature list \<Rightarrow> Feature list \<Rightarrow> Feature list" where
  "merge_loop seen merged [] = merged"
| "merge_loop seen merged (f # fs) =
     (if f \<notin> set seen then merge_loop (f # seen) (merged @ [f]) fs else merge_loop seen merged fs)"

definition mergeFeatures :: "Feature list \<Rightarrow> Feature list \<Rightarrow> Feature list" where
  "mergeFeatures base extra = merge_loop [] [] (base @ extra)"

text \<open>\<open>strings.FieldsFunc\<close>: the maximal runs of other characters.\<close>

fun FieldsFunc :: "(char \<Rightarrow> bool) \<Rightarrow> string \<Rightarrow> string \<Rightarrow> string list" where
  "FieldsFunc f cur [] = (if cur = [] then [] else [cur])"
| "FieldsFunc f cur (c # s) =
     (if f c then (if cur = [] then FieldsFunc f [] s else cur # FieldsFunc f [] s)
      else FieldsFunc f (cur @ [c]) s)"

fun feature_parts :: "Feature list \<Rightarrow> string list \<Rightarrow> string + Feature list" where
  "feature_parts features [] = Inr features"
| "feature_parts features (part # parts) =
     (case normalizeFeatureName part of
        None \<Rightarrow> Inl (''unknown feature: '' @ TrimSpace part)
      | Some feature \<Rightarrow>
          feature_parts (if feature \<notin> set features then features @ [feature] else features) parts)"

definition parseFeatures :: "string \<Rightarrow> string + Feature list" where
  "parseFeatures featuresStr =
     (if featuresStr = [] then Inr []
      else feature_parts [] (FieldsFunc (\<lambda>r. r \<in> {CHR '','', CHR '';'', CHR 0x0A, CHR 0x0D}) [] featuresStr))"

fun validateDB_loop :: "DatabaseType list \<Rightarrow> string \<Rightarrow> bool" where
  "validateDB_loop [] db = False"
| "validateDB_loop (valid # rest) db = (if db = valid then True else validateDB_loop rest db)"

definition validateDB :: "string \<Rightarrow> bool" where
  "validateDB db = validateDB_loop ValidDBs db"

text \<open>The parsed flags of \<open>RunInit\<close>; \<open>init_config\<close> is what it does before \<open>Generate\<close>.\<close>

record init_flags =
  if_name :: string
  if_dir :: string
  if_db :: string
  if_features :: string
  if_preset :: string

definition init_config :: "string \<Rightarrow> init_flags \<Rightarrow> string + ProjectConfig" where
  "init_config version flags =
     (if if_preset flags = [] then Inl ''--preset is required: api or webapp''
      else if if_name flags = [] then Inl ''project name is required''
      else
        (case GetPreset (if_preset flags) of
           None \<Rightarrow> Inl (''unknown preset: '' @ if_preset flags)
         | Some p \<Rightarrow>
             (case (if if_features flags = [] then Inr (ps_Features p)
                    else map_sum (\<lambda>err. err) (mergeFeatures (ps_Features p)) (parseFeatures (if_features flags))) of
                Inl err \<Rightarrow> Inl err
              | Inr features \<Rightarrow>
                  (let cfg = \<lparr>pc_Name = if_name flags, pc_Dir = if_dir flags, pc_Type = ps_Type p,
                     pc_Architecture = ps_Architecture p, pc_Database = ps_Database p, pc_Features = features,
                     pc_FrameworkVersion = version\<rparr> in
                   if if_db flags \<noteq> [] then
                     (if \<not> validateDB (if_db flags) then Inl (''unsupported database: '' @ if_db flags)
                      else Inr (cfg\<lparr>pc_Database := if_db flags\<rparr>))
                   else Inr cfg))))"

definition RunInit :: "feature_range \<Rightarrow> source_range \<Rightarrow> gen_env \<Rightarrow> project \<Rightarrow> init_flags \<Rightarrow> project \<times> (string + unit)" where
  "RunInit itf it env w flags =
     try_io (w, init_config (ge_version env) flags) (\<lambda>w cfg. Generate itf it env w cfg)"

end
