(* ===== verification/Generator_Safety.thy ===== *)
theory Generator_Safety
  imports Generator
begin

text \<open>
  What project generation guarantees: existing files are kept, a failed run leaves nothing behind, and a
  successful one leaves exactly the rendered templates in the new directory; and what \<open>fgoths init\<close> accepts.
\<close>

section \<open>Moving and removing nodes\<close>

lemma node_drop [simp]: "node_at (drop_nodes gone w) p = (if gone p then None else node_at w p)"
proof -
  have "map_of (filter (\<lambda>(p, _). \<not> gone p) m) p = (if gone p then None else map_of m p)" for m :: "(string list, node) gomap"
    by (induction m) auto
  then show ?thesis by (simp add: drop_nodes_def)
qed

lemma prefix_drop: "prefix d p \<Longrightarrow> d @ drop (length d) p = p"
  by (auto simp: prefix_def)

lemma node_move:
  assumes "\<not> prefix src dst" "\<not> prefix dst src"
  shows "node_at (move_nodes src dst w) q =
    (if prefix dst q then node_at w (src @ drop (length dst) q) else if prefix src q then None else node_at w q)"
proof -
  have apart: False if "prefix src r" "prefix dst r" for r
    using that assms prefix_same_cases by blast
  have "map_of (map (\<lambda>(p, n). (if prefix src p then dst @ drop (length src) p else p, n))
        (filter (\<lambda>(p, _). \<not> prefix dst p) m)) q =
      (if prefix dst q then map_of m (src @ drop (length dst) q) else if prefix src q then None else map_of m q)"
    for m :: "(string list, node) gomap"
  proof (induction m)
    case (Cons e m)
    obtain p n where e: "e = (p, n)" by (cases e)
    show ?case
    proof (cases "prefix src p")
      case True
      then obtain x where p: "p = src @ x" by (auto simp: prefix_def)
      then have "\<not> prefix dst p" using apart True by blast
      moreover have "dst @ x = q \<longleftrightarrow> prefix dst q \<and> p = src @ drop (length dst) q" using p by (auto simp: prefix_def)
      moreover have "q = p \<Longrightarrow> \<not> prefix dst q" using apart True by blast
      ultimately show ?thesis using e p True Cons by (auto split: if_splits)
    next
      case False
      then have "src @ x \<noteq> p" for x by auto
      then show ?thesis using e False Cons by auto
    qed
  qed simp
  then show ?thesis by (simp add: move_nodes_def)
qed

lemma tree_ok_move:
  assumes "tree_ok w" "\<not> prefix src dst" "\<not> prefix dst src" "butlast dst = [] \<or> node_at w (butlast dst) = Some Dir"
  shows "tree_ok (move_nodes src dst w)"
  unfolding tree_ok_def
proof (intro allI impI)
  fix p n assume p: "node_at (move_nodes src dst w) p = Some n"
  have sub: "prefix d (butlast p) \<Longrightarrow> prefix d p" for d :: "string list"
    by (metis prefix_order.trans prefixeq_butlast)
  show "butlast p = [] \<or> node_at (move_nodes src dst w) (butlast p) = Some Dir"
  proof (cases "prefix dst p")
    case True
    then obtain x where x: "p = dst @ x" by (auto simp: prefix_def)
    then have n: "node_at w (src @ x) = Some n" using p True by (simp add: node_move assms)
    show ?thesis
    proof (cases x rule: rev_cases)
      case Nil
      have "dst \<noteq> []" using assms(3) by auto
      then have "\<not> prefix dst (butlast dst)" using prefix_length_le [of dst "butlast dst"] by (cases dst) auto
      moreover have "\<not> prefix src (butlast dst)" by (metis assms(2) prefix_order.trans prefixeq_butlast)
      ultimately show ?thesis using assms(4) x Nil by (auto simp: node_move assms)
    next
      case (snoc y z)
      have "butlast (src @ x) = [] \<or> node_at w (butlast (src @ x)) = Some Dir"
        using assms(1) n by (auto simp: tree_ok_def)
      moreover have "src \<noteq> []" using assms(2) by auto
      ultimately show ?thesis using x snoc by (auto simp: node_move assms butlast_append split: if_splits)
    qed
  next
    case False
    then have "\<not> prefix src p" "node_at w p = Some n" using p by (auto simp: node_move assms split: if_splits)
    then have "butlast p = [] \<or> node_at w (butlast p) = Some Dir" using assms(1) by (auto simp: tree_ok_def)
    then show ?thesis using False \<open>\<not> prefix src p\<close> sub by (auto simp: node_move assms)
  qed
qed

lemma tree_ok_above: "tree_ok w \<Longrightarrow> p \<noteq> [] \<Longrightarrow> q \<noteq> [] \<Longrightarrow> node_at w (p @ q) = Some n \<Longrightarrow> node_at w p = Some Dir"
proof (induction q arbitrary: n rule: rev_induct)
  case (snoc x xs)
  then have "node_at w (p @ xs) = Some Dir" unfolding tree_ok_def
    by (metis append_is_Nil_conv append_assoc butlast_snoc)
  then show ?case using snoc by (cases "xs = []") auto
qed simp

section \<open>Work inside the staging directory\<close>

text \<open>The staging directory holds files and directories only, and work in it changes nothing else.\<close>

definition staged :: "string list \<Rightarrow> project \<Rightarrow> bool" where
  "staged d w \<longleftrightarrow> tree_ok w \<and> node_at w d = Some Dir \<and>
     (\<forall>p. prefix d p \<longrightarrow> node_at w p \<notin> {Some Symlink, Some Special})"

definition works_in :: "string list \<Rightarrow> project \<Rightarrow> project \<Rightarrow> bool" where
  "works_in d w w' \<longleftrightarrow> (staged d w \<longrightarrow> staged d w' \<and> (\<forall>p. \<not> prefix d p \<longrightarrow> node_at w' p = node_at w p))"

lemma staged_same: "pj_nodes w' = pj_nodes w \<Longrightarrow> staged d w' = staged d w"
  by (simp add: staged_def tree_ok_def)

interpretation work_io: io_relation "works_in d" for d
proof unfold_locales
  show "works_in d w w'" if "pj_nodes w' = pj_nodes w" for w w'
    using that staged_same [OF that] by (simp add: works_in_def)
qed (simp add: works_in_def)

lemma write_file_node:
  "node_at (fst (write_file w p c m)) r = node_at w r \<or>
     (r = p \<and> node_at w p \<noteq> Some Dir \<and> (\<exists>c' m'. node_at (fst (write_file w p c m)) r = Some (File c' m')))"
proof (cases "r = p")
  case True
  show ?thesis unfolding True
    by (cases "node_at w p"; cases "the (node_at w p)")
      (simp_all add: write_file_def try_io_def attempt_def write_open_def split: option.split)
qed (simp add: write_file_other)

lemma mkdirs_node:
  "node_at (fst (mkdirs w pre parts)) r = node_at w r \<or>
     (node_at w r = None \<and> node_at (fst (mkdirs w pre parts)) r = Some Dir \<and> prefix r (pre @ parts) \<and> r \<noteq> [])"
proof (induction parts arbitrary: w pre)
  case (Cons part parts)
  show ?case
  proof (cases "node_at w (pre @ [part])")
    case None
    then show ?thesis using Cons.IH [of "put_node (pre @ [part]) Dir w" "pre @ [part]"]
      by (auto simp: Let_def split: if_splits)
  next
    case (Some n)
    then show ?thesis using Cons.IH [of w "pre @ [part]"] by (cases n) (auto simp: Let_def)
  qed
qed simp

lemma mkdir_all_node:
  "node_at (fst (mkdir_all w dir)) r = node_at w r \<or>
     (node_at w r = None \<and> node_at (fst (mkdir_all w dir)) r = Some Dir \<and> prefix r dir \<and> r \<noteq> [])"
proof (cases "pj_fault w (pj_tick w)")
  case None
  then show ?thesis using mkdirs_node [of "pj_next w" "[]" dir r] by (simp add: mkdir_all_def)
next
  case (Some err)
  then show ?thesis
    using mkdirs_node [of "pj_next w" "[]" "take (pj_done w (pj_tick w)) dir" r] take_is_prefix prefix_order.trans
    by (fastforce simp: mkdir_all_def)
qed

lemma write_file_tree: "tree_ok w \<Longrightarrow> tree_ok (fst (write_file w p c m))"
  using write_file_grows [of p UNIV w c m] by (simp add: grows_def)

lemma mkdir_all_tree: "tree_ok w \<Longrightarrow> tree_ok (fst (mkdir_all w dir))"
  using mkdir_all_grows [of UNIV w dir] by (simp add: grows_def)

lemma write_file_works: "prefix d p \<Longrightarrow> works_in d w (fst (write_file w p c m))"
  unfolding works_in_def
proof (intro impI conjI allI)
  assume d: "prefix d p" and w: "staged d w"
  have node: "node_at (fst (write_file w p c m)) r = node_at w r \<or>
     (r = p \<and> node_at w p \<noteq> Some Dir \<and> (\<exists>c' m'. node_at (fst (write_file w p c m)) r = Some (File c' m')))" for r
    by (rule write_file_node)
  have "node_at (fst (write_file w p c m)) d = Some Dir" using node [of d] w by (auto simp: staged_def)
  moreover have "node_at (fst (write_file w p c m)) r \<notin> {Some Symlink, Some Special}" if "prefix d r" for r
    using node [of r] w that by (auto simp: staged_def)
  ultimately show "staged d (fst (write_file w p c m))" using w write_file_tree [of w p c m] by (simp add: staged_def)
  show "node_at (fst (write_file w p c m)) r = node_at w r" if "\<not> prefix d r" for r
    using node [of r] d that by auto
qed

lemma mkdir_all_works: "prefix d dir \<or> prefix dir d \<Longrightarrow> works_in d w (fst (mkdir_all w dir))"
  unfolding works_in_def
proof (intro impI conjI allI)
  assume d: "prefix d dir \<or> prefix dir d" and w: "staged d w"
  have node: "node_at (fst (mkdir_all w dir)) r = node_at w r \<or>
     (node_at w r = None \<and> node_at (fst (mkdir_all w dir)) r = Some Dir \<and> prefix r dir \<and> r \<noteq> [])" for r
    by (rule mkdir_all_node)
  have "node_at (fst (mkdir_all w dir)) d = Some Dir" using node [of d] w by (auto simp: staged_def)
  moreover have "node_at (fst (mkdir_all w dir)) r \<notin> {Some Symlink, Some Special}" if "prefix d r" for r
    using node [of r] w that by (auto simp: staged_def)
  ultimately show "staged d (fst (mkdir_all w dir))" using w mkdir_all_tree [of w dir] by (simp add: staged_def)
  show "node_at (fst (mkdir_all w dir)) r = node_at w r" if "\<not> prefix d r" for r
  proof (rule ccontr)
    assume "node_at (fst (mkdir_all w dir)) r \<noteq> node_at w r"
    then have r: "node_at w r = None" "prefix r dir" "r \<noteq> []" using node [of r] by auto
    then have "prefix r d" using d that prefix_same_cases prefix_order.trans by blast
    then have "node_at w d = None" using r w tree_ok_absent [of w r] by (auto simp: staged_def prefix_def)
    then show False using w by (simp add: staged_def)
  qed
qed

lemma target_path_below: "prefix d (target_path d t)" "prefix d (butlast (target_path d t)) \<or> prefix (butlast (target_path d t)) d"
proof -
  obtain x where x: "target_path d t = d @ x" by (simp add: target_path_def)
  then show "prefix d (target_path d t)" by simp
  show "prefix d (butlast (target_path d t)) \<or> prefix (butlast (target_path d t)) d"
    using x by (cases x rule: rev_cases) (auto simp: butlast_append prefixeq_butlast)
qed

lemma processTemplate_works: "works_in d w (fst (processTemplate env d data w t))"
  unfolding processTemplate_def Let_def
  by (intro work_io.seq)
    (simp_all add: work_io.refl mkdir_all_works target_path_below write_file_works)

lemma process_all_works: "works_in d w (fst (process_all env d data w ts))"
  by (induction env d data w ts rule: process_all.induct)
    (auto intro!: work_io.seq processTemplate_works work_io.refl)

text \<open>The walk over a directory processes the templates below it, in order.\<close>

fun walk_paths :: "string \<Rightarrow> (string \<times> embed) list \<Rightarrow> string list" where
  "walk_paths dir [] = []"
| "walk_paths dir ((name, EDir entries) # rest) = walk_paths (path_join [dir, name]) entries @ walk_paths dir rest"
| "walk_paths dir ((name, EFile _) # rest) =
     (if HasSuffix name ''.tpl'' then [path_join [dir, name]] else []) @ walk_paths dir rest"

lemma try_io_assoc: "try_io (try_io m f) g = try_io m (\<lambda>w x. try_io (f w x) g)"
  by (simp add: try_io_def split: prod.split sum.split)

lemma try_io_unit [simp]: "try_io m (\<lambda>w u. (w, Inr ())) = m" for m :: "project \<times> (string + unit)"
  by (simp add: try_io_def split: prod.split sum.split)

lemma try_io_ok [simp]: "try_io (w, Inr x) f = f w x"
  by (simp add: try_io_def)

lemma process_all_append:
  "process_all env d data w (ts @ us) = try_io (process_all env d data w ts) (\<lambda>w _. process_all env d data w us)"
  by (induction ts arbitrary: w) (simp_all add: try_io_assoc)

lemma walk_entries_process_all:
  "walk_entries env d data w dir entries = process_all env d data w (walk_paths dir entries)"
  by (induction env d data w dir entries rule: walk_entries.induct) (simp_all add: process_all_append)

definition dir_paths :: "gen_env \<Rightarrow> string \<Rightarrow> string list" where
  "dir_paths env dir = (case embed_at (ge_templates env) (Split dir CHR ''/'') of
     Some (EDir entries) \<Rightarrow> walk_paths dir entries | _ \<Rightarrow> [])"

lemma walkAndProcess_cases:
  obtains (processed) "walkAndProcess env d data w dir = process_all env d data w (dir_paths env dir)"
  | (missing) err where "walkAndProcess env d data w dir = (w, Inl err)" "dir_paths env dir = []"
  by (cases "embed_at (ge_templates env) (Split dir CHR ''/'')"; cases "the (embed_at (ge_templates env) (Split dir CHR ''/''))")
    (simp_all add: walkAndProcess_def dir_paths_def walk_entries_process_all)

lemma walkAndProcess_works: "works_in d w (fst (walkAndProcess env d data w dir))"
  by (rule walkAndProcess_cases [of env d data w dir]) (simp_all add: process_all_works work_io.refl)

lemma walkAndProcess_Inr:
  "walkAndProcess env d data w dir = (w', Inr u) \<Longrightarrow> process_all env d data w (dir_paths env dir) = (w', Inr u)"
  by (rule walkAndProcess_cases [of env d data w dir]) simp_all

lemma feature_loop_works: "works_in d w (fst (feature_loop env d data w fs))"
proof (induction fs arbitrary: w)
  case (Cons f fs)
  have "works_in d w (fst (walkAndProcess env d data w (''templates/features/'' @ f)))" by (rule walkAndProcess_works)
  then show ?case using Cons work_io.trans by (auto split: prod.split sum.split)
qed (simp add: work_io.refl)

lemma runtime_hashes_same: "pj_nodes (fst (runtime_hashes proj w paths hashes)) = pj_nodes w"
proof (induction paths arbitrary: w hashes)
  case (Cons p paths)
  have "pj_nodes w' = pj_nodes w" if "read_file w (proj @ clean_rel p) = (w', x)" for w' x
    using read_file_same [of w "proj @ clean_rel p"] that by simp
  then show ?case using Cons by (auto split: prod.split sum.split)
qed simp

lemma writeProjectUpgradeMetadata_works: "works_in d w (fst (writeProjectUpgradeMetadata it env d cfg w))"
proof -
  have "works_in d w (fst (runtime_hashes d w paths []))" for w paths
    by (rule work_io.same) (rule runtime_hashes_same)
  then show ?thesis
    by (auto simp: writeProjectUpgradeMetadata_def work_io.refl
        intro!: work_io.seq mkdir_all_works write_file_works)
qed

lemma rename_inside_works: "a \<noteq> b \<Longrightarrow> works_in d w (fst (rename vol w (d @ [a]) (d @ [b])))"
proof -
  assume ab: "a \<noteq> b"
  let ?w = "pj_next w" and ?m = "move_nodes (d @ [a]) (d @ [b]) (pj_next w)"
  have np: "\<not> prefix (d @ [a]) (d @ [b])" "\<not> prefix (d @ [b]) (d @ [a])" using ab by auto
  note nm = node_move [OF np, of "pj_next w"]
  have "works_in d w ?m"
    unfolding works_in_def
  proof (intro impI conjI allI)
    assume w: "staged d w"
    then have "staged d ?w" by (simp add: staged_def tree_ok_def)
    then have t: "tree_ok ?m" using np by (intro tree_ok_move) (auto simp: staged_def)
    have "\<not> prefix (d @ [x]) r" if "\<not> prefix d r" for x r using that by (auto simp: prefix_def)
    then show "node_at ?m r = node_at w r" if "\<not> prefix d r" for r using that by (simp add: nm)
    have "\<not> prefix (d @ [a]) d" "\<not> prefix (d @ [b]) d" by (auto dest: prefix_length_le)
    then have "node_at ?m d = Some Dir" using w by (simp add: nm staged_def)
    moreover have "node_at ?m r \<notin> {Some Symlink, Some Special}" if "prefix d r" for r
      using w that by (simp add: nm staged_def)
    ultimately show "staged d ?m" using t by (simp add: staged_def)
  qed
  moreover have "works_in d w ?w" by (rule work_io.same) simp
  ultimately show ?thesis by (auto simp: rename_def attempt_def split: option.split)
qed

section \<open>The whole run\<close>

lemma node_remove_all:
  "node_at (fst (remove_all w d)) p =
     (if prefix d p \<and> (pj_fault w (pj_tick w) = nil \<or> length p > length d + pj_done w (pj_tick w)) then None
      else node_at w p)"
  by (auto simp: remove_all_def split: option.split)

lemma remove_all_tick: "pj_tick (fst (remove_all w d)) = Suc (pj_tick w)"
  by (simp add: remove_all_def drop_nodes_def split: option.split)

lemma remove_all_tree: "tree_ok w \<Longrightarrow> tree_ok (fst (remove_all w d))"
  unfolding tree_ok_def
proof (intro allI impI)
  fix p n assume ok: "\<forall>p n. node_at w p = Some n \<longrightarrow> butlast p = [] \<or> node_at w (butlast p) = Some Dir"
    and p: "node_at (fst (remove_all w d)) p = Some n"
  then have n: "node_at w p = Some n"
    and kept: "\<not> (prefix d p \<and> (pj_fault w (pj_tick w) = nil \<or> length p > length d + pj_done w (pj_tick w)))"
    by (auto simp: node_remove_all split: if_splits)
  have "prefix d p" if "prefix d (butlast p)" using that prefixeq_butlast prefix_order.trans by blast
  then have "\<not> (prefix d (butlast p) \<and> (pj_fault w (pj_tick w) = nil \<or> length (butlast p) > length d + pj_done w (pj_tick w)))"
    using kept by (auto simp: less_diff_conv)
  then show "butlast p = [] \<or> node_at (fst (remove_all w d)) (butlast p) = Some Dir"
    using ok n by (metis node_remove_all)
qed

text \<open>A rename moves the directory, or fails and leaves the tree as it was.\<close>

lemma rename_cases:
  assumes "tree_ok w" "dst \<noteq> []"
  obtains (moved) w' where "rename vol w src dst = (w', Inr ())" "pj_nodes w' = pj_nodes (move_nodes src dst w)"
      "\<not> prefix src dst" "\<not> prefix dst src" "butlast dst = [] \<or> node_at w (butlast dst) = Some Dir"
  | (kept) w' err where "rename vol w src dst = (w', Inl err)" "pj_nodes w' = pj_nodes w"
proof -
  have "\<not> prefix dst src" if "node_at w src \<noteq> None" "node_at w dst \<noteq> Some Dir" "\<not> prefix src dst"
  proof
    assume "prefix dst src"
    then obtain x where x: "src = dst @ x" by (auto simp: prefix_def)
    show False
    proof (cases "x = []")
      case True
      then show False using x that by simp
    next
      case False
      then show False using tree_ok_above [OF assms] x that by auto
    qed
  qed
  moreover obtain w' x where r: "rename vol w src dst = (w', x)" by (cases "rename vol w src dst")
  ultimately show thesis
  proof (cases x)
    case (Inl err)
    then have "pj_nodes w' = pj_nodes w" using r by (auto simp: rename_def attempt_def split: option.splits if_splits)
    with r Inl kept show thesis by blast
  next
    case (Inr u)
    then have "w' = move_nodes src dst (pj_next w)" "node_at w src \<noteq> None" "node_at w dst \<noteq> Some Dir"
      "\<not> prefix src dst" "butlast dst = [] \<or> node_at w (butlast dst) = Some Dir"
      using r by (auto simp: rename_def attempt_def split: option.splits if_splits)
    moreover from this have "\<not> prefix dst src"
      using \<open>\<lbrakk>node_at w src \<noteq> None; node_at w dst \<noteq> Some Dir; \<not> prefix src dst\<rbrakk> \<Longrightarrow> \<not> prefix dst src\<close> by blast
    ultimately show thesis using r Inr moved by (simp add: move_nodes_def)
  qed
qed

lemma rename_fault [simp]: "pj_fault (fst (rename vol w src dst)) = pj_fault w"
  by (auto simp: rename_def move_nodes_def intro!: attempt_fault)

lemma rename_no_exdev:
  "rename vol w src dst = (w', Inl err) \<Longrightarrow> \<forall>t. pj_fault w t \<noteq> Some EXDEV \<Longrightarrow> \<forall>a b. vol a = vol b \<Longrightarrow> err \<noteq> EXDEV"
  by (auto simp: rename_def attempt_def split: option.splits if_splits)

text \<open>What a run does in the staging directory, before it is moved to its place.\<close>

definition prepare :: "feature_range \<Rightarrow> source_range \<Rightarrow> gen_env \<Rightarrow> ProjectConfig \<Rightarrow> string list \<Rightarrow> string list \<Rightarrow>
    project \<Rightarrow> project \<times> (string + unit)" where
  "prepare itf it env cfg proj staging w =
     (let data = template_data cfg proj in
      try_io (wrap_error ''failed to generate base'' (generateBase env staging data w)) (\<lambda>w _.
      try_io (wrap_error ''failed to generate architecture'' (generateArchitecture env staging data w)) (\<lambda>w _.
      try_io (if pc_Database cfg = DBNone then (w, Inr ())
        else wrap_error ''failed to generate database'' (generateDatabase env staging data w)) (\<lambda>w _.
      try_io (wrap_error ''failed to generate features'' (generateFeatures itf env staging data w)) (\<lambda>w _.
      wrap_error ''failed to write upgrade metadata'' (writeProjectUpgradeMetadata it env staging cfg
        (fst (rename (ge_volume env) w (staging @ [''gitignore'']) (staging @ [''.gitignore'']))))))))) "

lemma generate_stages_prepare:
  "generate_stages itf it env cfg proj staging w =
     try_io (prepare itf it env cfg proj staging w) (\<lambda>w _.
       wrap_error ''failed to finalize project generation'' (finalizeProjectDir (ge_volume env) w staging proj))"
  by (simp add: generate_stages_def prepare_def try_io_assoc Let_def)

lemma generateArchitecture_fst: "fst (generateArchitecture env d data w) =
    fst (walkAndProcess env d data w (''templates/architectures/'' @ td_Architecture data))"
  and generateDatabase_fst: "fst (generateDatabase env d data w) =
    fst (walkAndProcess env d data w (''templates/database/'' @ td_Database data))"
  unfolding generateArchitecture_def generateDatabase_def by (simp_all split: prod.split sum.split)

lemma prepare_works: "works_in d w (fst (prepare itf it env cfg proj d w))"
proof -
  have rn: "works_in d w (fst (writeProjectUpgradeMetadata it env d cfg
      (fst (rename (ge_volume env) w (d @ [''gitignore'']) (d @ [''.gitignore''])))))" for w
    by (rule work_io.trans [OF rename_inside_works writeProjectUpgradeMetadata_works]) simp
  show ?thesis unfolding prepare_def Let_def generateBase_def generateFeatures_def
    by (intro work_io.seq) (simp_all add: process_all_works generateArchitecture_fst generateDatabase_fst
        walkAndProcess_works feature_loop_works rn work_io.refl)
qed

lemma processTemplate_fault: "pj_fault (fst (processTemplate env d data w t)) = pj_fault w"
  unfolding processTemplate_def Let_def by (intro fault_io.seq) simp_all

lemma process_all_fault: "pj_fault (fst (process_all env d data w ts)) = pj_fault w"
  by (induction env d data w ts rule: process_all.induct) (auto intro!: fault_io.seq processTemplate_fault)

lemma walkAndProcess_fault: "pj_fault (fst (walkAndProcess env d data w dir)) = pj_fault w"
  by (rule walkAndProcess_cases [of env d data w dir]) (simp_all add: process_all_fault)

lemma feature_loop_fault: "pj_fault (fst (feature_loop env d data w fs)) = pj_fault w"
proof (induction fs arbitrary: w)
  case (Cons f fs)
  have "pj_fault (fst (walkAndProcess env d data w (''templates/features/'' @ f))) = pj_fault w"
    by (rule walkAndProcess_fault)
  then show ?case using Cons by (auto split: prod.split sum.split)
qed simp

lemma runtime_hashes_fault: "pj_fault (fst (runtime_hashes proj w paths hashes)) = pj_fault w"
proof (induction paths arbitrary: w hashes)
  case (Cons p paths)
  have "pj_fault w' = pj_fault w" if "read_file w (proj @ clean_rel p) = (w', x)" for w' x
    using faults_kept(2) [of w "proj @ clean_rel p"] that by simp
  then show ?case using Cons by (auto split: prod.split sum.split)
qed simp

lemma writeProjectUpgradeMetadata_fault: "pj_fault (fst (writeProjectUpgradeMetadata it env d cfg w)) = pj_fault w"
  by (auto simp: writeProjectUpgradeMetadata_def runtime_hashes_fault intro!: fault_io.seq)

lemma prepare_fault: "pj_fault (fst (prepare itf it env cfg proj d w)) = pj_fault w"
  unfolding prepare_def Let_def generateBase_def generateFeatures_def
  by (intro fault_io.seq) (simp_all add: process_all_fault generateArchitecture_fst generateDatabase_fst
      walkAndProcess_fault feature_loop_fault writeProjectUpgradeMetadata_fault)

definition staging_dir :: "gen_env \<Rightarrow> string list" where
  "staging_dir env = ge_cwd env @ [''.fgoths-'' @ ge_temp env]"

lemma stat_same: "pj_nodes (fst (stat w p)) = pj_nodes w" "pj_fault (fst (stat w p)) = pj_fault w"
  and stat_None: "stat w p = (w', Inr None) \<Longrightarrow> p \<noteq> [] \<and> node_at w p = None"
  by (auto simp: stat_def attempt_def split: option.splits if_splits)

lemma mkdir_temp_cases:
  obtains (made) w' where "mkdir_temp w dir name = (w', Inr (dir @ [name]))"
      "pj_nodes w' = pj_nodes (put_node (dir @ [name]) Dir w)" "pj_fault w' = pj_fault w"
      "node_at w (dir @ [name]) = None" "dir = [] \<or> node_at w dir = Some Dir"
  | (kept) w' err where "mkdir_temp w dir name = (w', Inl err)" "pj_nodes w' = pj_nodes w"
proof -
  obtain w' x where r: "mkdir_temp w dir name = (w', x)" by (cases "mkdir_temp w dir name")
  show thesis
  proof (cases x)
    case (Inl err)
    then have "pj_nodes w' = pj_nodes w" using r by (auto simp: mkdir_temp_def attempt_def split: option.splits if_splits)
    with r Inl kept show thesis by blast
  next
    case (Inr d)
    then have "d = dir @ [name]" "w' = put_node (dir @ [name]) Dir (pj_next w)" "node_at w (dir @ [name]) = None"
      "dir = [] \<or> node_at w dir = Some Dir"
      using r by (auto simp: mkdir_temp_def attempt_def split: option.splits if_splits)
    with r Inr made show thesis by (simp add: put_node_def)
  qed
qed

text \<open>A run stops before it has changed anything, or works in a new directory for a target that is free.\<close>

lemma Generate_cases:
  obtains (early) err where "pj_nodes (fst (Generate itf it env w cfg)) = pj_nodes w"
      "snd (Generate itf it env w cfg) = Inl err"
  | (run) proj w2 where "config_Validate (config_Normalize cfg) = nil"
      "projectRoot env (pc_Name (config_Normalize cfg)) (pc_Dir (config_Normalize cfg)) = Inr proj"
      "proj \<noteq> []" "node_at w proj = None" "node_at w (staging_dir env) = None"
      "ge_cwd env = [] \<or> node_at w (ge_cwd env) = Some Dir"
      "pj_nodes w2 = pj_nodes (put_node (staging_dir env) Dir w)" "pj_fault w2 = pj_fault w"
      "Generate itf it env w cfg =
         (case generate_stages itf it env (config_Normalize cfg) proj (staging_dir env) w2 of
            (w, Inr _) \<Rightarrow> (w, Inr ())
          | (w, Inl err) \<Rightarrow> (fst (remove_all w (staging_dir env)), Inl err))"
proof -
  let ?c = "config_Normalize cfg" and ?G = "Generate itf it env w cfg"
  let ?r = "projectRoot env (pc_Name (config_Normalize cfg)) (pc_Dir (config_Normalize cfg))"
  show thesis
  proof (cases "config_Validate ?c = nil \<and> \<not> isl ?r")
    case False
    then have "pj_nodes (fst ?G) = pj_nodes w \<and> (\<exists>err. snd ?G = Inl err)"
      by (cases ?r) (auto simp: Generate_def Let_def try_io_def split: option.splits)
    with early show thesis by blast
  next
    case True
    then obtain proj where root: "config_Validate ?c = nil" "?r = Inr proj" by (cases ?r) auto
    obtain w1 x where st: "stat w proj = (w1, x)" by (cases "stat w proj")
    have w1: "pj_nodes w1 = pj_nodes w" "pj_fault w1 = pj_fault w" using stat_same [of w proj] st by simp_all
    show thesis
    proof (cases "x = Inr None")
      case False
      then have "pj_nodes (fst ?G) = pj_nodes w \<and> (\<exists>err. snd ?G = Inl err)"
        using root st w1 by (cases x) (auto simp: Generate_def Let_def try_io_def wrap_error_def)
      with early show thesis by blast
    next
      case True
      then have free: "proj \<noteq> []" "node_at w proj = None" using stat_None st by blast+
      show thesis
      proof (rule mkdir_temp_cases [of w1 "ge_cwd env" "''.fgoths-'' @ ge_temp env"])
        fix w2 assume m: "mkdir_temp w1 (ge_cwd env) (''.fgoths-'' @ ge_temp env) = (w2, Inr (ge_cwd env @ [''.fgoths-'' @ ge_temp env]))"
          "pj_nodes w2 = pj_nodes (put_node (ge_cwd env @ [''.fgoths-'' @ ge_temp env]) Dir w1)" "pj_fault w2 = pj_fault w1"
          "node_at w1 (ge_cwd env @ [''.fgoths-'' @ ge_temp env]) = None" "ge_cwd env = [] \<or> node_at w1 (ge_cwd env) = Some Dir"
        then have "?G = (case generate_stages itf it env ?c proj (staging_dir env) w2 of
            (w, Inr _) \<Rightarrow> (w, Inr ())
          | (w, Inl err) \<Rightarrow> (fst (remove_all w (staging_dir env)), Inl err))"
          using root st True by (simp add: Generate_def Let_def wrap_error_def staging_dir_def split: prod.split sum.split)
        then show thesis using run [of proj w2] root free m w1 by (simp add: put_node_def staging_dir_def)
      next
        fix w2 err assume "mkdir_temp w1 (ge_cwd env) (''.fgoths-'' @ ge_temp env) = (w2, Inl err)" "pj_nodes w2 = pj_nodes w1"
        then have "pj_nodes (fst ?G) = pj_nodes w \<and> (\<exists>err. snd ?G = Inl err)"
          using root st True w1 by (simp add: Generate_def Let_def wrap_error_def try_io_def)
        with early show thesis by blast
      qed
    qed
  qed
qed

lemma staged_new:
  assumes "tree_ok w" "node_at w d = None" "butlast d = [] \<or> node_at w (butlast d) = Some Dir" "d \<noteq> []"
    and "pj_nodes w' = pj_nodes (put_node d Dir w)"
  shows "staged d w'"
proof -
  have "staged d (put_node d Dir w)"
    using assms(1-4) tree_ok_put [of w d Dir] tree_ok_absent [OF assms(1,4,2)]
    by (auto simp: staged_def prefix_def)
  then show ?thesis using staged_same [OF assms(5)] by simp
qed

text \<open>Nothing that exists is changed: the staging directory and the target are new.\<close>

definition below :: "string list \<Rightarrow> string list \<Rightarrow> string list set" where
  "below d e = {p. prefix d p \<or> prefix e p}"

lemma works_grows: "works_in d w w' \<Longrightarrow> staged d w \<Longrightarrow> grows (below d e) w w'"
  by (auto simp: works_in_def staged_def grows_def below_def)

lemma reads_grow: "grows S w (fst (attempt w (\<lambda>w. (w, x w))))" "grows S w (fst (lstat w p))"
  by (rule grows_same, simp)+

lemma copy_walk_grows: "prefix e dst \<Longrightarrow> grows (below d e) w (fst (copy_walk src dst w ps))"
proof (induction src dst w ps rule: copy_walk.induct)
  case (2 src dst w path paths)
  have copied: "grows (below d e) w (fst (copyFile w p (dst @ x) c m))" for w p x c m
    using 2(2) unfolding copyFile_def
    by (intro grows_io.seq reads_grow write_file_grows) (auto simp: below_def)
  have "grows (below d e) w (fst (case info of
          Some Dir \<Rightarrow> try_io (attempt w (\<lambda>w. (w, Inr ()))) (\<lambda>w names. mkdir_all w (dst @ x))
        | Some (File content mode) \<Rightarrow> copyFile w path (dst @ x) content mode
        | Some _ \<Rightarrow> (w, Inl ''not a regular file'')
        | None \<Rightarrow> (w, Inl ENOENT)))" for w info x
    by (auto split: option.split node.split intro!: copied grows_io.seq reads_grow mkdir_all_grows)
  then show ?case using 2 by (auto simp: Let_def intro!: grows_io.seq reads_grow)
qed simp

lemma remove_all_grows: "grows (below d e) w (fst (remove_all w d))"
  using remove_all_tree [of w d] by (auto simp: grows_def node_remove_all below_def)

lemma rename_grows:
  assumes "dst \<noteq> []"
  shows "grows (below src dst) w (fst (rename vol w src dst))"
proof (cases "tree_ok w")
  case True
  then show ?thesis
  proof (rule rename_cases [OF _ assms, of w vol src])
    fix w' assume r: "rename vol w src dst = (w', Inr ())" "pj_nodes w' = pj_nodes (move_nodes src dst w)"
      "\<not> prefix src dst" "\<not> prefix dst src" "butlast dst = [] \<or> node_at w (butlast dst) = Some Dir"
    then have "tree_ok w'" using tree_ok_move [OF True, of src dst] tree_ok_same [OF r(2)] by simp
    then show ?thesis using r by (auto simp: grows_def below_def node_move)
  qed (simp add: grows_same)
qed (simp add: grows_def)

lemma finalize_grows: "dst \<noteq> [] \<Longrightarrow> grows (below src dst) w (fst (finalizeProjectDir vol w src dst))"
proof -
  assume dst: "dst \<noteq> []"
  obtain w1 x where r: "rename vol w src dst = (w1, x)" by (cases "rename vol w src dst")
  have g1: "grows (below src dst) w w1" using rename_grows [OF dst, of src w vol] r by simp
  have "grows (below src dst) w1 (fst (try_io (copyDir w1 src dst) (\<lambda>w _. remove_all w src)))"
    by (intro grows_io.seq) (simp_all add: copyDir_def copy_walk_grows remove_all_grows)
  then show ?thesis using r g1 grows_trans [OF g1] by (auto simp: finalizeProjectDir_def split: sum.split)
qed

lemma run_stages:
  assumes "tree_ok w" "node_at w d = None" "c = [] \<or> node_at w c = Some Dir" "d = c @ [name]"
    "pj_nodes w2 = pj_nodes (put_node d Dir w)"
  shows "staged d w2" "grows {d} w w2" "\<forall>p. \<not> prefix d p \<longrightarrow> node_at w2 p = node_at w p"
proof -
  show s: "staged d w2" by (rule staged_new [OF assms(1,2) _ _ assms(5)]) (use assms(3,4) in auto)
  show "grows {d} w w2" using s assms(5) by (simp add: grows_def staged_def)
  show "\<forall>p. \<not> prefix d p \<longrightarrow> node_at w2 p = node_at w p" using assms(5) by auto
qed

lemma generate_stages_grows:
  "staged d w \<Longrightarrow> proj \<noteq> [] \<Longrightarrow> grows (below d proj) w (fst (generate_stages itf it env cfg proj d w))"
  unfolding generate_stages_prepare
  by (rule grows_io.seq, rule works_grows [OF prepare_works], assumption, simp, rule finalize_grows)

lemma generate_keeps_nodes:
  assumes "tree_ok w" "node_at w p = Some n"
  shows "node_at (fst (Generate itf it env w cfg)) p = Some n"
proof (rule Generate_cases [of itf it env w cfg])
  let ?d = "staging_dir env" and ?G = "Generate itf it env w cfg" and ?c = "config_Normalize cfg"
  fix proj w2 assume free: "proj \<noteq> []" "node_at w proj = None" "node_at w ?d = None"
    and cwd: "ge_cwd env = [] \<or> node_at w (ge_cwd env) = Some Dir"
    and w2: "pj_nodes w2 = pj_nodes (put_node ?d Dir w)"
    and res: "?G = (case generate_stages itf it env ?c proj ?d w2 of
          (w, Inr _) \<Rightarrow> (w, Inr ()) | (w, Inl err) \<Rightarrow> (fst (remove_all w ?d), Inl err))"
  note start = run_stages [OF assms(1) free(3) cwd _ w2, unfolded staging_dir_def, OF HOL.refl, folded staging_dir_def]
  have p: "p \<notin> below ?d proj"
    using assms(2) tree_ok_absent [OF assms(1) free(1,2)] tree_ok_absent [OF assms(1) _ free(3)]
    by (auto simp: below_def prefix_def staging_dir_def)
  obtain w3 x where g: "generate_stages itf it env ?c proj ?d w2 = (w3, x)"
    by (cases "generate_stages itf it env ?c proj ?d w2")
  then have g3: "grows (below ?d proj) w2 w3"
    using generate_stages_grows [OF start(1) free(1), of itf it env ?c] by simp
  have "grows (below ?d proj) w2 (fst (remove_all w3 ?d))" by (rule grows_trans [OF g3 remove_all_grows])
  moreover have "tree_ok w2" "node_at w2 p = Some n" using start p assms by (auto simp: staged_def below_def)
  ultimately show ?thesis using res g g3 p by (auto simp: grows_def split: sum.split)
qed (use assms(2) in simp)

lemma failed_stages:
  assumes run: "generate_stages itf it env cfg proj d w = (w', Inl err)" and w: "staged d w" "proj \<noteq> []"
    and ex: "\<forall>t. pj_fault w t \<noteq> Some EXDEV" "\<forall>a b. ge_volume env a = ge_volume env b"
  shows "pj_fault w' = pj_fault w" "\<not> prefix d p \<Longrightarrow> node_at w' p = node_at w p"
proof -
  obtain w1 x where pr: "prepare itf it env cfg proj d w = (w1, x)" by (cases "prepare itf it env cfg proj d w")
  have w1: "staged d w1" "\<not> prefix d p \<Longrightarrow> node_at w1 p = node_at w p" "pj_fault w1 = pj_fault w"
    using prepare_works [of d w itf it env cfg proj] prepare_fault [of itf it env cfg proj d w] w pr
    by (auto simp: works_in_def)
  have "pj_fault w' = pj_fault w1 \<and> pj_nodes w' = pj_nodes w1"
  proof (cases x)
    case (Inr u)
    then have fin: "wrap_error ''failed to finalize project generation'' (finalizeProjectDir (ge_volume env) w1 d proj) = (w', Inl err)"
      using run pr by (simp add: generate_stages_prepare)
    have "tree_ok w1" using w1(1) by (simp add: staged_def)
    then show ?thesis
    proof (rule rename_cases [OF _ w(2), of w1 "ge_volume env" d])
      fix w2 assume "rename (ge_volume env) w1 d proj = (w2, Inr ())"
      then show ?thesis using fin by (simp add: finalizeProjectDir_def wrap_error_def)
    next
      fix w2 e assume r: "rename (ge_volume env) w1 d proj = (w2, Inl e)" "pj_nodes w2 = pj_nodes w1"
      then have "e \<noteq> EXDEV" using rename_no_exdev [OF r(1)] ex w1(3) by simp
      then show ?thesis using fin r rename_fault [of "ge_volume env" w1 d proj]
        by (simp add: finalizeProjectDir_def wrap_error_def)
    qed
  qed (use run pr in \<open>simp add: generate_stages_prepare try_io_def\<close>)
  then show "pj_fault w' = pj_fault w" "\<not> prefix d p \<Longrightarrow> node_at w' p = node_at w p" using w1 by simp_all
qed

lemma failed_run_undone:
  assumes w: "tree_ok w" and G: "Generate itf it env w cfg = (w', Inl err)"
    and ex: "\<forall>t. pj_fault w t \<noteq> Some EXDEV" "\<forall>a b. ge_volume env a = ge_volume env b"
    and rm: "\<not> prefix (staging_dir env) p \<or> pj_fault w (pj_tick w' - 1) = nil"
  shows "node_at w' p = node_at w p"
proof (rule Generate_cases [of itf it env w cfg])
  let ?d = "staging_dir env" and ?c = "config_Normalize cfg"
  fix proj w2 assume free: "proj \<noteq> []" "node_at w ?d = None"
    and cwd: "ge_cwd env = [] \<or> node_at w (ge_cwd env) = Some Dir"
    and w2: "pj_nodes w2 = pj_nodes (put_node ?d Dir w)" "pj_fault w2 = pj_fault w"
    and res: "Generate itf it env w cfg = (case generate_stages itf it env ?c proj ?d w2 of
          (w, Inr _) \<Rightarrow> (w, Inr ()) | (w, Inl err) \<Rightarrow> (fst (remove_all w ?d), Inl err))"
  note start = run_stages [OF w free(2) cwd _ w2(1), unfolded staging_dir_def, OF HOL.refl, folded staging_dir_def]
  obtain w3 where g: "generate_stages itf it env ?c proj ?d w2 = (w3, Inl err)" and w': "w' = fst (remove_all w3 ?d)"
    using res G by (auto split: prod.splits sum.splits)
  have ex2: "\<forall>t. pj_fault w2 t \<noteq> Some EXDEV" using ex(1) w2(2) by simp
  note failed = failed_stages [OF g start(1) free(1) ex2 ex(2)]
  show ?thesis
  proof (cases "prefix ?d p")
    case True
    then have "pj_fault w3 (pj_tick w3) = nil" using rm w' failed(1) w2(2) by (simp add: remove_all_tick)
    moreover have "node_at w p = None"
      using True tree_ok_absent [OF w _ free(2)] by (auto simp: prefix_def staging_dir_def)
    ultimately show ?thesis using True w' by (simp add: node_remove_all)
  next
    case False
    then show ?thesis using w' failed(2) start(3) by (simp add: node_remove_all)
  qed
qed (use G in simp)


section \<open>What a successful run leaves\<close>

definition out_path :: "string \<Rightarrow> string list" where
  "out_path t = clean_rel (templateOutputPath t)"

definition written :: "gen_env \<Rightarrow> TemplateData \<Rightarrow> string list \<Rightarrow> project \<Rightarrow> string \<Rightarrow> bool" where
  "written env data d w t \<longleftrightarrow> (\<exists>content out m. embed_read (ge_templates env) t = Inr content \<and>
     template_output env data t content = Inr out \<and> node_at w (d @ out_path t) = Some (File out m))"

text \<open>Nodes an operation keeps: all but the files it writes.\<close>

definition keeps :: "string list set \<Rightarrow> project \<Rightarrow> project \<Rightarrow> bool" where
  "keeps S w w' \<longleftrightarrow> (\<forall>p n. p \<notin> S \<and> node_at w p = Some n \<longrightarrow> node_at w' p = Some n)"

interpretation keeps_io: io_relation "keeps S" for S
  by unfold_locales (simp_all add: keeps_def)

lemma keepsD: "keeps S w w' \<Longrightarrow> p \<notin> S \<Longrightarrow> node_at w p = Some n \<Longrightarrow> node_at w' p = Some n"
  by (simp add: keeps_def)

lemma write_file_keeps: "p \<in> S \<Longrightarrow> keeps S w (fst (write_file w p c m))"
  unfolding keeps_def by (metis write_file_other)

lemma mkdir_all_keeps: "keeps S w (fst (mkdir_all w dir))"
  unfolding keeps_def using mkdir_all_node [of w dir] by (metis option.distinct(1))

lemma processTemplate_keeps: "d @ out_path t \<in> S \<Longrightarrow> keeps S w (fst (processTemplate env d data w t))"
  unfolding processTemplate_def Let_def
  by (intro keeps_io.seq) (simp_all add: keeps_io.refl mkdir_all_keeps write_file_keeps target_path_def out_path_def)

lemma process_all_keeps: "(\<lambda>t. d @ out_path t) ` set ts \<subseteq> S \<Longrightarrow> keeps S w (fst (process_all env d data w ts))"
  by (induction env d data w ts rule: process_all.induct)
    (auto intro!: keeps_io.seq processTemplate_keeps keeps_io.refl)

lemma processTemplate_Inr:
  assumes "processTemplate env d data w t = (w', Inr u)" "staged d w"
  shows "written env data d w' t"
proof -
  obtain c w1 v out where c: "embed_read (ge_templates env) t = Inr c" and m: "mkdir_all w (butlast (target_path d t)) = (w1, Inr v)"
    and out: "template_output env data t c = Inr out" and wr: "write_file w1 (target_path d t) out 420 = (w', Inr u)"
    using assms(1) by (auto simp: processTemplate_def Let_def try_io_Inr)
  have "staged d w1" using mkdir_all_works [OF target_path_below(2) [of d t], of w] m assms(2) by (simp add: works_in_def)
  then have "node_at w1 (target_path d t) \<notin> {Some Symlink, Some Special}"
    using target_path_below(1) by (simp add: staged_def)
  from write_file_File [OF wr this] show ?thesis using c out by (auto simp: written_def target_path_def out_path_def)
qed

text \<open>After a list of templates every file holds the output of the last template for it.\<close>

lemma process_all_Inr:
  assumes "process_all env d data w (us @ t # vs) = (w', Inr u)" "staged d w" "out_path t \<notin> out_path ` set vs"
  shows "written env data d w' t"
proof -
  obtain w1 w2 v v' where us: "process_all env d data w us = (w1, Inr v)" and t: "processTemplate env d data w1 t = (w2, Inr v')"
    and vs: "process_all env d data w2 vs = (w', Inr u)"
    using assms(1) by (auto simp: process_all_append try_io_Inr)
  have "staged d w1" using process_all_works [of d w env data us] us assms(2) by (simp add: works_in_def)
  then have "written env data d w2 t" by (rule processTemplate_Inr [OF t])
  moreover have "keeps ((\<lambda>t. d @ out_path t) ` set vs) w2 w'"
    using process_all_keeps [of d vs _ w2 env data] vs by simp
  ultimately show ?thesis using assms(3) unfolding written_def by (blast dest: keepsD)
qed

text \<open>The templates of a configuration, in the order they are processed.\<close>

definition generated_templates :: "feature_range \<Rightarrow> gen_env \<Rightarrow> ProjectConfig \<Rightarrow> string list \<Rightarrow> string list" where
  "generated_templates itf env cfg proj =
     (let data = template_data cfg proj in
      baseFiles @ dir_paths env (''templates/architectures/'' @ td_Architecture data) @
      (if pc_Database cfg = DBNone then [] else dir_paths env (''templates/database/'' @ td_Database data)) @
      concat (map (\<lambda>f. dir_paths env (''templates/features/'' @ f)) (map fst (itf (td_Features data)))))"

text \<open>The errors that the loop over the features drops are those of features without templates.\<close>

definition features_quiet :: "(nat \<Rightarrow> error) \<Rightarrow> gen_env \<Rightarrow> TemplateData \<Rightarrow> string list \<Rightarrow> bool" where
  "features_quiet fault env data d \<longleftrightarrow> (\<forall>w w' f err. pj_fault w = fault \<longrightarrow> f \<in> fst ` set (td_Features data) \<longrightarrow>
     walkAndProcess env d data w (''templates/features/'' @ f) = (w', Inl err) \<longrightarrow> Contains err not_exist \<longrightarrow>
     dir_paths env (''templates/features/'' @ f) = [])"

lemma feature_loop_Inr:
  assumes "features_quiet fault env data d"
  shows "pj_fault w = fault \<Longrightarrow> set fs \<subseteq> fst ` set (td_Features data) \<Longrightarrow> feature_loop env d data w fs = (w', Inr u) \<Longrightarrow>
    process_all env d data w (concat (map (\<lambda>f. dir_paths env (''templates/features/'' @ f)) fs)) = (w', Inr u)"
proof (induction fs arbitrary: w)
  case (Cons f fs)
  let ?dir = "''templates/features/'' @ f"
  obtain w1 x where wp: "walkAndProcess env d data w ?dir = (w1, x)" by (cases "walkAndProcess env d data w ?dir")
  have w1: "pj_fault w1 = fault" using walkAndProcess_fault [of env d data w ?dir] wp Cons.prems(1) by simp
  show ?case
  proof (cases x)
    case (Inr v)
    then show ?thesis using Cons.IH [OF w1] Cons.prems wp walkAndProcess_Inr [of env d data w ?dir w1 v]
      by (simp add: process_all_append)
  next
    case (Inl err)
    then have c: "Contains err not_exist" using Cons.prems wp by (auto split: if_splits)
    then have e: "dir_paths env ?dir = []" using assms wp Inl Cons.prems(1,2) by (auto simp: features_quiet_def)
    then have "w1 = w" using wp by (rule_tac walkAndProcess_cases [of env d data w ?dir]) auto
    then show ?thesis using Cons.IH [OF w1] Cons.prems wp Inl c e by simp
  qed
qed simp

lemma generateArchitecture_Inr:
  "generateArchitecture env d data w = (w', Inr u) \<Longrightarrow>
     process_all env d data w (dir_paths env (''templates/architectures/'' @ td_Architecture data)) = (w', Inr u)"
  and generateDatabase_Inr:
  "generateDatabase env d data w = (w', Inr u) \<Longrightarrow>
     process_all env d data w (dir_paths env (''templates/database/'' @ td_Database data)) = (w', Inr u)"
  unfolding generateArchitecture_def generateDatabase_def
  by (auto intro!: walkAndProcess_Inr split: prod.splits sum.splits)

lemma prepare_Inr:
  assumes "prepare itf it env cfg proj d w = (w', Inr u)" "features_quiet (pj_fault w) env (template_data cfg proj) d" "is_range itf"
  obtains w1 where "process_all env d (template_data cfg proj) w (generated_templates itf env cfg proj) = (w1, Inr ())"
    "writeProjectUpgradeMetadata it env d cfg
       (fst (rename (ge_volume env) w1 (d @ [''gitignore'']) (d @ [''.gitignore'']))) = (w', Inr u)"
proof -
  let ?data = "template_data cfg proj"
  obtain w1 w2 w3 w4 v1 v2 v3 v4 where b: "generateBase env d ?data w = (w1, Inr v1)"
    and a: "generateArchitecture env d ?data w1 = (w2, Inr v2)"
    and db: "(if pc_Database cfg = DBNone then (w2, Inr ())
        else wrap_error ''failed to generate database'' (generateDatabase env d ?data w2)) = (w3, Inr v3)"
    and f: "generateFeatures itf env d ?data w3 = (w4, Inr v4)"
    and m: "writeProjectUpgradeMetadata it env d cfg
       (fst (rename (ge_volume env) w4 (d @ [''gitignore'']) (d @ [''.gitignore'']))) = (w', Inr u)"
    using assms(1) unfolding prepare_def Let_def try_io_Inr wrap_error_simps by blast
  have "pj_fault w1 = pj_fault w" using process_all_fault [of env d ?data w baseFiles] b by (simp add: generateBase_def)
  moreover have "pj_fault w2 = pj_fault w1"
    using walkAndProcess_fault generateArchitecture_fst [of env d ?data w1] a by simp
  moreover have "pj_fault w3 = pj_fault w2"
    using walkAndProcess_fault generateDatabase_fst [of env d ?data w2] db by (auto split: if_splits)
  ultimately have w3: "pj_fault w3 = pj_fault w" by simp
  have "process_all env d ?data w2 (if pc_Database cfg = DBNone then []
      else dir_paths env (''templates/database/'' @ td_Database ?data)) = (w3, Inr ())"
    using db generateDatabase_Inr by (auto split: if_splits)
  moreover note generateArchitecture_Inr [OF a] feature_loop_Inr [OF assms(2) w3 _ f [unfolded generateFeatures_def]]
  ultimately have "process_all env d ?data w (generated_templates itf env cfg proj) = (w4, Inr ())"
    using b is_range_set [OF assms(3)] by (simp add: generated_templates_def Let_def process_all_append generateBase_def)
  with m that show thesis by blast
qed

text \<open>What follows the templates only touches \<open>gitignore\<close> and the metadata.\<close>

definition moved_later :: "string list \<Rightarrow> bool" where
  "moved_later q \<longleftrightarrow> prefix [''gitignore''] q \<or> prefix [''.gitignore''] q \<or> q = [''.fgoths'', ''upgrade.json'']"

lemma rename_gitignore_keeps:
  assumes "staged d w" "\<not> moved_later q" "node_at w (d @ q) = Some n"
  shows "node_at (fst (rename vol w (d @ [''gitignore'']) (d @ [''.gitignore'']))) (d @ q) = Some n"
proof -
  have "tree_ok w" using assms(1) by (simp add: staged_def)
  then show ?thesis
  proof (rule rename_cases [of w "d @ [''.gitignore'']" vol "d @ [''gitignore'']"])
    fix w' assume "rename vol w (d @ [''gitignore'']) (d @ [''.gitignore'']) = (w', Inr ())"
      "pj_nodes w' = pj_nodes (move_nodes (d @ [''gitignore'']) (d @ [''.gitignore'']) w)"
      "\<not> prefix (d @ [''gitignore'']) (d @ [''.gitignore''])" "\<not> prefix (d @ [''.gitignore'']) (d @ [''gitignore''])"
    moreover from this have "node_at (move_nodes (d @ [''gitignore'']) (d @ [''.gitignore'']) w) (d @ q) = Some n"
      using assms(2,3) by (subst node_move) (simp_all add: moved_later_def)
    ultimately show ?thesis by simp
  qed (use assms(3) in simp_all)
qed

lemma writeProjectUpgradeMetadata_keeps:
  "keeps {d @ [''.fgoths'', ''upgrade.json'']} w (fst (writeProjectUpgradeMetadata it env d cfg w))"
proof -
  have "keeps S w (fst (runtime_hashes d w paths []))" for w paths S
    by (rule keeps_io.same) (rule runtime_hashes_same)
  then show ?thesis
    by (auto simp: writeProjectUpgradeMetadata_def keeps_io.refl
        intro!: keeps_io.seq mkdir_all_keeps write_file_keeps)
qed

section \<open>Copying across volumes\<close>

lemma copyFile_keeps: "dst \<in> S \<Longrightarrow> keeps S w (fst (copyFile w src dst c m))"
  unfolding copyFile_def by (intro keeps_io.seq write_file_keeps) (simp_all add: keeps_io.same)

definition copy_step :: "project \<Rightarrow> string list \<Rightarrow> string list \<Rightarrow> node option \<Rightarrow> project \<times> (string + unit)" where
  "copy_step w path target info = (case info of
          Some Dir \<Rightarrow> try_io (attempt w (\<lambda>w. (w, Inr ()))) (\<lambda>w names. mkdir_all w target)
        | Some (File content mode) \<Rightarrow> copyFile w path target content mode
        | Some _ \<Rightarrow> (w, Inl ''not a regular file'')
        | None \<Rightarrow> (w, Inl ENOENT))"

lemma copy_walk_step: "copy_walk src dst w (path # paths) = try_io (lstat w path) (\<lambda>w info.
     try_io (copy_step w path (dst @ drop (length src) path) info) (\<lambda>w _. copy_walk src dst w paths))"
  by (simp add: copy_step_def Let_def)

lemma copy_step_keeps: "target \<in> S \<Longrightarrow> keeps S w (fst (copy_step w path target info))"
  unfolding copy_step_def
  by (auto split: option.split node.split simp: keeps_io.same intro!: keeps_io.seq copyFile_keeps mkdir_all_keeps)

lemma copy_walk_keeps:
  "(\<lambda>x. dst @ drop (length src) x) ` set ps \<subseteq> S \<Longrightarrow> keeps S w (fst (copy_walk src dst w ps))"
proof (induction ps arbitrary: w)
  case (Cons p ps)
  then show ?case unfolding copy_walk_step
    by (intro keeps_io.seq copy_step_keeps) (auto simp: keeps_io.same)
qed (simp add: keeps_io.refl)

lemma copy_step_node:
  "node_at (fst (copy_step w path target info)) p \<in> {node_at w p, Some Dir} \<union> {Some (File c m) |c m. True}"
proof (cases "\<exists>c m. info = Some (File c m)")
  case True
  then obtain c m where "info = Some (File c m)" by blast
  moreover have "node_at (fst (write_file (pj_next w) target c m)) p \<in> {node_at w p} \<union> {Some (File c m) |c m. True}"
    using write_file_node [of "pj_next w" target c m p] by auto
  ultimately show ?thesis by (auto simp: copy_step_def copyFile_def try_io_def attempt_def split: option.split)
next
  case False
  have "node_at (fst (mkdir_all (pj_next w) target)) p \<in> {node_at w p, Some Dir}"
    using mkdir_all_node [of "pj_next w" target p] by auto
  then show ?thesis using False
    by (auto simp: copy_step_def try_io_def attempt_def split: option.split node.split)
qed

lemma copy_walk_Inr:
  assumes "copy_walk src dst w ps = (w', Inr u)" "\<forall>p. prefix dst p \<longrightarrow> node_at w p \<notin> {Some Symlink, Some Special}"
    and "\<forall>x \<in> set ps. prefix src x \<and> \<not> prefix dst x" "src @ q \<in> set ps" "node_at w (src @ q) = Some (File c m)"
  shows "\<exists>k. node_at w' (dst @ q) = Some (File c k)"
  using assms
proof (induction ps arbitrary: w)
  case (Cons p ps)
  obtain w1 info w2 v where l: "lstat w p = (w1, Inr info)" and st: "copy_step w1 p (dst @ drop (length src) p) info = (w2, Inr v)"
    and rest: "copy_walk src dst w2 ps = (w', Inr u)"
    using Cons.prems(1) unfolding copy_walk_step try_io_Inr by blast
  have w1: "pj_nodes w1 = pj_nodes w" "info = node_at w p" using lstat_Inr [OF l] by auto
  have "node_at w2 r \<notin> {Some Symlink, Some Special}" if "prefix dst r" for r
    using copy_step_node [of w1 p "dst @ drop (length src) p" info r] st w1 Cons.prems(2) that by auto
  then have reg: "\<forall>p. prefix dst p \<longrightarrow> node_at w2 p \<notin> {Some Symlink, Some Special}" by blast
  have nd: "\<not> prefix dst (src @ q)" using Cons.prems(3,4) by blast
  have k: "keeps {dst @ drop (length src) p} w w2"
    using copy_step_keeps [of "dst @ drop (length src) p" "{dst @ drop (length src) p}" w1 p info] st w1
    by (simp add: keeps_def)
  have src: "node_at w2 (src @ q) = Some (File c m)"
    by (rule keepsD [OF k _ Cons.prems(5)]) (use nd in auto)
  show ?case
  proof (cases "src @ q \<in> set ps")
    case True
    then show ?thesis using Cons.IH [OF rest reg _ _ src] Cons.prems(3) by simp
  next
    case False
    then have p: "p = src @ q" using Cons.prems(4) by simp
    then have "copyFile w1 p (dst @ q) c m = (w2, Inr v)" using st w1 Cons.prems(5) by (simp add: copy_step_def)
    then obtain w3 v' where "attempt w1 (\<lambda>w. (w, Inr ())) = (w3, Inr v')" and wr: "write_file w3 (dst @ q) c m = (w2, Inr v)"
      by (auto simp: copyFile_def try_io_Inr)
    moreover from this have "pj_nodes w3 = pj_nodes w1" by (auto simp: attempt_def split: option.splits)
    ultimately obtain k where "node_at w2 (dst @ q) = Some (File c k)"
      using write_file_File [OF wr] w1 Cons.prems(2) by auto
    moreover have "dst @ q \<notin> (\<lambda>x. dst @ drop (length src) x) ` set ps"
      using False Cons.prems(3) by (auto simp: prefix_def)
    ultimately show ?thesis
      using keepsD [OF copy_walk_keeps [of dst src ps _ w2, OF subset_refl]] rest by force
  qed
qed simp

lemma copyDir_Inr:
  assumes "copyDir w src dst = (w', Inr u)" "\<forall>p. prefix dst p \<longrightarrow> node_at w p = None"
    and "node_at w (src @ q) = Some (File c m)"
  shows "\<exists>k. node_at w' (dst @ q) = Some (File c k)"
proof -
  let ?ps = "sort (map fst (filter (\<lambda>(p, _). prefix src p) (pj_nodes w)))"
  have mem: "(src @ q, File c m) \<in> set (pj_nodes w)" using assms(3) by (rule map_of_SomeD)
  have ps: "prefix src x \<and> \<not> prefix dst x" if "x \<in> set ?ps" for x
  proof -
    from that obtain n where n: "(x, n) \<in> set (pj_nodes w)" "prefix src x" by auto
    then have "node_at w x \<noteq> None" using weak_map_of_SomeI [OF n(1)] by auto
    moreover have "prefix dst x \<longrightarrow> node_at w x = None" using assms(2) by simp
    ultimately show ?thesis using n(2) by auto
  qed
  have "src @ q \<in> set ?ps" using mem by force
  moreover have "\<forall>p. prefix dst p \<longrightarrow> node_at w p \<notin> {Some Symlink, Some Special}" using assms(2) by simp
  ultimately show ?thesis
    using copy_walk_Inr [OF assms(1) [unfolded copyDir_def] _ _ _ assms(3)] ps by blast
qed

text \<open>However the staging directory gets to its place, its files are there afterwards.\<close>

lemma finalize_Inr:
  assumes "finalizeProjectDir vol w d proj = (w', Inr u)" "tree_ok w" "node_at w d = Some Dir" "d \<noteq> []" "proj \<noteq> []"
    and "node_at w proj = None" "\<not> prefix d proj"
  shows "node_at w (d @ q) = Some (File c m) \<Longrightarrow> \<exists>k. node_at w' (proj @ q) = Some (File c k)"
    and "node_at w' d = None"
proof -
  have apart: "\<not> prefix proj d"
    using tree_ok_absent [OF assms(2,5,6)] assms(3) by (auto simp: prefix_def)
  have out: "\<not> prefix d (proj @ q)" for q
    using apart assms(7) prefix_same_cases [of d "proj @ q" proj] by auto
  have absent: "\<forall>p. prefix proj p \<longrightarrow> node_at w p = None"
    using tree_ok_absent [OF assms(2,5,6)] by (auto simp: prefix_def)
  show "node_at w (d @ q) = Some (File c m) \<Longrightarrow> \<exists>k. node_at w' (proj @ q) = Some (File c k)"
    and "node_at w' d = None"
  proof (rule_tac [!] rename_cases [OF assms(2,5), of vol d])
    fix w1 assume r: "rename vol w d proj = (w1, Inr ())" "pj_nodes w1 = pj_nodes (move_nodes d proj w)"
      "\<not> prefix d proj" "\<not> prefix proj d"
    then have "w1 = w'" using assms(1) by (simp add: finalizeProjectDir_def)
    then show "node_at w' d = None" and "node_at w (d @ q) = Some (File c m) \<Longrightarrow> \<exists>k. node_at w' (proj @ q) = Some (File c k)"
      using r by (simp_all add: node_move)
  next
    fix w1 err assume r: "rename vol w d proj = (w1, Inl err)" "pj_nodes w1 = pj_nodes w"
    then obtain w2 v where cp: "copyDir w1 d proj = (w2, Inr v)" and rm: "remove_all w2 d = (w', Inr u)"
      using assms(1) by (auto simp: finalizeProjectDir_def try_io_Inr split: if_splits)
    have "pj_fault w2 (pj_tick w2) = nil" using rm by (auto simp: remove_all_def split: option.splits)
    then have n: "node_at w' p = (if prefix d p then None else node_at w2 p)" for p
      using node_remove_all [of w2 d p] rm by simp
    then show "node_at w' d = None" by simp
    show "\<exists>k. node_at w' (proj @ q) = Some (File c k)" if "node_at w (d @ q) = Some (File c m)"
      using copyDir_Inr [OF cp, of q c m] absent that r(2) n out by simp
  qed
qed

lemma config_Normalize_target: "pc_Name (config_Normalize cfg) = pc_Name cfg" "pc_Dir (config_Normalize cfg) = pc_Dir cfg"
  by (simp_all add: config_Normalize_def)

lemma written_moved: "written env data d w t \<Longrightarrow>
    (\<And>c m. node_at w (d @ out_path t) = Some (File c m) \<Longrightarrow> \<exists>k. node_at w' (e @ out_path t) = Some (File c k)) \<Longrightarrow>
    written env data e w' t"
  unfolding written_def by blast

lemma successful_stages:
  assumes run: "generate_stages itf it env cfg proj d w = (w', Inr u)" and w: "staged d w"
    and quiet: "features_quiet (pj_fault w) env (template_data cfg proj) d" "is_range itf" and d: "d \<noteq> []"
    and free: "proj \<noteq> []" "\<And>p. prefix proj p \<Longrightarrow> \<not> prefix d p \<Longrightarrow> node_at w p = None" "\<not> prefix d proj"
    and t: "generated_templates itf env cfg proj = us @ t # vs" "out_path t \<notin> out_path ` set vs" "\<not> moved_later (out_path t)"
  shows "written env (template_data cfg proj) proj w' t" "node_at w' d = None"
proof -
  let ?data = "template_data cfg proj"
  obtain w3 v where pr: "prepare itf it env cfg proj d w = (w3, Inr v)"
    and fin: "finalizeProjectDir (ge_volume env) w3 d proj = (w', Inr u)"
    using run by (auto simp: generate_stages_prepare try_io_Inr)
  obtain w1 where ts: "process_all env d ?data w (generated_templates itf env cfg proj) = (w1, Inr ())"
    and meta: "writeProjectUpgradeMetadata it env d cfg
       (fst (rename (ge_volume env) w1 (d @ [''gitignore'']) (d @ [''.gitignore'']))) = (w3, Inr v)"
    by (rule prepare_Inr [OF pr quiet])
  have w1: "written env ?data d w1 t" by (rule process_all_Inr [OF ts [unfolded t(1)] w t(2)])
  have s1: "staged d w1"
    using process_all_works [of d w env ?data "generated_templates itf env cfg proj"] ts w by (simp add: works_in_def)
  have w3: "staged d w3" "node_at w3 proj = None"
    using prepare_works [of d w itf it env cfg proj] pr w free by (auto simp: works_in_def)
  have kept: "keeps {d @ [''.fgoths'', ''upgrade.json'']} (fst (rename (ge_volume env) w1 (d @ [''gitignore'']) (d @ [''.gitignore'']))) w3"
    using writeProjectUpgradeMetadata_keeps [of d _ it env cfg] meta by (metis fst_conv)
  have d3: "written env ?data d w3 t"
  proof (rule written_moved [OF w1])
    fix c m assume "node_at w1 (d @ out_path t) = Some (File c m)"
    note renamed = rename_gitignore_keeps [OF s1 t(3) this, of "ge_volume env"]
    have "d @ out_path t \<notin> {d @ [''.fgoths'', ''upgrade.json'']}" using t(3) by (simp add: moved_later_def)
    from keepsD [OF kept this renamed] show "\<exists>k. node_at w3 (d @ out_path t) = Some (File c k)" by blast
  qed
  have "tree_ok w3" "node_at w3 d = Some Dir" using w3(1) by (simp_all add: staged_def)
  note moved = finalize_Inr [OF fin this d free(1) w3(2) free(3)]
  show "written env ?data proj w' t" by (rule written_moved [OF d3 moved(1)])
  show "node_at w' d = None" by (rule moved(2))
qed


section \<open>The configurations of \<open>fgoths init\<close>\<close>

lemma normalizeFeatureName_valid: "normalizeFeatureName raw = Some f \<Longrightarrow> f \<in> set ValidFeatures"
  by (auto simp: normalizeFeatureName_def Let_def ValidFeatures_def split: if_splits)

lemma feature_parts_Inr:
  "feature_parts fs parts = Inr fs' \<Longrightarrow>
     set fs' = set fs \<union> {f. \<exists>p \<in> set parts. normalizeFeatureName p = Some f} \<and>
     (\<forall>p \<in> set parts. normalizeFeatureName p \<noteq> None) \<and> (distinct fs \<longrightarrow> distinct fs')"
proof (induction fs parts rule: feature_parts.induct)
  case (2 fs p ps)
  then show ?case by (cases "normalizeFeatureName p") (auto split: if_splits)
qed simp

lemma merge_loop_props:
  "set merged \<subseteq> set seen \<Longrightarrow> distinct merged \<Longrightarrow>
     distinct (merge_loop seen merged fs) \<and> set (merge_loop seen merged fs) = set merged \<union> (set fs - set seen) \<and>
     prefix merged (merge_loop seen merged fs)"
proof (induction seen merged fs rule: merge_loop.induct)
  case (2 seen merged f fs)
  show ?case
  proof (cases "f \<in> set seen")
    case False
    then have "distinct (merged @ [f])" "set (merged @ [f]) \<subseteq> set (f # seen)" using 2(3,4) by auto
    then show ?thesis using 2(1) False by (auto intro: prefix_order.trans [of merged "merged @ [f]"])
  qed (use 2 in auto)
qed simp

lemma mergeFeatures_props:
  "distinct (mergeFeatures base extra)" "set (mergeFeatures base extra) = set base \<union> set extra"
  using merge_loop_props [of "[]" "[]" "base @ extra"] by (simp_all add: mergeFeatures_def)

lemma merge_loop_prefix: "distinct base \<Longrightarrow> set base \<inter> set seen = {} \<Longrightarrow>
    prefix (merged @ base) (merge_loop seen merged (base @ extra))"
proof (induction base arbitrary: seen merged)
  case Nil
  have "prefix merged (merge_loop seen merged fs)" for fs
    by (induction seen merged fs rule: merge_loop.induct) (auto dest: append_prefixD)
  then show ?case by simp
next
  case (Cons f fs)
  then show ?case using Cons.IH [of "f # seen" "merged @ [f]"] by auto
qed

lemma mergeFeatures_prefix: "distinct base \<Longrightarrow> prefix base (mergeFeatures base extra)"
  using merge_loop_prefix [of base "[]" "[]" extra] by (simp add: mergeFeatures_def)

lemma validateDB_iff: "validateDB db \<longleftrightarrow> db \<in> set ValidDBs"
proof -
  have "validateDB_loop vs db \<longleftrightarrow> db \<in> set vs" for vs by (induction vs) auto
  then show ?thesis by (simp add: validateDB_def)
qed

lemma init_features:
  assumes "(if s = [] then Inr (ps_Features p) else map_sum (\<lambda>err. err) (mergeFeatures (ps_Features p)) (parseFeatures s)) = Inr fs"
    "GetPreset name = Some p"
  shows "set fs \<subseteq> set ValidFeatures" "prefix (ps_Features p) fs" "distinct fs"
proof -
  have p: "set (ps_Features p) \<subseteq> set ValidFeatures" "distinct (ps_Features p)"
    using assms(2) GetPreset_ok [OF assms(2)] by (auto simp: GetPreset_def PresetAPI_def PresetWebapp_def split: if_splits)
  have "set fs \<subseteq> set ValidFeatures \<and> prefix (ps_Features p) fs \<and> distinct fs"
  proof (cases "s = []")
    case False
    then obtain extra where e: "parseFeatures s = Inr extra" "fs = mergeFeatures (ps_Features p) extra"
      using assms(1) by (cases "parseFeatures s") auto
    then have "set extra \<subseteq> set ValidFeatures"
      using False feature_parts_Inr normalizeFeatureName_valid by (fastforce simp: parseFeatures_def)
    then show ?thesis using e p mergeFeatures_props mergeFeatures_prefix by auto
  qed (use assms(1) p in auto)
  then show "set fs \<subseteq> set ValidFeatures" "prefix (ps_Features p) fs" "distinct fs" by simp_all
qed

text \<open>
  Whatever \<open>fgoths init\<close> accepts, the generator accepts unchanged: type, architecture, database and features
  are valid, the features are the preset's followed by the requested ones, without repetition, and name,
  directory and a requested database are those of the flags.
\<close>

theorem init_builds_valid_config:
  assumes "init_config version flags = Inr cfg"
  shows "config_Validate cfg = nil \<and> config_Normalize cfg = cfg \<and> distinct (pc_Features cfg) \<and>
    pc_Name cfg = if_name flags \<and> pc_Dir cfg = if_dir flags \<and> pc_FrameworkVersion cfg = version \<and>
    (if_db flags \<noteq> [] \<longrightarrow> pc_Database cfg = if_db flags) \<and>
    (\<exists>p. GetPreset (if_preset flags) = Some p \<and> prefix (ps_Features p) (pc_Features cfg))"
proof -
  obtain p fs where p: "GetPreset (if_preset flags) = Some p" and name: "if_name flags \<noteq> []"
    and fs: "(if if_features flags = [] then Inr (ps_Features p)
        else map_sum (\<lambda>err. err) (mergeFeatures (ps_Features p)) (parseFeatures (if_features flags))) = Inr fs"
    and cfg: "cfg = \<lparr>pc_Name = if_name flags, pc_Dir = if_dir flags, pc_Type = ps_Type p,
       pc_Architecture = ps_Architecture p, pc_Database = (if if_db flags \<noteq> [] then if_db flags else ps_Database p),
       pc_Features = fs, pc_FrameworkVersion = version\<rparr>"
    and db: "if_db flags \<noteq> [] \<Longrightarrow> validateDB (if_db flags)"
    using assms by (auto simp: init_config_def Let_def split: if_splits option.splits sum.splits)
  note f = init_features [OF fs p]
  have "[] \<notin> set ValidTypes" "[] \<notin> set ValidArchs" "[] \<notin> set ValidDBs"
    by (simp_all add: ValidTypes_def ValidArchs_def ValidDBs_def)
  then have ok: "complete cfg \<and> fields_ok cfg"
    using GetPreset_ok [OF p] f(1) db valid_values by (auto simp: cfg complete_def fields_ok_def validateDB_iff)
  then have "config_Validate cfg = nil" using name by (simp add: config_Validate_iff cfg)
  then show ?thesis using ok config_Normalize_id f p by (auto simp: cfg)
qed

section \<open>A concrete project\<close>

text \<open>Templates for a flat project with the health feature, all with the same short text.\<close>

definition demo_templates :: embed where
  "demo_templates = EDir [(''templates'', EDir [(''architectures'', EDir [(''flat'', EDir [(''main.go.tpl'', EFile
     ''text'')])]), (''base'', EDir [(''.dockerignore.tpl'', EFile ''text''), (''Dockerfile.tpl'', EFile
     ''text''), (''Makefile.tpl'', EFile ''text''), (''README.md.tpl'', EFile ''text''), (''cmd'', EDir
     [(''assetmanifest'', EDir [(''main.go.tpl'', EFile ''text'')]), (''dev'', EDir [(''main.go.tpl'', EFile
     ''text'')])]), (''gitignore.tpl'', EFile ''text''), (''go.mod.tpl'', EFile ''text''), (''internal'', EDir
     [(''assets'', EDir [(''assets.go.tpl'', EFile ''text''), (''manifest_gen.go.tpl'', EFile ''text'')])]),
     (''pkg'', EDir [(''runtime'', EDir [(''health.go.tpl'', EFile ''text''), (''hmr'', EDir
     [(''client.go.tpl'', EFile ''text''), (''codec.go.tpl'', EFile ''text''), (''hmr.go.tpl'', EFile
     ''text'')]), (''hmr_server.go.tpl'', EFile ''text''), (''metrics.go.tpl'', EFile ''text''),
     (''proxy.go.tpl'', EFile ''text''), (''requestid.go.tpl'', EFile ''text''), (''reuseport_linux.go.tpl'',
     EFile ''text''), (''reuseport_other.go.tpl'', EFile ''text''), (''reuseport_posix.go.tpl'', EFile
     ''text''), (''router.go.tpl'', EFile ''text''), (''server.go.tpl'', EFile ''text'')])]), (''static'',
     EDir [(''css'', EDir [(''app.css.tpl'', EFile ''text'')])])]), (''features'', EDir [(''health'', EDir
     [(''README.md'', EFile ''text''), (''internal'', EDir [(''health.go.tpl'', EFile ''text'')])])])])]"

definition demo_gen :: gen_env where
  "demo_gen = \<lparr>ge_templates = demo_templates, ge_render = (\<lambda>t c d. Inr (c @ td_ProjectName d)), ge_format = Inr,
     ge_marshal = (\<lambda>m. Inr (Join (map fst (pu_RuntimeFiles m)) '' '')), ge_volume = (\<lambda>_. ''sda''),
     ge_temp = [], ge_cwd = [], ge_getwd = nil, ge_version = ''dev''\<rparr>"

definition demo_disk :: "(nat \<Rightarrow> error) \<Rightarrow> project" where
  "demo_disk fault = \<lparr>pj_root = Some Dir, pj_nodes = [([''notes''], File ''keep'' 420)],
     pj_tick = 0, pj_fault = fault, pj_done = (\<lambda>_. 0)\<rparr>"

definition demo_flags :: init_flags where
  "demo_flags = \<lparr>if_name = ''shop'', if_dir = [], if_db = [], if_features = [], if_preset = ''api''\<rparr>"

text \<open>Without faults the only errors of a walk come from the shape of the tree, and name the file.\<close>

lemma mkdirs_Inl: "mkdirs w pre parts = (w', Inl err) \<Longrightarrow> err = ''not a directory''"
  by (induction w pre parts rule: mkdirs.induct) (auto simp: Let_def split: option.splits node.splits)

lemma mkdir_all_Inl: "mkdir_all w dir = (w', Inl err) \<Longrightarrow> pj_fault w = (\<lambda>_. None) \<Longrightarrow> err = ''not a directory''"
  by (auto simp: mkdir_all_def dest: mkdirs_Inl)

lemma write_file_Inl:
  "write_file w p c m = (w', Inl err) \<Longrightarrow> pj_fault w = (\<lambda>_. None) \<Longrightarrow> err \<in> {''is a directory'', ENOENT}"
  by (auto simp: write_file_def try_io_def attempt_def write_open_def split: option.splits node.splits if_splits)

lemma processTemplate_Inl:
  assumes "processTemplate env d data w t = (w', Inl err)" "pj_fault w = (\<lambda>_. None)"
    and "embed_read (ge_templates env) t = Inr content" "template_output env data t content = Inr out"
  shows "\<exists>p \<in> {target_path d t, butlast (target_path d t)}. \<exists>what e. what \<in> {''directory '', ''file ''} \<and>
    e \<in> {''not a directory'', ''is a directory'', ENOENT} \<and>
    err = ''failed to create '' @ what @ target_name d p @ '': '' @ e"
proof -
  let ?t = "target_path d t"
  obtain w1 x where md: "mkdir_all w (butlast ?t) = (w1, x)" by (cases "mkdir_all w (butlast ?t)")
  show ?thesis
  proof (cases x)
    case (Inl e)
    then have "e = ''not a directory''" using mkdir_all_Inl [of w "butlast ?t" w1 e] md assms(2) by simp
    moreover have "err = ''failed to create directory '' @ target_name d (butlast ?t) @ '': '' @ e"
      using assms(1,3) md Inl by (simp add: processTemplate_def Let_def wrap_error_def try_io_def)
    ultimately show ?thesis by (intro bexI [of _ "butlast ?t"] exI [of _ "''directory ''"] exI [of _ e]) simp_all
  next
    case (Inr u)
    obtain w2 y where wr: "write_file w1 ?t out 420 = (w2, y)" by (cases "write_file w1 ?t out 420")
    then obtain e where y: "y = Inl e" and err: "err = ''failed to create file '' @ target_name d ?t @ '': '' @ e"
      using assms(1,3,4) md Inr by (cases y) (simp_all add: processTemplate_def Let_def wrap_error_def try_io_def)
    have "pj_fault w1 = (\<lambda>_. None)" using mkdir_all_fault [of w "butlast ?t"] md assms(2) by simp
    then have "e \<in> {''is a directory'', ENOENT}" using write_file_Inl [of w1 ?t out 420 w2 e] wr y by simp
    then show ?thesis using err by (intro bexI [of _ ?t] exI [of _ "''file ''"] exI [of _ e]) auto
  qed
qed

abbreviation demo_cfg :: ProjectConfig where
  "demo_cfg \<equiv> \<lparr>pc_Name = ''shop'', pc_Dir = [], pc_Type = TypeAPI, pc_Architecture = ArchFlat,
     pc_Database = DBNone, pc_Features = [''health''], pc_FrameworkVersion = ''dev''\<rparr>"

abbreviation health_template :: string where
  "health_template \<equiv> ''templates/features/health/internal/health.go.tpl''"

lemma demo_health: "dir_paths demo_gen ''templates/features/health'' = [health_template]"
  "td_Features (template_data demo_cfg [''shop'']) = [(''health'', True)]"
  "embed_read demo_templates health_template = Inr ''text''"
  "list_all (\<lambda>p. list_all (\<lambda>what. list_all (\<lambda>e.
     \<not> Contains (''failed to create '' @ what @ target_name [''.fgoths-''] p @ '': '' @ e) not_exist)
       [''not a directory'', ''is a directory'', ENOENT]) [''directory '', ''file ''])
     [target_path [''.fgoths-''] health_template, butlast (target_path [''.fgoths-''] health_template)]"
  by code_simp+

lemma demo_messages:
  "\<forall>p \<in> {target_path [''.fgoths-''] health_template, butlast (target_path [''.fgoths-''] health_template)}.
     \<forall>what \<in> {''directory '', ''file ''}. \<forall>e \<in> {''not a directory'', ''is a directory'', ENOENT}.
       \<not> Contains (''failed to create '' @ what @ target_name [''.fgoths-''] p @ '': '' @ e) not_exist"
  using demo_health(4) unfolding list_all_iff list.set .

lemma demo_quiet: "features_quiet (\<lambda>_. None) demo_gen (template_data demo_cfg [''shop'']) [''.fgoths-'']"
  unfolding features_quiet_def
proof (intro allI impI)
  let ?data = "template_data demo_cfg [''shop'']" and ?d = "[''.fgoths-'']"
  fix w w' f err
  assume w: "pj_fault w = (\<lambda>_. None)" and f: "f \<in> fst ` set (td_Features ?data)"
    and run: "walkAndProcess demo_gen ?d ?data w (''templates/features/'' @ f) = (w', Inl err)" and c: "Contains err not_exist"
  have f: "''templates/features/'' @ f = ''templates/features/health''" using f by (simp add: demo_health(2))
  show "dir_paths demo_gen (''templates/features/'' @ f) = []"
    unfolding f
  proof (rule walkAndProcess_cases [of demo_gen ?d ?data w "''templates/features/health''"])
    assume "walkAndProcess demo_gen ?d ?data w ''templates/features/health'' =
        process_all demo_gen ?d ?data w (dir_paths demo_gen ''templates/features/health'')"
    then have "processTemplate demo_gen ?d ?data w health_template = (w', Inl err)"
      using run f by (simp add: demo_health(1))
    moreover have "template_output demo_gen ?data health_template ''text'' = Inr ''textshop''"
      by (simp add: template_output_def demo_gen_def template_data_def)
    ultimately obtain p what e where "p \<in> {target_path ?d health_template, butlast (target_path ?d health_template)}"
      "what \<in> {''directory '', ''file ''}" "e \<in> {''not a directory'', ''is a directory'', ENOENT}"
      "err = ''failed to create '' @ what @ target_name ?d p @ '': '' @ e"
      using processTemplate_Inl [OF _ w, of demo_gen ?d ?data health_template w' err "''text''"] demo_health(3)
      by (auto simp: demo_gen_def)
    with demo_messages have "\<not> Contains err not_exist" by blast
    then show "dir_paths demo_gen ''templates/features/health'' = []" using c by simp
  qed simp
qed

lemma demo_generated:
  "snd (Generate (\<lambda>m. m) (\<lambda>m. m) demo_gen (demo_disk (\<lambda>_. None)) demo_cfg) = Inr ()"
  by code_simp

lemma demo_disk_ok: "tree_ok (demo_disk fault)"
  by (auto simp: tree_ok_def demo_disk_def)



theorem init_builds_valid_config_witness:
  "config_Validate demo_cfg = nil \<and> prefix [''health''] (pc_Features demo_cfg)"
proof -
  have "init_config ''dev'' demo_flags = Inr demo_cfg" by code_simp
  from init_builds_valid_config [OF this] show ?thesis
    by (auto simp: demo_flags_def GetPreset_def PresetAPI_def)
qed

section \<open>Where it goes wrong\<close>

text \<open>
  When the copy to another volume fails, only the staging directory is removed: part of the project stays,
  a truncated file included, and the next run refuses the directory.
\<close>

definition two_volumes :: project where
  "two_volumes = \<lparr>pj_root = Some Dir, pj_nodes = [([''mnt''], Dir), ([''.fgoths-''], Dir),
     ([''.fgoths-'', ''go.mod''], File ''module'' 420), ([''.fgoths-'', ''main.go''], File ''package'' 420)],
     pj_tick = 0, pj_fault = (\<lambda>t. if t = 11 then Some ''no space left on device'' else None), pj_done = (\<lambda>_. 4)\<rparr>"

lemma failed_copy_leaves_part:
  "case finalizeProjectDir (\<lambda>dir. concat dir) two_volumes [''.fgoths-''] [''mnt'', ''shop''] of (w, r) \<Rightarrow>
     r = Inl ''no space left on device'' \<and> node_at w [''mnt'', ''shop'', ''go.mod''] = Some (File ''module'' 420) \<and>
     node_at w [''mnt'', ''shop'', ''main.go''] = Some (File ''pack'' 420) \<and>
     snd (stat (fst (remove_all w [''.fgoths-''])) [''mnt'', ''shop'']) = Inr (Some Dir)"
  by code_simp

end
