(* ===== verification/Hmr.thy ===== *)
theory Hmr
  imports Go_Prelude "HOL-Library.Word"
begin

text \<open>
  Hot module reload (\<open>pkg/runtime/hmr\<close>): the hub that fans events out to browser tabs (\<open>hmr.go\<close>), the
  codec of an event (\<open>codec.go\<close>), the stream it writes, and the injection of the client script
  (\<open>client.go\<close>). The FlatBuffers library is a parameter, and so is the script, which is JavaScript.

  Every critical section of the hub's mutex is one step. \<open>Subscribe\<close> has two: it registers its channel
  under the mutex, and sends the replayed event after it has released it.
\<close>

section \<open>Events and the hub\<close>

record Event =
  ev_Kind :: string
  ev_Target :: string
  ev_Payload :: string
  ev_Source :: string
  ev_Route :: string
  ev_SchemaMajor :: "16 word"
  ev_SchemaMinor :: "16 word"
  ev_BuildID :: string
  ev_TS :: "64 word"

abbreviation EventPing :: string where "EventPing \<equiv> ''ping''"
abbreviation SchemaMajor :: "16 word" where "SchemaMajor \<equiv> 1"
abbreviation SchemaMinor :: "16 word" where "SchemaMinor \<equiv> 1"

definition IsCompatible :: "16 word \<Rightarrow> 16 word \<Rightarrow> bool" where
  "IsCompatible major minor \<longleftrightarrow> major = SchemaMajor \<and> minor \<le> SchemaMinor"

text \<open>A channel of capacity 8; channels are named by numbers, and the hub's map is keyed by them.\<close>

record channel =
  cn_buf :: "Event list"
  cn_closed :: bool

record Hub =
  hb_clients :: "(nat, unit) gomap"
  hb_chans :: "(nat, channel) gomap"
  hb_last :: "Event option"
  hb_lastAt :: int
  hb_buildID :: string

definition replayWindow :: int where
  "replayWindow = 2 * 1000000000"

definition NewHub :: "string \<Rightarrow> Hub" where
  "NewHub buildID = \<lparr>hb_clients = [], hb_chans = [], hb_last = None, hb_lastAt = 0, hb_buildID = buildID\<rparr>"

definition BuildID :: "Hub \<Rightarrow> string" where
  "BuildID h = hb_buildID h"

definition stamp :: "int \<Rightarrow> Hub \<Rightarrow> Event \<Rightarrow> Event" where
  "stamp now h ev = ev\<lparr>ev_SchemaMajor := SchemaMajor, ev_SchemaMinor := SchemaMinor,
     ev_BuildID := hb_buildID h, ev_TS := word_of_int now\<rparr>"

definition ClientCount :: "Hub \<Rightarrow> nat" where
  "ClientCount h = length (hb_clients h)"

text \<open>
  Operations on a channel. Sending waits while the buffer is full and panics on a closed channel;
  receiving waits while it is empty, and yields nothing once it is closed and drained.
\<close>

datatype 'a outcome = Waits | Panics | Does 'a

definition chan_send :: "nat \<Rightarrow> Event \<Rightarrow> Hub \<Rightarrow> Hub outcome" where
  "chan_send ch ev h = (case gm_get (hb_chans h) ch of
     None \<Rightarrow> Waits
   | Some c \<Rightarrow>
       if cn_closed c then Panics
       else if length (cn_buf c) < 8 then
         Does (h\<lparr>hb_chans := gm_put ch (c\<lparr>cn_buf := cn_buf c @ [ev]\<rparr>) (hb_chans h)\<rparr>)
       else Waits)"

definition chan_recv :: "nat \<Rightarrow> Hub \<Rightarrow> (Event option \<times> Hub) outcome" where
  "chan_recv ch h = (case gm_get (hb_chans h) ch of
     None \<Rightarrow> Waits
   | Some c \<Rightarrow>
       (case cn_buf c of
          ev # rest \<Rightarrow> Does (Some ev, h\<lparr>hb_chans := gm_put ch (c\<lparr>cn_buf := rest\<rparr>) (hb_chans h)\<rparr>)
        | [] \<Rightarrow> if cn_closed c then Does (None, h) else Waits))"

section \<open>Operations of the hub\<close>

definition Subscribe_register :: "int \<Rightarrow> nat \<Rightarrow> Hub \<Rightarrow> Hub \<times> Event option" where
  "Subscribe_register now ch h =
     (let h = h\<lparr>hb_chans := gm_put ch \<lparr>cn_buf = [], cn_closed = False\<rparr> (hb_chans h),
                hb_clients := gm_put ch () (hb_clients h)\<rparr>
      in (h, if hb_last h \<noteq> None \<and> now - hb_lastAt h < replayWindow then hb_last h else None))"

definition cancel :: "nat \<Rightarrow> Hub \<Rightarrow> Hub" where
  "cancel ch h =
     (case gm_get (hb_clients h) ch of
        None \<Rightarrow> h
      | Some _ \<Rightarrow> h\<lparr>hb_clients := AList.delete ch (hb_clients h),
          hb_chans := (case gm_get (hb_chans h) ch of
             None \<Rightarrow> hb_chans h | Some c \<Rightarrow> gm_put ch (c\<lparr>cn_closed := True\<rparr>) (hb_chans h))\<rparr>)"

fun broadcast_loop :: "Event \<Rightarrow> nat list \<Rightarrow> Hub \<Rightarrow> Hub outcome" where
  "broadcast_loop ev [] h = Does h"
| "broadcast_loop ev (ch # chs) h =
     (case chan_send ch ev h of
        Does h \<Rightarrow> broadcast_loop ev chs h
      | Waits \<Rightarrow> broadcast_loop ev chs h
      | Panics \<Rightarrow> Panics)"

type_synonym client_range = "(nat, unit) gomap \<Rightarrow> (nat, unit) gomap"

definition Broadcast :: "client_range \<Rightarrow> int \<Rightarrow> Hub \<Rightarrow> Event \<Rightarrow> Hub outcome" where
  "Broadcast it now h ev =
     (let ev = stamp now h ev; h = h\<lparr>hb_last := Some ev, hb_lastAt := now\<rparr>
      in broadcast_loop ev (map fst (it (hb_clients h))) h)"

section \<open>The codec\<close>

text \<open>
  The FlatBuffers library: the bytes of a finished table with the given slots, and the field of a table at an
  offset of its vtable, which may be absent. The offset of slot \<open>i\<close> is \<open>4 + 2 * i\<close>.
\<close>

datatype fb_value = FbString string | FbUint16 "16 word" | FbUint64 "64 word"

type_synonym fb_slots = "(nat \<times> fb_value) list"

record flatbuffers =
  fb_finish :: "fb_slots \<Rightarrow> string"
  fb_String :: "string \<Rightarrow> nat \<Rightarrow> string option"
  fb_Uint16 :: "string \<Rightarrow> nat \<Rightarrow> 16 word option"
  fb_Uint64 :: "string \<Rightarrow> nat \<Rightarrow> 64 word option"

abbreviation (input) fbFieldKind :: nat where "fbFieldKind \<equiv> 4"
abbreviation (input) fbFieldTarget :: nat where "fbFieldTarget \<equiv> 6"
abbreviation (input) fbFieldPayload :: nat where "fbFieldPayload \<equiv> 8"
abbreviation (input) fbFieldSource :: nat where "fbFieldSource \<equiv> 10"
abbreviation (input) fbFieldRoute :: nat where "fbFieldRoute \<equiv> 12"
abbreviation (input) fbFieldSchemaMajor :: nat where "fbFieldSchemaMajor \<equiv> 14"
abbreviation (input) fbFieldSchemaMinor :: nat where "fbFieldSchemaMinor \<equiv> 16"
abbreviation (input) fbFieldBuildID :: nat where "fbFieldBuildID \<equiv> 18"
abbreviation (input) fbFieldTS :: nat where "fbFieldTS \<equiv> 20"

text \<open>\<open>Prepend...Slot\<close> leaves a number out when it is the default; a string's offset is never the default.\<close>

definition PrependUint16Slot :: "nat \<Rightarrow> 16 word \<Rightarrow> 16 word \<Rightarrow> fb_slots \<Rightarrow> fb_slots" where
  "PrependUint16Slot i x d slots = (if x = d then slots else (i, FbUint16 x) # slots)"

definition PrependUint64Slot :: "nat \<Rightarrow> 64 word \<Rightarrow> 64 word \<Rightarrow> fb_slots \<Rightarrow> fb_slots" where
  "PrependUint64Slot i x d slots = (if x = d then slots else (i, FbUint64 x) # slots)"

definition encodeEvent :: "flatbuffers \<Rightarrow> Event \<Rightarrow> string" where
  "encodeEvent fb ev =
     (let b = [];
          b = (0, FbString (ev_Kind ev)) # b;
          b = (1, FbString (ev_Target ev)) # b;
          b = (2, FbString (ev_Payload ev)) # b;
          b = (3, FbString (ev_Source ev)) # b;
          b = (4, FbString (ev_Route ev)) # b;
          b = PrependUint16Slot 5 (ev_SchemaMajor ev) 0 b;
          b = PrependUint16Slot 6 (ev_SchemaMinor ev) 0 b;
          b = (7, FbString (ev_BuildID ev)) # b;
          b = PrependUint64Slot 8 (ev_TS ev) 0 b
      in fb_finish fb b)"

definition tableString :: "flatbuffers \<Rightarrow> string \<Rightarrow> nat \<Rightarrow> string" where
  "tableString fb t vtableOffset = (case fb_String fb t vtableOffset of None \<Rightarrow> [] | Some s \<Rightarrow> s)"

definition tableUshort :: "flatbuffers \<Rightarrow> string \<Rightarrow> nat \<Rightarrow> 16 word" where
  "tableUshort fb t vtableOffset = (case fb_Uint16 fb t vtableOffset of None \<Rightarrow> 0 | Some w \<Rightarrow> w)"

definition tableUlong :: "flatbuffers \<Rightarrow> string \<Rightarrow> nat \<Rightarrow> 64 word" where
  "tableUlong fb t vtableOffset = (case fb_Uint64 fb t vtableOffset of None \<Rightarrow> 0 | Some w \<Rightarrow> w)"

definition decodeEvent :: "flatbuffers \<Rightarrow> string \<Rightarrow> Event" where
  "decodeEvent fb buf =
     (if length buf < 4 then
        \<lparr>ev_Kind = [], ev_Target = [], ev_Payload = [], ev_Source = [], ev_Route = [],
         ev_SchemaMajor = 0, ev_SchemaMinor = 0, ev_BuildID = [], ev_TS = 0\<rparr>
      else
        \<lparr>ev_Kind = tableString fb buf fbFieldKind,
         ev_Target = tableString fb buf fbFieldTarget,
         ev_Payload = tableString fb buf fbFieldPayload,
         ev_Source = tableString fb buf fbFieldSource,
         ev_Route = tableString fb buf fbFieldRoute,
         ev_SchemaMajor = tableUshort fb buf fbFieldSchemaMajor,
         ev_SchemaMinor = tableUshort fb buf fbFieldSchemaMinor,
         ev_BuildID = tableString fb buf fbFieldBuildID,
         ev_TS = tableUlong fb buf fbFieldTS\<rparr>)"

section \<open>The stream\<close>

text \<open>\<open>base64.StdEncoding\<close>.\<close>

definition b64_alphabet :: string where
  "b64_alphabet = ''ABCDEFGHIJKLMNOPQRSTUVWXYZabcdefghijklmnopqrstuvwxyz0123456789+/''"

definition b64_char :: "nat \<Rightarrow> char" where
  "b64_char n = b64_alphabet ! n"

fun base64 :: "string \<Rightarrow> string" where
  "base64 [] = []"
| "base64 [a] = (let a = of_char a in [b64_char (a div 4), b64_char (a mod 4 * 16)] @ ''=='')"
| "base64 [a, b] =
     (let a = of_char a; b = of_char b in
      [b64_char (a div 4), b64_char (a mod 4 * 16 + b div 16), b64_char (b mod 16 * 4)] @ ''='')"
| "base64 (a # b # c # rest) =
     (let a = of_char a; b = of_char b; c = of_char c in
      [b64_char (a div 4), b64_char (a mod 4 * 16 + b div 16), b64_char (b mod 16 * 4 + c div 64), b64_char (c mod 64)]
      @ base64 rest)"

abbreviation newline :: char where "newline \<equiv> CHR 0x0A"

definition writeEvent :: "flatbuffers \<Rightarrow> Event \<Rightarrow> string" where
  "writeEvent fb ev =
     ''event: fb'' @ [newline] @ ''data: '' @ base64 (encodeEvent fb ev) @ [newline, newline]"

text \<open>What the select statement of the handler takes in each round, and what the loop writes.\<close>

datatype select = ContextDone | Tick int | FromHub "Event option"

fun handler_loop :: "flatbuffers \<Rightarrow> select list \<Rightarrow> string" where
  "handler_loop fb [] = []"
| "handler_loop fb (ContextDone # _) = []"
| "handler_loop fb (Tick now # rest) =
     '': keep-alive '' @ Itoa now @ [newline, newline] @ handler_loop fb rest"
| "handler_loop fb (FromHub None # _) = []"
| "handler_loop fb (FromHub (Some ev) # rest) = writeEvent fb ev @ handler_loop fb rest"

definition hello :: Event where
  "hello = \<lparr>ev_Kind = EventPing, ev_Target = [], ev_Payload = [], ev_Source = ''connected'', ev_Route = [],
     ev_SchemaMajor = 0, ev_SchemaMinor = 0, ev_BuildID = [], ev_TS = 0\<rparr>"

definition hub_Handler :: "flatbuffers \<Rightarrow> bool \<Rightarrow> int \<Rightarrow> Hub \<Rightarrow> select list \<Rightarrow>
    (int \<times> string) + ((string \<times> string) list \<times> string)" where
  "hub_Handler fb flusher now h selects =
     (if \<not> flusher then Inl (500, ''streaming unsupported'')
      else Inr ([(''Content-Type'', ''text/event-stream''), (''Cache-Control'', ''no-cache''),
                 (''Connection'', ''keep-alive''), (''X-Accel-Buffering'', ''no'')],
        ''retry: 1000'' @ [newline, newline] @ writeEvent fb (stamp now h hello) @
        handler_loop fb selects))"

section \<open>The client script\<close>

definition client_tag :: string where
  "client_tag = ''<script src='' @ [CHR 0x22] @ ''/hmr/hmr.js'' @ [CHR 0x22] @ '' defer></script>''"

text \<open>The slices \<open>html[:idx]\<close> and \<open>html[idx:]\<close> panic if the index is past the end.\<close>

definition InjectClientScript :: "string \<Rightarrow> string option" where
  "InjectClientScript html =
     (case LastIndex (ToLower html) ''</body>'' of
        None \<Rightarrow> Some (html @ client_tag)
      | Some idx \<Rightarrow> if idx > length html then None else Some (take idx html @ client_tag @ drop idx html))"

definition ScriptHandler :: "string \<Rightarrow> (string \<times> string) list \<times> string" where
  "ScriptHandler clientScript =
     ([(''Content-Type'', ''text/javascript; charset=utf-8''), (''Cache-Control'', ''no-cache'')], clientScript)"

section \<open>The hub and its subscribers\<close>

text \<open>
  A subscriber that has registered first sends itself the event to replay, if there is one; until then
  its caller has no channel to receive from, nor the function to cancel. The log of all broadcasts,
  what each subscriber has received and where in the log it joined are kept for the theorems.
\<close>

datatype phase = Replaying Event | Streaming | Cancelled

record hub_system =
  sy_hub :: Hub
  sy_phase :: "(nat, phase) gomap"
  sy_log :: "Event list"
  sy_joined :: "(nat, nat) gomap"
  sy_got :: "(nat, Event list) gomap"

definition start_system :: "string \<Rightarrow> hub_system" where
  "start_system buildID = \<lparr>sy_hub = NewHub buildID, sy_phase = [], sy_log = [], sy_joined = [], sy_got = []\<rparr>"

inductive hub_step :: "hub_system \<Rightarrow> hub_system \<Rightarrow> bool" where
  register: "gm_get (hb_chans (sy_hub s)) ch = None \<Longrightarrow> Subscribe_register now ch (sy_hub s) = (h, replay) \<Longrightarrow>
    hub_step s (s\<lparr>sy_hub := h,
      sy_phase := gm_put ch (case replay of None \<Rightarrow> Streaming | Some ev \<Rightarrow> Replaying ev) (sy_phase s),
      sy_joined := gm_put ch (length (sy_log s)) (sy_joined s), sy_got := gm_put ch [] (sy_got s)\<rparr>)"
| replay: "gm_get (sy_phase s) ch = Some (Replaying ev) \<Longrightarrow> chan_send ch ev (sy_hub s) = Does h \<Longrightarrow>
    hub_step s (s\<lparr>sy_hub := h, sy_phase := gm_put ch Streaming (sy_phase s)\<rparr>)"
| broadcast: "is_range it \<Longrightarrow> Broadcast it now (sy_hub s) ev = Does h \<Longrightarrow>
    hub_step s (s\<lparr>sy_hub := h, sy_log := sy_log s @ [stamp now (sy_hub s) ev]\<rparr>)"
| receive: "gm_get (sy_phase s) ch = Some Streaming \<Longrightarrow> chan_recv ch (sy_hub s) = Does (Some ev, h) \<Longrightarrow>
    hub_step s (s\<lparr>sy_hub := h, sy_got := gm_put ch (gm_getd [] (sy_got s) ch @ [ev]) (sy_got s)\<rparr>)"
| cancelled: "gm_get (sy_phase s) ch = Some Streaming \<Longrightarrow>
    hub_step s (s\<lparr>sy_hub := cancel ch (sy_hub s), sy_phase := gm_put ch Cancelled (sy_phase s)\<rparr>)"

end
