(* ===== verification/Hmr_Safety.thy ===== *)
theory Hmr_Safety
  imports Hmr
begin

text \<open>
  What the hub guarantees its subscribers over every interleaving of its steps, what the stream carries to
  the browser, and where the page ends up with the script; and the interleaving in which \<open>Subscribe\<close> hangs.
\<close>

section \<open>Channels\<close>

lemma chan_send_Does: "chan_send ch ev h = Does h' \<longleftrightarrow> (\<exists>c. gm_get (hb_chans h) ch = Some c \<and> \<not> cn_closed c \<and>
    length (cn_buf c) < 8 \<and> h' = h\<lparr>hb_chans := gm_put ch (c\<lparr>cn_buf := cn_buf c @ [ev]\<rparr>) (hb_chans h)\<rparr>)"
  by (auto simp: chan_send_def split: option.split)

lemma chan_recv_Does: "chan_recv ch h = Does (Some ev, h') \<longleftrightarrow> (\<exists>c rest. gm_get (hb_chans h) ch = Some c \<and>
    cn_buf c = ev # rest \<and> h' = h\<lparr>hb_chans := gm_put ch (c\<lparr>cn_buf := rest\<rparr>) (hb_chans h)\<rparr>)"
  by (auto simp: chan_recv_def split: option.split list.split)

definition open_chan :: "Hub \<Rightarrow> nat \<Rightarrow> bool" where
  "open_chan h ch \<longleftrightarrow> (\<exists>c. gm_get (hb_chans h) ch = Some c \<and> \<not> cn_closed c \<and> length (cn_buf c) \<le> 8)"

text \<open>A broadcast reaches exactly the clients with room, and never panics while they are open.\<close>

definition offer :: "Event \<Rightarrow> channel \<Rightarrow> channel" where
  "offer ev c = (if length (cn_buf c) < 8 then c\<lparr>cn_buf := cn_buf c @ [ev]\<rparr> else c)"

lemma offer_open: "cn_closed (offer ev c) = cn_closed c" "length (cn_buf c) \<le> 8 \<Longrightarrow> length (cn_buf (offer ev c)) \<le> 8"
  by (simp_all add: offer_def)

lemma offer_buf: "cn_buf (offer ev c) \<in> {cn_buf c, cn_buf c @ [ev]}"
  by (simp add: offer_def)

lemma broadcast_loop_open:
  "distinct chs \<Longrightarrow> \<forall>ch \<in> set chs. open_chan h ch \<Longrightarrow>
     \<exists>m. broadcast_loop ev chs h = Does (h\<lparr>hb_chans := m\<rparr>) \<and>
       (\<forall>ch. gm_get m ch = (if ch \<in> set chs then map_option (offer ev) (gm_get (hb_chans h) ch) else gm_get (hb_chans h) ch))"
proof (induction chs arbitrary: h)
  case Nil
  then show ?case by (auto intro: exI [of _ "hb_chans h"])
next
  case (Cons ch chs)
  obtain c where c: "gm_get (hb_chans h) ch = Some c" "\<not> cn_closed c" using Cons.prems(2) by (auto simp: open_chan_def)
  show ?case
  proof (cases "length (cn_buf c) < 8")
    case True
    let ?h = "h\<lparr>hb_chans := gm_put ch (c\<lparr>cn_buf := cn_buf c @ [ev]\<rparr>) (hb_chans h)\<rparr>"
    have "\<forall>x \<in> set chs. open_chan ?h x" using Cons.prems by (auto simp: open_chan_def gm_get_put)
    then obtain m where m: "broadcast_loop ev chs ?h = Does (?h\<lparr>hb_chans := m\<rparr>)"
      "\<forall>x. gm_get m x = (if x \<in> set chs then map_option (offer ev) (gm_get (hb_chans ?h) x) else gm_get (hb_chans ?h) x)"
      using Cons.IH [of ?h] Cons.prems(1) by auto
    then show ?thesis using True c Cons.prems(1)
      by (intro exI [of _ m]) (auto simp: chan_send_def gm_get_put offer_def)
  next
    case False
    then obtain m where m: "broadcast_loop ev chs h = Does (h\<lparr>hb_chans := m\<rparr>)"
      "\<forall>x. gm_get m x = (if x \<in> set chs then map_option (offer ev) (gm_get (hb_chans h) x) else gm_get (hb_chans h) x)"
      using Cons.IH [of h] Cons.prems by auto
    then show ?thesis using False c Cons.prems(1)
      by (intro exI [of _ m]) (auto simp: chan_send_def offer_def)
  qed
qed

lemma Broadcast_open:
  assumes "is_range it" "gm_ok (hb_clients h)" "\<forall>ch. gm_get (hb_clients h) ch \<noteq> None \<longrightarrow> open_chan h ch"
  shows "\<exists>m. Broadcast it now h ev = Does (h\<lparr>hb_last := Some (stamp now h ev), hb_lastAt := now, hb_chans := m\<rparr>) \<and>
    (\<forall>ch. gm_get m ch = (if gm_get (hb_clients h) ch \<noteq> None then map_option (offer (stamp now h ev)) (gm_get (hb_chans h) ch)
       else gm_get (hb_chans h) ch))"
proof -
  let ?h = "h\<lparr>hb_last := Some (stamp now h ev), hb_lastAt := now\<rparr>" and ?chs = "map fst (it (hb_clients h))"
  have d: "distinct ?chs" using is_range_ok [OF assms(1,2)] by (simp add: gm_ok_def)
  have s: "set ?chs = {ch. gm_get (hb_clients h) ch \<noteq> None}"
    using is_range_set [OF assms(1)] by (force simp: map_of_eq_None_iff)
  then have o: "\<forall>ch \<in> set ?chs. open_chan ?h ch" using assms(3) by (auto simp: open_chan_def)
  from broadcast_loop_open [OF d o, of "stamp now h ev"] obtain m where
    "broadcast_loop (stamp now h ev) ?chs ?h = Does (?h\<lparr>hb_chans := m\<rparr>)"
    "\<forall>ch. gm_get m ch = (if ch \<in> set ?chs then map_option (offer (stamp now h ev)) (gm_get (hb_chans ?h) ch) else gm_get (hb_chans ?h) ch)"
    by blast
  then show ?thesis unfolding s by (intro exI [of _ m]) (simp add: Broadcast_def Let_def)
qed

section \<open>The invariant\<close>

text \<open>
  The events of a subscriber that joined after \<open>k\<close> broadcasts: some of the later ones, in order, and perhaps
  the last earlier one among them.
\<close>

definition stream_ok :: "nat \<Rightarrow> Event list \<Rightarrow> Event list \<Rightarrow> bool" where
  "stream_ok k hist d \<longleftrightarrow> subseq d (drop k hist) \<or>
     (\<exists>xs ys. d = xs @ hist ! (k - 1) # ys \<and> 0 < k \<and> subseq (xs @ ys) (drop k hist))"

definition delivered :: "hub_system \<Rightarrow> nat \<Rightarrow> Event list" where
  "delivered s ch = gm_getd [] (sy_got s) ch @
     (case gm_get (hb_chans (sy_hub s)) ch of None \<Rightarrow> [] | Some c \<Rightarrow> cn_buf c)"

definition phase_ok :: "nat \<Rightarrow> Event list \<Rightarrow> Event list \<Rightarrow> phase \<Rightarrow> bool" where
  "phase_ok k hist d p = (case p of
     Replaying ev \<Rightarrow> 0 < k \<and> ev = hist ! (k - 1) \<and> subseq d (drop k hist)
   | _ \<Rightarrow> stream_ok k hist d)"

definition hub_ok :: "hub_system \<Rightarrow> bool" where
  "hub_ok s \<longleftrightarrow> gm_ok (hb_clients (sy_hub s)) \<and>
     (\<forall>ch. gm_get (hb_clients (sy_hub s)) ch \<noteq> None \<longleftrightarrow> (\<exists>p. gm_get (sy_phase s) ch = Some p \<and> p \<noteq> Cancelled)) \<and>
     (\<forall>ch. gm_get (hb_clients (sy_hub s)) ch \<noteq> None \<longrightarrow> open_chan (sy_hub s) ch) \<and>
     (\<forall>ch p. gm_get (sy_phase s) ch = Some p \<longrightarrow> (\<exists>c k. gm_get (hb_chans (sy_hub s)) ch = Some c \<and>
        gm_get (sy_joined s) ch = Some k \<and> k \<le> length (sy_log s) \<and> phase_ok k (sy_log s) (delivered s ch) p)) \<and>
     hb_last (sy_hub s) = (if sy_log s = [] then None else Some (last (sy_log s)))"

lemma stream_ok_snoc:
  assumes "k \<le> length hist" "stream_ok k hist d"
  shows "stream_ok k (hist @ [ev]) d" "stream_ok k (hist @ [ev]) (d @ [ev])"
proof -
  have grow: "subseq xs (drop k hist) \<Longrightarrow> subseq xs (drop k (hist @ [ev])) \<and> subseq (xs @ [ev]) (drop k (hist @ [ev]))" for xs
    using assms(1) by (auto intro: list_emb_append_mono subseq_rev_drop_many)
  have nth: "0 < k \<Longrightarrow> (hist @ [ev]) ! (k - 1) = hist ! (k - 1)" using assms(1) by (simp add: nth_append)
  from assms(2) consider "subseq d (drop k hist)"
    | xs ys where "d = xs @ hist ! (k - 1) # ys" "0 < k" "subseq (xs @ ys) (drop k hist)"
    by (auto simp: stream_ok_def)
  then have "stream_ok k (hist @ [ev]) d \<and> stream_ok k (hist @ [ev]) (d @ [ev])"
  proof cases
    case 1
    then show ?thesis using grow by (simp add: stream_ok_def)
  next
    case 2
    have "stream_ok k (hist @ [ev]) d" unfolding stream_ok_def
      using 2 grow [of "xs @ ys"] nth by (intro disjI2 exI [of _ xs] exI [of _ ys]) simp
    moreover have "stream_ok k (hist @ [ev]) (d @ [ev])" unfolding stream_ok_def
      using 2 grow [of "xs @ ys"] nth by (intro disjI2 exI [of _ xs] exI [of _ "ys @ [ev]"]) simp
    ultimately show ?thesis by blast
  qed
  then show "stream_ok k (hist @ [ev]) d" "stream_ok k (hist @ [ev]) (d @ [ev])" by simp_all
qed

lemma phase_ok_snoc:
  assumes "k \<le> length hist" "phase_ok k hist d p"
  shows "phase_ok k (hist @ [ev]) d p" "phase_ok k (hist @ [ev]) (d @ [ev]) p"
proof -
  have grow: "subseq xs (drop k hist) \<Longrightarrow> subseq xs (drop k (hist @ [ev])) \<and> subseq (xs @ [ev]) (drop k (hist @ [ev]))" for xs
    using assms(1) by (auto intro: list_emb_append_mono subseq_rev_drop_many)
  show "phase_ok k (hist @ [ev]) d p" "phase_ok k (hist @ [ev]) (d @ [ev]) p"
    using assms stream_ok_snoc [OF assms(1)] grow by (auto simp: phase_ok_def nth_append split: phase.splits)
qed

lemma phase_ok_replayed: "phase_ok k hist d (Replaying ev) \<Longrightarrow> stream_ok k hist (d @ [ev])"
  unfolding phase_ok_def stream_ok_def by (intro disjI2 exI [of _ d] exI [of _ "[]"]) simp

text \<open>Every step keeps the invariant.\<close>

inductive_cases hub_stepE: "hub_step s s'"

lemma hub_ok_start: "hub_ok (start_system b)"
  by (simp add: hub_ok_def start_system_def NewHub_def)

lemma hub_okD:
  assumes "hub_ok s"
  shows "gm_ok (hb_clients (sy_hub s))"
    and "gm_get (hb_clients (sy_hub s)) ch \<noteq> None \<longleftrightarrow> (\<exists>p. gm_get (sy_phase s) ch = Some p \<and> p \<noteq> Cancelled)"
    and "gm_get (hb_clients (sy_hub s)) ch \<noteq> None \<Longrightarrow> open_chan (sy_hub s) ch"
    and "gm_get (sy_phase s) ch = Some p \<Longrightarrow> \<exists>c k. gm_get (hb_chans (sy_hub s)) ch = Some c \<and>
        gm_get (sy_joined s) ch = Some k \<and> k \<le> length (sy_log s) \<and> phase_ok k (sy_log s) (delivered s ch) p"
    and "hb_last (sy_hub s) = (if sy_log s = [] then None else Some (last (sy_log s)))"
  using assms by (auto simp: hub_ok_def)

lemma hub_okI:
  assumes "gm_ok (hb_clients (sy_hub s))"
    and "\<And>ch. gm_get (hb_clients (sy_hub s)) ch \<noteq> None \<longleftrightarrow> (\<exists>p. gm_get (sy_phase s) ch = Some p \<and> p \<noteq> Cancelled)"
    and "\<And>ch. gm_get (hb_clients (sy_hub s)) ch \<noteq> None \<Longrightarrow> open_chan (sy_hub s) ch"
    and "\<And>ch p. gm_get (sy_phase s) ch = Some p \<Longrightarrow> \<exists>c k. gm_get (hb_chans (sy_hub s)) ch = Some c \<and>
        gm_get (sy_joined s) ch = Some k \<and> k \<le> length (sy_log s) \<and> phase_ok k (sy_log s) (delivered s ch) p"
    and "hb_last (sy_hub s) = (if sy_log s = [] then None else Some (last (sy_log s)))"
  shows "hub_ok s"
  using assms by (simp add: hub_ok_def)

lemma hub_ok_register:
  assumes s: "hub_ok s" and new: "gm_get (hb_chans (sy_hub s)) ch = None"
    and r: "Subscribe_register now ch (sy_hub s) = (h, replay)"
  shows "hub_ok (s\<lparr>sy_hub := h,
      sy_phase := gm_put ch (case replay of None \<Rightarrow> Streaming | Some ev \<Rightarrow> Replaying ev) (sy_phase s),
      sy_joined := gm_put ch (length (sy_log s)) (sy_joined s), sy_got := gm_put ch [] (sy_got s)\<rparr>)"
    (is "hub_ok ?s")
proof -
  have h: "h = (sy_hub s)\<lparr>hb_chans := gm_put ch \<lparr>cn_buf = [], cn_closed = False\<rparr> (hb_chans (sy_hub s)),
      hb_clients := gm_put ch () (hb_clients (sy_hub s))\<rparr>"
    and rp: "replay = None \<or> replay = hb_last (sy_hub s) \<and> hb_last (sy_hub s) \<noteq> None"
    using r by (auto simp: Subscribe_register_def Let_def split: if_splits)
  show ?thesis
  proof (rule hub_okI)
    show "gm_ok (hb_clients (sy_hub ?s))" using hub_okD(1) [OF s] by (simp add: h)
    fix x
    show "gm_get (hb_clients (sy_hub ?s)) x \<noteq> None \<longleftrightarrow> (\<exists>p. gm_get (sy_phase ?s) x = Some p \<and> p \<noteq> Cancelled)"
      using hub_okD(2) [OF s, of x] by (auto simp: h gm_get_put split: option.split)
    show "open_chan (sy_hub ?s) x" if "gm_get (hb_clients (sy_hub ?s)) x \<noteq> None"
      using that hub_okD(3) [OF s, of x] by (auto simp: h gm_get_put open_chan_def)
    show "hb_last (sy_hub ?s) = (if sy_log ?s = [] then None else Some (last (sy_log ?s)))"
      using hub_okD(5) [OF s] by (simp add: h)
    fix p assume p: "gm_get (sy_phase ?s) x = Some p"
    show "\<exists>c k. gm_get (hb_chans (sy_hub ?s)) x = Some c \<and> gm_get (sy_joined ?s) x = Some k \<and>
        k \<le> length (sy_log ?s) \<and> phase_ok k (sy_log ?s) (delivered ?s x) p"
    proof (cases "x = ch")
      case True
      have "delivered ?s ch = []" by (simp add: delivered_def h gm_get_put)
      moreover have "phase_ok (length (sy_log s)) (sy_log s) [] (case replay of None \<Rightarrow> Streaming | Some ev \<Rightarrow> Replaying ev)"
        using rp hub_okD(5) [OF s] by (auto simp: phase_ok_def stream_ok_def last_conv_nth split: if_splits)
      ultimately show ?thesis using True p by (simp add: h gm_get_put)
    next
      case False
      then have "delivered ?s x = delivered s x" by (simp add: delivered_def h gm_get_put gm_getd_def)
      then show ?thesis using hub_okD(4) [OF s, of x p] p False by (simp add: h gm_get_put)
    qed
  qed
qed

lemma delivered_put: "delivered (s\<lparr>sy_hub := (sy_hub s)\<lparr>hb_chans := gm_put ch c (hb_chans (sy_hub s))\<rparr>, sy_phase := ph, sy_got := got\<rparr>) x =
    gm_getd [] got x @ (if x = ch then cn_buf c else case gm_get (hb_chans (sy_hub s)) x of None \<Rightarrow> [] | Some c \<Rightarrow> cn_buf c)"
  by (simp add: delivered_def gm_get_put)

text \<open>A step of one subscriber: its channel, its phase and what it has received change.\<close>

lemma hub_ok_subscriber:
  assumes s: "hub_ok s" and ch: "gm_get (sy_phase s) ch = Some p0" "gm_get (hb_chans (sy_hub s)) ch = Some c0"
    and p: "p \<noteq> Cancelled" "p0 \<noteq> Cancelled" and c: "cn_closed c = cn_closed c0" "length (cn_buf c) \<le> 8"
    and ok: "\<And>k. k \<le> length (sy_log s) \<Longrightarrow> phase_ok k (sy_log s) (delivered s ch) p0 \<Longrightarrow>
      phase_ok k (sy_log s) (gm_getd [] got ch @ cn_buf c) p"
    and got: "\<And>x. x \<noteq> ch \<Longrightarrow> gm_getd [] got x = gm_getd [] (sy_got s) x"
  shows "hub_ok (s\<lparr>sy_hub := (sy_hub s)\<lparr>hb_chans := gm_put ch c (hb_chans (sy_hub s))\<rparr>,
     sy_phase := gm_put ch p (sy_phase s), sy_got := got\<rparr>)" (is "hub_ok ?s")
proof (rule hub_okI)
  show "gm_ok (hb_clients (sy_hub ?s))" using hub_okD(1) [OF s] by simp
  show "hb_last (sy_hub ?s) = (if sy_log ?s = [] then None else Some (last (sy_log ?s)))"
    using hub_okD(5) [OF s] by simp
  fix x
  show "gm_get (hb_clients (sy_hub ?s)) x \<noteq> None \<longleftrightarrow> (\<exists>p. gm_get (sy_phase ?s) x = Some p \<and> p \<noteq> Cancelled)"
    using hub_okD(2) [OF s, of x] ch(1) p by (auto simp: gm_get_put)
  show "open_chan (sy_hub ?s) x" if "gm_get (hb_clients (sy_hub ?s)) x \<noteq> None"
    using that hub_okD(3) [OF s, of x] c ch(2) by (auto simp: gm_get_put open_chan_def)
  fix q assume q: "gm_get (sy_phase ?s) x = Some q"
  show "\<exists>c k. gm_get (hb_chans (sy_hub ?s)) x = Some c \<and> gm_get (sy_joined ?s) x = Some k \<and>
      k \<le> length (sy_log ?s) \<and> phase_ok k (sy_log ?s) (delivered ?s x) q"
  proof (cases "x = ch")
    case True
    then show ?thesis using hub_okD(4) [OF s ch(1)] q ok by (auto simp: gm_get_put delivered_put)
  next
    case False
    then have "delivered ?s x = delivered s x" using got by (simp add: delivered_put) (simp add: delivered_def)
    then show ?thesis using hub_okD(4) [OF s, of x q] q False by (simp add: gm_get_put)
  qed
qed

lemma hub_ok_broadcast:
  assumes s: "hub_ok s" and it: "is_range it" and b: "Broadcast it now (sy_hub s) ev = Does h"
  shows "hub_ok (s\<lparr>sy_hub := h, sy_log := sy_log s @ [stamp now (sy_hub s) ev]\<rparr>)" (is "hub_ok ?s")
proof -
  let ?h = "sy_hub s" and ?e = "stamp now (sy_hub s) ev"
  have opens: "\<forall>ch. gm_get (hb_clients ?h) ch \<noteq> None \<longrightarrow> open_chan ?h ch" using hub_okD(3) [OF s] by blast
  obtain m where h: "h = ?h\<lparr>hb_last := Some ?e, hb_lastAt := now, hb_chans := m\<rparr>"
    and m: "\<And>ch. gm_get m ch = (if gm_get (hb_clients ?h) ch \<noteq> None then map_option (offer ?e) (gm_get (hb_chans ?h) ch)
       else gm_get (hb_chans ?h) ch)"
    using Broadcast_open [OF it hub_okD(1) [OF s] opens, of now ev] b by auto
  show ?thesis
  proof (rule hub_okI)
    show "gm_ok (hb_clients (sy_hub ?s))" using hub_okD(1) [OF s] by (simp add: h)
    show "hb_last (sy_hub ?s) = (if sy_log ?s = [] then None else Some (last (sy_log ?s)))" by (simp add: h)
    fix x
    show "gm_get (hb_clients (sy_hub ?s)) x \<noteq> None \<longleftrightarrow> (\<exists>p. gm_get (sy_phase ?s) x = Some p \<and> p \<noteq> Cancelled)"
      using hub_okD(2) [OF s, of x] by (simp add: h)
    show "open_chan (sy_hub ?s) x" if "gm_get (hb_clients (sy_hub ?s)) x \<noteq> None"
      using that hub_okD(3) [OF s, of x] by (auto simp: h m open_chan_def offer_open)
    fix p assume p: "gm_get (sy_phase ?s) x = Some p"
    then obtain c k where c: "gm_get (hb_chans ?h) x = Some c" "gm_get (sy_joined s) x = Some k" "k \<le> length (sy_log s)"
      "phase_ok k (sy_log s) (delivered s x) p"
      using hub_okD(4) [OF s, of x p] by auto
    have "delivered ?s x \<in> {delivered s x, delivered s x @ [?e]}"
      using c(1) offer_buf [of ?e c] by (auto simp: delivered_def h m)
    then have "phase_ok k (sy_log ?s) (delivered ?s x) p" using phase_ok_snoc [OF c(3,4)] by auto
    then show "\<exists>c k. gm_get (hb_chans (sy_hub ?s)) x = Some c \<and> gm_get (sy_joined ?s) x = Some k \<and>
        k \<le> length (sy_log ?s) \<and> phase_ok k (sy_log ?s) (delivered ?s x) p"
      using c by (auto simp: h m)
  qed
qed

lemma hub_ok_cancelled:
  assumes s: "hub_ok s" and ch: "gm_get (sy_phase s) ch = Some Streaming"
  shows "hub_ok (s\<lparr>sy_hub := cancel ch (sy_hub s), sy_phase := gm_put ch Cancelled (sy_phase s)\<rparr>)" (is "hub_ok ?s")
proof -
  have "gm_get (hb_clients (sy_hub s)) ch \<noteq> None" using hub_okD(2) [OF s, of ch] ch by auto
  then obtain c where c: "gm_get (hb_chans (sy_hub s)) ch = Some c" and h: "cancel ch (sy_hub s) =
      (sy_hub s)\<lparr>hb_clients := AList.delete ch (hb_clients (sy_hub s)), hb_chans := gm_put ch (c\<lparr>cn_closed := True\<rparr>) (hb_chans (sy_hub s))\<rparr>"
    using hub_okD(3) [OF s, of ch] by (auto simp: open_chan_def cancel_def)
  have del: "gm_get (AList.delete ch (hb_clients (sy_hub s))) x = (if x = ch then None else gm_get (hb_clients (sy_hub s)) x)" for x
    by (simp add: delete_conv')
  show ?thesis
  proof (rule hub_okI)
    show "gm_ok (hb_clients (sy_hub ?s))"
      using hub_okD(1) [OF s] by (simp add: h gm_ok_def distinct_delete)
    show "hb_last (sy_hub ?s) = (if sy_log ?s = [] then None else Some (last (sy_log ?s)))"
      using hub_okD(5) [OF s] by (simp add: h)
    fix x
    show "gm_get (hb_clients (sy_hub ?s)) x \<noteq> None \<longleftrightarrow> (\<exists>p. gm_get (sy_phase ?s) x = Some p \<and> p \<noteq> Cancelled)"
      using hub_okD(2) [OF s, of x] by (simp add: h del gm_get_put)
    show "open_chan (sy_hub ?s) x" if "gm_get (hb_clients (sy_hub ?s)) x \<noteq> None"
      using that hub_okD(3) [OF s, of x] by (auto simp: h del gm_get_put open_chan_def split: if_splits)
    fix p assume p: "gm_get (sy_phase ?s) x = Some p"
    have d: "delivered ?s x = delivered s x" using c by (simp add: delivered_def h gm_get_put)
    show "\<exists>c k. gm_get (hb_chans (sy_hub ?s)) x = Some c \<and> gm_get (sy_joined ?s) x = Some k \<and>
        k \<le> length (sy_log ?s) \<and> phase_ok k (sy_log ?s) (delivered ?s x) p"
    proof (cases "x = ch")
      case True
      then show ?thesis using hub_okD(4) [OF s ch] p c d by (auto simp: h gm_get_put phase_ok_def)
    next
      case False
      then show ?thesis using hub_okD(4) [OF s, of x p] p d by (simp add: h gm_get_put)
    qed
  qed
qed

lemma hub_ok_step: "hub_step s s' \<Longrightarrow> hub_ok s \<Longrightarrow> hub_ok s'"
proof (induction rule: hub_step.induct)
  case (register s ch now h replay)
  then show ?case using hub_ok_register by blast
next
  case (replay s ch ev h)
  then obtain c where c: "gm_get (hb_chans (sy_hub s)) ch = Some c" "length (cn_buf c) < 8"
    and h: "h = (sy_hub s)\<lparr>hb_chans := gm_put ch (c\<lparr>cn_buf := cn_buf c @ [ev]\<rparr>) (hb_chans (sy_hub s))\<rparr>"
    by (auto simp: chan_send_Does)
  have "hub_ok (s\<lparr>sy_hub := h, sy_phase := gm_put ch Streaming (sy_phase s), sy_got := sy_got s\<rparr>)"
    unfolding h
  proof (rule hub_ok_subscriber [OF replay(3) replay(1) c(1)])
    fix k assume "phase_ok k (sy_log s) (delivered s ch) (Replaying ev)"
    from phase_ok_replayed [OF this]
    show "phase_ok k (sy_log s) (gm_getd [] (sy_got s) ch @ cn_buf (c\<lparr>cn_buf := cn_buf c @ [ev]\<rparr>)) Streaming"
      using c(1) by (simp add: delivered_def phase_ok_def)
  qed (use c in simp_all)
  then show ?case by simp
next
  case (broadcast it now s ev h)
  then show ?case using hub_ok_broadcast by blast
next
  case (receive s ch ev h)
  then obtain c rest where c: "gm_get (hb_chans (sy_hub s)) ch = Some c" "cn_buf c = ev # rest"
    and h: "h = (sy_hub s)\<lparr>hb_chans := gm_put ch (c\<lparr>cn_buf := rest\<rparr>) (hb_chans (sy_hub s))\<rparr>"
    by (auto simp: chan_recv_Does)
  have "gm_get (hb_clients (sy_hub s)) ch \<noteq> None" using hub_okD(2) [OF receive(3), of ch] receive(1) by auto
  then have "length (cn_buf c) \<le> 8" using hub_okD(3) [OF receive(3), of ch] c(1) by (auto simp: open_chan_def)
  moreover have "gm_put ch Streaming (sy_phase s) = sy_phase s" using receive(1) by (simp add: update_triv)
  ultimately show ?case unfolding h
    using hub_ok_subscriber [OF receive(3) receive(1) c(1), of Streaming "c\<lparr>cn_buf := rest\<rparr>"
        "gm_put ch (gm_getd [] (sy_got s) ch @ [ev]) (sy_got s)"] c
    by (simp add: delivered_def)
next
  case (cancelled s ch)
  then show ?case using hub_ok_cancelled by blast
qed

lemma hub_ok_reachable: "hub_step\<^sup>*\<^sup>* (start_system b) s \<Longrightarrow> hub_ok s"
  by (induction rule: rtranclp_induct) (auto intro: hub_ok_start hub_ok_step)

lemma stream_ok_prefix:
  assumes "stream_ok k hist d" "prefix d' d"
  shows "stream_ok k hist d'"
proof -
  obtain r where d: "d = d' @ r" using assms(2) by (auto simp: prefix_def)
  have sub: "subseq (xs @ ys) zs \<Longrightarrow> subseq xs zs" for xs ys zs :: "Event list"
    by (rule subseq_order.order_trans [of _ "xs @ ys"]) auto
  from assms(1) consider "subseq d (drop k hist)"
    | xs ys where "d = xs @ hist ! (k - 1) # ys" "0 < k" "subseq (xs @ ys) (drop k hist)"
    by (auto simp: stream_ok_def)
  then show ?thesis
  proof cases
    case 1
    then show ?thesis using sub d by (auto simp: stream_ok_def)
  next
    case 2
    from 2(1) d have "d' @ r = xs @ hist ! (k - 1) # ys" by simp
    then consider us where "d' @ us = xs" | us where "d' = xs @ hist ! (k - 1) # us" "us @ r = ys"
      unfolding append_eq_append_conv2 append_eq_Cons_conv by (metis append_Nil2)
    then show ?thesis
    proof cases
      case 1
      then have "subseq (d' @ us @ ys) (drop k hist)" using 2(3) by (metis append_assoc)
      then show ?thesis using sub by (auto simp: stream_ok_def)
    next
      fix us assume us: "d' = xs @ hist ! (k - 1) # us" "us @ r = ys"
      then have "subseq ((xs @ us) @ r) (drop k hist)" using 2(3) by simp
      from sub [OF this] show ?thesis using us(1) 2(2) unfolding stream_ok_def by blast
    qed
  qed
qed

section \<open>The properties\<close>

text \<open>C28. However the hub's clients subscribe, receive and disconnect while events are broadcast, what a
  subscriber has received is, in the order they were broadcast, some of the events broadcast since it
  joined, with nothing twice, and besides them at most one earlier event: the last one before it joined,
  somewhere among them. No buffer ever holds more than eight events.\<close>

lemma hub_delivers_in_order:
  assumes "hub_step\<^sup>*\<^sup>* (start_system buildID) s" and "gm_get (sy_phase s) ch = Some p"
  shows "\<exists>k c. gm_get (sy_joined s) ch = Some k \<and> k \<le> length (sy_log s) \<and>
     stream_ok k (sy_log s) (gm_getd [] (sy_got s) ch) \<and>
     gm_get (hb_chans (sy_hub s)) ch = Some c \<and> (p \<noteq> Cancelled \<longrightarrow> length (cn_buf c) \<le> 8)"
proof -
  note ok = hub_ok_reachable [OF assms(1)]
  obtain c k where c: "gm_get (hb_chans (sy_hub s)) ch = Some c" "gm_get (sy_joined s) ch = Some k" "k \<le> length (sy_log s)"
    "phase_ok k (sy_log s) (delivered s ch) p" using hub_okD(4) [OF ok assms(2)] by blast
  have "stream_ok k (sy_log s) (delivered s ch)"
    using c(4) by (auto simp: phase_ok_def stream_ok_def split: phase.splits)
  moreover have "prefix (gm_getd [] (sy_got s) ch) (delivered s ch)" by (simp add: delivered_def)
  ultimately have "stream_ok k (sy_log s) (gm_getd [] (sy_got s) ch)" by (rule stream_ok_prefix)
  moreover have "p \<noteq> Cancelled \<Longrightarrow> length (cn_buf c) \<le> 8"
    using hub_okD(2,3) [OF ok, of ch] assms(2) c(1) by (auto simp: open_chan_def)
  ultimately show ?thesis using c by blast
qed

text \<open>C29. In every state the hub can reach, whatever order its clients come in, a broadcast neither blocks
  nor panics on a closed channel; every connected client with room in its buffer gets exactly the stamped
  event, one whose buffer is full misses it, and no other channel changes.\<close>

lemma hub_broadcast_never_blocks:
  assumes "hub_step\<^sup>*\<^sup>* (start_system buildID) s" and "is_range it"
  shows "\<exists>h. Broadcast it now (sy_hub s) ev = Does h \<and> hb_last h = Some (stamp now (sy_hub s) ev) \<and>
     hb_clients h = hb_clients (sy_hub s) \<and>
     (\<forall>ch. gm_get (hb_chans h) ch = (case gm_get (hb_chans (sy_hub s)) ch of None \<Rightarrow> None | Some c \<Rightarrow>
        if gm_get (hb_clients (sy_hub s)) ch \<noteq> None \<and> length (cn_buf c) < 8
        then Some (c\<lparr>cn_buf := cn_buf c @ [stamp now (sy_hub s) ev]\<rparr>) else Some c))"
proof -
  note ok = hub_ok_reachable [OF assms(1)]
  have opens: "\<forall>ch. gm_get (hb_clients (sy_hub s)) ch \<noteq> None \<longrightarrow> open_chan (sy_hub s) ch" using hub_okD(3) [OF ok] by blast
  from Broadcast_open [OF assms(2) hub_okD(1) [OF ok] opens, of now ev] show ?thesis
    by (force simp: offer_def split: option.split)
qed

text \<open>A subscriber whose buffer fills up before it has replayed the last event waits for ever.\<close>

definition stuck :: "nat \<Rightarrow> Event \<Rightarrow> hub_system \<Rightarrow> bool" where
  "stuck ch ev s \<longleftrightarrow> gm_get (sy_phase s) ch = Some (Replaying ev) \<and>
     (\<exists>c. gm_get (hb_chans (sy_hub s)) ch = Some c \<and> length (cn_buf c) \<ge> 8)"

lemma broadcast_loop_full:
  "broadcast_loop ev chs h = Does h' \<Longrightarrow> gm_get (hb_chans h) ch = Some c \<Longrightarrow> length (cn_buf c) \<ge> 8 \<Longrightarrow>
     gm_get (hb_chans h') ch = Some c"
proof (induction ev chs h rule: broadcast_loop.induct)
  case (2 ev x chs h)
  show ?case
  proof (cases "chan_send x ev h")
    case (Does h1)
    then have "gm_get (hb_chans h1) ch = Some c" using 2(4,5) by (auto simp: chan_send_Does gm_get_put)
    then show ?thesis using 2 Does by simp
  qed (use 2 in simp_all)
qed simp

lemma stuck_step: "hub_step s s' \<Longrightarrow> stuck ch ev s \<Longrightarrow> stuck ch ev s'"
proof (induction rule: hub_step.induct)
  case (broadcast it now s e h)
  then show ?case using broadcast_loop_full unfolding Broadcast_def Let_def stuck_def by fastforce
next
  case (cancelled s x)
  then show ?case by (auto simp: stuck_def cancel_def gm_get_put split: option.splits)
qed (auto simp: stuck_def Subscribe_register_def Let_def chan_send_Does chan_recv_Does gm_get_put split: if_splits)

text \<open>
  \<open>Subscribe\<close> registers its channel first and sends the replayed event into it afterwards: when the
  buffer has filled up with broadcasts in between, the send waits for a reader that does not exist yet, and
  no later step of the hub or of any client ever lets that subscriber go on.\<close>

lemma hub_subscribe_hangs:
  assumes "hub_step\<^sup>*\<^sup>* (start_system buildID) s" and "stuck ch ev s" and "hub_step\<^sup>*\<^sup>* s s'"
  shows "gm_get (sy_phase s') ch = Some (Replaying ev) \<and> chan_send ch ev (sy_hub s') = Waits"
proof -
  have st: "stuck ch ev s'" using assms(3,2) by (induction rule: rtranclp_induct) (auto intro: stuck_step)
  have "hub_ok s'" using hub_ok_reachable rtranclp_trans [OF assms(1,3)] by blast
  then have "open_chan (sy_hub s') ch" using hub_okD(2,3) [of s' ch] st by (auto simp: stuck_def)
  then show ?thesis using st by (auto simp: stuck_def chan_send_def open_chan_def)
qed

section \<open>Runs\<close>

text \<open>A run as a list of actions, to compute states that the hub reaches.\<close>

datatype hub_action = Register int nat | Replay nat | Send int Event | Receive nat | Cancel nat

fun hub_act :: "hub_action \<Rightarrow> hub_system \<Rightarrow> hub_system option" where
  "hub_act (Register now ch) s =
     (if gm_get (hb_chans (sy_hub s)) ch = None then
        (case Subscribe_register now ch (sy_hub s) of (h, replay) \<Rightarrow> Some (s\<lparr>sy_hub := h,
           sy_phase := gm_put ch (case replay of None \<Rightarrow> Streaming | Some ev \<Rightarrow> Replaying ev) (sy_phase s),
           sy_joined := gm_put ch (length (sy_log s)) (sy_joined s), sy_got := gm_put ch [] (sy_got s)\<rparr>))
      else None)"
| "hub_act (Replay ch) s =
     (case gm_get (sy_phase s) ch of
        Some (Replaying ev) \<Rightarrow>
          (case chan_send ch ev (sy_hub s) of
             Does h \<Rightarrow> Some (s\<lparr>sy_hub := h, sy_phase := gm_put ch Streaming (sy_phase s)\<rparr>)
           | _ \<Rightarrow> None)
      | _ \<Rightarrow> None)"
| "hub_act (Send now ev) s =
     (case Broadcast (\<lambda>m. m) now (sy_hub s) ev of
        Does h \<Rightarrow> Some (s\<lparr>sy_hub := h, sy_log := sy_log s @ [stamp now (sy_hub s) ev]\<rparr>)
      | _ \<Rightarrow> None)"
| "hub_act (Receive ch) s =
     (case gm_get (sy_phase s) ch of
        Some Streaming \<Rightarrow>
          (case chan_recv ch (sy_hub s) of
             Does (Some ev, h) \<Rightarrow> Some (s\<lparr>sy_hub := h, sy_got := gm_put ch (gm_getd [] (sy_got s) ch @ [ev]) (sy_got s)\<rparr>)
           | _ \<Rightarrow> None)
      | _ \<Rightarrow> None)"
| "hub_act (Cancel ch) s =
     (if gm_get (sy_phase s) ch = Some Streaming
      then Some (s\<lparr>sy_hub := cancel ch (sy_hub s), sy_phase := gm_put ch Cancelled (sy_phase s)\<rparr>)
      else None)"

lemma hub_act_step: "hub_act a s = Some s' \<Longrightarrow> hub_step s s'"
proof (cases a)
  case (Register now ch)
  moreover assume "hub_act a s = Some s'"
  moreover obtain h replay where "Subscribe_register now ch (sy_hub s) = (h, replay)" by (cases "Subscribe_register now ch (sy_hub s)")
  ultimately show ?thesis using hub_step.register [of s ch now h replay] by (simp split: if_splits)
qed (auto split: if_splits option.splits phase.splits outcome.splits intro: hub_step.intros is_range_id)

fun hub_acts :: "hub_action list \<Rightarrow> hub_system \<Rightarrow> hub_system option" where
  "hub_acts [] s = Some s"
| "hub_acts (a # as) s = (case hub_act a s of None \<Rightarrow> None | Some s' \<Rightarrow> hub_acts as s')"

lemma hub_acts_steps: "hub_acts as s = Some s' \<Longrightarrow> hub_step\<^sup>*\<^sup>* s s'"
  by (induction as s rule: hub_acts.induct)
    (auto split: option.splits dest!: hub_act_step intro: converse_rtranclp_into_rtranclp)

definition reloaded :: "string \<Rightarrow> Event" where
  "reloaded src = \<lparr>ev_Kind = ''reload'', ev_Target = [], ev_Payload = [], ev_Source = src, ev_Route = [],
     ev_SchemaMajor = 0, ev_SchemaMinor = 0, ev_BuildID = [], ev_TS = 0\<rparr>"

text \<open>A client joins just after a change, another change overtakes its replay, and it receives both.\<close>

definition overtaken :: hub_system where
  "overtaken = the (hub_acts [Send 5 (reloaded ''a''), Register 6 1, Send 7 (reloaded ''b''), Replay 1, Receive 1, Receive 1]
     (start_system ''dev''))"

text \<open>A client joins just after a change, and eight more come before its replay.\<close>

definition hanging :: hub_system where
  "hanging = the (hub_acts ([Send 5 (reloaded ''a''), Register 6 1] @ replicate 8 (Send 7 (reloaded ''b''))) (start_system ''dev''))"

lemma overtaken_run: "hub_step\<^sup>*\<^sup>* (start_system ''dev'') overtaken" "gm_get (sy_phase overtaken) 1 = Some Streaming"
  "map ev_Source (gm_getd [] (sy_got overtaken) 1) = [''b'', ''a'']"
proof -
  show "hub_step\<^sup>*\<^sup>* (start_system ''dev'') overtaken"
    by (rule hub_acts_steps [of "[Send 5 (reloaded ''a''), Register 6 1, Send 7 (reloaded ''b''), Replay 1, Receive 1, Receive 1]"])
      code_simp
qed code_simp+

lemma hanging_run: "hub_step\<^sup>*\<^sup>* (start_system ''dev'') hanging"
  "stuck 1 (stamp 5 (NewHub ''dev'') (reloaded ''a'')) hanging"
proof -
  show "hub_step\<^sup>*\<^sup>* (start_system ''dev'') hanging"
    by (rule hub_acts_steps [of "[Send 5 (reloaded ''a''), Register 6 1] @ replicate 8 (Send 7 (reloaded ''b''))"]) code_simp
  have "gm_get (sy_phase hanging) 1 = Some (Replaying (stamp 5 (NewHub ''dev'') (reloaded ''a'')))"
    and "map_option (\<lambda>c. length (cn_buf c)) (gm_get (hb_chans (sy_hub hanging)) 1) = Some 8" by code_simp+
  then show "stuck 1 (stamp 5 (NewHub ''dev'') (reloaded ''a'')) hanging" by (auto simp: stuck_def)
qed

lemma hub_delivers_in_order_witness:
  "map ev_Source (gm_getd [] (sy_got overtaken) 1) = [''b'', ''a''] \<and>
   (\<exists>k. stream_ok k (sy_log overtaken) (gm_getd [] (sy_got overtaken) 1))"
  using hub_delivers_in_order [OF overtaken_run(1,2)] overtaken_run(3) by blast

lemma hub_broadcast_never_blocks_witness:
  "\<exists>h. Broadcast rev 9 (sy_hub hanging) (reloaded ''c'') = Does h"
  using hub_broadcast_never_blocks [OF hanging_run(1) is_range_rev, of 9 "reloaded ''c''"] by blast

lemma hub_subscribe_hangs_witness:
  "gm_get (sy_phase hanging) 1 = Some (Replaying (stamp 5 (NewHub ''dev'') (reloaded ''a''))) \<and>
   chan_send 1 (stamp 5 (NewHub ''dev'') (reloaded ''a'')) (sy_hub hanging) = Waits"
  using hub_subscribe_hangs [OF hanging_run rtranclp.rtrancl_refl] .

end
