(* ===== verification/Hmr_Stream.thy ===== *)
theory Hmr_Stream
  imports Hmr
begin

text \<open>
  What reaches the browser: the events survive the codec, base64 and the framing of the stream, and the
  script is put before the end of the page's body.
\<close>

section \<open>The codec\<close>

text \<open>
  The FlatBuffers contract: the field of a finished table at the offset of a slot is what was put into the
  slot, absent if nothing was; a table has at least its root offset.
\<close>

definition fb_law :: "flatbuffers \<Rightarrow> bool" where
  "fb_law fb \<longleftrightarrow> (\<forall>slots. distinct (map fst slots) \<longrightarrow> length (fb_finish fb slots) \<ge> 4 \<and>
     (\<forall>i. fb_String fb (fb_finish fb slots) (4 + 2 * i) = (case map_of slots i of Some (FbString s) \<Rightarrow> Some s | _ \<Rightarrow> None) \<and>
          fb_Uint16 fb (fb_finish fb slots) (4 + 2 * i) = (case map_of slots i of Some (FbUint16 w) \<Rightarrow> Some w | _ \<Rightarrow> None) \<and>
          fb_Uint64 fb (fb_finish fb slots) (4 + 2 * i) = (case map_of slots i of Some (FbUint64 w) \<Rightarrow> Some w | _ \<Rightarrow> None)))"

lemma fb_lawD:
  assumes "fb_law fb" "distinct (map fst slots)"
  shows "length (fb_finish fb slots) \<ge> 4"
    and "fb_String fb (fb_finish fb slots) (4 + 2 * i) = (case map_of slots i of Some (FbString s) \<Rightarrow> Some s | _ \<Rightarrow> None)"
    and "fb_Uint16 fb (fb_finish fb slots) (4 + 2 * i) = (case map_of slots i of Some (FbUint16 w) \<Rightarrow> Some w | _ \<Rightarrow> None)"
    and "fb_Uint64 fb (fb_finish fb slots) (4 + 2 * i) = (case map_of slots i of Some (FbUint64 w) \<Rightarrow> Some w | _ \<Rightarrow> None)"
  using assms by (auto simp: fb_law_def)

lemma decode_encode: 
  assumes law: "fb_law fb"
  shows "decodeEvent fb (encodeEvent fb ev) = ev"
proof -
  define slots where "slots = (let b = [(7, FbString (ev_BuildID ev))] @
      PrependUint16Slot 6 (ev_SchemaMinor ev) 0 (PrependUint16Slot 5 (ev_SchemaMajor ev) 0
        [(4, FbString (ev_Route ev)), (3, FbString (ev_Source ev)), (2, FbString (ev_Payload ev)),
         (1, FbString (ev_Target ev)), (0, FbString (ev_Kind ev))]) in PrependUint64Slot 8 (ev_TS ev) 0 b)"
  have enc: "encodeEvent fb ev = fb_finish fb slots" by (simp add: encodeEvent_def slots_def Let_def)
  have d: "distinct (map fst slots)" by (simp add: slots_def PrependUint16Slot_def PrependUint64Slot_def Let_def)
  have m: "map_of slots 0 = Some (FbString (ev_Kind ev))" "map_of slots 1 = Some (FbString (ev_Target ev))"
    "map_of slots 2 = Some (FbString (ev_Payload ev))" "map_of slots 3 = Some (FbString (ev_Source ev))"
    "map_of slots 4 = Some (FbString (ev_Route ev))" "map_of slots 7 = Some (FbString (ev_BuildID ev))"
    "map_of slots 5 = (if ev_SchemaMajor ev = 0 then None else Some (FbUint16 (ev_SchemaMajor ev)))"
    "map_of slots 6 = (if ev_SchemaMinor ev = 0 then None else Some (FbUint16 (ev_SchemaMinor ev)))"
    "map_of slots 8 = (if ev_TS ev = 0 then None else Some (FbUint64 (ev_TS ev)))"
    by (simp_all add: slots_def PrependUint16Slot_def PrependUint64Slot_def Let_def)
  note l = fb_lawD [OF law d]
  show ?thesis
    using l(1) l(2) [of 0] l(2) [of 1] l(2) [of 2] l(2) [of 3] l(2) [of 4] l(2) [of 7] l(3) [of 5] l(3) [of 6] l(4) [of 8]
    by (simp add: enc decodeEvent_def tableString_def tableUshort_def tableUlong_def m del: One_nat_def)
qed

text \<open>A library that keeps the contract: the slots as text, one after the other.\<close>

definition unary :: "nat \<Rightarrow> string" where
  "unary n = replicate n CHR ''1''"

definition text_of_slot :: "nat \<times> fb_value \<Rightarrow> nat list" where
  "text_of_slot sl = fst sl # (case snd sl of FbString s \<Rightarrow> 0 # map of_char s | FbUint16 w \<Rightarrow> [1, unat w] | FbUint64 w \<Rightarrow> [2, unat w])"

fun slot_of_text :: "nat list \<Rightarrow> nat \<times> fb_value" where
  "slot_of_text (i # 0 # s) = (i, FbString (map char_of s))"
| "slot_of_text (i # Suc 0 # s) = (i, FbUint16 (of_nat (hd s)))"
| "slot_of_text (i # Suc (Suc _) # s) = (i, FbUint64 (of_nat (hd s)))"
| "slot_of_text _ = (0, FbString [])"

definition text_of_slots :: "fb_slots \<Rightarrow> string" where
  "text_of_slots slots = Join (''....'' # map (\<lambda>sl. Join (map unary (text_of_slot sl)) '','') slots) '';''"

definition slots_of_text :: "string \<Rightarrow> fb_slots" where
  "slots_of_text t = map (\<lambda>p. slot_of_text (map length (Split p CHR '',''))) (tl (Split t CHR '';''))"

lemma slot_of_text_of: "slot_of_text (text_of_slot sl) = sl"
  by (cases sl; cases "snd sl") (simp_all add: text_of_slot_def comp_def numeral_2_eq_2)

lemma unary_plain: "c \<noteq> CHR ''1'' \<Longrightarrow> c \<notin> set (unary n)"
  by (simp add: unary_def)

lemma Split_commas: "ns \<noteq> [] \<Longrightarrow> Split (Join (map unary ns) '','') CHR '','' = map unary ns"
  by (rule Split_Join) (auto simp: unary_plain)

lemma Join_no_sep: "c \<notin> set sep \<Longrightarrow> \<forall>p \<in> set ps. c \<notin> set p \<Longrightarrow> c \<notin> set (Join ps sep)"
  by (induction ps sep rule: Join.induct) auto

lemma commas_no_semi: "CHR '';'' \<notin> set (Join (map unary ns) '','')"
  by (rule Join_no_sep) (auto simp: unary_plain)

lemma slots_of_text_of: "slots_of_text (text_of_slots slots) = slots"
proof -
  have "Split (text_of_slots slots) CHR '';'' = ''....'' # map (\<lambda>sl. Join (map unary (text_of_slot sl)) '','') slots"
    unfolding text_of_slots_def by (rule Split_Join) (auto simp: commas_no_semi)
  moreover have "text_of_slot sl \<noteq> []" for sl by (simp add: text_of_slot_def)
  ultimately show ?thesis
    by (simp add: slots_of_text_def comp_def Split_commas unary_def slot_of_text_of)
qed

definition text_flatbuffers :: flatbuffers where
  "text_flatbuffers = \<lparr>fb_finish = text_of_slots,
     fb_String = \<lambda>t off. (case map_of (slots_of_text t) ((off - 4) div 2) of Some (FbString s) \<Rightarrow> Some s | _ \<Rightarrow> None),
     fb_Uint16 = \<lambda>t off. (case map_of (slots_of_text t) ((off - 4) div 2) of Some (FbUint16 w) \<Rightarrow> Some w | _ \<Rightarrow> None),
     fb_Uint64 = \<lambda>t off. (case map_of (slots_of_text t) ((off - 4) div 2) of Some (FbUint64 w) \<Rightarrow> Some w | _ \<Rightarrow> None)\<rparr>"

lemma text_flatbuffers_law: "fb_law text_flatbuffers"
proof -
  have "length (text_of_slots slots) \<ge> 4" for slots
    by (cases slots) (simp_all add: text_of_slots_def)
  then show ?thesis by (simp add: fb_law_def text_flatbuffers_def slots_of_text_of)
qed

section \<open>Base64\<close>

text \<open>\<open>base64ToBytes\<close> of the client: groups of four characters, the last of them perhaps padded.\<close>

definition b64_val :: "char \<Rightarrow> nat" where
  "b64_val c = the (IndexByte b64_alphabet c)"

fun unbase64 :: "string \<Rightarrow> string" where
  "unbase64 (a # b # c # d # rest) =
     (let n = b64_val a * 4 + b64_val b div 16
      in if c = CHR ''='' then [char_of n]
         else let m = b64_val b mod 16 * 16 + b64_val c div 4
           in if d = CHR ''='' then [char_of n, char_of m]
              else [char_of n, char_of m, char_of (b64_val c mod 4 * 64 + b64_val d)] @ unbase64 rest)"
| "unbase64 _ = []"

lemma b64_chars: "n < 64 \<Longrightarrow> b64_val (b64_char n) = n \<and> b64_char n \<noteq> CHR ''='' \<and> b64_char n \<noteq> newline"
proof -
  have "list_all (\<lambda>n. b64_val (b64_char n) = n \<and> b64_char n \<noteq> CHR ''='' \<and> b64_char n \<noteq> newline) [0..<64]" by code_simp
  then show "n < 64 \<Longrightarrow> ?thesis" by (simp add: list_all_iff)
qed

lemma six_bits:
  fixes a b c :: nat
  assumes "a < 256" "b < 256" "c < 256"
  shows "a div 4 < 64" "a mod 4 * 16 + b div 16 < 64" "a mod 4 * 16 < 64" "b mod 16 * 4 < 64"
    "b mod 16 * 4 + c div 64 < 64"
    and "(a mod 4 * 16 + b div 16) div 16 = a mod 4" "(a mod 4 * 16 + b div 16) mod 16 = b div 16"
    and "(b mod 16 * 4 + c div 64) div 4 = b mod 16" "(b mod 16 * 4 + c div 64) mod 4 = c div 64"
proof -
  have "b div 16 < 16" "a mod 4 < 4" "b mod 16 < 16" "c div 64 < 4" using assms by simp_all
  then show "a mod 4 * 16 + b div 16 < 64" "a mod 4 * 16 < 64" "b mod 16 * 4 < 64" "b mod 16 * 4 + c div 64 < 64"
    "(a mod 4 * 16 + b div 16) div 16 = a mod 4" "(a mod 4 * 16 + b div 16) mod 16 = b div 16"
    "(b mod 16 * 4 + c div 64) div 4 = b mod 16" "(b mod 16 * 4 + c div 64) mod 4 = c div 64"
    by simp_all
  show "a div 4 < 64" using assms by simp
qed

lemma unbase64_base64: "unbase64 (base64 s) = s"
proof (induction s rule: base64.induct)
  case (2 a)
  then show ?case using six_bits [OF nat_of_char_less_256 [of a] nat_of_char_less_256 [of a] nat_of_char_less_256 [of a]]
    by (simp add: b64_chars Let_def)
next
  case (3 a b)
  then show ?case using six_bits [OF nat_of_char_less_256 [of a] nat_of_char_less_256 [of b] nat_of_char_less_256 [of b]]
    by (simp add: b64_chars Let_def)
next
  case (4 a b c rest)
  then show ?case using six_bits [OF nat_of_char_less_256 [of a] nat_of_char_less_256 [of b] nat_of_char_less_256 [of c]]
    by (simp add: b64_chars Let_def)
qed simp

lemma base64_no_newline: "newline \<notin> set (base64 s)"
proof -
  have ne: "newline \<noteq> b64_char n" if "n < 64" for n using b64_chars [OF that] by auto
  show ?thesis
  proof (induction s rule: base64.induct)
    case (2 a)
    then show ?case using six_bits [OF nat_of_char_less_256 [of a] nat_of_char_less_256 nat_of_char_less_256]
      by (simp add: ne Let_def)
  next
    case (3 a b)
    then show ?case using six_bits [OF nat_of_char_less_256 [of a] nat_of_char_less_256 [of b] nat_of_char_less_256]
      by (simp add: ne Let_def)
  next
    case (4 a b c rest)
    then show ?case using six_bits [OF nat_of_char_less_256 [of a] nat_of_char_less_256 [of b] nat_of_char_less_256 [of c]]
      by (simp add: ne Let_def)
  qed simp
qed

section \<open>The stream\<close>

text \<open>
  The browser's \<open>EventSource\<close>, after the standard: the lines of an event set its type and its data, a blank
  line dispatches it if it has data, a line that starts with a colon is a comment.
\<close>

fun event_source :: "string list \<Rightarrow> string \<Rightarrow> string option \<Rightarrow> (string \<times> string) list" where
  "event_source [] ty data = []"
| "event_source (l # ls) ty data =
     (if l = [] then (case data of None \<Rightarrow> [] | Some d \<Rightarrow> [(ty, d)]) @ event_source ls ''message'' None
      else if HasPrefix l '':'' then event_source ls ty data
      else if HasPrefix l ''event: '' then event_source ls (TrimPrefix l ''event: '') data
      else if HasPrefix l ''data: '' then
        event_source ls ty (Some ((case data of None \<Rightarrow> [] | Some d \<Rightarrow> d @ [newline]) @ TrimPrefix l ''data: ''))
      else event_source ls ty data)"

definition sse_events :: "string \<Rightarrow> (string \<times> string) list" where
  "sse_events body = event_source (Split body newline) ''message'' None"

lemma sse_Nil: "sse_events [] = []"
  by (simp add: sse_events_def)

lemma sse_event: "newline \<notin> set d \<Longrightarrow>
    sse_events (''event: fb'' @ [newline] @ ''data: '' @ d @ [newline, newline] @ rest) = (''fb'', d) # sse_events rest"
  using Split_append [of newline "''event: fb''" "''data: '' @ d @ [newline, newline] @ rest"]
    Split_append [of newline "''data: '' @ d" "newline # rest"] Split_append [of newline "[]" rest]
  by (simp add: sse_events_def TrimPrefix_def HasPrefix_def)

lemma sse_other: "newline \<notin> set l \<Longrightarrow> l \<noteq> [] \<Longrightarrow> HasPrefix l '':'' \<or> l = ''retry: 1000'' \<Longrightarrow>
    sse_events (l @ [newline, newline] @ rest) = sse_events rest"
  using Split_append [of newline l "newline # rest"] Split_append [of newline "[]" rest]
  by (auto simp: sse_events_def HasPrefix_def)

lemma sse_writeEvent: "sse_events (writeEvent fb ev @ rest) = (''fb'', base64 (encodeEvent fb ev)) # sse_events rest"
  using sse_event [OF base64_no_newline] by (simp add: writeEvent_def)

lemma digits_no_newline: "newline \<notin> set (digits n)"
proof (induction n rule: digits.induct)
  case (1 n)
  have "newline \<noteq> char_of (48 + k)" if "k < 10" for k :: nat
  proof
    assume "newline = char_of (48 + k)"
    then have "(of_char newline :: nat) = of_char (char_of (48 + k) :: char)" by simp
    then show False using that by simp
  qed
  then show ?case using 1 by (subst digits.simps) auto
qed

lemma Itoa_no_newline: "newline \<notin> set (Itoa n)"
  by (simp add: Itoa_def digits_no_newline)

text \<open>What the handler takes from its channel before it returns.\<close>

fun taken :: "select list \<Rightarrow> Event list" where
  "taken [] = []"
| "taken (ContextDone # _) = []"
| "taken (Tick _ # rest) = taken rest"
| "taken (FromHub None # _) = []"
| "taken (FromHub (Some ev) # rest) = ev # taken rest"

lemma sse_handler_loop: "sse_events (handler_loop fb selects) =
    map (\<lambda>ev. (''fb'', base64 (encodeEvent fb ev))) (taken selects)"
proof (induction fb selects rule: handler_loop.induct)
  case (3 fb now rest)
  have "sse_events ((['':'' ! 0] @ '' keep-alive '' @ Itoa now) @ [newline, newline] @ handler_loop fb rest) =
    sse_events (handler_loop fb rest)"
    by (rule sse_other) (auto simp: Itoa_no_newline HasPrefix_def)
  then show ?case using 3 by simp
qed (simp_all add: sse_Nil sse_writeEvent)

definition received :: "flatbuffers \<Rightarrow> string \<Rightarrow> (string \<times> Event) list" where
  "received fb body = map (\<lambda>(ty, d). (ty, decodeEvent fb (unbase64 d))) (sse_events body)"



section \<open>The client script\<close>

text \<open>
  The script goes into an ASCII page exactly once, just before the last \<open></body>\<close> in any letter case,
  or at the end of a page that has none; nothing else of the page changes.\<close>

lemma script_before_body_end:
  assumes "ascii html"
  shows "if sublist ''</body>'' (map lower_byte html)
    then \<exists>pre post. html = pre @ post \<and> prefix ''</body>'' (map lower_byte post) \<and>
      \<not> sublist ''</body>'' (map lower_byte (tl post)) \<and> InjectClientScript html = Some (pre @ client_tag @ post)
    else InjectClientScript html = Some (html @ client_tag)"
proof (cases "LastIndex (map lower_byte html) ''</body>''")
  case None
  moreover from this have "\<not> sublist ''</body>'' (map lower_byte html)" by (simp only: LastIndex_None_iff not_False_eq_True)
  ultimately show ?thesis using assms by (simp add: InjectClientScript_def ToLower_ascii)
next
  case (Some i)
  from LastIndex_Some [OF this] have i: "i + 7 \<le> length html" "prefix ''</body>'' (map lower_byte (drop i html))"
    "\<not> sublist ''</body>'' (map lower_byte (tl (drop i html)))"
    by (simp_all add: drop_map drop_Suc tl_drop map_tl)
  moreover have "InjectClientScript html = Some (take i html @ client_tag @ drop i html)"
    using Some assms i(1) by (simp add: InjectClientScript_def ToLower_ascii)
  moreover have "sublist ''</body>'' (map lower_byte html)" using Some by (metis LastIndex_None_iff option.distinct(1))
  ultimately show ?thesis by (metis append_take_drop_id)
qed

lemma script_before_body_end_witness:
  "(\<exists>pre post. ''<p>a</BODY>b</Body>'' = pre @ post \<and> prefix ''</body>'' (map lower_byte post) \<and>
      \<not> sublist ''</body>'' (map lower_byte (tl post)) \<and>
      InjectClientScript ''<p>a</BODY>b</Body>'' = Some (pre @ client_tag @ post)) \<and>
   InjectClientScript ''<p>a'' = Some (''<p>a'' @ client_tag)"
proof -
  have "ascii ''<p>a</BODY>b</Body>''" "ascii ''<p>a''" by code_simp+
  moreover have "sublist ''</body>'' (map lower_byte ''<p>a</BODY>b</Body>'')"
    "\<not> sublist ''</body>'' (map lower_byte ''<p>a'')" by code_simp+
  ultimately show ?thesis
    using script_before_body_end [of "''<p>a</BODY>b</Body>''"] script_before_body_end [of "''<p>a''"]
    by (simp only: if_True if_False simp_thms)
qed

text \<open>The index is one of the lowercased page: a page with runes that grow when they are lowercased can make
  the slice panic.\<close>

lemma script_panics: "InjectClientScript (concat (replicate 8 [CHR 0xC8, CHR 0xBA]) @ ''</body>'') = None"
  by code_simp

text \<open>Runes that shrink put the script in front of the tag's place, here inside of the text.\<close>

lemma script_misplaced:
  "InjectClientScript ([CHR 0xE2, CHR 0x84, CHR 0xAA] @ ''ab</body>'') =
     Some ([CHR 0xE2, CHR 0x84, CHR 0xAA] @ client_tag @ ''ab</body>'')"
  by code_simp

end
