(* ===== verification/Sqlite_Store.thy ===== *)
theory Sqlite_Store
  imports Policy_Versions Governance
begin

text \<open>
  The SQLite backend of the control plane (\<open>sqlite_store.go\<close>): the deployment ledger and the policy
  versions as rows of one database. The database engine is a parameter, and so is \<open>encoding/json\<close> on
  a manifest or a version record; the statements are data, one constructor for each SQL text of the source.
\<close>

section \<open>The database and the JSON codec\<close>

datatype sql_stmt =
    Delete_current | Delete_history | Delete_policies
  | Insert_current string string string
  | Insert_history string string int string
  | Insert_policy string string int string
  | Schema nat
  | Record_version int

datatype sql_query = Select_current | Select_history | Select_policies

text \<open>Every query yields rows of two texts and a blob, scanned one by one, and then the error of the rows.\<close>

type_synonym sql_rows = "(string + string \<times> string \<times> string) list \<times> error"

record 'd sqldb =
  sd_Begin :: "'d \<Rightarrow> 'd \<times> error"
  sd_Exec :: "sql_stmt \<Rightarrow> 'd \<Rightarrow> 'd \<times> error"
  sd_Commit :: "'d \<Rightarrow> 'd \<times> error"
  sd_Rollback :: "'d \<Rightarrow> 'd"
  sd_Query :: "sql_query \<Rightarrow> 'd \<Rightarrow> string + sql_rows"
  sd_LatestVersion :: "'d \<Rightarrow> string + int"
  sd_AnyVersion :: "'d \<Rightarrow> string + int"
  sd_Open :: "string \<Rightarrow> 'd \<Rightarrow> 'd \<times> error"
  sd_Pragma :: "string \<Rightarrow> 'd \<Rightarrow> 'd \<times> error"
  sd_Close :: "'d \<Rightarrow> 'd"

record 'm json =
  js_Marshal :: "'m \<Rightarrow> string + string"
  js_Unmarshal :: "string \<Rightarrow> string + 'm"

text \<open>Steps that can fail, one after the other.\<close>

definition and_then :: "'d \<times> error \<Rightarrow> ('d \<Rightarrow> 'd \<times> error) \<Rightarrow> 'd \<times> error" where
  "and_then r f = (case r of (d, Some e) \<Rightarrow> (d, Some e) | (d, None) \<Rightarrow> f d)"

definition wrap_db :: "string \<Rightarrow> 'd \<times> error \<Rightarrow> 'd \<times> error" where
  "wrap_db msg r = (case r of (d, Some e) \<Rightarrow> (d, errorf (msg @ '': '' @ e)) | (d, None) \<Rightarrow> (d, nil))"

lemma and_then_nil: "snd (and_then r f) = nil \<longleftrightarrow> snd r = nil \<and> snd (f (fst r)) = nil"
  by (cases r; cases "snd r") (auto simp: and_then_def)

lemma and_then_fst: "snd r = nil \<Longrightarrow> fst (and_then r f) = fst (f (fst r))"
  by (cases r) (simp add: and_then_def)

lemma wrap_db_simps [simp]: "snd (wrap_db msg r) = nil \<longleftrightarrow> snd r = nil" "fst (wrap_db msg r) = fst r"
  by (cases r; cases "snd r"; auto simp: wrap_db_def)+

text \<open>
  A transaction: every return after \<open>Begin\<close> runs the deferred \<open>Rollback\<close>, which does nothing after a
  \<open>Commit\<close> or an earlier \<open>Rollback\<close>.
\<close>

definition transaction :: "'d sqldb \<Rightarrow> ('d \<Rightarrow> 'd \<times> error) \<Rightarrow> ('d \<times> error \<Rightarrow> 'd \<times> error) \<Rightarrow> 'd \<Rightarrow> 'd \<times> error" where
  "transaction db body committed d =
     (case sd_Begin db d of
        (d, Some e) \<Rightarrow> (d, errorf (''begin transaction: '' @ e))
      | (d, None) \<Rightarrow>
          (case body d of
             (d, Some e) \<Rightarrow> (sd_Rollback db d, Some e)
           | (d, None) \<Rightarrow> committed (sd_Commit db d)))"

section \<open>Saving the ledger\<close>

text \<open>The orders in which Go ranges over the outer and the inner maps of the ledger.\<close>

record ledger_order =
  lo_current :: "DeploymentManifest gomap2 \<Rightarrow> DeploymentManifest gomap2"
  lo_manifests :: "string \<Rightarrow> (string, DeploymentManifest) gomap \<Rightarrow> (string, DeploymentManifest) gomap"
  lo_history :: "DeploymentManifest list gomap2 \<Rightarrow> DeploymentManifest list gomap2"
  lo_histories :: "string \<Rightarrow> (string, DeploymentManifest list) gomap \<Rightarrow> (string, DeploymentManifest list) gomap"

fun insert_envs :: "'d sqldb \<Rightarrow> DeploymentManifest json \<Rightarrow> string \<Rightarrow> (string, DeploymentManifest) gomap \<Rightarrow> 'd \<Rightarrow> 'd \<times> error" where
  "insert_envs db js service [] d = (d, nil)"
| "insert_envs db js service ((env, manifest) # envs) d =
     (case js_Marshal js manifest of
        Inl e \<Rightarrow> (d, errorf (''marshal manifest: '' @ e))
      | Inr raw \<Rightarrow>
          and_then (wrap_db ''insert current'' (sd_Exec db (Insert_current service env raw) d))
            (insert_envs db js service envs))"

fun insert_current :: "'d sqldb \<Rightarrow> DeploymentManifest json \<Rightarrow> ledger_order \<Rightarrow> DeploymentManifest gomap2 \<Rightarrow> 'd \<Rightarrow> 'd \<times> error" where
  "insert_current db js lo [] d = (d, nil)"
| "insert_current db js lo ((service, envs) # m) d =
     and_then (insert_envs db js service (lo_manifests lo service envs) d) (insert_current db js lo m)"

fun insert_manifests :: "'d sqldb \<Rightarrow> DeploymentManifest json \<Rightarrow> string \<Rightarrow> string \<Rightarrow> nat \<Rightarrow> DeploymentManifest list \<Rightarrow> 'd \<Rightarrow> 'd \<times> error" where
  "insert_manifests db js service env i [] d = (d, nil)"
| "insert_manifests db js service env i (manifest # manifests) d =
     (case js_Marshal js manifest of
        Inl e \<Rightarrow> (d, errorf (''marshal history manifest: '' @ e))
      | Inr raw \<Rightarrow>
          and_then (wrap_db ''insert history'' (sd_Exec db (Insert_history service env (int i) raw) d))
            (insert_manifests db js service env (Suc i) manifests))"

fun insert_histories :: "'d sqldb \<Rightarrow> DeploymentManifest json \<Rightarrow> string \<Rightarrow> (string, DeploymentManifest list) gomap \<Rightarrow> 'd \<Rightarrow> 'd \<times> error" where
  "insert_histories db js service [] d = (d, nil)"
| "insert_histories db js service ((env, manifests) # envs) d =
     and_then (insert_manifests db js service env 0 manifests d) (insert_histories db js service envs)"

fun insert_history :: "'d sqldb \<Rightarrow> DeploymentManifest json \<Rightarrow> ledger_order \<Rightarrow> DeploymentManifest list gomap2 \<Rightarrow> 'd \<Rightarrow> 'd \<times> error" where
  "insert_history db js lo [] d = (d, nil)"
| "insert_history db js lo ((service, envs) # m) d =
     and_then (insert_histories db js service (lo_histories lo service envs) d) (insert_history db js lo m)"

definition ledger_body :: "'d sqldb \<Rightarrow> DeploymentManifest json \<Rightarrow> ledger_order \<Rightarrow> DeploymentLedgerState \<Rightarrow> 'd \<Rightarrow> 'd \<times> error" where
  "ledger_body db js lo state d =
     and_then (and_then (and_then
       (wrap_db ''clear current'' (sd_Exec db Delete_current d))
       (\<lambda>d. wrap_db ''clear history'' (sd_Exec db Delete_history d)))
       (insert_current db js lo (lo_current lo (ls_Current state))))
       (insert_history db js lo (lo_history lo (ls_History state)))"

definition sqlite_Save :: "'d sqldb \<Rightarrow> DeploymentManifest json \<Rightarrow> ledger_order \<Rightarrow> 'd \<Rightarrow> DeploymentLedgerState \<Rightarrow> 'd \<times> error" where
  "sqlite_Save db js lo d state = transaction db (ledger_body db js lo state) (wrap_db ''commit'') d"

section \<open>Loading the ledger\<close>

fun load_current :: "DeploymentManifest json \<Rightarrow> sql_rows \<Rightarrow> DeploymentManifest gomap2 \<Rightarrow> string + DeploymentManifest gomap2" where
  "load_current js ([], err) m = (case err of None \<Rightarrow> Inr m | Some e \<Rightarrow> Inl e)"
| "load_current js (Inl e # rows, err) m = Inl (''scan current: '' @ e)"
| "load_current js (Inr (service, env, raw) # rows, err) m =
     (case js_Unmarshal js raw of
        Inl e \<Rightarrow> Inl (''unmarshal current manifest: '' @ e)
      | Inr manifest \<Rightarrow> load_current js (rows, err) (gm2_put service env manifest m))"

fun load_history :: "DeploymentManifest json \<Rightarrow> sql_rows \<Rightarrow> DeploymentManifest list gomap2 \<Rightarrow> string + DeploymentManifest list gomap2" where
  "load_history js ([], err) m = (case err of None \<Rightarrow> Inr m | Some e \<Rightarrow> Inl e)"
| "load_history js (Inl e # rows, err) m = Inl (''scan history: '' @ e)"
| "load_history js (Inr (service, env, raw) # rows, err) m =
     (case js_Unmarshal js raw of
        Inl e \<Rightarrow> Inl (''unmarshal history manifest: '' @ e)
      | Inr manifest \<Rightarrow> load_history js (rows, err) (gm2_put service env (history_of m service env @ [manifest]) m))"

definition sqlite_Load :: "'d sqldb \<Rightarrow> DeploymentManifest json \<Rightarrow> 'd \<Rightarrow> string + DeploymentLedgerState" where
  "sqlite_Load db js d =
     (case sd_Query db Select_current d of
        Inl e \<Rightarrow> Inl (''query current: '' @ e)
      | Inr rows \<Rightarrow>
          (case load_current js rows [] of
             Inl e \<Rightarrow> Inl e
           | Inr current \<Rightarrow>
               (case sd_Query db Select_history d of
                  Inl e \<Rightarrow> Inl (''query history: '' @ e)
                | Inr hrows \<Rightarrow>
                    (case load_history js hrows [] of
                       Inl e \<Rightarrow> Inl e
                     | Inr history \<Rightarrow> Inr \<lparr>ls_Current = current, ls_History = history\<rparr>))))"

section \<open>The policy versions\<close>

fun splitPolicyKey :: "string \<Rightarrow> string \<times> string" where
  "splitPolicyKey [] = ([], [])"
| "splitPolicyKey (c # key) =
     (if c = CHR ''/'' then ([], key)
      else case splitPolicyKey key of (name, environment) \<Rightarrow> (c # name, environment))"

fun insert_records :: "'d sqldb \<Rightarrow> PolicyVersionRecord json \<Rightarrow> string \<times> string \<Rightarrow> PolicyVersionRecord list \<Rightarrow> 'd \<Rightarrow> 'd \<times> error" where
  "insert_records db js parts [] d = (d, nil)"
| "insert_records db js parts (record # records) d =
     (case js_Marshal js record of
        Inl e \<Rightarrow> (d, errorf (''marshal policy record: '' @ e))
      | Inr raw \<Rightarrow>
          and_then (wrap_db ''insert policy record'' (sd_Exec db (Insert_policy (fst parts) (snd parts) (vr_Version record) raw) d))
            (insert_records db js parts records))"

fun insert_policies :: "'d sqldb \<Rightarrow> PolicyVersionRecord json \<Rightarrow> PolicyVersionState \<Rightarrow> 'd \<Rightarrow> 'd \<times> error" where
  "insert_policies db js [] d = (d, nil)"
| "insert_policies db js ((key, versions) # m) d =
     and_then (insert_records db js (splitPolicyKey key) versions d) (insert_policies db js m)"

definition sqlitePolicy_Save :: "'d sqldb \<Rightarrow> PolicyVersionRecord json \<Rightarrow> (PolicyVersionState \<Rightarrow> PolicyVersionState)
    \<Rightarrow> 'd \<Rightarrow> PolicyVersionState \<Rightarrow> 'd \<times> error" where
  "sqlitePolicy_Save db js it d state =
     transaction db
       (\<lambda>d. and_then (wrap_db ''clear policy versions'' (sd_Exec db Delete_policies d)) (insert_policies db js (it state)))
       (\<lambda>r. r) d"

fun load_policies :: "PolicyVersionRecord json \<Rightarrow> sql_rows \<Rightarrow> PolicyVersionState \<Rightarrow> string + PolicyVersionState" where
  "load_policies js ([], err) m = (case err of None \<Rightarrow> Inr m | Some e \<Rightarrow> Inl e)"
| "load_policies js (Inl e # rows, err) m = Inl (''scan policy record: '' @ e)"
| "load_policies js (Inr (name, env, raw) # rows, err) m =
     (case js_Unmarshal js raw of
        Inl e \<Rightarrow> Inl (''unmarshal policy record: '' @ e)
      | Inr record \<Rightarrow>
          (let key = name @ ''/'' @ env in load_policies js (rows, err) (gm_put key (gm_getd [] m key @ [record]) m)))"

definition sqlitePolicy_Load :: "'d sqldb \<Rightarrow> PolicyVersionRecord json \<Rightarrow> 'd \<Rightarrow> string + PolicyVersionState" where
  "sqlitePolicy_Load db js d =
     (case sd_Query db Select_policies d of
        Inl e \<Rightarrow> Inl (''query policy versions: '' @ e)
      | Inr rows \<Rightarrow> load_policies js rows [])"

section \<open>Opening and migrating\<close>

abbreviation (input) schema_count :: nat where "schema_count \<equiv> 1"

definition migrate_step :: "'d sqldb \<Rightarrow> nat \<Rightarrow> 'd \<Rightarrow> 'd \<times> error" where
  "migrate_step db v d =
     (case sd_Begin db d of
        (d, Some e) \<Rightarrow> (d, errorf (''begin migration '' @ Itoa (int (v + 1)) @ '': '' @ e))
      | (d, None) \<Rightarrow>
          (case sd_Exec db (Schema v) d of
             (d, Some e) \<Rightarrow> (sd_Rollback db d, errorf (''apply schema version '' @ Itoa (int (v + 1)) @ '': '' @ e))
           | (d, None) \<Rightarrow>
               (case sd_Exec db (Record_version (int (v + 1))) d of
                  (d, Some e) \<Rightarrow> (sd_Rollback db d, errorf (''record schema version '' @ Itoa (int (v + 1)) @ '': '' @ e))
                | (d, None) \<Rightarrow> wrap_db (''commit migration '' @ Itoa (int (v + 1))) (sd_Commit db d))))"

text \<open>
  The loop from \<open>v\<close> up to the number of schemas. A negative version, which no binary writes, makes the
  code index \<open>controlPlaneSchema\<close> out of range; it is outside of the model.
\<close>

fun migrations :: "'d sqldb \<Rightarrow> nat list \<Rightarrow> 'd \<Rightarrow> 'd \<times> error" where
  "migrations db [] d = (d, nil)"
| "migrations db (v # vs) d = and_then (migrate_step db v d) (migrations db vs)"

definition migrateControlPlaneSchema :: "'d sqldb \<Rightarrow> 'd \<Rightarrow> 'd \<times> error" where
  "migrateControlPlaneSchema db d =
     (let current = (case sd_LatestVersion db d of Inl _ \<Rightarrow> 0 | Inr v \<Rightarrow> v) in
      if current > int schema_count then
        (d, errorf (''unsupported sqlite schema version '' @ Itoa current @ '' (latest supported: '' @ Itoa (int schema_count) @ '')''))
      else migrations db [nat current..<schema_count] d)"

definition pragmas :: "string list" where
  "pragmas = [''PRAGMA journal_mode=WAL'', ''PRAGMA busy_timeout=5000'', ''PRAGMA synchronous=NORMAL'', ''PRAGMA foreign_keys=ON'']"

fun apply_pragmas :: "'d sqldb \<Rightarrow> string list \<Rightarrow> 'd \<Rightarrow> 'd \<times> error" where
  "apply_pragmas db [] d = (d, nil)"
| "apply_pragmas db (p # ps) d = and_then (wrap_db (''apply '' @ p) (sd_Pragma db p d)) (apply_pragmas db ps)"

definition openControlPlaneDB :: "'d sqldb \<Rightarrow> string \<Rightarrow> 'd \<Rightarrow> 'd \<times> error" where
  "openControlPlaneDB db path d =
     (if path = [] then (d, errorf ''sqlite database path is required'')
      else case sd_Open db path d of
          (d, Some e) \<Rightarrow> (d, errorf (''open sqlite database: '' @ e))
        | (d, None) \<Rightarrow>
            (case and_then (apply_pragmas db pragmas d) (migrateControlPlaneSchema db) of
               (d, Some e) \<Rightarrow> (sd_Close db d, Some e)
             | (d, None) \<Rightarrow> (d, nil)))"

definition SchemaVersion :: "'d sqldb \<Rightarrow> 'd \<Rightarrow> int" where
  "SchemaVersion db d = (case sd_AnyVersion db d of Inl _ \<Rightarrow> 0 | Inr v \<Rightarrow> v)"

text \<open>The stores as the control plane takes them.\<close>

definition sqlite_policy_store :: "'d sqldb \<Rightarrow> PolicyVersionRecord json \<Rightarrow> (PolicyVersionState \<Rightarrow> PolicyVersionState)
    \<Rightarrow> 'd PolicyVersionStore" where
  "sqlite_policy_store db js it = \<lparr>ps_Save = sqlitePolicy_Save db js it, ps_Load = sqlitePolicy_Load db js\<rparr>"

text \<open>
  \<open>sqliteStores\<close> opens one database file twice, once for each store, and closes the first when the second
  cannot be opened.
\<close>

definition sqliteStores :: "'d sqldb \<Rightarrow> string \<Rightarrow> 'd \<Rightarrow> 'd \<times> error" where
  "sqliteStores db path d =
     (case openControlPlaneDB db path d of
        (d, Some e) \<Rightarrow> (d, errorf (''open sqlite deployment store: '' @ e))
      | (d, None) \<Rightarrow>
          (case openControlPlaneDB db path d of
             (d, Some e) \<Rightarrow> (sd_Close db d, errorf (''open sqlite policy store: '' @ e))
           | (d, None) \<Rightarrow> (d, nil)))"

end
