(* ===== verification/Sqlite_Safety.thy ===== *)
theory Sqlite_Safety
  imports Sqlite_Store "HOL-Library.Product_Lexorder"
begin

text \<open>
  What the SQLite stores guarantee, given the contract of the database: transactions are atomic, primary
  keys are unique, queries answer with the committed rows in the order asked for.
\<close>

section \<open>The contract of the database\<close>

record tables =
  tb_current :: "(string \<times> string \<times> string) list"
  tb_history :: "(string \<times> string \<times> int \<times> string) list"
  tb_policies :: "(string \<times> string \<times> int \<times> string) list"
  tb_versions :: "int list"

fun row_key :: "string \<times> string \<times> int \<times> string \<Rightarrow> string \<times> string \<times> int" where
  "row_key (a, b, i, raw) = (a, b, i)"

fun row_data :: "string \<times> string \<times> int \<times> string \<Rightarrow> string \<times> string \<times> string" where
  "row_data (a, b, i, raw) = (a, b, raw)"

fun pair_key :: "string \<times> string \<times> string \<Rightarrow> string \<times> string" where
  "pair_key (a, b, raw) = (a, b)"

text \<open>What a statement does to the tables; an insertion of a second row with a primary key fails.\<close>

fun sql_sem :: "sql_stmt \<Rightarrow> tables \<Rightarrow> tables option" where
  "sql_sem Delete_current t = Some (t\<lparr>tb_current := []\<rparr>)"
| "sql_sem Delete_history t = Some (t\<lparr>tb_history := []\<rparr>)"
| "sql_sem Delete_policies t = Some (t\<lparr>tb_policies := []\<rparr>)"
| "sql_sem (Insert_current a b raw) t =
     (if (a, b) \<in> pair_key ` set (tb_current t) then None else Some (t\<lparr>tb_current := tb_current t @ [(a, b, raw)]\<rparr>))"
| "sql_sem (Insert_history a b i raw) t =
     (if (a, b, i) \<in> row_key ` set (tb_history t) then None else Some (t\<lparr>tb_history := tb_history t @ [(a, b, i, raw)]\<rparr>))"
| "sql_sem (Insert_policy a b i raw) t =
     (if (a, b, i) \<in> row_key ` set (tb_policies t) then None else Some (t\<lparr>tb_policies := tb_policies t @ [(a, b, i, raw)]\<rparr>))"
| "sql_sem (Schema _) t = Some t"
| "sql_sem (Record_version v) t = Some (t\<lparr>tb_versions := tb_versions t @ [v]\<rparr>)"

text \<open>The rows of a query: all of the table, once each, and for the ordered queries by increasing primary key.\<close>

definition in_order :: "(string \<times> string \<times> int \<times> string) list \<Rightarrow> (string \<times> string \<times> string) list \<Rightarrow> bool" where
  "in_order rows rs \<longleftrightarrow> (\<exists>full. set full = set rows \<and> sorted_wrt (\<lambda>a b. row_key a < row_key b) full \<and> rs = map row_data full)"

fun answers :: "sql_query \<Rightarrow> tables \<Rightarrow> (string \<times> string \<times> string) list \<Rightarrow> bool" where
  "answers Select_current t rs \<longleftrightarrow> set rs = set (tb_current t) \<and> distinct (map pair_key rs)"
| "answers Select_history t rs \<longleftrightarrow> in_order (tb_history t) rs"
| "answers Select_policies t rs \<longleftrightarrow> in_order (tb_policies t) rs"

definition sqlite_law :: "'d sqldb \<Rightarrow> ('d \<Rightarrow> tables) \<Rightarrow> ('d \<Rightarrow> tables) \<Rightarrow> bool" where
  "sqlite_law db committed pending \<longleftrightarrow>
     (\<forall>d. committed (fst (sd_Begin db d)) = committed d \<and> (snd (sd_Begin db d) = nil \<longrightarrow> pending (fst (sd_Begin db d)) = committed d)) \<and>
     (\<forall>d st. committed (fst (sd_Exec db st d)) = committed d \<and>
        (snd (sd_Exec db st d) = nil \<longrightarrow> sql_sem st (pending d) = Some (pending (fst (sd_Exec db st d))))) \<and>
     (\<forall>d. committed (fst (sd_Commit db d)) = (if snd (sd_Commit db d) = nil then pending d else committed d)) \<and>
     (\<forall>d. committed (sd_Rollback db d) = committed d \<and> committed (sd_Close db d) = committed d) \<and>
     (\<forall>d p. committed (fst (sd_Open db p d)) = committed d \<and> committed (fst (sd_Pragma db p d)) = committed d) \<and>
     (\<forall>d q rs. sd_Query db q d = Inr (map Inr rs, nil) \<longrightarrow> answers q (committed d) rs) \<and>
     (\<forall>d v. sd_LatestVersion db d = Inr v \<longrightarrow> v \<in> set (tb_versions (committed d)) \<and> (\<forall>w \<in> set (tb_versions (committed d)). w \<le> v))"

lemma sqlite_lawD:
  assumes "sqlite_law db committed pending"
  shows "committed (fst (sd_Begin db d)) = committed d"
    and "snd (sd_Begin db d) = nil \<Longrightarrow> pending (fst (sd_Begin db d)) = committed d"
    and "committed (fst (sd_Exec db st d)) = committed d"
    and "snd (sd_Exec db st d) = nil \<Longrightarrow> sql_sem st (pending d) = Some (pending (fst (sd_Exec db st d)))"
    and "committed (fst (sd_Commit db d)) = (if snd (sd_Commit db d) = nil then pending d else committed d)"
    and "committed (sd_Rollback db d) = committed d" "committed (sd_Close db d) = committed d"
    and "committed (fst (sd_Open db p d)) = committed d" "committed (fst (sd_Pragma db p d)) = committed d"
    and "sd_Query db q d = Inr (map Inr rs, nil) \<Longrightarrow> answers q (committed d) rs"
    and "sd_LatestVersion db d = Inr v \<Longrightarrow> v \<in> set (tb_versions (committed d)) \<and> (\<forall>w \<in> set (tb_versions (committed d)). w \<le> v)"
  using assms unfolding sqlite_law_def by blast+

definition json_law :: "'m json \<Rightarrow> bool" where
  "json_law js \<longleftrightarrow> (\<forall>m raw. js_Marshal js m = Inr raw \<longrightarrow> js_Unmarshal js raw = Inr m)"

section \<open>Statements of a transaction\<close>

fun sems :: "sql_stmt list \<Rightarrow> tables \<Rightarrow> tables option" where
  "sems [] t = Some t"
| "sems (st # sts) t = (case sql_sem st t of None \<Rightarrow> None | Some t' \<Rightarrow> sems sts t')"

lemma sems_append: "sems (xs @ ys) t = (case sems xs t of None \<Rightarrow> None | Some t' \<Rightarrow> sems ys t')"
  by (induction xs t rule: sems.induct) (auto split: option.split)

definition ran :: "('d \<Rightarrow> tables) \<Rightarrow> ('d \<Rightarrow> tables) \<Rightarrow> 'd \<Rightarrow> sql_stmt list \<Rightarrow> 'd \<Rightarrow> bool" where
  "ran committed pending d sts d' \<longleftrightarrow> committed d' = committed d \<and> sems sts (pending d) = Some (pending d')"

lemma ran_Nil [simp]: "ran committed pending d [] d"
  by (simp add: ran_def)

lemma ran_append: "ran committed pending d xs d1 \<Longrightarrow> ran committed pending d1 ys d2 \<Longrightarrow> ran committed pending d (xs @ ys) d2"
  by (simp add: ran_def sems_append)

lemma ran_exec: "sqlite_law db committed pending \<Longrightarrow> snd (sd_Exec db st d) = nil \<Longrightarrow>
    ran committed pending d [st] (fst (sd_Exec db st d))"
  using sqlite_lawD(3,4) by (fastforce simp: ran_def)

text \<open>
  A part of a transaction keeps the committed tables, and if it succeeds it has run its statements.
\<close>

definition runs :: "('d \<Rightarrow> tables) \<Rightarrow> ('d \<Rightarrow> tables) \<Rightarrow> ('d \<Rightarrow> 'd \<times> error) \<Rightarrow> bool \<Rightarrow> sql_stmt list \<Rightarrow> bool" where
  "runs committed pending f ok sts \<longleftrightarrow> (\<forall>d. committed (fst (f d)) = committed d \<and>
     (snd (f d) = nil \<longrightarrow> ok \<and> ran committed pending d sts (fst (f d))))"

lemma runs_skip: "runs committed pending (\<lambda>d. (d, nil)) True []"
  by (simp add: runs_def)

lemma runs_error: "runs committed pending (\<lambda>d. (d, errorf e)) False sts"
  by (simp add: runs_def)

lemma runs_exec: "sqlite_law db committed pending \<Longrightarrow> runs committed pending (\<lambda>d. wrap_db msg (sd_Exec db st d)) True [st]"
  using sqlite_lawD(3) ran_exec by (fastforce simp: runs_def)

lemma runs_and_then:
  assumes "runs committed pending f a xs" "runs committed pending g b ys"
  shows "runs committed pending (\<lambda>d. and_then (f d) g) (a \<and> b) (xs @ ys)"
proof -
  have "committed (fst (and_then (f d) g)) = committed d" for d
    using assms unfolding runs_def and_then_def by (cases "f d"; cases "snd (f d)") (simp, metis fst_conv)+
  then show ?thesis
    using assms by (auto simp: runs_def and_then_nil and_then_fst intro: ran_append)
qed

lemma transaction_result:
  assumes law: "sqlite_law db committed pending" and body: "runs committed pending body ok sts"
    and fin: "\<And>r. fst (fin r) = fst r \<and> (snd (fin r) = nil \<longleftrightarrow> snd r = nil)"
    and r: "transaction db body fin d = (d', err)"
  shows "if err = nil then ok \<and> sems sts (committed d) = Some (committed d') else committed d' = committed d"
proof (cases "sd_Begin db d")
  case (Pair d1 e1)
  note b = sqlite_lawD(1,2) [OF law, of d, unfolded Pair fst_conv snd_conv]
  show ?thesis
  proof (cases e1)
    case (Some e)
    then show ?thesis using r Pair b by (auto simp: transaction_def)
  next
    case None
    note e1 = this
    show ?thesis
    proof (cases "body d1")
      case body1: (Pair d2 e2)
      have c: "committed d2 = committed d1" "e2 = nil \<Longrightarrow> ok \<and> ran committed pending d1 sts d2"
        using body [unfolded runs_def, rule_format, of d1] body1 by auto
      show ?thesis
      proof (cases e2)
        case (Some e)
        then show ?thesis using r Pair b c body1 e1 sqlite_lawD(6) [OF law] by (auto simp: transaction_def)
      next
        case None
        then have d': "d' = fst (sd_Commit db d2)" "err = nil \<longleftrightarrow> snd (sd_Commit db d2) = nil"
          using r Pair body1 e1 fin [of "sd_Commit db d2"] by (auto simp: transaction_def)
        then show ?thesis using c None b e1 sqlite_lawD(5) [OF law, of d2] by (auto simp: ran_def)
      qed
    qed
  qed
qed


section \<open>The statements of the ledger\<close>

definition raw_of :: "'m json \<Rightarrow> 'm \<Rightarrow> string" where
  "raw_of js m = projr (js_Marshal js m)"

definition marshals :: "'m json \<Rightarrow> 'm \<Rightarrow> bool" where
  "marshals js m \<longleftrightarrow> \<not> isl (js_Marshal js m)"

lemma json_raw: "json_law js \<Longrightarrow> marshals js m \<Longrightarrow> js_Unmarshal js (raw_of js m) = Inr m"
  by (cases "js_Marshal js m") (simp_all add: json_law_def marshals_def raw_of_def)

lemma runs_marshal:
  assumes "runs committed pending (f (raw_of js m)) ok sts"
  shows "runs committed pending (\<lambda>d. case js_Marshal js m of Inl e \<Rightarrow> (d, errorf (msg @ e)) | Inr raw \<Rightarrow> f raw d) (marshals js m \<and> ok) sts"
  using assms by (cases "js_Marshal js m") (auto simp: runs_def raw_of_def marshals_def)

definition env_stmts :: "DeploymentManifest json \<Rightarrow> string \<Rightarrow> (string, DeploymentManifest) gomap \<Rightarrow> sql_stmt list" where
  "env_stmts js service envs = map (\<lambda>(env, m). Insert_current service env (raw_of js m)) envs"

definition manifest_stmts :: "DeploymentManifest json \<Rightarrow> string \<Rightarrow> string \<Rightarrow> nat \<Rightarrow> DeploymentManifest list \<Rightarrow> sql_stmt list" where
  "manifest_stmts js service env i ms = map (\<lambda>(k, m). Insert_history service env (int k) (raw_of js m)) (enumerate i ms)"

definition record_stmts :: "PolicyVersionRecord json \<Rightarrow> string \<times> string \<Rightarrow> PolicyVersionRecord list \<Rightarrow> sql_stmt list" where
  "record_stmts js parts rs = map (\<lambda>r. Insert_policy (fst parts) (snd parts) (vr_Version r) (raw_of js r)) rs"

lemma insert_envs_runs: "sqlite_law db committed pending \<Longrightarrow>
    runs committed pending (insert_envs db js service envs) (\<forall>(env, m) \<in> set envs. marshals js m) (env_stmts js service envs)"
proof (induction envs)
  case Nil
  then show ?case using runs_skip by (simp add: env_stmts_def fun_eq_iff [symmetric] runs_def)
next
  case (Cons p envs)
  obtain env m where p: "p = (env, m)" by (cases p)
  have "runs committed pending (insert_envs db js service (p # envs)) (marshals js m \<and> True \<and> (\<forall>(env, m) \<in> set envs. marshals js m))
     ([Insert_current service env (raw_of js m)] @ env_stmts js service envs)"
    unfolding p insert_envs.simps
    by (intro runs_marshal runs_and_then runs_exec Cons)
  then show ?case by (simp add: p env_stmts_def del: insert_envs.simps)
qed

lemma insert_manifests_runs: "sqlite_law db committed pending \<Longrightarrow>
    runs committed pending (insert_manifests db js service env i ms) (\<forall>m \<in> set ms. marshals js m) (manifest_stmts js service env i ms)"
proof (induction ms arbitrary: i)
  case Nil
  then show ?case by (simp add: manifest_stmts_def runs_def)
next
  case (Cons m ms)
  have "runs committed pending (insert_manifests db js service env i (m # ms)) (marshals js m \<and> True \<and> (\<forall>m \<in> set ms. marshals js m))
     ([Insert_history service env (int i) (raw_of js m)] @ manifest_stmts js service env (Suc i) ms)"
    unfolding insert_manifests.simps by (intro runs_marshal runs_and_then runs_exec Cons)
  then show ?case by (simp add: manifest_stmts_def del: insert_manifests.simps)
qed

lemma insert_records_runs: "sqlite_law db committed pending \<Longrightarrow>
    runs committed pending (insert_records db js parts rs) (\<forall>r \<in> set rs. marshals js r) (record_stmts js parts rs)"
proof (induction rs)
  case Nil
  then show ?case by (simp add: record_stmts_def runs_def)
next
  case (Cons r rs)
  have "runs committed pending (insert_records db js parts (r # rs)) (marshals js r \<and> True \<and> (\<forall>r \<in> set rs. marshals js r))
     ([Insert_policy (fst parts) (snd parts) (vr_Version r) (raw_of js r)] @ record_stmts js parts rs)"
    unfolding insert_records.simps by (intro runs_marshal runs_and_then runs_exec Cons)
  then show ?case by (simp add: record_stmts_def del: insert_records.simps)
qed

text \<open>The loops over the maps all have this form.\<close>

lemma runs_concat:
  assumes "\<And>d. F [] d = (d, nil)" "\<And>x xs d. F (x # xs) d = and_then (f x d) (F xs)"
    and "\<And>x. runs committed pending (f x) (ok x) (sts x)"
  shows "runs committed pending (F xs) (\<forall>x \<in> set xs. ok x) (concat (map sts xs))"
proof (induction xs)
  case Nil
  then show ?case using assms(1) by (simp add: runs_def)
next
  case (Cons x xs)
  have "F (x # xs) = (\<lambda>d. and_then (f x d) (F xs))" using assms(2) by blast
  then show ?case using runs_and_then [OF assms(3) Cons, of x] by simp
qed

definition current_stmts :: "DeploymentManifest json \<Rightarrow> ledger_order \<Rightarrow> DeploymentManifest gomap2 \<Rightarrow> sql_stmt list" where
  "current_stmts js lo m = concat (map (\<lambda>(service, envs). env_stmts js service (lo_manifests lo service envs)) m)"

definition histories_stmts :: "DeploymentManifest json \<Rightarrow> string \<Rightarrow> (string, DeploymentManifest list) gomap \<Rightarrow> sql_stmt list" where
  "histories_stmts js service envs = concat (map (\<lambda>(env, ms). manifest_stmts js service env 0 ms) envs)"

definition history_stmts :: "DeploymentManifest json \<Rightarrow> ledger_order \<Rightarrow> DeploymentManifest list gomap2 \<Rightarrow> sql_stmt list" where
  "history_stmts js lo m = concat (map (\<lambda>(service, envs). histories_stmts js service (lo_histories lo service envs)) m)"

definition policy_stmts :: "PolicyVersionRecord json \<Rightarrow> PolicyVersionState \<Rightarrow> sql_stmt list" where
  "policy_stmts js m = concat (map (\<lambda>(key, versions). record_stmts js (splitPolicyKey key) versions) m)"

lemma insert_current_runs:
  assumes "sqlite_law db committed pending"
  shows "runs committed pending (insert_current db js lo m)
    (\<forall>(service, envs) \<in> set m. \<forall>(env, x) \<in> set (lo_manifests lo service envs). marshals js x) (current_stmts js lo m)"
  unfolding current_stmts_def
  by (rule runs_concat [where f = "\<lambda>(service, envs). insert_envs db js service (lo_manifests lo service envs)"])
    (auto simp: split_def intro: insert_envs_runs [OF assms, unfolded split_def])

lemma insert_histories_runs:
  assumes "sqlite_law db committed pending"
  shows "runs committed pending (insert_histories db js service envs)
    (\<forall>(env, ms) \<in> set envs. \<forall>m \<in> set ms. marshals js m) (histories_stmts js service envs)"
  unfolding histories_stmts_def
  by (rule runs_concat [where f = "\<lambda>(env, ms). insert_manifests db js service env 0 ms"])
    (auto simp: split_def intro: insert_manifests_runs [OF assms])

lemma insert_history_runs:
  assumes "sqlite_law db committed pending"
  shows "runs committed pending (insert_history db js lo m)
    (\<forall>(service, envs) \<in> set m. \<forall>(env, ms) \<in> set (lo_histories lo service envs). \<forall>x \<in> set ms. marshals js x) (history_stmts js lo m)"
  unfolding history_stmts_def
  by (rule runs_concat [where f = "\<lambda>(service, envs). insert_histories db js service (lo_histories lo service envs)"])
    (auto simp: split_def intro: insert_histories_runs [OF assms, unfolded split_def])

lemma insert_policies_runs:
  assumes "sqlite_law db committed pending"
  shows "runs committed pending (insert_policies db js m) (\<forall>(key, rs) \<in> set m. \<forall>r \<in> set rs. marshals js r) (policy_stmts js m)"
  unfolding policy_stmts_def
  by (rule runs_concat [where f = "\<lambda>(key, rs). insert_records db js (splitPolicyKey key) rs"])
    (auto simp: split_def intro: insert_records_runs [OF assms])


fun cur_row :: "sql_stmt \<Rightarrow> (string \<times> string \<times> string) list" where
  "cur_row (Insert_current a b raw) = [(a, b, raw)]"
| "cur_row _ = []"

fun hist_row :: "sql_stmt \<Rightarrow> (string \<times> string \<times> int \<times> string) list" where
  "hist_row (Insert_history a b i raw) = [(a, b, i, raw)]"
| "hist_row _ = []"

fun pol_row :: "sql_stmt \<Rightarrow> (string \<times> string \<times> int \<times> string) list" where
  "pol_row (Insert_policy a b i raw) = [(a, b, i, raw)]"
| "pol_row _ = []"

fun is_insert :: "sql_stmt \<Rightarrow> bool" where
  "is_insert (Insert_current _ _ _) = True"
| "is_insert (Insert_history _ _ _ _) = True"
| "is_insert (Insert_policy _ _ _ _) = True"
| "is_insert _ = False"

lemma sems_inserts: "sems sts t = Some t' \<Longrightarrow> list_all is_insert sts \<Longrightarrow>
    tb_current t' = tb_current t @ concat (map cur_row sts) \<and> tb_history t' = tb_history t @ concat (map hist_row sts) \<and>
    tb_policies t' = tb_policies t @ concat (map pol_row sts) \<and> tb_versions t' = tb_versions t"
proof (induction sts t rule: sems.induct)
  case (2 st sts t)
  then show ?case by (cases st) (auto split: if_splits option.splits)
qed simp

lemma set_rows_current: "set (concat (map cur_row (current_stmts js lo m))) =
    {(s, e, raw_of js x) | s envs e x. (s, envs) \<in> set m \<and> (e, x) \<in> set (lo_manifests lo s envs)}"
  "concat (map hist_row (current_stmts js lo m)) = []" "concat (map pol_row (current_stmts js lo m)) = []"
  "list_all is_insert (current_stmts js lo m)"
proof -
  show "set (concat (map cur_row (current_stmts js lo m))) =
    {(s, e, raw_of js x) | s envs e x. (s, envs) \<in> set m \<and> (e, x) \<in> set (lo_manifests lo s envs)}"
    by (force simp: current_stmts_def env_stmts_def)
qed (auto simp: current_stmts_def env_stmts_def list_all_iff)

lemma set_rows_history: "set (concat (map hist_row (history_stmts js lo m))) =
    (\<Union>(s, envs) \<in> set m. \<Union>(e, ms) \<in> set (lo_histories lo s envs). (\<lambda>i. (s, e, int i, raw_of js (ms ! i))) ` {..<length ms})"
  "concat (map cur_row (history_stmts js lo m)) = []" "concat (map pol_row (history_stmts js lo m)) = []"
  "list_all is_insert (history_stmts js lo m)"
proof -
  have "enumerate 0 ms = map (\<lambda>i. (i, ms ! i)) [0..<length ms]" for ms :: "DeploymentManifest list"
    by (rule nth_equalityI) (simp_all add: nth_enumerate_eq)
  then have "set (concat (map hist_row (manifest_stmts js s e 0 ms))) = (\<lambda>i. (s, e, int i, raw_of js (ms ! i))) ` {..<length ms}" for s e ms
    by (auto simp: manifest_stmts_def)
  then show "set (concat (map hist_row (history_stmts js lo m))) =
    (\<Union>(s, envs) \<in> set m. \<Union>(e, ms) \<in> set (lo_histories lo s envs). (\<lambda>i. (s, e, int i, raw_of js (ms ! i))) ` {..<length ms})"
    by (simp add: history_stmts_def histories_stmts_def split_def)
qed (auto simp: history_stmts_def histories_stmts_def manifest_stmts_def list_all_iff)

lemma set_rows_policies: "set (concat (map pol_row (policy_stmts js m))) =
    {(fst (splitPolicyKey k), snd (splitPolicyKey k), vr_Version r, raw_of js r) | k rs r. (k, rs) \<in> set m \<and> r \<in> set rs}"
  "concat (map cur_row (policy_stmts js m)) = []" "concat (map hist_row (policy_stmts js m)) = []"
  "list_all is_insert (policy_stmts js m)"
proof -
  show "set (concat (map pol_row (policy_stmts js m))) =
    {(fst (splitPolicyKey k), snd (splitPolicyKey k), vr_Version r, raw_of js r) | k rs r. (k, rs) \<in> set m \<and> r \<in> set rs}"
    by (force simp: policy_stmts_def record_stmts_def)
qed (auto simp: policy_stmts_def record_stmts_def list_all_iff)

lemma sqlite_Save_tables:
  assumes law: "sqlite_law db committed pending" and r: "sqlite_Save db js lo d st = (d', err)"
  shows "if err = nil then
      (\<forall>(s, envs) \<in> set (lo_current lo (ls_Current st)). \<forall>(e, x) \<in> set (lo_manifests lo s envs). marshals js x) \<and>
      (\<forall>(s, envs) \<in> set (lo_history lo (ls_History st)). \<forall>(e, ms) \<in> set (lo_histories lo s envs). \<forall>x \<in> set ms. marshals js x) \<and>
      set (tb_current (committed d')) = {(s, e, raw_of js x) | s envs e x.
        (s, envs) \<in> set (lo_current lo (ls_Current st)) \<and> (e, x) \<in> set (lo_manifests lo s envs)} \<and>
      set (tb_history (committed d')) = (\<Union>(s, envs) \<in> set (lo_history lo (ls_History st)).
        \<Union>(e, ms) \<in> set (lo_histories lo s envs). (\<lambda>i. (s, e, int i, raw_of js (ms ! i))) ` {..<length ms}) \<and>
      tb_policies (committed d') = tb_policies (committed d) \<and> tb_versions (committed d') = tb_versions (committed d)
    else committed d' = committed d"
proof -
  let ?c = "current_stmts js lo (lo_current lo (ls_Current st))" and ?h = "history_stmts js lo (lo_history lo (ls_History st))"
  let ?okc = "\<forall>(s, envs) \<in> set (lo_current lo (ls_Current st)). \<forall>(e, x) \<in> set (lo_manifests lo s envs). marshals js x"
  let ?okh = "\<forall>(s, envs) \<in> set (lo_history lo (ls_History st)). \<forall>(e, ms) \<in> set (lo_histories lo s envs). \<forall>x \<in> set ms. marshals js x"
  have "runs committed pending (ledger_body db js lo st) (((True \<and> True) \<and> ?okc) \<and> ?okh) ((([Delete_current] @ [Delete_history]) @ ?c) @ ?h)"
    unfolding ledger_body_def
    by (intro runs_and_then runs_exec insert_current_runs insert_history_runs law)
  from transaction_result [OF law this _ r [unfolded sqlite_Save_def]]
  have t: "if err = nil then (((True \<and> True) \<and> ?okc) \<and> ?okh) \<and>
      sems ((([Delete_current] @ [Delete_history]) @ ?c) @ ?h) (committed d) = Some (committed d') else committed d' = committed d"
    by simp
  show ?thesis
  proof (cases "err = nil")
    case True
    let ?t = "committed d\<lparr>tb_current := [], tb_history := []\<rparr>"
    have "sems (?c @ ?h) ?t = Some (committed d')" using t True by simp
    from sems_inserts [OF this] have
      "tb_current (committed d') = concat (map cur_row ?c)" "tb_history (committed d') = concat (map hist_row ?h)"
      "tb_policies (committed d') = tb_policies (committed d)" "tb_versions (committed d') = tb_versions (committed d)"
      using set_rows_current(2-) [of js lo] set_rows_history(2-) [of js lo] by simp_all
    then show ?thesis using t True set_rows_current(1) set_rows_history(1) by simp
  next
    case False
    then show ?thesis using t by (simp only: if_False)
  qed
qed

lemma sqlitePolicy_Save_tables:
  assumes law: "sqlite_law db committed pending" and r: "sqlitePolicy_Save db js it d st = (d', err)"
  shows "if err = nil then (\<forall>(k, rs) \<in> set (it st). \<forall>r \<in> set rs. marshals js r) \<and>
      set (tb_policies (committed d')) = {(fst (splitPolicyKey k), snd (splitPolicyKey k), vr_Version r, raw_of js r) | k rs r.
        (k, rs) \<in> set (it st) \<and> r \<in> set rs} \<and>
      tb_current (committed d') = tb_current (committed d) \<and> tb_history (committed d') = tb_history (committed d) \<and>
      tb_versions (committed d') = tb_versions (committed d)
    else committed d' = committed d"
proof -
  let ?p = "policy_stmts js (it st)" and ?ok = "\<forall>(k, rs) \<in> set (it st). \<forall>r \<in> set rs. marshals js r"
  have "runs committed pending
      (\<lambda>d. and_then (wrap_db ''clear policy versions'' (sd_Exec db Delete_policies d)) (insert_policies db js (it st)))
      (True \<and> ?ok) ([Delete_policies] @ ?p)"
    by (intro runs_and_then runs_exec insert_policies_runs law)
  from transaction_result [OF law this _ r [unfolded sqlitePolicy_Save_def]]
  have t: "if err = nil then (True \<and> ?ok) \<and> sems ([Delete_policies] @ ?p) (committed d) = Some (committed d') else committed d' = committed d"
    by simp
  show ?thesis
  proof (cases "err = nil")
    case True
    have "sems ?p (committed d\<lparr>tb_policies := []\<rparr>) = Some (committed d')" using t True by simp
    from sems_inserts [OF this set_rows_policies(4)] show ?thesis
      using t True set_rows_policies [of js] by simp
  next
    case False
    then show ?thesis using t by (simp only: if_False)
  qed
qed


section \<open>Loading\<close>

fun row_of :: "'m json \<Rightarrow> string \<times> string \<times> string \<Rightarrow> 'm" where
  "row_of js (a, b, raw) = projr (js_Unmarshal js raw)"

lemma load_current_rows: "load_current js (rows, err) m = Inr m' \<Longrightarrow> \<exists>rs. rows = map Inr rs \<and> err = nil \<and>
    (distinct (map pair_key rs) \<longrightarrow> (\<forall>s e. gm2_get m' s e =
      (case find (\<lambda>r. pair_key r = (s, e)) rs of None \<Rightarrow> gm2_get m s e | Some r \<Rightarrow> Some (row_of js r))))"
proof (induction rows arbitrary: m)
  case Nil
  then show ?case by (auto split: option.splits)
next
  case (Cons r rows)
  then obtain s e raw x where r: "r = Inr (s, e, raw)" and x: "js_Unmarshal js raw = Inr x"
    by (cases r) (auto split: sum.splits)
  with Cons.prems have "load_current js (rows, err) (gm2_put s e x m) = Inr m'" by simp
  from Cons.IH [OF this] obtain rs where rs: "rows = map Inr rs" "err = nil"
    "distinct (map pair_key rs) \<longrightarrow> (\<forall>s' e'. gm2_get m' s' e' = (case find (\<lambda>r. pair_key r = (s', e')) rs of
       None \<Rightarrow> gm2_get (gm2_put s e x m) s' e' | Some r \<Rightarrow> Some (row_of js r)))" by blast
  have "distinct (map pair_key ((s, e, raw) # rs)) \<Longrightarrow> gm2_get m' s' e' = (case find (\<lambda>r. pair_key r = (s', e')) ((s, e, raw) # rs) of
      None \<Rightarrow> gm2_get m s' e' | Some r \<Rightarrow> Some (row_of js r))" for s' e'
  proof (cases "(s', e') = (s, e)")
    case True
    assume d: "distinct (map pair_key ((s, e, raw) # rs))"
    then have "(s', e') \<notin> pair_key ` set rs" using True by simp
    then have "find (\<lambda>r. pair_key r = (s', e')) rs = None" unfolding find_None_iff by (metis imageI)
    then show ?thesis using rs(3) d True x by (simp add: gm2_get_put)
  next
    case False
    assume "distinct (map pair_key ((s, e, raw) # rs))"
    then show ?thesis using rs(3) False by (auto simp: gm2_get_put split: option.split)
  qed
  then show ?case using rs r by (intro exI [of _ "(s, e, raw) # rs"]) simp
qed

lemma load_history_rows: "load_history js (rows, err) m = Inr m' \<Longrightarrow> \<exists>rs. rows = map Inr rs \<and> err = nil \<and>
    (\<forall>s e. history_of m' s e = history_of m s e @ map (row_of js) (filter (\<lambda>r. pair_key r = (s, e)) rs))"
proof (induction rows arbitrary: m)
  case Nil
  then show ?case by (auto split: option.splits)
next
  case (Cons r rows)
  then obtain s e raw x where r: "r = Inr (s, e, raw)" and x: "js_Unmarshal js raw = Inr x"
    by (cases r) (auto split: sum.splits)
  with Cons.prems have "load_history js (rows, err) (gm2_put s e (history_of m s e @ [x]) m) = Inr m'" by simp
  from Cons.IH [OF this] obtain rs where "rows = map Inr rs" "err = nil"
    "\<forall>s' e'. history_of m' s' e' = history_of (gm2_put s e (history_of m s e @ [x]) m) s' e' @
       map (row_of js) (filter (\<lambda>r. pair_key r = (s', e')) rs)" by blast
  then show ?case using r x by (intro exI [of _ "(s, e, raw) # rs"]) (auto simp: history_of_put)
qed

fun joined_key :: "string \<times> string \<times> string \<Rightarrow> string" where
  "joined_key (a, b, raw) = a @ ''/'' @ b"

lemma load_policies_rows: "load_policies js (rows, err) m = Inr m' \<Longrightarrow> \<exists>rs. rows = map Inr rs \<and> err = nil \<and>
    (\<forall>k. gm_getd [] m' k = gm_getd [] m k @ map (row_of js) (filter (\<lambda>r. joined_key r = k) rs))"
proof (induction rows arbitrary: m)
  case Nil
  then show ?case by (auto split: option.splits)
next
  case (Cons r rows)
  then obtain n e raw x where r: "r = Inr (n, e, raw)" and x: "js_Unmarshal js raw = Inr x"
    by (cases r) (auto split: sum.splits)
  let ?k = "n @ ''/'' @ e"
  from r x Cons.prems have "load_policies js (rows, err) (gm_put ?k (gm_getd [] m ?k @ [x]) m) = Inr m'" by (simp add: Let_def)
  from Cons.IH [OF this] obtain rs where "rows = map Inr rs" "err = nil"
    "\<forall>k. gm_getd [] m' k = gm_getd [] (gm_put ?k (gm_getd [] m ?k @ [x]) m) k @ map (row_of js) (filter (\<lambda>r. joined_key r = k) rs)"
    by blast
  then show ?case using r x by (intro exI [of _ "(n, e, raw) # rs"]) auto
qed

lemma sorted_rows_unique:
  fixes f :: "'a \<Rightarrow> 'b::linorder"
  assumes "sorted_wrt (\<lambda>a b. f a < f b) xs" "sorted_wrt (\<lambda>a b. f a < f b) ys" "set xs = set ys"
  shows "xs = ys"
proof -
  have s: "sorted_wrt (<) (map f xs)" "sorted_wrt (<) (map f ys)" using assms by (simp_all add: sorted_wrt_map)
  then have "sorted (map f xs)" "distinct (map f xs)" "sorted (map f ys)" "distinct (map f ys)"
    by (simp_all add: strict_sorted_iff)
  moreover from this(2) have "inj_on f (set xs \<union> set ys)" using assms(3) by (simp add: distinct_map)
  ultimately show ?thesis using assms(3) by (metis map_sorted_distinct_set_unique)
qed

lemma in_order_unique: "in_order rows rs \<Longrightarrow> in_order rows rs' \<Longrightarrow> rs = rs'"
  using sorted_rows_unique [of row_key] unfolding in_order_def by metis


text \<open>What a successful load says about the committed tables.\<close>

lemma sqlite_Load_rows:
  assumes "sqlite_law db committed pending" "sqlite_Load db js d = Inr st"
  obtains cs hs where "answers Select_current (committed d) cs" "answers Select_history (committed d) hs"
    "\<And>s e. gm2_get (ls_Current st) s e = map_option (row_of js) (find (\<lambda>r. pair_key r = (s, e)) cs)"
    "\<And>s e. history_of (ls_History st) s e = map (row_of js) (filter (\<lambda>r. pair_key r = (s, e)) hs)"
proof -
  obtain rows hrows where q: "sd_Query db Select_current d = Inr rows" "load_current js rows [] = Inr (ls_Current st)"
    "sd_Query db Select_history d = Inr hrows" "load_history js hrows [] = Inr (ls_History st)"
    using assms(2) by (auto simp: sqlite_Load_def split: sum.splits)
  obtain cs where cs: "rows = (map Inr cs, nil)" "distinct (map pair_key cs) \<longrightarrow> (\<forall>s e. gm2_get (ls_Current st) s e =
      (case find (\<lambda>r. pair_key r = (s, e)) cs of None \<Rightarrow> None | Some r \<Rightarrow> Some (row_of js r)))"
    using load_current_rows [of js "fst rows" "snd rows" "[]"] q(2) unfolding gm2_get_Nil by (metis prod.collapse)
  obtain hs where hs: "hrows = (map Inr hs, nil)" "\<forall>s e. history_of (ls_History st) s e =
      map (row_of js) (filter (\<lambda>r. pair_key r = (s, e)) hs)"
    using load_history_rows [of js "fst hrows" "snd hrows" "[]"] q(4) by (cases hrows) (auto simp: history_of_def)
  have a: "answers Select_current (committed d) cs" "answers Select_history (committed d) hs"
    by (rule sqlite_lawD(10) [OF assms(1)], simp add: q cs(1) hs(1))+
  then show thesis using that cs(2) hs(2) by (simp add: option.case_eq_if map_option_case split: option.split)
qed

lemma find_key: "distinct (map pair_key rs) \<Longrightarrow> (s, e, raw) \<in> set rs \<Longrightarrow> find (\<lambda>r. pair_key r = (s, e)) rs = Some (s, e, raw)"
proof (induction rs)
  case (Cons r rs)
  then show ?case by (cases r) (force simp: image_iff)
qed simp

lemma find_current:
  assumes "answers Select_current t cs" "\<And>raw. (s, e, raw) \<in> set (tb_current t) \<longleftrightarrow> raw \<in> set_option x"
  shows "map_option (row_of js) (find (\<lambda>r. pair_key r = (s, e)) cs) = map_option (\<lambda>raw. projr (js_Unmarshal js raw)) x"
proof (cases x)
  case None
  then have "find (\<lambda>r. pair_key r = (s, e)) cs = None" using assms by (auto simp: find_None_iff)
  then show ?thesis using None by simp
next
  case (Some raw)
  then have "find (\<lambda>r. pair_key r = (s, e)) cs = Some (s, e, raw)" using assms by (auto intro: find_key)
  then show ?thesis using Some by simp
qed

text \<open>The rows with one key, in the order asked for, are known from their set and their numbers.\<close>

lemma in_order_key:
  assumes o: "in_order rows rs" and num: "sorted_wrt (\<lambda>x y. num x < num y) xs"
    and rows: "\<And>i raw. (a, b, i, raw) \<in> set rows \<longleftrightarrow> (\<exists>x \<in> set xs. i = num x \<and> raw = rw x)"
  shows "filter (\<lambda>r. pair_key r = (a, b)) rs = map (\<lambda>x. (a, b, rw x)) xs"
proof -
  obtain full where f: "set full = set rows" "sorted_wrt (\<lambda>a b. row_key a < row_key b) full" "rs = map row_data full"
    using o by (auto simp: in_order_def)
  have key: "pair_key (row_data r) = (a, b) \<longleftrightarrow> (\<exists>i raw. r = (a, b, i, raw))" for r by (cases r) auto
  let ?ys = "map (\<lambda>x. (a, b, num x, rw x)) xs"
  have "filter (\<lambda>r. pair_key (row_data r) = (a, b)) full = ?ys"
  proof (rule sorted_rows_unique [of row_key])
    show "sorted_wrt (\<lambda>a b. row_key a < row_key b) (filter (\<lambda>r. pair_key (row_data r) = (a, b)) full)"
      using f(2) by (rule sorted_wrt_filter)
    show "sorted_wrt (\<lambda>a b. row_key a < row_key b) ?ys" using num by (simp add: sorted_wrt_map)
    show "set (filter (\<lambda>r. pair_key (row_data r) = (a, b)) full) = set ?ys"
      using f(1) rows by (auto simp: key)
  qed
  then have "map row_data (filter (\<lambda>r. pair_key (row_data r) = (a, b)) full) = map (\<lambda>x. (a, b, rw x)) xs" by simp
  then show ?thesis by (simp add: f(3) filter_map comp_def)
qed

text \<open>What the ledger's two tables say, as functions; loads of equal tables agree.\<close>

definition same_ledger :: "DeploymentLedgerState \<Rightarrow> DeploymentLedgerState \<Rightarrow> bool" where
  "same_ledger st st' \<longleftrightarrow> (\<forall>s e. gm2_get (ls_Current st) s e = gm2_get (ls_Current st') s e \<and>
     history_of (ls_History st) s e = history_of (ls_History st') s e)"

lemma find_same:
  assumes "set cs = set cs'" "distinct (map pair_key cs)" "distinct (map pair_key cs')"
  shows "find (\<lambda>r. pair_key r = (s, e)) cs = find (\<lambda>r. pair_key r = (s, e)) cs'"
proof (cases "\<exists>raw. (s, e, raw) \<in> set cs")
  case True
  then show ?thesis using find_key assms by metis
next
  case False
  then have "find (\<lambda>r. pair_key r = (s, e)) cs = None" "find (\<lambda>r. pair_key r = (s, e)) cs' = None"
    using assms(1) by (auto simp: find_None_iff)
  then show ?thesis by simp
qed

lemma sqlite_Load_same:
  assumes "sqlite_law db committed pending" "sqlite_Load db js d = Inr st" "sqlite_Load db js d' = Inr st'"
    and "committed d' = committed d"
  shows "same_ledger st' st"
proof -
  from sqlite_Load_rows [OF assms(1,2)] obtain cs hs where a: "answers Select_current (committed d) cs" "answers Select_history (committed d) hs"
    "\<And>s e. gm2_get (ls_Current st) s e = map_option (row_of js) (find (\<lambda>r. pair_key r = (s, e)) cs)"
    "\<And>s e. history_of (ls_History st) s e = map (row_of js) (filter (\<lambda>r. pair_key r = (s, e)) hs)" by blast
  from sqlite_Load_rows [OF assms(1,3)] obtain cs' hs' where b: "answers Select_current (committed d') cs'" "answers Select_history (committed d') hs'"
    "\<And>s e. gm2_get (ls_Current st') s e = map_option (row_of js) (find (\<lambda>r. pair_key r = (s, e)) cs')"
    "\<And>s e. history_of (ls_History st') s e = map (row_of js) (filter (\<lambda>r. pair_key r = (s, e)) hs')" by blast
  have "hs' = hs" using a(2) b(2) assms(4) in_order_unique by simp
  moreover have "find (\<lambda>r. pair_key r = (s, e)) cs' = find (\<lambda>r. pair_key r = (s, e)) cs" for s e
    using a(1) b(1) assms(4) by (intro find_same) auto
  ultimately show ?thesis by (simp add: same_ledger_def a(3,4) b(3,4))
qed


section \<open>The ledger\<close>

text \<open>A well-formed ledger state and an order of ranging over it.\<close>

definition gm2_ok :: "'v gomap2 \<Rightarrow> bool" where
  "gm2_ok m \<longleftrightarrow> gm_ok m \<and> (\<forall>(k, es) \<in> set m. gm_ok es)"

definition is_order :: "ledger_order \<Rightarrow> bool" where
  "is_order lo \<longleftrightarrow> is_range (lo_current lo) \<and> (\<forall>s. is_range (lo_manifests lo s)) \<and>
     is_range (lo_history lo) \<and> (\<forall>s. is_range (lo_histories lo s))"

lemma gm2_mem_iff:
  assumes "gm2_ok m" "is_range it" "\<And>s. is_range (its s)"
  shows "(\<exists>envs. (s, envs) \<in> set (it m) \<and> (e, v) \<in> set (its s envs)) \<longleftrightarrow> gm2_get m s e = Some v"
proof -
  have ok: "gm_ok m" using assms(1) by (simp add: gm2_ok_def)
  have "(\<exists>envs. (s, envs) \<in> set (it m) \<and> (e, v) \<in> set (its s envs)) \<longleftrightarrow> (\<exists>envs. gm_get m s = Some envs \<and> (e, v) \<in> set envs)"
    using is_range_set [OF assms(2)] is_range_set [OF assms(3)] gm_mem_iff [OF ok] by auto
  also have "\<dots> \<longleftrightarrow> gm2_get m s e = Some v"
  proof (cases "gm_get m s")
    case None
    then show ?thesis by (simp add: gm2_get_def gm_getd_def)
  next
    case (Some envs)
    then have "gm_ok envs" using assms(1) gm_mem_iff [OF ok, of s envs] by (auto simp: gm2_ok_def)
    then show ?thesis using Some gm_mem_iff [of envs e v] by (simp add: gm2_get_def gm_getd_def)
  qed
  finally show ?thesis .
qed

text \<open>The rows after a successful save, by key.\<close>

lemma sqlite_saved_rows:
  assumes law: "sqlite_law db committed pending" and lo: "is_order lo"
    and ok: "gm2_ok (ls_Current st)" "gm2_ok (ls_History st)"
    and save: "sqlite_Save db js lo d st = (d', nil)"
  shows "(s, e, raw) \<in> set (tb_current (committed d')) \<longleftrightarrow> (\<exists>x. gm2_get (ls_Current st) s e = Some x \<and> raw = raw_of js x)"
    and "gm2_get (ls_Current st) s e = Some x \<Longrightarrow> marshals js x"
    and "(s, e, i, raw) \<in> set (tb_history (committed d')) \<longleftrightarrow>
      (\<exists>k \<in> set [0..<length (history_of (ls_History st) s e)]. i = int k \<and> raw = raw_of js (history_of (ls_History st) s e ! k))"
    and "k < length (history_of (ls_History st) s e) \<Longrightarrow> marshals js (history_of (ls_History st) s e ! k)"
proof -
  note t = sqlite_Save_tables [OF law save, unfolded if_P [OF refl]]
  note mc = t [THEN conjunct1] and mh = t [THEN conjunct2, THEN conjunct1]
    and tc = t [THEN conjunct2, THEN conjunct2, THEN conjunct1] and th = t [THEN conjunct2, THEN conjunct2, THEN conjunct2, THEN conjunct1]
  have cur: "(\<exists>envs. (s, envs) \<in> set (lo_current lo (ls_Current st)) \<and> (e, v) \<in> set (lo_manifests lo s envs)) \<longleftrightarrow>
      gm2_get (ls_Current st) s e = Some v" for v
    using gm2_mem_iff [OF ok(1)] lo by (simp add: is_order_def)
  have hist: "(\<exists>envs. (s, envs) \<in> set (lo_history lo (ls_History st)) \<and> (e, v) \<in> set (lo_histories lo s envs)) \<longleftrightarrow>
      gm2_get (ls_History st) s e = Some v" for v
    using gm2_mem_iff [OF ok(2)] lo by (simp add: is_order_def)
  show "(s, e, raw) \<in> set (tb_current (committed d')) \<longleftrightarrow> (\<exists>x. gm2_get (ls_Current st) s e = Some x \<and> raw = raw_of js x)"
    unfolding cur [symmetric] tc by auto
  show "gm2_get (ls_Current st) s e = Some x \<Longrightarrow> marshals js x" unfolding cur [symmetric] using mc by blast
  have "(s, e, i, raw) \<in> set (tb_history (committed d')) \<longleftrightarrow>
      (\<exists>ms. gm2_get (ls_History st) s e = Some ms \<and> (\<exists>k < length ms. i = int k \<and> raw = raw_of js (ms ! k)))"
    unfolding hist [symmetric] th by (auto simp: image_iff)
  then show "(s, e, i, raw) \<in> set (tb_history (committed d')) \<longleftrightarrow>
      (\<exists>k \<in> set [0..<length (history_of (ls_History st) s e)]. i = int k \<and> raw = raw_of js (history_of (ls_History st) s e ! k))"
    by (auto simp: history_of_def split: option.split)
  assume k: "k < length (history_of (ls_History st) s e)"
  then obtain ms where ms: "gm2_get (ls_History st) s e = Some ms" "history_of (ls_History st) s e = ms"
    by (auto simp: history_of_def split: option.splits)
  from ms(1) have "\<forall>x \<in> set ms. marshals js x" unfolding hist [symmetric] using mh by blast
  then show "marshals js (history_of (ls_History st) s e ! k)" using k ms(2) by simp
qed

text \<open>C31. Saving the ledger to SQLite is atomic and loses nothing: whatever statement, codec call or commit
  fails, a later load gives the ledger that was stored before; after a successful save it gives the saved
  one, the current manifest and the whole history of every service and environment, for every order in
  which the maps are ranged over. Only environments without a manifest are forgotten.\<close>

lemma sqlite_ledger_roundtrip:
  assumes law: "sqlite_law db committed pending" and json: "json_law js" and lo: "is_order lo"
    and ok: "gm2_ok (ls_Current st)" "gm2_ok (ls_History st)"
    and save: "sqlite_Save db js lo d st = (d', err)" and load: "sqlite_Load db js d' = Inr st'"
  shows "if err = nil then same_ledger st' st else \<forall>old. sqlite_Load db js d = Inr old \<longrightarrow> same_ledger st' old"
proof (cases "err = nil")
  case False
  then have "committed d' = committed d" using sqlite_Save_tables [OF law save] by (simp only: if_False)
  then show ?thesis using sqlite_Load_same [OF law _ load] False by auto
next
  case True
  with save have "sqlite_Save db js lo d st = (d', nil)" by simp
  note rows = sqlite_saved_rows [OF law lo ok this]
  have undo: "marshals js m \<Longrightarrow> projr (js_Unmarshal js (raw_of js m)) = m" for m using json_raw [OF json] by simp
  from sqlite_Load_rows [OF law load] obtain cs hs where a: "answers Select_current (committed d') cs" "answers Select_history (committed d') hs"
    "\<And>s e. gm2_get (ls_Current st') s e = map_option (row_of js) (find (\<lambda>r. pair_key r = (s, e)) cs)"
    "\<And>s e. history_of (ls_History st') s e = map (row_of js) (filter (\<lambda>r. pair_key r = (s, e)) hs)" by blast
  have "gm2_get (ls_Current st') s e = gm2_get (ls_Current st) s e" for s e
  proof -
    have "(s, e, raw) \<in> set (tb_current (committed d')) \<longleftrightarrow> raw \<in> set_option (map_option (raw_of js) (gm2_get (ls_Current st) s e))" for raw
      using rows(1) by auto
    from find_current [OF a(1) this] have "gm2_get (ls_Current st') s e =
        map_option (\<lambda>m. projr (js_Unmarshal js (raw_of js m))) (gm2_get (ls_Current st) s e)"
      by (simp add: a(3) option.map_comp comp_def)
    then show ?thesis using rows(2) undo by (cases "gm2_get (ls_Current st) s e") simp_all
  qed
  moreover have "history_of (ls_History st') s e = history_of (ls_History st) s e" for s e
  proof -
    let ?h = "history_of (ls_History st) s e"
    from in_order_key [OF _ _ rows(3), of hs] have "filter (\<lambda>r. pair_key r = (s, e)) hs = map (\<lambda>k. (s, e, raw_of js (?h ! k))) [0..<length ?h]"
      using a(2) by (simp add: sorted_wrt_upt)
    then have "history_of (ls_History st') s e = map (\<lambda>k. projr (js_Unmarshal js (raw_of js (?h ! k)))) [0..<length ?h]"
      by (simp add: a(4) comp_def)
    then show ?thesis using rows(4) undo by (intro nth_equalityI) simp_all
  qed
  ultimately show ?thesis using True by (simp add: same_ledger_def)
qed


section \<open>The policy versions\<close>

lemma splitPolicyKey_join: "CHR ''/'' \<in> set k \<Longrightarrow>
    fst (splitPolicyKey k) @ ''/'' @ snd (splitPolicyKey k) = k \<and> CHR ''/'' \<notin> set (fst (splitPolicyKey k))"
  by (induction k) (auto split: prod.split)

lemma splitPolicyKey_joined: "CHR ''/'' \<notin> set n \<Longrightarrow> splitPolicyKey (n @ ''/'' @ e) = (n, e)"
  by (induction n) auto

lemma sqlitePolicy_Load_rows:
  assumes "sqlite_law db committed pending" "sqlitePolicy_Load db js d = Inr st"
  obtains rs where "in_order (tb_policies (committed d)) rs"
    "\<And>k. gm_getd [] st k = map (row_of js) (filter (\<lambda>r. joined_key r = k) rs)"
proof -
  obtain rows where q: "sd_Query db Select_policies d = Inr rows" "load_policies js rows [] = Inr st"
    using assms(2) by (auto simp: sqlitePolicy_Load_def split: sum.splits)
  obtain rs where rs: "rows = (map Inr rs, nil)" "\<forall>k. gm_getd [] st k = map (row_of js) (filter (\<lambda>r. joined_key r = k) rs)"
    using load_policies_rows [of js "fst rows" "snd rows" "[]"] q(2) by (cases rows) auto
  have "answers Select_policies (committed d) rs"
    by (rule sqlite_lawD(10) [OF assms(1)]) (simp add: q rs(1))
  then show thesis using that rs(2) by simp
qed

text \<open>A state whose keys have a slash and whose histories have increasing versions, as the versioner builds them.\<close>

definition versions_ok :: "PolicyVersionState \<Rightarrow> bool" where
  "versions_ok st \<longleftrightarrow> gm_ok st \<and> (\<forall>(k, h) \<in> set st. (h \<noteq> [] \<longrightarrow> CHR ''/'' \<in> set k) \<and> sorted_wrt (\<lambda>x y. vr_Version x < vr_Version y) h)"

lemma versions_ok_get:
  assumes "versions_ok st"
  shows "sorted_wrt (\<lambda>x y. vr_Version x < vr_Version y) (gm_getd [] st k)"
    and "gm_getd [] st k \<noteq> [] \<Longrightarrow> CHR ''/'' \<in> set k"
proof -
  have "gm_getd [] st k = [] \<or> (k, gm_getd [] st k) \<in> set st"
    using assms gm_mem_iff [of st k] by (auto simp: versions_ok_def gm_getd_def split: option.split)
  then show "sorted_wrt (\<lambda>x y. vr_Version x < vr_Version y) (gm_getd [] st k)"
    and "gm_getd [] st k \<noteq> [] \<Longrightarrow> CHR ''/'' \<in> set k" using assms by (auto simp: versions_ok_def)
qed

lemma sqlitePolicy_saved_rows:
  assumes law: "sqlite_law db committed pending" and it: "is_range it" and ok: "versions_ok st"
    and save: "sqlitePolicy_Save db js it d st = (d', nil)"
  shows "(n, e, i, raw) \<in> set (tb_policies (committed d')) \<longleftrightarrow> CHR ''/'' \<notin> set n \<and>
      (\<exists>x \<in> set (gm_getd [] st (n @ ''/'' @ e)). i = vr_Version x \<and> raw = raw_of js x)"
    and "x \<in> set (gm_getd [] st k) \<Longrightarrow> marshals js x"
proof -
  note t = sqlitePolicy_Save_tables [OF law save, unfolded if_P [OF refl] is_range_set [OF it]]
  have ok': "gm_ok st" "\<And>k h x. (k, h) \<in> set st \<Longrightarrow> x \<in> set h \<Longrightarrow> CHR ''/'' \<in> set k" using ok by (auto simp: versions_ok_def)
  have get: "x \<in> set (gm_getd [] st k) \<longleftrightarrow> (\<exists>h. (k, h) \<in> set st \<and> x \<in> set h)" for x k
    using gm_mem_iff [OF ok'(1), of k] by (cases "gm_get st k") (auto simp: gm_getd_def)
  show "x \<in> set (gm_getd [] st k) \<Longrightarrow> marshals js x" using t [THEN conjunct1] get by blast
  define k0 where "k0 = n @ ''/'' @ e"
  define P where "P k \<longleftrightarrow> fst (splitPolicyKey k) = n \<and> snd (splitPolicyKey k) = e" for k
  define Q where "Q x \<longleftrightarrow> i = vr_Version x \<and> raw = raw_of js x" for x
  have key: "P k \<longleftrightarrow> CHR ''/'' \<notin> set n \<and> k = k0" if "(k, h) \<in> set st" "x \<in> set h" for k h x
    using splitPolicyKey_join [OF ok'(2) [OF that]] splitPolicyKey_joined [of n e] unfolding k0_def P_def by auto
  have "(n, e, i, raw) \<in> set (tb_policies (committed d')) \<longleftrightarrow> (\<exists>k h x. (k, h) \<in> set st \<and> x \<in> set h \<and> P k \<and> Q x)"
    unfolding t [THEN conjunct2, THEN conjunct1] P_def Q_def by blast
  also have "\<dots> \<longleftrightarrow> CHR ''/'' \<notin> set n \<and> (\<exists>x h. (k0, h) \<in> set st \<and> x \<in> set h \<and> Q x)" using key by blast
  also have "\<dots> \<longleftrightarrow> CHR ''/'' \<notin> set n \<and> (\<exists>x \<in> set (gm_getd [] st k0). Q x)" using get by blast
  finally show "(n, e, i, raw) \<in> set (tb_policies (committed d')) \<longleftrightarrow> CHR ''/'' \<notin> set n \<and>
      (\<exists>x \<in> set (gm_getd [] st (n @ ''/'' @ e)). i = vr_Version x \<and> raw = raw_of js x)"
    unfolding k0_def Q_def .
qed

lemma in_order_set: "in_order rows rs \<Longrightarrow> (a, b, raw) \<in> set rs \<longleftrightarrow> (\<exists>i. (a, b, i, raw) \<in> set rows)"
proof -
  have "row_data r = (a, b, raw) \<longleftrightarrow> (\<exists>i. r = (a, b, i, raw))" for r by (cases r) auto
  then show "in_order rows rs \<Longrightarrow> (a, b, raw) \<in> set rs \<longleftrightarrow> (\<exists>i. (a, b, i, raw) \<in> set rows)"
    unfolding in_order_def by (metis (no_types, lifting) image_iff set_map)
qed

text \<open>The versioner only ever saves such states.\<close>

lemma versioner_versions_ok:
  assumes "policies_ok pv"
  shows "versions_ok (pv_versions pv)"
proof -
  have ok: "gm_ok (pv_versions pv)" "\<And>k. history_ok pv k" using assms by (auto simp: policies_ok_def)
  have "(h \<noteq> [] \<longrightarrow> CHR ''/'' \<in> set k) \<and> sorted_wrt (\<lambda>x y. vr_Version x < vr_Version y) h"
    if "(k, h) \<in> set (pv_versions pv)" for k h
  proof -
    have "hist pv k = h" using that gm_mem_iff [OF ok(1)] by (simp add: gm_getd_def)
    then have num: "\<forall>i < length h. vr_Version (h ! i) = int i + 1" and "h \<noteq> [] \<Longrightarrow> \<exists>n e. k = n @ ''/'' @ e"
      using ok(2) [of k] unfolding history_ok_def by blast+
    then have "h \<noteq> [] \<longrightarrow> CHR ''/'' \<in> set k" by auto
    moreover have "sorted_wrt (\<lambda>x y. vr_Version x < vr_Version y) h"
      using num by (simp add: sorted_wrt_iff_nth_less)
    ultimately show ?thesis by blast
  qed
  then show ?thesis using ok(1) by (auto simp: versions_ok_def)
qed

lemma sqlitePolicy_Load_same:
  assumes law: "sqlite_law db committed pending" and "sqlitePolicy_Load db js d = Inr old" "sqlitePolicy_Load db js d' = Inr st'"
    and "committed d' = committed d"
  shows "gm_getd [] st' k = gm_getd [] old k"
proof -
  from sqlitePolicy_Load_rows [OF law assms(2)] obtain rs where a: "in_order (tb_policies (committed d)) rs"
    "\<And>k. gm_getd [] old k = map (row_of js) (filter (\<lambda>r. joined_key r = k) rs)" by blast
  from sqlitePolicy_Load_rows [OF law assms(3)] obtain rs' where b: "in_order (tb_policies (committed d')) rs'"
    "\<And>k. gm_getd [] st' k = map (row_of js) (filter (\<lambda>r. joined_key r = k) rs')" by blast
  have "rs' = rs" using in_order_unique [OF b(1)] a(1) assms(4) by simp
  then show ?thesis by (simp add: a(2) b(2))
qed

text \<open>Among rows whose names have no slash, a joined key belongs to one pair of columns.\<close>

lemma joined_key_iff:
  assumes "CHR ''/'' \<in> set k" "splitPolicyKey k = (n, e)" "CHR ''/'' \<notin> set (fst r)"
  shows "joined_key r = k \<longleftrightarrow> pair_key r = (n, e)"
proof (cases r)
  case (fields a b raw)
  have k: "k = n @ ''/'' @ e" using splitPolicyKey_join [OF assms(1)] assms(2) by simp
  have "splitPolicyKey (a @ ''/'' @ b) = (a, b)" using assms(3) fields by (intro splitPolicyKey_joined) simp
  moreover have "a @ ''/'' @ b = k \<Longrightarrow> splitPolicyKey (a @ ''/'' @ b) = (n, e)" using assms(2) by simp
  ultimately have "a @ ''/'' @ b = k \<Longrightarrow> (a, b) = (n, e)" by simp
  moreover have "(a, b) = (n, e) \<Longrightarrow> a @ ''/'' @ b = k" using k by simp
  ultimately show ?thesis unfolding fields joined_key.simps pair_key.simps by blast
qed

lemma sqlitePolicy_loaded_key:
  assumes law: "sqlite_law db committed pending" and json: "json_law js" and it: "is_range it" and ok: "versions_ok st"
    and save: "sqlitePolicy_Save db js it d st = (d', nil)" and load: "sqlitePolicy_Load db js d' = Inr st'"
    and slash: "CHR ''/'' \<in> set k"
  shows "gm_getd [] st' k = gm_getd [] st k"
proof -
  note rows = sqlitePolicy_saved_rows [OF law it ok save]
  from sqlitePolicy_Load_rows [OF law load] obtain rs where rs: "in_order (tb_policies (committed d')) rs"
    "\<And>k. gm_getd [] st' k = map (row_of js) (filter (\<lambda>r. joined_key r = k) rs)" by blast
  have plain: "CHR ''/'' \<notin> set (fst r)" if "r \<in> set rs" for r
    using that in_order_set [OF rs(1)] rows(1) by (metis prod.collapse)
  obtain n e where k: "splitPolicyKey k = (n, e)" by (cases "splitPolicyKey k")
  then have ne: "k = n @ ''/'' @ e" "CHR ''/'' \<notin> set n" using splitPolicyKey_join [OF slash] by auto
  let ?h = "gm_getd [] st k"
  have "filter (\<lambda>r. joined_key r = k) rs = filter (\<lambda>r. pair_key r = (n, e)) rs"
    by (rule filter_cong [OF refl joined_key_iff [OF slash k plain]])
  also have "\<dots> = map (\<lambda>x. (n, e, raw_of js x)) ?h"
  proof (rule in_order_key [OF rs(1) versions_ok_get(1) [OF ok]])
    show "(n, e, i, raw) \<in> set (tb_policies (committed d')) \<longleftrightarrow> (\<exists>x \<in> set ?h. i = vr_Version x \<and> raw = raw_of js x)" for i raw
      using rows(1) ne by simp
  qed
  finally have "gm_getd [] st' k = map (\<lambda>x. projr (js_Unmarshal js (raw_of js x))) ?h" by (simp add: rs(2) comp_def)
  also have "\<dots> = ?h" using json_raw [OF json] rows(2) by (intro map_idI) simp
  finally show ?thesis .
qed

text \<open>
  Saving the policy versions is atomic and loses nothing: after a failed save a load gives what was
  stored before, after a successful one it gives every history, complete and in version order, under the
  key it was saved with, although the table holds the two parts of the key in separate columns.\<close>

lemma sqlite_policies_roundtrip:
  assumes law: "sqlite_law db committed pending" and json: "json_law js" and it: "is_range it" and ok: "versions_ok st"
    and save: "sqlitePolicy_Save db js it d st = (d', err)" and load: "sqlitePolicy_Load db js d' = Inr st'"
  shows "if err = nil then \<forall>k. gm_getd [] st' k = gm_getd [] st k
    else \<forall>old. sqlitePolicy_Load db js d = Inr old \<longrightarrow> (\<forall>k. gm_getd [] st' k = gm_getd [] old k)"
proof (cases "err = nil")
  case False
  then have "committed d' = committed d" using sqlitePolicy_Save_tables [OF law save] by (simp only: if_False)
  then show ?thesis using False sqlitePolicy_Load_same [OF law _ load] by auto
next
  case True
  with save have save: "sqlitePolicy_Save db js it d st = (d', nil)" by simp
  have "gm_getd [] st' k = gm_getd [] st k" for k
  proof (cases "CHR ''/'' \<in> set k")
    case True
    then show ?thesis by (rule sqlitePolicy_loaded_key [OF law json it ok save load])
  next
    case False
    from sqlitePolicy_Load_rows [OF law load] obtain rs where
      "\<And>k. gm_getd [] st' k = map (row_of js) (filter (\<lambda>r. joined_key r = k) rs)" by blast
    moreover have "filter (\<lambda>r. joined_key r = k) rs = []" for rs using False by (auto simp: filter_empty_conv)
    ultimately show ?thesis using False versions_ok_get(2) [OF ok] by (metis list.map(1))
  qed
  then show ?thesis using True by simp
qed

section \<open>Opening a database\<close>

lemma apply_pragmas_committed: "sqlite_law db committed pending \<Longrightarrow> committed (fst (apply_pragmas db ps d)) = committed d"
proof (induction ps arbitrary: d)
  case (Cons p ps)
  have "committed (fst (sd_Pragma db p d)) = committed d" by (rule sqlite_lawD(9) [OF Cons.prems])
  then show ?case using Cons
    by (cases "sd_Pragma db p d"; cases "snd (sd_Pragma db p d)") (auto simp: and_then_def wrap_db_def)
qed simp

lemma migrate_step_committed:
  assumes law: "sqlite_law db committed pending"
  shows "committed (fst (migrate_step db v d)) = committed d \<and> snd (migrate_step db v d) \<noteq> nil \<or>
     committed (fst (migrate_step db v d)) = committed d\<lparr>tb_versions := tb_versions (committed d) @ [int (v + 1)]\<rparr> \<and>
     snd (migrate_step db v d) = nil"
proof -
  let ?body = "\<lambda>d. and_then (wrap_db ''a'' (sd_Exec db (Schema v) d)) (\<lambda>d. wrap_db ''b'' (sd_Exec db (Record_version (int (v + 1))) d))"
  have "runs committed pending ?body (True \<and> True) ([Schema v] @ [Record_version (int (v + 1))])"
    by (intro runs_and_then runs_exec law)
  note tr = transaction_result [OF law this, of "\<lambda>r. r", OF _ surjective_pairing]
  define w where "w = transaction db ?body (\<lambda>r. r) d"
  have "sems ([Schema v] @ [Record_version (int (v + 1))]) (committed d) = Some (committed d\<lparr>tb_versions := tb_versions (committed d) @ [int (v + 1)]\<rparr>)"
    by simp
  with tr [of d] have t: "if snd w = nil then committed (fst w) = committed d\<lparr>tb_versions := tb_versions (committed d) @ [int (v + 1)]\<rparr>
      else committed (fst w) = committed d" unfolding w_def [symmetric] by (simp only: option.inject refl simp_thms) (metis)
  have same: "fst (migrate_step db v d) = fst w" "snd (migrate_step db v d) = nil \<longleftrightarrow> snd w = nil"
    by (auto simp: w_def migrate_step_def transaction_def and_then_def wrap_db_def split: prod.split option.split)
  from t show ?thesis unfolding same by (auto split: if_splits)
qed

lemma openControlPlaneDB_cases:
  assumes law: "sqlite_law db committed pending" and r: "openControlPlaneDB db path d = (d', err)"
  obtains "err \<noteq> nil" "committed d' = committed d"
  | d2 where "committed d2 = committed d" "err = nil \<longleftrightarrow> snd (migrateControlPlaneSchema db d2) = nil"
    "committed d' = committed (fst (migrateControlPlaneSchema db d2))"
proof (cases "path \<noteq> [] \<and> snd (sd_Open db path d) = nil")
  case False
  then show thesis using r that(1) sqlite_lawD(8) [OF law, of path d]
    by (cases "sd_Open db path d") (auto simp: openControlPlaneDB_def split: if_splits)
next
  case True
  define p where "p = apply_pragmas db pragmas (fst (sd_Open db path d))"
  have cp: "committed (fst p) = committed d"
    using apply_pragmas_committed [OF law] sqlite_lawD(8) [OF law, of path d] by (simp add: p_def)
  have d': "err = nil \<longleftrightarrow> snd (and_then p (migrateControlPlaneSchema db)) = nil"
    "committed d' = committed (fst (and_then p (migrateControlPlaneSchema db)))"
    using r True sqlite_lawD(7) [OF law] by (auto simp: openControlPlaneDB_def p_def split: prod.splits option.splits)
  show thesis
  proof (cases "snd p")
    case (Some e)
    then have "and_then p (migrateControlPlaneSchema db) = p" by (cases p) (simp add: and_then_def)
    then show thesis using that(1) d' cp Some by simp
  next
    case None
    then have "and_then p (migrateControlPlaneSchema db) = migrateControlPlaneSchema db (fst p)"
      by (cases p) (simp add: and_then_def)
    then show thesis using that(2) [OF cp] d' by simp
  qed
qed

lemma migrateControlPlaneSchema_cases:
  fixes db d defines "cur \<equiv> (case sd_LatestVersion db d of Inl _ \<Rightarrow> 0 | Inr v \<Rightarrow> v)"
  shows "migrateControlPlaneSchema db d =
    (if cur > 1 then (d, errorf (''unsupported sqlite schema version '' @ Itoa cur @ '' (latest supported: '' @ Itoa 1 @ '')''))
     else if cur = 1 then (d, nil) else migrate_step db 0 d)"
proof -
  have "[nat cur..<1] = (if cur \<ge> 1 then [] else [0])" by auto
  then show ?thesis by (auto simp: migrateControlPlaneSchema_def cur_def Let_def and_then_def split: prod.split option.split)
qed


section \<open>A reference database\<close>

text \<open>
  An in-memory database that keeps the contract: the statements act on a working copy, any operation may fail
  by its number, and the query of its version may always fail.
\<close>

record memdb =
  md_tables :: tables
  md_work :: tables
  md_tick :: nat
  md_fault :: "nat \<Rightarrow> error"

definition faulty :: "(memdb \<Rightarrow> memdb \<times> error) \<Rightarrow> memdb \<Rightarrow> memdb \<times> error" where
  "faulty f d = (let d' = d\<lparr>md_tick := Suc (md_tick d)\<rparr> in case md_fault d (md_tick d) of Some e \<Rightarrow> (d', Some e) | None \<Rightarrow> f d')"

definition mem_exec :: "sql_stmt \<Rightarrow> memdb \<Rightarrow> memdb \<times> error" where
  "mem_exec st d = (case sql_sem st (md_work d) of None \<Rightarrow> (d, errorf ''UNIQUE constraint failed'') | Some t \<Rightarrow> (d\<lparr>md_work := t\<rparr>, nil))"

definition mem_rows :: "(string \<times> string \<times> int \<times> string) list \<Rightarrow> string + sql_rows" where
  "mem_rows rows = (if distinct (map row_key rows) then Inr (map (Inr \<circ> row_data) (sort_key row_key rows), nil) else Inl ''malformed'')"

fun mem_query :: "sql_query \<Rightarrow> memdb \<Rightarrow> string + sql_rows" where
  "mem_query Select_current d = (if distinct (map pair_key (tb_current (md_tables d)))
     then Inr (map Inr (tb_current (md_tables d)), nil) else Inl ''malformed'')"
| "mem_query Select_history d = mem_rows (tb_history (md_tables d))"
| "mem_query Select_policies d = mem_rows (tb_policies (md_tables d))"

definition mem_version :: "bool \<Rightarrow> memdb \<Rightarrow> string + int" where
  "mem_version blind d = (if blind \<or> tb_versions (md_tables d) = [] then Inl ''no rows'' else Inr (Max (set (tb_versions (md_tables d)))))"

definition memory_db :: "bool \<Rightarrow> memdb sqldb" where
  "memory_db blind = \<lparr>sd_Begin = faulty (\<lambda>d. (d\<lparr>md_work := md_tables d\<rparr>, nil)), sd_Exec = \<lambda>st. faulty (mem_exec st),
     sd_Commit = faulty (\<lambda>d. (d\<lparr>md_tables := md_work d\<rparr>, nil)), sd_Rollback = \<lambda>d. d, sd_Query = mem_query,
     sd_LatestVersion = mem_version blind, sd_AnyVersion = mem_version blind, sd_Open = \<lambda>_. faulty (\<lambda>d. (d, nil)),
     sd_Pragma = \<lambda>_. faulty (\<lambda>d. (d, nil)), sd_Close = \<lambda>d. d\<rparr>"

definition empty_tables :: tables where
  "empty_tables = \<lparr>tb_current = [], tb_history = [], tb_policies = [], tb_versions = []\<rparr>"

definition mem_at :: "tables \<Rightarrow> (nat \<Rightarrow> error) \<Rightarrow> memdb" where
  "mem_at t fault = \<lparr>md_tables = t, md_work = t, md_tick = 0, md_fault = fault\<rparr>"

lemma in_order_sorted: "distinct (map row_key rows) \<Longrightarrow> in_order rows (map row_data (sort_key row_key rows))"
proof -
  assume "distinct (map row_key rows)"
  then have "distinct (map row_key (sort_key row_key rows))"
    by (metis distinct_map distinct_sort set_sort)
  moreover have "sorted (map row_key (sort_key row_key rows))" by simp
  ultimately have "sorted_wrt (<) (map row_key (sort_key row_key rows))" by (simp add: strict_sorted_iff)
  then have "sorted_wrt (\<lambda>a b. row_key a < row_key b) (sort_key row_key rows)" by (simp add: sorted_wrt_map)
  then show ?thesis unfolding in_order_def by (intro exI [of _ "sort_key row_key rows"]) simp
qed

lemma mem_rows_in_order: "mem_rows rows = Inr (map Inr rs, nil) \<Longrightarrow> in_order rows rs"
proof -
  assume r: "mem_rows rows = Inr (map Inr rs, nil)"
  then have "map (Inr :: _ \<Rightarrow> string + string \<times> string \<times> string) rs = map Inr (map row_data (sort_key row_key rows))"
    "distinct (map row_key rows)"
    by (auto simp: mem_rows_def split: if_splits)
  moreover have "inj (Inr :: _ \<Rightarrow> string + string \<times> string \<times> string)" by (simp add: inj_on_def)
  ultimately show "in_order rows rs" using in_order_sorted by (simp only: inj_map_eq_map)
qed

lemma memory_db_law: "sqlite_law (memory_db blind) md_tables md_work"
proof -
  have q: "answers q (md_tables d) rs" if "mem_query q d = Inr (map Inr rs, nil)" for q d rs
  proof (cases q)
    case Select_current
    have "inj (Inr :: _ \<Rightarrow> string + string \<times> string \<times> string)" by (simp add: inj_on_def)
    then have "rs = tb_current (md_tables d)" "distinct (map pair_key (tb_current (md_tables d)))"
      using that Select_current by (auto simp: inj_map_eq_map split: if_splits)
    then show ?thesis using Select_current by simp
  qed (use that mem_rows_in_order in auto)
  have v: "w \<in> set (tb_versions (md_tables d)) \<and> (\<forall>x \<in> set (tb_versions (md_tables d)). x \<le> w)"
    if "mem_version blind d = Inr w" for w d
    using that Max_in [of "set (tb_versions (md_tables d))"] Max_ge [of "set (tb_versions (md_tables d))"]
    by (auto simp: mem_version_def split: if_splits)
  show ?thesis unfolding sqlite_law_def
    using q v by (auto simp: memory_db_def faulty_def mem_exec_def Let_def split: option.splits)
qed


text \<open>A codec of finitely many values.\<close>

definition table_json :: "('m \<times> string) list \<Rightarrow> 'm json" where
  "table_json tab = \<lparr>js_Marshal = (\<lambda>m. case map_of tab m of None \<Rightarrow> Inl ''unsupported value'' | Some raw \<Rightarrow> Inr raw),
     js_Unmarshal = (\<lambda>raw. case map_of (map (\<lambda>(m, r). (r, m)) tab) raw of None \<Rightarrow> Inl ''unexpected end of JSON input'' | Some m \<Rightarrow> Inr m)\<rparr>"

lemma table_json_law: "distinct (map snd tab) \<Longrightarrow> json_law (table_json tab)"
proof -
  assume d: "distinct (map snd tab)"
  have "map_of (map (\<lambda>(m, r). (r, m)) tab) raw = Some m" if "map_of tab m = Some raw" for m raw
    using map_of_SomeD [OF that] d by (intro map_of_is_SomeI) (auto simp: comp_def split_def image_iff intro: bexI [of _ "(m, raw)"])
  then show ?thesis by (simp add: json_law_def table_json_def split: option.split)
qed

definition man :: "string \<Rightarrow> string \<Rightarrow> DeploymentManifest" where
  "man service version = NewDeploymentManifest 0 ''stage'' service version"

definition man_json :: "DeploymentManifest json" where
  "man_json = table_json [(man ''api'' ''1'', ''{1}''), (man ''api'' ''2'', ''{2}''), (man ''web'' ''1'', ''{3}'')]"

definition two_services :: DeploymentLedgerState where
  "two_services = \<lparr>ls_Current = [(''web'', [(''stage'', man ''web'' ''1'')]), (''api'', [(''stage'', man ''api'' ''2'')])],
     ls_History = [(''web'', [(''stage'', [man ''web'' ''1''])]), (''api'', [(''stage'', [man ''api'' ''1'', man ''api'' ''2''])])]\<rparr>"

definition rev_order :: ledger_order where
  "rev_order = \<lparr>lo_current = rev, lo_manifests = (\<lambda>_ m. m), lo_history = rev, lo_histories = (\<lambda>_. rev)\<rparr>"

definition stored_before :: tables where
  "stored_before = empty_tables\<lparr>tb_current := [(''api'', ''stage'', ''{1}'')]\<rparr>"

definition bad_disk :: "nat \<Rightarrow> error" where
  "bad_disk k = (if k = 6 then Some ''disk I/O error'' else nil)"

definition saved_ledger :: "(nat \<Rightarrow> error) \<Rightarrow> memdb \<times> error" where
  "saved_ledger fault = sqlite_Save (memory_db False) man_json rev_order (mem_at stored_before fault) two_services"

lemma ledger_hyps: "json_law man_json" "is_order rev_order" "gm2_ok (ls_Current two_services)" "gm2_ok (ls_History two_services)"
proof -
  show "json_law man_json" unfolding man_json_def by (rule table_json_law) simp
  show "is_order rev_order" by (simp add: is_order_def rev_order_def is_range_id is_range_rev)
qed (simp_all add: two_services_def gm2_ok_def gm_ok_def)

abbreviation loaded :: "memdb \<Rightarrow> DeploymentLedgerState" where
  "loaded d \<equiv> projr (sqlite_Load (memory_db False) man_json d)"

lemma sqlite_ledger_roundtrip_witness:
  "same_ledger (loaded (fst (saved_ledger (\<lambda>_. nil)))) two_services \<and>
   snd (saved_ledger bad_disk) = Some ''insert history: disk I/O error'' \<and>
   same_ledger (loaded (fst (saved_ledger bad_disk))) (loaded (mem_at stored_before bad_disk))"
proof -
  have l: "\<not> isl (sqlite_Load (memory_db False) man_json (fst (saved_ledger (\<lambda>_. nil))))"
    "\<not> isl (sqlite_Load (memory_db False) man_json (fst (saved_ledger bad_disk)))"
    "\<not> isl (sqlite_Load (memory_db False) man_json (mem_at stored_before bad_disk))"
    and err: "snd (saved_ledger (\<lambda>_. nil)) = nil" "snd (saved_ledger bad_disk) = Some ''insert history: disk I/O error''"
    by code_simp+
  have "if snd (saved_ledger f) = nil then same_ledger (loaded (fst (saved_ledger f))) two_services
      else \<forall>old. sqlite_Load (memory_db False) man_json (mem_at stored_before f) = Inr old \<longrightarrow> same_ledger (loaded (fst (saved_ledger f))) old"
    if "\<not> isl (sqlite_Load (memory_db False) man_json (fst (saved_ledger f)))" for f
    by (rule sqlite_ledger_roundtrip [OF memory_db_law ledger_hyps])
      (use that in \<open>simp_all add: saved_ledger_def sum.collapse(2)\<close>)
  from this [OF l(1)] this [OF l(2)] show ?thesis using err sum.collapse(2) [OF l(3)] by simp
qed

text \<open>Policy versions, in a database that is written in one order and read in another.\<close>

definition pver :: "string \<Rightarrow> int \<Rightarrow> PolicyVersionRecord" where
  "pver name v = \<lparr>vr_PolicyName = name, vr_Environment = ''prod'', vr_Version = v, vr_Policy = stage_policy ''prod'' name,
     vr_Actor = ''ops'', vr_Reason = [], vr_Diff = [], vr_CreatedAt = 0\<rparr>"

definition pver_json :: "PolicyVersionRecord json" where
  "pver_json = table_json [(pver ''api'' 1, ''{1}''), (pver ''api'' 2, ''{2}''), (pver ''web'' 1, ''{3}'')]"

definition two_policies :: PolicyVersionState where
  "two_policies = [(''web/prod'', [pver ''web'' 1]), (''api/prod'', [pver ''api'' 1, pver ''api'' 2])]"

definition saved_policies :: "memdb \<times> error" where
  "saved_policies = sqlitePolicy_Save (memory_db False) pver_json (\<lambda>m. m) (mem_at empty_tables (\<lambda>_. nil)) two_policies"

lemma sqlite_policies_roundtrip_witness:
  "gm_getd [] (projr (sqlitePolicy_Load (memory_db False) pver_json (fst saved_policies))) ''api/prod'' = [pver ''api'' 1, pver ''api'' 2]"
proof -
  have "snd saved_policies = nil" "\<not> isl (sqlitePolicy_Load (memory_db False) pver_json (fst saved_policies))" by code_simp+
  then have "sqlitePolicy_Save (memory_db False) pver_json (\<lambda>m. m) (mem_at empty_tables (\<lambda>_. nil)) two_policies = (fst saved_policies, nil)"
    "sqlitePolicy_Load (memory_db False) pver_json (fst saved_policies) = Inr (projr (sqlitePolicy_Load (memory_db False) pver_json (fst saved_policies)))"
    by (simp_all add: saved_policies_def prod_eq_iff)
  moreover have "json_law pver_json" unfolding pver_json_def by (rule table_json_law) simp
  moreover have "versions_ok two_policies" by (simp add: versions_ok_def two_policies_def gm_ok_def pver_def)
  ultimately have "\<forall>k. gm_getd [] (projr (sqlitePolicy_Load (memory_db False) pver_json (fst saved_policies))) k = gm_getd [] two_policies k"
    using sqlite_policies_roundtrip [OF memory_db_law _ is_range_id] by (metis (no_types, lifting))
  moreover have "gm_getd [] two_policies ''api/prod'' = [pver ''api'' 1, pver ''api'' 2]" by (simp add: two_policies_def gm_getd_def)
  ultimately show ?thesis by simp
qed


text \<open>
  The hypothesis that the version can be read is needed: a failing query is taken for a fresh database, so a
  database of version 2 is written to and marked with version 1.
\<close>

lemma unreadable_version_overwritten:
  "let r = openControlPlaneDB (memory_db True) ''cp.db'' (mem_at (empty_tables\<lparr>tb_versions := [2]\<rparr>) (\<lambda>_. nil))
   in snd r = nil \<and> tb_versions (md_tables (fst r)) = [2, 1]"
  by code_simp

end
