(* ===== verification/Dev_Loop.thy ===== *)
theory Dev_Loop
  imports Generator
begin

text \<open>
  The development command of a generated project (\<open>cmd/dev/main.go\<close>, as in \<open>examples/api-demo\<close>): which
  files it watches, how it notices changes, how it merges and queues them, the cycle that builds a new
  server next to the old one and swaps them, and the extraction of the fragment it sends to the browser.
  A cycle's \<open>fetch\<close> is \<open>fetchFragment\<close> of the running server.

  The watcher's mutex guards every decision of the loop, so each critical section is one step. Child
  processes and binaries are numbers; whether a command succeeds is an input of the step.
\<close>

section \<open>Paths\<close>

definition filepath_Clean :: "string \<Rightarrow> string" where
  "filepath_Clean p =
     (if HasPrefix p ''/'' then ''/'' @ Join (abs_path [] p) ''/''
      else case clean_rel p of [] \<Rightarrow> ''.'' | ps \<Rightarrow> Join ps ''/'')"

definition filepath_Ext :: "string \<Rightarrow> string" where
  "filepath_Ext p = (case LastIndex (last (Split p CHR ''/'')) ''.'' of
     None \<Rightarrow> [] | Some i \<Rightarrow> drop i (last (Split p CHR ''/'')))"

definition skipDirs :: "string list" where
  "skipDirs = [''bin'', ''tmp'', ''.git'', ''vendor'', ''node_modules'']"

definition watchExts :: "string list" where
  "watchExts = [''.go'', ''.templ'', ''.html'', ''.tpl'', ''.css'', ''.js'', ''.fbs'']"

definition isGenerated :: "string \<Rightarrow> bool" where
  "isGenerated clean \<longleftrightarrow> HasSuffix clean ''_templ.go'' \<or> HasSuffix clean ''manifest_gen.go'' \<or> Contains clean ''schemas/generated''"

definition isStaticAsset :: "string \<Rightarrow> bool" where
  "isStaticAsset path \<longleftrightarrow> filepath_Ext path \<in> {''.css'', ''.js'', ''.html''}"

definition routeForView :: "string \<Rightarrow> string option" where
  "routeForView sourcePath =
     (let clean = filepath_Clean sourcePath in
      if \<not> HasPrefix clean ''views/'' \<or> \<not> HasSuffix clean ''.templ'' then None
      else let name = TrimSuffix (TrimPrefix clean ''views/'') ''.templ'' in
        if name = ''layout'' \<or> Contains name ''/'' then None
        else if name = ''index'' then Some ''/''
        else Some (''/'' @ name))"

section \<open>The fragment of a page\<close>

definition fragmentContainerID :: string where
  "fragmentContainerID = ''id='' @ [CHR 0x22] @ ''fgoths-content'' @ [CHR 0x22]"

text \<open>
  The loop over the tags; \<open>Some None\<close> is a missing end tag, \<open>Some (Some pos)\<close> the position after the end
  tag of the container, and \<open>None\<close> would be a loop that never ends.
\<close>

partial_function (option) fragment_loop :: "string \<Rightarrow> nat \<Rightarrow> nat \<Rightarrow> nat option option" where
  "fragment_loop html depth pos =
     (if depth = 0 then Some (Some pos)
      else case Index (drop pos html) ''</div>'' of
          None \<Rightarrow> Some None
        | Some nextClose \<Rightarrow>
            (case Index (drop pos html) ''<div'' of
               None \<Rightarrow> fragment_loop html (depth - 1) (pos + nextClose + length ''</div>'')
             | Some nextOpen \<Rightarrow>
                 if nextOpen < nextClose then fragment_loop html (depth + 1) (pos + nextOpen + length ''<div'')
                 else fragment_loop html (depth - 1) (pos + nextClose + length ''</div>'')))"

definition extractFragment :: "string \<Rightarrow> string option option" where
  "extractFragment html =
     (case Index html fragmentContainerID of
        None \<Rightarrow> Some None
      | Some idx \<Rightarrow>
          (case LastIndex (take idx html) ''<'' of
             None \<Rightarrow> Some None
           | Some tagStart \<Rightarrow>
               (case Index (drop tagStart html) ''>'' of
                  None \<Rightarrow> Some None
                | Some tagEnd \<Rightarrow>
                    (let contentStart = tagStart + tagEnd + 1
                     in case fragment_loop html 1 contentStart of
                          None \<Rightarrow> None
                        | Some None \<Rightarrow> Some None
                        | Some (Some pos) \<Rightarrow>
                            Some (Some (take (pos - length ''</div>'' - contentStart) (drop contentStart html)))))))"

text \<open>The request to the restarted server is a parameter: its status and body, or an error.\<close>

definition fetchFragment :: "(string \<Rightarrow> (int \<times> string) option) \<Rightarrow> string \<Rightarrow> string option" where
  "fetchFragment http_Get route =
     (case http_Get route of
        None \<Rightarrow> None
      | Some (status, body) \<Rightarrow> if status \<noteq> 200 then None else Option.bind (extractFragment body) id)"

section \<open>Watched files\<close>

record fileStamp =
  fs_modUnixNano :: int
  fs_size :: int

type_synonym snapshot = "(string, fileStamp) gomap"

text \<open>What \<open>os.Stat\<close> says of a path: absent, another error, a regular file or something else.\<close>

datatype stat_result = NotExist | StatError | Regular fileStamp | Directory | Special fileStamp

definition updateWatchedSnapshot :: "(string \<Rightarrow> stat_result) \<Rightarrow> snapshot \<Rightarrow> string \<Rightarrow> snapshot \<times> bool" where
  "updateWatchedSnapshot os_Stat snapshot path =
     (let clean = filepath_Clean path in
      case os_Stat clean of
        NotExist \<Rightarrow> (AList.delete clean snapshot, True)
      | StatError \<Rightarrow> (snapshot, False)
      | Regular st \<Rightarrow>
          if filepath_Ext clean \<notin> set watchExts \<or> isGenerated clean then (snapshot, True)
          else (gm_put clean st snapshot, True)
      | _ \<Rightarrow> (snapshot, True))"

text \<open>
  A walk visits paths; a name that starts with a dot or is in \<open>skipDirs\<close> is skipped, and a directory of such a
  name with all that is below it. The walk is given by the visited entries in order, each with whether it
  is a directory.
\<close>

definition skipped_name :: "string \<Rightarrow> bool" where
  "skipped_name clean \<longleftrightarrow> (let base = Base clean in
     base \<noteq> ''.'' \<and> (base = ''.git'' \<or> HasPrefix base ''.'') \<or> base \<in> set skipDirs)"

fun snapshotWatchedFiles :: "(string \<times> stat_result) list \<Rightarrow> string option \<Rightarrow> snapshot \<Rightarrow> snapshot" where
  "snapshotWatchedFiles [] skip snapshot = snapshot"
| "snapshotWatchedFiles ((path, info) # walk) skip snapshot =
     (let clean = filepath_Clean path;
          watched = (\<not> skipped_name clean \<and> filepath_Ext clean \<in> set watchExts \<and> \<not> isGenerated clean) in
      if (case skip of None \<Rightarrow> False | Some dir \<Rightarrow> HasPrefix path (dir @ ''/'')) then snapshotWatchedFiles walk skip snapshot
      else case info of
          Directory \<Rightarrow> snapshotWatchedFiles walk (if skipped_name clean then Some path else None) snapshot
        | Regular st \<Rightarrow> snapshotWatchedFiles walk None (if watched then gm_put clean st snapshot else snapshot)
        | Special st \<Rightarrow> snapshotWatchedFiles walk None (if watched then gm_put clean st snapshot else snapshot)
        | _ \<Rightarrow> snapshotWatchedFiles walk None snapshot)"

fun first_static :: "string list \<Rightarrow> string list" where
  "first_static [] = []"
| "first_static (p # ps) =
     (if isStaticAsset p then p # ps
      else case List.extract isStaticAsset ps of
          None \<Rightarrow> p # ps
        | Some (before, q, after) \<Rightarrow> q # before @ p # after)"

definition needs_generate :: "string \<Rightarrow> bool" where
  "needs_generate path \<longleftrightarrow> filepath_Ext path = ''.fbs'' \<or> filepath_Ext path = ''.templ'' \<or> isStaticAsset path"

definition detectSnapshotChanges :: "(snapshot \<Rightarrow> snapshot) \<Rightarrow> snapshot \<Rightarrow> snapshot \<Rightarrow> string list \<times> bool" where
  "detectSnapshotChanges it prev current =
     (let changed = map fst (filter (\<lambda>(path, stamp). gm_get prev path \<noteq> Some stamp) (it current))
            @ map fst (filter (\<lambda>(path, stamp). gm_get current path = None) (it prev))
      in (first_static (sort changed), list_ex needs_generate changed))"

section \<open>Events\<close>

datatype fs_op = FsCreate | FsWrite | FsRemove | FsRename | FsChmod

definition shouldHandle :: "(string \<Rightarrow> stat_result) \<Rightarrow> string \<Rightarrow> fs_op list \<Rightarrow> bool" where
  "shouldHandle os_Stat name op =
     (let clean = filepath_Clean name; base = Base clean in
      name \<noteq> [] \<and> op \<noteq> [] \<and> list_ex (\<lambda>x. x \<noteq> FsChmod) op \<and>
      base \<noteq> [] \<and> hd base \<noteq> CHR ''.'' \<and> hd base \<noteq> CHR ''#'' \<and>
      \<not> HasSuffix base ''.swp'' \<and> \<not> HasSuffix base ''~'' \<and> \<not> isGenerated clean \<and>
      (filepath_Ext clean \<in> set watchExts \<or> os_Stat clean = Directory))"

definition mergeChangeSource :: "string \<Rightarrow> string \<Rightarrow> bool \<Rightarrow> string" where
  "mergeChangeSource current nxt hasCurrent =
     (if \<not> hasCurrent \<or> isStaticAsset nxt \<or> \<not> isStaticAsset current then nxt else current)"

text \<open>What the loop schedules for an event it handles: the source of the change and whether to generate.\<close>

definition event_change :: "string \<Rightarrow> string \<times> bool" where
  "event_change name =
     (name, if isStaticAsset name then True else filepath_Ext name = ''.templ'' \<or> filepath_Ext name = ''.fbs'')"

definition poll_change :: "(snapshot \<Rightarrow> snapshot) \<Rightarrow> snapshot \<Rightarrow> snapshot \<Rightarrow> (string \<times> bool) option" where
  "poll_change it snapshot current =
     (case detectSnapshotChanges it snapshot current of
        ([], _) \<Rightarrow> None
      | (c # _, needGenerate) \<Rightarrow> Some (c, needGenerate))"

section \<open>The loop\<close>

text \<open>
  A cycle first generates and builds, then runs the new server beside the old one until it is ready. Armed
  timers are listed with their IDs: a stopped timer whose callback already runs still fires. The last two
  fields are kept for the theorems: which changes no cycle has started on, and what was sent to browsers.
\<close>

datatype cycle =
    Building string bool
  | Swapping string nat nat

datatype message = Reload string | Fragment string string string

record dev =
  dv_timers :: "nat list"
  dv_debounceID :: nat
  dv_debouncePending :: bool
  dv_debounceSrc :: string
  dv_debounceGen :: bool
  dv_busy :: bool
  dv_pending :: bool
  dv_pendingSrc :: string
  dv_pendingGen :: bool
  dv_proc :: nat
  dv_binPath :: nat
  dv_cycles :: "cycle list"
  dv_fresh :: nat
  dv_alive :: "nat list"
  dv_bins :: "nat list"
  dv_exited :: bool
  dv_waiting :: "(string \<times> bool) list"
  dv_sent :: "message list"

definition dev_start :: dev where
  "dev_start = \<lparr>dv_timers = [], dv_debounceID = 0, dv_debouncePending = False, dv_debounceSrc = [], dv_debounceGen = False,
     dv_busy = False, dv_pending = False, dv_pendingSrc = [], dv_pendingGen = False, dv_proc = 0, dv_binPath = 0,
     dv_cycles = [], dv_fresh = 1, dv_alive = [0], dv_bins = [0], dv_exited = False, dv_waiting = [], dv_sent = []\<rparr>"

definition scheduleChange :: "string \<Rightarrow> bool \<Rightarrow> dev \<Rightarrow> dev" where
  "scheduleChange changed needGenerate d =
     (let d = d\<lparr>dv_waiting := dv_waiting d @ [(changed, needGenerate)]\<rparr> in
      if dv_busy d then
        d\<lparr>dv_pendingSrc := mergeChangeSource (dv_pendingSrc d) changed (dv_pending d), dv_pending := True,
          dv_pendingGen := dv_pendingGen d \<or> needGenerate\<rparr>
      else
        d\<lparr>dv_debounceSrc := mergeChangeSource (dv_debounceSrc d) changed (dv_debouncePending d), dv_debouncePending := True,
          dv_debounceGen := dv_debounceGen d \<or> needGenerate, dv_debounceID := dv_debounceID d + 1,
          dv_timers := dv_timers d @ [dv_debounceID d + 1]\<rparr>)"

text \<open>A file system event and a tick of the poll, on the snapshot and the loop.\<close>

definition watch_event :: "(string \<Rightarrow> stat_result) \<Rightarrow> string \<Rightarrow> fs_op list \<Rightarrow> snapshot \<times> dev \<Rightarrow> snapshot \<times> dev" where
  "watch_event os_Stat name op = (\<lambda>(snapshot, d).
     if \<not> shouldHandle os_Stat name op then (snapshot, d)
     else (fst (updateWatchedSnapshot os_Stat snapshot name),
       case event_change name of (changed, needGenerate) \<Rightarrow> scheduleChange changed needGenerate d))"

definition poll_tick :: "(snapshot \<Rightarrow> snapshot) \<Rightarrow> snapshot \<Rightarrow> snapshot \<times> dev \<Rightarrow> snapshot \<times> dev" where
  "poll_tick it current = (\<lambda>(snapshot, d).
     (current, case poll_change it snapshot current of
        None \<Rightarrow> d
      | Some (changed, needGenerate) \<Rightarrow> scheduleChange changed needGenerate d))"

text \<open>The callback of timer \<open>timerID\<close>.\<close>

definition timer_fires :: "nat \<Rightarrow> dev \<Rightarrow> dev" where
  "timer_fires timerID d =
     (let d = d\<lparr>dv_timers := remove1 timerID (dv_timers d)\<rparr> in
      if timerID \<noteq> dv_debounceID d then d
      else d\<lparr>dv_debounceSrc := [], dv_debounceGen := False, dv_debouncePending := False, dv_busy := True,
          dv_cycles := dv_cycles d @ [Building (dv_debounceSrc d) (dv_debounceGen d)], dv_waiting := []\<rparr>)"

text \<open>The end of a cycle that gave up: generating, building or starting the server failed.\<close>

definition cycle_failed :: "cycle \<Rightarrow> dev \<Rightarrow> dev" where
  "cycle_failed c d = d\<lparr>dv_cycles := remove1 c (dv_cycles d), dv_busy := False\<rparr>"

text \<open>The new binary is built and its process started, with the next number for both.\<close>

definition cycle_built :: "string \<Rightarrow> bool \<Rightarrow> dev \<Rightarrow> dev" where
  "cycle_built src gen d =
     (let n = dv_fresh d in d\<lparr>dv_fresh := n + 1, dv_alive := dv_alive d @ [n], dv_bins := dv_bins d @ [n],
        dv_cycles := remove1 (Building src gen) (dv_cycles d) @ [Swapping src n n]\<rparr>)"

text \<open>The end of \<open>runCycle\<close>: a queued change starts the next cycle.\<close>

definition cycle_end :: "dev \<Rightarrow> dev" where
  "cycle_end d =
     (if dv_pending d then
        d\<lparr>dv_pending := False, dv_pendingSrc := [], dv_pendingGen := False,
          dv_cycles := dv_cycles d @ [Building (dv_pendingSrc d) (dv_pendingGen d)], dv_waiting := []\<rparr>
      else d\<lparr>dv_busy := False\<rparr>)"

definition page_message :: "(string \<Rightarrow> string option) \<Rightarrow> string \<Rightarrow> message" where
  "page_message fetch source =
     (case routeForView source of
        Some route \<Rightarrow>
          (case fetch route of
             Some html \<Rightarrow> Fragment route html (Base source)
           | None \<Rightarrow> Reload (Base source))
      | None \<Rightarrow> Reload (Base source))"

definition cycle_ready :: "(string \<Rightarrow> string option) \<Rightarrow> string \<Rightarrow> nat \<Rightarrow> nat \<Rightarrow> dev \<Rightarrow> dev" where
  "cycle_ready fetch src newProc newBin d =
     cycle_end (d\<lparr>dv_cycles := remove1 (Swapping src newProc newBin) (dv_cycles d),
       dv_proc := newProc, dv_binPath := newBin,
       dv_alive := remove1 (dv_proc d) (dv_alive d), dv_bins := remove1 (dv_binPath d) (dv_bins d),
       dv_sent := dv_sent d @ [page_message fetch src]\<rparr>)"

definition cycle_not_ready :: "string \<Rightarrow> nat \<Rightarrow> nat \<Rightarrow> dev \<Rightarrow> dev" where
  "cycle_not_ready src newProc newBin d =
     cycle_end (d\<lparr>dv_cycles := remove1 (Swapping src newProc newBin) (dv_cycles d),
       dv_alive := remove1 newProc (dv_alive d), dv_bins := remove1 newBin (dv_bins d)\<rparr>)"

text \<open>A signal stops the serving process and ends the loop, and with it every goroutine.\<close>

definition interrupted :: "dev \<Rightarrow> dev" where
  "interrupted d = d\<lparr>dv_alive := remove1 (dv_proc d) (dv_alive d), dv_bins := remove1 (dv_binPath d) (dv_bins d),
     dv_exited := True, dv_cycles := [], dv_timers := []\<rparr>"

text \<open>The events of the loop: any change, from the watcher or the poll, at any time.\<close>

inductive dev_step :: "dev \<Rightarrow> dev \<Rightarrow> bool" where
  change: "\<not> dv_exited d \<Longrightarrow> dev_step d (scheduleChange changed gen d)"
| timer: "\<not> dv_exited d \<Longrightarrow> i \<in> set (dv_timers d) \<Longrightarrow> dev_step d (timer_fires i d)"
| fails: "\<not> dv_exited d \<Longrightarrow> Building src gen \<in> set (dv_cycles d) \<Longrightarrow> dev_step d (cycle_failed (Building src gen) d)"
| builds: "\<not> dv_exited d \<Longrightarrow> Building src gen \<in> set (dv_cycles d) \<Longrightarrow> dev_step d (cycle_built src gen d)"
| ready: "\<not> dv_exited d \<Longrightarrow> Swapping src p b \<in> set (dv_cycles d) \<Longrightarrow> dev_step d (cycle_ready fetch src p b d)"
| not_ready: "\<not> dv_exited d \<Longrightarrow> Swapping src p b \<in> set (dv_cycles d) \<Longrightarrow> dev_step d (cycle_not_ready src p b d)"
| interrupt: "\<not> dv_exited d \<Longrightarrow> dev_step d (interrupted d)"

end
