(* ===== verification/Dev_Safety.thy ===== *)
theory Dev_Safety
  imports Dev_Loop
begin

text \<open>
  The development loop: the fragment loop ends and finds the content of its container, changes are detected
  exactly, at most one cycle runs and exactly one server serves, and no change is lost unless a cycle gives
  up; and the runs in which a change is lost, a server survives and a page keeps its old layout.
\<close>

section \<open>The fragment loop ends\<close>

lemma Index_drop_le: "Index (drop pos html) sub = Some i \<Longrightarrow> pos \<le> length html \<Longrightarrow> pos + i + length sub \<le> length html"
  using Index_le [of "drop pos html" sub i] by simp

definition loop_ok :: "string \<Rightarrow> nat \<Rightarrow> nat \<Rightarrow> nat option \<Rightarrow> bool" where
  "loop_ok html depth pos r \<longleftrightarrow> (\<forall>p. r = Some p \<longrightarrow> p \<le> length html \<and> pos \<le> p \<and> (0 < depth \<longrightarrow> pos + 6 \<le> p))"

lemma fragment_loop_returns:
  "pos \<le> length html \<Longrightarrow> \<exists>r. fragment_loop html depth pos = Some r \<and> loop_ok html depth pos r"
proof (induction "length html - pos" arbitrary: depth pos rule: less_induct)
  case less
  have step: "\<exists>r. fragment_loop html d' pos' = Some r \<and> loop_ok html d' pos' r" if "pos < pos'" "pos' \<le> length html" for d' pos'
    using less(1) [of pos' d'] that by simp
  show ?case
  proof (cases "depth = 0 \<or> Index (drop pos html) ''</div>'' = None")
    case True
    then show ?thesis using less(2) by (subst fragment_loop.simps) (auto simp: loop_ok_def)
  next
    case False
    then obtain c where c: "Index (drop pos html) ''</div>'' = Some c" "depth \<noteq> 0" by auto
    then have le: "pos + c + 6 \<le> length html" using Index_drop_le [OF c(1) less(2)] by simp
    show ?thesis
    proof (cases "\<exists>k. Index (drop pos html) ''<div'' = Some k \<and> k < c")
      case True
      then obtain k where k: "Index (drop pos html) ''<div'' = Some k" "k < c" by blast
      have "fragment_loop html depth pos = fragment_loop html (depth + 1) (pos + k + 4)"
        using c k by (subst fragment_loop.simps) (simp add: eval_nat_numeral)
      moreover obtain r where "fragment_loop html (depth + 1) (pos + k + 4) = Some r" "loop_ok html (depth + 1) (pos + k + 4) r"
        using step [of "pos + k + 4" "depth + 1"] le k(2) by auto
      ultimately show ?thesis by (auto simp: loop_ok_def)
    next
      case False
      have "fragment_loop html depth pos = fragment_loop html (depth - 1) (pos + c + 6)"
        using c False by (subst fragment_loop.simps) (auto simp: eval_nat_numeral split: option.split)
      moreover obtain r where "fragment_loop html (depth - 1) (pos + c + 6) = Some r" "loop_ok html (depth - 1) (pos + c + 6) r"
        using step [of "pos + c + 6" "depth - 1"] le by auto
      ultimately show ?thesis by (auto simp: loop_ok_def)
    qed
  qed
qed

text \<open>Slicing with positions in range.\<close>

lemma page_slices:
  assumes "p + 6 \<le> q" "q \<le> length html"
  shows "html = take p html @ take (q - 6 - p) (drop p html) @ drop (q - 6) html" "length (drop (q - 6) html) \<ge> 6"
proof -
  have "drop (q - 6) html = drop (q - 6 - p) (drop p html)" using assms by simp
  then show "html = take p html @ take (q - 6 - p) (drop p html) @ drop (q - 6) html" by (simp only: append_take_drop_id)
qed (use assms in simp)

lemma take_until:
  assumes "Index (drop s html) [c] = Some i" "s \<le> length html"
  shows "s + i + 1 \<le> length html" "HasSuffix (take (s + i + 1) html) [c]"
proof -
  show le: "s + i + 1 \<le> length html" using Index_drop_le [OF assms] by simp
  have "prefix [c] (drop i (drop s html))"
    using Index_decomp [OF assms(1)] Index_le [OF assms(1)]
    by (metis append_eq_conv_conj length_take min_absorb2 prefix_def add_leD1 append_take_drop_id)
  then obtain r where "drop (s + i) html = c # r" by (auto simp: prefix_def add.commute)
  then have "html ! (s + i) = c" by (rule nth_via_drop)
  then show "HasSuffix (take (s + i + 1) html) [c]" using le by (simp add: take_Suc_conv_app_nth HasSuffix_iff)
qed



section \<open>What it extracts\<close>

text \<open>Page text in which the \<open>div\<close> tags nest; text between them has no such tag.\<close>

datatype nested = Plain string | Nest string nested nested

fun render :: "nested \<Rightarrow> string" where
  "render (Plain t) = t"
| "render (Nest t inner rest) = t @ ''<div'' @ render inner @ ''</div>'' @ render rest"

fun no_tags :: "string \<Rightarrow> bool" where
  "no_tags t \<longleftrightarrow> \<not> sublist ''<div'' t \<and> \<not> sublist ''</div>'' t"

fun nested_ok :: "nested \<Rightarrow> bool" where
  "nested_ok (Plain t) \<longleftrightarrow> no_tags t"
| "nested_ok (Nest t inner rest) \<longleftrightarrow> no_tags t \<and> nested_ok inner \<and> nested_ok rest"

lemma Index_text:
  "\<not> sublist (CHR ''<'' # s) t \<Longrightarrow> CHR ''<'' \<notin> set s \<Longrightarrow>
     Index (t @ CHR ''<'' # r) (CHR ''<'' # s) = map_option ((+) (length t)) (Index (CHR ''<'' # r) (CHR ''<'' # s))"
proof (induction t)
  case Nil
  then show ?case by (cases "Index (CHR ''<'' # r) (CHR ''<'' # s)") simp_all
next
  case (Cons c t)
  have "\<not> prefix (CHR ''<'' # s) (c # t @ CHR ''<'' # r)"
  proof
    assume p: "prefix (CHR ''<'' # s) (c # t @ CHR ''<'' # r)"
    then have "prefix s (t @ CHR ''<'' # r)" "c = CHR ''<''" by auto
    then have "prefix s t" using Cons.prems(2) by (auto simp: prefix_append prefix_Cons)
    then show False using Cons.prems(1) \<open>c = CHR ''<''\<close> by (auto simp: sublist_Cons_right)
  qed
  then have "Index ((c # t) @ CHR ''<'' # r) (CHR ''<'' # s) = map_option Suc (Index (t @ CHR ''<'' # r) (CHR ''<'' # s))"
    by (simp only: append_Cons Index.simps if_False)
  moreover have "\<not> sublist (CHR ''<'' # s) t" using Cons.prems(1) by (auto simp: sublist_Cons_right)
  ultimately have "Index ((c # t) @ CHR ''<'' # r) (CHR ''<'' # s) =
      map_option Suc (map_option ((+) (length t)) (Index (CHR ''<'' # r) (CHR ''<'' # s)))"
    using Cons.IH Cons.prems(2) by simp
  also have "\<dots> = map_option ((+) (length (c # t))) (Index (CHR ''<'' # r) (CHR ''<'' # s))"
    by (cases "Index (CHR ''<'' # r) (CHR ''<'' # s)") simp_all
  finally show ?case .
qed

lemma Index_pos: "\<not> prefix sub cs \<Longrightarrow> Index cs sub = Some k \<Longrightarrow> 0 < k"
  by (cases cs) (auto split: if_splits)

lemma Index_div:
  assumes "no_tags t"
  shows "Index (t @ ''<div'' @ r) ''<div'' = Some (length t)"
    and "Index (t @ ''<div'' @ r) ''</div>'' = Some k \<Longrightarrow> length t < k"
    and "Index (t @ ''</div>'' @ r) ''</div>'' = Some (length t)"
    and "Index (t @ ''</div>'' @ r) ''<div'' = Some k \<Longrightarrow> length t < k"
proof -
  have t: "\<not> sublist ''<div'' t" "\<not> sublist ''</div>'' t" using assms by auto
  note o = Index_text [OF t(1)] and c = Index_text [OF t(2)]
  show "Index (t @ ''<div'' @ r) ''<div'' = Some (length t)" using o [of "''div'' @ r"] by simp
  show "Index (t @ ''</div>'' @ r) ''</div>'' = Some (length t)" using c [of "''/div>'' @ r"] by simp
  have "Index (t @ ''<div'' @ r) ''</div>'' = map_option ((+) (length t)) (Index (''<div'' @ r) ''</div>'')"
    using c [of "''div'' @ r"] by (simp only: append_Cons append_Nil) simp
  then show "Index (t @ ''<div'' @ r) ''</div>'' = Some k \<Longrightarrow> length t < k"
    using Index_pos [of "''</div>''" "''<div'' @ r"] by (cases "Index (''<div'' @ r) ''</div>''") (auto simp del: Index.simps)
  have "Index (t @ ''</div>'' @ r) ''<div'' = map_option ((+) (length t)) (Index (''</div>'' @ r) ''<div'')"
    using o [of "''/div>'' @ r"] by (simp only: append_Cons append_Nil) simp
  then show "Index (t @ ''</div>'' @ r) ''<div'' = Some k \<Longrightarrow> length t < k"
    using Index_pos [of "''<div''" "''</div>'' @ r"] by (cases "Index (''</div>'' @ r) ''<div''") (auto simp del: Index.simps)
qed

lemma fragment_loop_nested:
  "nested_ok f \<Longrightarrow> html = pre @ render f @ ''</div>'' @ post \<Longrightarrow> 0 < depth \<Longrightarrow>
     fragment_loop html depth (length pre) = fragment_loop html (depth - 1) (length pre + length (render f) + 6)"
proof (induction f arbitrary: pre post depth)
  case (Plain t)
  have d: "drop (length pre) html = t @ ''</div>'' @ post" using Plain.prems(2) by simp
  have t: "no_tags t" using Plain.prems(1) by simp
  have "\<not> (\<exists>k. Index (drop (length pre) html) ''<div'' = Some k \<and> k < length t)"
    using Index_div(4) [OF t, of post] unfolding d by (meson less_asym)
  then show ?case using Plain.prems(3) Index_div(3) [OF t, of post, folded d]
    by (subst fragment_loop.simps) (auto simp: eval_nat_numeral split: option.split)
next
  case (Nest t inner rest)
  let ?r = "render inner @ ''</div>'' @ render rest @ ''</div>'' @ post"
  have d: "drop (length pre) html = t @ ''<div'' @ ?r" using Nest.prems(2) by simp
  have ok: "no_tags t" "nested_ok inner" "nested_ok rest" using Nest.prems(1) by auto
  obtain c where c: "Index (drop (length pre) html) ''</div>'' = Some c"
  proof (cases "Index (drop (length pre) html) ''</div>''")
    case None
    have "sublist ''</div>'' ((t @ ''<div'' @ render inner) @ ''</div>'' @ render rest @ ''</div>'' @ post)" by (rule sublist_appendI)
    then show thesis using None unfolding Index_None_iff d by (simp only: append_assoc)
  qed (use that in blast)
  have o: "Index (drop (length pre) html) ''<div'' = Some (length t)" unfolding d by (rule Index_div(1) [OF ok(1)])
  have "length t < c" using Index_div(2) [OF ok(1), of ?r c] c unfolding d by simp
  then have "fragment_loop html depth (length pre) = fragment_loop html (depth + 1) (length (pre @ t @ ''<div''))"
    using c o Nest.prems(3) by (subst fragment_loop.simps) (simp add: eval_nat_numeral add.assoc)
  also have "\<dots> = fragment_loop html depth (length (pre @ t @ ''<div'') + length (render inner) + 6)"
    using Nest.IH(1) [OF ok(2), of "pre @ t @ ''<div''" "render rest @ ''</div>'' @ post" "depth + 1"] Nest.prems(2) by simp
  also have "\<dots> = fragment_loop html depth (length (pre @ t @ ''<div'' @ render inner @ ''</div>''))"
    by (simp add: eval_nat_numeral add.assoc)
  also have "\<dots> = fragment_loop html (depth - 1) (length (pre @ t @ ''<div'' @ render inner @ ''</div>'') + length (render rest) + 6)"
    using Nest.IH(2) [OF ok(3), of "pre @ t @ ''<div'' @ render inner @ ''</div>''" post depth] Nest.prems(2,3) by simp
  finally show ?case by (simp add: eval_nat_numeral add.assoc)
qed

text \<open>C38. On a page with the container the fragment is exactly what stands between the container's start
  tag and its own end tag, whatever \<open>div\<close> elements are nested in it and whatever follows.\<close>

lemma extractFragment_inner:
  assumes html: "html = pre @ ''<'' @ attrs1 @ fragmentContainerID @ attrs2 @ ''>'' @ render f @ ''</div>'' @ post"
    and first: "Index html fragmentContainerID = Some (length (pre @ ''<'' @ attrs1))"
    and tag: "CHR ''<'' \<notin> set attrs1" "CHR ''>'' \<notin> set (attrs1 @ attrs2)" and f: "nested_ok f"
  shows "extractFragment html = Some (Some (render f))"
proof -
  let ?open = "''<'' @ attrs1 @ fragmentContainerID @ attrs2"
  have lt: "LastIndex (take (length (pre @ ''<'' @ attrs1)) html) ''<'' = Some (length pre)"
  proof -
    have "take (length (pre @ ''<'' @ attrs1)) html = pre @ ''<'' @ attrs1" by (simp add: html)
    moreover have "LastIndex (xs @ ''<'' @ attrs1) ''<'' = Some (length xs)" for xs
      using tag(1) LastIndex_None_iff [of attrs1 "''<''"] by (induction xs) (auto simp: sublist_Cons_right dest: set_mono_sublist)
    ultimately show ?thesis by simp
  qed
  have gt: "Index (drop (length pre) html) ''>'' = Some (length ?open)"
  proof -
    have "CHR ''>'' \<notin> set ?open" using tag(2) by (auto simp: fragmentContainerID_def)
    then have "Index (?open @ ''>'' @ r) ''>'' = Some (length ?open)" for r
      using IndexByte_Some_iff [of "?open @ ''>'' @ r" "CHR ''>''" "length ?open"]
      by (auto simp: IndexByte_def nth_append dest: nth_mem)
    from this [of "render f @ ''</div>'' @ post"] show ?thesis by (simp add: html)
  qed
  let ?p = "length (pre @ ?open @ ''>'')"
  have "fragment_loop html 1 ?p = fragment_loop html 0 (?p + length (render f) + 6)"
    using fragment_loop_nested [OF f, of html "pre @ ?open @ ''>''" post 1] by (simp add: html)
  also have "\<dots> = Some (Some (?p + length (render f) + 6))" by (subst fragment_loop.simps) simp
  finally have loop: "fragment_loop html 1 ?p = Some (Some (?p + length (render f) + 6))" .
  have "drop ?p html = render f @ ''</div>'' @ post" by (simp add: html)
  then have "take (length (render f)) (drop ?p html) = render f" by simp
  moreover have "?p = length pre + length ?open + 1" by simp
  ultimately show ?thesis using loop
    by (simp add: extractFragment_def first lt gt Let_def eval_nat_numeral del: length_append append.simps)
qed


definition demo_page :: string where
  "demo_page = ''<body><main>top</main>'' @ ''<'' @ ''div '' @ fragmentContainerID @ '' class=x'' @ ''>'' @
     render (Nest ''a'' (Plain '' class=y>b'') (Plain ''<p>c</p>'')) @ ''</div>'' @ ''</div></body>''"

lemma extractFragment_inner_witness:
  "extractFragment demo_page = Some (Some ''a<div class=y>b</div><p>c</p>'')"
proof -
  have "extractFragment demo_page = Some (Some (render (Nest ''a'' (Plain '' class=y>b'') (Plain ''<p>c</p>''))))"
  proof (rule extractFragment_inner [OF demo_page_def])
    show "Index demo_page fragmentContainerID = Some (length (''<body><main>top</main>'' @ ''<'' @ ''div ''))" by code_simp
    show "nested_ok (Nest ''a'' (Plain '' class=y>b'') (Plain ''<p>c</p>''))" by code_simp
  qed simp_all
  then show ?thesis by simp
qed

section \<open>Changes\<close>

lemma first_static_set: "set (first_static ps) = set ps"
  by (cases ps) (auto simp: extract_None_iff dest: extract_SomeE split: option.split)

lemma first_static_hd: "p \<in> set ps \<Longrightarrow> isStaticAsset p \<Longrightarrow> isStaticAsset (hd (first_static ps))"
  by (cases ps) (auto simp: extract_None_iff dest: extract_SomeE split: option.split)

lemma changed_paths:
  fixes it :: "snapshot \<Rightarrow> snapshot"
  assumes it: "is_range it" and ok: "gm_ok prev" "gm_ok current"
  defines "changed \<equiv> map fst (filter (\<lambda>(path, stamp). gm_get prev path \<noteq> Some stamp) (it current))
            @ map fst (filter (\<lambda>(path, stamp). gm_get current path = None) (it prev))"
  shows "set changed = {p. gm_get prev p \<noteq> gm_get current p}" "distinct changed"
proof -
  have new: "p \<in> set (map fst (filter (\<lambda>(path, stamp). gm_get prev path \<noteq> Some stamp) (it current))) \<longleftrightarrow>
      (\<exists>st. gm_get current p = Some st \<and> gm_get prev p \<noteq> Some st)" for p
    by (auto simp: is_range_set [OF it] gm_mem_iff [OF ok(2)] image_iff)
  have gone: "p \<in> set (map fst (filter (\<lambda>(path, stamp). gm_get current path = None) (it prev))) \<longleftrightarrow>
      (\<exists>st. gm_get prev p = Some st) \<and> gm_get current p = None" for p
    by (auto simp: is_range_set [OF it] gm_mem_iff [OF ok(1)] image_iff)
  have "p \<in> set changed \<longleftrightarrow> gm_get prev p \<noteq> gm_get current p" for p
    unfolding changed_def set_append Un_iff new gone by (cases "gm_get prev p"; cases "gm_get current p") auto
  then show "set changed = {p. gm_get prev p \<noteq> gm_get current p}" by blast
  have keys: "distinct (map fst (filter P (it m)))" if "gm_ok m" for P and m :: snapshot
    using is_range_ok [OF it that] distinct_map_filter unfolding gm_ok_def by blast
  show "distinct changed" unfolding changed_def distinct_append
  proof (intro conjI)
    show "set (map fst (filter (\<lambda>(path, stamp). gm_get prev path \<noteq> Some stamp) (it current))) \<inter>
        set (map fst (filter (\<lambda>(path, stamp). gm_get current path = None) (it prev))) = {}"
      unfolding disjoint_iff new gone by auto
  qed (rule keys [OF ok(2)], rule keys [OF ok(1)])
qed

text \<open>C39. Comparing two snapshots of the watched files finds exactly the files that appeared, vanished or
  have another time or size, in one order however the maps are ranged over, a static asset first if one
  changed; it asks for code generation exactly if one of them needs it. The poll reports a change exactly
  if the snapshots differ.\<close>

lemma detectSnapshotChanges_exact:
  assumes it: "is_range it" and ok: "gm_ok prev" "gm_ok current"
  shows "fst (detectSnapshotChanges it prev current) = first_static (sorted_list_of_set {p. gm_get prev p \<noteq> gm_get current p})
    \<and> (snd (detectSnapshotChanges it prev current) \<longleftrightarrow> (\<exists>p. gm_get prev p \<noteq> gm_get current p \<and> needs_generate p))
    \<and> set (fst (detectSnapshotChanges it prev current)) = {p. gm_get prev p \<noteq> gm_get current p}
    \<and> ((\<exists>p. gm_get prev p \<noteq> gm_get current p \<and> isStaticAsset p) \<longrightarrow> isStaticAsset (hd (fst (detectSnapshotChanges it prev current))))
    \<and> (poll_change it prev current = None \<longleftrightarrow> gm_get prev = gm_get current)"
proof -
  define ch where "ch = map fst (filter (\<lambda>(path, stamp). gm_get prev path \<noteq> Some stamp) (it current))
            @ map fst (filter (\<lambda>(path, stamp). gm_get current path = None) (it prev))"
  note ch = changed_paths [OF it ok, folded ch_def]
  have d: "detectSnapshotChanges it prev current = (first_static (sort ch), list_ex needs_generate ch)"
    by (simp add: detectSnapshotChanges_def ch_def Let_def)
  have s: "sort ch = sorted_list_of_set {p. gm_get prev p \<noteq> gm_get current p}"
    using ch by (metis sorted_list_of_set_sort_remdups remdups_id_iff_distinct)
  have set: "set (first_static (sort ch)) = {p. gm_get prev p \<noteq> gm_get current p}"
    using ch(1) by (simp add: first_static_set)
  have "list_ex needs_generate ch \<longleftrightarrow> (\<exists>p. gm_get prev p \<noteq> gm_get current p \<and> needs_generate p)"
    using ch(1) by (auto simp: list_ex_iff)
  moreover have "isStaticAsset (hd (first_static (sort ch)))" if "gm_get prev p \<noteq> gm_get current p" "isStaticAsset p" for p
    using that ch(1) by (intro first_static_hd [of p]) auto
  moreover have "poll_change it prev current = None \<longleftrightarrow> gm_get prev = gm_get current"
  proof -
    have "poll_change it prev current = None \<longleftrightarrow> set (first_static (sort ch)) = {}"
      by (cases "first_static (sort ch)") (simp_all add: poll_change_def d)
    then show ?thesis unfolding set by (auto simp: fun_eq_iff)
  qed
  ultimately show ?thesis using set unfolding d s fst_conv snd_conv by blast
qed

definition stamp_at :: "int \<Rightarrow> fileStamp" where
  "stamp_at t = \<lparr>fs_modUnixNano = t, fs_size = 10\<rparr>"

lemma detectSnapshotChanges_exact_witness:
  "detectSnapshotChanges rev [(''main.go'', stamp_at 1), (''views/a.templ'', stamp_at 1)]
      [(''main.go'', stamp_at 2), (''static/x.css'', stamp_at 1), (''views/a.templ'', stamp_at 1)] = ([''static/x.css'', ''main.go''], True) \<and>
   set (fst (detectSnapshotChanges rev [(''main.go'', stamp_at 1), (''views/a.templ'', stamp_at 1)]
      [(''main.go'', stamp_at 2), (''static/x.css'', stamp_at 1), (''views/a.templ'', stamp_at 1)])) =
     {p. gm_get [(''main.go'', stamp_at 1), (''views/a.templ'', stamp_at 1)] p \<noteq>
         gm_get [(''main.go'', stamp_at 2), (''static/x.css'', stamp_at 1), (''views/a.templ'', stamp_at 1)] p}"
proof -
  have "gm_ok [(''main.go'', stamp_at 1), (''views/a.templ'', stamp_at 1)]"
    "gm_ok [(''main.go'', stamp_at 2), (''static/x.css'', stamp_at 1), (''views/a.templ'', stamp_at 1)]" by (simp_all add: gm_ok_def)
  note exact = detectSnapshotChanges_exact [OF is_range_rev this]
  show ?thesis by (rule conjI, code_simp, use exact in blast)
qed


section \<open>One cycle, one server\<close>

text \<open>The interface of a step relation and an invariant it keeps.\<close>

locale step_invariant =
  fixes step :: "'s \<Rightarrow> 's \<Rightarrow> bool"
    and inv :: "'s \<Rightarrow> bool"
  assumes keeps: "step s t \<Longrightarrow> inv s \<Longrightarrow> inv t"
begin

lemma reach_keeps: "step\<^sup>*\<^sup>* s t \<Longrightarrow> inv s \<Longrightarrow> inv t"
  by (induction rule: rtranclp_induct) (auto intro: keeps)

end

text \<open>The process and the binary that a cycle is swapping in.\<close>

fun candidate :: "cycle \<Rightarrow> nat list" where
  "candidate (Building src gen) = []"
| "candidate (Swapping src p b) = [p]"

definition cycles_ok :: "dev \<Rightarrow> bool" where
  "cycles_ok d \<longleftrightarrow>
     (case dv_cycles d of [] \<Rightarrow> \<not> dv_busy d
      | [Building src gen] \<Rightarrow> dv_busy d
      | [Swapping src p b] \<Rightarrow> dv_busy d \<and> b = p \<and> p \<noteq> dv_proc d \<and> p < dv_fresh d
      | _ \<Rightarrow> False)"

definition dev_ok :: "dev \<Rightarrow> bool" where
  "dev_ok d \<longleftrightarrow> dv_exited d \<or>
     cycles_ok d \<and> dv_binPath d = dv_proc d \<and> dv_proc d < dv_fresh d \<and>
     dv_alive d = dv_proc d # concat (map candidate (dv_cycles d)) \<and> dv_bins d = dv_alive d \<and>
     distinct (dv_timers d) \<and> (\<forall>i\<in>set (dv_timers d). i \<le> dv_debounceID d) \<and>
     (dv_busy d \<longrightarrow> dv_debounceID d \<notin> set (dv_timers d) \<and> \<not> dv_debouncePending d)"

lemma cycles_ok_cases:
  assumes "cycles_ok d"
  obtains "dv_cycles d = []" "\<not> dv_busy d"
    | src gen where "dv_cycles d = [Building src gen]" "dv_busy d"
    | src p where "dv_cycles d = [Swapping src p p]" "dv_busy d" "p \<noteq> dv_proc d" "p < dv_fresh d"
  using assms by (auto simp: cycles_ok_def split: list.splits cycle.splits)

lemma cycles_ok_simps:
  "dv_cycles d = [] \<Longrightarrow> cycles_ok d \<longleftrightarrow> \<not> dv_busy d"
  "dv_cycles d = [Building src gen] \<Longrightarrow> cycles_ok d \<longleftrightarrow> dv_busy d"
  "dv_cycles d = [Swapping src p b] \<Longrightarrow> cycles_ok d \<longleftrightarrow> dv_busy d \<and> b = p \<and> p \<noteq> dv_proc d \<and> p < dv_fresh d"
  by (auto simp: cycles_ok_def)

lemmas dev_moves = scheduleChange_def timer_fires_def cycle_failed_def cycle_built_def cycle_ready_def
  cycle_not_ready_def cycle_end_def interrupted_def Let_def

lemma dev_step_keeps: "dev_step d d' \<Longrightarrow> dev_ok d \<Longrightarrow> dev_ok d'"
proof (induction rule: dev_step.induct)
  case (change d changed gen)
  then have "cycles_ok d" by (simp add: dev_ok_def)
  then show ?case using change
    by (cases rule: cycles_ok_cases) (auto simp: dev_ok_def dev_moves cycles_ok_simps)
next
  case (timer d i)
  then have "cycles_ok d" by (simp add: dev_ok_def)
  then show ?case using timer
    by (cases rule: cycles_ok_cases) (auto simp: dev_ok_def dev_moves cycles_ok_simps dest: notin_set_remove1 set_remove1_subset [THEN subsetD])
next
  case (fails d src gen)
  then have "cycles_ok d" by (simp add: dev_ok_def)
  then show ?case using fails
    by (cases rule: cycles_ok_cases) (auto simp: dev_ok_def dev_moves cycles_ok_simps)
next
  case (builds d src gen)
  then have "cycles_ok d" by (simp add: dev_ok_def)
  then show ?case using builds
    by (cases rule: cycles_ok_cases) (auto simp: dev_ok_def dev_moves cycles_ok_simps)
next
  case (ready d src p b fetch)
  then have "cycles_ok d" by (simp add: dev_ok_def)
  then show ?case using ready
    by (cases rule: cycles_ok_cases) (auto simp: dev_ok_def dev_moves cycles_ok_simps)
next
  case (not_ready d src p b)
  then have "cycles_ok d" by (simp add: dev_ok_def)
  then show ?case using not_ready
    by (cases rule: cycles_ok_cases) (auto simp: dev_ok_def dev_moves cycles_ok_simps)
next
  case (interrupt d)
  then show ?case by (simp add: dev_ok_def interrupted_def)
qed

interpretation dev_loop: step_invariant dev_step dev_ok
  by unfold_locales (rule dev_step_keeps)

lemma dev_start_ok: "dev_ok dev_start" by (simp add: dev_ok_def dev_start_def cycles_ok_def)

text \<open>The watcher and the poll take steps of the loop.\<close>

lemma watch_event_step: "\<not> dv_exited d \<Longrightarrow> dev_step\<^sup>*\<^sup>* d (snd (watch_event os_Stat name op (snapshot, d)))"
  by (auto simp: watch_event_def split: prod.split intro: dev_step.change)

lemma poll_tick_step: "\<not> dv_exited d \<Longrightarrow> dev_step\<^sup>*\<^sup>* d (snd (poll_tick it current (snapshot, d)))"
  by (auto simp: poll_tick_def split: option.split intro: dev_step.change)

text \<open>C32. Whatever happens and in whatever order, at most one cycle runs, and one runs exactly while the loop
  is busy. The server in charge is always alive; the only other live process is the one the cycle is
  swapping in, and the same holds for the binaries on disk: nothing an earlier cycle left is still there.\<close>

lemma dev_one_server:
  assumes "dev_step\<^sup>*\<^sup>* dev_start d" "\<not> dv_exited d"
  shows "length (dv_cycles d) \<le> 1 \<and> (dv_busy d \<longleftrightarrow> dv_cycles d \<noteq> []) \<and>
    dv_alive d = dv_proc d # concat (map candidate (dv_cycles d)) \<and> distinct (dv_alive d) \<and>
    dv_bins d = dv_alive d \<and> dv_binPath d = dv_proc d"
proof -
  have ok: "dev_ok d" using dev_loop.reach_keeps [OF assms(1) dev_start_ok] .
  then have "cycles_ok d" using assms(2) by (simp add: dev_ok_def)
  then show ?thesis using ok assms(2) by (cases rule: cycles_ok_cases) (auto simp: dev_ok_def)
qed

definition dev_swapping :: dev where
  "dev_swapping = cycle_built ''main.go'' False (timer_fires 1 (scheduleChange ''main.go'' False dev_start))"

lemma dev_swapping_reached: "dev_step\<^sup>*\<^sup>* dev_start dev_swapping"
proof -
  have "dev_step dev_start (scheduleChange ''main.go'' False dev_start)" (is "dev_step _ ?a")
    by (rule dev_step.change) (simp add: dev_start_def)
  moreover have "dev_step ?a (timer_fires 1 ?a)" (is "dev_step _ ?b")
    by (rule dev_step.timer) (simp_all add: dev_start_def dev_moves)
  moreover have "dev_step ?b dev_swapping" unfolding dev_swapping_def
    by (rule dev_step.builds) (simp_all add: dev_start_def dev_moves mergeChangeSource_def)
  ultimately show ?thesis by (meson converse_rtranclp_into_rtranclp r_into_rtranclp)
qed

lemma dev_one_server_witness:
  "dv_alive dev_swapping = [0, 1] \<and> dv_cycles dev_swapping = [Swapping ''main.go'' 1 1] \<and> distinct (dv_alive dev_swapping) \<and>
   dv_alive dev_swapping = dv_proc dev_swapping # concat (map candidate (dv_cycles dev_swapping))"
proof -
  have "\<not> dv_exited dev_swapping" by code_simp
  note server = dev_one_server [OF dev_swapping_reached this]
  have "dv_alive dev_swapping = [0, 1]" "dv_cycles dev_swapping = [Swapping ''main.go'' 1 1]" by code_simp+
  then show ?thesis using server by simp
qed


section \<open>No change is lost while no cycle gives up on one\<close>

text \<open>The source a cycle is started with for a list of changes: the last static asset among them, and the
  last change if there is none.\<close>

definition change_source :: "(string \<times> bool) list \<Rightarrow> string" where
  "change_source ws = last (case filter isStaticAsset (map fst ws) of [] \<Rightarrow> map fst ws | ss \<Rightarrow> ss)"

lemma change_source_static: "ws \<noteq> [] \<Longrightarrow> isStaticAsset (change_source ws) \<longleftrightarrow> filter isStaticAsset (map fst ws) \<noteq> []"
proof (cases "filter isStaticAsset (map fst ws)")
  case Nil
  then show "ws \<noteq> [] \<Longrightarrow> ?thesis" by (simp add: change_source_def filter_empty_conv last_map)
next
  case (Cons s ss)
  have "last (filter isStaticAsset (map fst ws)) \<in> {p \<in> set (map fst ws). isStaticAsset p}"
    using last_in_set [of "filter isStaticAsset (map fst ws)"] unfolding set_filter by (simp only: Cons) simp
  then show ?thesis using Cons by (simp add: change_source_def)
qed

lemma change_source_snoc: "change_source (ws @ [(c, g)]) = mergeChangeSource (change_source ws) c (ws \<noteq> [])"
proof (cases "isStaticAsset c \<or> ws = []")
  case True
  then show ?thesis by (auto simp: change_source_def mergeChangeSource_def split: list.split)
next
  case False
  then show ?thesis using change_source_static [of ws]
    by (cases "filter isStaticAsset (map fst ws)") (simp_all add: change_source_def mergeChangeSource_def)
qed

text \<open>A change is stranded when the loop is idle with a queued change: a cycle gave up on it.\<close>

definition stranded :: "dev \<Rightarrow> bool" where
  "stranded d \<longleftrightarrow> dv_pending d \<and> \<not> dv_busy d"

definition queued :: "(string \<times> bool) list \<Rightarrow> bool \<Rightarrow> string \<Rightarrow> bool \<Rightarrow> bool" where
  "queued ws p src gen \<longleftrightarrow> (p \<longleftrightarrow> ws \<noteq> []) \<and> (p \<longrightarrow> src = change_source ws) \<and> (gen \<longleftrightarrow> list_ex snd ws)"

lemma queued_Nil: "queued [] p src gen \<longleftrightarrow> \<not> p \<and> \<not> gen" by (auto simp: queued_def)

lemma queued_snoc: "queued ws p src gen \<Longrightarrow> queued (ws @ [(c, g)]) True (mergeChangeSource src c p) (gen \<or> g)"
  by (auto simp: queued_def change_source_snoc mergeChangeSource_def)

definition nothing_lost :: "dev \<Rightarrow> bool" where
  "nothing_lost d \<longleftrightarrow> dev_ok d \<and> (dv_exited d \<or>
     (if dv_busy d then queued (dv_waiting d) (dv_pending d) (dv_pendingSrc d) (dv_pendingGen d) \<and> \<not> dv_debounceGen d
      else queued (dv_waiting d) (dv_debouncePending d) (dv_debounceSrc d) (dv_debounceGen d) \<and> \<not> dv_pending d \<and> \<not> dv_pendingGen d \<and>
        (dv_waiting d \<noteq> [] \<longrightarrow> dv_debounceID d \<in> set (dv_timers d))))"

lemma busy_ok: "dev_ok d \<Longrightarrow> \<not> dv_exited d \<Longrightarrow> c \<in> set (dv_cycles d) \<Longrightarrow> dv_busy d \<and> \<not> dv_debouncePending d"
  unfolding dev_ok_def by (elim disjE conjE cycles_ok_cases) simp_all

lemma dev_step_loses_nothing:
  "dev_step d d' \<Longrightarrow> \<not> stranded d' \<Longrightarrow> nothing_lost d \<Longrightarrow> nothing_lost d'"
proof -
  assume step: "dev_step d d'" and kept: "\<not> stranded d'" and lost: "nothing_lost d"
  have ok': "dev_ok d'" using dev_step_keeps [OF step] lost by (simp add: nothing_lost_def)
  have ok: "dev_ok d" using lost by (simp add: nothing_lost_def)
  show ?thesis using step ok ok' kept lost
  proof (induction rule: dev_step.induct)
    case (change d changed gen)
    then show ?case by (auto simp: nothing_lost_def scheduleChange_def Let_def queued_snoc)
  next
    case (timer d i)
    then show ?case by (auto simp: nothing_lost_def timer_fires_def Let_def queued_Nil dev_ok_def)
  next
    case (fails d src gen)
    note busy_ok [OF this(3,1)]
    then show ?case using fails by (auto simp: nothing_lost_def cycle_failed_def stranded_def queued_def)
  next
    case (builds d src gen)
    then show ?case by (simp add: nothing_lost_def cycle_built_def Let_def)
  next
    case (ready d src p b fetch)
    note busy_ok [OF this(3,1)]
    then show ?case using ready
      by (cases "dv_pending d") (auto simp: nothing_lost_def cycle_ready_def cycle_end_def queued_def)
  next
    case (not_ready d src p b)
    note busy_ok [OF this(3,1)]
    then show ?case using not_ready
      by (cases "dv_pending d") (auto simp: nothing_lost_def cycle_not_ready_def cycle_end_def queued_def)
  next
    case (interrupt d)
    then show ?case by (simp add: nothing_lost_def interrupted_def)
  qed
qed

interpretation dev_queue: step_invariant "\<lambda>d d'. dev_step d d' \<and> \<not> stranded d'" nothing_lost
  by unfold_locales (blast intro: dev_step_loses_nothing)

lemma dev_start_lost: "nothing_lost dev_start"
  by (simp add: nothing_lost_def dev_start_ok) (simp add: dev_start_def queued_Nil)

text \<open>C33. As long as no cycle gives up while a change is queued, no change is ever lost: for the changes that
  no cycle has started on yet, either a timer is armed whose firing starts a cycle for them, or a cycle
  runs and, ready or not, its end starts the next one for them. The source of that cycle is the last
  static asset among the changes, or else the last change, and it generates code if one of them needs it.\<close>

lemma dev_no_change_lost:
  assumes "(\<lambda>d d'. dev_step d d' \<and> \<not> stranded d')\<^sup>*\<^sup>* dev_start d" "\<not> dv_exited d" "dv_waiting d \<noteq> []"
  defines "follow_up \<equiv> [Building (change_source (dv_waiting d)) (list_ex snd (dv_waiting d))]"
  shows "(\<not> dv_busy d \<and> dv_debounceID d \<in> set (dv_timers d) \<and> dv_cycles (timer_fires (dv_debounceID d) d) = follow_up) \<or>
    (\<exists>src p. dv_cycles d = [Swapping src p p] \<and>
       (\<forall>fetch. dv_cycles (cycle_ready fetch src p p d) = follow_up) \<and> dv_cycles (cycle_not_ready src p p d) = follow_up) \<or>
    (\<exists>src gen p. dv_cycles d = [Building src gen] \<and> dv_cycles (cycle_built src gen d) = [Swapping src p p] \<and>
       (\<forall>fetch. dv_cycles (cycle_ready fetch src p p (cycle_built src gen d)) = follow_up) \<and>
       dv_cycles (cycle_not_ready src p p (cycle_built src gen d)) = follow_up)"
proof -
  have lost: "nothing_lost d" using dev_queue.reach_keeps [OF assms(1) dev_start_lost] .
  then have "cycles_ok d" using assms(2) by (simp add: nothing_lost_def dev_ok_def)
  then show ?thesis using lost assms(2,3)
    by (cases rule: cycles_ok_cases)
      (auto simp: nothing_lost_def queued_def follow_up_def timer_fires_def cycle_built_def cycle_ready_def cycle_not_ready_def
        cycle_end_def Let_def)
qed

text \<open>A change while the new server is being swapped in: the end of the cycle starts the next one for it.\<close>

definition dev_queued :: dev where
  "dev_queued = scheduleChange ''views/a.templ'' True dev_swapping"

lemma dev_queued_reached: "(\<lambda>d d'. dev_step d d' \<and> \<not> stranded d')\<^sup>*\<^sup>* dev_start dev_queued"
proof -
  define step where "step \<equiv> \<lambda>d d'. dev_step d d' \<and> \<not> stranded d'"
  let ?a = "scheduleChange ''main.go'' False dev_start" and ?b = "timer_fires 1 (scheduleChange ''main.go'' False dev_start)"
  have "step dev_start ?a" unfolding step_def by (rule conjI, rule dev_step.change) (simp_all add: dev_start_def stranded_def dev_moves)
  moreover have "step ?a ?b"
    unfolding step_def by (rule conjI, rule dev_step.timer) (simp_all add: dev_start_def stranded_def dev_moves)
  moreover have "step ?b dev_swapping" unfolding step_def dev_swapping_def
    by (rule conjI, rule dev_step.builds) (simp_all add: dev_start_def stranded_def dev_moves mergeChangeSource_def)
  moreover have "step dev_swapping dev_queued" unfolding step_def dev_queued_def dev_swapping_def
    by (rule conjI, rule dev_step.change) (simp_all add: dev_start_def stranded_def dev_moves)
  ultimately show ?thesis unfolding step_def [symmetric] by (meson converse_rtranclp_into_rtranclp rtranclp.rtrancl_refl)
qed

lemma dev_no_change_lost_witness:
  "dv_waiting dev_queued = [(''views/a.templ'', True)] \<and>
   dv_cycles (cycle_not_ready ''main.go'' 1 1 dev_queued) = [Building ''views/a.templ'' True]"
proof -
  have w: "\<not> dv_exited dev_queued" "dv_waiting dev_queued \<noteq> []" by code_simp+
  have c: "dv_waiting dev_queued = [(''views/a.templ'', True)]" "dv_cycles dev_queued = [Swapping ''main.go'' 1 1]"
    "dv_busy dev_queued" "change_source [(''views/a.templ'', True)] = ''views/a.templ''" by code_simp+
  show ?thesis using dev_no_change_lost [OF dev_queued_reached w] by (simp add: c)
qed

section \<open>Runs that go wrong\<close>

text \<open>A change queued while a cycle runs is stranded if that cycle cannot build: no timer is armed for it and no
  cycle runs, so nothing happens until the next change or the signal, even if the queued change is the
  one that repairs the build.\<close>

definition dev_stranded :: dev where
  "dev_stranded = cycle_failed (Building ''main.go'' False)
     (scheduleChange ''main.go'' False (timer_fires 1 (scheduleChange ''main.go'' False dev_start)))"

lemma queued_change_stranded:
  "dev_step\<^sup>*\<^sup>* dev_start dev_stranded \<and> dv_waiting dev_stranded = [(''main.go'', False)] \<and>
   (dev_step dev_stranded d' \<longrightarrow> (\<exists>changed gen. d' = scheduleChange changed gen dev_stranded) \<or> d' = interrupted dev_stranded)"
proof (intro conjI impI)
  let ?a = "scheduleChange ''main.go'' False dev_start"
  have "dev_step dev_start ?a" by (rule dev_step.change) (simp add: dev_start_def)
  moreover have "dev_step ?a (timer_fires 1 ?a)" (is "dev_step _ ?b")
    by (rule dev_step.timer) (simp_all add: dev_start_def dev_moves)
  moreover have "dev_step ?b (scheduleChange ''main.go'' False ?b)" (is "dev_step _ ?c")
    by (rule dev_step.change) (simp add: dev_start_def dev_moves)
  moreover have "dev_step ?c dev_stranded" unfolding dev_stranded_def
    by (rule dev_step.fails) (simp_all add: dev_start_def dev_moves mergeChangeSource_def)
  ultimately show "dev_step\<^sup>*\<^sup>* dev_start dev_stranded" by (meson converse_rtranclp_into_rtranclp rtranclp.rtrancl_refl)
  show "dv_waiting dev_stranded = [(''main.go'', False)]" by code_simp
  have idle: "dv_timers dev_stranded = []" "dv_cycles dev_stranded = []" by code_simp+
  assume "dev_step dev_stranded d'"
  then show "(\<exists>changed gen. d' = scheduleChange changed gen dev_stranded) \<or> d' = interrupted dev_stranded"
    by cases (auto simp: idle)
qed

text \<open>A signal while a new server is being swapped in stops the serving process only: the new one, in a
  process group of its own, outlives the loop, and its binary stays on disk.\<close>

lemma interrupt_leaves_server:
  "dev_step\<^sup>*\<^sup>* dev_start (interrupted dev_swapping) \<and> dv_exited (interrupted dev_swapping) \<and>
   dv_alive (interrupted dev_swapping) = [1] \<and> dv_bins (interrupted dev_swapping) = [1]"
proof (intro conjI)
  have "dev_step dev_swapping (interrupted dev_swapping)"
    by (rule dev_step.interrupt) (simp add: dev_swapping_def dev_start_def dev_moves)
  with dev_swapping_reached show "dev_step\<^sup>*\<^sup>* dev_start (interrupted dev_swapping)" by (rule rtranclp.rtrancl_into_rtrancl)
qed code_simp+

text \<open>When the layout changes together with one view, the view is the source of the cycle, so browsers are sent
  that view's fragment and keep the old layout.\<close>

lemma layout_change_patched:
  "change_source [(''views/layout.templ'', True), (''views/about.templ'', True)] = ''views/about.templ'' \<and>
   page_message (\<lambda>route. Some ''x'') ''views/about.templ'' = Fragment ''/about'' ''x'' ''about.templ'' \<and>
   page_message fetch ''views/layout.templ'' = Reload ''layout.templ''"
proof (intro conjI)
  have "routeForView ''views/layout.templ'' = None" "Base ''views/layout.templ'' = ''layout.templ''" by code_simp+
  then show "page_message fetch ''views/layout.templ'' = Reload ''layout.templ''" by (simp add: page_message_def)
qed code_simp+

end
