(* ===== verification/Hmr_Server.thy ===== *)
theory Hmr_Server
  imports Go_Http Hmr Dev_Loop
begin

text \<open>
  Hot reload in a generated server (\<open>pkg/runtime/hmr_server.go\<close>, as in \<open>examples/api-demo\<close>): the hub of each
  server, the endpoints under \<open>/hmr/\<close>, and the writer that buffers every other answer and puts the client
  script into pages. Also what the development loop posts to the broadcast endpoint.

  A handler is the list of calls it makes on its writer. Encoding and decoding JSON and the script are
  parameters. The request multiplexer of \<open>net/http\<close> is written out for clean paths, on which it does not redirect.
\<close>

section \<open>The hub of a server\<close>

text \<open>\<open>buildEnv\<close> is the variable \<open>FGOTHS_BUILD_ID\<close>; servers are numbers.\<close>

definition HMRHub :: "string \<Rightarrow> int \<Rightarrow> nat \<Rightarrow> (nat, Hub) gomap \<Rightarrow> (nat, Hub) gomap \<times> Hub" where
  "HMRHub buildEnv unixMilli server hubs =
     (case gm_get hubs server of
        Some hub \<Rightarrow> (hubs, hub)
      | None \<Rightarrow>
          (let buildID = (if buildEnv = [] then ''dev-'' @ Itoa unixMilli else buildEnv);
               hub = NewHub buildID
           in (gm_put server hub hubs, hub)))"

section \<open>The endpoints\<close>

record broadcastMessage =
  bm_Kind :: string
  bm_Target :: string
  bm_Payload :: string
  bm_Source :: string
  bm_Route :: string

text \<open>What \<open>broadcastReload\<close> and \<open>broadcastFragment\<close> of the development loop post.\<close>

fun posted :: "message \<Rightarrow> broadcastMessage" where
  "posted (Reload source) =
     \<lparr>bm_Kind = ''reload'', bm_Target = [], bm_Payload = [], bm_Source = source, bm_Route = []\<rparr>"
| "posted (Fragment route html source) =
     \<lparr>bm_Kind = ''fragment'', bm_Target = ''#fgoths-content'', bm_Payload = html, bm_Source = source, bm_Route = route\<rparr>"

record hmr_codec =
  hc_decode :: "(string \<times> error) option \<Rightarrow> string + broadcastMessage"
  hc_meta :: "string \<Rightarrow> 16 word \<Rightarrow> 16 word \<Rightarrow> string"
  hc_script :: string

definition metaHandler :: "hmr_codec \<Rightarrow> Hub \<Rightarrow> wcall list" where
  "metaHandler codec hub =
     [HSet ''Content-Type'' ''application/json'', HSet ''Cache-Control'' ''no-cache'',
      Write (hc_meta codec (BuildID hub) SchemaMajor SchemaMinor)]"

definition message_event :: "broadcastMessage \<Rightarrow> Event" where
  "message_event msg = \<lparr>ev_Kind = bm_Kind msg, ev_Target = bm_Target msg, ev_Payload = bm_Payload msg,
     ev_Source = bm_Source msg, ev_Route = bm_Route msg, ev_SchemaMajor = 0, ev_SchemaMinor = 0, ev_BuildID = [], ev_TS = 0\<rparr>"

definition broadcastHandler :: "hmr_codec \<Rightarrow> client_range \<Rightarrow> int \<Rightarrow> Hub \<Rightarrow> HttpRequest \<Rightarrow> (Hub \<times> wcall list) outcome" where
  "broadcastHandler codec it now hub r =
     (if hq_Method r \<noteq> ''POST'' then Does (hub, http_Error ''method not allowed'' 405)
      else case hc_decode codec (hq_Body r) of
          Inl err \<Rightarrow> Does (hub, http_Error ''invalid json'' 400)
        | Inr msg \<Rightarrow>
            (let msg = (if bm_Kind msg = [] then msg\<lparr>bm_Kind := ''reload''\<rparr> else msg) in
             case Broadcast it now hub (message_event msg) of
               Does hub \<Rightarrow> Does (hub, [WriteHeader 202])
             | Waits \<Rightarrow> Waits
             | Panics \<Rightarrow> Panics))"

datatype endpoint = Meta | Events | Script | Publish

definition hmr_patterns :: "(string \<times> string \<times> endpoint) list" where
  "hmr_patterns = [(''GET'', ''/hmr/meta'', Meta), (''GET'', ''/hmr/events'', Events),
     (''GET'', ''/hmr/hmr.js'', Script), (''POST'', ''/hmr/broadcast'', Publish)]"

definition hmr_mux :: "string \<Rightarrow> string \<Rightarrow> wcall list + endpoint" where
  "hmr_mux http_method path =
     (case find (\<lambda>(m, p, e). p = path) hmr_patterns of
        None \<Rightarrow> Inl (http_Error ''404 page not found'' 404)
      | Some (m, p, e) \<Rightarrow>
          if http_method = m \<or> m = ''GET'' \<and> http_method = ''HEAD'' then Inr e
          else Inl (HSet ''Allow'' (if m = ''GET'' then ''GET, HEAD'' else m) # http_Error ''Method Not Allowed'' 405))"

section \<open>The buffering writer\<close>

text \<open>Header changes and flushes reach the wrapped writer at once; a status of 0 stands for none.\<close>

record hmrInjectWriter =
  iw_out :: "wcall list"
  iw_buf :: string
  iw_status :: int

definition new_inject :: hmrInjectWriter where
  "new_inject = \<lparr>iw_out = [], iw_buf = [], iw_status = 0\<rparr>"

fun inject_call :: "hmrInjectWriter \<Rightarrow> wcall \<Rightarrow> hmrInjectWriter" where
  "inject_call w (WriteHeader code) = w\<lparr>iw_status := code\<rparr>"
| "inject_call w (Write p) = w\<lparr>iw_buf := iw_buf w @ p\<rparr>"
| "inject_call w c = w\<lparr>iw_out := iw_out w @ [c]\<rparr>"

text \<open>\<open>http.DetectContentType\<close> compares the first 512 bytes without leading blanks with these tags, in any letter
  case and followed by a blank or the end of a tag, before it considers any other type.\<close>

definition html_tags :: "string list" where
  "html_tags = [''<!DOCTYPE HTML'', ''<HTML'', ''<HEAD'', ''<SCRIPT'', ''<IFRAME'', ''<H1'', ''<DIV'', ''<FONT'', ''<TABLE'',
     ''<A'', ''<STYLE'', ''<TITLE'', ''<B'', ''<BODY'', ''<BR'', ''<P'', ''<!--'']"

definition sniffs_html :: "string \<Rightarrow> bool" where
  "sniffs_html body =
     (let d = dropWhile (\<lambda>c. c \<in> {CHR 0x09, CHR 0x0A, CHR 0x0C, CHR 0x0D, CHR '' ''}) (take 512 body) in
      list_ex (\<lambda>t. length t < length d \<and> map upper_byte (take (length t) d) = t \<and> d ! length t \<in> {CHR '' '', CHR ''>''}) html_tags)"

definition html_utf8 :: string where
  "html_utf8 = ''text/html; charset=utf-8''"

text \<open>\<open>None\<close> is the panic of the injection.\<close>

definition finalize :: "hmrInjectWriter \<Rightarrow> wcall list option" where
  "finalize w =
     (let status = (if iw_status w = 0 then 200 else iw_status w);
          body = iw_buf w;
          contentType = Header_Get (se_header (run net_write fresh_writer (iw_out w))) ''Content-Type'';
          sniffed = (contentType = [] \<and> sniffs_html body);
          contentType = (if sniffed then html_utf8 else contentType)
      in map_option (\<lambda>body. iw_out w @ (if sniffed then [HSet ''Content-Type'' html_utf8] else []) @
             [HSet ''Content-Length'' (Itoa (int (length body))), WriteHeader status, Write body])
           (if 200 \<le> status \<and> status < 300 \<and> Contains contentType ''text/html'' then InjectClientScript body else Some body))"

section \<open>WithHMR\<close>

datatype hmr_reply = Reply "wcall list" | EventStream | HandlerPanic

definition hmr_ServeHTTP ::
  "hmr_codec \<Rightarrow> client_range \<Rightarrow> int \<Rightarrow> ('s \<Rightarrow> HttpRequest \<Rightarrow> 's \<times> wcall list) \<Rightarrow> Hub \<Rightarrow> 's \<Rightarrow> HttpRequest \<Rightarrow>
     Hub \<times> 's \<times> hmr_reply" where
  "hmr_ServeHTTP codec it now inner hub s r =
     (if HasPrefix (hq_Path r) ''/hmr/'' then
        case hmr_mux (hq_Method r) (hq_Path r) of
          Inl calls \<Rightarrow> (hub, s, Reply calls)
        | Inr Meta \<Rightarrow> (hub, s, Reply (metaHandler codec hub))
        | Inr Events \<Rightarrow> (hub, s, EventStream)
        | Inr Script \<Rightarrow> (case ScriptHandler (hc_script codec) of (hs, body) \<Rightarrow>
            (hub, s, Reply (map (\<lambda>(k, v). HSet k v) hs @ [Write body])))
        | Inr Publish \<Rightarrow> (case broadcastHandler codec it now hub r of
              Does (hub, calls) \<Rightarrow> (hub, s, Reply calls)
            | _ \<Rightarrow> (hub, s, HandlerPanic))
      else
        (let (s, calls) = inner s r in
         (hub, s, case finalize (run inject_call new_inject calls) of None \<Rightarrow> HandlerPanic | Some calls \<Rightarrow> Reply calls)))"

end
