(* ===== verification/Commands.thy ===== *)
theory Commands
  imports Dev_Loop
begin

text \<open>
  Further commands of \<open>internal/cli\<close>: the synchronisation of the runtime templates (\<open>sync_templates.go\<close>), the
  scan for routes (\<open>routes.go\<close>), the watch mode of \<open>generate\<close> (\<open>generate.go\<close>), the bill of materials of \<open>build\<close>
  (\<open>build.go\<close>) and the start of the control plane (\<open>controlplane.go\<close>). Printing is left out.
\<close>

section \<open>sync-templates\<close>

definition runtimeSyncFiles :: "(string, string) gomap" where
  "runtimeSyncFiles = [
    (''router.go'', ''base/pkg/runtime/router.go.tpl''),
    (''server.go'', ''base/pkg/runtime/server.go.tpl''),
    (''proxy.go'', ''base/pkg/runtime/proxy.go.tpl''),
    (''requestid.go'', ''base/pkg/runtime/requestid.go.tpl''),
    (''metrics.go'', ''base/pkg/runtime/metrics.go.tpl''),
    (''health.go'', ''base/pkg/runtime/health.go.tpl''),
    (''hmr/hmr.go'', ''base/pkg/runtime/hmr/hmr.go.tpl''),
    (''hmr/client.go'', ''base/pkg/runtime/hmr/client.go.tpl''),
    (''hmr/codec.go'', ''base/pkg/runtime/hmr/codec.go.tpl''),
    (''auth.go'', ''features/jwt-auth/pkg/runtime/auth.go.tpl''),
    (''otel.go'', ''features/otel/pkg/runtime/otel.go.tpl''),
    (''tls.go'', ''features/mtls/pkg/runtime/tls.go.tpl''),
    (''identity.go'', ''features/mtls/pkg/runtime/identity.go.tpl'')]"

text \<open>Paths in the repository, whose root is the root of the tree.\<close>

definition runtimeSourceDir :: "string list" where
  "runtimeSourceDir = [''pkg'', ''runtime'']"

definition templateDestDir :: "string list" where
  "templateDestDir = [''internal'', ''generator'', ''templates'']"

definition sync_source :: "string \<Rightarrow> string list" where
  "sync_source name = runtimeSourceDir @ Split name CHR ''/''"

definition sync_template :: "string \<Rightarrow> string list" where
  "sync_template name = templateDestDir @ Split (gm_getd [] runtimeSyncFiles name) CHR ''/''"

text \<open>The result is whether a template drifted and the error; a read that finds no template yields nothing.\<close>

fun sync_loop :: "bool \<Rightarrow> bool \<Rightarrow> project \<Rightarrow> string list \<Rightarrow> project \<times> bool \<times> error" where
  "sync_loop checkOnly drifted w [] = (w, drifted, nil)"
| "sync_loop checkOnly drifted w (name # names) =
     (let srcPath = sync_source name; dstPath = sync_template name in
      case read_file w srcPath of
        (w, Inl err) \<Rightarrow> (w, drifted, Some (''read '' @ Join srcPath ''/'' @ '': '' @ err))
      | (w, Inr src) \<Rightarrow>
          if Contains src ''{{'' then
            (w, drifted, Some (Join srcPath ''/'' @ '' contains Go template directives and cannot be synced verbatim''))
          else case read_file w dstPath of (w, dst) \<Rightarrow>
            (if (case dst of Inl err \<Rightarrow> err \<noteq> ENOENT | _ \<Rightarrow> False) then
               (w, drifted, Some (''read '' @ Join dstPath ''/'' @ '': '' @ (case dst of Inl err \<Rightarrow> err | _ \<Rightarrow> [])))
             else if src = (case dst of Inr c \<Rightarrow> c | _ \<Rightarrow> []) then sync_loop checkOnly drifted w names
             else if checkOnly then sync_loop checkOnly True w names
             else case write_file w dstPath src 420 of
                 (w, Inl err) \<Rightarrow> (w, True, Some (''write '' @ Join dstPath ''/'' @ '': '' @ err))
               | (w, Inr _) \<Rightarrow> sync_loop checkOnly True w names))"

definition syncRuntimeTemplates :: "bool \<Rightarrow> project \<Rightarrow> project \<times> bool \<times> error" where
  "syncRuntimeTemplates checkOnly w = sync_loop checkOnly False w (sort (map fst runtimeSyncFiles))"

text \<open>The exit status.\<close>

definition RunSyncTemplates :: "string list \<Rightarrow> project \<Rightarrow> project \<times> nat" where
  "RunSyncTemplates args w =
     (let checkOnly = (''--check'' \<in> set args) in
      case syncRuntimeTemplates checkOnly w of
        (w, drifted, Some err) \<Rightarrow> (w, 1)
      | (w, drifted, None) \<Rightarrow> (w, if checkOnly \<and> drifted then 1 else 0))"

section \<open>routes\<close>

record routeListing =
  ro_Method :: string
  ro_Path :: string
  ro_File :: string
  ro_Line :: nat

text \<open>
  The three regular expressions. A matcher takes the text from a position on and yields the groups;
  \<open>first_match\<close> tries the positions from the left. Each expression has at most one match from a position.
\<close>

fun first_match :: "(string \<Rightarrow> 'a option) \<Rightarrow> string \<Rightarrow> 'a option" where
  "first_match m [] = m []"
| "first_match m (c # s) = (case m (c # s) of Some x \<Rightarrow> Some x | None \<Rightarrow> first_match m s)"

definition blank :: "char \<Rightarrow> bool" where
  "blank c \<longleftrightarrow> c \<in> {CHR 0x09, CHR 0x0A, CHR 0x0C, CHR 0x0D, CHR '' ''}"

abbreviation quotemark :: char where "quotemark \<equiv> CHR 0x22"

text \<open>What follows a fixed text; blanks, and then a text; one of several texts.\<close>

definition after :: "string \<Rightarrow> string \<Rightarrow> string option" where
  "after t s = (if prefix t s then Some (drop (length t) s) else None)"

definition after_blanks :: "string \<Rightarrow> string \<Rightarrow> string option" where
  "after_blanks t s = after t (dropWhile blank s)"

fun after_one :: "string list \<Rightarrow> string \<Rightarrow> (string \<times> string) option" where
  "after_one [] s = None"
| "after_one (t # ts) s = (case after t s of Some r \<Rightarrow> Some (t, r) | None \<Rightarrow> after_one ts s)"

definition quoted :: "string \<Rightarrow> string option" where
  "quoted s = (case after_blanks [quotemark] s of
     None \<Rightarrow> None
   | Some r \<Rightarrow>
       (let g = takeWhile (\<lambda>c. c \<noteq> quotemark) r in
        if g = [] \<or> length g = length r then None else Some g))"

definition muxRegisterPattern :: "string \<Rightarrow> string option" where
  "muxRegisterPattern s = Option.bind (after ''mux.'' s) (\<lambda>s.
     Option.bind (after_one [''HandleFunc('', ''Handle(''] s) (\<lambda>(f, s). quoted s))"

definition serverMethodPattern :: "string \<Rightarrow> (string \<times> string) option" where
  "serverMethodPattern s = Option.bind (after_one [''server.'', ''registrar.''] s) (\<lambda>(v, s).
     Option.bind (after_one [''Get('', ''Post('', ''Put('', ''Patch('', ''Delete('', ''Any(''] s) (\<lambda>(m, s).
       map_option (Pair (butlast m)) (quoted s)))"

definition serverHandlePattern :: "string \<Rightarrow> (string \<times> string) option" where
  "serverHandlePattern s = Option.bind (after_one [''server.Handle('', ''registrar.Handle(''] s) (\<lambda>(v, s).
     Option.bind (after_blanks ''http.Method'' s) (\<lambda>s.
       Option.bind (after_one [''Get'', ''Post'', ''Put'', ''Patch'', ''Delete''] s) (\<lambda>(m, s).
         Option.bind (after_blanks '','' s) (\<lambda>s. map_option (Pair m) (quoted s)))))"

definition route_in_line :: "string \<Rightarrow> (string \<times> string) option" where
  "route_in_line line =
     (case first_match muxRegisterPattern line of
        Some p \<Rightarrow> Some (case SplitN2 p CHR '' '' of [m, path] \<Rightarrow> (m, path) | _ \<Rightarrow> (''ANY'', p))
      | None \<Rightarrow>
          (case first_match serverMethodPattern line of
             Some (m, p) \<Rightarrow> Some (ToUpper m, p)
           | None \<Rightarrow>
               (case first_match serverHandlePattern line of
                  Some (m, p) \<Rightarrow> Some (ToUpper m, p)
                | None \<Rightarrow> None)))"

fun routes_in_lines :: "string \<Rightarrow> nat \<Rightarrow> string list \<Rightarrow> routeListing list" where
  "routes_in_lines path lineNumber [] = []"
| "routes_in_lines path lineNumber (line # lines) =
     (case route_in_line line of
        Some (m, p) \<Rightarrow> \<lparr>ro_Method = m, ro_Path = p, ro_File = path, ro_Line = lineNumber + 1\<rparr> # routes_in_lines path (lineNumber + 1) lines
      | None \<Rightarrow> routes_in_lines path (lineNumber + 1) lines)"

definition watch_segments :: "string list" where
  "watch_segments = [''.git'', ''bin'', ''node_modules'', ''vendor'', ''dist'', ''coverage'', ''schemas/generated'']"

definition shouldSkipWatchDir :: "string \<Rightarrow> bool" where
  "shouldSkipWatchDir path \<longleftrightarrow> path = [] \<or>
     (let clean = filepath_Clean path in
      list_ex (\<lambda>segment. clean = segment \<or> HasSuffix clean (''/'' @ segment) \<or> Contains clean (''/'' @ segment @ ''/'')) watch_segments)"

text \<open>
  The walk visits entries in order: a directory, a file that can be read, or one that cannot (or whose visit
  reports an error). Below a skipped directory nothing is visited.
\<close>

datatype walk_entry = WalkDir | WalkFile string | WalkError

fun scanRoutes :: "(string \<times> walk_entry) list \<Rightarrow> string option \<Rightarrow> routeListing list" where
  "scanRoutes [] skip = []"
| "scanRoutes ((path, info) # walk) skip =
     (if (case skip of None \<Rightarrow> False | Some dir \<Rightarrow> HasPrefix path (dir @ ''/'')) then scanRoutes walk skip
      else case info of
          WalkError \<Rightarrow> scanRoutes walk None
        | WalkDir \<Rightarrow> scanRoutes walk (if shouldSkipWatchDir (Base path) then Some path else None)
        | WalkFile content \<Rightarrow>
            if \<not> HasSuffix path ''.go'' \<or> HasSuffix path ''_test.go'' then scanRoutes walk None
            else routes_in_lines path 0 (Split content CHR 0x0A) @ scanRoutes walk None)"


section \<open>generate --watch\<close>

definition isIgnoredWatchPath :: "string \<Rightarrow> bool" where
  "isIgnoredWatchPath path \<longleftrightarrow> path = [] \<or>
     (let clean = filepath_Clean path in
      HasPrefix clean ''.git/'' \<or> clean = ''.git'' \<or>
      list_ex (\<lambda>segment. clean = segment \<or> HasPrefix clean (segment @ ''/'') \<or> Contains clean (''/'' @ segment @ ''/''))
        [''bin'', ''node_modules'', ''vendor'', ''dist'', ''coverage'', ''schemas/generated''])"

definition watched_exts :: "string list" where
  "watched_exts = [''.go'', ''.templ'', ''.fbs'', ''.css'', ''.js'', ''.ts'', ''.tsx'', ''.html'', ''.yaml'', ''.yml'', ''.json'',
     ''.sql'', ''.md'', ''.txt'']"

definition shouldHandleWatchEvent :: "(string \<Rightarrow> stat_result) \<Rightarrow> string \<Rightarrow> fs_op list \<Rightarrow> bool" where
  "shouldHandleWatchEvent os_Stat path op =
     (let clean = filepath_Clean path in
      path \<noteq> [] \<and> op \<noteq> [] \<and> \<not> isIgnoredWatchPath path \<and> list_ex (\<lambda>x. x \<noteq> FsChmod) op \<and>
      \<not> HasSuffix clean ''.swp'' \<and> \<not> HasSuffix clean ''.tmp'' \<and> \<not> HasSuffix clean ''~'' \<and>
      (os_Stat clean = Directory \<or> ToLower (filepath_Ext clean) \<in> set watched_exts \<or>
       HasSuffix clean ''/go.mod'' \<or> HasSuffix clean ''/Makefile'' \<or> HasSuffix clean ''/Dockerfile''))"

text \<open>
  The loop: the timers that are armed or whose callback is about to run, the one \<open>regenTimer\<close> points to, the
  regenerations that run, and whether a change came in after the last of them began.
\<close>

record generate_watch =
  gw_timers :: "nat list"
  gw_regenTimer :: "nat option"
  gw_fresh :: nat
  gw_running :: "nat list"
  gw_stale :: bool

definition watch_start :: generate_watch where
  "watch_start = \<lparr>gw_timers = [], gw_regenTimer = None, gw_fresh = 0, gw_running = [], gw_stale = False\<rparr>"

text \<open>Stopping the old timer works unless its callback has begun.\<close>

definition regenerate_later :: "bool \<Rightarrow> generate_watch \<Rightarrow> generate_watch" where
  "regenerate_later stopped g =
     g\<lparr>gw_timers := (case gw_regenTimer g of
          Some t \<Rightarrow> if stopped then removeAll t (gw_timers g) else gw_timers g
        | None \<Rightarrow> gw_timers g) @ [gw_fresh g],
       gw_regenTimer := Some (gw_fresh g), gw_fresh := gw_fresh g + 1, gw_stale := True\<rparr>"

definition regen_fires :: "nat \<Rightarrow> generate_watch \<Rightarrow> generate_watch" where
  "regen_fires t g = g\<lparr>gw_timers := remove1 t (gw_timers g), gw_regenTimer := None,
     gw_running := gw_running g @ [t], gw_stale := False\<rparr>"

inductive watch_step :: "generate_watch \<Rightarrow> generate_watch \<Rightarrow> bool" where
  event: "watch_step g (regenerate_later stopped g)"
| fires: "t \<in> set (gw_timers g) \<Longrightarrow> watch_step g (regen_fires t g)"
| finishes: "t \<in> set (gw_running g) \<Longrightarrow> watch_step g (g\<lparr>gw_running := remove1 t (gw_running g)\<rparr>)"

section \<open>build --sbom\<close>

record Module =
  mo_Path :: string
  mo_Version :: string
  mo_Sum :: string

text \<open>A dependency with what replaces it, and what the linker embeds.\<close>

type_synonym dependency = "Module \<times> Module option"

record BuildInfo =
  bi_GoVersion :: string
  bi_Main :: Module
  bi_Deps :: "dependency list"
  bi_Settings :: "(string \<times> string) list"

record cycloneDXComponent =
  cc_Type :: string
  cc_BOMRef :: string
  cc_Name :: string
  cc_Version :: string
  cc_PURL :: string
  cc_Properties :: "(string \<times> string) list"

record cycloneDXBOM =
  cb_BOMFormat :: string
  cb_SpecVersion :: string
  cb_Version :: int
  cb_Timestamp :: string
  cb_Tools :: "cycloneDXComponent list"
  cb_Component :: cycloneDXComponent
  cb_Components :: "cycloneDXComponent list"

definition goModuleComponent :: "string \<Rightarrow> string \<Rightarrow> string \<Rightarrow> cycloneDXComponent" where
  "goModuleComponent kind path version =
     (let purl = ''pkg:golang/'' @ path @ (if version \<noteq> [] \<and> version \<noteq> ''(devel)'' then ''@'' @ version else [])
      in \<lparr>cc_Type = kind, cc_BOMRef = purl, cc_Name = path, cc_Version = version, cc_PURL = purl, cc_Properties = []\<rparr>)"

definition linked :: "dependency \<Rightarrow> Module" where
  "linked dep = (case snd dep of None \<Rightarrow> fst dep | Some m \<Rightarrow> m)"

definition dependency_component :: "dependency \<Rightarrow> cycloneDXComponent" where
  "dependency_component dep =
     (let component = goModuleComponent ''library'' (mo_Path (linked dep)) (mo_Version (linked dep))
      in component\<lparr>cc_Properties :=
           (if snd dep \<noteq> None then [(''golang:replaces'', mo_Path (fst dep) @ ''@'' @ mo_Version (fst dep))] else []) @
           (if mo_Sum (linked dep) \<noteq> [] then [(''golang:sum'', mo_Sum (linked dep))] else [])\<rparr>)"

definition stdlib_component :: "string \<Rightarrow> cycloneDXComponent" where
  "stdlib_component goVersion =
     (let ref = ''pkg:golang/stdlib@'' @ TrimPrefix goVersion ''go''
      in \<lparr>cc_Type = ''library'', cc_BOMRef = ref, cc_Name = ''stdlib'', cc_Version = goVersion, cc_PURL = ref, cc_Properties = []\<rparr>)"

definition newCycloneDXBOM :: "string \<Rightarrow> BuildInfo \<Rightarrow> string \<Rightarrow> cycloneDXBOM" where
  "newCycloneDXBOM cliVersion info timestamp =
     (let app = goModuleComponent ''application'' (mo_Path (bi_Main info)) (mo_Version (bi_Main info))
      in \<lparr>cb_BOMFormat = ''CycloneDX'', cb_SpecVersion = ''1.5'', cb_Version = 1, cb_Timestamp = timestamp,
          cb_Tools = [\<lparr>cc_Type = ''application'', cc_BOMRef = [], cc_Name = ''fgoths'', cc_Version = cliVersion, cc_PURL = [], cc_Properties = []\<rparr>],
          cb_Component = app\<lparr>cc_Properties := (''golang:toolchain'', bi_GoVersion info) #
            map (\<lambda>(k, v). (''golang:build:'' @ k, v)) (bi_Settings info)\<rparr>,
          cb_Components = stdlib_component (bi_GoVersion info) # map dependency_component (bi_Deps info)\<rparr>)"

section \<open>controlplane\<close>

record cp_options =
  co_addr :: string
  co_store :: string
  co_token :: string

definition cp_option :: "cp_options \<Rightarrow> string \<Rightarrow> cp_options" where
  "cp_option opts arg =
     (if HasPrefix arg ''--addr='' then opts\<lparr>co_addr := TrimPrefix arg ''--addr=''\<rparr>
      else if HasPrefix arg ''--store='' then opts\<lparr>co_store := TrimPrefix arg ''--store=''\<rparr>
      else if HasPrefix arg ''--token='' then opts\<lparr>co_token := TrimPrefix arg ''--token=''\<rparr>
      else opts)"

definition cp_options_of :: "string \<Rightarrow> string list \<Rightarrow> cp_options" where
  "cp_options_of tokenEnv args =
     foldl cp_option \<lparr>co_addr = '':9091'', co_store = ''controlplane-ledger.json'', co_token = tokenEnv\<rparr> args"

text \<open>The store a specification selects, and what the command does: it exits with 1 or serves.\<close>

datatype store_spec = SqliteStore string | JsonStore string

definition cp_store_spec :: "string \<Rightarrow> store_spec" where
  "cp_store_spec storeSpec =
     (if HasPrefix storeSpec ''sqlite://'' then SqliteStore (TrimPrefix storeSpec ''sqlite://'') else JsonStore storeSpec)"

datatype cp_run = Exits nat | Serves string store_spec string

text \<open>\<open>open_stores\<close> is the error of opening the SQLite stores at a path.\<close>

definition RunControlPlane :: "(string \<Rightarrow> error) \<Rightarrow> string \<Rightarrow> string list \<Rightarrow> cp_run" where
  "RunControlPlane open_stores tokenEnv args =
     (let opts = cp_options_of tokenEnv args in
      if TrimSpace (co_token opts) = [] then Exits 1
      else case cp_store_spec (co_store opts) of
          SqliteStore path \<Rightarrow> (case open_stores path of Some err \<Rightarrow> Exits 1 | None \<Rightarrow> Serves (co_addr opts) (SqliteStore path) (co_token opts))
        | JsonStore path \<Rightarrow> Serves (co_addr opts) (JsonStore path) (co_token opts))"

end
