(* ===== verification/Commands_Safety.thy ===== *)
theory Commands_Safety
  imports Commands Dev_Safety
begin

text \<open>
  What the commands guarantee: the templates are the runtime sources after a synchronisation, the scan finds
  the registrations of routes, a change is regenerated for, components of a bill of materials are the linked
  modules, and the control plane is not started without a token.
\<close>

section \<open>Templates\<close>

definition text_at :: "project \<Rightarrow> string list \<Rightarrow> string option" where
  "text_at w p = (case node_at w p of Some (File c m) \<Rightarrow> Some c | _ \<Rightarrow> None)"

lemma text_at_same: "node_at w' p = node_at w p \<Longrightarrow> text_at w' p = text_at w p" by (simp add: text_at_def)

lemma read_file_text:
  "read_file w p = (w', Inr c) \<Longrightarrow> text_at w p = Some c \<and> pj_nodes w' = pj_nodes w"
  using read_file_same [of w p]
  by (auto simp: read_file_def attempt_def text_at_def split: option.splits node.splits)

lemma read_file_ENOENT:
  "read_file w p = (w', Inl err) \<Longrightarrow> pj_nodes w' = pj_nodes w"
  using read_file_same [of w p] by simp

lemma read_file_ok:
  assumes "\<And>n. pj_fault w n = nil"
  shows "text_at w p = Some c \<Longrightarrow> read_file w p = (pj_next w, Inr c)"
    and "node_at w p = None \<Longrightarrow> read_file w p = (pj_next w, Inl ENOENT)"
  using assms by (auto simp: read_file_def attempt_def text_at_def split: option.splits node.splits)

lemma read_file_split:
  obtains w1 r where "pj_nodes w1 = pj_nodes w" "pj_fault w1 = pj_fault w" "read_file w p = (w1, r)"
  using read_file_same [of w p] faults_kept(2) [of w p] by (metis prod.collapse)

text \<open>One round: it ends the loop or goes on with the next file, and what it may have written.\<close>

lemma sync_round:
  "\<exists>w1. pj_fault w1 = pj_fault w \<and> (\<forall>p. p \<noteq> sync_template name \<or> checkOnly \<longrightarrow> node_at w1 p = node_at w p) \<and>
     ((\<exists>d err. sync_loop checkOnly drifted w (name # names) = (w1, d, Some err)) \<or>
      (\<exists>d. sync_loop checkOnly drifted w (name # names) = sync_loop checkOnly d w1 names))"
proof -
  obtain w1 src where w1: "pj_nodes w1 = pj_nodes w" "pj_fault w1 = pj_fault w" "read_file w (sync_source name) = (w1, src)"
    by (rule read_file_split)
  obtain w2 dst where w2: "pj_nodes w2 = pj_nodes w1" "pj_fault w2 = pj_fault w1" "read_file w1 (sync_template name) = (w2, dst)"
    by (rule read_file_split)
  show ?thesis
  proof (cases src)
    case (Inl err)
    then show ?thesis using w1 by (intro exI [of _ w1]) simp
  next
    case (Inr c)
    obtain w3 r where w3: "write_file w2 (sync_template name) c 420 = (w3, r)" by fastforce
    then have keeps: "pj_fault w3 = pj_fault w2" "p \<noteq> sync_template name \<Longrightarrow> node_at w3 p = node_at w2 p" for p
      using write_file_fault [of w2 "sync_template name" c 420] write_file_other [of p "sync_template name" w2 c 420] by simp_all
    show ?thesis
    proof (cases "Contains c ''{{''")
      case True
      then show ?thesis using w1 Inr by (intro exI [of _ w1]) simp
    next
      case False
      have next_names: "sync_loop checkOnly drifted w (name # names) =
          (if (case dst of Inl err \<Rightarrow> err \<noteq> ENOENT | _ \<Rightarrow> False) then
             (w2, drifted, Some (''read '' @ Join (sync_template name) ''/'' @ '': '' @ (case dst of Inl err \<Rightarrow> err | _ \<Rightarrow> [])))
           else if c = (case dst of Inr d \<Rightarrow> d | _ \<Rightarrow> []) then sync_loop checkOnly drifted w2 names
           else if checkOnly then sync_loop checkOnly True w2 names
           else case r of Inl err \<Rightarrow> (w3, True, Some (''write '' @ Join (sync_template name) ''/'' @ '': '' @ err))
              | Inr _ \<Rightarrow> sync_loop checkOnly True w3 names)"
        using w1 w2 w3 Inr False by (cases r; cases checkOnly) (simp_all add: Let_def)
      show ?thesis
        using w1 w2 keeps unfolding next_names
        by (cases checkOnly; cases r; intro exI [of _ "if (case dst of Inl err \<Rightarrow> err \<noteq> ENOENT | _ \<Rightarrow> False) \<or>
            c = (case dst of Inr d \<Rightarrow> d | _ \<Rightarrow> []) \<or> checkOnly then w2 else w3"]) auto
    qed
  qed
qed

declare sync_loop.simps(2) [simp del]

lemma sync_loop_keeps:
  "p \<notin> sync_template ` set names \<or> checkOnly \<Longrightarrow> node_at (fst (sync_loop checkOnly drifted w names)) p = node_at w p"
proof (induction names arbitrary: drifted w)
  case (Cons name names)
  from sync_round [of w name checkOnly drifted names] obtain w1 where
    "\<forall>p. p \<noteq> sync_template name \<or> checkOnly \<longrightarrow> node_at w1 p = node_at w p"
    "(\<exists>d err. sync_loop checkOnly drifted w (name # names) = (w1, d, Some err)) \<or>
      (\<exists>d. sync_loop checkOnly drifted w (name # names) = sync_loop checkOnly d w1 names)" by blast
  then show ?case using Cons by auto
qed simp

lemma sync_loop_fault: "pj_fault (fst (sync_loop checkOnly drifted w names)) = pj_fault w"
proof (induction names arbitrary: drifted w)
  case (Cons name names)
  from sync_round [of w name checkOnly drifted names] obtain w1 where "pj_fault w1 = pj_fault w"
    "(\<exists>d err. sync_loop checkOnly drifted w (name # names) = (w1, d, Some err)) \<or>
      (\<exists>d. sync_loop checkOnly drifted w (name # names) = sync_loop checkOnly d w1 names)" by blast
  then show ?case using Cons by auto
qed simp


text \<open>A round that succeeds.\<close>

lemma sync_round_done:
  assumes "sync_loop False drifted w (name # names) = (w', d, nil)" "text_at w (sync_source name) \<noteq> Some []"
    and "node_at w (sync_template name) \<notin> {Some Symlink, Some node.Special}"
  shows "\<exists>w1 d1 c. text_at w (sync_source name) = Some c \<and> \<not> Contains c ''{{'' \<and> text_at w1 (sync_template name) = Some c \<and>
     sync_loop False d1 w1 names = (w', d, nil) \<and> (\<forall>p. p \<noteq> sync_template name \<longrightarrow> node_at w1 p = node_at w p)"
proof -
  obtain w1 src where w1: "pj_nodes w1 = pj_nodes w" "read_file w (sync_source name) = (w1, src)" by (rule read_file_split)
  obtain w2 dst where w2: "pj_nodes w2 = pj_nodes w1" "read_file w1 (sync_template name) = (w2, dst)" by (rule read_file_split)
  obtain c where c: "src = Inr c" "\<not> Contains c ''{{''"
    using assms(1) w1 by (auto simp: sync_loop.simps Let_def split: sum.splits if_splits)
  have src: "text_at w (sync_source name) = Some c" using read_file_text [of w "sync_source name" w1 c] w1 c by simp
  then have "c \<noteq> []" using assms(2) by simp
  show ?thesis
  proof (cases "c = (case dst of Inr d \<Rightarrow> d | _ \<Rightarrow> [])")
    case True
    then have "dst = Inr c" using \<open>c \<noteq> []\<close> by (cases dst) simp_all
    moreover have "text_at w2 (sync_template name) = Some c"
      using read_file_text [of w1 "sync_template name" w2 c] w2 calculation by (simp add: text_at_def)
    ultimately show ?thesis using assms(1) w1 w2 c src
      by (intro exI [of _ w2] exI [of _ drifted] exI [of _ c]) (simp add: sync_loop.simps Let_def)
  next
    case False
    obtain w3 r where w3: "write_file w2 (sync_template name) c 420 = (w3, r)" by fastforce
    have "\<not> (case dst of Inl err \<Rightarrow> err \<noteq> ENOENT | _ \<Rightarrow> False)" using assms(1) w1 w2 c by (auto simp: sync_loop.simps Let_def)
    then have rest: "(case r of Inl err \<Rightarrow> (w3, True, Some (''write '' @ Join (sync_template name) ''/'' @ '': '' @ err))
         | Inr _ \<Rightarrow> sync_loop False True w3 names) = (w', d, nil)"
      using assms(1) w1 w2 w3 c False by (cases r) (simp_all add: sync_loop.simps Let_def)
    then obtain u where u: "r = Inr u" by (cases r) simp_all
    have "\<exists>k. node_at w3 (sync_template name) = Some (File c k)"
      using write_file_File [OF w3 [unfolded u]] assms(3) w1 w2 by simp
    moreover have "\<forall>p. p \<noteq> sync_template name \<longrightarrow> node_at w3 p = node_at w p"
      using write_file_other [of _ "sync_template name" w2 c 420] w1 w2 w3 by auto
    ultimately show ?thesis using rest u src c
      by (intro exI [of _ w3] exI [of _ True] exI [of _ c]) (auto simp: text_at_def)
  qed
qed

lemma sync_loop_done:
  assumes "sync_loop False drifted w names = (w', d, nil)" "distinct (map sync_template names)"
    and "\<And>n m. n \<in> set names \<Longrightarrow> m \<in> set names \<Longrightarrow> sync_source n \<noteq> sync_template m"
    and "\<And>n. n \<in> set names \<Longrightarrow> text_at w (sync_source n) \<noteq> Some []"
    and "\<And>n. n \<in> set names \<Longrightarrow> node_at w (sync_template n) \<notin> {Some Symlink, Some node.Special}"
    and "name \<in> set names"
  shows "\<exists>c. text_at w (sync_source name) = Some c \<and> \<not> Contains c ''{{'' \<and> text_at w' (sync_template name) = Some c"
  using assms
proof (induction names arbitrary: drifted w)
  case (Cons n names)
  from sync_round_done [OF Cons.prems(1) Cons.prems(4) [of n] Cons.prems(5) [of n]]
  obtain w1 d1 c where c: "text_at w (sync_source n) = Some c" "\<not> Contains c ''{{''" "text_at w1 (sync_template n) = Some c"
    and rest: "sync_loop False d1 w1 names = (w', d, nil)" and other: "\<forall>p. p \<noteq> sync_template n \<longrightarrow> node_at w1 p = node_at w p"
    by auto
  have src: "node_at w1 (sync_source m) = node_at w (sync_source m)" if "m \<in> set (n # names)" for m
    using other Cons.prems(3) [of m n] that by simp
  have tpl: "node_at w1 (sync_template m) = node_at w (sync_template m)" if "m \<in> set names" for m
    using other Cons.prems(2) that by (metis distinct.simps(2) image_eqI list.set_map list.simps(9))
  show ?case
  proof (cases "name \<in> set names")
    case True
    have "\<exists>c. text_at w1 (sync_source name) = Some c \<and> \<not> Contains c ''{{'' \<and> text_at w' (sync_template name) = Some c"
    proof (rule Cons.IH [OF rest _ _ _ _ True])
      show "text_at w1 (sync_source m) \<noteq> Some []" if "m \<in> set names" for m
        using Cons.prems(4) [of m] text_at_same [OF src [of m]] that by simp
      show "node_at w1 (sync_template m) \<notin> {Some Symlink, Some node.Special}" if "m \<in> set names" for m
        using Cons.prems(5) [of m] tpl [of m] that by simp
    qed (use Cons.prems(2,3) in auto)
    then show ?thesis using text_at_same [OF src [of name]] True by simp
  next
    case False
    then have "name = n" using Cons.prems(6) by simp
    moreover have "sync_template n \<notin> sync_template ` set names" using Cons.prems(2) by simp
    then have "node_at w' (sync_template n) = node_at w1 (sync_template n)"
      using sync_loop_keeps [of "sync_template n" names False d1 w1] rest by simp
    ultimately show ?thesis using c text_at_same by metis
  qed
qed simp

lemma sync_loop_check:
  assumes "\<And>n. pj_fault w n = nil"
    and "\<And>n. n \<in> set names \<Longrightarrow> \<exists>c. text_at w (sync_source n) = Some c \<and> \<not> Contains c ''{{'' \<and> text_at w (sync_template n) = Some c"
  shows "\<exists>w'. sync_loop True drifted w names = (w', drifted, nil) \<and> pj_nodes w' = pj_nodes w"
  using assms
proof (induction names arbitrary: w)
  case (Cons n names)
  from Cons.prems(2) [of n] obtain c where c: "text_at w (sync_source n) = Some c" "\<not> Contains c ''{{''"
    "text_at w (sync_template n) = Some c" by auto
  have "read_file w (sync_source n) = (pj_next w, Inr c)" using read_file_ok(1) [OF Cons.prems(1)] c(1) .
  moreover have "read_file (pj_next w) (sync_template n) = (pj_next (pj_next w), Inr c)"
    using read_file_ok(1) [of "pj_next w" "sync_template n" c] Cons.prems(1) c(3) by (simp add: text_at_def)
  ultimately have "sync_loop True drifted w (n # names) = sync_loop True drifted (pj_next (pj_next w)) names"
    using c(2) by (simp add: sync_loop.simps Let_def)
  moreover have "\<exists>w'. sync_loop True drifted (pj_next (pj_next w)) names = (w', drifted, nil) \<and> pj_nodes w' = pj_nodes (pj_next (pj_next w))"
    by (rule Cons.IH) (use Cons.prems in \<open>auto simp: text_at_def\<close>)
  ultimately show ?case by simp
qed simp


definition sync_names :: "string list" where
  "sync_names = sort (map fst runtimeSyncFiles)"

lemma sync_names_paths:
  "set sync_names = fst ` set runtimeSyncFiles" "distinct (map sync_template sync_names)" "sync_source n \<noteq> sync_template m"
  subgoal by (simp add: sync_names_def)
  subgoal by code_simp
  subgoal by (simp add: sync_source_def sync_template_def runtimeSourceDir_def templateDestDir_def)
  done



definition demo_repo :: project where
  "demo_repo = \<lparr>pj_root = Some Dir,
     pj_nodes = (sync_template ''proxy.go'', File ''old'' 420) #
       concat (map (\<lambda>n. [(sync_source n, File n 420), (sync_template n, File n 420)]) sync_names),
     pj_tick = 0, pj_fault = (\<lambda>n. nil), pj_done = (\<lambda>n. 0)\<rparr>"


section \<open>Routes\<close>

lemma first_match_at:
  "m (drop k line) = Some x \<Longrightarrow> (\<And>i. i < k \<Longrightarrow> m (drop i line) = None) \<Longrightarrow> k \<le> length line \<Longrightarrow> first_match m line = Some x"
proof (induction line arbitrary: k)
  case (Cons c line)
  show ?case
  proof (cases k)
    case (Suc j)
    have "m (drop i line) = None" if "i < j" for i using Cons.prems(2) [of "Suc i"] that Suc by simp
    then have "first_match m line = Some x" using Cons.IH [of j] Cons.prems(1,3) Suc by simp
    then show ?thesis using Cons.prems(2) [of 0] Suc by simp
  qed (use Cons.prems in simp)
qed simp

lemma first_match_None: "(\<And>i. i \<le> length line \<Longrightarrow> m (drop i line) = None) \<Longrightarrow> first_match m line = None"
proof (induction line)
  case Nil
  from Nil [of 0] show ?case by simp
next
  case (Cons c line)
  have "m (drop i line) = None" if "i \<le> length line" for i using Cons.prems [of "Suc i"] that by simp
  then show ?case using Cons.IH Cons.prems [of 0] by simp
qed

lemma quoted_text:
  assumes "path \<noteq> []" "quotemark \<notin> set path"
  shows "quoted (quotemark # path @ quotemark # post) = Some path" "quoted (CHR '' '' # quotemark # path @ quotemark # post) = Some path"
proof -
  have "takeWhile (\<lambda>c. c \<noteq> quotemark) (path @ quotemark # post) = path" using assms(2) by (subst takeWhile_append2) auto
  then show "quoted (quotemark # path @ quotemark # post) = Some path" "quoted (CHR '' '' # quotemark # path @ quotemark # post) = Some path"
    using assms(1) by (simp_all add: quoted_def after_blanks_def after_def blank_def Let_def)
qed

text \<open>The two ways to register a handler at a server or registrar, and where one stands in a line.\<close>

fun registration :: "string \<Rightarrow> bool \<Rightarrow> string \<Rightarrow> string \<Rightarrow> string" where
  "registration v False m path = v @ ''.'' @ m @ ''('' @ quotemark # path @ [quotemark]"
| "registration v True m path = v @ ''.Handle(http.Method'' @ m @ '', '' @ quotemark # path @ [quotemark]"

definition registers_at :: "string \<Rightarrow> nat \<Rightarrow> bool" where
  "registers_at line i \<longleftrightarrow> prefix ''server.'' (drop i line) \<or> prefix ''registrar.'' (drop i line)"

lemma no_registration:
  assumes "\<not> registers_at line i"
  shows "serverMethodPattern (drop i line) = None" "serverHandlePattern (drop i line) = None"
  using assms by (auto simp: registers_at_def serverMethodPattern_def serverHandlePattern_def after_def prefix_def)

lemmas pattern_defs = serverMethodPattern_def serverHandlePattern_def after_def after_blanks_def blank_def

lemma registration_matches:
  assumes v: "v \<in> {''server'', ''registrar''}" and m: "m \<in> {''Get'', ''Post'', ''Put'', ''Patch'', ''Delete''}"
    and path: "path \<noteq> []" "quotemark \<notin> set path"
  shows "serverMethodPattern (registration v False m path @ post) = Some (m, path)"
    "serverMethodPattern (registration v True m path @ post) = None"
    "serverHandlePattern (registration v True m path @ post) = Some (m, path)"
proof -
  note q = quoted_text [OF path, of post]
  consider "v = ''server''" | "v = ''registrar''" using v by blast
  note vs = this
  consider "m = ''Get''" | "m = ''Post''" | "m = ''Put''" | "m = ''Patch''" | "m = ''Delete''" using m by blast
  note ms = this
  show "serverMethodPattern (registration v False m path @ post) = Some (m, path)"
    by (rule vs; rule ms) (simp_all add: q(1) pattern_defs)
  show "serverMethodPattern (registration v True m path @ post) = None"
    by (rule vs) (simp_all add: pattern_defs)
  show "serverHandlePattern (registration v True m path @ post) = Some (m, path)"
    by (rule vs; rule ms) (simp_all add: q(2) pattern_defs)
qed

lemma route_in_line_registration:
  assumes "v \<in> {''server'', ''registrar''}" "m \<in> {''Get'', ''Post'', ''Put'', ''Patch'', ''Delete''}" "path \<noteq> []" "quotemark \<notin> set path"
    and "\<not> Contains (pre @ registration v handle m path @ post) ''mux.''"
    and "\<And>i. i \<noteq> length pre \<Longrightarrow> \<not> registers_at (pre @ registration v handle m path @ post) i"
  shows "route_in_line (pre @ registration v handle m path @ post) = Some (ToUpper m, path)"
proof -
  let ?line = "pre @ registration v handle m path @ post"
  note here = registration_matches [OF assms(1-4), of post]
  have at: "drop (length pre) ?line = registration v handle m path @ post" by simp
  have none: "serverMethodPattern (drop i ?line) = None" "serverHandlePattern (drop i ?line) = None" if "i \<noteq> length pre" for i
    using no_registration [OF assms(6) [OF that]] .
  have "muxRegisterPattern (drop i ?line) = None" for i
  proof -
    have "\<not> sublist ''mux.'' ?line" using assms(5) by (simp add: Contains_iff)
    then have "\<not> prefix ''mux.'' (drop i ?line)" 
      using sublist_drop [of i ?line] prefix_imp_sublist sublist_order.order.trans by blast
    then show ?thesis by (simp add: muxRegisterPattern_def after_def)
  qed
  then have mux: "first_match muxRegisterPattern ?line = None" by (rule first_match_None)
  show ?thesis
  proof (cases handle)
    case False
    have "first_match serverMethodPattern ?line = Some (m, path)"
    proof (rule first_match_at [of _ "length pre"])
      show "serverMethodPattern (drop (length pre) ?line) = Some (m, path)" unfolding at using here(1) False by simp
      show "serverMethodPattern (drop i ?line) = None" if "i < length pre" for i by (rule none(1)) (use that in simp)
    qed simp
    then show ?thesis using mux by (simp add: route_in_line_def)
  next
    case True
    have "serverMethodPattern (drop (length pre) ?line) = None" unfolding at using here(2) True by simp
    then have "serverMethodPattern (drop i ?line) = None" for i using none(1) [of i] by blast
    then have "first_match serverMethodPattern ?line = None" by (rule first_match_None)
    moreover have "first_match serverHandlePattern ?line = Some (m, path)"
    proof (rule first_match_at [of _ "length pre"])
      show "serverHandlePattern (drop (length pre) ?line) = Some (m, path)" unfolding at using here(3) True by simp
      show "serverHandlePattern (drop i ?line) = None" if "i < length pre" for i by (rule none(2)) (use that in simp)
    qed simp
    ultimately show ?thesis using mux by (simp add: route_in_line_def)
  qed
qed

lemma routes_in_lines_nth:
  "n < length lines \<Longrightarrow> route_in_line (lines ! n) = Some (m, p) \<Longrightarrow>
     \<lparr>ro_Method = m, ro_Path = p, ro_File = path, ro_Line = k + n + 1\<rparr> \<in> set (routes_in_lines path k lines)"
proof (induction lines arbitrary: n k)
  case (Cons line lines)
  show ?case
  proof (cases n)
    case (Suc j)
    then have "\<lparr>ro_Method = m, ro_Path = p, ro_File = path, ro_Line = Suc k + j + 1\<rparr> \<in> set (routes_in_lines path (Suc k) lines)"
      using Cons.IH [of j "Suc k"] Cons.prems by simp
    then show ?thesis using Suc by (auto split: option.split)
  qed (use Cons.prems in simp)
qed simp

lemma scanRoutes_file:
  "(file, WalkFile content) \<in> set walk \<Longrightarrow> (\<And>p. (p, WalkDir) \<in> set walk \<Longrightarrow> \<not> shouldSkipWatchDir (Base p)) \<Longrightarrow>
     HasSuffix file ''.go'' \<Longrightarrow> \<not> HasSuffix file ''_test.go'' \<Longrightarrow>
     set (routes_in_lines file 0 (Split content CHR 0x0A)) \<subseteq> set (scanRoutes walk None)"
proof (induction walk)
  case (Cons e walk)
  obtain path info where e: "e = (path, info)" by fastforce
  have "info = WalkDir \<Longrightarrow> \<not> shouldSkipWatchDir (Base path)" using Cons.prems(2) e by auto
  then show ?case using Cons e by (cases info) (auto simp del: Split.simps routes_in_lines.simps)
qed simp

text \<open>
  Every registration of a route is listed: in a Go file the scan visits, a line on which a server or
  registrar is given a handler for a method and a path, by either call and nothing else that looks like a
  registration, yields the entry with that method, path, file and line number.\<close>

lemma routes_lists_registration:
  assumes "(file, WalkFile content) \<in> set walk" "\<And>p. (p, WalkDir) \<in> set walk \<Longrightarrow> \<not> shouldSkipWatchDir (Base p)"
    and "HasSuffix file ''.go''" "\<not> HasSuffix file ''_test.go''"
    and "n < length (Split content CHR 0x0A)" "Split content CHR 0x0A ! n = pre @ registration v handle m path @ post"
    and "v \<in> {''server'', ''registrar''}" "m \<in> {''Get'', ''Post'', ''Put'', ''Patch'', ''Delete''}" "path \<noteq> []" "quotemark \<notin> set path"
    and "\<not> Contains (pre @ registration v handle m path @ post) ''mux.''"
    and "\<And>i. i \<noteq> length pre \<Longrightarrow> \<not> registers_at (pre @ registration v handle m path @ post) i"
  shows "\<lparr>ro_Method = ToUpper m, ro_Path = path, ro_File = file, ro_Line = n + 1\<rparr> \<in> set (scanRoutes walk None)"
proof -
  have "route_in_line (Split content CHR 0x0A ! n) = Some (ToUpper m, path)"
    using route_in_line_registration [OF assms(7-12)] assms(6) by simp
  then have "\<lparr>ro_Method = ToUpper m, ro_Path = path, ro_File = file, ro_Line = 0 + n + 1\<rparr> \<in>
      set (routes_in_lines file 0 (Split content CHR 0x0A))" by (rule routes_in_lines_nth [OF assms(5)])
  then show ?thesis using scanRoutes_file [OF assms(1,2,3,4)] by auto
qed


text \<open>A handler file as \<open>generate crud\<close> writes it, with its first registration.\<close>

definition demo_handlers :: string where
  "demo_handlers = ''package handlers'' @ [CHR 0x0A] @
     [CHR 0x09] @ registration ''registrar'' True ''Get'' ''/api/posts'' @ '', http.HandlerFunc(list))''"

lemma registers_only_at:
  "list_all (\<lambda>i. i = k \<or> \<not> registers_at line i) [0..<length line] \<Longrightarrow> i \<noteq> k \<Longrightarrow> \<not> registers_at line i"
  by (cases "i < length line") (auto simp: list_all_iff registers_at_def)

lemma routes_lists_registration_witness:
  "\<lparr>ro_Method = ''GET'', ro_Path = ''/api/posts'', ro_File = ''handlers/posts.go'', ro_Line = 2\<rparr>
     \<in> set (scanRoutes [(''.'', WalkDir), (''handlers'', WalkDir), (''handlers/posts.go'', WalkFile demo_handlers)] None)"
proof -
  let ?walk = "[(''.'', WalkDir), (''handlers'', WalkDir), (''handlers/posts.go'', WalkFile demo_handlers)]"
  let ?line = "[CHR 0x09] @ registration ''registrar'' True ''Get'' ''/api/posts'' @ '', http.HandlerFunc(list))''"
  have dirs: "\<not> shouldSkipWatchDir (Base p)" if "(p, WalkDir) \<in> set ?walk" for p
  proof -
    have "\<not> shouldSkipWatchDir (Base ''.'')" "\<not> shouldSkipWatchDir (Base ''handlers'')" by code_simp+
    with that show ?thesis by auto
  qed
  have listed: "(''handlers/posts.go'', WalkFile demo_handlers) \<in> set ?walk" by simp
  have names: "HasSuffix ''handlers/posts.go'' ''.go''" "\<not> HasSuffix ''handlers/posts.go'' ''_test.go''" by code_simp+
  have line: "1 < length (Split demo_handlers CHR 0x0A)" "Split demo_handlers CHR 0x0A ! 1 = ?line" by code_simp+
  have parts: "''registrar'' \<in> {''server'', ''registrar''}" "''Get'' \<in> {''Get'', ''Post'', ''Put'', ''Patch'', ''Delete''}"
    "''/api/posts'' \<noteq> []" "quotemark \<notin> set ''/api/posts''" by simp_all
  have mux: "\<not> Contains ?line ''mux.''" by code_simp
  have only: "list_all (\<lambda>i. i = length [CHR 0x09] \<or> \<not> registers_at ?line i) [0..<length ?line]" by code_simp
  have upper: "ToUpper ''Get'' = ''GET''" by code_simp
  have "\<lparr>ro_Method = ToUpper ''Get'', ro_Path = ''/api/posts'', ro_File = ''handlers/posts.go'', ro_Line = 1 + 1\<rparr> \<in> set (scanRoutes ?walk None)"
    by (rule routes_lists_registration [OF listed _ names line parts mux]) (use dirs registers_only_at [OF only] in blast)+
  then show ?thesis by (simp only: upper one_add_one)
qed

section \<open>Watch mode\<close>

interpretation generate_loop: step_invariant watch_step
  "\<lambda>g. gw_stale g \<longrightarrow> (\<exists>t. gw_regenTimer g = Some t \<and> t \<in> set (gw_timers g)) \<or> gw_fresh g - 1 \<in> set (gw_timers g)"
  by unfold_locales (auto elim!: watch_step.cases simp: regenerate_later_def regen_fires_def)

text \<open>A change is never forgotten: while no regeneration has begun since it, the timer of the last event is armed.\<close>

lemma watch_regenerates:
  "watch_step\<^sup>*\<^sup>* watch_start g \<Longrightarrow> gw_stale g \<Longrightarrow> \<exists>t \<in> set (gw_timers g). watch_step g (regen_fires t g) \<and> \<not> gw_stale (regen_fires t g)"
  using generate_loop.reach_keeps [of watch_start g]
  by (auto simp: watch_start_def regen_fires_def intro: watch_step.fires [unfolded regen_fires_def])

text \<open>Nothing keeps a regeneration from starting while another one runs, and the files templ writes are watched.\<close>

definition overlapping :: generate_watch where
  "overlapping = regen_fires 1 (regenerate_later True (regen_fires 0 (regenerate_later True watch_start)))"

lemma regenerations_overlap: "watch_step\<^sup>*\<^sup>* watch_start overlapping \<and> gw_running overlapping = [0, 1]"
proof
  have "watch_step watch_start (regenerate_later True watch_start)" (is "watch_step _ ?a") by (rule watch_step.event)
  moreover have "watch_step ?a (regen_fires 0 ?a)" (is "watch_step _ ?b")
    by (rule watch_step.fires) (simp add: regenerate_later_def watch_start_def)
  moreover have "watch_step ?b (regenerate_later True ?b)" (is "watch_step _ ?c") by (rule watch_step.event)
  moreover have "watch_step ?c overlapping" unfolding overlapping_def
    by (rule watch_step.fires) (simp add: regenerate_later_def watch_start_def regen_fires_def)
  ultimately show "watch_step\<^sup>*\<^sup>* watch_start overlapping" by (meson converse_rtranclp_into_rtranclp rtranclp.rtrancl_refl)
  show "gw_running overlapping = [0, 1]" by code_simp
qed

lemma own_output_watched: "shouldHandleWatchEvent (\<lambda>p. Regular st) ''views/index_templ.go'' [FsWrite]"
proof -
  have "filepath_Clean ''views/index_templ.go'' = ''views/index_templ.go''" "\<not> isIgnoredWatchPath ''views/index_templ.go''"
    "ToLower (filepath_Ext ''views/index_templ.go'') \<in> set watched_exts" "\<not> HasSuffix ''views/index_templ.go'' ''.swp''"
    "\<not> HasSuffix ''views/index_templ.go'' ''.tmp''" "\<not> HasSuffix ''views/index_templ.go'' ''~''" by code_simp+
  then show ?thesis by (simp add: shouldHandleWatchEvent_def Let_def)
qed

section \<open>Bill of materials\<close>

text \<open>What a package URL identifies: the path and the version, which local builds do not have.\<close>

definition identity :: "Module \<Rightarrow> string \<times> string" where
  "identity m = (mo_Path m, if mo_Version m = ''(devel)'' then [] else mo_Version m)"

lemma purl_inject:
  assumes "CHR ''@'' \<notin> set p" "CHR ''@'' \<notin> set q" "cc_BOMRef (goModuleComponent k p v) = cc_BOMRef (goModuleComponent k' q u)"
  shows "p = q \<and> (if v = ''(devel)'' then [] else v) = (if u = ''(devel)'' then [] else u)"
proof -
  let ?tail = "\<lambda>v. if v \<noteq> [] \<and> v \<noteq> ''(devel)'' then CHR ''@'' # v else []"
  have eq: "p @ ?tail v = q @ ?tail u" using assms(3) by (auto simp: goModuleComponent_def Let_def split: if_splits)
  have "takeWhile (\<lambda>c. c \<noteq> CHR ''@'') (p @ ?tail v) = p" "takeWhile (\<lambda>c. c \<noteq> CHR ''@'') (q @ ?tail u) = q"
    using assms(1,2) by (subst takeWhile_append2; auto)+
  then have "p = q" using eq by simp
  with eq have "?tail v = ?tail u" by simp
  with \<open>p = q\<close> show ?thesis by (auto split: if_splits)
qed

text \<open>The components are the standard library and exactly the linked modules, a replaced one under its
  replacement, and no two of them share a reference.\<close>

lemma sbom_lists_linked_modules:
  fixes cliVersion timestamp :: string
  assumes "distinct (map (identity \<circ> linked) (bi_Deps info))"
    and "\<And>d. d \<in> set (bi_Deps info) \<Longrightarrow> CHR ''@'' \<notin> set (mo_Path (linked d)) \<and> mo_Path (linked d) \<noteq> ''stdlib''"
    and "TrimPrefix (bi_GoVersion info) ''go'' \<noteq> ''(devel)''" "TrimPrefix (bi_GoVersion info) ''go'' \<noteq> []"
  defines "comps \<equiv> cb_Components (newCycloneDXBOM cliVersion info timestamp)"
  shows "map (\<lambda>c. (cc_Name c, cc_Version c)) comps =
      (''stdlib'', bi_GoVersion info) # map (\<lambda>d. (mo_Path (linked d), mo_Version (linked d))) (bi_Deps info)"
    and "distinct (map cc_BOMRef comps)"
proof -
  have ref: "cc_BOMRef (dependency_component d) = cc_BOMRef (goModuleComponent ''library'' (mo_Path (linked d)) (mo_Version (linked d)))" for d
    by (simp add: dependency_component_def Let_def)
  have std: "cc_BOMRef (stdlib_component (bi_GoVersion info)) =
      cc_BOMRef (goModuleComponent ''library'' ''stdlib'' (TrimPrefix (bi_GoVersion info) ''go''))"
    using assms(3,4) by (simp add: stdlib_component_def goModuleComponent_def Let_def)
  show "map (\<lambda>c. (cc_Name c, cc_Version c)) comps =
      (''stdlib'', bi_GoVersion info) # map (\<lambda>d. (mo_Path (linked d), mo_Version (linked d))) (bi_Deps info)"
    by (simp add: comps_def newCycloneDXBOM_def Let_def stdlib_component_def dependency_component_def goModuleComponent_def)
  have inj: "inj_on (cc_BOMRef \<circ> dependency_component) (set (bi_Deps info))"
  proof (rule inj_onI)
    fix d e assume d: "d \<in> set (bi_Deps info)" "e \<in> set (bi_Deps info)"
      and eq: "(cc_BOMRef \<circ> dependency_component) d = (cc_BOMRef \<circ> dependency_component) e"
    have "identity (linked d) = identity (linked e)"
      using purl_inject [of "mo_Path (linked d)" "mo_Path (linked e)"] assms(2) [OF d(1)] assms(2) [OF d(2)] eq
      unfolding comp_apply ref identity_def by blast
    then show "d = e" using assms(1) d by (simp add: distinct_map inj_on_def)
  qed
  have "cc_BOMRef (stdlib_component (bi_GoVersion info)) \<noteq> cc_BOMRef (dependency_component d)" if "d \<in> set (bi_Deps info)" for d
  proof
    assume "cc_BOMRef (stdlib_component (bi_GoVersion info)) = cc_BOMRef (dependency_component d)"
    then have "''stdlib'' = mo_Path (linked d)" unfolding ref std using purl_inject assms(2) [OF that] by fastforce
    then show False using assms(2) [OF that] by simp
  qed
  then show "distinct (map cc_BOMRef comps)"
    using inj assms(1) by (auto simp: comps_def newCycloneDXBOM_def Let_def distinct_map)
qed

section \<open>The start of the control plane\<close>

lemma cp_options_token:
  "co_token (foldl cp_option opts args) =
     (case filter (\<lambda>a. HasPrefix a ''--token='') args of [] \<Rightarrow> co_token opts | ts \<Rightarrow> TrimPrefix (last ts) ''--token='')"
proof (induction args arbitrary: opts)
  case (Cons a args)
  have "HasPrefix a ''--token='' \<Longrightarrow> \<not> HasPrefix a ''--addr='' \<and> \<not> HasPrefix a ''--store=''" by (auto simp: HasPrefix_def prefix_def)
  then show ?case using Cons [of "cp_option opts a"] by (auto simp: cp_option_def split: list.split)
qed simp

text \<open>The command serves only with a token that is not blank, and then with the one of the last option, or else
  of the environment.\<close>

lemma controlplane_needs_token:
  "RunControlPlane open_stores tokenEnv args = Serves addr store token \<Longrightarrow>
     TrimSpace token \<noteq> [] \<and> token = (case filter (\<lambda>a. HasPrefix a ''--token='') args of [] \<Rightarrow> tokenEnv | ts \<Rightarrow> TrimPrefix (last ts) ''--token='')"
  by (cases "filter (\<lambda>a. HasPrefix a ''--token='') args")
    (auto simp: RunControlPlane_def cp_options_of_def cp_options_token Let_def split: if_splits store_spec.splits option.splits)

end
