(* ===== verification/Tls.thy ===== *)
theory Tls
  imports Proxy
begin

text \<open>
  TLS for the server and for the upstream of a proxy (\<open>tls.go\<close>). Reading key pairs, files and certificate
  pools is a parameter; a certificate and a pool are named by strings. A configuration of Go's library is
  its fields that the code sets, and a proxy's transport is what the builders of \<open>Proxy\<close> set.
\<close>

section \<open>The server\<close>

record tls_env =
  te_LoadX509KeyPair :: "string \<Rightarrow> string \<Rightarrow> string + string"
  te_ReadFile :: "string \<Rightarrow> string + string"
  te_CertPool :: "string \<Rightarrow> string option"

datatype client_auth = NoClientCert | RequireAndVerifyClientCert

record server_tls =
  st_Certificates :: "string list"
  st_MinVersion :: int
  st_ClientCAs :: "string option"
  st_ClientAuth :: client_auth

abbreviation VersionTLS12 :: int where "VersionTLS12 \<equiv> 771"

definition BuildServerTLSConfig :: "tls_env \<Rightarrow> string \<Rightarrow> string \<Rightarrow> string \<Rightarrow> string + server_tls" where
  "BuildServerTLSConfig env certFile keyFile clientCAFile =
     (if certFile = [] \<or> keyFile = [] then Inl ''certificate and key file are required''
      else case te_LoadX509KeyPair env certFile keyFile of
          Inl err \<Rightarrow> Inl err
        | Inr cert \<Rightarrow>
            (let cfg = \<lparr>st_Certificates = [cert], st_MinVersion = VersionTLS12, st_ClientCAs = None, st_ClientAuth = NoClientCert\<rparr> in
             if clientCAFile = [] then Inr cfg
             else case te_ReadFile env clientCAFile of
                 Inl err \<Rightarrow> Inl err
               | Inr caPEM \<Rightarrow>
                   (case te_CertPool env caPEM of
                      None \<Rightarrow> Inl ''failed to parse client CA certificate''
                    | Some pool \<Rightarrow> Inr (cfg\<lparr>st_ClientCAs := Some pool, st_ClientAuth := RequireAndVerifyClientCert\<rparr>))))"

text \<open>The configuration of the server after the call, and its error.\<close>

definition WithMutualTLS :: "tls_env \<Rightarrow> string \<Rightarrow> string \<Rightarrow> string \<Rightarrow> server_tls option \<Rightarrow> server_tls option \<times> error" where
  "WithMutualTLS env certFile keyFile clientCAFile current =
     (case BuildServerTLSConfig env certFile keyFile clientCAFile of
        Inl err \<Rightarrow> (current, Some err)
      | Inr cfg \<Rightarrow> (Some cfg, nil))"

section \<open>The upstream\<close>

text \<open>An error leaves the proxy as it was. The transport is a clone of the default one.\<close>

definition WithUpstreamTLS :: "tls_env \<Rightarrow> string \<Rightarrow> string \<Rightarrow> string \<Rightarrow> Proxy \<Rightarrow> string + Proxy" where
  "WithUpstreamTLS env certFile keyFile caFile p =
     (if certFile = [] \<and> keyFile = [] \<and> caFile = [] then Inr p
      else case (if certFile \<noteq> [] \<or> keyFile \<noteq> [] then
            if certFile = [] \<or> keyFile = [] then Inl ''certFile and keyFile must both be set''
            else case te_LoadX509KeyPair env certFile keyFile of
                Inl err \<Rightarrow> Inl (''load upstream client certificate: '' @ err)
              | Inr cert \<Rightarrow> Inr (Some cert)
          else Inr None) of
          Inl err \<Rightarrow> Inl err
        | Inr cert \<Rightarrow>
            (case (if caFile \<noteq> [] then
                case te_ReadFile env caFile of
                  Inl err \<Rightarrow> Inl (''read upstream CA file: '' @ err)
                | Inr caPEM \<Rightarrow>
                    (case te_CertPool env caPEM of
                       None \<Rightarrow> Inl ''failed to parse upstream CA certificate''
                     | Some pool \<Rightarrow> Inr (Some pool))
              else Inr None) of
               Inl err \<Rightarrow> Inl err
             | Inr pool \<Rightarrow> Inr (p\<lparr>px_transport := (UpstreamTLS \<lparr>ut_Certificate = cert, ut_RootCAs = pool\<rparr>, None)\<rparr>)))"

section \<open>Guarantees\<close>

text \<open>A server told to check clients does: without an error its handshakes are at least TLS 1.2 and require a client
  certificate that the given authorities signed; with one its configuration is what it was.\<close>

lemma mutual_tls_enforced:
  assumes "WithMutualTLS env certFile keyFile clientCAFile current = (after, err)"
  shows "(err \<noteq> nil \<longrightarrow> after = current) \<and>
     (err = nil \<longrightarrow> (\<exists>cfg cert. after = Some cfg \<and> st_Certificates cfg = [cert] \<and>
        te_LoadX509KeyPair env certFile keyFile = Inr cert \<and> st_MinVersion cfg = VersionTLS12 \<and>
        (clientCAFile \<noteq> [] \<longrightarrow> st_ClientAuth cfg = RequireAndVerifyClientCert \<and>
          (\<exists>pem pool. te_ReadFile env clientCAFile = Inr pem \<and> te_CertPool env pem = Some pool \<and> st_ClientCAs cfg = Some pool))))"
  using assms by (auto simp: WithMutualTLS_def BuildServerTLSConfig_def Let_def split: sum.splits if_splits option.splits)

text \<open>Retries added after the credentials keep them.\<close>

lemma tls_then_retry:
  assumes "WithUpstreamTLS env certFile keyFile caFile p = Inr q" "0 < attempts'"
  shows "px_transport (WithRetry attempts' delay q) = (fst (px_transport q), Some (attempts', delay))"
  using assms by (simp add: WithRetry_def)

text \<open>The other orders lose a setting: credentials set after retries turn them off, and a timeout set after the
  credentials replaces the transport that holds them, so the upstream is called without the client
  certificate and trusted by the authorities of the system.\<close>

lemma tls_drops_retry:
  assumes "WithUpstreamTLS env certFile keyFile caFile (WithRetry attempts' delay p) = Inr q"
    and "certFile \<noteq> [] \<or> keyFile \<noteq> [] \<or> caFile \<noteq> []"
  shows "snd (px_transport q) = None \<and> px_retryAttempts q = attempts'"
  using assms by (auto simp: WithUpstreamTLS_def WithRetry_def split: sum.splits if_splits option.splits)

lemma timeout_drops_tls:
  assumes "WithUpstreamTLS env certFile keyFile caFile p = Inr q" "0 < timeout"
  shows "fst (px_transport (WithTimeout timeout q)) = TimeoutTransport timeout \<and>
    px_transport (WithTimeout timeout q) = px_transport (WithTimeout timeout p)"
  using assms by (auto simp: WithUpstreamTLS_def WithTimeout_def Let_def split: sum.splits if_splits option.splits)

end
