(* ===== verification/Spec2Isabelle.thy ===== *)
theory Spec2Isabelle
  imports Router Registry Artifacts Governance Policy_Versions Control_Plane Telemetry Resilience Proxy Access Server
    Upgrade_Safety Crud_Safety Generator_Safety Hmr_Safety Hmr_Stream
    Sqlite_Safety Dev_Safety Hmr_Server_Safety Commands_Safety Tls
begin

text \<open>
  Verification of the FGOTHS framework: the Go package \<open>pkg/runtime\<close>, the embedded HTTP layer and control
  plane of generated applications, and the commands of \<open>internal/cli\<close> that write to a project.

  \<^bold>\<open>The program.\<close> A \<open>Server\<close> owns a \<open>Router\<close> and a metrics collector. A request is normalised, matched
  against exact, parameter and prefix routes, and served inside the middlewares installed on the
  router: request IDs, logging, metrics, alerts, and the access middlewares (tokens, tenants, quotas,
  client certificates, secrets, audit). A route may be a \<open>Proxy\<close>, which guards its upstream with a
  token bucket, a circuit breaker, health checks, retries and a failover target. The control plane is
  a second HTTP interface: it registers routes, upstreams and policies in a \<open>RouteRegistry\<close>, keeps a
  versioned history of policies, records deployments in a ledger and drives release workflows through
  approval gates, with file stores for what must survive a restart. The command line tool generates a
  project from templates (\<open>init\<close>), adds an entity to it (\<open>generate crud\<close>) and brings its runtime files up
  to date by three-way merges (\<open>upgrade\<close>). During development a hub tells the open pages of a change, as
  events on a stream that each page keeps open; the development command of a project watches its files,
  rebuilds the server next to the running one and tells the hub.

  \<^bold>\<open>Theories and sources\<close> (files are under \<open>pkg/runtime\<close>):
  \<^item> \<open>Go_Prelude\<close>: the parts of Go the code relies on: strings as byte lists, \<open>strings\<close> and \<open>fmt\<close>
    functions, maps as association lists with a parameter for the iteration order, errors, 64-bit
    integers; the collection \<open>go_str\<close> and the guard chains \<open>first_error\<close> and \<open>commit\<close>.
  \<^item> \<open>Go_Interfaces\<close>: the locales \<open>kept_invariant\<close>, \<open>write_once\<close>, \<open>append_only\<close>, \<open>durable_store\<close> and
    \<open>atomic_store\<close>, with what follows from them; each is interpreted where it is provided.
  \<^item> \<open>Go_Paths\<close>: \<open>normalizePath\<close>, \<open>routeMatches\<close>, \<open>joinProxyPath\<close> (\<open>proxy.go\<close>, \<open>router.go\<close>).
  \<^item> \<open>Router\<close>: pattern compilation, registration, matching, dispatch and \<open>PathValue\<close> (\<open>router.go\<close>).
  \<^item> \<open>Registry\<close>: routes, policies, tenants, rollouts, regions and upstreams (\<open>config_registry.go\<close>,
    \<open>rollout.go\<close>, \<open>region.go\<close>, \<open>tenant_registry.go\<close>, \<open>upstream.go\<close>).
  \<^item> \<open>Artifacts\<close>: provenance records with SHA-256 and HMAC written out (\<open>artifacts.go\<close>).
  \<^item> \<open>Go_Disk\<close>: a file system on which writes can fail half-way; \<open>Governance\<close>: diffs, gates, plans,
    manifests, the ledger and its file store, the event log and release workflows (\<open>governance.go\<close>);
    \<open>Policy_Versions\<close>: the policy histories and their store (\<open>policy_versioning.go\<close>).
  \<^item> \<open>Sqlite_Store\<close>: the ledger and the policy versions in a database (\<open>sqlite_store.go\<close>); \<open>Sqlite_Safety\<close>:
    the contract of the database, what the stores guarantee on it, and an in-memory database that keeps it.
  \<^item> \<open>Control_Plane\<close>: authentication, the routing table and every handler (\<open>controlplane.go\<close>).
  \<^item> \<open>Go_Http\<close>: headers, requests with their context, response writers as interpreters of the calls a
    handler makes, the status recorder and the request ID (\<open>metrics.go\<close>, \<open>requestid.go\<close>).
  \<^item> \<open>Telemetry\<close>: the collector, its histograms and the ring of outcomes, the alert and readiness
    (\<open>metrics.go\<close>, \<open>health.go\<close>).
  \<^item> \<open>Resilience\<close>: retrying transport, circuit breaker, token bucket; \<open>Proxy\<close>: builders, director,
    health checks, failover writer and \<open>ServeHTTP\<close> (\<open>proxy.go\<close>, \<open>NewProxy\<close> of \<open>upstream.go\<close>).
  \<^item> \<open>Access\<close>: \<open>auth.go\<close>, \<open>tenant.go\<close>, \<open>identity.go\<close>, \<open>secrets.go\<close>, \<open>audit.go\<close>.
  \<^item> \<open>Server\<close>: \<open>server.go\<close> with the endpoints and middlewares of \<open>health.go\<close> and \<open>requestid.go\<close>.
  \<^item> \<open>Hmr\<close>: the hub, the stream, the codec and the client script (\<open>hmr/hmr.go\<close>, \<open>hmr/codec.go\<close>,
    \<open>hmr/client.go\<close>), the hub with its clients as a step relation; \<open>Hmr_Safety\<close>: its invariant and what
    follows from it; \<open>Hmr_Stream\<close>: base64, framing and codec decoded again, and the page with the script.
  \<^item> \<open>Project_Tree\<close>: the file tree the commands work on and its system calls, each of which can fail, with
    the locales \<open>io_preorder\<close> and \<open>io_relation\<close> of what sequences of calls preserve.
  \<^item> \<open>Upgrade\<close>, \<open>Upgrade_Safety\<close>: the upgrade command (\<open>internal/cli/upgrade.go\<close>, \<open>upgrade_baseline.go\<close>,
    \<open>version.go\<close>) and what it guarantees.
  \<^item> \<open>Project_Config\<close>: configurations and presets (\<open>internal/config\<close>); \<open>Generator\<close>, \<open>Generator_Safety\<close>:
    \<open>internal/generator/generator.go\<close> and \<open>internal/cli/init.go\<close>.
  \<^item> \<open>Crud\<close>, \<open>Crud_Safety\<close>: the entity generator (\<open>internal/cli/crud.go\<close>).
  \<^item> \<open>Dev_Loop\<close>: the development command (\<open>examples/api-demo/cmd/dev/main.go\<close>, the same text in every generated
    project), its loop as a step relation over the sections its mutex guards; \<open>Dev_Safety\<close>: the locale
    \<open>step_invariant\<close>, the invariant of the loop, change detection and the fragment of a page.
  \<^item> \<open>Hmr_Server\<close>: hot reload in a generated server (\<open>examples/api-demo/pkg/runtime/hmr_server.go\<close>), over the hub
    and the response writers; \<open>Hmr_Server_Safety\<close>: pages with and without it, and the way of a message from the
    development loop to the browsers.
  \<^item> \<open>Tls\<close>: the configurations of \<open>tls.go\<close> and what they do to a proxy built by \<open>Proxy\<close>.
  \<^item> \<open>Commands\<close>, \<open>Commands_Safety\<close>: synchronising templates, listing routes, watching, the bill of materials
    and the start of the control plane (\<open>sync_templates.go\<close>, \<open>routes.go\<close>, \<open>generate.go\<close>, \<open>build.go\<close>,
    \<open>controlplane.go\<close> of \<open>internal/cli\<close>).

  \<^bold>\<open>How the code is read.\<close> A Go struct is a record, a method is a function from the state to the state
  and its results, and a method that holds a lock throughout is one atomic step. Errors carry the
  message of the source verbatim; a panic is a value of a sum. Receivers are not nil. The clock is
  read once per locked method and is an argument. An operation over a map takes the iteration order
  as a function \<open>it\<close>, and the theorems hold for every order unless they say otherwise. Floating-point
  numbers are rationals, except where rounding matters (\<open>float64_of_int\<close>); counters are 64-bit. Header
  maps that handlers share are part of the state. \<open>url.Parse\<close>, decoding JSON bodies, formatting with
  \<open>%g\<close>, random numbers, the JWT parser, the FlatBuffers library, the database engine, environment variables, the network and the disk are
  parameters. No fuel is used: every loop is structural or has a
  measure, except the fragment loop, a \<open>partial_function\<close> that is proved to return.

  \<^bold>\<open>What the theorems show.\<close>
  \<^item> Routing: which route is selected, that the choice does not depend on the order of the map, that
    parameters are read back exactly, and that middlewares wrap handlers in registration order.
  \<^item> Configuration: entries are never replaced, references stay valid, weighted selection is exact,
    resolution yields healthy upstreams, rollouts never exceed their limits.
  \<^item> Releases and policies: quorum before approval, workflows refine a phase machine, ledgers and
    histories survive a restart, versions are consecutive and a rollback restores. The same holds over
    SQLite, where saves are atomic, and a database of a newer binary is never opened if its version can be read.
  \<^item> Control plane: it fails closed without a token, every reachable state is well formed, accepted
    deployments are durable, releases start with the approvals their gate asks for.
  \<^item> Proxy: answers are relayed exactly, the breaker of a proxy refines the breaker run over upstream
    outcomes and denies only after a burst of failures, failover serves the secondary's answer, the
    token bucket is bounded, retrying agrees with a list of attempts; and where these features do not
    combine (retries with failover, chunked failures).
  \<^item> Access: only requests with a token signed under the secret and claims that meet the policy pass,
    and quotas admit exactly what a sliding window over all admissions admits.
  \<^item> Server and telemetry: counters are exact tallies of the matched requests, error rates and
    percentiles are those of the retained windows, handler and client see one request ID.
  \<^item> Hot reload: whatever the interleaving, clients get the events in order and without repetition and a
    broadcast never blocks or panics, a browser decodes what was sent; and a run in which \<open>Subscribe\<close> hangs. A
    server with hot reload answers as one without, but for the script, and passes messages on unchanged.
  \<^item> Development loop: one cycle and one server at a time, changes are detected exactly and none is lost
    while no cycle gives up on one, the fragment loop ends and finds the content of its container; and runs
    in which a change is stranded, a server survives the loop and a page keeps its old layout.
  \<^item> Commands: whatever system call fails, an upgrade loses no contents and generation changes no existing
    file, a failed generation leaves nothing behind, and the entity generator keeps all files but two. On
    success the plan, the rendered templates and the list of routes are installed exactly, a second
    upgrade changes nothing, and names and arguments convert back and forth. After a synchronisation the
    templates are the runtime sources, and the scan lists every registration.

  \<^bold>\<open>Not modelled.\<close> Handshakes, socket options, the accept loop and OpenTelemetry export hand over to
  libraries. Queries, raw paths, protocol upgrades, trailers and informational responses of the
  reverse proxy are left out of its model.
  The texts of the templates and the language of \<open>text/template\<close> are parameters of the generators. The
  compiler and templ are child processes, and running them is not modelled. In the development
  command the child processes, the network and the wait for readiness are inputs of the steps. The rest of the examples and benchmarks are copies of the runtime and demo handlers.
\<close>

end
